(* ===== verification/Clox_Prelude.thy ===== *)
theory Clox_Prelude
  imports Main "HOL-Library.Word"
begin

unbundle bit_operations_syntax

text \<open>Shared vocabulary of the development: the machine types of the C code, the
  collections of rewrite rules that the component theories fill, and the generic
  lemmas on lists, options and machine words that several components use.\<close>

subsection \<open>Machine types\<close>

type_synonym u8 = "8 word"
type_synonym u16 = "16 word"
type_synonym u32 = "32 word"
type_synonym u64 = "64 word"

text \<open>Addresses of the C program; the null pointer is the address 0.\<close>

type_synonym addr = "64 word"

abbreviation NULL :: addr where
  "NULL \<equiv> 0"

text \<open>C strings are lists of unsigned bytes, without the final NUL.\<close>

type_synonym bytes = "8 word list"

subsection \<open>Collections\<close>

named_theorems val_simps \<open>rewrite rules for tagged values\<close>
named_theorems tbl_simps \<open>rewrite rules for hash tables\<close>
named_theorems iseq_simps \<open>rewrite rules for instruction sequences\<close>
named_theorems gc_simps \<open>rewrite rules for the collector\<close>
named_theorems scan_simps \<open>rewrite rules for the scanner\<close>

subsection \<open>Lists\<close>

lemma nth_update_cases:
  "i < length xs \<Longrightarrow> (xs[i := v]) ! j = (if j = i then v else xs ! j)"
  by auto

lemma take_update_outside [simp]:
  "n \<le> i \<Longrightarrow> take n (xs[i := v]) = take n xs"
  by simp

lemma take_Suc_update:
  "n < length xs \<Longrightarrow> take (Suc n) (xs[n := v]) = take n xs @ [v]"
  by (simp add: take_Suc_conv_app_nth)

lemma length_filter_update:
  assumes "i < length xs"
  shows "length (filter P (xs[i := v])) + (if P (xs ! i) then 1 else 0)
       = length (filter P xs) + (if P v then 1 else 0)"
proof -
  have 1: "filter P xs = filter P (take i xs) @ filter P [xs ! i] @ filter P (drop (Suc i) xs)"
    using assms by (subst id_take_nth_drop [of i xs]) simp_all
  have 2: "filter P (xs[i := v]) = filter P (take i xs) @ filter P [v] @ filter P (drop (Suc i) xs)"
    using assms by (simp add: upd_conv_take_nth_drop)
  show ?thesis unfolding 1 2 by simp
qed

lemma length_filter_less_if_ex:
  "\<exists>i<length xs. \<not> P (xs ! i) \<Longrightarrow> length (filter P xs) < length xs"
  by (metis length_filter_less nth_mem)

lemma ex_not_if_length_filter_less:
  "length (filter P xs) < length xs \<Longrightarrow> \<exists>i<length xs. \<not> P (xs ! i)"
  by (metis filter_True in_set_conv_nth less_irrefl_nat)

lemma find_SomeD: "List.find P xs = Some x \<Longrightarrow> x \<in> set xs \<and> P x"
  by (induction xs) (auto split: if_splits)

subsection \<open>Machine words\<close>

lemma unat_and_mask_mod:
  fixes w :: "'a::len word"
  assumes "n < LENGTH('a)"
  shows "unat (w AND mask n) = unat w mod 2 ^ n"
proof -
  have "unat (w AND mask n) = take_bit n (unat w)"
    by (metis take_bit_eq_mask unsigned_take_bit_eq)
  then show ?thesis by (simp only: take_bit_eq_mod)
qed

lemma unat_Suc_lt:
  fixes w :: "'a::len word"
  assumes "unat w < 2 ^ n" "n < LENGTH('a)"
  shows "unat (w + 1) mod 2 ^ n = Suc (unat w) mod 2 ^ n"
proof -
  have "unat (w + 1) = Suc (unat w) mod 2 ^ LENGTH('a)"
    by (simp add: unat_word_ariths)
  moreover have "Suc (unat w) < 2 ^ LENGTH('a)"
  proof -
    have "Suc (unat w) \<le> 2 ^ n" using assms(1) by simp
    also have "(2::nat) ^ n < 2 ^ LENGTH('a)" using assms(2) by simp
    finally show ?thesis .
  qed
  ultimately show ?thesis by simp
qed

end
