(* ===== verification/Clox_Value.thy ===== *)
theory Clox_Value
  imports Clox_Prelude
begin

unbundle bit_operations_syntax

text \<open>Values (value.h, value.c) in the configuration the Makefile builds: NaN tagging.
  A value is a 64 bit word. A number is the bit pattern of its double, an object is its
  address with the sign bit and the quiet NaN bits set, and nil, true, false and the
  undefined value are small tags under the quiet NaN bits. The value array of value.c
  follows: a growable buffer whose slots beyond the count are indeterminate.\<close>

type_synonym lxvalue = "64 word"

subsection \<open>Tagged words\<close>

definition SIGN_BIT :: u64 where "SIGN_BIT = push_bit 63 1"
definition QNAN :: u64 where "QNAN = 0x7ffc000000000000"

definition MASK_TAG :: u64 where "MASK_TAG = 7"
definition TAG_NIL :: u64 where "TAG_NIL = 1"
definition TAG_FALSE :: u64 where "TAG_FALSE = 2"
definition TAG_TRUE :: u64 where "TAG_TRUE = 3"
definition TAG_UNDEFINED :: u64 where "TAG_UNDEFINED = 4"

definition TRUE_VAL :: lxvalue where "TRUE_VAL = QNAN OR TAG_TRUE"
definition NIL_VAL :: lxvalue where "NIL_VAL = QNAN OR TAG_NIL"
definition FALSE_VAL :: lxvalue where "FALSE_VAL = QNAN OR TAG_FALSE"
definition UNDEF_VAL :: lxvalue where "UNDEF_VAL = QNAN OR TAG_UNDEFINED"

definition IS_BOOL :: "lxvalue \<Rightarrow> bool" where
  "IS_BOOL v \<longleftrightarrow> v = TRUE_VAL \<or> v = FALSE_VAL"
definition IS_NIL :: "lxvalue \<Rightarrow> bool" where
  "IS_NIL v \<longleftrightarrow> v = NIL_VAL"
definition IS_NUMBER :: "lxvalue \<Rightarrow> bool" where
  "IS_NUMBER v \<longleftrightarrow> v AND QNAN \<noteq> QNAN"
definition IS_OBJ :: "lxvalue \<Rightarrow> bool" where
  "IS_OBJ v \<longleftrightarrow> v AND (QNAN OR SIGN_BIT) = (QNAN OR SIGN_BIT)"
definition IS_UNDEF :: "lxvalue \<Rightarrow> bool" where
  "IS_UNDEF v \<longleftrightarrow> v = UNDEF_VAL"

definition AS_BOOL :: "lxvalue \<Rightarrow> bool" where
  "AS_BOOL v \<longleftrightarrow> v = TRUE_VAL"
definition AS_OBJ :: "lxvalue \<Rightarrow> addr" where
  "AS_OBJ v = v AND NOT (SIGN_BIT OR QNAN)"
definition BOOL_VAL :: "bool \<Rightarrow> lxvalue" where
  "BOOL_VAL b = (if b then TRUE_VAL else FALSE_VAL)"
definition objectToValue :: "addr \<Rightarrow> lxvalue" where
  "objectToValue p = SIGN_BIT OR QNAN OR p"
definition GET_TAG :: "lxvalue \<Rightarrow> u64" where
  "GET_TAG v = v AND MASK_TAG"

text \<open>numberToValue and valueToNumber reinterpret the bits of a double through a union;
  on bit patterns they are the identity.\<close>

definition numberToValue :: "u64 \<Rightarrow> lxvalue" where
  "numberToValue bits64 = bits64"
definition valueToNumber :: "lxvalue \<Rightarrow> u64" where
  "valueToNumber v = v"

text \<open>typeOfVal; typeOfObj names the type of an object and is passed in. None is the
  UNREACHABLE abort.\<close>

definition typeOfVal :: "(addr \<Rightarrow> string) \<Rightarrow> lxvalue \<Rightarrow> string option" where
  "typeOfVal typeOfObj v =
     (if IS_OBJ v then Some (typeOfObj (AS_OBJ v))
      else if IS_BOOL v then Some ''bool''
      else if IS_NIL v then Some ''nil''
      else if IS_NUMBER v then Some ''number''
      else if IS_UNDEF v then Some ''UNDEF?''
      else None)"

definition isTruthy :: "lxvalue \<Rightarrow> bool option" where
  "isTruthy v =
     (if v = NIL_VAL then Some False
      else if v = TRUE_VAL then Some True
      else if v = FALSE_VAL then Some False
      else if v = UNDEF_VAL then None
      else Some True)"

text \<open>is_bool_p, is_nil_p, is_number_p and is_obj_p are the macros as functions.\<close>

definition is_bool_p :: "lxvalue \<Rightarrow> bool" where "is_bool_p v = IS_BOOL v"
definition is_nil_p :: "lxvalue \<Rightarrow> bool" where "is_nil_p v = IS_NIL v"
definition is_number_p :: "lxvalue \<Rightarrow> bool" where "is_number_p v = IS_NUMBER v"
definition is_obj_p :: "lxvalue \<Rightarrow> bool" where "is_obj_p v = IS_OBJ v"

lemmas tag_defs = TRUE_VAL_def NIL_VAL_def FALSE_VAL_def UNDEF_VAL_def QNAN_def
  TAG_NIL_def TAG_FALSE_def TAG_TRUE_def TAG_UNDEFINED_def

lemmas kind_defs = IS_BOOL_def IS_NIL_def IS_NUMBER_def IS_OBJ_def IS_UNDEF_def

lemma SIGN_BIT_num: "SIGN_BIT = 0x8000000000000000"
  by (simp add: SIGN_BIT_def)

lemma singleton_words [val_simps]:
  "NIL_VAL = 0x7ffc000000000001" "FALSE_VAL = 0x7ffc000000000002"
  "TRUE_VAL = 0x7ffc000000000003" "UNDEF_VAL = 0x7ffc000000000004"
  by (simp_all add: tag_defs)

lemma singletons_distinct [simp]:
  "NIL_VAL \<noteq> TRUE_VAL" "NIL_VAL \<noteq> FALSE_VAL" "NIL_VAL \<noteq> UNDEF_VAL"
  "TRUE_VAL \<noteq> NIL_VAL" "TRUE_VAL \<noteq> FALSE_VAL" "TRUE_VAL \<noteq> UNDEF_VAL"
  "FALSE_VAL \<noteq> NIL_VAL" "FALSE_VAL \<noteq> TRUE_VAL" "FALSE_VAL \<noteq> UNDEF_VAL"
  "UNDEF_VAL \<noteq> NIL_VAL" "UNDEF_VAL \<noteq> TRUE_VAL" "UNDEF_VAL \<noteq> FALSE_VAL"
  by (simp_all add: singleton_words)

lemma singleton_kinds [simp]:
  "\<not> IS_NUMBER NIL_VAL" "\<not> IS_NUMBER TRUE_VAL" "\<not> IS_NUMBER FALSE_VAL" "\<not> IS_NUMBER UNDEF_VAL"
  "\<not> IS_OBJ NIL_VAL" "\<not> IS_OBJ TRUE_VAL" "\<not> IS_OBJ FALSE_VAL" "\<not> IS_OBJ UNDEF_VAL"
  by (simp_all add: kind_defs singleton_words QNAN_def SIGN_BIT_num)

lemma bit_QNAN: "bit QNAN n \<longleftrightarrow> 50 \<le> n \<and> n < 63"
proof -
  have Q: "QNAN = push_bit 50 (mask 13)"
    by (simp add: QNAN_def mask_eq_exp_minus_1 push_bit_eq_mult)
  show ?thesis
    unfolding Q bit_push_bit_iff bit_mask_iff by auto
qed

lemma bit_SIGN_BIT: "bit SIGN_BIT n \<longleftrightarrow> n = 63"
  unfolding SIGN_BIT_def bit_push_bit_iff bit_1_iff by auto

lemma OBJ_not_NUMBER: "IS_OBJ v \<Longrightarrow> \<not> IS_NUMBER v"
proof -
  assume "IS_OBJ v"
  then have "bit v n" if "bit QNAN n" for n
    using that unfolding IS_OBJ_def by (metis bit_and_iff bit_or_iff)
  then have "v AND QNAN = QNAN"
    by (intro bit_word_eqI) (auto simp: bit_simps)
  then show ?thesis by (simp add: IS_NUMBER_def)
qed

text \<open>Addresses of 50 bits, the ones that fit under the tag.\<close>

definition addr_ok :: "addr \<Rightarrow> bool" where
  "addr_ok p \<longleftrightarrow> unat p < 2 ^ 50"

lemma addr_ok_take_bit: "addr_ok p \<longleftrightarrow> take_bit 50 p = p"
  unfolding addr_ok_def
  by (simp add: word_unat_eq_iff unsigned_take_bit_eq take_bit_nat_eq_self_iff del: power_numeral)

lemma addr_ok_bits: "addr_ok p \<longleftrightarrow> (\<forall>n\<ge>50. \<not> bit p n)"
proof
  assume "addr_ok p"
  then have "take_bit 50 p = p" by (simp only: addr_ok_take_bit)
  then have "bit p n \<longleftrightarrow> n < 50 \<and> bit p n" for n
    by (metis bit_take_bit_iff)
  then show "\<forall>n\<ge>50. \<not> bit p n" by (metis linorder_not_le)
next
  assume "\<forall>n\<ge>50. \<not> bit p n"
  then have "take_bit 50 p = p"
    by (intro bit_word_eqI) (metis bit_take_bit_iff linorder_not_le)
  then show "addr_ok p" by (simp only: addr_ok_take_bit)
qed

lemma objectToValue_IS_OBJ [simp]: "IS_OBJ (objectToValue p)"
  unfolding IS_OBJ_def objectToValue_def
  by (intro bit_word_eqI) (auto simp: bit_simps)

lemma AS_OBJ_objectToValue: "addr_ok p \<Longrightarrow> AS_OBJ (objectToValue p) = p"
  unfolding AS_OBJ_def objectToValue_def addr_ok_bits
  by (intro bit_word_eqI)
    (auto simp: bit_simps bit_QNAN bit_SIGN_BIT)

lemma addr_ok_AS_OBJ: "addr_ok (AS_OBJ v)"
  unfolding addr_ok_bits AS_OBJ_def
  by (auto simp: bit_simps bit_QNAN bit_SIGN_BIT)

lemma objectToValue_AS_OBJ: "IS_OBJ v \<Longrightarrow> objectToValue (AS_OBJ v) = v"
proof (rule bit_word_eqI)
  fix n assume o: "IS_OBJ v" and "n < LENGTH(64)"
  have "bit v n" if "bit (QNAN OR SIGN_BIT) n"
    using o that unfolding IS_OBJ_def by (metis bit_and_iff)
  then show "bit (objectToValue (AS_OBJ v)) n = bit v n"
    using \<open>n < LENGTH(64)\<close>
    by (auto simp: objectToValue_def AS_OBJ_def bit_simps)
qed

subsection \<open>Value arrays\<close>

text \<open>GROW_CAPACITY of memory.h, on int.\<close>

definition GROW_CAPACITY :: "int \<Rightarrow> int" where
  "GROW_CAPACITY c = (if c < 8 then 8 else c * 2)"

text \<open>A ValueArray. The buffer has one slot per unit of capacity; a slot that realloc
  handed out and nothing has written is None. A null buffer is the empty list.\<close>

record value_array =
  va_capacity :: int
  va_count :: int
  va_values :: "lxvalue option list"

definition initValueArray :: value_array where
  "initValueArray = \<lparr>va_capacity = 0, va_count = 0, va_values = []\<rparr>"

text \<open>GROW_ARRAY: realloc keeps the old slots and appends indeterminate ones.\<close>

definition grow_slots :: "'a option list \<Rightarrow> int \<Rightarrow> 'a option list" where
  "grow_slots xs n = take (nat n) xs @ replicate (nat n - length xs) None"

definition initValueArrayWithCapa :: "int \<Rightarrow> value_array" where
  "initValueArrayWithCapa capa =
     (if capa \<le> 0 then initValueArray
      else initValueArray\<lparr>va_capacity := capa, va_values := grow_slots [] capa\<rparr>)"

definition va_reserve :: "value_array \<Rightarrow> value_array" where
  "va_reserve a =
     (if va_capacity a < va_count a + 1
      then let c = GROW_CAPACITY (va_capacity a)
           in a\<lparr>va_capacity := c, va_values := grow_slots (va_values a) c\<rparr>
      else a)"

definition writeValueArrayEnd :: "value_array \<Rightarrow> lxvalue \<Rightarrow> value_array" where
  "writeValueArrayEnd arr v =
     (let a = va_reserve arr
      in a\<lparr>va_values := (va_values a)[nat (va_count a) := Some v],
           va_count := va_count a + 1\<rparr>)"

text \<open>memmove of n slots from index src to index dst of one buffer.\<close>

definition memmove_slots :: "'a list \<Rightarrow> nat \<Rightarrow> nat \<Rightarrow> nat \<Rightarrow> 'a list" where
  "memmove_slots xs dst src n =
     take dst xs @ take n (drop src xs) @ drop (dst + n) xs"

text \<open>The memmove of writeValueArrayBeg moves sizeof(Value) bytes: one slot.\<close>

definition writeValueArrayBeg :: "value_array \<Rightarrow> lxvalue \<Rightarrow> value_array" where
  "writeValueArrayBeg arr v =
     (let a = va_reserve arr;
          moved = memmove_slots (va_values a) 1 0 1
      in a\<lparr>va_values := moved[0 := Some v], va_count := va_count a + 1\<rparr>)"

text \<open>writeValueArrayBulk has no capacity check: the assertion on a null buffer and a
  write past the buffer are None.\<close>

fun bulk_fill :: "lxvalue option list \<Rightarrow> nat \<Rightarrow> nat \<Rightarrow> lxvalue \<Rightarrow> lxvalue option list" where
  "bulk_fill xs offset 0 fill = xs"
| "bulk_fill xs offset (Suc n) fill = (bulk_fill xs offset n fill)[offset + n := Some fill]"

definition writeValueArrayBulk ::
    "value_array \<Rightarrow> nat \<Rightarrow> nat \<Rightarrow> lxvalue \<Rightarrow> value_array option" where
  "writeValueArrayBulk a offset num fill =
     (if va_values a = [] then None
      else if length (va_values a) < offset + num then None
      else Some (a\<lparr>va_values := bulk_fill (va_values a) offset num fill,
                   va_count := va_count a + int num\<rparr>))"

definition freeValueArray :: "value_array \<Rightarrow> value_array" where
  "freeValueArray a = initValueArray"

text \<open>removeValueArray: None is the failed assertion on the index.\<close>

definition removeValueArray :: "value_array \<Rightarrow> int \<Rightarrow> (bool \<times> value_array) option" where
  "removeValueArray a idx =
     (if \<not> idx < va_count a then None
      else if va_values a = [] then Some (False, a)
      else if idx = va_count a - 1 then Some (True, a\<lparr>va_count := va_count a - 1\<rparr>)
      else Some (True,
        a\<lparr>va_values := memmove_slots (va_values a) (nat idx) (nat idx + 1)
                         (nat (va_count a - idx - 1)),
          va_count := va_count a - 1\<rparr>))"

text \<open>Well-formed arrays, and the sequence of values an array holds.\<close>

definition va_ok :: "value_array \<Rightarrow> bool" where
  "va_ok a \<longleftrightarrow> 0 \<le> va_count a \<and> va_count a \<le> va_capacity a \<and>
     length (va_values a) = nat (va_capacity a) \<and>
     (\<forall>i < nat (va_count a). va_values a ! i \<noteq> None)"

definition va_list :: "value_array \<Rightarrow> lxvalue list" where
  "va_list a = map the (take (nat (va_count a)) (va_values a))"

lemma length_grow_slots [simp]:
  "length xs \<le> nat n \<Longrightarrow> length (grow_slots xs n) = nat n"
  by (simp add: grow_slots_def)

lemma nth_grow_slots:
  "length xs \<le> nat n \<Longrightarrow> i < length xs \<Longrightarrow> grow_slots xs n ! i = xs ! i"
  by (simp add: grow_slots_def nth_append)

lemma take_grow_slots:
  "length xs \<le> nat n \<Longrightarrow> m \<le> length xs \<Longrightarrow> take m (grow_slots xs n) = take m xs"
  by (simp add: grow_slots_def)

lemma length_memmove_slots:
  "dst + n \<le> length xs \<Longrightarrow> src + n \<le> length xs \<Longrightarrow> length (memmove_slots xs dst src n) = length xs"
  by (simp add: memmove_slots_def)

lemma take_memmove_down:
  assumes "i < n" "n \<le> length xs"
  shows "take (n - 1) (memmove_slots xs i (i + 1) (n - Suc i)) =
    take i (take n xs) @ drop (Suc i) (take n xs)"
proof -
  have "n - 1 - i = n - Suc i" "min i n = i" using assms(1) by auto
  then show ?thesis using assms by (simp add: memmove_slots_def drop_take)
qed

lemma GROW_CAPACITY_gt: "0 \<le> c \<Longrightarrow> c < GROW_CAPACITY c"
  by (simp add: GROW_CAPACITY_def)

lemma va_ok_slots:
  "va_ok a \<Longrightarrow> take (nat (va_count a)) (va_values a) = map Some (va_list a)"
  by (rule nth_equalityI) (auto simp: va_ok_def va_list_def)

lemma length_va_list: "va_ok a \<Longrightarrow> length (va_list a) = nat (va_count a)"
  by (auto simp: va_ok_def va_list_def)

lemma va_okI:
  assumes "0 \<le> va_count a" "va_count a \<le> va_capacity a"
    "length (va_values a) = nat (va_capacity a)"
    "take (nat (va_count a)) (va_values a) = map Some xs"
  shows "va_ok a" and "va_list a = xs"
proof -
  show "va_list a = xs" using assms(4) by (simp add: va_list_def o_def)
  have "va_values a ! i = Some (xs ! i)" if "i < nat (va_count a)" for i
  proof -
    have "length xs = nat (va_count a)"
      using arg_cong [OF assms(4), of length] assms(1-3) by simp
    moreover have "va_values a ! i = take (nat (va_count a)) (va_values a) ! i"
      using that by simp
    ultimately show ?thesis using that assms(4) by simp
  qed
  then show "va_ok a" using assms(1-3) by (auto simp: va_ok_def)
qed

lemma va_reserve:
  assumes "va_ok a"
  shows "va_ok (va_reserve a)" and "va_list (va_reserve a) = va_list a"
    and "va_count (va_reserve a) = va_count a"
    and "va_count a < va_capacity (va_reserve a)"
    and "va_capacity a \<le> va_capacity (va_reserve a)"
proof -
  let ?b = "va_reserve a"
  have b: "0 \<le> va_count a" "va_count a \<le> va_capacity a"
    "length (va_values a) = nat (va_capacity a)"
    using assms by (auto simp: va_ok_def)
  show c: "va_count ?b = va_count a" by (simp add: va_reserve_def Let_def)
  show d: "va_count a < va_capacity ?b" "va_capacity a \<le> va_capacity ?b"
    using b by (auto simp: va_reserve_def Let_def GROW_CAPACITY_def)
  have l: "length (va_values ?b) = nat (va_capacity ?b)"
    using b by (auto simp: va_reserve_def Let_def GROW_CAPACITY_def)
  have "take (nat (va_count a)) (va_values ?b) = map Some (va_list a)"
    using b va_ok_slots [OF assms]
    by (auto simp: va_reserve_def Let_def GROW_CAPACITY_def take_grow_slots)
  then show "va_ok ?b" "va_list ?b = va_list a"
    using b c d l by (auto intro!: va_okI)
qed

lemma va_ok_init: "va_ok initValueArray" "va_list initValueArray = []"
  by (simp_all add: initValueArray_def va_ok_def va_list_def)

lemma va_ok_initCapa:
  "va_ok (initValueArrayWithCapa n)" "va_list (initValueArrayWithCapa n) = []"
  by (auto simp: initValueArrayWithCapa_def initValueArray_def va_ok_def va_list_def)

lemma writeValueArrayEnd_spec:
  assumes "va_ok a"
  shows "va_ok (writeValueArrayEnd a v)" and "va_list (writeValueArrayEnd a v) = va_list a @ [v]"
proof -
  let ?b = "va_reserve a"
  note r = va_reserve [OF assms]
  have n: "nat (va_count a) < length (va_values ?b)" "0 \<le> va_count a"
    "length (va_values ?b) = nat (va_capacity ?b)"
    using r(1,3,4) by (auto simp: va_ok_def)
  have "take (nat (va_count a + 1)) ((va_values ?b)[nat (va_count a) := Some v])
      = map Some (va_list a @ [v])"
    using n va_ok_slots [OF r(1)] r(2,3)
    by (simp add: nat_add_distrib take_Suc_update)
  then have *: "take (nat (va_count (writeValueArrayEnd a v))) (va_values (writeValueArrayEnd a v))
      = map Some (va_list a @ [v])"
    using r(3) by (simp add: writeValueArrayEnd_def Let_def)
  show "va_ok (writeValueArrayEnd a v)"
    "va_list (writeValueArrayEnd a v) = va_list a @ [v]"
    by (rule va_okI [OF _ _ _ *]; use n r in \<open>simp add: writeValueArrayEnd_def Let_def\<close>)+
qed

lemma removeValueArray_spec:
  assumes "va_ok a" "0 \<le> i" "i < va_count a"
  obtains b where "removeValueArray a i = Some (True, b)" "va_ok b"
    "va_list b = take (nat i) (va_list a) @ drop (Suc (nat i)) (va_list a)"
proof -
  let ?n = "nat (va_count a)"
  have b: "va_count a \<le> va_capacity a" "length (va_values a) = nat (va_capacity a)"
    "va_values a \<noteq> []"
    using assms by (auto simp: va_ok_def)
  have s: "take ?n (va_values a) = map Some (va_list a)" by (rule va_ok_slots [OF assms(1)])
  have l: "length (va_list a) = ?n" by (rule length_va_list [OF assms(1)])
  show ?thesis
  proof (cases "i = va_count a - 1")
    case True
    let ?b = "a\<lparr>va_count := va_count a - 1\<rparr>"
    have "take (nat i) (va_values a) = take (nat i) (take ?n (va_values a))"
      using assms by (simp add: min_def)
    then have *: "take (nat (va_count ?b)) (va_values ?b) =
       map Some (take (nat i) (va_list a) @ drop (Suc (nat i)) (va_list a))"
      using True s l assms by (simp add: take_map)
    have r: "removeValueArray a i = Some (True, ?b)"
      using assms b True by (simp add: removeValueArray_def)
    have g: "0 \<le> va_count ?b" "va_count ?b \<le> va_capacity ?b"
      "length (va_values ?b) = nat (va_capacity ?b)"
      using assms b by auto
    show ?thesis by (rule that [OF r va_okI [OF g *]])
  next
    case False
    define m where
      "m = memmove_slots (va_values a) (nat i) (nat i + 1) (nat (va_count a - i - 1))"
    let ?b = "a\<lparr>va_values := m, va_count := va_count a - 1\<rparr>"
    have k: "nat (va_count a - i - 1) = ?n - Suc (nat i)" "nat (va_count a - 1) = ?n - 1"
      "nat i < ?n" "?n \<le> length (va_values a)"
      using assms b by auto
    have "take (?n - 1) m =
       take (nat i) (take ?n (va_values a)) @ drop (Suc (nat i)) (take ?n (va_values a))"
      unfolding m_def k(1) by (rule take_memmove_down [OF k(3,4)])
    then have *: "take (nat (va_count ?b)) (va_values ?b) =
       map Some (take (nat i) (va_list a) @ drop (Suc (nat i)) (va_list a))"
      using k(2) by (simp add: s take_map drop_map)
    have "length m = length (va_values a)"
      unfolding m_def k(1) using k(3,4) by (intro length_memmove_slots) auto
    then have h: "length (va_values ?b) = nat (va_capacity ?b)"
      using b(2) by simp
    have r: "removeValueArray a i = Some (True, ?b)"
      using assms b False by (simp add: removeValueArray_def m_def)
    have g: "0 \<le> va_count ?b" "va_count ?b \<le> va_capacity ?b"
      using assms b by auto
    show ?thesis by (rule that [OF r va_okI [OF g h *]])
  qed
qed

lemma length_bulk_fill [simp]: "length (bulk_fill xs offset n v) = length xs"
  by (induction n) simp_all

lemma take_bulk_fill:
  "offset + n \<le> length xs \<Longrightarrow>
   take (offset + n) (bulk_fill xs offset n v) = take offset xs @ replicate n (Some v)"
proof (induction n)
  case (Suc n)
  then have "take (Suc (offset + n)) ((bulk_fill xs offset n v)[offset + n := Some v])
      = take (offset + n) (bulk_fill xs offset n v) @ [Some v]"
    by (intro take_Suc_update) simp
  then show ?case using Suc by (simp add: replicate_append_same)
qed simp

text \<open>Filling right behind the last value appends the fill value num times.\<close>

lemma writeValueArrayBulk_append:
  assumes "va_ok a" "va_values a \<noteq> []" "nat (va_count a) + num \<le> nat (va_capacity a)"
  obtains b where "writeValueArrayBulk a (nat (va_count a)) num v = Some b" "va_ok b"
    "va_list b = va_list a @ replicate num v"
proof -
  let ?n = "nat (va_count a)"
  let ?b = "a\<lparr>va_values := bulk_fill (va_values a) ?n num v, va_count := va_count a + int num\<rparr>"
  have l: "length (va_values a) = nat (va_capacity a)" "0 \<le> va_count a" "0 \<le> va_capacity a"
    using assms(1) by (auto simp: va_ok_def)
  then have r: "writeValueArrayBulk a ?n num v = Some ?b"
    using assms(2,3) by (simp add: writeValueArrayBulk_def)
  have "take (?n + num) (bulk_fill (va_values a) ?n num v)
      = map Some (va_list a) @ replicate num (Some v)"
    using take_bulk_fill [of ?n num "va_values a" v] assms(3) l va_ok_slots [OF assms(1)] by simp
  moreover have "nat (va_count a + int num) = ?n + num" using l(2) by simp
  ultimately have *: "take (nat (va_count ?b)) (va_values ?b) = map Some (va_list a @ replicate num v)"
    by simp
  have g: "0 \<le> va_count ?b" "va_count ?b \<le> va_capacity ?b"
    "length (va_values ?b) = nat (va_capacity ?b)"
    using l assms(3) by auto
  show ?thesis by (rule that [OF r va_okI [OF g *]])
qed

lemma memmove_one:
  "xs \<noteq> [] \<Longrightarrow> Suc 0 < length xs \<Longrightarrow> memmove_slots xs (Suc 0) 0 (Suc 0) = hd xs # hd xs # drop 2 xs"
  by (cases xs) (auto simp: memmove_slots_def)

text \<open>What writeValueArrayBeg leaves in the buffer: the new value, the old first value, and
  the old slots from index 2 on; the old second value is gone.\<close>

lemma writeValueArrayBeg_slots:
  assumes "va_ok a"
  shows "va_count (writeValueArrayBeg a v) = va_count a + 1"
    and "0 < va_count a \<Longrightarrow>
      va_values (writeValueArrayBeg a v)
      = Some v # Some (va_list a ! 0) # drop 2 (va_values (va_reserve a))"
    and "va_count a = 0 \<Longrightarrow> va_values (writeValueArrayBeg a v) ! 0 = Some v"
proof -
  let ?b = "va_reserve a"
  note r = va_reserve [OF assms]
  have l: "length (va_values ?b) = nat (va_capacity ?b)" "0 \<le> va_count a"
    using r(1) assms by (auto simp: va_ok_def)
  show "va_count (writeValueArrayBeg a v) = va_count a + 1"
    using r(3) by (simp add: writeValueArrayBeg_def Let_def)
  show "va_values (writeValueArrayBeg a v)
      = Some v # Some (va_list a ! 0) # drop 2 (va_values ?b)" if "0 < va_count a"
  proof -
    have "va_values ?b \<noteq> []" "Suc 0 < length (va_values ?b)"
      using l r(4) that by auto
    moreover have "hd (va_values ?b) = Some (va_list a ! 0)"
      using that va_ok_slots [OF r(1)] r(2,3) l
      by (metis hd_conv_nth list.map_disc_iff nat_0_iff not_less nth_map nth_take
          length_greater_0_conv length_va_list [OF assms] take_eq_Nil zero_less_nat_eq)
    ultimately show ?thesis
      by (simp add: writeValueArrayBeg_def Let_def memmove_one)
  qed
  show "va_values (writeValueArrayBeg a v) ! 0 = Some v" if "va_count a = 0"
  proof -
    have "0 < length (memmove_slots (va_values ?b) 1 0 1)"
      using l r(4) that by (auto simp: memmove_slots_def)
    then show ?thesis by (simp add: writeValueArrayBeg_def Let_def)
  qed
qed

subsection \<open>The buffer as an interface\<close>

text \<open>What the clients of a value array (the array, string and map objects, the argument
  lists of the VM) rely on: it holds a sequence, and pushing appends.\<close>

locale value_buffer =
  fixes ok :: "'b \<Rightarrow> bool"
    and lst :: "'b \<Rightarrow> 'v list"
    and empty :: "'b"
    and push :: "'b \<Rightarrow> 'v \<Rightarrow> 'b"
  assumes empty_ok: "ok empty"
    and empty_lst: "lst empty = []"
    and push_ok: "ok b \<Longrightarrow> ok (push b v)"
    and push_lst: "ok b \<Longrightarrow> lst (push b v) = lst b @ [v]"
begin

lemma fold_push:
  "ok b \<Longrightarrow> ok (fold (\<lambda>v b. push b v) vs b) \<and> lst (fold (\<lambda>v b. push b v) vs b) = lst b @ vs"
  by (induction vs arbitrary: b) (simp_all add: push_ok push_lst)

lemma copy_loop:
  "ok (fold (\<lambda>v b. push b v) vs empty)" "lst (fold (\<lambda>v b. push b v) vs empty) = vs"
  using fold_push [OF empty_ok, of vs] by (simp_all add: empty_lst)

end

locale removable_buffer = value_buffer ok lst empty push
  for ok :: "'b \<Rightarrow> bool" and lst :: "'b \<Rightarrow> 'v list" and empty push +
  fixes del :: "'b \<Rightarrow> nat \<Rightarrow> 'b"
  assumes del_ok: "ok b \<Longrightarrow> i < length (lst b) \<Longrightarrow> ok (del b i)"
    and del_lst: "ok b \<Longrightarrow> i < length (lst b) \<Longrightarrow>
      lst (del b i) = take i (lst b) @ drop (Suc i) (lst b)"
begin

lemma pop_push: "ok b \<Longrightarrow> lst (del (push b v) (length (lst b))) = lst b"
  by (simp add: del_lst push_ok push_lst)

lemma del_length: "ok b \<Longrightarrow> i < length (lst b) \<Longrightarrow> length (lst (del b i)) = length (lst b) - 1"
  by (simp add: del_lst)

end

text \<open>The array after a removal inside its bounds.\<close>

definition removedValueArray :: "value_array \<Rightarrow> nat \<Rightarrow> value_array" where
  "removedValueArray a i = (case removeValueArray a (int i) of Some (_, b) \<Rightarrow> b | None \<Rightarrow> a)"

interpretation va: removable_buffer va_ok va_list initValueArray writeValueArrayEnd removedValueArray
proof
  fix a i assume a: "va_ok a" "i < length (va_list a)"
  then have "int i < va_count a" by (simp add: length_va_list)
  from removeValueArray_spec [OF a(1) _ this]
  obtain b where "removeValueArray a (int i) = Some (True, b)" "va_ok b"
    "va_list b = take i (va_list a) @ drop (Suc i) (va_list a)"
    by auto
  then show "va_ok (removedValueArray a i)"
    "va_list (removedValueArray a i) = take i (va_list a) @ drop (Suc i) (va_list a)"
    by (simp_all add: removedValueArray_def)
qed (simp_all add: va_ok_init writeValueArrayEnd_spec)

subsection \<open>Properties\<close>

lemma kinds_disjoint:
  "length (filter (\<lambda>b. b) [IS_NUMBER v, IS_OBJ v, IS_BOOL v, IS_NIL v, IS_UNDEF v]) \<le> 1"
  using OBJ_not_NUMBER [of v]
  by (cases "IS_OBJ v"; cases "IS_NUMBER v") (auto simp: IS_BOOL_def IS_NIL_def IS_UNDEF_def)



text \<open>An array of the values true, false, nil.\<close>

definition array3 :: value_array where
  "array3 = writeValueArrayEnd (writeValueArrayEnd (writeValueArrayEnd initValueArray TRUE_VAL)
     FALSE_VAL) NIL_VAL"

lemma array3: "va_ok array3" "va_list array3 = [TRUE_VAL, FALSE_VAL, NIL_VAL]"
  by (simp_all add: array3_def va.push_ok va.push_lst va_ok_init)


text \<open>C22: writeValueArrayBeg, which should push a value to the front, moves only one element:
  on an array of two or more values the old second value is lost, and every value from index
  two on stays where it was.\<close>

theorem writeValueArrayBeg_loses:
  assumes "va_ok a" "2 \<le> va_count a"
  shows "va_count (writeValueArrayBeg a v) = va_count a + 1 \<and>
    take (nat (va_count a)) (va_values (writeValueArrayBeg a v))
      = map Some (v # va_list a ! 0 # drop 2 (va_list a))"
proof
  show "va_count (writeValueArrayBeg a v) = va_count a + 1"
    by (rule writeValueArrayBeg_slots(1) [OF assms(1)])
  note r = va_reserve [OF assms(1)]
  obtain m where m: "nat (va_count a) = Suc (Suc m)"
  proof -
    have "2 \<le> nat (va_count a)" using assms(2) by simp
    then show thesis using that le_Suc_ex [of 2 "nat (va_count a)"] by auto
  qed
  have "take m (drop 2 (va_values (va_reserve a))) = drop 2 (take (Suc (Suc m)) (va_values (va_reserve a)))"
    by (simp add: drop_take)
  also have "\<dots> = map Some (drop 2 (va_list a))"
    using va_ok_slots [OF r(1)] r(2,3) m by (simp add: drop_map)
  finally show "take (nat (va_count a)) (va_values (writeValueArrayBeg a v))
      = map Some (v # va_list a ! 0 # drop 2 (va_list a))"
    using writeValueArrayBeg_slots(2) [OF assms(1)] assms(2) m by simp
qed

theorem writeValueArrayBeg_loses_witness:
  "take 3 (va_values (writeValueArrayBeg array3 UNDEF_VAL)) = map Some [UNDEF_VAL, TRUE_VAL, NIL_VAL]"
proof -
  have "length (va_list array3) = nat (va_count array3)" by (rule length_va_list [OF array3(1)])
  then have c: "nat (va_count array3) = 3" "2 \<le> va_count array3" by (simp_all add: array3(2))
  then show ?thesis using writeValueArrayBeg_loses [OF array3(1) c(2), of UNDEF_VAL]
    by (simp add: array3(2))
qed

end
