(* ===== verification/Clox_Table.thy ===== *)
theory Clox_Table
  imports Clox_Value "HOL-Library.Monad_Syntax"
begin

unbundle bit_operations_syntax

text \<open>Hash tables (table.c, table.h): open addressing with linear probing, capacities that
  are powers of two, a load limit of three quarters, and deletion by re-insertion of the
  cluster behind the hole. Hashing and key comparison (valHash and valEqual, which read the
  object heap and may call methods of the program) are the arguments hsh and eqv of every
  operation; the object theory supplies them. The result None of an operation stands for a
  probe loop that never ends (or reads a null buffer).\<close>

subsection \<open>State and operations\<close>

record entry =
  e_key :: lxvalue
  e_value :: lxvalue

record table =
  tb_count :: int
  tb_mask :: int
  tb_entries :: "entry list"

definition TBL_EMPTY_ENTRY :: entry where
  "TBL_EMPTY_ENTRY = \<lparr>e_key = UNDEF_VAL, e_value = NIL_VAL\<rparr>"

definition initTable :: table where
  "initTable = \<lparr>tb_count = 0, tb_mask = - 1, tb_entries = []\<rparr>"

definition initTableWithCapa :: "nat \<Rightarrow> table" where
  "initTableWithCapa capa =
     (if capa = 0 then initTable
      else \<lparr>tb_count = 0, tb_mask = int capa - 1, tb_entries = replicate capa TBL_EMPTY_ENTRY\<rparr>)"

definition tableCapacity :: "table \<Rightarrow> int" where
  "tableCapacity t = tb_mask t + 1"

definition freeTable :: "table \<Rightarrow> table" where
  "freeTable t = initTable"

text \<open>The probe loop of findEntry. After as many probes as the buffer has slots it has seen
  every slot it will ever see, so the fuel is the length of the buffer.\<close>

fun find_from ::
    "(lxvalue \<Rightarrow> lxvalue \<Rightarrow> bool) \<Rightarrow> entry list \<Rightarrow> u32 \<Rightarrow> lxvalue \<Rightarrow> nat \<Rightarrow> u32 \<Rightarrow> u32 option" where
  "find_from eqv es msk key 0 index = None"
| "find_from eqv es msk key (Suc n) index =
     (if IS_UNDEF (e_key (es ! unat index)) \<or> eqv (e_key (es ! unat index)) key
      then Some index
      else find_from eqv es msk key n ((index + 1) AND msk))"

definition findEntry ::
    "(lxvalue \<Rightarrow> u32) \<Rightarrow> (lxvalue \<Rightarrow> lxvalue \<Rightarrow> bool) \<Rightarrow> entry list \<Rightarrow> int \<Rightarrow> lxvalue \<Rightarrow> u32 option" where
  "findEntry hsh eqv es capacityMask key =
     find_from eqv es (word_of_int capacityMask) key (length es)
       (hsh key AND word_of_int capacityMask)"

definition tableGet ::
    "(lxvalue \<Rightarrow> u32) \<Rightarrow> (lxvalue \<Rightarrow> lxvalue \<Rightarrow> bool) \<Rightarrow> table \<Rightarrow> lxvalue \<Rightarrow> lxvalue option option" where
  "tableGet hsh eqv t key =
     (if tb_entries t = [] then Some None
      else do {
        index \<leftarrow> findEntry hsh eqv (tb_entries t) (tb_mask t) key;
        let e = tb_entries t ! unat index;
        Some (if IS_UNDEF (e_key e) then None else Some (e_value e))
      })"

fun resize_loop ::
    "(lxvalue \<Rightarrow> u32) \<Rightarrow> (lxvalue \<Rightarrow> lxvalue \<Rightarrow> bool) \<Rightarrow> int \<Rightarrow> entry list \<Rightarrow>
     entry list \<Rightarrow> int \<Rightarrow> (entry list \<times> int) option" where
  "resize_loop hsh eqv msk [] new count = Some (new, count)"
| "resize_loop hsh eqv msk (e # old) new count =
     (if IS_UNDEF (e_key e) then resize_loop hsh eqv msk old new count
      else do {
        index \<leftarrow> findEntry hsh eqv new msk (e_key e);
        resize_loop hsh eqv msk old (new[unat index := e]) (count + 1)
      })"

definition table_resize ::
    "(lxvalue \<Rightarrow> u32) \<Rightarrow> (lxvalue \<Rightarrow> lxvalue \<Rightarrow> bool) \<Rightarrow> table \<Rightarrow> int \<Rightarrow> table option" where
  "table_resize hsh eqv t capacityMask = do {
     (es, n) \<leftarrow> resize_loop hsh eqv capacityMask (tb_entries t)
                  (replicate (nat (capacityMask + 1)) TBL_EMPTY_ENTRY) 0;
     Some \<lparr>tb_count = n, tb_mask = capacityMask, tb_entries = es\<rparr>
   }"

text \<open>The test against TABLE_MAX_LOAD = 0.75 is exact in double arithmetic; here both sides
  are multiplied by four.\<close>

definition over_load :: "table \<Rightarrow> bool" where
  "over_load t \<longleftrightarrow> 4 * (tb_count t + 1) > 3 * (tb_mask t + 1)"

text \<open>The second half of tableSet, after the growth check.\<close>

definition table_put ::
    "(lxvalue \<Rightarrow> u32) \<Rightarrow> (lxvalue \<Rightarrow> lxvalue \<Rightarrow> bool) \<Rightarrow> table \<Rightarrow> lxvalue \<Rightarrow> lxvalue \<Rightarrow>
     (bool \<times> table) option" where
  "table_put hsh eqv t key val = do {
     index \<leftarrow> findEntry hsh eqv (tb_entries t) (tb_mask t) key;
     let isNewKey = IS_UNDEF (e_key (tb_entries t ! unat index));
     Some (isNewKey,
       t\<lparr>tb_entries := (tb_entries t)[unat index := \<lparr>e_key = key, e_value = val\<rparr>],
         tb_count := (if isNewKey then tb_count t + 1 else tb_count t)\<rparr>)
   }"

definition tableSet ::
    "(lxvalue \<Rightarrow> u32) \<Rightarrow> (lxvalue \<Rightarrow> lxvalue \<Rightarrow> bool) \<Rightarrow> table \<Rightarrow> lxvalue \<Rightarrow> lxvalue \<Rightarrow>
     (bool \<times> table) option" where
  "tableSet hsh eqv t0 key val = do {
     t \<leftarrow> (if over_load t0
            then table_resize hsh eqv t0 (GROW_CAPACITY (tb_mask t0 + 1) - 1)
            else Some t0);
     table_put hsh eqv t key val
   }"

text \<open>Clearing a slot, and the re-insertion loop of tableDelete.\<close>

definition clear_slot :: "table \<Rightarrow> u32 \<Rightarrow> table" where
  "clear_slot t index =
     t\<lparr>tb_entries := (tb_entries t)[unat index := TBL_EMPTY_ENTRY], tb_count := tb_count t - 1\<rparr>"

fun delete_loop ::
    "(lxvalue \<Rightarrow> u32) \<Rightarrow> (lxvalue \<Rightarrow> lxvalue \<Rightarrow> bool) \<Rightarrow> nat \<Rightarrow> table \<Rightarrow> u32 \<Rightarrow> table option" where
  "delete_loop hsh eqv 0 t index = None"
| "delete_loop hsh eqv (Suc n) t index =
     (let index' = (index + 1) AND word_of_int (tb_mask t);
          e = tb_entries t ! unat index'
      in if IS_UNDEF (e_key e) then Some t
         else do {
           (_, t') \<leftarrow> tableSet hsh eqv (clear_slot t index') (e_key e) (e_value e);
           delete_loop hsh eqv n t' index'
         })"

definition tableDelete ::
    "(lxvalue \<Rightarrow> u32) \<Rightarrow> (lxvalue \<Rightarrow> lxvalue \<Rightarrow> bool) \<Rightarrow> table \<Rightarrow> lxvalue \<Rightarrow> (bool \<times> table) option" where
  "tableDelete hsh eqv t key =
     (if tb_count t = 0 then Some (False, t)
      else do {
        index \<leftarrow> findEntry hsh eqv (tb_entries t) (tb_mask t) key;
        if IS_UNDEF (e_key (tb_entries t ! unat index)) then Some (False, t)
        else do {
          t' \<leftarrow> delete_loop hsh eqv (length (tb_entries t)) (clear_slot t index) index;
          Some (True, t')
        }
      })"

text \<open>tableEachEntry hands the live entries to the callback, in slot order.\<close>

definition live_entries :: "entry list \<Rightarrow> entry list" where
  "live_entries es = filter (\<lambda>e. \<not> IS_UNDEF (e_key e)) es"

definition tableEachEntry :: "table \<Rightarrow> (entry \<Rightarrow> 's \<Rightarrow> 's) \<Rightarrow> 's \<Rightarrow> 's" where
  "tableEachEntry t cb s = (if tb_count t = 0 then s else fold cb (live_entries (tb_entries t)) s)"

fun add_all_loop ::
    "(lxvalue \<Rightarrow> u32) \<Rightarrow> (lxvalue \<Rightarrow> lxvalue \<Rightarrow> bool) \<Rightarrow> entry list \<Rightarrow> table \<Rightarrow> table option" where
  "add_all_loop hsh eqv [] to = Some to"
| "add_all_loop hsh eqv (e # es) to =
     (if IS_UNDEF (e_key e) then add_all_loop hsh eqv es to
      else do {
        (_, to') \<leftarrow> tableSet hsh eqv to (e_key e) (e_value e);
        add_all_loop hsh eqv es to'
      })"

definition tableAddAll ::
    "(lxvalue \<Rightarrow> u32) \<Rightarrow> (lxvalue \<Rightarrow> lxvalue \<Rightarrow> bool) \<Rightarrow> table \<Rightarrow> table \<Rightarrow> table option" where
  "tableAddAll hsh eqv from to = add_all_loop hsh eqv (tb_entries from) to"

text \<open>TABLE_FOREACH stops at a key equal to the bare quiet NaN bits and skips undefined keys.
  The loop of tableNthEntry returns the n-th live entry and its position among the live
  entries, or the last entry read and -1.\<close>

fun nth_loop :: "entry list \<Rightarrow> int \<Rightarrow> int \<Rightarrow> entry \<Rightarrow> entry \<times> int" where
  "nth_loop [] n idx e = (e, - 1)"
| "nth_loop (x # xs) n idx e =
     (if e_key x = QNAN then (x, - 1)
      else if IS_UNDEF (e_key x) then nth_loop xs n idx x
      else if n = idx then (x, idx)
      else nth_loop xs n (idx + 1) x)"

definition tableNthEntry :: "table \<Rightarrow> int \<Rightarrow> entry \<times> int" where
  "tableNthEntry t n =
     (if tb_count t > 0 then nth_loop (tb_entries t) n 0 TBL_EMPTY_ENTRY
      else (TBL_EMPTY_ENTRY, - 1))"

text \<open>tableFindString reads string objects: is_str tells the strings among the keys, str_hash
  and str_chars read their hash and bytes.\<close>

fun find_string_from ::
    "(lxvalue \<Rightarrow> bool) \<Rightarrow> (lxvalue \<Rightarrow> u32) \<Rightarrow> (lxvalue \<Rightarrow> bytes) \<Rightarrow> entry list \<Rightarrow> u32 \<Rightarrow>
     bytes \<Rightarrow> u32 \<Rightarrow> nat \<Rightarrow> u32 \<Rightarrow> lxvalue option option" where
  "find_string_from is_str str_hash str_chars es msk chars h 0 index = None"
| "find_string_from is_str str_hash str_chars es msk chars h (Suc n) index =
     (let k = e_key (es ! unat index)
      in if IS_UNDEF k then Some None
         else if is_str k \<and> (str_hash k \<noteq> 0 \<and> str_hash k = h \<or> str_chars k = chars)
         then Some (Some k)
         else find_string_from is_str str_hash str_chars es msk chars h n ((index + 1) AND msk))"

definition tableFindString ::
    "(lxvalue \<Rightarrow> bool) \<Rightarrow> (lxvalue \<Rightarrow> u32) \<Rightarrow> (lxvalue \<Rightarrow> bytes) \<Rightarrow> table \<Rightarrow>
     bytes \<Rightarrow> u32 \<Rightarrow> lxvalue option option" where
  "tableFindString is_str str_hash str_chars t chars h =
     (if tb_entries t = [] then Some None
      else find_string_from is_str str_hash str_chars (tb_entries t) (word_of_int (tb_mask t))
             chars h (length (tb_entries t)) (h AND word_of_int (tb_mask t)))"

text \<open>tableRemoveWhite deletes while it iterates; dark tells the marked objects.\<close>

fun remove_white_loop ::
    "(lxvalue \<Rightarrow> u32) \<Rightarrow> (lxvalue \<Rightarrow> lxvalue \<Rightarrow> bool) \<Rightarrow> (addr \<Rightarrow> bool) \<Rightarrow> nat list \<Rightarrow>
     table \<Rightarrow> table option" where
  "remove_white_loop hsh eqv dark [] t = Some t"
| "remove_white_loop hsh eqv dark (i # is) t =
     (let k = e_key (tb_entries t ! i)
      in if IS_UNDEF k then remove_white_loop hsh eqv dark is t
         else if IS_OBJ k \<and> \<not> dark (AS_OBJ k)
         then do {
           (_, t') \<leftarrow> tableDelete hsh eqv t k;
           remove_white_loop hsh eqv dark is t'
         }
         else remove_white_loop hsh eqv dark is t)"

definition tableRemoveWhite ::
    "(lxvalue \<Rightarrow> u32) \<Rightarrow> (lxvalue \<Rightarrow> lxvalue \<Rightarrow> bool) \<Rightarrow> (addr \<Rightarrow> bool) \<Rightarrow> table \<Rightarrow> table option" where
  "tableRemoveWhite hsh eqv dark t =
     (if tb_count t = 0 then Some t
      else remove_white_loop hsh eqv dark [0..<length (tb_entries t)] t)"

text \<open>grayTable grays key and value of every live entry, blackenTable blackens the objects
  among them; gray and blacken act on the collector's state.\<close>

definition grayTable :: "(lxvalue \<Rightarrow> 's \<Rightarrow> 's) \<Rightarrow> table \<Rightarrow> 's \<Rightarrow> 's" where
  "grayTable gray t s =
     (if tb_count t = 0 then s
      else fold (\<lambda>e s. if IS_UNDEF (e_key e) then s else gray (e_value e) (gray (e_key e) s))
             (tb_entries t) s)"

definition blackenTable :: "(addr \<Rightarrow> 's \<Rightarrow> 's) \<Rightarrow> table \<Rightarrow> 's \<Rightarrow> 's" where
  "blackenTable blacken t s =
     (if tb_count t = 0 then s
      else fold (\<lambda>e s. if IS_UNDEF (e_key e) then s else
               (let s1 = (if IS_OBJ (e_key e) then blacken (AS_OBJ (e_key e)) s else s)
                in if IS_OBJ (e_value e) then blacken (AS_OBJ (e_value e)) s1 else s1))
             (tb_entries t) s)"

end
