(* ===== verification/Clox_Table_Laws.thy ===== *)
theory Clox_Table_Laws
  imports Clox_Table
begin

unbundle bit_operations_syntax

text \<open>Correctness of the hash table of the table theory. The laws of a table are proved once,
  in a locale whose assumptions are the contract between the table and its keys: comparison
  is an equivalence on the keys in use, and equal keys have equal hashes. The object theory
  interprets it on the code's hashing and comparison.\<close>

subsection \<open>Cyclic distance\<close>

definition cyc :: "nat \<Rightarrow> nat \<Rightarrow> nat \<Rightarrow> nat" where
  "cyc c a b = (if a \<le> b then b - a else b + c - a)"

lemma cyc_less: "a < c \<Longrightarrow> b < c \<Longrightarrow> cyc c a b < c"
  by (auto simp: cyc_def)

lemma cyc_add: "a < c \<Longrightarrow> b < c \<Longrightarrow> (a + cyc c a b) mod c = b"
  by (auto simp: cyc_def)

lemma cyc_mod: "a < c \<Longrightarrow> m < c \<Longrightarrow> cyc c a ((a + m) mod c) = m"
proof -
  assume a: "a < c" "m < c"
  show ?thesis
  proof (cases "a + m < c")
    case False
    then have "(a + m) mod c = a + m - c" using a by (simp add: mod_if)
    then show ?thesis using a False by (auto simp: cyc_def)
  qed (auto simp: cyc_def)
qed

lemma cyc_inj: "a < c \<Longrightarrow> x < c \<Longrightarrow> y < c \<Longrightarrow> cyc c a x = cyc c a y \<longleftrightarrow> x = y"
  by (auto simp: cyc_def split: if_splits)

lemma cyc_zero: "a < c \<Longrightarrow> x < c \<Longrightarrow> cyc c a x = 0 \<longleftrightarrow> x = a"
  by (auto simp: cyc_def split: if_splits)

lemma int_cyc:
  "a < c \<Longrightarrow> int (cyc c a b) =
    (if int a \<le> int b then int b - int a else int b + int c - int a)"
  by (simp add: cyc_def)

lemma cyc_between:
  assumes "h < c" "p < c" "i < c" "e < c" "q < c"
    and "cyc c h p < cyc c h i" "cyc c q p < cyc c q e" "cyc c q e < cyc c q i"
  shows "cyc c h e < cyc c h i"
  using assms(6-8) assms(1-5)
  unfolding of_nat_less_iff [where 'a = int, symmetric] int_cyc [OF assms(1)] int_cyc [OF assms(5)]
  by (simp split: if_splits)

lemma cyc_wrap:
  assumes "h < c" "x < c" "i < c" "e < c" "q < c"
    and "cyc c h x < cyc c h i" "cyc c q x < cyc c q e" "cyc c q i < cyc c q x"
  shows "cyc c h e < cyc c h i"
  using assms(6-8) assms(1-5)
  unfolding of_nat_less_iff [where 'a = int, symmetric] int_cyc [OF assms(1)] int_cyc [OF assms(5)]
  by (simp split: if_splits)

lemma cyc_step:
  assumes "q < c" "d + 1 < c"
  shows "cyc c q ((q + d + 1) mod c) = d + 1"
  using cyc_mod [of q c "d + 1"] assms by (simp add: add.assoc)

subsection \<open>Slots\<close>

definition occ :: "entry list \<Rightarrow> nat \<Rightarrow> bool" where
  "occ es i \<longleftrightarrow> \<not> IS_UNDEF (e_key (es ! i))"

abbreviation key_at :: "entry list \<Rightarrow> nat \<Rightarrow> lxvalue" where
  "key_at es i \<equiv> e_key (es ! i)"

definition stops :: "(lxvalue \<Rightarrow> lxvalue \<Rightarrow> bool) \<Rightarrow> entry list \<Rightarrow> lxvalue \<Rightarrow> nat \<Rightarrow> bool" where
  "stops eqv es key i \<longleftrightarrow> \<not> occ es i \<or> eqv (key_at es i) key"

definition home :: "(lxvalue \<Rightarrow> u32) \<Rightarrow> nat \<Rightarrow> lxvalue \<Rightarrow> nat" where
  "home hsh c k = unat (hsh k) mod c"

text \<open>The slot invariant. Keys are good and pairwise different, and on the way from its home
  to its slot a key meets no hole, except for the holes that D allows: none between
  operations, those a running deletion has left open inside it.\<close>

definition slots_inv ::
    "(lxvalue \<Rightarrow> u32) \<Rightarrow> (lxvalue \<Rightarrow> lxvalue \<Rightarrow> bool) \<Rightarrow> (lxvalue \<Rightarrow> bool) \<Rightarrow>
     (nat \<Rightarrow> nat \<Rightarrow> bool) \<Rightarrow> entry list \<Rightarrow> bool" where
  "slots_inv hsh eqv good D es \<longleftrightarrow>
     (\<forall>i<length es. occ es i \<longrightarrow> good (key_at es i)) \<and>
     (\<forall>i<length es. \<forall>k<length es. occ es i \<longrightarrow> occ es k \<longrightarrow> i \<noteq> k \<longrightarrow>
        \<not> eqv (key_at es i) (key_at es k)) \<and>
     (\<forall>i<length es. occ es i \<longrightarrow>
       (\<forall>p<length es. cyc (length es) (home hsh (length es) (key_at es i)) p
           < cyc (length es) (home hsh (length es) (key_at es i)) i \<longrightarrow>
         occ es p \<or> D p i))"

definition occ_count :: "entry list \<Rightarrow> nat" where
  "occ_count es = length (live_entries es)"

text \<open>A well-formed table: the initial one, or a power of two slots under the load limit,
  with the slot invariant and the exact count.\<close>

definition table_shape ::
    "(lxvalue \<Rightarrow> u32) \<Rightarrow> (lxvalue \<Rightarrow> lxvalue \<Rightarrow> bool) \<Rightarrow> (lxvalue \<Rightarrow> bool) \<Rightarrow> nat \<Rightarrow> table \<Rightarrow> bool" where
  "table_shape hsh eqv good j t \<longleftrightarrow>
     j \<le> 30 \<and> length (tb_entries t) = 2 ^ j \<and> tb_mask t = 2 ^ j - 1 \<and>
     tb_count t = int (occ_count (tb_entries t)) \<and>
     slots_inv hsh eqv good (\<lambda>_ _. False) (tb_entries t)"

definition table_ok ::
    "(lxvalue \<Rightarrow> u32) \<Rightarrow> (lxvalue \<Rightarrow> lxvalue \<Rightarrow> bool) \<Rightarrow> (lxvalue \<Rightarrow> bool) \<Rightarrow> table \<Rightarrow> bool" where
  "table_ok hsh eqv good t \<longleftrightarrow>
     t = initTable \<or>
     (\<exists>j. table_shape hsh eqv good j t \<and> 4 * tb_count t \<le> 3 * 2 ^ j)"

text \<open>The map a table stands for.\<close>

definition table_lookup ::
    "(lxvalue \<Rightarrow> u32) \<Rightarrow> (lxvalue \<Rightarrow> lxvalue \<Rightarrow> bool) \<Rightarrow> table \<Rightarrow> lxvalue \<Rightarrow> lxvalue option" where
  "table_lookup hsh eqv t k = (case tableGet hsh eqv t k of Some r \<Rightarrow> r | None \<Rightarrow> None)"

definition holds :: "(lxvalue \<Rightarrow> lxvalue \<Rightarrow> bool) \<Rightarrow> entry list \<Rightarrow> lxvalue \<Rightarrow> lxvalue \<Rightarrow> bool" where
  "holds eqv es k v \<longleftrightarrow>
     (\<exists>i<length es. occ es i \<and> eqv (key_at es i) k \<and> e_value (es ! i) = v)"

text \<open>Room for one more entry: a capacity of 2^30 slots under the load limit. Beyond it the
  int capacity of the code overflows.\<close>

definition table_room :: "table \<Rightarrow> bool" where
  "table_room t \<longleftrightarrow> tb_count t < 3 * 2 ^ 28"

lemma under_load: "4 * (n + 1) \<le> 3 * c \<Longrightarrow> 0 \<le> n \<Longrightarrow> n < (c :: int)"
  by presburger

lemma empty_entry_undef [simp]: "IS_UNDEF (e_key TBL_EMPTY_ENTRY)"
  by (simp add: TBL_EMPTY_ENTRY_def IS_UNDEF_def)

lemma occ_update: "i < length es \<Longrightarrow>
  occ (es[i := e]) p \<longleftrightarrow> (if p = i then \<not> IS_UNDEF (e_key e) else occ es p)"
  by (simp add: occ_def nth_update_cases)

lemma occ_count_update:
  "i < length es \<Longrightarrow>
   occ_count (es[i := e]) + (if occ es i then 1 else 0)
   = occ_count es + (if IS_UNDEF (e_key e) then 0 else 1)"
  using length_filter_update [of i es "\<lambda>e. \<not> IS_UNDEF (e_key e)" e]
  by (auto simp: occ_count_def live_entries_def occ_def)

lemma occ_count_replicate [simp]: "occ_count (replicate n TBL_EMPTY_ENTRY) = 0"
  by (simp add: occ_count_def live_entries_def)

lemma free_slot_if: "occ_count es < length es \<Longrightarrow> \<exists>i<length es. \<not> occ es i"
  unfolding occ_count_def live_entries_def occ_def
  by (rule ex_not_if_length_filter_less)

lemma slots_inv_good:
  "slots_inv hsh eqv good D es \<Longrightarrow> i < length es \<Longrightarrow> occ es i \<Longrightarrow> good (key_at es i)"
  by (simp add: slots_inv_def)

lemma slots_inv_distinct:
  "slots_inv hsh eqv good D es \<Longrightarrow> i < length es \<Longrightarrow> k < length es \<Longrightarrow> occ es i \<Longrightarrow> occ es k \<Longrightarrow>
   i \<noteq> k \<Longrightarrow> \<not> eqv (key_at es i) (key_at es k)"
  by (simp add: slots_inv_def)

lemma slots_inv_path:
  "slots_inv hsh eqv good D es \<Longrightarrow> i < length es \<Longrightarrow> occ es i \<Longrightarrow> p < length es \<Longrightarrow>
   cyc (length es) (home hsh (length es) (key_at es i)) p
     < cyc (length es) (home hsh (length es) (key_at es i)) i \<Longrightarrow> occ es p \<or> D p i"
  by (simp add: slots_inv_def)

lemma slots_inv_mono:
  "slots_inv hsh eqv good D es \<Longrightarrow>
   (\<And>i p. i < length es \<Longrightarrow> occ es i \<Longrightarrow> D p i \<Longrightarrow> D' p i) \<Longrightarrow>
   slots_inv hsh eqv good D' es"
  unfolding slots_inv_def by blast

lemma home_less: "0 < c \<Longrightarrow> home hsh c k < c"
  by (simp add: home_def)

subsection \<open>The probe loop\<close>

lemma next_index:
  assumes "unat (idx :: u32) < 2 ^ j" "j \<le> 30"
  shows "unat ((idx + 1) AND mask j) = Suc (unat idx) mod 2 ^ j"
proof -
  have "j < LENGTH(32)" using assms(2) by simp
  then show ?thesis
    using unat_and_mask_mod [of j "idx + 1"] unat_Suc_lt [of idx j] assms(1) by simp
qed

lemma find_from_sound:
  assumes "unat idx < 2 ^ j" "j \<le> 30" "find_from eqv es (mask j) key n idx = Some r"
  shows "\<exists>m<n. unat r = (unat idx + m) mod 2 ^ j \<and> stops eqv es key (unat r) \<and>
    (\<forall>m'<m. \<not> stops eqv es key ((unat idx + m') mod 2 ^ j))"
  using assms(1,3)
proof (induction n arbitrary: idx)
  case (Suc n)
  show ?case
  proof (cases "stops eqv es key (unat idx)")
    case True
    then show ?thesis
      using Suc.prems by (intro exI [of _ 0]) (auto simp: stops_def occ_def split: if_splits)
  next
    case False
    let ?x = "(idx + 1) AND mask j"
    have x: "unat ?x = Suc (unat idx) mod 2 ^ j" by (rule next_index [OF Suc.prems(1) assms(2)])
    then have "unat ?x < 2 ^ j" by simp
    moreover have "find_from eqv es (mask j) key n ?x = Some r"
      using Suc.prems(2) False by (auto simp: stops_def occ_def split: if_splits)
    ultimately obtain m where m: "m < n" "unat r = (unat ?x + m) mod 2 ^ j"
      "stops eqv es key (unat r)"
      "\<forall>m'<m. \<not> stops eqv es key ((unat ?x + m') mod 2 ^ j)"
      using Suc.IH by blast
    have s: "(unat ?x + m') mod 2 ^ j = (unat idx + Suc m') mod 2 ^ j" for m'
      unfolding x by (simp add: mod_add_left_eq)
    have "\<forall>m'<Suc m. \<not> stops eqv es key ((unat idx + m') mod 2 ^ j)"
    proof (intro allI impI)
      fix m' assume "m' < Suc m"
      then show "\<not> stops eqv es key ((unat idx + m') mod 2 ^ j)"
        using False m(4) s Suc.prems(1) by (cases m') auto
    qed
    then show ?thesis
      using m(1-3) s by (intro exI [of _ "Suc m"]) auto
  qed
qed simp

lemma find_from_complete:
  assumes "unat idx < 2 ^ j" "j \<le> 30" "m < n" "stops eqv es key ((unat idx + m) mod 2 ^ j)"
  shows "\<exists>r. find_from eqv es (mask j) key n idx = Some r"
  using assms(1,3,4)
proof (induction n arbitrary: idx m)
  case (Suc n)
  show ?case
  proof (cases "stops eqv es key (unat idx)")
    case True
    then show ?thesis by (auto simp: stops_def occ_def)
  next
    case False
    let ?x = "(idx + 1) AND mask j"
    have x: "unat ?x = Suc (unat idx) mod 2 ^ j" by (rule next_index [OF Suc.prems(1) assms(2)])
    obtain m' where m': "m = Suc m'"
      using False Suc.prems by (cases m) auto
    have "(unat ?x + m') mod 2 ^ j = (unat idx + m) mod 2 ^ j"
      unfolding x m' by (simp add: mod_add_left_eq)
    then have "\<exists>r. find_from eqv es (mask j) key n ?x = Some r"
      using Suc.IH [of ?x m'] Suc.prems m' x by simp
    then show ?thesis by simp
  qed
qed simp

lemma mask_word: "word_of_int (2 ^ j - 1) = (mask j :: u32)"
  by (simp add: mask_eq_exp_minus_1)

lemma home_index: "j \<le> 30 \<Longrightarrow> unat (hsh k AND mask j :: u32) = home hsh (2 ^ j) k"
  unfolding home_def by (rule unat_and_mask_mod) simp

lemma findEntry_SomeD:
  assumes "findEntry hsh eqv es (2 ^ j - 1) key = Some r" "length es = 2 ^ j" "j \<le> 30"
  shows "unat r < length es" "stops eqv es key (unat r)"
    "p < length es \<Longrightarrow> cyc (length es) (home hsh (length es) key) p
       < cyc (length es) (home hsh (length es) key) (unat r) \<Longrightarrow> \<not> stops eqv es key p"
proof -
  let ?c = "2 ^ j :: nat" and ?h = "home hsh (2 ^ j) key"
  have h: "?h < ?c" by (simp add: home_less)
  have i: "unat (hsh key AND mask j) = ?h" by (rule home_index [OF assms(3)])
  from find_from_sound [of "hsh key AND mask j" j eqv es key "length es" r] assms(1,3) h
  obtain m where m: "m < length es" "unat r = (?h + m) mod ?c" "stops eqv es key (unat r)"
    "\<forall>m'<m. \<not> stops eqv es key ((?h + m') mod ?c)"
    unfolding findEntry_def mask_word i by blast
  show "unat r < length es" "stops eqv es key (unat r)" using m assms(2) by auto
  assume p: "p < length es" "cyc (length es) (home hsh (length es) key) p
       < cyc (length es) (home hsh (length es) key) (unat r)"
  have "cyc ?c ?h (unat r) = m" using m(1,2) h assms(2) by (simp add: cyc_mod)
  then have "cyc ?c ?h p < m" using p(2) assms(2) by simp
  moreover have "(?h + cyc ?c ?h p) mod ?c = p" using h p(1) assms(2) by (simp add: cyc_add)
  ultimately show "\<not> stops eqv es key p" using m(4) by metis
qed

lemma findEntry_ex:
  assumes "i < length es" "stops eqv es key i" "length es = 2 ^ j" "j \<le> 30"
  shows "\<exists>r. findEntry hsh eqv es (2 ^ j - 1) key = Some r"
proof -
  let ?c = "2 ^ j :: nat" and ?h = "home hsh (2 ^ j) key"
  have h: "?h < ?c" by (simp add: home_less)
  have i: "unat (hsh key AND mask j) = ?h" by (rule home_index [OF assms(4)])
  have "(?h + cyc ?c ?h i) mod ?c = i" "cyc ?c ?h i < ?c"
    using h assms(1,3) by (auto simp: cyc_add cyc_less)
  then show ?thesis
    using find_from_complete [of "hsh key AND mask j" j "cyc ?c ?h i" "length es" eqv es key]
      assms h unfolding findEntry_def mask_word i by simp
qed

lemma findEntry_SomeI:
  assumes "i < length es" "stops eqv es key i" "length es = 2 ^ j" "j \<le> 30"
    and "\<And>p. p < length es \<Longrightarrow> cyc (length es) (home hsh (length es) key) p
       < cyc (length es) (home hsh (length es) key) i \<Longrightarrow> \<not> stops eqv es key p"
  shows "\<exists>r. findEntry hsh eqv es (2 ^ j - 1) key = Some r \<and> unat r = i"
proof -
  obtain r where r: "findEntry hsh eqv es (2 ^ j - 1) key = Some r"
    using findEntry_ex [OF assms(1-4)] by blast
  note d = findEntry_SomeD [OF r assms(3,4)]
  let ?d = "cyc (length es) (home hsh (length es) key)"
  have "home hsh (length es) key < length es"
    using home_less [of "length es" hsh key] assms(1) by linarith
  moreover have "\<not> ?d (unat r) < ?d i" "\<not> ?d i < ?d (unat r)"
    using d assms(1,2,5) by blast+
  ultimately have "unat r = i" using cyc_inj d(1) assms(1) by (metis linorder_neqE_nat)
  then show ?thesis using r by blast
qed

subsection \<open>The contract with the keys\<close>

locale table_keys =
  fixes hsh :: "lxvalue \<Rightarrow> u32"
    and eqv :: "lxvalue \<Rightarrow> lxvalue \<Rightarrow> bool"
    and good :: "lxvalue \<Rightarrow> bool"
  assumes good_defined: "good k \<Longrightarrow> \<not> IS_UNDEF k"
    and eqv_refl: "good k \<Longrightarrow> eqv k k"
    and eqv_sym: "good a \<Longrightarrow> good b \<Longrightarrow> eqv a b \<Longrightarrow> eqv b a"
    and eqv_trans: "good a \<Longrightarrow> good b \<Longrightarrow> good c \<Longrightarrow> eqv a b \<Longrightarrow> eqv b c \<Longrightarrow> eqv a c"
    and eqv_hash: "good a \<Longrightarrow> good b \<Longrightarrow> eqv a b \<Longrightarrow> hsh a = hsh b"
begin

abbreviation "seek es j k \<equiv> findEntry hsh eqv es (2 ^ j - 1) k"
abbreviation "sinv \<equiv> slots_inv hsh eqv good"
abbreviation "hm es k \<equiv> home hsh (length es) k"
abbreviation "dist es k i \<equiv> cyc (length es) (hm es k) i"

lemma home_eqv: "good a \<Longrightarrow> good b \<Longrightarrow> eqv a b \<Longrightarrow> home hsh c a = home hsh c b"
  using eqv_hash by (simp add: home_def)

text \<open>A key with an equal key in the table is found there.\<close>

lemma find_present:
  assumes "sinv (\<lambda>_ _. False) es" "length es = 2 ^ j" "j \<le> 30"
    and "i < length es" "occ es i" "eqv (key_at es i) k" "good k"
  shows "\<exists>r. seek es j k = Some r \<and> unat r = i"
proof (rule findEntry_SomeI [OF assms(4) _ assms(2,3)])
  have gi: "good (key_at es i)" by (rule slots_inv_good [OF assms(1,4,5)])
  show "stops eqv es k i" using assms(6) by (simp add: stops_def)
  fix p assume p: "p < length es" "dist es k p < dist es k i"
  have "hm es k = hm es (key_at es i)" using home_eqv [OF gi assms(7,6)] by simp
  then have d: "dist es (key_at es i) p < dist es (key_at es i) i" using p(2) by simp
  then have op: "occ es p" using slots_inv_path [OF assms(1,4,5) p(1)] by blast
  have "\<not> eqv (key_at es p) k"
  proof
    assume e: "eqv (key_at es p) k"
    have gp: "good (key_at es p)" by (rule slots_inv_good [OF assms(1) p(1) op])
    have "eqv (key_at es p) (key_at es i)"
      using eqv_trans [OF gp assms(7) gi e eqv_sym [OF gi assms(7,6)]] .
    moreover have "p \<noteq> i" using d by auto
    ultimately show False using slots_inv_distinct [OF assms(1) p(1) assms(4) op assms(5)] by blast
  qed
  then show "\<not> stops eqv es k p" using op by (simp add: stops_def)
qed

lemma find_free_iff:
  assumes "sinv (\<lambda>_ _. False) es" "length es = 2 ^ j" "j \<le> 30" "good k" "seek es j k = Some r"
  shows "occ es (unat r) \<longleftrightarrow> (\<exists>i<length es. occ es i \<and> eqv (key_at es i) k)"
  using findEntry_SomeD(1,2) [OF assms(5,2,3)] find_present [OF assms(1-3)] assms(4,5)
  by (fastforce simp: stops_def)

lemma holds_unique:
  assumes "sinv D es" "good k" "holds eqv es k v" "holds eqv es k w"
  shows "v = w"
proof -
  obtain i l where a: "i < length es" "occ es i" "eqv (key_at es i) k" "e_value (es ! i) = v"
    "l < length es" "occ es l" "eqv (key_at es l) k" "e_value (es ! l) = w"
    using assms(3,4) unfolding holds_def by blast
  have g: "good (key_at es i)" "good (key_at es l)"
    using slots_inv_good [OF assms(1)] a by auto
  have "eqv (key_at es i) (key_at es l)"
    using eqv_trans [OF g(1) assms(2) g(2) a(3)] eqv_sym [OF g(2) assms(2) a(7)] by blast
  then have "i = l" using slots_inv_distinct [OF assms(1) a(1,5,2,6)] by blast
  then show ?thesis using a by simp
qed

text \<open>Filling a free slot that the search for a new key returned.\<close>

lemma fill_inv:
  assumes "sinv D es" "length es = 2 ^ j" "j \<le> 30" "good k" "seek es j k = Some r"
    and "\<not> occ es (unat r)" "\<And>i. i < length es \<Longrightarrow> occ es i \<Longrightarrow> \<not> eqv (key_at es i) k"
  shows "sinv (\<lambda>p i. D p i \<and> i \<noteq> unat r) (es[unat r := \<lparr>e_key = k, e_value = v\<rparr>])"
proof -
  let ?r = "unat r"
  let ?e = "\<lparr>e_key = k, e_value = v\<rparr>"
  note d = findEntry_SomeD [OF assms(5,2,3)]
  have o: "occ (es[?r := ?e]) p \<longleftrightarrow> p = ?r \<or> occ es p" for p
    using d(1) good_defined [OF assms(4)] by (simp add: occ_update)
  have k: "key_at (es[?r := ?e]) p = (if p = ?r then k else key_at es p)" for p
    using d(1) by (simp add: nth_update_cases)
  have new: "occ es p" if "p < length es" "dist es k p < dist es k ?r" for p
    using d(3) [OF that] by (simp add: stops_def)
  show ?thesis
    unfolding slots_inv_def length_list_update o k
  proof (intro conjI allI impI)
    fix i assume "i < length es" "i = ?r \<or> occ es i"
    then show "good (if i = ?r then k else key_at es i)"
      using assms(4) slots_inv_good [OF assms(1), of i] by (cases "i = ?r") simp_all
  next
    fix i l assume il: "i < length es" "l < length es" "i = ?r \<or> occ es i" "l = ?r \<or> occ es l" "i \<noteq> l"
    show "\<not> eqv (if i = ?r then k else key_at es i) (if l = ?r then k else key_at es l)"
    proof (cases "i = ?r")
      case True
      then have l: "l \<noteq> ?r" "occ es l" using il(4,5) by auto
      have "good (key_at es l)" by (rule slots_inv_good [OF assms(1) il(2) l(2)])
      then have "\<not> eqv k (key_at es l)"
        using assms(7) [OF il(2) l(2)] eqv_sym [OF assms(4)] by blast
      then show ?thesis using True l(1) by simp
    next
      case False
      then have "occ es i" using il(3) by simp
      then show ?thesis
        using False il slots_inv_distinct [OF assms(1), of i l] assms(7) [OF il(1)]
        by (cases "l = ?r") simp_all
    qed
  next
    fix i p assume ip: "i < length es" "i = ?r \<or> occ es i" "p < length es"
      "cyc (length es) (hm es (if i = ?r then k else key_at es i)) p
        < cyc (length es) (hm es (if i = ?r then k else key_at es i)) i"
    show "(p = ?r \<or> occ es p) \<or> D p i \<and> i \<noteq> ?r"
    proof (cases "i = ?r")
      case True
      then show ?thesis using new ip(3,4) by simp
    next
      case False
      then have "occ es i" "dist es (key_at es i) p < dist es (key_at es i) i"
        using ip(2,4) by simp_all
      then have "occ es p \<or> D p i" by (rule slots_inv_path [OF assms(1) ip(1) _ ip(3)])
      then show ?thesis using False by simp
    qed
  qed
qed

lemma holds_fill:
  assumes "sinv D es" "r < length es" "good k" "\<not> occ es r"
    "\<And>i. i < length es \<Longrightarrow> occ es i \<Longrightarrow> \<not> eqv (key_at es i) k" "good k'"
  shows "holds eqv (es[r := \<lparr>e_key = k, e_value = v\<rparr>]) k' w
    \<longleftrightarrow> (if eqv k k' then w = v else holds eqv es k' w)"
proof -
  let ?es = "es[r := \<lparr>e_key = k, e_value = v\<rparr>]"
  have H: "holds eqv ?es k' w \<longleftrightarrow> eqv k k' \<and> v = w \<or> holds eqv es k' w"
    unfolding holds_def using assms(2,4) good_defined [OF assms(3)]
    by (auto simp: occ_update nth_update_cases split: if_splits)
  have "\<not> holds eqv es k' w" if "eqv k k'"
  proof
    assume "holds eqv es k' w"
    then obtain i where i: "i < length es" "occ es i" "eqv (key_at es i) k'"
      unfolding holds_def by blast
    have g: "good (key_at es i)" by (rule slots_inv_good [OF assms(1) i(1,2)])
    have "eqv (key_at es i) k"
      using eqv_trans [OF g assms(6,3) i(3)] eqv_sym [OF assms(3,6) that] by blast
    then show False using assms(5) i by blast
  qed
  then show ?thesis using H by auto
qed

text \<open>Overwriting the slot of an equal key.\<close>

lemma overwrite_inv:
  assumes "sinv D es" "r < length es" "occ es r" "eqv (key_at es r) k" "good k"
  shows "sinv D (es[r := \<lparr>e_key = k, e_value = v\<rparr>])"
proof -
  let ?e = "\<lparr>e_key = k, e_value = v\<rparr>"
  have g: "good (key_at es r)" by (rule slots_inv_good [OF assms(1-3)])
  have o: "occ (es[r := ?e]) p \<longleftrightarrow> occ es p" for p
    using assms(2,3) good_defined [OF assms(5)] by (simp add: occ_update)
  have k: "key_at (es[r := ?e]) p = (if p = r then k else key_at es p)" for p
    using assms(2) by (simp add: nth_update_cases)
  have h: "home hsh c (if p = r then k else key_at es p) = home hsh c (key_at es p)" for p c
    using home_eqv [OF g assms(5,4)] by simp
  have ne: "\<not> eqv k (key_at es l)" "\<not> eqv (key_at es l) k"
    if "l < length es" "occ es l" "l \<noteq> r" for l
  proof -
    have gl: "good (key_at es l)" by (rule slots_inv_good [OF assms(1) that(1,2)])
    show "\<not> eqv k (key_at es l)"
      using eqv_trans [OF g assms(5) gl assms(4)] slots_inv_distinct [OF assms(1,2) that(1) assms(3) that(2)]
        that(3) by blast
    then show "\<not> eqv (key_at es l) k" using eqv_sym [OF gl assms(5)] by blast
  qed
  show ?thesis
    unfolding slots_inv_def length_list_update o k h
  proof (intro conjI allI impI)
    fix i assume "i < length es" "occ es i"
    then show "good (if i = r then k else key_at es i)"
      using assms(5) slots_inv_good [OF assms(1)] by simp
  next
    fix i l assume "i < length es" "l < length es" "occ es i" "occ es l" "i \<noteq> l"
    then show "\<not> eqv (if i = r then k else key_at es i) (if l = r then k else key_at es l)"
      using ne slots_inv_distinct [OF assms(1), of i l] by auto
  next
    fix i p assume "i < length es" "occ es i" "p < length es"
      "dist es (key_at es i) p < dist es (key_at es i) i"
    then show "occ es p \<or> D p i" using slots_inv_path [OF assms(1)] by blast
  qed
qed

lemma holds_overwrite:
  assumes "sinv D es" "r < length es" "occ es r" "eqv (key_at es r) k" "good k" "good k'"
  shows "holds eqv (es[r := \<lparr>e_key = k, e_value = v\<rparr>]) k' w
    \<longleftrightarrow> (if eqv k k' then w = v else holds eqv es k' w)"
proof -
  let ?es = "es[r := \<lparr>e_key = k, e_value = v\<rparr>]"
  have g: "good (key_at es r)" by (rule slots_inv_good [OF assms(1-3)])
  have i': "sinv D ?es" by (rule overwrite_inv [OF assms(1-5)])
  have hr: "holds eqv ?es k' v" if "eqv k k'"
    unfolding holds_def using that assms(2) good_defined [OF assms(5)]
    by (intro exI [of _ r]) (simp add: occ_update)
  have "\<not> eqv (key_at es r) k'" if "\<not> eqv k k'"
    using that eqv_trans [OF assms(5) g assms(6)] eqv_sym [OF g assms(5,4)] by blast
  then have "holds eqv ?es k' w \<longleftrightarrow> holds eqv es k' w" if "\<not> eqv k k'"
    unfolding holds_def using that assms(2,3) good_defined [OF assms(5)]
    by (auto simp: occ_update nth_update_cases split: if_splits)
  then show ?thesis using hr holds_unique [OF i' assms(6)] by auto
qed

subsection \<open>Lookup\<close>

abbreviation "tok \<equiv> table_ok hsh eqv good"
abbreviation "shape \<equiv> table_shape hsh eqv good"
abbreviation "has t k v \<equiv> holds eqv (tb_entries t) k v"

lemma seek_total:
  assumes "length es = 2 ^ j" "j \<le> 30" "occ_count es < length es"
  shows "\<exists>r. seek es j k = Some r"
proof -
  obtain i where "i < length es" "\<not> occ es i" using free_slot_if [OF assms(3)] by blast
  then show ?thesis using findEntry_ex [OF _ _ assms(1,2)] by (simp add: stops_def)
qed

lemma tok_cases:
  assumes "tok t"
  obtains "t = initTable" | j where "shape j t" "4 * tb_count t \<le> 3 * 2 ^ j"
  using assms unfolding table_ok_def by blast

lemma shape_free:
  assumes "shape j t" "4 * tb_count t \<le> 3 * 2 ^ j"
  shows "occ_count (tb_entries t) < length (tb_entries t)"
proof -
  have "4 * int (occ_count (tb_entries t)) \<le> 3 * 2 ^ j"
    using assms by (simp add: table_shape_def)
  moreover have "(0::int) < 2 ^ j" by simp
  ultimately have "int (occ_count (tb_entries t)) < 2 ^ j" by linarith
  then show ?thesis using assms(1) by (simp add: table_shape_def)
qed

lemma get_spec:
  assumes "tok t" "good k"
  shows "\<exists>r. tableGet hsh eqv t k = Some r \<and> (\<forall>v. r = Some v \<longleftrightarrow> has t k v)"
  using assms(1)
proof (cases rule: tok_cases)
  case 1
  then show ?thesis by (simp add: tableGet_def initTable_def holds_def)
next
  case (2 j)
  let ?es = "tb_entries t"
  have j: "j \<le> 30" "length ?es = 2 ^ j" "tb_mask t = 2 ^ j - 1" "sinv (\<lambda>_ _. False) ?es"
    using 2(1) by (auto simp: table_shape_def)
  obtain r where r: "seek ?es j k = Some r"
    using seek_total [OF j(2,1) shape_free [OF 2]] by blast
  note d = findEntry_SomeD [OF r j(2,1)]
  have iff: "occ ?es (unat r) \<longleftrightarrow> (\<exists>i<length ?es. occ ?es i \<and> eqv (key_at ?es i) k)"
    by (rule find_free_iff [OF j(4,2,1) assms(2) r])
  have ne: "?es \<noteq> []" using d(1) by auto
  show ?thesis
  proof (cases "occ ?es (unat r)")
    case True
    then have "has t k (e_value (?es ! unat r))"
      unfolding holds_def using d(1,2) by (auto simp: stops_def)
    then have "has t k v \<longleftrightarrow> v = e_value (?es ! unat r)" for v
      using holds_unique [OF j(4) assms(2)] by blast
    then show ?thesis using True r ne j(3) by (auto simp: tableGet_def occ_def)
  next
    case False
    then have "\<not> has t k v" for v using iff unfolding holds_def by blast
    then show ?thesis using False r ne j(3) by (auto simp: tableGet_def occ_def)
  qed
qed

lemma lookup_iff: "tok t \<Longrightarrow> good k \<Longrightarrow> table_lookup hsh eqv t k = Some v \<longleftrightarrow> has t k v"
proof -
  assume "tok t" "good k"
  then obtain r where "tableGet hsh eqv t k = Some r" and r: "\<And>v. r = Some v \<longleftrightarrow> has t k v"
    using get_spec by blast
  then have "table_lookup hsh eqv t k = r" by (simp add: table_lookup_def)
  then show ?thesis using r by simp
qed

lemma lookup_init: "table_lookup hsh eqv initTable k = None"
  by (simp add: table_lookup_def tableGet_def initTable_def)

lemma tok_init: "tok initTable"
  by (simp add: table_ok_def)

subsection \<open>Insertion\<close>

text \<open>Writing an entry to the slot that the search returned.\<close>

lemma put_slot:
  fixes v :: lxvalue
  assumes "sinv (\<lambda>_ _. False) es" "length es = 2 ^ j" "j \<le> 30" "good k" "seek es j k = Some r"
  defines "es' \<equiv> es[unat r := \<lparr>e_key = k, e_value = v\<rparr>]"
  shows "sinv (\<lambda>_ _. False) es'"
    and "good k' \<Longrightarrow> holds eqv es' k' w \<longleftrightarrow> (if eqv k k' then w = v else holds eqv es k' w)"
    and "occ_count es' = occ_count es + (if occ es (unat r) then 0 else 1)"
    and "occ es (unat r) \<longleftrightarrow> (\<exists>v. holds eqv es k v)"
proof -
  note d = findEntry_SomeD [OF assms(5,2,3)]
  have iff: "occ es (unat r) \<longleftrightarrow> (\<exists>i<length es. occ es i \<and> eqv (key_at es i) k)"
    by (rule find_free_iff [OF assms(1-5)])
  then show "occ es (unat r) \<longleftrightarrow> (\<exists>v. holds eqv es k v)" unfolding holds_def by blast
  show "occ_count es' = occ_count es + (if occ es (unat r) then 0 else 1)"
    using occ_count_update [OF d(1), of "\<lparr>e_key = k, e_value = v\<rparr>"] good_defined [OF assms(4)]
    by (auto simp: es'_def split: if_splits)
  show "sinv (\<lambda>_ _. False) es'"
  proof (cases "occ es (unat r)")
    case True
    then show ?thesis using overwrite_inv [OF assms(1) d(1) True _ assms(4)] d(2)
      by (simp add: es'_def stops_def)
  next
    case False
    then have "\<And>i. i < length es \<Longrightarrow> occ es i \<Longrightarrow> \<not> eqv (key_at es i) k" using iff by blast
    from fill_inv [OF assms(1-5) False this, of v] show ?thesis by (simp add: es'_def)
  qed
  assume k': "good k'"
  show "holds eqv es' k' w \<longleftrightarrow> (if eqv k k' then w = v else holds eqv es k' w)"
  proof (cases "occ es (unat r)")
    case True
    then show ?thesis using holds_overwrite [OF assms(1) d(1) True _ assms(4) k'] d(2)
      by (simp add: es'_def stops_def)
  next
    case False
    then have "\<And>i. i < length es \<Longrightarrow> occ es i \<Longrightarrow> \<not> eqv (key_at es i) k" using iff by blast
    from holds_fill [OF assms(1) d(1) assms(4) False this k'] show ?thesis
      unfolding es'_def by blast
  qed
qed

text \<open>tableSet below the load limit.\<close>

lemma put_spec:
  assumes "shape j t" "4 * (tb_count t + 1) \<le> 3 * 2 ^ j" "good k"
  shows "\<exists>b t'. table_put hsh eqv t k v = Some (b, t')
     \<and> shape j t' \<and> (b \<longleftrightarrow> (\<nexists>w. has t k w)) \<and> tb_count t' = tb_count t + (if b then 1 else 0)
     \<and> (\<forall>k' w. good k' \<longrightarrow> has t' k' w \<longleftrightarrow> (if eqv k k' then w = v else has t k' w))"
proof -
  let ?es = "tb_entries t"
  have j: "j \<le> 30" "length ?es = 2 ^ j" "tb_mask t = 2 ^ j - 1" "sinv (\<lambda>_ _. False) ?es"
    "tb_count t = int (occ_count ?es)"
    using assms(1) by (auto simp: table_shape_def)
  have "occ_count ?es < length ?es" using shape_free [OF assms(1)] assms(2) by simp
  then obtain r where r: "seek ?es j k = Some r" using seek_total [OF j(2,1)] by blast
  note p = put_slot [OF j(4,2,1) assms(3) r]
  let ?b = "IS_UNDEF (key_at ?es (unat r))"
  let ?t = "t\<lparr>tb_entries := ?es[unat r := \<lparr>e_key = k, e_value = v\<rparr>],
              tb_count := (if ?b then tb_count t + 1 else tb_count t)\<rparr>"
  have "shape j ?t"
    using j p(1,3) [of v] by (auto simp: table_shape_def occ_def)
  moreover have "?b \<longleftrightarrow> (\<nexists>w. has t k w)" using p(4) unfolding occ_def by blast
  moreover have "\<forall>k' w. good k' \<longrightarrow> has ?t k' w \<longleftrightarrow> (if eqv k k' then w = v else has t k' w)"
    using p(2) by simp
  ultimately show ?thesis using r j(3)
    by (intro exI [of _ ?b] exI [of _ ?t]) (simp add: table_put_def Let_def)
qed

text \<open>The rehash loop of resize.\<close>

lemma live_distinct:
  assumes "sinv D es"
  shows "sorted_wrt (\<lambda>a b. \<not> eqv (e_key a) (e_key b)) (live_entries es)"
    and "e \<in> set (live_entries es) \<Longrightarrow> good (e_key e) \<and> \<not> IS_UNDEF (e_key e)"
proof -
  have "sorted_wrt (\<lambda>a b. \<not> IS_UNDEF (e_key a) \<longrightarrow> \<not> IS_UNDEF (e_key b) \<longrightarrow>
      \<not> eqv (e_key a) (e_key b)) es"
    unfolding sorted_wrt_iff_nth_less
    using slots_inv_distinct [OF assms] by (simp add: occ_def)
  then have "sorted_wrt (\<lambda>a b. \<not> IS_UNDEF (e_key a) \<longrightarrow> \<not> IS_UNDEF (e_key b) \<longrightarrow>
      \<not> eqv (e_key a) (e_key b)) (live_entries es)"
    unfolding live_entries_def by (rule sorted_wrt_filter)
  then show "sorted_wrt (\<lambda>a b. \<not> eqv (e_key a) (e_key b)) (live_entries es)"
    by (rule sorted_wrt_mono_rel [rotated]) (auto simp: live_entries_def)
  show "e \<in> set (live_entries es) \<Longrightarrow> good (e_key e) \<and> \<not> IS_UNDEF (e_key e)"
    using slots_inv_good [OF assms] by (auto simp: live_entries_def occ_def in_set_conv_nth)
qed

lemma holds_live:
  "holds eqv es k v \<longleftrightarrow> (\<exists>e\<in>set (live_entries es). eqv (e_key e) k \<and> e_value e = v)"
  by (auto simp: holds_def live_entries_def occ_def in_set_conv_nth)

lemma resize_loop_spec:
  assumes "length new = 2 ^ j" "j \<le> 30" "sinv (\<lambda>_ _. False) new"
    and "occ_count new + length (live_entries old) < 2 ^ j"
    and "sorted_wrt (\<lambda>a b. \<not> eqv (e_key a) (e_key b)) (live_entries old)"
    and "\<And>e. e \<in> set (live_entries old) \<Longrightarrow> good (e_key e) \<and> (\<forall>v. \<not> holds eqv new (e_key e) v)"
  shows "\<exists>new'. resize_loop hsh eqv (2 ^ j - 1) old new n
        = Some (new', n + int (length (live_entries old)))
     \<and> length new' = 2 ^ j \<and> sinv (\<lambda>_ _. False) new'
     \<and> occ_count new' = occ_count new + length (live_entries old)
     \<and> (\<forall>k v. good k \<longrightarrow> holds eqv new' k v \<longleftrightarrow> holds eqv new k v \<or> holds eqv old k v)"
  using assms(1,3-6)
proof (induction old arbitrary: new n)
  case Nil
  then show ?case by (simp add: live_entries_def holds_live)
next
  case (Cons e old)
  show ?case
  proof (cases "IS_UNDEF (e_key e)")
    case True
    then have "live_entries (e # old) = live_entries old" by (simp add: live_entries_def)
    then show ?thesis
      using Cons.IH [of new n] Cons.prems True by (simp add: holds_live)
  next
    case False
    then have l: "live_entries (e # old) = e # live_entries old" by (simp add: live_entries_def)
    have g: "good (e_key e)" "\<And>v. \<not> holds eqv new (e_key e) v"
      using Cons.prems(5) [of e] l by auto
    have "occ_count new < length new" using Cons.prems(1,3) l by simp
    then obtain r where r: "seek new j (e_key e) = Some r"
      using seek_total [OF Cons.prems(1) assms(2)] by blast
    note p = put_slot [OF Cons.prems(2,1) assms(2) g(1) r]
    let ?new = "new[unat r := e]"
    have e: "\<lparr>e_key = e_key e, e_value = e_value e\<rparr> = e" by simp
    have p1: "sinv (\<lambda>_ _. False) ?new" using p(1) [of "e_value e"] unfolding e .
    have p2: "holds eqv ?new k w \<longleftrightarrow> (if eqv (e_key e) k then w = e_value e else holds eqv new k w)"
      if "good k" for k w
      using p(2) [OF that, of "e_value e"] unfolding e .
    have p3: "occ_count ?new = Suc (occ_count new)"
      using p(3) [of "e_value e"] p(4) g(2) unfolding e by simp
    have absent: "good (e_key x) \<and> (\<forall>v. \<not> holds eqv ?new (e_key x) v)"
      if "x \<in> set (live_entries old)" for x
    proof -
      have x: "good (e_key x)" "\<And>v. \<not> holds eqv new (e_key x) v"
        using Cons.prems(5) [of x] l that by auto
      have "\<not> eqv (e_key e) (e_key x)" using Cons.prems(4) l that by simp
      then show ?thesis using x p2 by simp
    qed
    have "occ_count ?new + length (live_entries old) < 2 ^ j"
      using Cons.prems(3) l p3 by simp
    moreover have "sorted_wrt (\<lambda>a b. \<not> eqv (e_key a) (e_key b)) (live_entries old)"
      using Cons.prems(4) l by simp
    ultimately obtain new' where n': "resize_loop hsh eqv (2 ^ j - 1) old ?new (n + 1)
        = Some (new', n + 1 + int (length (live_entries old)))"
      "length new' = 2 ^ j" "sinv (\<lambda>_ _. False) new'"
      "occ_count new' = occ_count ?new + length (live_entries old)"
      "\<forall>k v. good k \<longrightarrow> holds eqv new' k v \<longleftrightarrow> holds eqv ?new k v \<or> holds eqv old k v"
      using Cons.IH [of ?new "n + 1"] Cons.prems(1) p1 absent by auto
    have "holds eqv new' k v \<longleftrightarrow> holds eqv new k v \<or> holds eqv (e # old) k v" if k: "good k" for k v
    proof -
      have "\<not> holds eqv new k v" if ek: "eqv (e_key e) k"
      proof
        assume "holds eqv new k v"
        then obtain i where i: "i < length new" "occ new i" "eqv (key_at new i) k"
          unfolding holds_def by blast
        have gi: "good (key_at new i)" by (rule slots_inv_good [OF Cons.prems(2) i(1,2)])
        have "eqv (key_at new i) (e_key e)"
          by (rule eqv_trans [OF gi k g(1) i(3) eqv_sym [OF g(1) k ek]])
        then show False using g(2) i(1,2) unfolding holds_def by blast
      qed
      moreover have "holds eqv (e # old) k v \<longleftrightarrow> eqv (e_key e) k \<and> e_value e = v \<or> holds eqv old k v"
        unfolding holds_live l by auto
      ultimately show ?thesis using n'(5) p2 [OF k] k by auto
    qed
    then show ?thesis using n' r False l p3 by (intro exI [of _ new']) simp
  qed
qed

lemma empty_inv: "sinv D (replicate n TBL_EMPTY_ENTRY)"
  by (simp add: slots_inv_def occ_def)

lemma resize_spec:
  assumes "shape i t \<or> t = initTable" "j \<le> 30" "tb_count t < 2 ^ j"
  shows "\<exists>t'. table_resize hsh eqv t (2 ^ j - 1) = Some t' \<and> shape j t' \<and>
    tb_count t' = tb_count t \<and> (\<forall>k v. good k \<longrightarrow> has t' k v \<longleftrightarrow> has t k v)"
proof -
  let ?new = "replicate (2 ^ j) TBL_EMPTY_ENTRY"
  have i: "sinv (\<lambda>_ _. False) (tb_entries t)" "tb_count t = int (length (live_entries (tb_entries t)))"
    using assms(1) empty_inv [of _ 0]
    by (auto simp: table_shape_def initTable_def occ_count_def live_entries_def)
  have h: "\<not> holds eqv ?new k v" for k v by (simp add: holds_def occ_def)
  have "int (length (live_entries (tb_entries t))) < int (2 ^ j)" using assms(3) i(2) by simp
  then have "length (live_entries (tb_entries t)) < 2 ^ j" unfolding of_nat_less_iff .
  then have "\<exists>new'. resize_loop hsh eqv (2 ^ j - 1) (tb_entries t) ?new 0
        = Some (new', 0 + int (length (live_entries (tb_entries t))))
     \<and> length new' = 2 ^ j \<and> sinv (\<lambda>_ _. False) new'
     \<and> occ_count new' = occ_count ?new + length (live_entries (tb_entries t))
     \<and> (\<forall>k v. good k \<longrightarrow> holds eqv new' k v \<longleftrightarrow> holds eqv ?new k v \<or> has t k v)"
    using live_distinct [OF i(1)] h empty_inv assms(2)
    by (intro resize_loop_spec) auto
  then obtain new' where "resize_loop hsh eqv (2 ^ j - 1) (tb_entries t) ?new 0
        = Some (new', tb_count t)" "length new' = 2 ^ j" "sinv (\<lambda>_ _. False) new'"
     "occ_count new' = length (live_entries (tb_entries t))"
     "\<forall>k v. good k \<longrightarrow> holds eqv new' k v \<longleftrightarrow> has t k v"
    using h i(2) by auto
  then show ?thesis
    using assms(2) i(2) by (simp add: table_resize_def nat_power_eq table_shape_def)
qed

subsection \<open>tableSet\<close>

lemma grow_spec:
  assumes "tok t0" "table_room t0"
  shows "\<exists>j t. (if over_load t0
            then table_resize hsh eqv t0 (GROW_CAPACITY (tb_mask t0 + 1) - 1)
            else Some t0) = Some t \<and> shape j t \<and> 4 * (tb_count t + 1) \<le> 3 * 2 ^ j
     \<and> tb_count t = tb_count t0 \<and> (\<forall>k v. good k \<longrightarrow> has t k v \<longleftrightarrow> has t0 k v)"
  using assms(1)
proof (cases rule: tok_cases)
  case 1
  have "GROW_CAPACITY (tb_mask t0 + 1) - 1 = 2 ^ 3 - 1" "over_load t0" "tb_count t0 = 0"
    using 1 by (simp_all add: GROW_CAPACITY_def over_load_def initTable_def)
  then show ?thesis using resize_spec [of 0 t0 3] 1 by (intro exI [of _ 3]) auto
next
  case (2 i)
  have m: "tb_mask t0 = 2 ^ i - 1" "i \<le> 30" "0 \<le> tb_count t0"
    using 2 by (auto simp: table_shape_def)
  show ?thesis
  proof (cases "over_load t0")
    case False
    then show ?thesis using 2 m by (intro exI [of _ i] exI [of _ t0]) (simp add: over_load_def)
  next
    case True
    then have over: "3 * 2 ^ i < 4 * (tb_count t0 + 1)" using m by (simp add: over_load_def)
    define j where "j = (if i < 3 then 3 else Suc i)"
    have "(2::int) ^ i < 2 ^ 30" using over assms(2) by (simp add: table_room_def)
    then have i: "i < 30" by (rule power_less_imp_less_exp [rotated]) simp
    have small: "(2::int) ^ i < 8 \<longleftrightarrow> i < 3"
      using power_strict_increasing_iff [of "2::int" i 3] by simp
    have g: "GROW_CAPACITY (tb_mask t0 + 1) - 1 = 2 ^ j - 1"
      using small by (simp add: GROW_CAPACITY_def m(1) j_def)
    have b: "3 * 2 ^ i + 4 \<le> 3 * (2::int) ^ j"
    proof (cases "i < 3")
      case True
      then have "(2::int) ^ i \<le> 4" using power_increasing [of i 2 "2::int"] by simp
      then show ?thesis using True by (simp add: j_def)
    next
      case False
      then show ?thesis using small by (simp add: j_def)
    qed
    have "4 * (tb_count t0 + 1) \<le> 3 * 2 ^ j" using b 2(2) by simp
    moreover have "tb_count t0 < 2 ^ j" using under_load [OF calculation m(3)] .
    moreover have "j \<le> 30" using i by (simp add: j_def)
    ultimately show ?thesis
      using resize_spec [of i t0 j] 2(1) True g by (intro exI [of _ j]) auto
  qed
qed

lemma set_spec:
  assumes "tok t" "table_room t" "good k"
  shows "\<exists>b t'. tableSet hsh eqv t k v = Some (b, t') \<and> tok t' \<and>
     (b \<longleftrightarrow> (\<nexists>w. has t k w)) \<and> tb_count t' = tb_count t + (if b then 1 else 0) \<and>
     (\<forall>k' w. good k' \<longrightarrow> has t' k' w \<longleftrightarrow> (if eqv k k' then w = v else has t k' w))"
proof -
  obtain j t1 where g: "(if over_load t
            then table_resize hsh eqv t (GROW_CAPACITY (tb_mask t + 1) - 1)
            else Some t) = Some t1" "shape j t1" "4 * (tb_count t1 + 1) \<le> 3 * 2 ^ j"
     "tb_count t1 = tb_count t" "\<forall>k v. good k \<longrightarrow> has t1 k v \<longleftrightarrow> has t k v"
    using grow_spec [OF assms(1,2)] by blast
  obtain b t' where p: "table_put hsh eqv t1 k v = Some (b, t')" "shape j t'"
     "b \<longleftrightarrow> (\<nexists>w. has t1 k w)" "tb_count t' = tb_count t1 + (if b then 1 else 0)"
     "\<forall>k' w. good k' \<longrightarrow> has t' k' w \<longleftrightarrow> (if eqv k k' then w = v else has t1 k' w)"
    using put_spec [OF g(2,3) assms(3)] by blast
  have "tableSet hsh eqv t k v = Some (b, t')" unfolding tableSet_def g(1) by (simp add: p(1))
  moreover have "tok t'" unfolding table_ok_def using p(2,4) g(3) by (intro disjI2 exI [of _ j]) auto
  moreover have "b \<longleftrightarrow> (\<nexists>w. has t k w)" using p(3) g(5) assms(3) by blast
  moreover have "tb_count t' = tb_count t + (if b then 1 else 0)" using p(4) g(4) by simp
  moreover have "\<forall>k' w. good k' \<longrightarrow> has t' k' w \<longleftrightarrow> (if eqv k k' then w = v else has t k' w)"
    using p(5) g(5) by simp
  ultimately show ?thesis by blast
qed

subsection \<open>tableDelete\<close>

lemma clear_inv:
  assumes "sinv D es" "x < length es"
  shows "sinv (\<lambda>p i. D p i \<or> p = x) (es[x := TBL_EMPTY_ENTRY])"
proof -
  have o: "occ (es[x := TBL_EMPTY_ENTRY]) p \<longleftrightarrow> p \<noteq> x \<and> occ es p" for p
    using assms(2) by (simp add: occ_update)
  have k: "p \<noteq> x \<Longrightarrow> key_at (es[x := TBL_EMPTY_ENTRY]) p = key_at es p" for p by simp
  show ?thesis
    unfolding slots_inv_def length_list_update o
  proof (intro conjI allI impI)
    fix i assume "i < length es" "i \<noteq> x \<and> occ es i"
    then show "good (key_at (es[x := TBL_EMPTY_ENTRY]) i)"
      using slots_inv_good [OF assms(1)] by simp
  next
    fix i l assume "i < length es" "l < length es" "i \<noteq> x \<and> occ es i" "l \<noteq> x \<and> occ es l" "i \<noteq> l"
    then show "\<not> eqv (key_at (es[x := TBL_EMPTY_ENTRY]) i) (key_at (es[x := TBL_EMPTY_ENTRY]) l)"
      using slots_inv_distinct [OF assms(1)] by simp
  next
    fix i p assume ip: "i < length es" "i \<noteq> x \<and> occ es i" "p < length es"
      "dist es (key_at (es[x := TBL_EMPTY_ENTRY]) i) p < dist es (key_at (es[x := TBL_EMPTY_ENTRY]) i) i"
    then have "dist es (key_at es i) p < dist es (key_at es i) i" by simp
    then have "occ es p \<or> D p i" using slots_inv_path [OF assms(1)] ip by blast
    then show "(p \<noteq> x \<and> occ es p) \<or> D p i \<or> p = x" by blast
  qed
qed

lemma holds_clear:
  assumes "sinv D es" "x < length es" "occ es x" "good k"
  shows "holds eqv (es[x := TBL_EMPTY_ENTRY]) k v \<longleftrightarrow> \<not> eqv (key_at es x) k \<and> holds eqv es k v"
proof -
  have g: "good (key_at es x)" by (rule slots_inv_good [OF assms(1-3)])
  have "\<not> eqv (key_at es x) k" if i: "i < length es" "i \<noteq> x" "occ es i" "eqv (key_at es i) k" for i
  proof
    assume e: "eqv (key_at es x) k"
    have gi: "good (key_at es i)" by (rule slots_inv_good [OF assms(1) i(1,3)])
    have "eqv (key_at es i) (key_at es x)"
      by (rule eqv_trans [OF gi assms(4) g i(4) eqv_sym [OF g assms(4) e]])
    then show False using slots_inv_distinct [OF assms(1) i(1) assms(2) i(3) assms(3) i(2)] by blast
  qed
  then show ?thesis
    unfolding holds_def using assms(2)
    by (auto simp: occ_update nth_update_cases split: if_splits)
qed

text \<open>One round of the re-insertion loop: the entry behind the open holes moves into the
  first hole on its way, or stays.\<close>

lemma reinsert_round:
  fixes q :: nat
  assumes c: "length es = 2 ^ j" "j \<le> 30" "q < length es" "E < length es"
    and i: "sinv (\<lambda>p i. d < cyc (length es) q i \<and> cyc (length es) q p \<le> d) es"
    and E: "\<not> occ es E" "d + 1 < cyc (length es) q E"
    and x: "x < length es" "cyc (length es) q x = d + 1" "occ es x"
  defines "k \<equiv> key_at es x" and "v \<equiv> e_value (es ! x)"
  defines "es1 \<equiv> es[x := TBL_EMPTY_ENTRY]"
  shows "\<exists>r. seek es1 j k = Some r \<and> \<not> occ es1 (unat r) \<and>
    (let es2 = es1[unat r := \<lparr>e_key = k, e_value = v\<rparr>]
     in sinv (\<lambda>p i. d + 1 < cyc (length es) q i \<and> cyc (length es) q p \<le> d + 1) es2 \<and>
        \<not> occ es2 E \<and> occ_count es2 = occ_count es \<and>
        set (live_entries es2) \<subseteq> set (live_entries es) \<and>
        (\<forall>k' w. good k' \<longrightarrow> holds eqv es2 k' w \<longleftrightarrow> holds eqv es k' w))"
proof -
  let ?c = "length es" and ?D = "\<lambda>p i. d < cyc (length es) q i \<and> cyc (length es) q p \<le> d"
  have gk: "good k" unfolding k_def by (rule slots_inv_good [OF i x(1,3)])
  have l1: "length es1 = 2 ^ j" "length es1 = ?c" using c(1) by (simp_all add: es1_def)
  have o1: "occ es1 p \<longleftrightarrow> p \<noteq> x \<and> occ es p" for p
    using x(1) by (simp add: es1_def occ_update)
  have i1: "sinv (\<lambda>p i. ?D p i \<or> p = x) es1"
    unfolding es1_def by (rule clear_inv [OF i x(1)])
  have absent: "\<not> eqv (key_at es1 l) k" if "l < length es1" "occ es1 l" for l
    using slots_inv_distinct [OF i _ x(1) _ x(3), of l] that l1 o1
    by (simp add: es1_def k_def)
  have sx: "stops eqv es1 k x" using o1 by (simp add: stops_def)
  obtain r where r: "seek es1 j k = Some r"
    using findEntry_ex [OF _ sx l1(1) c(2)] x(1) l1(2) by auto
  note dr = findEntry_SomeD [OF r l1(1) c(2)]
  have free: "\<not> occ es1 (unat r)" using dr(1,2) absent by (auto simp: stops_def)
  define es2 where "es2 = es1[unat r := \<lparr>e_key = k, e_value = v\<rparr>]"
  have l2: "length es2 = ?c" using l1 by (simp add: es2_def)
  have o2: "occ es2 p \<longleftrightarrow> p = unat r \<or> p \<noteq> x \<and> occ es p" for p
    using dr(1) good_defined [OF gk] o1 by (simp add: es2_def occ_update)
  have i2: "sinv (\<lambda>p i. (?D p i \<or> p = x) \<and> i \<noteq> unat r) es2"
    unfolding es2_def by (rule fill_inv [OF i1 l1(1) c(2) gk r free absent])
  have hk: "hm es k < ?c" using home_less [of ?c hsh k] x(1) by linarith
  have "\<not> dist es k x < dist es k (unat r)"
    using dr(3) [of x] x(1) l1(2) o1 by (auto simp: stops_def)
  have rE: "unat r \<noteq> E"
  proof
    assume "unat r = E"
    then have "dist es k E < dist es k x"
      using \<open>\<not> dist es k x < dist es k (unat r)\<close> cyc_inj [OF hk x(1) c(4)] x(3) E(1) by fastforce
    then have "occ es E \<or> ?D E x" unfolding k_def by (rule slots_inv_path [OF i x(1,3) c(4)])
    then show False using E by simp
  qed
  have oE: "\<not> occ es2 E" using rE E(1) o2 by simp
  have i3: "sinv (\<lambda>p i. d + 1 < cyc ?c q i \<and> cyc ?c q p \<le> d + 1) es2"
    unfolding slots_inv_def
  proof (intro conjI allI impI)
    fix i assume "i < length es2" "occ es2 i"
    then show "good (key_at es2 i)" by (rule slots_inv_good [OF i2])
  next
    fix i l assume "i < length es2" "l < length es2" "occ es2 i" "occ es2 l" "i \<noteq> l"
    then show "\<not> eqv (key_at es2 i) (key_at es2 l)" by (rule slots_inv_distinct [OF i2])
  next
    fix i p assume ip: "i < length es2" "occ es2 i" "p < length es2"
      "dist es2 (key_at es2 i) p < dist es2 (key_at es2 i) i"
    have ipl: "i < ?c" "p < ?c" using ip l2 by auto
    let ?h = "hm es2 (key_at es2 i)"
    have hi: "?h < ?c" unfolding l2 using home_less [of ?c hsh "key_at es2 i"] ipl(1) by linarith
    note path = slots_inv_path [OF i2 ip(1,2)]
    from path [OF ip(3,4)]
    show "occ es2 p \<or> d + 1 < cyc ?c q i \<and> cyc ?c q p \<le> d + 1"
    proof (elim disjE conjE)
      assume h: "i \<noteq> unat r" "d < cyc ?c q i" "cyc ?c q p \<le> d"
      then have "i \<noteq> x" using ip(2) o2 by blast
      then have "cyc ?c q i \<noteq> d + 1" using x(1,2) cyc_inj [OF c(3) ipl(1) x(1)] by auto
      then show ?thesis using h by simp
    next
      assume h: "i \<noteq> unat r" "p = x"
      then have "i \<noteq> x" using ip(2) o2 by blast
      then have n: "cyc ?c q i \<noteq> d + 1" using x(1,2) cyc_inj [OF c(3) ipl(1) x(1)] by auto
      have "\<not> cyc ?c q i \<le> d"
      proof
        assume le: "cyc ?c q i \<le> d"
        have "dist es2 (key_at es2 i) E < dist es2 (key_at es2 i) i"
          unfolding l2
          by (rule cyc_wrap [OF hi [unfolded l2] x(1) ipl(1) c(4) c(3)])
            (use ip(4) h(2) l2 E(2) x(2) le in auto)
        moreover have "E < length es2" using c(4) l2 by simp
        ultimately have "occ es2 E \<or> ((?D E i \<or> E = x) \<and> i \<noteq> unat r)"
          by (intro path)
        then show False using oE E(2) x(3) E(1) le by auto
      qed
      then show ?thesis using n h(2) x(2) by simp
    qed simp
  qed
  have cnt: "occ_count es2 = occ_count es"
    using occ_count_update [OF x(1), of TBL_EMPTY_ENTRY] x(3) free good_defined [OF gk]
      occ_count_update [OF dr(1), of "\<lparr>e_key = k, e_value = v\<rparr>"]
    by (simp add: es1_def es2_def)
  have "\<lparr>e_key = k, e_value = v\<rparr> = es ! x" by (simp add: k_def v_def)
  then have "set es2 \<subseteq> insert (es ! x) (insert TBL_EMPTY_ENTRY (set es))"
    unfolding es2_def es1_def by (metis (no_types) insert_mono order.trans set_update_subset_insert)
  then have live: "set (live_entries es2) \<subseteq> set (live_entries es)"
    using x(1) by (auto simp: live_entries_def)
  have hold: "holds eqv es2 k' w \<longleftrightarrow> holds eqv es k' w" if g: "good k'" for k' w
  proof -
    have "holds eqv es k' v" if "eqv k k'"
      unfolding holds_def using that x(1,3) k_def v_def by blast
    then have "eqv k k' \<Longrightarrow> holds eqv es k' w \<longleftrightarrow> w = v" using holds_unique [OF i g] by blast
    moreover have "holds eqv es2 k' w \<longleftrightarrow> (if eqv k k' then w = v else holds eqv es1 k' w)"
      unfolding es2_def using i1 dr(1) gk free absent g by (rule holds_fill)
    moreover have "holds eqv es1 k' w \<longleftrightarrow> \<not> eqv k k' \<and> holds eqv es k' w"
      unfolding es1_def k_def by (rule holds_clear [OF i x(1,3) g])
    ultimately show ?thesis by auto
  qed
  show ?thesis
    using r free i3 oE cnt hold live by (intro exI [of _ r]) (simp add: Let_def es2_def [symmetric])
qed

lemma delete_exit:
  fixes q :: nat
  assumes c: "q < length es" "E < length es"
    and i: "sinv (\<lambda>p i. d < cyc (length es) q i \<and> cyc (length es) q p \<le> d) es"
    and E: "\<not> occ es E" "cyc (length es) q E = d + 1"
  shows "sinv (\<lambda>_ _. False) es"
  unfolding slots_inv_def
proof (intro conjI allI impI)
  fix i assume "i < length es" "occ es i"
  then show "good (key_at es i)" by (rule slots_inv_good [OF i])
next
  fix i l assume "i < length es" "l < length es" "occ es i" "occ es l" "i \<noteq> l"
  then show "\<not> eqv (key_at es i) (key_at es l)" by (rule slots_inv_distinct [OF i])
next
  fix i p assume ip: "i < length es" "occ es i" "p < length es"
    "dist es (key_at es i) p < dist es (key_at es i) i"
  note path = slots_inv_path [OF i ip(1,2)]
  have hi: "hm es (key_at es i) < length es"
    using home_less [of "length es" hsh "key_at es i"] ip(1) by linarith
  from path [OF ip(3,4)] show "occ es p \<or> False"
  proof (elim disjE conjE)
    assume h: "d < cyc (length es) q i" "cyc (length es) q p \<le> d"
    have "i \<noteq> E" using ip(2) E(1) by blast
    then have "cyc (length es) q i \<noteq> d + 1" using E(2) cyc_inj [OF c(1) ip(1) c(2)] by auto
    then have "dist es (key_at es i) E < dist es (key_at es i) i"
      by (intro cyc_between [OF hi ip(3,1) c(2,1) ip(4)]) (use h E(2) in auto)
    then have "occ es E \<or> d < cyc (length es) q i \<and> cyc (length es) q E \<le> d"
      by (rule path [OF c(2)])
    then show ?thesis using E by simp
  qed simp
qed

lemma delete_loop_spec:
  fixes q :: nat
  assumes "j \<le> 30" "q < 2 ^ j" "E < 2 ^ j"
    and "length (tb_entries t) = 2 ^ j" "tb_mask t = 2 ^ j - 1"
    and "tb_count t = int (occ_count (tb_entries t))" "4 * (tb_count t + 1) \<le> 3 * 2 ^ j"
    and "sinv (\<lambda>p i. d < cyc (2 ^ j) q i \<and> cyc (2 ^ j) q p \<le> d) (tb_entries t)"
    and "\<not> occ (tb_entries t) E" "d < cyc (2 ^ j) q E" "cyc (2 ^ j) q E \<le> d + n"
    and "unat index = (q + d) mod 2 ^ j"
  shows "\<exists>t'. delete_loop hsh eqv n t index = Some t' \<and> shape j t' \<and> tb_count t' = tb_count t
     \<and> set (live_entries (tb_entries t')) \<subseteq> set (live_entries (tb_entries t))
     \<and> (\<forall>k v. good k \<longrightarrow> has t' k v \<longleftrightarrow> has t k v)"
  using assms(4-12)
proof (induction n arbitrary: t d index)
  case (Suc n)
  let ?es = "tb_entries t" and ?x = "unat ((index + 1) AND mask j)"
  have m: "word_of_int (tb_mask t) = (mask j :: u32)" using Suc.prems(2) mask_word by simp
  have d1: "d + 1 < 2 ^ j"
    using Suc.prems(7) cyc_less [OF assms(2,3)] by linarith
  have "unat index < 2 ^ j" using Suc.prems(9) by simp
  from next_index [OF this assms(1)] have x: "?x = (q + d + 1) mod 2 ^ j"
    using Suc.prems(9) by (simp add: mod_Suc_eq)
  have xl: "?x < length ?es" "cyc (length ?es) q ?x = d + 1"
    using Suc.prems(1) x cyc_step [OF assms(2) d1] by auto
  have qE: "q < length ?es" "E < length ?es" using assms(2,3) Suc.prems(1) by auto
  have l: "length ?es = 2 ^ j" by (rule Suc.prems(1))
  note i = Suc.prems(5) [folded l]
  show ?case
  proof (cases "occ ?es ?x")
    case False
    have "sinv (\<lambda>_ _. False) ?es" by (rule delete_exit [OF qE(1) xl(1) i False xl(2)])
    then have "shape j t" using Suc.prems assms(1) by (simp add: table_shape_def)
    moreover have "delete_loop hsh eqv (Suc n) t index = Some t"
      using False by (simp add: Let_def m occ_def)
    ultimately show ?thesis by blast
  next
    case True
    have ne: "d + 1 < cyc (length ?es) q E"
    proof -
      have "?x \<noteq> E" using True Suc.prems(6) by blast
      then have "cyc (length ?es) q E \<noteq> d + 1" using xl(2) cyc_inj [OF qE(1) xl(1) qE(2)] by auto
      then show ?thesis using Suc.prems(7) l by simp
    qed
    let ?k = "key_at ?es ?x" and ?v = "e_value (?es ! ?x)"
    let ?es1 = "?es[?x := TBL_EMPTY_ENTRY]"
    obtain r where r: "seek ?es1 j ?k = Some r" "\<not> occ ?es1 (unat r)" and
      rr: "sinv (\<lambda>p i. d + 1 < cyc (length ?es) q i \<and> cyc (length ?es) q p \<le> d + 1)
             (?es1[unat r := \<lparr>e_key = ?k, e_value = ?v\<rparr>])"
        "\<not> occ (?es1[unat r := \<lparr>e_key = ?k, e_value = ?v\<rparr>]) E"
        "occ_count (?es1[unat r := \<lparr>e_key = ?k, e_value = ?v\<rparr>]) = occ_count ?es"
        "\<forall>k' w. good k' \<longrightarrow> holds eqv (?es1[unat r := \<lparr>e_key = ?k, e_value = ?v\<rparr>]) k' w
           \<longleftrightarrow> has t k' w"
        "set (live_entries (?es1[unat r := \<lparr>e_key = ?k, e_value = ?v\<rparr>])) \<subseteq> set (live_entries ?es)"
      using reinsert_round [OF l assms(1) qE i Suc.prems(6) ne xl True] unfolding Let_def by blast
    define t2 where "t2 = t\<lparr>tb_entries := ?es1[unat r := \<lparr>e_key = ?k, e_value = ?v\<rparr>]\<rparr>"
    have "\<not> over_load (clear_slot t ((index + 1) AND mask j))"
      using Suc.prems(2,4) by (simp add: over_load_def clear_slot_def)
    moreover have "table_put hsh eqv (clear_slot t ((index + 1) AND mask j)) ?k ?v = Some (True, t2)"
      using r Suc.prems(2) by (simp add: table_put_def clear_slot_def occ_def t2_def)
    ultimately have ts: "tableSet hsh eqv (clear_slot t ((index + 1) AND mask j)) ?k ?v = Some (True, t2)"
      by (simp add: tableSet_def)
    have "\<exists>t'. delete_loop hsh eqv n t2 ((index + 1) AND mask j) = Some t' \<and> shape j t'
       \<and> tb_count t' = tb_count t2
       \<and> set (live_entries (tb_entries t')) \<subseteq> set (live_entries (tb_entries t2)) \<and> (\<forall>k v. good k \<longrightarrow> has t' k v \<longleftrightarrow> has t2 k v)"
      by (rule Suc.IH [of t2 "d + 1"])
        (use Suc.prems rr ne l x in \<open>simp_all add: t2_def add.assoc\<close>)
    then obtain t' where t': "delete_loop hsh eqv n t2 ((index + 1) AND mask j) = Some t'"
       "shape j t'" "tb_count t' = tb_count t2"
       "set (live_entries (tb_entries t')) \<subseteq> set (live_entries (tb_entries t2))" "\<forall>k v. good k \<longrightarrow> has t' k v \<longleftrightarrow> has t2 k v"
      by blast
    have "delete_loop hsh eqv (Suc n) t index = Some t'"
      using True ts t'(1) by (simp add: Let_def m occ_def)
    moreover have "tb_count t2 = tb_count t" "\<forall>k v. good k \<longrightarrow> has t2 k v \<longleftrightarrow> has t k v"
      "set (live_entries (tb_entries t2)) \<subseteq> set (live_entries ?es)"
      using rr(4,5) by (simp_all add: t2_def)
    ultimately show ?thesis using t' by (intro exI [of _ t']) auto
  qed
qed simp

lemma delete_spec:
  assumes "tok t" "good k"
  shows "\<exists>b t'. tableDelete hsh eqv t k = Some (b, t') \<and> tok t' \<and>
     (b \<longleftrightarrow> (\<exists>w. has t k w)) \<and> tb_count t' = tb_count t - (if b then 1 else 0) \<and>
     length (tb_entries t') = length (tb_entries t) \<and>
     set (live_entries (tb_entries t')) \<subseteq> set (live_entries (tb_entries t)) \<and>
     (\<forall>k' w. good k' \<longrightarrow> has t' k' w \<longleftrightarrow> \<not> eqv k k' \<and> has t k' w)"
proof (cases "tb_count t = 0")
  case True
  have "\<not> occ (tb_entries t) i" if "i < length (tb_entries t)" for i
    using assms(1)
  proof (cases rule: tok_cases)
    case 1
    then show ?thesis using that by (simp add: initTable_def)
  next
    case (2 j)
    then have "occ_count (tb_entries t) = 0" using True by (simp add: table_shape_def)
    then show ?thesis using that
      by (auto simp: occ_count_def live_entries_def occ_def filter_empty_conv)
  qed
  then have "\<not> has t k' w" for k' w by (auto simp: holds_def)
  then show ?thesis using True assms(1)
    by (intro exI [of _ False] exI [of _ t]) (simp add: tableDelete_def)
next
  case False
  from assms(1) obtain j where s: "shape j t" "4 * tb_count t \<le> 3 * 2 ^ j"
  proof (cases rule: tok_cases)
    case 1
    then show ?thesis using False by (simp add: initTable_def)
  qed blast
  let ?es = "tb_entries t"
  have j: "j \<le> 30" "length ?es = 2 ^ j" "tb_mask t = 2 ^ j - 1" "sinv (\<lambda>_ _. False) ?es"
    "tb_count t = int (occ_count ?es)"
    using s(1) by (auto simp: table_shape_def)
  obtain r where r: "seek ?es j k = Some r" using seek_total [OF j(2,1) shape_free [OF s]] by blast
  note dr = findEntry_SomeD [OF r j(2,1)]
  have iff: "occ ?es (unat r) \<longleftrightarrow> (\<exists>i<length ?es. occ ?es i \<and> eqv (key_at ?es i) k)"
    by (rule find_free_iff [OF j(4,2,1) assms(2) r])
  show ?thesis
  proof (cases "occ ?es (unat r)")
    case False
    then have n: "\<not> has t k w" for w using iff unfolding holds_def by blast
    have "\<not> (eqv k k' \<and> has t k' w)" if g: "good k'" for k' w
    proof
      assume a: "eqv k k' \<and> has t k' w"
      then obtain i where i: "i < length ?es" "occ ?es i" "eqv (key_at ?es i) k'"
        unfolding holds_def by blast
      have gi: "good (key_at ?es i)" by (rule slots_inv_good [OF j(4) i(1,2)])
      have "eqv (key_at ?es i) k"
        using eqv_trans [OF gi g assms(2) i(3)] eqv_sym [OF assms(2) g] a by blast
      then show False using False iff i(1,2) by blast
    qed
    then show ?thesis
      using n False r j(3) assms(1) \<open>tb_count t \<noteq> 0\<close>
      by (intro exI [of _ False] exI [of _ t]) (auto simp: tableDelete_def occ_def)
  next
    case True
    let ?q = "unat r"
    let ?t = "clear_slot t r"
    have c: "tb_count ?t = int (occ_count (tb_entries ?t))"
      using occ_count_update [OF dr(1), of TBL_EMPTY_ENTRY] True j(5) by (simp add: clear_slot_def)
    obtain E where E: "E < length ?es" "\<not> occ ?es E" using free_slot_if [OF shape_free [OF s]] by blast
    then have "E \<noteq> ?q" using True by blast
    then have cE: "0 < cyc (2 ^ j) ?q E" "cyc (2 ^ j) ?q E \<le> 2 ^ j"
      using cyc_zero [of ?q "2 ^ j" E] cyc_less [of ?q "2 ^ j" E] dr(1) E(1) j(2) by auto
    have i0: "sinv (\<lambda>p i. False \<or> p = ?q) (tb_entries ?t)"
      using clear_inv [OF j(4) dr(1)] by (simp add: clear_slot_def)
    have inv0: "sinv (\<lambda>p i. 0 < cyc (2 ^ j) ?q i \<and> cyc (2 ^ j) ?q p \<le> 0) (tb_entries ?t)"
    proof (rule slots_inv_mono [OF i0])
      fix i p assume "i < length (tb_entries ?t)" "occ (tb_entries ?t) i" "False \<or> p = ?q"
      then have "i < 2 ^ j" "i \<noteq> ?q" "p = ?q"
        using dr(1) j(2) by (auto simp: clear_slot_def occ_update)
      moreover have "?q < 2 ^ j" using dr(1) j(2) by simp
      ultimately show "0 < cyc (2 ^ j) ?q i \<and> cyc (2 ^ j) ?q p \<le> 0"
        using cyc_zero [of ?q "2 ^ j" i] cyc_zero [of ?q "2 ^ j" p] by simp
    qed
    have "\<exists>t'. delete_loop hsh eqv (2 ^ j) ?t r = Some t' \<and> shape j t' \<and> tb_count t' = tb_count ?t
       \<and> set (live_entries (tb_entries t')) \<subseteq> set (live_entries (tb_entries ?t))
       \<and> (\<forall>k v. good k \<longrightarrow> has t' k v \<longleftrightarrow> has ?t k v)"
      by (rule delete_loop_spec [OF j(1) _ _ _ _ c _ inv0, of E])
        (use dr(1) E j s(2) cE in \<open>auto simp: clear_slot_def occ_update\<close>)
    then obtain t' where t': "delete_loop hsh eqv (2 ^ j) ?t r = Some t'" "shape j t'"
       "tb_count t' = tb_count ?t"
       "set (live_entries (tb_entries t')) \<subseteq> set (live_entries (tb_entries ?t))" "\<forall>k v. good k \<longrightarrow> has t' k v \<longleftrightarrow> has ?t k v"
      by blast
    have eq: "eqv (key_at ?es ?q) k" using dr(2) True by (simp add: stops_def)
    have gq: "good (key_at ?es ?q)" by (rule slots_inv_good [OF j(4) dr(1) True])
    have "has ?t k' w \<longleftrightarrow> \<not> eqv k k' \<and> has t k' w" if g: "good k'" for k' w
    proof -
      have "eqv (key_at ?es ?q) k' \<longleftrightarrow> eqv k k'"
        using eqv_trans [OF gq assms(2) g eq] eqv_trans [OF assms(2) gq g]
          eqv_sym [OF gq assms(2) eq] by blast
      then show ?thesis using holds_clear [OF j(4) dr(1) True g] by (simp add: clear_slot_def)
    qed
    moreover have "\<exists>w. has t k w" unfolding holds_def using dr(1) True eq by blast
    moreover have "tableDelete hsh eqv t k = Some (True, t')"
      using t'(1) r j(2,3) True \<open>tb_count t \<noteq> 0\<close> by (simp add: tableDelete_def occ_def)
    moreover have "tok t'" unfolding table_ok_def using t'(2,3) s(2) by (auto simp: clear_slot_def)
    moreover have "length (tb_entries t') = length ?es" using t'(2) j(2) by (simp add: table_shape_def)
    moreover have "set (live_entries (tb_entries ?t)) \<subseteq> set (live_entries ?es)"
      using set_update_subset_insert [of ?es ?q TBL_EMPTY_ENTRY]
      by (auto simp: clear_slot_def live_entries_def)
    then have "set (live_entries (tb_entries t')) \<subseteq> set (live_entries ?es)" using t'(4) by blast
    ultimately show ?thesis using t'(3,5)
      by (intro exI [of _ True] exI [of _ t']) (simp add: clear_slot_def)
  qed
qed

end

end
