(* ===== verification/Clox_Table_Map.thy ===== *)
theory Clox_Table_Map
  imports Clox_Table_Laws
begin

text \<open>What the clients of a table use: a map interface whose keys are compared by an
  equivalence, the proof that the table provides it, and the operations of table.c that
  walk a whole table (tableAddAll, tableRemoveWhite, tableNthEntry, tableEachEntry).\<close>

subsection \<open>Maps up to an equivalence of keys\<close>

locale eq_map =
  fixes ok :: "'m \<Rightarrow> bool"
    and room :: "nat \<Rightarrow> 'm \<Rightarrow> bool"
    and good :: "'k \<Rightarrow> bool"
    and eqk :: "'k \<Rightarrow> 'k \<Rightarrow> bool"
    and emp :: 'm
    and look :: "'m \<Rightarrow> 'k \<Rightarrow> 'v option"
    and upd :: "'m \<Rightarrow> 'k \<Rightarrow> 'v \<Rightarrow> 'm"
    and del :: "'m \<Rightarrow> 'k \<Rightarrow> 'm"
  assumes emp_ok: "ok emp"
    and look_emp: "look emp k = None"
    and eqk_refl: "good k \<Longrightarrow> eqk k k"
    and upd_ok: "ok m \<Longrightarrow> room 1 m \<Longrightarrow> good k \<Longrightarrow> ok (upd m k v)"
    and look_upd: "ok m \<Longrightarrow> room 1 m \<Longrightarrow> good k \<Longrightarrow> good k' \<Longrightarrow>
      look (upd m k v) k' = (if eqk k k' then Some v else look m k')"
    and room_upd: "ok m \<Longrightarrow> room (Suc n) m \<Longrightarrow> good k \<Longrightarrow> room n (upd m k v)"
    and room_one: "room (Suc n) m \<Longrightarrow> room 1 m"
    and del_ok: "ok m \<Longrightarrow> good k \<Longrightarrow> ok (del m k)"
    and look_del: "ok m \<Longrightarrow> good k \<Longrightarrow> good k' \<Longrightarrow>
      look (del m k) k' = (if eqk k k' then None else look m k')"
begin

lemma look_upd_same: "ok m \<Longrightarrow> room 1 m \<Longrightarrow> good k \<Longrightarrow> look (upd m k v) k = Some v"
  by (simp add: look_upd eqk_refl)

lemma look_del_same: "ok m \<Longrightarrow> good k \<Longrightarrow> look (del m k) k = None"
  by (simp add: look_del eqk_refl)

lemma look_del_upd:
  "ok m \<Longrightarrow> room 1 m \<Longrightarrow> good k \<Longrightarrow> good k' \<Longrightarrow>
   look (del (upd m k v) k) k' = (if eqk k k' then None else look m k')"
  by (simp add: look_del look_upd upd_ok)

text \<open>Adding a list of bindings one after the other: the last binding of a key wins.\<close>

abbreviation add_list :: "('k \<times> 'v) list \<Rightarrow> 'm \<Rightarrow> 'm" where
  "add_list kvs m \<equiv> fold (\<lambda>(k, v) m. upd m k v) kvs m"

lemma add_list_spec:
  assumes "ok m" "room (length kvs) m" "\<And>k v. (k, v) \<in> set kvs \<Longrightarrow> good k" "good k"
  shows "ok (add_list kvs m)"
    and "look (add_list kvs m) k =
      (case List.find (\<lambda>(k', _). eqk k' k) (rev kvs) of Some (_, v) \<Rightarrow> Some v | None \<Rightarrow> look m k)"
proof -
  have "ok (add_list kvs m) \<and> look (add_list kvs m) k =
      (case List.find (\<lambda>(k', _). eqk k' k) (rev kvs) of Some (_, v) \<Rightarrow> Some v | None \<Rightarrow> look m k)"
    using assms(1-3)
  proof (induction kvs arbitrary: m)
    case (Cons kv kvs)
    obtain a b where ab: "kv = (a, b)" by (cases kv)
    have g: "good a" using Cons.prems(3) [of a b] ab by simp
    have r: "room 1 m" using Cons.prems(2) room_one by simp
    have "room (length kvs) (upd m a b)" using room_upd Cons.prems(1,2) g by simp
    then have "ok (add_list kvs (upd m a b)) \<and> look (add_list kvs (upd m a b)) k =
        (case List.find (\<lambda>(k', _). eqk k' k) (rev kvs) of Some (_, v) \<Rightarrow> Some v
         | None \<Rightarrow> look (upd m a b) k)"
      using Cons.IH upd_ok [OF Cons.prems(1) r g] Cons.prems(3) by auto
    moreover have "List.find P (xs @ [y]) =
        (case List.find P xs of Some z \<Rightarrow> Some z | None \<Rightarrow> if P y then Some y else None)"
      for P and xs :: "('k \<times> 'v) list" and y
      by (induction xs) auto
    ultimately show ?case
      using look_upd [OF Cons.prems(1) r g assms(4)]
      by (auto simp: ab split: option.split)
  qed simp
  then show "ok (add_list kvs m)"
    and "look (add_list kvs m) k =
      (case List.find (\<lambda>(k', _). eqk k' k) (rev kvs) of Some (_, v) \<Rightarrow> Some v | None \<Rightarrow> look m k)"
    by blast+
qed

end

subsection \<open>The table as such a map\<close>

definition table_upd ::
    "(lxvalue \<Rightarrow> u32) \<Rightarrow> (lxvalue \<Rightarrow> lxvalue \<Rightarrow> bool) \<Rightarrow> table \<Rightarrow> lxvalue \<Rightarrow> lxvalue \<Rightarrow> table" where
  "table_upd hsh eqv t k v = (case tableSet hsh eqv t k v of Some (_, t') \<Rightarrow> t' | None \<Rightarrow> t)"

definition table_del ::
    "(lxvalue \<Rightarrow> u32) \<Rightarrow> (lxvalue \<Rightarrow> lxvalue \<Rightarrow> bool) \<Rightarrow> table \<Rightarrow> lxvalue \<Rightarrow> table" where
  "table_del hsh eqv t k = (case tableDelete hsh eqv t k of Some (_, t') \<Rightarrow> t' | None \<Rightarrow> t)"

text \<open>The entries that tableRemoveWhite must keep: marked keys and keys that are no objects.\<close>

definition keepable :: "(addr \<Rightarrow> bool) \<Rightarrow> entry \<Rightarrow> bool" where
  "keepable dark e \<longleftrightarrow> \<not> (IS_OBJ (e_key e) \<and> \<not> dark (AS_OBJ (e_key e)))"

definition table_rooms :: "nat \<Rightarrow> table \<Rightarrow> bool" where
  "table_rooms n t \<longleftrightarrow> tb_count t + int n \<le> 3 * 2 ^ 28"

lemma table_rooms_one [simp]: "table_rooms (Suc 0) t = table_room t"
  by (auto simp: table_rooms_def table_room_def)

context table_keys
begin

lemma get_total: "tok t \<Longrightarrow> good k \<Longrightarrow> tableGet hsh eqv t k = Some (table_lookup hsh eqv t k)"
  using get_spec [of t k] by (auto simp: table_lookup_def)

lemma lookup_None: "tok t \<Longrightarrow> good k \<Longrightarrow> table_lookup hsh eqv t k = None \<longleftrightarrow> (\<nexists>v. has t k v)"
  using lookup_iff [of t k] by (metis option.exhaust option.distinct(1))

text \<open>tableSet and tableDelete, with their results and the lookups before and after.\<close>

lemma set_get:
  assumes "tok t" "table_room t" "good k"
  shows "\<exists>b t'. tableSet hsh eqv t k v = Some (b, t') \<and> tok t' \<and>
    (b \<longleftrightarrow> tableGet hsh eqv t k = Some None) \<and> tb_count t' = tb_count t + (if b then 1 else 0) \<and>
    (\<forall>k'. good k' \<longrightarrow> tableGet hsh eqv t' k' =
       (if eqv k k' then Some (Some v) else tableGet hsh eqv t k'))"
proof -
  obtain b t' where s: "tableSet hsh eqv t k v = Some (b, t')" "tok t'" "b \<longleftrightarrow> (\<nexists>w. has t k w)"
     "tb_count t' = tb_count t + (if b then 1 else 0)"
     "\<forall>k' w. good k' \<longrightarrow> has t' k' w \<longleftrightarrow> (if eqv k k' then w = v else has t k' w)"
    using set_spec [OF assms] by blast
  have "table_lookup hsh eqv t' k' = (if eqv k k' then Some v else table_lookup hsh eqv t k')"
    if g: "good k'" for k'
  proof -
    have "table_lookup hsh eqv t' k' = Some w \<longleftrightarrow>
        (if eqv k k' then Some v else table_lookup hsh eqv t k') = Some w" for w
      using s(5) g lookup_iff [OF s(2) g] lookup_iff [OF assms(1) g] by auto
    then show ?thesis by (metis option.exhaust)
  qed
  then show ?thesis
    using s(1-4) get_total [OF s(2)] get_total [OF assms(1)] lookup_None [OF assms(1,3)] assms(3)
    by (intro exI [of _ b] exI [of _ t']) auto
qed

lemma delete_get:
  assumes "tok t" "good k"
  shows "\<exists>b t'. tableDelete hsh eqv t k = Some (b, t') \<and> tok t' \<and>
    (b \<longleftrightarrow> tableGet hsh eqv t k \<noteq> Some None) \<and> tb_count t' = tb_count t - (if b then 1 else 0) \<and>
    (\<forall>k'. good k' \<longrightarrow> tableGet hsh eqv t' k' =
       (if eqv k k' then Some None else tableGet hsh eqv t k'))"
proof -
  obtain b t' where s: "tableDelete hsh eqv t k = Some (b, t')" "tok t'" "b \<longleftrightarrow> (\<exists>w. has t k w)"
     "tb_count t' = tb_count t - (if b then 1 else 0)"
     "\<forall>k' w. good k' \<longrightarrow> has t' k' w \<longleftrightarrow> \<not> eqv k k' \<and> has t k' w"
    using delete_spec [OF assms] by blast
  have "table_lookup hsh eqv t' k' = (if eqv k k' then None else table_lookup hsh eqv t k')"
    if g: "good k'" for k'
  proof -
    have "table_lookup hsh eqv t' k' = Some w \<longleftrightarrow>
        (if eqv k k' then None else table_lookup hsh eqv t k') = Some w" for w
      using s(5) g lookup_iff [OF s(2) g] lookup_iff [OF assms(1) g] by auto
    then show ?thesis by (metis option.exhaust)
  qed
  then show ?thesis
    using s(1-4) get_total [OF s(2)] get_total [OF assms(1)] lookup_None [OF assms(1,2)] assms(2)
    by (intro exI [of _ b] exI [of _ t']) auto
qed

lemma upd_spec:
  assumes "tok t" "table_room t" "good k"
  shows "tok (table_upd hsh eqv t k v)"
    and "good k' \<Longrightarrow> table_lookup hsh eqv (table_upd hsh eqv t k v) k' =
      (if eqv k k' then Some v else table_lookup hsh eqv t k')"
    and "tb_count (table_upd hsh eqv t k v) \<le> tb_count t + 1"
    and "\<exists>b. tableSet hsh eqv t k v = Some (b, table_upd hsh eqv t k v)"
proof -
  obtain b t' where s: "tableSet hsh eqv t k v = Some (b, t')" "tok t'"
     "tb_count t' = tb_count t + (if b then 1 else 0)"
     "\<forall>k' w. good k' \<longrightarrow> has t' k' w \<longleftrightarrow> (if eqv k k' then w = v else has t k' w)"
    using set_spec [OF assms] by blast
  have e: "table_upd hsh eqv t k v = t'" by (simp add: table_upd_def s(1))
  show "tok (table_upd hsh eqv t k v)" "tb_count (table_upd hsh eqv t k v) \<le> tb_count t + 1"
    "\<exists>b. tableSet hsh eqv t k v = Some (b, table_upd hsh eqv t k v)"
    unfolding e using s by auto
  assume g: "good k'"
  have "table_lookup hsh eqv t' k' = Some w \<longleftrightarrow>
      (if eqv k k' then Some v else table_lookup hsh eqv t k') = Some w" for w
    using s(4) g lookup_iff [OF s(2) g] lookup_iff [OF assms(1) g] by auto
  then show "table_lookup hsh eqv (table_upd hsh eqv t k v) k' =
      (if eqv k k' then Some v else table_lookup hsh eqv t k')"
    unfolding e by (metis option.exhaust)
qed

lemma del_spec:
  assumes "tok t" "good k"
  shows "tok (table_del hsh eqv t k)"
    and "good k' \<Longrightarrow> table_lookup hsh eqv (table_del hsh eqv t k) k' =
      (if eqv k k' then None else table_lookup hsh eqv t k')"
    and "\<exists>b. tableDelete hsh eqv t k = Some (b, table_del hsh eqv t k)"
proof -
  obtain b t' where s: "tableDelete hsh eqv t k = Some (b, t')" "tok t'"
     "\<forall>k' w. good k' \<longrightarrow> has t' k' w \<longleftrightarrow> \<not> eqv k k' \<and> has t k' w"
    using delete_spec [OF assms] by blast
  have e: "table_del hsh eqv t k = t'" by (simp add: table_del_def s(1))
  show "tok (table_del hsh eqv t k)" "\<exists>b. tableDelete hsh eqv t k = Some (b, table_del hsh eqv t k)"
    unfolding e using s by auto
  assume g: "good k'"
  have "table_lookup hsh eqv t' k' = Some w \<longleftrightarrow>
      (if eqv k k' then None else table_lookup hsh eqv t k') = Some w" for w
    using s(3) g lookup_iff [OF s(2) g] lookup_iff [OF assms(1) g] by auto
  then show "table_lookup hsh eqv (table_del hsh eqv t k) k' =
      (if eqv k k' then None else table_lookup hsh eqv t k')"
    unfolding e by (metis option.exhaust)
qed

end

sublocale table_keys \<subseteq> tm: eq_map "table_ok hsh eqv good" table_rooms good eqv initTable
    "table_lookup hsh eqv" "table_upd hsh eqv" "table_del hsh eqv"
proof
  fix t n k v assume a: "tok t" "table_rooms (Suc n) t" "good k"
  then have "table_room t" by (simp add: table_rooms_def table_room_def)
  then show "table_rooms n (table_upd hsh eqv t k v)"
    using upd_spec(3) [of t k v] a by (simp add: table_rooms_def)
qed (auto simp: tok_init lookup_init eqv_refl upd_spec del_spec, simp add: table_rooms_def table_room_def)

context table_keys
begin

subsection \<open>Walking a table\<close>

lemma add_all_loop_spec:
  assumes "tok to" "table_rooms (length (live_entries es)) to"
    "\<And>e. e \<in> set (live_entries es) \<Longrightarrow> good (e_key e)"
  shows "add_all_loop hsh eqv es to =
    Some (tm.add_list (map (\<lambda>e. (e_key e, e_value e)) (live_entries es)) to)"
  using assms
proof (induction es arbitrary: to)
  case Nil
  then show ?case by (simp add: live_entries_def)
next
  case (Cons e es)
  show ?case
  proof (cases "IS_UNDEF (e_key e)")
    case True
    then show ?thesis using Cons by (simp add: live_entries_def)
  next
    case False
    then have l: "live_entries (e # es) = e # live_entries es" by (simp add: live_entries_def)
    have g: "good (e_key e)" using Cons.prems(3) l by simp
    have r: "table_rooms (Suc (length (live_entries es))) to" using Cons.prems(2) l by simp
    then have r1: "table_room to" using tm.room_one by fastforce
    let ?t = "table_upd hsh eqv to (e_key e) (e_value e)"
    obtain b where "tableSet hsh eqv to (e_key e) (e_value e) = Some (b, ?t)"
      using upd_spec(4) [OF Cons.prems(1) r1 g] by blast
    moreover have "add_all_loop hsh eqv es ?t =
        Some (tm.add_list (map (\<lambda>e. (e_key e, e_value e)) (live_entries es)) ?t)"
      using Cons.IH upd_spec(1) [OF Cons.prems(1) r1 g] tm.room_upd [OF Cons.prems(1) r g]
        Cons.prems(3) l by simp
    ultimately show ?thesis using False l by simp
  qed
qed

text \<open>tableAddAll: a binding of the source table wins over one of the destination.\<close>

lemma tok_sinv: "tok t \<Longrightarrow> sinv (\<lambda>_ _. False) (tb_entries t)"
  by (auto simp: table_ok_def table_shape_def initTable_def slots_inv_def)

lemma find_live:
  assumes "tok t" "good k"
  shows "(case List.find (\<lambda>(k', _). eqv k' k)
           (rev (map (\<lambda>e. (e_key e, e_value e)) (live_entries (tb_entries t)))) of
          Some (_, v) \<Rightarrow> Some v | None \<Rightarrow> d)
       = (case table_lookup hsh eqv t k of Some v \<Rightarrow> Some v | None \<Rightarrow> d)"
proof (cases "List.find (\<lambda>(k', _). eqv k' k)
    (rev (map (\<lambda>e. (e_key e, e_value e)) (live_entries (tb_entries t))))")
  case None
  then have "\<not> has t k v" for v by (auto simp: find_None_iff holds_live)
  then have "table_lookup hsh eqv t k = None"
    using lookup_iff [OF assms] by (metis option.exhaust)
  then show ?thesis using None by simp
next
  case (Some kv)
  obtain a b where ab: "kv = (a, b)" by (cases kv)
  then have "(a, b) \<in> set (map (\<lambda>e. (e_key e, e_value e)) (live_entries (tb_entries t)))" "eqv a k"
    using find_SomeD [OF Some] by simp_all
  then have "has t k b" unfolding holds_live by auto
  then have "table_lookup hsh eqv t k = Some b" using lookup_iff [OF assms] by simp
  then show ?thesis using Some ab by simp
qed

lemma add_all_spec:
  assumes "tok from" "tok to" "table_rooms (nat (tb_count from)) to"
  shows "\<exists>t. tableAddAll hsh eqv from to = Some t \<and> tok t \<and>
    (\<forall>k. good k \<longrightarrow> table_lookup hsh eqv t k =
      (case table_lookup hsh eqv from k of Some v \<Rightarrow> Some v | None \<Rightarrow> table_lookup hsh eqv to k))"
proof -
  let ?es = "tb_entries from"
  let ?kvs = "map (\<lambda>e. (e_key e, e_value e)) (live_entries ?es)"
  have g: "good (e_key e)" if "e \<in> set (live_entries ?es)" for e
    using live_distinct(2) [OF tok_sinv [OF assms(1)] that] by simp
  have "nat (tb_count from) = length (live_entries ?es)"
    using assms(1) by (auto simp: table_ok_def table_shape_def initTable_def occ_count_def live_entries_def)
  then have r: "table_rooms (length (live_entries ?es)) to" using assms(3) by simp
  have "tableAddAll hsh eqv from to = Some (tm.add_list ?kvs to)"
    unfolding tableAddAll_def using assms(2) r g by (rule add_all_loop_spec)
  moreover have "tok (tm.add_list ?kvs to)" if "good k" for k
    using tm.add_list_spec(1) [OF assms(2), of ?kvs k] r g that by auto
  moreover have "tok (tm.add_list ?kvs to)" if "\<nexists>k. good k"
  proof -
    have "live_entries ?es = []" using g that by (metis list.set_intros(1) neq_Nil_conv)
    then show ?thesis using assms(2) by simp
  qed
  moreover have "table_lookup hsh eqv (tm.add_list ?kvs to) k =
      (case table_lookup hsh eqv from k of Some v \<Rightarrow> Some v | None \<Rightarrow> table_lookup hsh eqv to k)"
    if "good k" for k
    using tm.add_list_spec(2) [OF assms(2), of ?kvs k] r g that find_live [OF assms(1) that]
    by auto
  ultimately show ?thesis by blast
qed

text \<open>tableRemoveWhite: whatever it removes was white, and nothing new appears.\<close>

lemma delete_keeps_others:
  assumes "tok t" "good k" "tableDelete hsh eqv t k = Some (b, t')"
    "e \<in> set (live_entries (tb_entries t))" "\<not> eqv k (e_key e)"
  shows "e \<in> set (live_entries (tb_entries t'))"
proof -
  have inv: "sinv (\<lambda>_ _. False) (tb_entries t)" by (rule tok_sinv [OF assms(1)])
  have ge: "good (e_key e)" using live_distinct(2) [OF inv assms(4)] by simp
  have s: "set (live_entries (tb_entries t')) \<subseteq> set (live_entries (tb_entries t))"
     "\<And>k' w. good k' \<Longrightarrow> has t' k' w \<longleftrightarrow> \<not> eqv k k' \<and> has t k' w"
    using delete_spec [OF assms(1,2)] assms(3) by auto
  have "has t (e_key e) (e_value e)" unfolding holds_live using assms(4) eqv_refl [OF ge] by blast
  then have "has t' (e_key e) (e_value e)" using s(2) [OF ge] assms(5) by blast
  then obtain x where x: "x \<in> set (live_entries (tb_entries t'))" "eqv (e_key x) (e_key e)"
    unfolding holds_live by blast
  then have xt: "x \<in> set (live_entries (tb_entries t))" using s(1) by blast
  then obtain i l where il: "i < length (tb_entries t)" "tb_entries t ! i = x" "occ (tb_entries t) i"
    "l < length (tb_entries t)" "tb_entries t ! l = e" "occ (tb_entries t) l"
    using assms(4) by (auto simp: live_entries_def occ_def in_set_conv_nth)
  have "i = l" using slots_inv_distinct [OF inv il(1,4,3,6)] x(2) il(2,5) by blast
  then show ?thesis using x(1) il by simp
qed

lemma remove_white_loop_spec:
  assumes "tok t" "\<And>i. i \<in> set is \<Longrightarrow> i < length (tb_entries t)"
  shows "\<exists>t'. remove_white_loop hsh eqv dark is t = Some t' \<and> tok t' \<and>
    set (live_entries (tb_entries t')) \<subseteq> set (live_entries (tb_entries t)) \<and>
    {e \<in> set (live_entries (tb_entries t)). keepable dark e} \<subseteq> set (live_entries (tb_entries t'))"
  using assms
proof (induction "is" arbitrary: t)
  case (Cons i "is")
  let ?k = "key_at (tb_entries t) i"
  show ?case
  proof (cases "\<not> IS_UNDEF ?k \<and> IS_OBJ ?k \<and> \<not> dark (AS_OBJ ?k)")
    case False
    then have "remove_white_loop hsh eqv dark (i # is) t = remove_white_loop hsh eqv dark is t"
      by (auto simp: Let_def)
    then show ?thesis using Cons by simp
  next
    case True
    have il: "i < length (tb_entries t)" "occ (tb_entries t) i"
      using Cons.prems(2) True by (auto simp: occ_def)
    have g: "good ?k" by (rule slots_inv_good [OF tok_sinv [OF Cons.prems(1)] il])
    obtain b t1 where t1: "tableDelete hsh eqv t ?k = Some (b, t1)" "tok t1"
      "length (tb_entries t1) = length (tb_entries t)"
      "set (live_entries (tb_entries t1)) \<subseteq> set (live_entries (tb_entries t))"
      using delete_spec [OF Cons.prems(1) g] by blast
    have keep: "e \<in> set (live_entries (tb_entries t1))"
      if e: "e \<in> set (live_entries (tb_entries t))" "keepable dark e" for e
    proof (rule delete_keeps_others [OF Cons.prems(1) g t1(1) e(1)])
      obtain l where l: "l < length (tb_entries t)" "tb_entries t ! l = e" "occ (tb_entries t) l"
        using e(1) by (auto simp: live_entries_def occ_def in_set_conv_nth)
      have "l \<noteq> i" using l(2) e(2) True by (auto simp: keepable_def)
      then show "\<not> eqv ?k (e_key e)"
        using slots_inv_distinct [OF tok_sinv [OF Cons.prems(1)] il(1) l(1) il(2) l(3)] l(2) by blast
    qed
    obtain t' where t': "remove_white_loop hsh eqv dark is t1 = Some t'" "tok t'"
      "set (live_entries (tb_entries t')) \<subseteq> set (live_entries (tb_entries t1))"
      "{e \<in> set (live_entries (tb_entries t1)). keepable dark e} \<subseteq> set (live_entries (tb_entries t'))"
      using Cons.IH [OF t1(2)] Cons.prems(2) t1(3) by auto
    have "remove_white_loop hsh eqv dark (i # is) t = Some t'"
      using True t1(1) t'(1) by (simp add: Let_def)
    then show ?thesis using t' t1(4) keep by (intro exI [of _ t']) blast
  qed
qed simp

lemma remove_white_spec:
  assumes "tok t"
  shows "\<exists>t'. tableRemoveWhite hsh eqv dark t = Some t' \<and> tok t' \<and>
    set (live_entries (tb_entries t')) \<subseteq> set (live_entries (tb_entries t)) \<and>
    {e \<in> set (live_entries (tb_entries t)). keepable dark e} \<subseteq> set (live_entries (tb_entries t'))"
  using remove_white_loop_spec [OF assms, of "[0..<length (tb_entries t)]"] assms
  by (auto simp: tableRemoveWhite_def)

end

end
