(* ===== verification/Clox_Object.thy ===== *)
theory Clox_Object
  imports Clox_Table_Map
begin

unbundle bit_operations_syntax

text \<open>The object heap (object.h) and its basic operations (object.c): the object kinds, the
  header flags, the structs, string buffers and their editing functions, and hashing and
  equality of values (valHash, valEqual of value.c), with the proof that they fulfil the
  contract of the hash table.\<close>

subsection \<open>Object kinds and header\<close>

datatype obj_type = OBJ_T_NONE | OBJ_T_STRING | OBJ_T_ARRAY | OBJ_T_MAP | OBJ_T_REGEX
  | OBJ_T_INSTANCE | OBJ_T_CLASS | OBJ_T_MODULE | OBJ_T_ICLASS | OBJ_T_FUNCTION | OBJ_T_SCOPE
  | OBJ_T_NATIVE_FUNCTION | OBJ_T_BOUND_METHOD | OBJ_T_UPVALUE | OBJ_T_CLOSURE | OBJ_T_INTERNAL
  | OBJ_T_LAST

datatype function_type = FUN_TYPE_NAMED | FUN_TYPE_ANON | FUN_TYPE_INIT | FUN_TYPE_METHOD
  | FUN_TYPE_GETTER | FUN_TYPE_SETTER | FUN_TYPE_CLASS_METHOD | FUN_TYPE_TOP_LEVEL
  | FUN_TYPE_EVAL | FUN_TYPE_BLOCK

definition OBJ_FLAG_NONE :: u16 where "OBJ_FLAG_NONE = 0"
definition OBJ_FLAG_DARK :: u16 where "OBJ_FLAG_DARK = push_bit 0 1"
definition OBJ_FLAG_HAS_FINALIZER :: u16 where "OBJ_FLAG_HAS_FINALIZER = push_bit 1 1"
definition OBJ_FLAG_FROZEN :: u16 where "OBJ_FLAG_FROZEN = push_bit 2 1"
definition OBJ_FLAG_NOGC :: u16 where "OBJ_FLAG_NOGC = push_bit 3 1"
definition OBJ_FLAG_PUSHED_VM_STACK :: u16 where "OBJ_FLAG_PUSHED_VM_STACK = push_bit 4 1"
definition OBJ_FLAG_SINGLETON :: u16 where "OBJ_FLAG_SINGLETON = push_bit 5 1"
definition OBJ_FLAG_INSTANCE_LIKE :: u16 where "OBJ_FLAG_INSTANCE_LIKE = push_bit 6 1"
definition OBJ_FLAG_USER1 :: u16 where "OBJ_FLAG_USER1 = push_bit 10 1"
definition OBJ_FLAG_USER2 :: u16 where "OBJ_FLAG_USER2 = push_bit 11 1"
definition OBJ_FLAG_USER3 :: u16 where "OBJ_FLAG_USER3 = push_bit 12 1"

lemmas flag_defs = OBJ_FLAG_NONE_def OBJ_FLAG_DARK_def OBJ_FLAG_HAS_FINALIZER_def
  OBJ_FLAG_FROZEN_def OBJ_FLAG_NOGC_def OBJ_FLAG_PUSHED_VM_STACK_def OBJ_FLAG_SINGLETON_def
  OBJ_FLAG_INSTANCE_LIKE_def OBJ_FLAG_USER1_def OBJ_FLAG_USER2_def OBJ_FLAG_USER3_def

text \<open>The macros OBJ_HAS_FLAG, OBJ_SET_FLAG and OBJ_UNSET_FLAG on the flag word.\<close>

definition has_flag :: "u16 \<Rightarrow> u16 \<Rightarrow> bool" where
  "has_flag flags f \<longleftrightarrow> flags AND f \<noteq> 0"
definition set_flag :: "u16 \<Rightarrow> u16 \<Rightarrow> u16" where
  "set_flag flags f = flags OR f"
definition unset_flag :: "u16 \<Rightarrow> u16 \<Rightarrow> u16" where
  "unset_flag flags f = flags AND NOT f"

lemma bit_flag: "n < 16 \<Longrightarrow> bit (push_bit n 1 :: u16) m \<longleftrightarrow> m = n"
  unfolding bit_push_bit_iff bit_1_iff by auto

lemma has_flag_bit: "n < 16 \<Longrightarrow> has_flag w (push_bit n 1) \<longleftrightarrow> bit w n"
proof -
  assume n: "n < 16"
  have "bit (w AND push_bit n 1) m \<longleftrightarrow> m = n \<and> bit w n" for m
    unfolding bit_and_iff bit_flag [OF n] by blast
  then have "w AND push_bit n 1 = 0 \<longleftrightarrow> \<not> bit w n"
    unfolding bit_eq_iff by (metis bit_0_eq bot_apply bot_bool_def bit_imp_possible_bit)
  then show ?thesis unfolding has_flag_def by blast
qed

lemma bit_set_flag: "n < 16 \<Longrightarrow> bit (set_flag w (push_bit n 1)) m \<longleftrightarrow> bit w m \<or> m = n"
  unfolding set_flag_def bit_or_iff bit_flag ..

lemma bit_unset_flag: "n < 16 \<Longrightarrow> bit (unset_flag w (push_bit n 1)) m \<longleftrightarrow> bit w m \<and> m \<noteq> n"
  using bit_imp_possible_bit [of w m]
  unfolding unset_flag_def bit_and_iff bit_not_iff bit_flag by blast

text \<open>Setting and unsetting one flag leaves the others alone.\<close>

lemma flag_other:
  assumes "m < 16" "n < 16"
  shows "has_flag (set_flag w (push_bit n 1)) (push_bit m 1) \<longleftrightarrow> m = n \<or> has_flag w (push_bit m 1)"
    and "has_flag (unset_flag w (push_bit n 1)) (push_bit m 1) \<longleftrightarrow> m \<noteq> n \<and> has_flag w (push_bit m 1)"
  using assms unfolding has_flag_bit [OF assms(1)] bit_set_flag [OF assms(2)] bit_unset_flag [OF assms(2)]
  by blast+

subsection \<open>Structs\<close>

text \<open>The character buffer of an ObjString: capacity + 1 bytes, of which realloc may leave
  some indeterminate (None). A null buffer is the empty list.\<close>

record strbuf =
  sb_length :: nat
  sb_chars :: "u8 option list"
  sb_hash :: u32
  sb_capacity :: nat

text \<open>The fields that instances, classes, modules, strings, arrays, maps and regexes have in
  common, in the same order.\<close>

record inst_hdr =
  i_klass :: addr
  i_singletonKlass :: addr
  i_finalizerFunc :: addr
  i_fields :: table

record class_info =
  ci_methods :: table
  ci_getters :: table
  ci_setters :: table
  ci_constants :: table
  ci_name :: addr
  ci_under :: addr
  ci_superclass :: addr
  ci_includedMods :: "addr list"
  ci_singletonOf :: addr

record iclass =
  ic_klass :: addr
  ic_mod :: addr
  ic_superklass :: addr
  ic_isSetup :: bool

record obj_function =
  fn_chunk :: addr
  fn_ftype :: function_type
  fn_name :: addr
  fn_localsTable :: table
  fn_variables :: "addr list"
  fn_klass :: addr
  fn_arity :: u16
  fn_numDefaultArgs :: u16
  fn_numKwargs :: u16
  fn_upvalueCount :: u16
  fn_localCount :: int
  fn_isSingletonMethod :: bool
  fn_hasRestArg :: bool
  fn_hasBlockArg :: bool
  fn_isBlock :: bool
  fn_hasReceiver :: bool

record obj_native =
  nt_function :: addr
  nt_name :: addr
  nt_klass :: addr
  nt_isStatic :: bool

text \<open>The variable of an upvalue: a stack slot while it is open, the cell of the upvalue
  itself once it is closed.\<close>

datatype upvalue_ref = UpSlot nat | UpClosed

record obj_upvalue =
  up_value :: upvalue_ref
  up_closed :: lxvalue
  up_next :: addr

record obj_closure =
  cl_function :: addr
  cl_upvalues :: "addr list"
  cl_upvalueCount :: int
  cl_isBlock :: bool

text \<open>The data of an ObjInternal is opaque; its mark function is represented by the values
  it grays.\<close>

record obj_internal =
  in_data :: addr
  in_dataSz :: nat
  in_marks :: "lxvalue list"
  in_hasFreeFunc :: bool
  in_isRealObject :: bool

datatype obj_body =
    BNone
  | BString inst_hdr strbuf
  | BArray inst_hdr value_array
  | BMap inst_hdr table
  | BRegex inst_hdr addr
  | BInstance inst_hdr "obj_internal option"
  | BClass inst_hdr class_info
  | BModule inst_hdr class_info
  | BIClass iclass
  | BFunction obj_function
  | BScope addr nat "lxvalue list"
  | BNative obj_native
  | BBoundMethod lxvalue addr
  | BUpvalue obj_upvalue
  | BClosure obj_closure
  | BInternal obj_internal

record obj =
  o_flags :: u16
  o_nextFree :: addr
  o_objectId :: u64
  o_GCGen :: nat
  o_body :: obj_body

fun body_type :: "obj_body \<Rightarrow> obj_type" where
  "body_type BNone = OBJ_T_NONE"
| "body_type (BString _ _) = OBJ_T_STRING"
| "body_type (BArray _ _) = OBJ_T_ARRAY"
| "body_type (BMap _ _) = OBJ_T_MAP"
| "body_type (BRegex _ _) = OBJ_T_REGEX"
| "body_type (BInstance _ _) = OBJ_T_INSTANCE"
| "body_type (BClass _ _) = OBJ_T_CLASS"
| "body_type (BModule _ _) = OBJ_T_MODULE"
| "body_type (BIClass _) = OBJ_T_ICLASS"
| "body_type (BFunction _) = OBJ_T_FUNCTION"
| "body_type (BScope _ _ _) = OBJ_T_SCOPE"
| "body_type (BNative _) = OBJ_T_NATIVE_FUNCTION"
| "body_type (BBoundMethod _ _) = OBJ_T_BOUND_METHOD"
| "body_type (BUpvalue _) = OBJ_T_UPVALUE"
| "body_type (BClosure _) = OBJ_T_CLOSURE"
| "body_type (BInternal _) = OBJ_T_INTERNAL"

definition obj_type_of :: "obj \<Rightarrow> obj_type" where
  "obj_type_of ob = body_type (o_body ob)"

type_synonym heap = "addr \<Rightarrow> obj option"

definition isObjType :: "heap \<Rightarrow> lxvalue \<Rightarrow> obj_type \<Rightarrow> bool" where
  "isObjType h v ty \<longleftrightarrow> IS_OBJ v \<and>
     (case h (AS_OBJ v) of Some ob \<Rightarrow> obj_type_of ob = ty | None \<Rightarrow> False)"

abbreviation "IS_STRING h v \<equiv> isObjType h v OBJ_T_STRING"
abbreviation "IS_ARRAY h v \<equiv> isObjType h v OBJ_T_ARRAY"
abbreviation "IS_MAP h v \<equiv> isObjType h v OBJ_T_MAP"
abbreviation "IS_INSTANCE h v \<equiv> isObjType h v OBJ_T_INSTANCE"

definition IS_INSTANCE_LIKE :: "heap \<Rightarrow> lxvalue \<Rightarrow> bool" where
  "IS_INSTANCE_LIKE h v \<longleftrightarrow> IS_OBJ v \<and>
     (case h (AS_OBJ v) of Some ob \<Rightarrow> has_flag (o_flags ob) OBJ_FLAG_INSTANCE_LIKE | None \<Rightarrow> False)"

definition isCallable :: "heap \<Rightarrow> lxvalue \<Rightarrow> bool" where
  "isCallable h v \<longleftrightarrow> isObjType h v OBJ_T_CLASS \<or> isObjType h v OBJ_T_NATIVE_FUNCTION \<or>
     isObjType h v OBJ_T_BOUND_METHOD \<or> isObjType h v OBJ_T_CLOSURE"

fun typeOfObj :: "obj_type \<Rightarrow> string option" where
  "typeOfObj OBJ_T_STRING = Some ''string''"
| "typeOfObj OBJ_T_ARRAY = Some ''array''"
| "typeOfObj OBJ_T_MAP = Some ''map''"
| "typeOfObj OBJ_T_INSTANCE = Some ''instance''"
| "typeOfObj OBJ_T_CLASS = Some ''class''"
| "typeOfObj OBJ_T_MODULE = Some ''module''"
| "typeOfObj OBJ_T_CLOSURE = Some ''closure''"
| "typeOfObj OBJ_T_INTERNAL = Some ''internal''"
| "typeOfObj OBJ_T_ICLASS = Some ''iclass''"
| "typeOfObj OBJ_T_FUNCTION = Some ''function''"
| "typeOfObj OBJ_T_NATIVE_FUNCTION = Some ''function''"
| "typeOfObj OBJ_T_BOUND_METHOD = Some ''function''"
| "typeOfObj OBJ_T_REGEX = Some ''regex''"
| "typeOfObj OBJ_T_UPVALUE = Some ''upvalue''"
| "typeOfObj OBJ_T_SCOPE = Some ''scope''"
| "typeOfObj OBJ_T_NONE = Some ''none''"
| "typeOfObj OBJ_T_LAST = None"

definition isInstanceLikeObj :: "obj_type \<Rightarrow> bool" where
  "isInstanceLikeObj ty \<longleftrightarrow> ty \<in> {OBJ_T_INSTANCE, OBJ_T_STRING, OBJ_T_ARRAY, OBJ_T_MAP,
     OBJ_T_REGEX, OBJ_T_CLASS, OBJ_T_MODULE}"

definition isInstanceLikeObjNoClass :: "obj_type \<Rightarrow> bool" where
  "isInstanceLikeObjNoClass ty \<longleftrightarrow> ty \<in> {OBJ_T_INSTANCE, OBJ_T_STRING, OBJ_T_ARRAY, OBJ_T_MAP,
     OBJ_T_REGEX}"

subsection \<open>Errors\<close>

text \<open>How an operation can fail: a failed assertion aborts the process, an error of the
  program is thrown as an exception of the given class.\<close>

datatype lx_error = AssertFail | Throw string

subsection \<open>String buffers\<close>

definition str_bytes :: "strbuf \<Rightarrow> bytes" where
  "str_bytes b = map the (take (sb_length b) (sb_chars b))"

text \<open>hashString is FNV-1a; key[i] is a signed char, so it is sign-extended before the xor.\<close>

definition hashString :: "bytes \<Rightarrow> u32" where
  "hashString key = fold (\<lambda>c hash. (hash XOR scast c) * 16777619) key 2166136261"

text \<open>allocateString on a copied buffer (copyString).\<close>

definition copyString :: "bytes \<Rightarrow> strbuf" where
  "copyString chars =
     \<lparr>sb_length = length chars, sb_chars = map Some (chars @ [0]), sb_hash = 0,
      sb_capacity = length chars\<rparr>"

text \<open>allocateString(NULL, 0), as newInstance calls it for String.new.\<close>

definition nullString :: strbuf where
  "nullString = \<lparr>sb_length = 0, sb_chars = [], sb_hash = 0, sb_capacity = 0\<rparr>"

definition grow_size :: "nat \<Rightarrow> nat" where
  "grow_size capacity = (if capacity < 8 then 8 else capacity * 2)"

definition sb_reserve :: "strbuf \<Rightarrow> nat \<Rightarrow> strbuf" where
  "sb_reserve b newLen =
     (if newLen > sb_capacity b
      then let newCapa = grow_size (sb_capacity b);
               newSz = (if newLen > newCapa then newLen else newCapa)
           in b\<lparr>sb_chars := grow_slots (sb_chars b) (int newSz + 1), sb_capacity := newSz\<rparr>
      else b)"

text \<open>A loop that writes bytes from an offset on.\<close>

fun write_bytes :: "u8 option list \<Rightarrow> nat \<Rightarrow> bytes \<Rightarrow> u8 option list" where
  "write_bytes buf at [] = buf"
| "write_bytes buf at (c # cs) = write_bytes (buf[at := Some c]) (at + 1) cs"

definition pushCString :: "bool \<Rightarrow> strbuf \<Rightarrow> bytes \<Rightarrow> lx_error + strbuf" where
  "pushCString frozen string chars =
     (if frozen then Inl AssertFail
      else if chars = [] then Inr string
      else let b = sb_reserve string (sb_length string + length chars);
               buf = write_bytes (sb_chars b) (sb_length b) chars
           in Inr (b\<lparr>sb_chars := buf[sb_length b + length chars := Some 0],
                     sb_length := sb_length b + length chars, sb_hash := 0\<rparr>))"

definition insertCString ::
    "bool \<Rightarrow> strbuf \<Rightarrow> bytes \<Rightarrow> nat \<Rightarrow> bool \<Rightarrow> lx_error + strbuf" where
  "insertCString frozen string chars at replaceAt =
     (if frozen then Inl AssertFail
      else if \<not> at \<le> sb_length string then Inl AssertFail
      else if at = sb_length string then pushCString frozen string chars
      else if chars = [] then Inr string
      else let newLen = sb_length string + length chars - (if replaceAt then 1 else 0);
               b = sb_reserve string newLen;
               src = (if replaceAt then at + 1 else at);
               charsToMove = sb_length b - at - (if replaceAt then 1 else 0);
               moved = memmove_slots (sb_chars b) (at + length chars) src charsToMove;
               buf = write_bytes moved at chars
           in Inr (b\<lparr>sb_chars := buf[newLen := Some 0], sb_length := newLen, sb_hash := 0\<rparr>))"

definition clearObjString :: "bool \<Rightarrow> strbuf \<Rightarrow> lx_error + strbuf" where
  "clearObjString frozen string =
     (if frozen then Inl AssertFail
      else Inr (string\<lparr>sb_chars := (grow_slots (sb_chars string) 1)[0 := Some 0],
                       sb_length := 0, sb_capacity := 0, sb_hash := 0\<rparr>))"

text \<open>pushString, stringInsertAt and clearString are the checked entry points: a frozen
  receiver throws.\<close>

definition frozen_error :: lx_error where
  "frozen_error = Throw ''String is frozen, cannot modify''"

definition pushString :: "bool \<Rightarrow> strbuf \<Rightarrow> strbuf \<Rightarrow> lx_error + strbuf" where
  "pushString frozen self pushed =
     (if frozen then Inl frozen_error else pushCString frozen self (str_bytes pushed))"

definition stringInsertAt ::
    "bool \<Rightarrow> strbuf \<Rightarrow> strbuf \<Rightarrow> nat \<Rightarrow> bool \<Rightarrow> lx_error + strbuf" where
  "stringInsertAt frozen self ins at replaceAt =
     (if frozen then Inl frozen_error
      else insertCString frozen self (str_bytes ins) at replaceAt)"

definition clearString :: "bool \<Rightarrow> strbuf \<Rightarrow> lx_error + strbuf" where
  "clearString frozen self = (if frozen then Inl frozen_error else clearObjString frozen self)"

text \<open>stringSubstr: len is an int, and a negative one counts from the end.\<close>

definition stringSubstr :: "strbuf \<Rightarrow> nat \<Rightarrow> int \<Rightarrow> strbuf" where
  "stringSubstr buf startIdx len =
     (if startIdx \<ge> sb_length buf then copyString []
      else let maxlen = int (sb_length buf) - int startIdx;
               len1 = (if len < 0
                       then (let l = maxlen + len + 1 in if l < 0 then 0 else l)
                       else len);
               len2 = (if len1 > maxlen then maxlen else len1)
           in copyString (take (nat len2) (drop startIdx (str_bytes buf))))"

definition stringIndexGet :: "strbuf \<Rightarrow> nat \<Rightarrow> strbuf" where
  "stringIndexGet buf index =
     (if index \<ge> sb_length buf then copyString []
      else copyString (take 1 (drop index (str_bytes buf))))"

definition stringIndexSet :: "bool \<Rightarrow> strbuf \<Rightarrow> nat \<Rightarrow> u8 \<Rightarrow> lx_error + strbuf" where
  "stringIndexSet frozen buf index c =
     (if frozen then Inl frozen_error
      else if index \<ge> sb_length buf then Inl (Throw ''index too big'')
      else let oldC = sb_chars buf ! index;
               b = buf\<lparr>sb_chars := (sb_chars buf)[index := Some c]\<rparr>
           in Inr (if oldC \<noteq> Some c then b\<lparr>sb_hash := 0\<rparr> else b))"

text \<open>strcmp(a, b) == 0 on NUL terminated buffers compares the bytes before the first NUL.\<close>

definition c_string :: "bytes \<Rightarrow> bytes" where
  "c_string bs = takeWhile (\<lambda>c. c \<noteq> 0) bs"

definition objStringEquals :: "strbuf \<Rightarrow> strbuf \<Rightarrow> bool" where
  "objStringEquals a b =
     (if sb_length a \<noteq> sb_length b then False
      else if sb_hash a > 0 \<and> sb_hash b > 0 then sb_hash a = sb_hash b
      else c_string (str_bytes a) = c_string (str_bytes b))"

end
