(* ===== verification/Clox_String.thy ===== *)
theory Clox_String
  imports Clox_Object
begin

text \<open>Correctness of the string buffers of object.c: the buffer invariant, and what the
  editing functions do to the bytes a string holds.\<close>

subsection \<open>Well-formed buffers\<close>

definition str_ok :: "strbuf \<Rightarrow> bool" where
  "str_ok b \<longleftrightarrow> sb_chars b = [] \<and> sb_length b = 0 \<and> sb_capacity b = 0 \<or>
     (length (sb_chars b) = sb_capacity b + 1 \<and> sb_length b \<le> sb_capacity b \<and>
      (\<forall>i < sb_length b. sb_chars b ! i \<noteq> None) \<and> sb_chars b ! sb_length b = Some 0)"

lemma length_write_bytes [simp]: "length (write_bytes buf at cs) = length buf"
  by (induction buf at cs rule: write_bytes.induct) simp_all

lemma write_bytes_eq:
  "at + length cs \<le> length buf \<Longrightarrow>
   write_bytes buf at cs = take at buf @ map Some cs @ drop (at + length cs) buf"
proof (induction buf at cs rule: write_bytes.induct)
  case (2 buf at c cs)
  have "take (at + 1) (buf[at := Some c]) = take at buf @ [Some c]"
    using 2(2) by (simp add: take_Suc_update)
  then show ?case using 2 by (simp add: drop_update_cancel)
qed simp

lemma str_ok_bytes:
  assumes "str_ok b"
  shows "take (sb_length b) (sb_chars b) = map Some (str_bytes b)"
proof (rule nth_equalityI)
  have l: "sb_length b \<le> length (sb_chars b)"
    using assms by (auto simp: str_ok_def nullString_def)
  then show "length (take (sb_length b) (sb_chars b)) = length (map Some (str_bytes b))"
    by (simp add: str_bytes_def)
  fix i assume "i < length (take (sb_length b) (sb_chars b))"
  then have i: "i < sb_length b" by simp
  then have "sb_chars b ! i \<noteq> None"
    using assms unfolding str_ok_def by auto
  then show "take (sb_length b) (sb_chars b) ! i = map Some (str_bytes b) ! i"
    using i l by (simp add: str_bytes_def)
qed

lemma length_str_bytes: "str_ok b \<Longrightarrow> length (str_bytes b) = sb_length b"
  by (auto simp: str_ok_def str_bytes_def nullString_def)

lemma str_okI:
  assumes "length (sb_chars b) = sb_capacity b + 1" "sb_length b \<le> sb_capacity b"
    "take (sb_length b) (sb_chars b) = map Some xs" "sb_chars b ! sb_length b = Some 0"
  shows "str_ok b" and "str_bytes b = xs"
proof -
  show "str_bytes b = xs" using assms(3) by (simp add: str_bytes_def o_def)
  have "length xs = sb_length b" using arg_cong [OF assms(3), of length] assms(1,2) by simp
  then have "sb_chars b ! i \<noteq> None" if "i < sb_length b" for i
    using arg_cong [OF assms(3), of "\<lambda>l. l ! i"] that by simp
  then show "str_ok b" using assms by (simp add: str_ok_def)
qed

lemma copyString_spec: "str_ok (copyString cs)" "str_bytes (copyString cs) = cs"
proof -
  have "take (length cs) (map Some (cs @ [0])) = map Some cs" by simp
  moreover have "map Some (cs @ [0]) ! length cs = Some 0" by (simp add: nth_append)
  ultimately show "str_ok (copyString cs)" "str_bytes (copyString cs) = cs"
    by (auto simp: copyString_def intro!: str_okI(1) str_okI(2))
qed

lemma nullString_spec: "str_ok nullString" "str_bytes nullString = []"
  by (simp_all add: str_ok_def nullString_def str_bytes_def)

subsection \<open>Growth\<close>

lemma sb_reserve_spec:
  assumes "str_ok b" "sb_length b < newLen"
  shows "sb_length (sb_reserve b newLen) = sb_length b"
    and "newLen \<le> sb_capacity (sb_reserve b newLen)"
    and "length (sb_chars (sb_reserve b newLen)) = sb_capacity (sb_reserve b newLen) + 1"
    and "take (sb_length b + 1) (sb_chars (sb_reserve b newLen)) = take (sb_length b + 1)
      (sb_chars b @ (if sb_chars b = [] then [None] else []))"
proof -
  let ?b = "sb_reserve b newLen"
  have l: "length (sb_chars b) \<le> sb_capacity b + 1" "sb_length b \<le> sb_capacity b"
    "sb_chars b \<noteq> [] \<Longrightarrow> length (sb_chars b) = sb_capacity b + 1"
    "sb_chars b = [] \<Longrightarrow> sb_length b = 0 \<and> sb_capacity b = 0"
    using assms(1) by (auto simp: str_ok_def nullString_def)
  define sz where "sz = (if newLen > grow_size (sb_capacity b) then newLen else grow_size (sb_capacity b))"
  show "sb_length ?b = sb_length b" by (simp add: sb_reserve_def Let_def)
  show "newLen \<le> sb_capacity ?b" by (simp add: sb_reserve_def Let_def)
  have sz: "sb_capacity b \<le> sz" "newLen \<le> sz" by (auto simp: sz_def grow_size_def)
  have ne: "sb_chars b \<noteq> []" if "\<not> newLen > sb_capacity b" using that l(4) assms(2) by auto
  have n: "nat (int sz + 1) = sz + 1" by simp
  show "length (sb_chars ?b) = sb_capacity ?b + 1"
  proof (cases "newLen > sb_capacity b")
    case True
    then have "?b = b\<lparr>sb_chars := grow_slots (sb_chars b) (int sz + 1), sb_capacity := sz\<rparr>"
      by (simp add: sb_reserve_def sz_def Let_def)
    moreover have "length (sb_chars b) \<le> nat (int sz + 1)" using l(1) sz(1) n by simp
    ultimately show ?thesis using n by simp
  next
    case False
    then show ?thesis using ne l(3) by (simp add: sb_reserve_def)
  qed
  show "take (sb_length b + 1) (sb_chars ?b) = take (sb_length b + 1)
      (sb_chars b @ (if sb_chars b = [] then [None] else []))"
  proof (cases "newLen > sb_capacity b")
    case True
    then have b: "sb_chars ?b = grow_slots (sb_chars b) (int sz + 1)"
      by (simp add: sb_reserve_def sz_def Let_def)
    show ?thesis
    proof (cases "sb_chars b = []")
      case True
      then show ?thesis using l(4) n by (simp add: b grow_slots_def)
    next
      case False
      moreover have "length (sb_chars b) \<le> nat (int sz + 1)" using l(1) sz(1) n by simp
      ultimately show ?thesis using l(2,3) by (simp add: b take_grow_slots)
    qed
  next
    case False
    then show ?thesis using ne by (simp add: sb_reserve_def)
  qed
qed

lemma sb_reserve_content:
  assumes "str_ok b" "sb_length b < newLen"
  shows "take (sb_length b) (sb_chars (sb_reserve b newLen)) = map Some (str_bytes b)"
proof -
  have "take (sb_length b) (take (sb_length b + 1) (sb_chars (sb_reserve b newLen)))
      = take (sb_length b) (sb_chars b @ (if sb_chars b = [] then [None] else []))"
    unfolding sb_reserve_spec(4) [OF assms] by (simp add: min_def)
  moreover have "sb_length b \<le> length (sb_chars b)"
    using assms(1) by (auto simp: str_ok_def nullString_def)
  ultimately show ?thesis using str_ok_bytes [OF assms(1)] by (simp add: min_def)
qed

subsection \<open>Editing\<close>

lemma pushCString_spec:
  assumes "str_ok b"
  shows "\<exists>b'. pushCString False b cs = Inr b' \<and> str_ok b' \<and> str_bytes b' = str_bytes b @ cs \<and>
    sb_hash b' = (if cs = [] then sb_hash b else 0)"
proof (cases "cs = []")
  case True
  then show ?thesis using assms by (simp add: pushCString_def)
next
  case False
  let ?n = "sb_length b" and ?m = "length cs"
  have lt: "?n < ?n + ?m" using False by simp
  note r = sb_reserve_spec [OF assms lt] and c = sb_reserve_content [OF assms lt]
  let ?r = "sb_reserve b (?n + ?m)"
  have w: "write_bytes (sb_chars ?r) ?n cs
      = map Some (str_bytes b) @ map Some cs @ drop (?n + ?m) (sb_chars ?r)"
    using write_bytes_eq [of ?n cs "sb_chars ?r"] r(2,3) c by simp
  let ?b = "?r\<lparr>sb_chars := (write_bytes (sb_chars ?r) ?n cs)[?n + ?m := Some 0],
                sb_length := ?n + ?m, sb_hash := 0\<rparr>"
  have p: "pushCString False b cs = Inr ?b" using False r(1) by (simp add: pushCString_def Let_def)
  have l: "length (str_bytes b) = ?n" by (rule length_str_bytes [OF assms])
  have t: "take (?n + ?m) ((write_bytes (sb_chars ?r) ?n cs)[?n + ?m := Some 0])
      = map Some (str_bytes b @ cs)"
    unfolding w using l by simp
  have z: "(write_bytes (sb_chars ?r) ?n cs)[?n + ?m := Some 0] ! (?n + ?m) = Some 0"
    using r(2,3) by simp
  have g: "length (sb_chars ?b) = sb_capacity ?b + 1" "sb_length ?b \<le> sb_capacity ?b"
    "take (sb_length ?b) (sb_chars ?b) = map Some (str_bytes b @ cs)"
    "sb_chars ?b ! sb_length ?b = Some 0"
    using r(2,3) t z by simp_all
  have "str_ok ?b" "str_bytes ?b = str_bytes b @ cs" by (rule str_okI [OF g])+
  then show ?thesis using p False by (intro exI [of _ ?b]) simp
qed

lemma insertCString_spec:
  assumes "str_ok b" "at \<le> length (str_bytes b)"
  shows "\<exists>b'. insertCString False b cs at replaceAt = Inr b' \<and> str_ok b' \<and>
    str_bytes b' = (if cs = [] then str_bytes b
      else take at (str_bytes b) @ cs @ drop (if replaceAt then at + 1 else at) (str_bytes b))"
proof (cases "at = sb_length b \<or> cs = []")
  case True
  then show ?thesis
    using pushCString_spec [OF assms(1), of cs] assms length_str_bytes [OF assms(1)]
    by (auto simp: insertCString_def)
next
  case False
  let ?n = "sb_length b" and ?m = "length cs"
  let ?d = "if replaceAt then 1 else 0 :: nat"
  have l: "length (str_bytes b) = ?n" by (rule length_str_bytes [OF assms(1)])
  have lt: "at < ?n" "0 < ?m" using False assms(2) l by auto
  obtain m where m: "length cs = Suc m" using lt(2) by (cases "length cs") auto
  define new where "new = ?n + ?m - ?d"
  define src where "src = (if replaceAt then at + 1 else at)"
  define k where "k = ?n - at - ?d"
  have a: "src + k = ?n" "new = at + ?m + k" "at \<le> ?n" "?n \<le> new" "new < ?n + ?m + 1"
    using lt(1) m by (auto simp: src_def k_def new_def)
  let ?r = "sb_reserve b new"
  have r: "sb_length ?r = ?n" "new \<le> sb_capacity ?r" "length (sb_chars ?r) = sb_capacity ?r + 1"
    "take ?n (sb_chars ?r) = map Some (str_bytes b)"
  proof -
    have "sb_length ?r = ?n \<and> new \<le> sb_capacity ?r \<and> length (sb_chars ?r) = sb_capacity ?r + 1
      \<and> take ?n (sb_chars ?r) = map Some (str_bytes b)"
    proof (cases "?n < new")
      case True
      then show ?thesis using sb_reserve_spec [OF assms(1) True] sb_reserve_content [OF assms(1) True] by simp
    next
      case False
      then have "?r = b" using a(4) assms(1) lt(1) by (auto simp: sb_reserve_def str_ok_def nullString_def)
      then show ?thesis using False a(4) assms(1) lt(1) str_ok_bytes [OF assms(1)]
        by (auto simp: str_ok_def nullString_def)
    qed
    then show "sb_length ?r = ?n" "new \<le> sb_capacity ?r" "length (sb_chars ?r) = sb_capacity ?r + 1"
      "take ?n (sb_chars ?r) = map Some (str_bytes b)" by blast+
  qed
  define mv where "mv = memmove_slots (sb_chars ?r) (at + ?m) src k"
  have lm: "length mv = sb_capacity ?r + 1"
    unfolding mv_def r(3) [symmetric] by (rule length_memmove_slots) (use a r in linarith)+
  have at_n: "take at mv = take at (map Some (str_bytes b))"
  proof -
    have "take at mv = take at (sb_chars ?r)" using r a by (simp add: mv_def memmove_slots_def)
    also have "\<dots> = take at (take ?n (sb_chars ?r))" using a(3) by (simp add: min_absorb1)
    finally show ?thesis by (simp only: r(4))
  qed
  have tail: "take k (drop (at + ?m) mv) = drop src (map Some (str_bytes b))"
  proof -
    have "take k (drop (at + ?m) mv) = take k (drop src (sb_chars ?r))"
      using r a by (simp add: mv_def memmove_slots_def)
    also have "\<dots> = drop src (take ?n (sb_chars ?r))" using a(1) by (simp add: take_drop add.commute)
    finally show ?thesis by (simp only: r(4))
  qed
  have w: "write_bytes mv at cs = take at mv @ map Some cs @ drop (at + ?m) mv"
    by (rule write_bytes_eq) (use lm r a in simp)
  let ?b = "?r\<lparr>sb_chars := (write_bytes mv at cs)[new := Some 0], sb_length := new, sb_hash := 0\<rparr>"
  have i: "insertCString False b cs at replaceAt = Inr ?b"
    using False assms(2) l r(1) lt
    by (simp add: insertCString_def Let_def new_def src_def k_def mv_def)
  have la: "length (take at mv) = at" using lm r(2) a by simp
  have "take new (write_bytes mv at cs) = take at mv @ map Some cs @ take k (drop (at + ?m) mv)"
    unfolding w a(2) using la by simp
  then have t: "take new ((write_bytes mv at cs)[new := Some 0]) =
      map Some (take at (str_bytes b) @ cs @ drop src (str_bytes b))"
    by (simp add: at_n tail take_map drop_map)
  have z: "(write_bytes mv at cs)[new := Some 0] ! new = Some 0" using lm r(2) by simp
  have g: "length (sb_chars ?b) = sb_capacity ?b + 1" "sb_length ?b \<le> sb_capacity ?b"
    "take (sb_length ?b) (sb_chars ?b) = map Some (take at (str_bytes b) @ cs @ drop src (str_bytes b))"
    "sb_chars ?b ! sb_length ?b = Some 0"
    using r(2) lm t z by simp_all
  have "str_ok ?b" "str_bytes ?b = take at (str_bytes b) @ cs @ drop src (str_bytes b)"
    by (rule str_okI [OF g])+
  then show ?thesis using i False by (intro exI [of _ ?b]) (simp add: src_def)
qed

end
