(* ===== verification/Clox_Equality.thy ===== *)
theory Clox_Equality
  imports Clox_String
begin

unbundle bit_operations_syntax

text \<open>Hashing and equality of values (valHash, valEqual, in value.c) over the object heap, and
  the proof that on the keys a table may hold they fulfil the contract of the hash table.
  Method calls back into the program (hashKey, opEquals) and the representation printed for a
  pointer are parameters, fields of the environment.\<close>

subsection \<open>Conversion of a double to uint32_t\<close>

text \<open>The bits of a double: exponent and mantissa.\<close>

definition double_exp :: "u64 \<Rightarrow> nat" where
  "double_exp w = unat (take_bit 11 (drop_bit 52 w))"
definition double_mant :: "u64 \<Rightarrow> nat" where
  "double_mant w = unat (take_bit 52 w)"

text \<open>The integral part of a finite double, without its sign.\<close>

definition double_magnitude :: "u64 \<Rightarrow> nat" where
  "double_magnitude w =
     (if double_exp w < 1023 then 0
      else (2 ^ 52 + double_mant w) * 2 ^ (double_exp w - 1023) div 2 ^ 52)"

text \<open>C leaves the conversion of a value outside the range of uint32_t undefined; ub is what
  the machine returns there.\<close>

definition double_to_u32 :: "(u64 \<Rightarrow> u32) \<Rightarrow> u64 \<Rightarrow> u32" where
  "double_to_u32 ub w =
     (if double_exp w = 2047 \<or> double_magnitude w \<ge> 2 ^ 32 \<or> (bit w 63 \<and> double_magnitude w \<noteq> 0)
      then ub w else of_nat (double_magnitude w))"

subsection \<open>valHash and valEqual\<close>

record lx_env =
  env_heap :: heap
  env_ptr_repr :: "addr \<Rightarrow> bytes"
  env_hashKey :: "addr \<Rightarrow> lxvalue"
  env_opEquals :: "addr \<Rightarrow> lxvalue \<Rightarrow> bool"
  env_d2u :: "u64 \<Rightarrow> u32"

definition get_string :: "heap \<Rightarrow> lxvalue \<Rightarrow> strbuf option" where
  "get_string h v =
     (if IS_OBJ v
      then (case h (AS_OBJ v) of
              Some ob \<Rightarrow> (case o_body ob of BString _ b \<Rightarrow> Some b | _ \<Rightarrow> None)
            | None \<Rightarrow> None)
      else None)"

definition cache_hash :: "heap \<Rightarrow> addr \<Rightarrow> u32 \<Rightarrow> heap" where
  "cache_hash h p x =
     (case h p of
        Some ob \<Rightarrow> (case o_body ob of
                     BString i b \<Rightarrow> h(p \<mapsto> ob\<lparr>o_body := BString i (b\<lparr>sb_hash := x\<rparr>)\<rparr>)
                   | _ \<Rightarrow> h)
      | None \<Rightarrow> h)"

text \<open>valHash returns the hash and the heap, in which the hash of a string is now cached.\<close>

definition valHash :: "lx_env \<Rightarrow> lxvalue \<Rightarrow> lx_error + (u32 \<times> heap)" where
  "valHash env v =
     (let h = env_heap env in
      if IS_OBJ v then
        (case get_string h v of
           Some b \<Rightarrow>
             if sb_hash b > 0 then Inr (sb_hash b, h)
             else (let x = hashString (str_bytes b) in Inr (x, cache_hash h (AS_OBJ v) x))
         | None \<Rightarrow>
             if IS_INSTANCE h v \<or> IS_ARRAY h v \<or> IS_MAP h v
             then (let k = env_hashKey env (AS_OBJ v)
                   in if \<not> IS_NUMBER k
                      then Inl (Throw ''return of hashKey() method must be a number!'')
                      else Inr (double_to_u32 (env_d2u env) (valueToNumber k), h))
             else Inr (hashString (env_ptr_repr env (AS_OBJ v)), h))
      else if IS_NUMBER v
      then Inr (double_to_u32 (env_d2u env) (valueToNumber v) + 3, h)
      else if IS_BOOL v then Inr (if AS_BOOL v then 1 else 0, h)
      else if IS_NIL v then Inr (2, h)
      else Inl AssertFail)"

definition valEqual :: "lx_env \<Rightarrow> lxvalue \<Rightarrow> lxvalue \<Rightarrow> bool" where
  "valEqual env a b =
     (let h = env_heap env in
      if a = TRUE_VAL then b = TRUE_VAL
      else if a = FALSE_VAL then b = FALSE_VAL
      else if a = NIL_VAL then b = NIL_VAL
      else if a = UNDEF_VAL then False
      else case (get_string h a, get_string h b) of
             (Some x, Some y) \<Rightarrow>
               if sb_hash x \<noteq> 0 \<and> sb_hash y \<noteq> 0 then sb_hash x = sb_hash y
               else sb_length x = sb_length y \<and> c_string (str_bytes x) = c_string (str_bytes y)
           | _ \<Rightarrow> if IS_INSTANCE_LIKE h a then env_opEquals env (AS_OBJ a) b else a = b)"

text \<open>The hash alone.\<close>

definition hash_of :: "lx_env \<Rightarrow> lxvalue \<Rightarrow> u32" where
  "hash_of env v = (case valHash env v of Inr (x, _) \<Rightarrow> x | Inl _ \<Rightarrow> 0)"

text \<open>Keys that a table may hold: defined values, and if they are objects, strings with their
  hash in place (findEntry computes it before it compares) or objects without methods. The
  opEquals method of a string says no to every value that is not a string.\<close>

definition key_ok :: "lx_env \<Rightarrow> lxvalue \<Rightarrow> bool" where
  "key_ok env v \<longleftrightarrow> \<not> IS_UNDEF v \<and>
     (IS_OBJ v \<longrightarrow>
        (case get_string (env_heap env) v of
           Some b \<Rightarrow> str_ok b \<and> sb_hash b = hashString (str_bytes b) \<and>
             (sb_hash b \<noteq> 0 \<or> 0 \<notin> set (str_bytes b)) \<and>
             (\<forall>w. get_string (env_heap env) w = None \<longrightarrow> \<not> env_opEquals env (AS_OBJ v) w)
         | None \<Rightarrow> \<not> IS_INSTANCE_LIKE (env_heap env) v))"

lemma get_string_IS_STRING: "IS_STRING h v \<longleftrightarrow> get_string h v \<noteq> None"
  by (auto simp: isObjType_def get_string_def obj_type_of_def split: option.splits obj_body.splits)

lemma get_string_obj: "get_string h v = Some b \<Longrightarrow> IS_OBJ v"
  by (simp add: get_string_def split: if_splits)

lemma get_string_not_singleton [simp]:
  "get_string h TRUE_VAL = None" "get_string h FALSE_VAL = None"
  "get_string h NIL_VAL = None" "get_string h UNDEF_VAL = None"
  by (simp_all add: get_string_def)

lemma c_string_full: "0 \<notin> set bs \<Longrightarrow> c_string bs = bs"
  by (auto simp: c_string_def takeWhile_eq_all_conv)

lemma c_string_short: "length (c_string bs) = length bs \<Longrightarrow> c_string bs = bs"
  unfolding c_string_def by (metis append_Nil2 append_eq_append_conv takeWhile_dropWhile_id)

text \<open>Equality of two good strings.\<close>

lemma valEqual_strings:
  assumes "key_ok env a" "key_ok env b"
    "get_string (env_heap env) a = Some x" "get_string (env_heap env) b = Some y"
  shows "valEqual env a b \<longleftrightarrow>
    (if sb_hash x \<noteq> 0 \<and> sb_hash y \<noteq> 0 then sb_hash x = sb_hash y else str_bytes x = str_bytes y)"
proof -
  have s: "a \<noteq> TRUE_VAL" "a \<noteq> FALSE_VAL" "a \<noteq> NIL_VAL" "a \<noteq> UNDEF_VAL"
    using assms(3) by auto
  have ok: "str_ok x" "str_ok y" "sb_hash x = hashString (str_bytes x)" "sb_hash y = hashString (str_bytes y)"
    "sb_hash x \<noteq> 0 \<or> 0 \<notin> set (str_bytes x)" "sb_hash y \<noteq> 0 \<or> 0 \<notin> set (str_bytes y)"
    using assms get_string_obj [OF assms(3)] get_string_obj [OF assms(4)] by (auto simp: key_ok_def)
  have "sb_length x = sb_length y \<and> c_string (str_bytes x) = c_string (str_bytes y) \<longleftrightarrow>
      str_bytes x = str_bytes y" if "\<not> (sb_hash x \<noteq> 0 \<and> sb_hash y \<noteq> 0)"
    using that ok c_string_full c_string_short length_str_bytes by metis
  then show ?thesis using s assms(3,4) by (simp add: valEqual_def)
qed

lemma valEqual_other:
  assumes "key_ok env a" "get_string (env_heap env) a = None \<or> get_string (env_heap env) b = None"
  shows "valEqual env a b \<longleftrightarrow> a = b \<and> get_string (env_heap env) a = None"
proof (cases "get_string (env_heap env) a")
  case None
  have "\<not> IS_INSTANCE_LIKE (env_heap env) a"
    using assms(1) None by (cases "IS_OBJ a") (auto simp: key_ok_def IS_INSTANCE_LIKE_def)
  moreover have "a \<noteq> UNDEF_VAL" using assms(1) by (simp add: key_ok_def IS_UNDEF_def)
  ultimately show ?thesis using None by (auto simp: valEqual_def)
next
  case (Some x)
  then have b: "get_string (env_heap env) b = None" using assms(2) by simp
  have "\<not> env_opEquals env (AS_OBJ a) b"
    using assms(1) Some b get_string_obj [OF Some] by (simp add: key_ok_def)
  moreover have "a \<noteq> b" "a \<noteq> TRUE_VAL" "a \<noteq> FALSE_VAL" "a \<noteq> NIL_VAL" "a \<noteq> UNDEF_VAL"
    using Some b by auto
  ultimately show ?thesis using Some b by (simp add: valEqual_def)
qed

lemma hash_of_string:
  assumes "key_ok env a" "get_string (env_heap env) a = Some x"
  shows "hash_of env a = sb_hash x"
  using assms get_string_obj [OF assms(2)]
  by (auto simp: hash_of_def valHash_def key_ok_def Let_def word_gt_0)

interpretation vk: table_keys "hash_of env" "valEqual env" "key_ok env" for env
proof
  fix a b c
  show "\<not> IS_UNDEF a" if "key_ok env a" using that by (simp add: key_ok_def)
  show "valEqual env a a" if "key_ok env a"
    using that valEqual_strings [OF that that] valEqual_other [OF that, of a]
    by (cases "get_string (env_heap env) a") auto
  show "valEqual env b a" if "key_ok env a" "key_ok env b" "valEqual env a b"
    using that valEqual_strings [OF that(1,2)] valEqual_strings [OF that(2,1)]
      valEqual_other [OF that(1)] valEqual_other [OF that(2)]
    by (cases "get_string (env_heap env) a"; cases "get_string (env_heap env) b")
      (auto split: if_splits)
  show "valEqual env a c"
    if k: "key_ok env a" "key_ok env b" "key_ok env c" and e: "valEqual env a b" "valEqual env b c"
  proof (cases "get_string (env_heap env) b")
    case None
    then show ?thesis
      using e valEqual_other [OF k(1), of b] valEqual_other [OF k(2), of c] by auto
  next
    case (Some y)
    then obtain x z where xz: "get_string (env_heap env) a = Some x" "get_string (env_heap env) c = Some z"
      using e valEqual_other [OF k(1), of b] valEqual_other [OF k(2), of c] by fastforce
    have "sb_hash x = hashString (str_bytes x)" "sb_hash y = hashString (str_bytes y)"
      "sb_hash z = hashString (str_bytes z)"
      using k xz Some get_string_obj by (fastforce simp: key_ok_def)+
    then show ?thesis
      using e valEqual_strings [OF k(1,2) xz(1) Some] valEqual_strings [OF k(2,3) Some xz(2)]
        valEqual_strings [OF k(1,3) xz]
      by (auto split: if_splits)
  qed
  show "hash_of env a = hash_of env b" if k: "key_ok env a" "key_ok env b" and e: "valEqual env a b"
  proof (cases "get_string (env_heap env) a = None \<or> get_string (env_heap env) b = None")
    case True
    then show ?thesis using e valEqual_other [OF k(1)] by simp
  next
    case False
    then obtain x y where xy: "get_string (env_heap env) a = Some x" "get_string (env_heap env) b = Some y"
      by auto
    have "sb_hash x = hashString (str_bytes x)" "sb_hash y = hashString (str_bytes y)"
      using k xy get_string_obj by (fastforce simp: key_ok_def)+
    then show ?thesis
      using e valEqual_strings [OF k xy] hash_of_string [OF k(1) xy(1)] hash_of_string [OF k(2) xy(2)]
      by (auto split: if_splits)
  qed
qed

subsection \<open>The hash table on values\<close>

abbreviation "value_table env \<equiv> table_ok (hash_of env) (valEqual env) (key_ok env)"

text \<open>An environment without objects, for concrete instances.\<close>

definition plain_env :: lx_env where
  "plain_env = \<lparr>env_heap = (\<lambda>_. None), env_ptr_repr = (\<lambda>_. []), env_hashKey = (\<lambda>_. 0),
     env_opEquals = (\<lambda>_ _. False), env_d2u = (\<lambda>_. 0)\<rparr>"

lemma key_ok_plain:
  "key_ok env NIL_VAL" "key_ok env TRUE_VAL" "key_ok env FALSE_VAL" "IS_NUMBER v \<Longrightarrow> key_ok env v"
  using OBJ_not_NUMBER [of v] by (auto simp: key_ok_def IS_UNDEF_def)

lemma value_table_init: "value_table env initTable"
  by (rule vk.tok_init)

lemma table_room_init: "table_room initTable"
  by (simp add: table_room_def initTable_def)









subsection \<open>Equality by hash\<close>

text \<open>Two different words with the same FNV-1a hash.\<close>

definition word_costarring :: bytes where
  "word_costarring = [99, 111, 115, 116, 97, 114, 114, 105, 110, 103]"
definition word_liquid :: bytes where
  "word_liquid = [108, 105, 113, 117, 105, 100]"

lemma hash_collision: "hashString word_costarring = hashString word_liquid"
  "hashString word_costarring \<noteq> 0"
  by code_simp+

text \<open>The two strings as objects of a heap.\<close>

definition string_obj :: "bytes \<Rightarrow> obj" where
  "string_obj cs = \<lparr>o_flags = OBJ_FLAG_INSTANCE_LIKE, o_nextFree = NULL, o_objectId = 0, o_GCGen = 0,
     o_body = BString \<lparr>i_klass = NULL, i_singletonKlass = NULL, i_finalizerFunc = NULL,
       i_fields = initTable\<rparr> ((copyString cs)\<lparr>sb_hash := hashString cs\<rparr>)\<rparr>"

text \<open>Once the hashes of two strings are cached, valEqual compares the hashes alone, so two
  strings with different characters (and even lengths) count as equal: the strings costarring
  and liquid. A table then takes one key for the other.\<close>

theorem valEqual_confuses_collisions:
  fixes env :: lx_env
  assumes "get_string (env_heap env) a =
      Some ((copyString word_costarring)\<lparr>sb_hash := hashString word_costarring\<rparr>)"
    and "get_string (env_heap env) b =
      Some ((copyString word_liquid)\<lparr>sb_hash := hashString word_liquid\<rparr>)"
  shows "valEqual env a b \<and> word_costarring \<noteq> word_liquid"
proof -
  have "word_costarring \<noteq> word_liquid" by (simp add: word_costarring_def word_liquid_def)
  moreover
  have "a \<noteq> TRUE_VAL" "a \<noteq> FALSE_VAL" "a \<noteq> NIL_VAL" "a \<noteq> UNDEF_VAL" using assms(1) by auto
  then have "valEqual env a b" using assms hash_collision by (simp add: valEqual_def)
  ultimately show ?thesis by blast
qed

theorem valEqual_confuses_collisions_witness:
  "valEqual (plain_env\<lparr>env_heap := [16 \<mapsto> string_obj word_costarring, 32 \<mapsto> string_obj word_liquid]\<rparr>)
     (objectToValue 16) (objectToValue 32)"
proof -
  have "AS_OBJ (objectToValue 16) = 16" "AS_OBJ (objectToValue 32) = 32"
    by (simp_all add: AS_OBJ_objectToValue addr_ok_def)
  then show ?thesis
    by (intro valEqual_confuses_collisions [THEN conjunct1]) (simp_all add: get_string_def string_obj_def)
qed

end
