(* ===== verification/Clox_GC.thy ===== *)
theory Clox_GC
  imports Clox_Equality
begin

unbundle bit_operations_syntax

text \<open>The garbage collector (memory.c): generations, the gray stack, blackening, the root set,
  full and young collections, freeing, the free list and allocation. The state is one record;
  a heap page is the list of its slot addresses, a free slot holds an object of type NONE. A
  result None is a failed assertion. Tracing, profiling, byte counters and the code that runs
  finalizers of the program are left out or passed in.\<close>

subsection \<open>State\<close>

record gc_state =
  gc_heap :: heap
  gc_grayStack :: "addr list"
  gc_grayCapacity :: int
  gc_inYoungGC :: bool
  gc_inGC :: bool
  gc_GCOn :: bool
  gc_generations :: "nat list"
  gc_freeList :: addr
  gc_heapList :: "addr list list"
  gc_youngStack :: "addr list"
  gc_rememberSet :: "addr list"
  gc_hiddenObjs :: "addr list"
  gc_activeFinalizers :: int

definition GC_GEN_MIN :: nat where "GC_GEN_MIN = 0"
definition GC_GEN_YOUNG_MAX :: nat where "GC_GEN_YOUNG_MAX = 1"
definition GC_GEN_OLD_MIN :: nat where "GC_GEN_OLD_MIN = 2"
definition GC_GEN_OLD :: nat where "GC_GEN_OLD = 3"
definition GC_GEN_MAX :: nat where "GC_GEN_MAX = 4"
definition YOUNG_MARK_STACK_MAX :: nat where "YOUNG_MARK_STACK_MAX = 5000"
definition FREE_MIN :: nat where "FREE_MIN = 500"

definition is_dark :: "obj \<Rightarrow> bool" where
  "is_dark ob \<longleftrightarrow> has_flag (o_flags ob) OBJ_FLAG_DARK"
definition is_hidden :: "obj \<Rightarrow> bool" where
  "is_hidden ob \<longleftrightarrow> has_flag (o_flags ob) OBJ_FLAG_NOGC"
definition set_dark :: "obj \<Rightarrow> obj" where
  "set_dark ob = ob\<lparr>o_flags := set_flag (o_flags ob) OBJ_FLAG_DARK\<rparr>"
definition unset_dark :: "obj \<Rightarrow> obj" where
  "unset_dark ob = ob\<lparr>o_flags := unset_flag (o_flags ob) OBJ_FLAG_DARK\<rparr>"
definition is_old_obj :: "obj \<Rightarrow> bool" where
  "is_old_obj ob \<longleftrightarrow> o_GCGen ob > GC_GEN_MIN"
definition is_young_obj :: "obj \<Rightarrow> bool" where
  "is_young_obj ob \<longleftrightarrow> o_GCGen ob = GC_GEN_MIN"

definition put_obj :: "addr \<Rightarrow> obj \<Rightarrow> gc_state \<Rightarrow> gc_state" where
  "put_obj p ob s = s\<lparr>gc_heap := (gc_heap s)(p \<mapsto> ob)\<rparr>"

definition on_obj :: "addr \<Rightarrow> (obj \<Rightarrow> obj) \<Rightarrow> gc_state \<Rightarrow> gc_state" where
  "on_obj p f s = (case gc_heap s p of Some ob \<Rightarrow> put_obj p (f ob) s | None \<Rightarrow> s)"

subsection \<open>Generations\<close>

text \<open>The counters of GCStats.generations: one object leaves generation a for b. A counter at
  zero is not decremented.\<close>

definition move_gen :: "nat \<Rightarrow> nat \<Rightarrow> nat list \<Rightarrow> nat list" where
  "move_gen a b gs =
     (let gs1 = (if gs ! a \<noteq> 0 then gs[a := gs ! a - 1] else gs) in gs1[b := gs1 ! b + 1])"

definition GCPromote :: "addr \<Rightarrow> nat \<Rightarrow> gc_state \<Rightarrow> gc_state" where
  "GCPromote p gen s =
     (case gc_heap s p of
        None \<Rightarrow> s
      | Some ob \<Rightarrow>
          (let g = (if gen > GC_GEN_MAX then GC_GEN_MAX else gen)
           in put_obj p (ob\<lparr>o_GCGen := g\<rparr>)
                (s\<lparr>gc_generations := move_gen (o_GCGen ob) g (gc_generations s)\<rparr>)))"

definition GCPromoteOnce :: "addr \<Rightarrow> gc_state \<Rightarrow> gc_state" where
  "GCPromoteOnce p s =
     (case gc_heap s p of
        None \<Rightarrow> s
      | Some ob \<Rightarrow>
          if o_GCGen ob = GC_GEN_MAX then s
          else put_obj p (ob\<lparr>o_GCGen := o_GCGen ob + 1\<rparr>)
                 (s\<lparr>gc_generations := move_gen (o_GCGen ob) (o_GCGen ob + 1) (gc_generations s)\<rparr>))"

definition INC_GEN :: "addr \<Rightarrow> gc_state \<Rightarrow> gc_state" where
  "INC_GEN p s =
     (case gc_heap s p of
        None \<Rightarrow> s
      | Some ob \<Rightarrow>
          if o_GCGen ob < GC_GEN_MAX
          then put_obj p (ob\<lparr>o_GCGen := o_GCGen ob + 1\<rparr>)
                 (s\<lparr>gc_generations := move_gen (o_GCGen ob) (o_GCGen ob + 1) (gc_generations s)\<rparr>)
          else s)"

definition pushRememberSet :: "addr \<Rightarrow> gc_state \<Rightarrow> gc_state" where
  "pushRememberSet p s = s\<lparr>gc_rememberSet := gc_rememberSet s @ [p]\<rparr>"

text \<open>objWrite: the write barrier. The owner is not looked at.\<close>

definition objWrite :: "lxvalue \<Rightarrow> lxvalue \<Rightarrow> gc_state \<Rightarrow> gc_state" where
  "objWrite own pointed s =
     (if IS_OBJ pointed \<and>
         (case gc_heap s (AS_OBJ pointed) of Some ob \<Rightarrow> is_young_obj ob | None \<Rightarrow> False)
      then pushRememberSet (AS_OBJ pointed) s else s)"

definition hideFromGC :: "addr \<Rightarrow> gc_state \<Rightarrow> gc_state" where
  "hideFromGC p s =
     (case gc_heap s p of
        None \<Rightarrow> s
      | Some ob \<Rightarrow>
          if is_hidden ob then s
          else put_obj p (ob\<lparr>o_flags := set_flag (o_flags ob) OBJ_FLAG_NOGC\<rparr>)
                 (s\<lparr>gc_hiddenObjs := gc_hiddenObjs s @ [p]\<rparr>))"

text \<open>turnGCOff, turnGCOn and setGCOnOff; the first two return the old setting.\<close>

definition turnGCOff :: "gc_state \<Rightarrow> bool \<times> gc_state" where
  "turnGCOff s = (gc_GCOn s, s\<lparr>gc_GCOn := False\<rparr>)"
definition turnGCOn :: "gc_state \<Rightarrow> bool \<times> gc_state" where
  "turnGCOn s = (gc_GCOn s, s\<lparr>gc_GCOn := True\<rparr>)"
definition setGCOnOff :: "bool \<Rightarrow> gc_state \<Rightarrow> gc_state" where
  "setGCOnOff turnOn s = s\<lparr>gc_GCOn := turnOn\<rparr>"

text \<open>vec_remove removes the first occurrence.\<close>

definition unhideFromGC :: "addr \<Rightarrow> gc_state \<Rightarrow> gc_state" where
  "unhideFromGC p s =
     (case gc_heap s p of
        None \<Rightarrow> s
      | Some ob \<Rightarrow>
          if is_hidden ob
          then put_obj p (ob\<lparr>o_flags := unset_flag (o_flags ob) OBJ_FLAG_NOGC\<rparr>)
                 (s\<lparr>gc_hiddenObjs := remove1 p (gc_hiddenObjs s)\<rparr>)
          else s)"

subsection \<open>Graying and blackening\<close>

definition grayObject :: "addr \<Rightarrow> gc_state \<Rightarrow> gc_state" where
  "grayObject p s =
     (if p = NULL then s
      else case gc_heap s p of
        None \<Rightarrow> s
      | Some ob \<Rightarrow>
          if is_dark ob then s
          else if gc_inYoungGC s \<and> is_old_obj ob then s
          else
            (let s1 = put_obj p (set_dark ob) s;
                 s2 = (if \<not> gc_inYoungGC s1 then INC_GEN p s1 else s1);
                 s3 = (if gc_grayCapacity s2 < int (length (gc_grayStack s2)) + 1
                       then s2\<lparr>gc_grayCapacity := GROW_CAPACITY (gc_grayCapacity s2)\<rparr> else s2)
             in s3\<lparr>gc_grayStack := gc_grayStack s3 @ [p]\<rparr>))"

definition grayValue :: "lxvalue \<Rightarrow> gc_state \<Rightarrow> gc_state" where
  "grayValue v s = (if IS_OBJ v then grayObject (AS_OBJ v) s else s)"

text \<open>The addresses among some values, and those a table grays.\<close>

definition value_refs :: "lxvalue list \<Rightarrow> addr list" where
  "value_refs vs = map AS_OBJ (filter IS_OBJ vs)"

definition table_refs :: "table \<Rightarrow> addr list" where
  "table_refs t =
     (if tb_count t = 0 then []
      else value_refs (concat (map (\<lambda>e. if IS_UNDEF (e_key e) then [] else [e_key e, e_value e])
             (tb_entries t))))"

text \<open>What blackenObject grays, in its order; graying a null pointer does nothing, so the null
  tests of the code are no branches here. A shared array does not gray its elements. The
  singleton class of a map or regex is not grayed: its class is grayed a second time.\<close>

definition instance_refs :: "inst_hdr \<Rightarrow> addr list" where
  "instance_refs i =
     [i_klass i, i_singletonKlass i, i_finalizerFunc i] @ table_refs (i_fields i)"

definition class_info_refs :: "class_info \<Rightarrow> addr list" where
  "class_info_refs ci = table_refs (ci_methods ci) @ table_refs (ci_getters ci) @
     table_refs (ci_setters ci) @ table_refs (ci_constants ci)"

fun body_refs :: "bool \<Rightarrow> obj_body \<Rightarrow> addr list" where
  "body_refs shared BNone = []"
| "body_refs shared (BBoundMethod receiver callable) = value_refs [receiver] @ [callable]"
| "body_refs shared (BClass i ci) =
     [i_klass i, i_singletonKlass i, i_finalizerFunc i, ci_name ci, ci_superclass ci] @
     table_refs (i_fields i) @ class_info_refs ci"
| "body_refs shared (BModule i ci) =
     [i_klass i, i_singletonKlass i, i_finalizerFunc i, ci_name ci] @
     table_refs (i_fields i) @ class_info_refs ci"
| "body_refs shared (BIClass ic) = [ic_mod ic, ic_klass ic, ic_superklass ic]"
| "body_refs shared (BFunction f) = [fn_name f] @ table_refs (fn_localsTable f) @ fn_variables f"
| "body_refs shared (BClosure c) =
     cl_function c # take (nat (cl_upvalueCount c)) (cl_upvalues c)"
| "body_refs shared (BScope f n tbl) = f # value_refs (take n tbl)"
| "body_refs shared (BNative n) = [nt_name n, nt_klass n]"
| "body_refs shared (BInstance i inl) =
     instance_refs i @ (case inl of Some d \<Rightarrow> value_refs (in_marks d) | None \<Rightarrow> [])"
| "body_refs shared (BArray i a) =
     instance_refs i @ (if shared then [] else value_refs (va_list a))"
| "body_refs shared (BMap i t) =
     [i_klass i] @ (if i_singletonKlass i \<noteq> NULL then [i_klass i] else []) @ [i_finalizerFunc i] @
     table_refs (i_fields i) @ table_refs t"
| "body_refs shared (BRegex i re) =
     [i_klass i] @ (if i_singletonKlass i \<noteq> NULL then [i_klass i] else []) @ [i_finalizerFunc i] @
     table_refs (i_fields i)"
| "body_refs shared (BInternal d) = value_refs (in_marks d)"
| "body_refs shared (BUpvalue u) = value_refs [up_closed u]"
| "body_refs shared (BString i b) = instance_refs i"

definition obj_refs :: "obj \<Rightarrow> addr list" where
  "obj_refs ob = body_refs (has_flag (o_flags ob) OBJ_FLAG_USER1) (o_body ob)"

definition gray_all :: "addr list \<Rightarrow> gc_state \<Rightarrow> gc_state" where
  "gray_all ps s = fold grayObject ps s"

definition blackenObject :: "addr \<Rightarrow> gc_state \<Rightarrow> gc_state" where
  "blackenObject p s =
     (case gc_heap s p of Some ob \<Rightarrow> gray_all (obj_refs ob) s | None \<Rightarrow> s)"

text \<open>The loop of the full collection that empties the gray stack. Every pop is paid for by an
  object that was white or on the stack, so the number of slots and of stacked objects is
  enough fuel.\<close>

fun mark_loop :: "nat \<Rightarrow> gc_state \<Rightarrow> gc_state option" where
  "mark_loop n s =
     (if gc_grayStack s = [] then Some s
      else case n of
        0 \<Rightarrow> None
      | Suc m \<Rightarrow> mark_loop m (blackenObject (last (gc_grayStack s))
                   (s\<lparr>gc_grayStack := butlast (gc_grayStack s)\<rparr>)))"

definition all_slots :: "gc_state \<Rightarrow> addr list" where
  "all_slots s = concat (gc_heapList s)"

definition mark_all :: "gc_state \<Rightarrow> gc_state option" where
  "mark_all s = mark_loop (length (all_slots s) + length (gc_grayStack s)) s"

text \<open>The loop of the young collection. It counts in a local variable; the gray stack itself is
  not popped, and what blackening pushes is appended behind the objects not yet visited.\<close>

fun young_mark_loop :: "nat \<Rightarrow> nat \<Rightarrow> gc_state \<Rightarrow> gc_state option" where
  "young_mark_loop n grayCount s =
     (if grayCount = 0 then Some s
      else case n of
        0 \<Rightarrow> None
      | Suc m \<Rightarrow>
          (let marked = gc_grayStack s ! (grayCount - 1);
               s1 = (case gc_heap s marked of
                       Some ob \<Rightarrow> if is_young_obj ob then blackenObject marked s else s
                     | None \<Rightarrow> s)
           in young_mark_loop m
                (grayCount - 1 + (length (gc_grayStack s1) - length (gc_grayStack s))) s1))"

subsection \<open>Roots\<close>

datatype thread_status = THREAD_STOPPED | THREAD_SLEEPING | THREAD_READY | THREAD_RUNNING
  | THREAD_KILLED | THREAD_ZOMBIE

record call_frame_roots =
  fr_closure :: addr
  fr_instance :: addr
  fr_klass :: addr
  fr_scope :: addr
  fr_nativeFunc :: addr
  fr_blockInstance :: addr
  fr_blockFunction :: addr

record exec_context =
  ec_stack :: "lxvalue list"
  ec_roGlobals :: table
  ec_filename :: addr
  ec_lastValue :: "lxvalue option"
  ec_frames :: "call_frame_roots list"

record block_entry =
  be_callable :: addr
  be_cachedBlockClosure :: addr
  be_blockInstance :: addr

record lx_thread =
  th_obj :: addr
  th_status :: thread_status
  th_joined :: bool
  th_detached :: bool
  th_thisObj :: addr
  th_lastValue :: "lxvalue option"
  th_tlsMap :: addr
  th_lastErrorThrown :: lxvalue
  th_ecs :: "exec_context list"
  th_blockStack :: "block_entry list"
  th_stackObjects :: "addr list"
  th_openUpvalues :: "lxvalue list"

record vm_state =
  vm_threads :: "lx_thread list"
  vm_loadedScripts :: "lxvalue list"
  vm_globals :: table
  vm_constants :: table
  vm_strings :: table
  vm_regexLiterals :: table
  vm_autoloadTbl :: table
  vm_compilerRoots :: "addr list"
  vm_initString :: addr
  vm_fileString :: addr
  vm_dirString :: addr
  vm_sigHandlers :: "addr list"
  vm_printBuf :: addr
  vm_exitHandlers :: "addr list"

definition opt_refs :: "lxvalue option \<Rightarrow> addr list" where
  "opt_refs v = (case v of Some x \<Rightarrow> value_refs [x] | None \<Rightarrow> [])"

definition block_refs :: "block_entry \<Rightarrow> addr list" where
  "block_refs b = [be_callable b, be_cachedBlockClosure b, be_blockInstance b]"

definition context_refs :: "exec_context \<Rightarrow> addr list" where
  "context_refs ctx = table_refs (ec_roGlobals ctx) @ value_refs (ec_stack ctx)"

definition frame_refs :: "call_frame_roots \<Rightarrow> addr list" where
  "frame_refs f = [fr_closure f, fr_instance f, fr_klass f, fr_scope f, fr_nativeFunc f,
     fr_blockInstance f, fr_blockFunction f]"

definition young_frame_refs :: "call_frame_roots \<Rightarrow> addr list" where
  "young_frame_refs f = [fr_closure f, fr_instance f, fr_scope f]"

definition is_zombie :: "lx_thread \<Rightarrow> bool" where
  "is_zombie th \<longleftrightarrow> th_status th = THREAD_ZOMBIE"

definition dead_zombie :: "lx_thread \<Rightarrow> bool" where
  "dead_zombie th \<longleftrightarrow> is_zombie th \<and> (th_joined th \<or> th_detached th)"

text \<open>The first loop over the threads in collectGarbage, for one thread.\<close>

definition thread_refs :: "lx_thread \<Rightarrow> addr list" where
  "thread_refs th =
     (if dead_zombie th then []
      else [th_obj th, th_thisObj th] @ opt_refs (th_lastValue th) @ [th_tlsMap th] @
        value_refs [th_lastErrorThrown th] @ concat (map context_refs (th_ecs th)) @
        concat (map block_refs (th_blockStack th)))"

text \<open>The zombies are spliced out of vm.threads one after the other, at the indexes noted before
  the first splice. A splice past the end of the vector is undefined: None.\<close>

definition splice1 :: "nat \<Rightarrow> 'a list \<Rightarrow> 'a list option" where
  "splice1 i xs = (if i < length xs then Some (take i xs @ drop (Suc i) xs) else None)"

fun splice_all :: "nat list \<Rightarrow> 'a list \<Rightarrow> 'a list option" where
  "splice_all [] xs = Some xs"
| "splice_all (i # is) xs = (case splice1 i xs of None \<Rightarrow> None | Some ys \<Rightarrow> splice_all is ys)"

definition zombie_indexes :: "lx_thread list \<Rightarrow> nat list" where
  "zombie_indexes ts = filter (\<lambda>i. dead_zombie (ts ! i)) [0..<length ts]"

definition reap_zombies :: "lx_thread list \<Rightarrow> lx_thread list option" where
  "reap_zombies ts = splice_all (zombie_indexes ts) ts"

text \<open>The second loop, over the contexts and frames of the threads that are left.\<close>

definition thread_frame_refs :: "lx_thread \<Rightarrow> addr list" where
  "thread_frame_refs th =
     concat (map (\<lambda>ctx. ec_filename ctx # opt_refs (ec_lastValue ctx) @
       concat (map frame_refs (ec_frames ctx))) (th_ecs th)) @
     value_refs (th_openUpvalues th)"

definition full_roots :: "vm_state \<Rightarrow> lx_thread list \<Rightarrow> addr list \<Rightarrow> addr list" where
  "full_roots v left_threads hidden =
     concat (map thread_refs (vm_threads v)) @
     concat (map th_stackObjects left_threads) @
     value_refs (vm_loadedScripts v) @
     concat (map thread_frame_refs left_threads) @
     table_refs (vm_globals v) @ table_refs (vm_constants v) @ table_refs (vm_strings v) @
     table_refs (vm_regexLiterals v) @ table_refs (vm_autoloadTbl v) @
     vm_compilerRoots v @ [vm_initString v, vm_fileString v, vm_dirString v] @
     vm_sigHandlers v @ [vm_printBuf v] @ vm_exitHandlers v @ hidden"

definition young_roots :: "vm_state \<Rightarrow> addr list" where
  "young_roots v =
     vm_sigHandlers v @
     concat (map (\<lambda>th. th_obj th #
       (if is_zombie th then []
        else opt_refs (th_lastValue th) @ [th_tlsMap th, th_thisObj th] @
          value_refs [th_lastErrorThrown th] @ concat (map context_refs (th_ecs th)) @
          concat (map block_refs (th_blockStack th)))) (vm_threads v)) @
     concat (map (\<lambda>th. if is_zombie th then [] else th_stackObjects th) (vm_threads v)) @
     table_refs (vm_globals v) @ table_refs (vm_constants v) @ value_refs (vm_loadedScripts v) @
     concat (map (\<lambda>th. if is_zombie th then [] else
       concat (map (\<lambda>ctx. ec_filename ctx # opt_refs (ec_lastValue ctx) @
         concat (map young_frame_refs (ec_frames ctx))) (th_ecs th)) @
       value_refs (th_openUpvalues th)) (vm_threads v)) @
     [vm_printBuf v]"

subsection \<open>Freeing\<close>

definition free_asserts :: "obj_body \<Rightarrow> bool" where
  "free_asserts b =
     (case b of
        BFunction f \<Rightarrow> fn_chunk f \<noteq> NULL
      | BInternal d \<Rightarrow> in_isRealObject d \<and> (in_hasFreeFunc d \<or> in_data d \<noteq> NULL \<and> in_dataSz d > 0)
      | BString i b \<Rightarrow> sb_chars b \<noteq> []
      | _ \<Rightarrow> True)"

text \<open>freeObject releases what the object owns (here: forgets the body) and marks the slot NONE.\<close>

definition freeObject :: "addr \<Rightarrow> gc_state \<Rightarrow> gc_state option" where
  "freeObject p s =
     (case gc_heap s p of
        None \<Rightarrow> None
      | Some ob \<Rightarrow>
          if o_body ob = BNone then Some s
          else if is_hidden ob then None
          else if \<not> free_asserts (o_body ob) then None
          else (let g = o_GCGen ob; gs = gc_generations s
                in Some (put_obj p (ob\<lparr>o_body := BNone\<rparr>)
                     (s\<lparr>gc_generations := (if gs ! g \<noteq> 0 then gs[g := gs ! g - 1] else gs)\<rparr>))))"

text \<open>Linking a slot in front of a free list and freeing it.\<close>

definition free_slot :: "addr \<Rightarrow> addr \<Rightarrow> gc_state \<Rightarrow> gc_state option" where
  "free_slot p newFreeList s =
     freeObject p (on_obj p (\<lambda>ob. ob\<lparr>o_nextFree := newFreeList\<rparr>) s)"

definition add_slot :: "(addr \<Rightarrow> obj) \<Rightarrow> addr \<Rightarrow> gc_state \<Rightarrow> gc_state" where
  "add_slot junk p s =
     (put_obj p ((junk p)\<lparr>o_body := BNone, o_nextFree := gc_freeList s\<rparr>) s)\<lparr>gc_freeList := p\<rparr>"

text \<open>addHeap adds a page that malloc returned; junk is the content of its memory.\<close>

definition addHeap :: "(addr \<Rightarrow> obj) \<Rightarrow> addr list \<Rightarrow> gc_state \<Rightarrow> gc_state" where
  "addHeap junk page s =
     fold (add_slot junk) page (s\<lparr>gc_heapList := gc_heapList s @ [page]\<rparr>)"

definition inst_hdr_of :: "obj_body \<Rightarrow> inst_hdr option" where
  "inst_hdr_of b =
     (case b of BInstance i _ \<Rightarrow> Some i | BString i _ \<Rightarrow> Some i | BArray i _ \<Rightarrow> Some i
      | BMap i _ \<Rightarrow> Some i | BRegex i _ \<Rightarrow> Some i | BClass i _ \<Rightarrow> Some i | BModule i _ \<Rightarrow> Some i
      | _ \<Rightarrow> None)"

definition hasFinalizer :: "obj \<Rightarrow> bool" where
  "hasFinalizer ob =
     (case inst_hdr_of (o_body ob) of Some i \<Rightarrow> i_finalizerFunc i \<noteq> NULL | None \<Rightarrow> False)"

fun clear_finalizer :: "obj_body \<Rightarrow> obj_body" where
  "clear_finalizer (BInstance i x) = BInstance (i\<lparr>i_finalizerFunc := NULL\<rparr>) x"
| "clear_finalizer (BString i x) = BString (i\<lparr>i_finalizerFunc := NULL\<rparr>) x"
| "clear_finalizer (BArray i x) = BArray (i\<lparr>i_finalizerFunc := NULL\<rparr>) x"
| "clear_finalizer (BMap i x) = BMap (i\<lparr>i_finalizerFunc := NULL\<rparr>) x"
| "clear_finalizer (BRegex i x) = BRegex (i\<lparr>i_finalizerFunc := NULL\<rparr>) x"
| "clear_finalizer (BClass i x) = BClass (i\<lparr>i_finalizerFunc := NULL\<rparr>) x"
| "clear_finalizer (BModule i x) = BModule (i\<lparr>i_finalizerFunc := NULL\<rparr>) x"
| "clear_finalizer b = b"

text \<open>callFinalizer; run is the effect of the program's finalizer function.\<close>

definition callFinalizer :: "(addr \<Rightarrow> gc_state \<Rightarrow> gc_state) \<Rightarrow> addr \<Rightarrow> gc_state \<Rightarrow> gc_state" where
  "callFinalizer run p s =
     (let s1 = (run p (s\<lparr>gc_inGC := False\<rparr>))\<lparr>gc_inGC := True\<rparr>
      in (on_obj p (\<lambda>ob. ob\<lparr>o_body := clear_finalizer (o_body ob)\<rparr>) s1)
           \<lparr>gc_activeFinalizers := gc_activeFinalizers s1 - 1\<rparr>)"

text \<open>Phase 1 of the sweep: the finalizers of the objects about to die, page by page; it is left
  as soon as none is active. A finalizer may add pages, which are visited too, so the loop over
  the pages need not end.\<close>

fun finalize_slots ::
    "(addr \<Rightarrow> gc_state \<Rightarrow> gc_state) \<Rightarrow> addr list \<Rightarrow> addr list \<Rightarrow> gc_state \<Rightarrow> gc_state" where
  "finalize_slots run stackObjs [] s = s"
| "finalize_slots run stackObjs (p # ps) s =
     (case gc_heap s p of
        None \<Rightarrow> finalize_slots run stackObjs ps s
      | Some ob \<Rightarrow>
          if o_body ob \<noteq> BNone \<and> \<not> is_dark ob \<and> \<not> is_hidden ob \<and> p \<notin> set stackObjs \<and> hasFinalizer ob
          then (let s1 = callFinalizer run p s
                in if gc_activeFinalizers s1 = 0 then s1 else finalize_slots run stackObjs ps s1)
          else finalize_slots run stackObjs ps s)"

partial_function (option) finalize_pages ::
    "(addr \<Rightarrow> gc_state \<Rightarrow> gc_state) \<Rightarrow> addr list \<Rightarrow> nat \<Rightarrow> gc_state \<Rightarrow> gc_state option" where
  "finalize_pages run stackObjs i s =
     (if i < length (gc_heapList s)
      then (let s1 = finalize_slots run stackObjs (gc_heapList s ! i) s
            in if gc_activeFinalizers s1 = 0 then Some s1 else finalize_pages run stackObjs (i + 1) s1)
      else Some s)"

text \<open>Phase 1 as a whole: skipped when no finalizer is active; the free list is emptied again only
  when finalizers are left over.\<close>

definition finalize_phase ::
    "(addr \<Rightarrow> gc_state \<Rightarrow> gc_state) \<Rightarrow> addr list \<Rightarrow> gc_state \<Rightarrow> gc_state option" where
  "finalize_phase run stackObjs s =
     (if gc_activeFinalizers s = 0 then Some s
      else case finalize_pages run stackObjs 0 s of
        None \<Rightarrow> None
      | Some s1 \<Rightarrow>
          Some (if gc_activeFinalizers s1 = 0 then s1 else s1\<lparr>gc_freeList := NULL\<rparr>))"

text \<open>Phase 2 for one slot: newFreeList and numObjectsFreed are locals. The count goes up twice
  for every freed object.\<close>

definition sweep_slot ::
    "addr list \<Rightarrow> addr \<Rightarrow> gc_state \<times> addr \<times> nat \<Rightarrow> (gc_state \<times> addr \<times> nat) option" where
  "sweep_slot stackObjs p st =
     (case st of (s, newFreeList, numObjectsFreed) \<Rightarrow>
        (case gc_heap s p of
           None \<Rightarrow> None
         | Some ob \<Rightarrow>
             if o_body ob = BNone then Some st
             else if \<not> is_dark ob \<and> \<not> is_hidden ob then
               (if p \<notin> set stackObjs
                then (case free_slot p newFreeList s of
                        None \<Rightarrow> None
                      | Some s1 \<Rightarrow> Some (s1, p, numObjectsFreed + 1 + 1))
                else Some st)
             else if is_hidden ob \<and> \<not> is_dark ob then Some st
             else Some (on_obj p unset_dark (GCPromoteOnce p s), newFreeList, numObjectsFreed)))"

fun sweep_slots ::
    "addr list \<Rightarrow> addr list \<Rightarrow> gc_state \<times> addr \<times> nat \<Rightarrow> (gc_state \<times> addr \<times> nat) option" where
  "sweep_slots stackObjs [] st = Some st"
| "sweep_slots stackObjs (p # ps) st =
     (case sweep_slot stackObjs p st of None \<Rightarrow> None | Some st1 \<Rightarrow> sweep_slots stackObjs ps st1)"

fun sweep_pages ::
    "addr list \<Rightarrow> addr list list \<Rightarrow> gc_state \<Rightarrow> nat \<Rightarrow> (gc_state \<times> nat) option" where
  "sweep_pages stackObjs [] s n = Some (s, n)"
| "sweep_pages stackObjs (page # pages) s n =
     (case sweep_slots stackObjs page (s, gc_freeList s, n) of
        None \<Rightarrow> None
      | Some (s1, newFreeList, n1) \<Rightarrow> sweep_pages stackObjs pages (s1\<lparr>gc_freeList := newFreeList\<rparr>) n1)"

definition stack_objs :: "vm_state \<Rightarrow> addr list" where
  "stack_objs v = concat (map (\<lambda>th. if dead_zombie th then [] else th_stackObjects th) (vm_threads v))"

text \<open>The sweep of collectGarbage: the free list starts empty, and a heap is added when few
  objects were freed.\<close>

definition full_sweep ::
    "(addr \<Rightarrow> gc_state \<Rightarrow> gc_state) \<Rightarrow> (addr \<Rightarrow> obj) \<Rightarrow> addr list \<Rightarrow> addr list \<Rightarrow> gc_state \<Rightarrow>
     gc_state option" where
  "full_sweep run junk page stackObjs s0 =
     (case finalize_phase run stackObjs (s0\<lparr>gc_freeList := NULL\<rparr>) of
        None \<Rightarrow> None
      | Some s1 \<Rightarrow>
          (case sweep_pages stackObjs (gc_heapList s1) s1 0 of
             None \<Rightarrow> None
           | Some (s2, n) \<Rightarrow> Some (if n < FREE_MIN then addHeap junk page s2 else s2)))"

text \<open>collectGarbage: full mark and sweep.\<close>

definition collectGarbage ::
    "(addr \<Rightarrow> gc_state \<Rightarrow> gc_state) \<Rightarrow> (addr \<Rightarrow> obj) \<Rightarrow> addr list \<Rightarrow> vm_state \<Rightarrow> gc_state \<Rightarrow>
     (vm_state \<times> gc_state) option" where
  "collectGarbage run junk page v s =
     (if gc_grayStack s \<noteq> [] then None
      else if \<not> gc_GCOn s then Some (v, s)
      else if gc_inGC s then None
      else if \<not> (\<forall>p\<in>set (gc_hiddenObjs s). \<exists>ob. gc_heap s p = Some ob \<and> is_hidden ob) then None
      else case reap_zombies (vm_threads v) of
        None \<Rightarrow> None
      | Some threads \<Rightarrow>
          (let s1 = gray_all (full_roots v threads (gc_hiddenObjs s)) (s\<lparr>gc_inGC := True\<rparr>)
           in case mark_all s1 of
                None \<Rightarrow> None
              | Some s2 \<Rightarrow>
                  (case full_sweep run junk page (stack_objs v) s2 of
                     None \<Rightarrow> None
                   | Some s3 \<Rightarrow>
                       Some (v\<lparr>vm_threads := threads\<rparr>,
                             s3\<lparr>gc_rememberSet := [], gc_youngStack := [], gc_inGC := False,
                                gc_grayStack := []\<rparr>))))"

text \<open>The sweep of the young collection, for one object of the young stack.\<close>

definition young_sweep_slot :: "addr \<Rightarrow> gc_state \<times> addr \<Rightarrow> (gc_state \<times> addr) option" where
  "young_sweep_slot p st =
     (case st of (s, newFreeList) \<Rightarrow>
        (case gc_heap s p of
           None \<Rightarrow> None
         | Some ob \<Rightarrow>
             if o_GCGen ob > GC_GEN_MIN \<or> is_hidden ob then Some (on_obj p unset_dark s, newFreeList)
             else if gc_activeFinalizers s > 0 \<and>
               (case o_body ob of BInstance i _ \<Rightarrow> i_finalizerFunc i \<noteq> NULL | _ \<Rightarrow> False)
             then Some (on_obj p unset_dark (GCPromoteOnce p s), newFreeList)
             else if is_dark ob then Some (on_obj p unset_dark (GCPromoteOnce p s), newFreeList)
             else if p \<in> set (gc_rememberSet s)
             then Some (on_obj p unset_dark (GCPromoteOnce p s), newFreeList)
             else (case free_slot p newFreeList s of
                     None \<Rightarrow> None
                   | Some s1 \<Rightarrow> Some (s1, p))))"

fun young_sweep :: "addr list \<Rightarrow> gc_state \<times> addr \<Rightarrow> (gc_state \<times> addr) option" where
  "young_sweep [] st = Some st"
| "young_sweep (p # ps) st =
     (case young_sweep_slot p st of None \<Rightarrow> None | Some st1 \<Rightarrow> young_sweep ps st1)"

definition collectYoungGarbage :: "vm_state \<Rightarrow> gc_state \<Rightarrow> gc_state option" where
  "collectYoungGarbage v s =
     (if gc_grayStack s \<noteq> [] then None
      else if \<not> gc_GCOn s then Some s
      else if gc_inGC s then None
      else if gc_youngStack s = [] then Some s
      else
        (let s1 = gray_all (young_roots v) (s\<lparr>gc_inGC := True, gc_inYoungGC := True\<rparr>);
             n = length (gc_grayStack s1)
         in case young_mark_loop (length (all_slots s1) + n) n s1 of
              None \<Rightarrow> None
            | Some s2 \<Rightarrow>
                (case young_sweep (gc_youngStack s2) (s2, gc_freeList s2) of
                   None \<Rightarrow> None
                 | Some (s3, newFreeList) \<Rightarrow>
                     (let s4 = fold (\<lambda>p. on_obj p unset_dark) (rev (gc_grayStack s3))
                                 (s3\<lparr>gc_freeList := newFreeList\<rparr>)
                      in Some (s4\<lparr>gc_rememberSet := [], gc_inYoungGC := False, gc_inGC := False,
                                  gc_grayStack := [], gc_youngStack := []\<rparr>)))))"

text \<open>getNewObject: the retry loop. young and full are the two collections and grow is addHeap;
  noGC holds when collection is off, and then the young collection counts as tried.\<close>

definition take_free :: "bool \<Rightarrow> gc_state \<Rightarrow> addr \<times> gc_state" where
  "take_free isOld s =
     (let p = gc_freeList s;
          nf = (case gc_heap s p of Some ob \<Rightarrow> o_nextFree ob | None \<Rightarrow> NULL);
          s1 = s\<lparr>gc_freeList := nf\<rparr>
      in (p, if \<not> isOld \<and> length (gc_youngStack s1) < YOUNG_MARK_STACK_MAX
             then s1\<lparr>gc_youngStack := gc_youngStack s1 @ [p]\<rparr> else s1))"

fun getNewObject ::
    "(gc_state \<Rightarrow> gc_state option) \<Rightarrow> (gc_state \<Rightarrow> gc_state option) \<Rightarrow> (gc_state \<Rightarrow> gc_state) \<Rightarrow>
     nat \<Rightarrow> bool \<Rightarrow> bool \<Rightarrow> bool \<Rightarrow> gc_state \<Rightarrow> (addr \<times> gc_state) option" where
  "getNewObject young full grow n isOld triedYoungCollect noGC s =
     (if gc_freeList s \<noteq> NULL \<and>
         (isOld \<or> length (gc_youngStack s) < YOUNG_MARK_STACK_MAX \<or> triedYoungCollect)
      then Some (take_free isOld s)
      else case n of
        0 \<Rightarrow> None
      | Suc m \<Rightarrow>
          if \<not> triedYoungCollect \<and> \<not> noGC then
            (case young s of None \<Rightarrow> None
             | Some s1 \<Rightarrow> getNewObject young full grow m isOld True noGC s1)
          else if noGC then getNewObject young full grow m isOld triedYoungCollect noGC (grow s)
          else
            (case full s of None \<Rightarrow> None
             | Some s1 \<Rightarrow> getNewObject young full grow m isOld triedYoungCollect True s1))"

end
