(* ===== verification/Clox_GC_Laws.thy ===== *)
theory Clox_GC_Laws
  imports Clox_GC
begin

text \<open>Correctness of the collector. The graying of references is a locale: what grayObject
  does to the marks and to the gray stack, for any choice of the objects it accepts. It is
  interpreted twice, for the full collection, which accepts every object, and for the young
  collection, which accepts the young ones. On it rest the marking theorem (marked means
  reachable), the safety and completeness of the full collection, the content of the free list
  after it, and the failure of the young mark loop.\<close>

subsection \<open>Graying as an interface\<close>

locale graying =
  fixes valid :: "'s \<Rightarrow> bool"
    and nodes :: "'s \<Rightarrow> addr set"
    and dark :: "'s \<Rightarrow> addr set"
    and stack :: "'s \<Rightarrow> addr list"
    and view :: "'s \<Rightarrow> 'w"
    and gray :: "addr \<Rightarrow> 's \<Rightarrow> 's"
  assumes gray_valid: "valid s \<Longrightarrow> valid (gray p s)"
    and gray_nodes: "valid s \<Longrightarrow> nodes (gray p s) = nodes s"
    and gray_view: "valid s \<Longrightarrow> view (gray p s) = view s"
    and gray_new: "valid s \<Longrightarrow> p \<in> nodes s \<Longrightarrow> p \<notin> dark s \<Longrightarrow>
      dark (gray p s) = insert p (dark s) \<and> stack (gray p s) = stack s @ [p]"
    and gray_old: "valid s \<Longrightarrow> p \<notin> nodes s \<or> p \<in> dark s \<Longrightarrow>
      dark (gray p s) = dark s \<and> stack (gray p s) = stack s"
begin

lemma gray_fold:
  assumes "valid s"
  shows "valid (fold gray ps s)" and "nodes (fold gray ps s) = nodes s"
    and "view (fold gray ps s) = view s"
    and "dark (fold gray ps s) = dark s \<union> (set ps \<inter> nodes s)"
    and "\<exists>new. stack (fold gray ps s) = stack s @ new \<and> distinct new \<and>
      set new = (set ps \<inter> nodes s) - dark s"
proof -
  have "valid (fold gray ps s) \<and> nodes (fold gray ps s) = nodes s \<and> view (fold gray ps s) = view s \<and>
    dark (fold gray ps s) = dark s \<union> (set ps \<inter> nodes s) \<and>
    (\<exists>new. stack (fold gray ps s) = stack s @ new \<and> distinct new \<and>
      set new = (set ps \<inter> nodes s) - dark s)"
    using assms
  proof (induction ps arbitrary: s)
    case (Cons p ps)
    note IH = Cons.IH [OF gray_valid [OF Cons.prems, of p]]
    note n = gray_nodes [OF Cons.prems, of p] gray_view [OF Cons.prems, of p]
    show ?case
    proof (cases "p \<in> nodes s \<and> p \<notin> dark s")
      case True
      then have g: "dark (gray p s) = insert p (dark s)" "stack (gray p s) = stack s @ [p]"
        using gray_new [OF Cons.prems, of p] by auto
      obtain new where new: "stack (fold gray ps (gray p s)) = (stack s @ [p]) @ new" "distinct new"
        "set new = (set ps \<inter> nodes s) - insert p (dark s)"
        using IH g n by auto
      have "stack (fold gray (p # ps) s) = stack s @ (p # new) \<and> distinct (p # new) \<and>
          set (p # new) = (set (p # ps) \<inter> nodes s) - dark s"
        using new True by auto
      then show ?thesis using IH g n True by auto
    next
      case False
      then have g: "dark (gray p s) = dark s" "stack (gray p s) = stack s"
        using gray_old [OF Cons.prems, of p] by auto
      have e: "set (p # ps) \<inter> nodes s \<union> dark s = (set ps \<inter> nodes s) \<union> dark s"
        "(set (p # ps) \<inter> nodes s) - dark s = (set ps \<inter> nodes s) - dark s"
        using False by auto
      show ?thesis using IH g n e by (auto simp: Un_commute)
    qed
  qed simp
  then show "valid (fold gray ps s)" and "nodes (fold gray ps s) = nodes s"
    and "view (fold gray ps s) = view s"
    and "dark (fold gray ps s) = dark s \<union> (set ps \<inter> nodes s)"
    and "\<exists>new. stack (fold gray ps s) = stack s @ new \<and> distinct new \<and>
      set new = (set ps \<inter> nodes s) - dark s"
    by blast+
qed

end

subsection \<open>The collector's graying\<close>

definition gc_dark :: "gc_state \<Rightarrow> addr set" where
  "gc_dark s = {p. \<exists>ob. gc_heap s p = Some ob \<and> is_dark ob}"

definition gc_nodes :: "gc_state \<Rightarrow> addr set" where
  "gc_nodes s = {p. p \<noteq> NULL \<and> gc_heap s p \<noteq> None}"

definition young_nodes :: "gc_state \<Rightarrow> addr set" where
  "young_nodes s = {p. p \<noteq> NULL \<and> (\<exists>ob. gc_heap s p = Some ob \<and> is_young_obj ob)}"

text \<open>What marking leaves alone: the bodies, the flags other than the mark, the links, and the
  lists of the collector.\<close>

definition obj_view :: "obj \<Rightarrow> obj_body \<times> u16 \<times> addr \<times> u64" where
  "obj_view ob = (o_body ob, unset_flag (o_flags ob) OBJ_FLAG_DARK, o_nextFree ob, o_objectId ob)"

definition heap_view :: "gc_state \<Rightarrow> addr \<Rightarrow> (obj_body \<times> u16 \<times> addr \<times> u64) option" where
  "heap_view s p = map_option obj_view (gc_heap s p)"

definition gc_view :: "gc_state \<Rightarrow> (addr \<Rightarrow> (obj_body \<times> u16 \<times> addr \<times> u64) option) \<times> addr list list \<times>
    addr \<times> addr list \<times> addr list \<times> addr list \<times> int" where
  "gc_view s = (heap_view s, gc_heapList s, gc_freeList s, gc_youngStack s, gc_rememberSet s,
     gc_hiddenObjs s, gc_activeFinalizers s)"

lemma dark_flag_simps [simp]:
  "has_flag (set_flag w OBJ_FLAG_DARK) OBJ_FLAG_DARK"
  "\<not> has_flag (unset_flag w OBJ_FLAG_DARK) OBJ_FLAG_DARK"
  "unset_flag (set_flag w OBJ_FLAG_DARK) OBJ_FLAG_DARK = unset_flag w OBJ_FLAG_DARK"
  "has_flag (set_flag w OBJ_FLAG_DARK) OBJ_FLAG_NOGC = has_flag w OBJ_FLAG_NOGC"
  "has_flag (unset_flag w OBJ_FLAG_DARK) OBJ_FLAG_NOGC = has_flag w OBJ_FLAG_NOGC"
  "has_flag (unset_flag w OBJ_FLAG_DARK) OBJ_FLAG_USER1 = has_flag w OBJ_FLAG_USER1"
proof -
  show "has_flag (set_flag w OBJ_FLAG_DARK) OBJ_FLAG_DARK"
    unfolding OBJ_FLAG_DARK_def by (subst flag_other) simp_all
  show "\<not> has_flag (unset_flag w OBJ_FLAG_DARK) OBJ_FLAG_DARK"
    unfolding OBJ_FLAG_DARK_def by (subst flag_other) simp_all
  show "unset_flag (set_flag w OBJ_FLAG_DARK) OBJ_FLAG_DARK = unset_flag w OBJ_FLAG_DARK"
    by (rule bit_eqI) (auto simp: OBJ_FLAG_DARK_def bit_unset_flag [of 0, simplified] bit_set_flag [of 0, simplified])
  show "has_flag (set_flag w OBJ_FLAG_DARK) OBJ_FLAG_NOGC = has_flag w OBJ_FLAG_NOGC"
    unfolding OBJ_FLAG_DARK_def OBJ_FLAG_NOGC_def by (subst flag_other) simp_all
  show "has_flag (unset_flag w OBJ_FLAG_DARK) OBJ_FLAG_NOGC = has_flag w OBJ_FLAG_NOGC"
    unfolding OBJ_FLAG_DARK_def OBJ_FLAG_NOGC_def by (subst flag_other) simp_all
  show "has_flag (unset_flag w OBJ_FLAG_DARK) OBJ_FLAG_USER1 = has_flag w OBJ_FLAG_USER1"
    unfolding OBJ_FLAG_DARK_def OBJ_FLAG_USER1_def by (subst flag_other) simp_all
qed

lemma is_dark_set [simp]: "is_dark (set_dark ob)" "\<not> is_dark (unset_dark ob)"
  by (simp_all add: is_dark_def set_dark_def unset_dark_def)

lemma is_dark_gen [simp]: "is_dark (ob\<lparr>o_GCGen := g\<rparr>) = is_dark ob"
  by (simp add: is_dark_def)

lemma obj_view_gen [simp]: "obj_view (ob\<lparr>o_GCGen := g\<rparr>) = obj_view ob"
  by (simp add: obj_view_def)

lemma obj_view_dark [simp]: "obj_view (set_dark ob) = obj_view ob"
  by (simp add: obj_view_def set_dark_def)

lemma young_set_dark [simp]: "is_young_obj (set_dark ob) = is_young_obj ob"
  by (simp add: is_young_obj_def set_dark_def)

text \<open>The state after graying a white object, in one equation per kind of collection.\<close>

lemma grayObject_full:
  assumes "\<not> gc_inYoungGC s" "p \<noteq> NULL" "gc_heap s p = Some ob" "\<not> is_dark ob"
  obtains g gs cap where "grayObject p s =
    s\<lparr>gc_heap := (gc_heap s)(p \<mapsto> (set_dark ob)\<lparr>o_GCGen := g\<rparr>), gc_grayCapacity := cap,
      gc_grayStack := gc_grayStack s @ [p], gc_generations := gs\<rparr>"
proof -
  define ob1 where "ob1 = set_dark ob"
  define s1 where "s1 = put_obj p ob1 s"
  have h1: "gc_heap s1 p = Some ob1" by (simp add: s1_def put_obj_def)
  obtain g gs where s2: "INC_GEN p s1 =
      s\<lparr>gc_heap := (gc_heap s)(p \<mapsto> ob1\<lparr>o_GCGen := g\<rparr>), gc_generations := gs\<rparr>"
  proof (cases "o_GCGen ob1 < GC_GEN_MAX")
    case True
    then show ?thesis
      by (intro that [of "move_gen (o_GCGen ob1) (o_GCGen ob1 + 1) (gc_generations s)" "o_GCGen ob1 + 1"])
        (simp add: INC_GEN_def h1, simp add: s1_def put_obj_def)
  next
    case False
    then show ?thesis
      by (intro that [of "gc_generations s" "o_GCGen ob1"])
        (simp add: INC_GEN_def h1, simp add: s1_def put_obj_def)
  qed
  have "gc_inYoungGC s1 = gc_inYoungGC s" by (simp add: s1_def put_obj_def)
  then have e: "grayObject p s =
      (let s3 = (if gc_grayCapacity (INC_GEN p s1) < int (length (gc_grayStack (INC_GEN p s1))) + 1
                 then (INC_GEN p s1)\<lparr>gc_grayCapacity := GROW_CAPACITY (gc_grayCapacity (INC_GEN p s1))\<rparr>
                 else INC_GEN p s1)
       in s3\<lparr>gc_grayStack := gc_grayStack s3 @ [p]\<rparr>)"
    using assms by (simp add: grayObject_def Let_def s1_def ob1_def)
  show ?thesis
  proof (cases "gc_grayCapacity s < int (length (gc_grayStack s)) + 1")
    case True
    then show ?thesis using that [of gs "GROW_CAPACITY (gc_grayCapacity s)" g] unfolding e s2 ob1_def
      by (simp add: Let_def)
  next
    case False
    then show ?thesis using that [of gs "gc_grayCapacity s" g] unfolding e s2 ob1_def
      by (simp add: Let_def)
  qed
qed

lemma grayObject_young:
  assumes "gc_inYoungGC s" "p \<noteq> NULL" "gc_heap s p = Some ob" "\<not> is_dark ob" "is_young_obj ob"
  obtains cap where "grayObject p s =
    s\<lparr>gc_heap := (gc_heap s)(p \<mapsto> set_dark ob), gc_grayCapacity := cap,
      gc_grayStack := gc_grayStack s @ [p]\<rparr>"
proof (cases "gc_grayCapacity s < int (length (gc_grayStack s)) + 1")
  case True
  then show ?thesis
    using assms that [of "GROW_CAPACITY (gc_grayCapacity s)"]
    by (simp add: grayObject_def Let_def put_obj_def is_old_obj_def is_young_obj_def)
next
  case False
  then show ?thesis
    using assms that [of "gc_grayCapacity s"]
    by (simp add: grayObject_def Let_def put_obj_def is_old_obj_def is_young_obj_def)
qed

lemma grayObject_skip:
  assumes "p = NULL \<or> gc_heap s p = None \<or> p \<in> gc_dark s \<or>
    (gc_inYoungGC s \<and> p \<notin> young_nodes s)"
  shows "grayObject p s = s"
  using assms
  by (auto simp: grayObject_def gc_dark_def young_nodes_def is_old_obj_def is_young_obj_def GC_GEN_MIN_def
      split: option.splits)

lemma heap_view_put:
  "gc_heap s p = Some ob \<Longrightarrow> obj_view ob' = obj_view ob \<Longrightarrow>
   heap_view (s\<lparr>gc_heap := (gc_heap s)(p \<mapsto> ob'), gc_grayCapacity := c, gc_grayStack := st\<rparr>) = heap_view s"
  by (auto simp: heap_view_def)

interpretation full: graying "\<lambda>s :: gc_state. \<not> gc_inYoungGC s" gc_nodes gc_dark gc_grayStack gc_view grayObject
proof
  fix s :: gc_state and p assume v: "\<not> gc_inYoungGC s"
  show "\<not> gc_inYoungGC (grayObject p s)" "gc_nodes (grayObject p s) = gc_nodes s"
    "gc_view (grayObject p s) = gc_view s"
  proof -
    have "\<not> gc_inYoungGC (grayObject p s) \<and> gc_nodes (grayObject p s) = gc_nodes s \<and>
        gc_view (grayObject p s) = gc_view s"
    proof (cases "p \<in> gc_nodes s \<and> p \<notin> gc_dark s")
      case True
      then obtain ob where ob: "p \<noteq> NULL" "gc_heap s p = Some ob" "\<not> is_dark ob"
        by (auto simp: gc_nodes_def gc_dark_def)
      then show ?thesis
        by (rule grayObject_full [OF v]) (auto simp: v ob(2) gc_nodes_def gc_view_def heap_view_def fun_eq_iff)
    next
      case False
      then have "grayObject p s = s" by (intro grayObject_skip) (auto simp: gc_nodes_def)
      then show ?thesis using v by simp
    qed
    then show "\<not> gc_inYoungGC (grayObject p s)" "gc_nodes (grayObject p s) = gc_nodes s"
      "gc_view (grayObject p s) = gc_view s" by blast+
  qed
  show "gc_dark (grayObject p s) = insert p (gc_dark s) \<and> gc_grayStack (grayObject p s) = gc_grayStack s @ [p]"
    if a: "p \<in> gc_nodes s" "p \<notin> gc_dark s"
  proof -
    obtain ob where ob: "p \<noteq> NULL" "gc_heap s p = Some ob" "\<not> is_dark ob"
      using a by (auto simp: gc_nodes_def gc_dark_def)
    then show ?thesis by (rule grayObject_full [OF v]) (auto simp: gc_dark_def)
  qed
  show "gc_dark (grayObject p s) = gc_dark s \<and> gc_grayStack (grayObject p s) = gc_grayStack s"
    if "p \<notin> gc_nodes s \<or> p \<in> gc_dark s"
  proof -
    have "grayObject p s = s" using that by (intro grayObject_skip) (auto simp: gc_nodes_def)
    then show ?thesis by simp
  qed
qed

interpretation young: graying "\<lambda>s :: gc_state. gc_inYoungGC s" young_nodes gc_dark gc_grayStack gc_view grayObject
proof
  fix s :: gc_state and p assume v: "gc_inYoungGC s"
  show "gc_inYoungGC (grayObject p s)" "young_nodes (grayObject p s) = young_nodes s"
    "gc_view (grayObject p s) = gc_view s"
  proof -
    have "gc_inYoungGC (grayObject p s) \<and> young_nodes (grayObject p s) = young_nodes s \<and>
        gc_view (grayObject p s) = gc_view s"
    proof (cases "p \<in> young_nodes s \<and> p \<notin> gc_dark s")
      case True
      then obtain ob where ob: "p \<noteq> NULL" "gc_heap s p = Some ob" "\<not> is_dark ob" "is_young_obj ob"
        by (auto simp: young_nodes_def gc_dark_def)
      then show ?thesis
        by (rule grayObject_young [OF v]) (auto simp: v ob(2,4) young_nodes_def gc_view_def heap_view_def fun_eq_iff)
    next
      case False
      then have "grayObject p s = s" using v by (intro grayObject_skip) auto
      then show ?thesis using v by simp
    qed
    then show "gc_inYoungGC (grayObject p s)" "young_nodes (grayObject p s) = young_nodes s"
      "gc_view (grayObject p s) = gc_view s" by blast+
  qed
  show "gc_dark (grayObject p s) = insert p (gc_dark s) \<and> gc_grayStack (grayObject p s) = gc_grayStack s @ [p]"
    if a: "p \<in> young_nodes s" "p \<notin> gc_dark s"
  proof -
    obtain ob where ob: "p \<noteq> NULL" "gc_heap s p = Some ob" "\<not> is_dark ob" "is_young_obj ob"
      using a by (auto simp: young_nodes_def gc_dark_def)
    then show ?thesis by (rule grayObject_young [OF v]) (auto simp: gc_dark_def)
  qed
  show "gc_dark (grayObject p s) = gc_dark s \<and> gc_grayStack (grayObject p s) = gc_grayStack s"
    if "p \<notin> young_nodes s \<or> p \<in> gc_dark s"
  proof -
    have "grayObject p s = s" using that v by (intro grayObject_skip) auto
    then show ?thesis by simp
  qed
qed

subsection \<open>Reachability\<close>

definition succs :: "gc_state \<Rightarrow> addr \<Rightarrow> addr list" where
  "succs s p = (case gc_heap s p of Some ob \<Rightarrow> obj_refs ob | None \<Rightarrow> [])"

definition edges :: "gc_state \<Rightarrow> (addr \<times> addr) set" where
  "edges s = {(p, q). q \<in> set (succs s p) \<and> q \<in> gc_nodes s}"

definition reachable :: "gc_state \<Rightarrow> addr set \<Rightarrow> addr set" where
  "reachable s R = (edges s)\<^sup>* `` (R \<inter> gc_nodes s)"

lemma obj_refs_view:
  assumes "obj_view a = obj_view b" shows "obj_refs a = obj_refs b"
proof -
  have "o_body a = o_body b" "unset_flag (o_flags a) OBJ_FLAG_DARK = unset_flag (o_flags b) OBJ_FLAG_DARK"
    using assms by (simp_all add: obj_view_def)
  then show ?thesis
    using dark_flag_simps(6) [of "o_flags a"] dark_flag_simps(6) [of "o_flags b"]
    by (simp add: obj_refs_def)
qed

lemma succs_view:
  assumes "heap_view s = heap_view t" shows "succs s = succs t"
proof
  fix p
  have "heap_view s p = heap_view t p" using assms by simp
  then show "succs s p = succs t p"
  proof (cases "gc_heap s p")
    case None
    then have "gc_heap t p = None"
      using \<open>heap_view s p = heap_view t p\<close> by (simp add: heap_view_def)
    then show ?thesis using None by (simp add: succs_def)
  next
    case (Some a)
    then obtain b where b: "gc_heap t p = Some b" "obj_view a = obj_view b"
      using \<open>heap_view s p = heap_view t p\<close> by (cases "gc_heap t p") (auto simp: heap_view_def)
    show ?thesis using Some b(1) obj_refs_view [OF b(2)] by (simp add: succs_def)
  qed
qed

lemma gc_nodes_heap_view: "gc_nodes s = {p. p \<noteq> NULL \<and> heap_view s p \<noteq> None}"
  by (simp add: gc_nodes_def heap_view_def)

lemma gc_nodes_view: "heap_view s = heap_view t \<Longrightarrow> gc_nodes s = gc_nodes t"
  unfolding gc_nodes_heap_view by simp

lemma edges_view: "heap_view s = heap_view t \<Longrightarrow> edges s = edges t"
  using succs_view [of s t] gc_nodes_view [of s t] unfolding edges_def by simp

lemma gc_view_heap: "gc_view s = gc_view t \<Longrightarrow> heap_view s = heap_view t"
  by (simp add: gc_view_def)

lemma blackenObject_succs: "blackenObject p s = gray_all (succs s p) s"
  by (simp add: blackenObject_def succs_def gray_all_def split: option.split)

lemma reachable_subset: "reachable s R \<subseteq> gc_nodes s"
proof
  fix q assume "q \<in> reachable s R"
  then obtain p where "p \<in> gc_nodes s" "(p, q) \<in> (edges s)\<^sup>*" by (auto simp: reachable_def)
  from this(2,1) show "q \<in> gc_nodes s" by (induction rule: rtrancl_induct) (auto simp: edges_def)
qed

lemma reachable_closed: "p \<in> reachable s R \<Longrightarrow> set (succs s p) \<inter> gc_nodes s \<subseteq> reachable s R"
  unfolding reachable_def edges_def by (auto intro: rtrancl_into_rtrancl)

lemma reachable_least:
  assumes "R \<inter> gc_nodes s \<subseteq> D" "\<And>p. p \<in> D \<Longrightarrow> set (succs s p) \<inter> gc_nodes s \<subseteq> D"
  shows "reachable s R \<subseteq> D"
proof
  fix q assume "q \<in> reachable s R"
  then obtain p where "p \<in> D" "(p, q) \<in> (edges s)\<^sup>*" using assms(1) by (auto simp: reachable_def)
  from this(2,1) show "q \<in> D"
    by (induction rule: rtrancl_induct) (use assms(2) in \<open>auto simp: edges_def\<close>)
qed

subsection \<open>Marking\<close>

text \<open>Every marked object that has left the gray stack has marked references.\<close>

definition tricolor :: "gc_state \<Rightarrow> bool" where
  "tricolor s \<longleftrightarrow>
     (\<forall>p\<in>gc_dark s - set (gc_grayStack s). set (succs s p) \<inter> gc_nodes s \<subseteq> gc_dark s)"

lemma pop_simps [simp]:
  "gc_dark (s\<lparr>gc_grayStack := st\<rparr>) = gc_dark s" "gc_nodes (s\<lparr>gc_grayStack := st\<rparr>) = gc_nodes s"
  "gc_view (s\<lparr>gc_grayStack := st\<rparr>) = gc_view s" "succs (s\<lparr>gc_grayStack := st\<rparr>) = succs s"
  by (simp_all add: gc_dark_def gc_nodes_def gc_view_def heap_view_def succs_def fun_eq_iff)

lemma mark_step:
  assumes "\<not> gc_inYoungGC s" "finite (gc_nodes s)" "gc_grayStack s \<noteq> []" "tricolor s"
  defines "s' \<equiv> blackenObject (last (gc_grayStack s)) (s\<lparr>gc_grayStack := butlast (gc_grayStack s)\<rparr>)"
  shows "\<not> gc_inYoungGC s'" and "gc_view s' = gc_view s" and "tricolor s'"
    and "gc_dark s' = gc_dark s \<union> (set (succs s (last (gc_grayStack s))) \<inter> gc_nodes s)"
    and "card (gc_nodes s' - gc_dark s') + length (gc_grayStack s') <
         card (gc_nodes s - gc_dark s) + length (gc_grayStack s)"
proof -
  let ?p = "last (gc_grayStack s)" and ?s1 = "s\<lparr>gc_grayStack := butlast (gc_grayStack s)\<rparr>"
  have v: "\<not> gc_inYoungGC ?s1" using assms(1) by simp
  have s': "s' = fold grayObject (succs s ?p) ?s1"
    by (simp add: s'_def blackenObject_succs gray_all_def)
  note g = full.gray_fold [OF v, of "succs s ?p", folded s']
  show "\<not> gc_inYoungGC s'" "gc_view s' = gc_view s" using g(1,3) by simp_all
  then have same: "succs s' = succs s" "gc_nodes s' = gc_nodes s"
    using succs_view gc_nodes_view gc_view_heap by blast+
  show dark: "gc_dark s' = gc_dark s \<union> (set (succs s ?p) \<inter> gc_nodes s)" using g(4) by simp
  obtain new where new: "gc_grayStack s' = butlast (gc_grayStack s) @ new" "distinct new"
    "set new = (set (succs s ?p) \<inter> gc_nodes s) - gc_dark s"
    using g(5) by auto
  show "tricolor s'"
    unfolding tricolor_def same
  proof
    fix q assume q: "q \<in> gc_dark s' - set (gc_grayStack s')"
    then have qd: "q \<in> gc_dark s" using dark new by auto
    show "set (succs s q) \<inter> gc_nodes s \<subseteq> gc_dark s'"
    proof (cases "q = ?p")
      case True
      then show ?thesis using dark by blast
    next
      case False
      have "q \<notin> set (butlast (gc_grayStack s))" using q new by auto
      then have "q \<notin> set (gc_grayStack s)"
        using False assms(3) by (metis append_butlast_last_id in_set_conv_decomp Un_iff empty_iff
            insert_iff list.set(1) list.simps(15) set_append)
      then show ?thesis using assms(4) qd dark unfolding tricolor_def by blast
    qed
  qed
  have "card (gc_nodes s - gc_dark s) = card ((gc_nodes s - gc_dark s') \<union> set new)"
    using dark new(3) by (intro arg_cong [where f = card]) blast
  also have "\<dots> = card (gc_nodes s - gc_dark s') + length new"
    using assms(2) dark new(3) distinct_card [OF new(2)] by (subst card_Un_disjoint) auto
  finally show "card (gc_nodes s' - gc_dark s') + length (gc_grayStack s') <
         card (gc_nodes s - gc_dark s) + length (gc_grayStack s)"
    using new(1) assms(3) same(2) by (cases "gc_grayStack s" rule: rev_cases) auto
qed

lemma mark_loop_spec:
  assumes "\<not> gc_inYoungGC s" "finite (gc_nodes s)" "tricolor s"
    and "card (gc_nodes s - gc_dark s) + length (gc_grayStack s) \<le> n"
    and "gc_dark s \<subseteq> C" "\<And>p. p \<in> C \<Longrightarrow> set (succs s p) \<inter> gc_nodes s \<subseteq> C"
    and "set (gc_grayStack s) \<subseteq> C"
  shows "\<exists>s'. mark_loop n s = Some s' \<and> gc_grayStack s' = [] \<and> \<not> gc_inYoungGC s' \<and>
    gc_view s' = gc_view s \<and> gc_dark s \<subseteq> gc_dark s' \<and> gc_dark s' \<subseteq> C \<and>
    (\<forall>p\<in>gc_dark s'. set (succs s p) \<inter> gc_nodes s \<subseteq> gc_dark s')"
  using assms
proof (induction n arbitrary: s)
  case 0
  then have "gc_grayStack s = []" by simp
  then show ?case using 0 by (simp add: tricolor_def)
next
  case (Suc n)
  show ?case
  proof (cases "gc_grayStack s = []")
    case True
    then show ?thesis using Suc.prems by (simp add: tricolor_def)
  next
    case False
    let ?s' = "blackenObject (last (gc_grayStack s)) (s\<lparr>gc_grayStack := butlast (gc_grayStack s)\<rparr>)"
    note st = mark_step [OF Suc.prems(1,2) False Suc.prems(3)]
    have same: "succs ?s' = succs s" "gc_nodes ?s' = gc_nodes s"
      using st(2) succs_view gc_nodes_view gc_view_heap by blast+
    have "last (gc_grayStack s) \<in> C" using Suc.prems(7) False by auto
    then have d: "gc_dark ?s' \<subseteq> C" using st(4) Suc.prems(5,6) by blast
    have "set (gc_grayStack ?s') \<subseteq> C"
    proof -
      have v: "\<not> gc_inYoungGC (s\<lparr>gc_grayStack := butlast (gc_grayStack s)\<rparr>)" using Suc.prems(1) by simp
      obtain new where "gc_grayStack ?s' = butlast (gc_grayStack s) @ new"
        "set new \<subseteq> set (succs s (last (gc_grayStack s))) \<inter> gc_nodes s"
        using full.gray_fold(5) [OF v, of "succs s (last (gc_grayStack s))"]
        by (auto simp: blackenObject_succs gray_all_def)
      moreover have "set (succs s (last (gc_grayStack s))) \<inter> gc_nodes s \<subseteq> C"
        by (rule Suc.prems(6)) fact
      moreover have "set (butlast (gc_grayStack s)) \<subseteq> C"
        using Suc.prems(7) by (auto dest: in_set_butlastD)
      ultimately show ?thesis by auto
    qed
    note sub = this
    have "\<exists>s'. mark_loop n ?s' = Some s' \<and> gc_grayStack s' = [] \<and> \<not> gc_inYoungGC s' \<and>
      gc_view s' = gc_view ?s' \<and> gc_dark ?s' \<subseteq> gc_dark s' \<and> gc_dark s' \<subseteq> C \<and>
      (\<forall>p\<in>gc_dark s'. set (succs ?s' p) \<inter> gc_nodes ?s' \<subseteq> gc_dark s')"
    proof (intro Suc.IH)
      show "finite (gc_nodes ?s')" using Suc.prems(2) by (simp only: same)
      show "card (gc_nodes ?s' - gc_dark ?s') + length (gc_grayStack ?s') \<le> n"
        using st(5) Suc.prems(4) by linarith
      show "\<And>p. p \<in> C \<Longrightarrow> set (succs ?s' p) \<inter> gc_nodes ?s' \<subseteq> C"
        unfolding same by (rule Suc.prems(6))
    qed (rule st d sub)+
    then obtain s' where s': "mark_loop n ?s' = Some s'" "gc_grayStack s' = []" "\<not> gc_inYoungGC s'"
      "gc_view s' = gc_view ?s'" "gc_dark ?s' \<subseteq> gc_dark s'" "gc_dark s' \<subseteq> C"
      "\<forall>p\<in>gc_dark s'. set (succs s p) \<inter> gc_nodes s \<subseteq> gc_dark s'"
      unfolding same by blast
    have "mark_loop (Suc n) s = Some s'" using False s'(1) by simp
    moreover have "gc_dark s \<subseteq> gc_dark s'" using st(4) s'(5) by blast
    moreover have "gc_view s' = gc_view s" using s'(4) st(2) by simp
    ultimately show ?thesis using s'(2,3,6,7) by (intro exI [of _ s']) simp
  qed
qed

text \<open>The state between collections: the slots of the pages are the heap, nothing is marked.\<close>

definition gc_wf :: "gc_state \<Rightarrow> bool" where
  "gc_wf s \<longleftrightarrow> distinct (all_slots s) \<and> NULL \<notin> set (all_slots s) \<and>
     (\<forall>p. gc_heap s p \<noteq> None \<longleftrightarrow> p \<in> set (all_slots s)) \<and>
     gc_dark s = {} \<and> gc_grayStack s = [] \<and> \<not> gc_inYoungGC s \<and> \<not> gc_inGC s"

lemma gc_wf_nodes: "gc_wf s \<Longrightarrow> gc_nodes s = set (all_slots s)"
  by (auto simp: gc_wf_def gc_nodes_def)

lemma mark_all_spec:
  assumes "gc_wf s"
  shows "\<exists>s'. mark_all (gray_all roots (s\<lparr>gc_inGC := True\<rparr>)) = Some s' \<and> gc_grayStack s' = [] \<and>
    \<not> gc_inYoungGC s' \<and> gc_view s' = gc_view s \<and> gc_dark s' = reachable s (set roots)"
proof -
  let ?s0 = "s\<lparr>gc_inGC := True\<rparr>"
  let ?s1 = "gray_all roots ?s0"
  have w: "\<not> gc_inYoungGC ?s0" "gc_dark ?s0 = {}" "gc_nodes ?s0 = gc_nodes s" "gc_view ?s0 = gc_view s"
    "gc_grayStack ?s0 = []"
    using assms by (simp_all add: gc_wf_def gc_dark_def gc_nodes_def gc_view_def heap_view_def fun_eq_iff)
  note g = full.gray_fold [OF w(1), of roots, folded gray_all_def]
  have gv: "gc_view ?s1 = gc_view s" using g(3) w(4) by (rule trans)
  have same: "succs ?s1 = succs s" "gc_nodes ?s1 = gc_nodes s"
    by (rule succs_view [OF gc_view_heap [OF gv]], rule gc_nodes_view [OF gc_view_heap [OF gv]])
  have slots: "all_slots ?s1 = all_slots s"
    using gv unfolding gc_view_def all_slots_def by simp
  obtain new where new: "gc_grayStack ?s1 = new" "set new = set roots \<inter> gc_nodes s"
    using g(5) w by auto
  have d: "gc_dark ?s1 = set roots \<inter> gc_nodes s" using g(4) w by simp
  have fin: "finite (gc_nodes s)" using gc_wf_nodes [OF assms] by simp
  have "card (gc_nodes s - gc_dark ?s1) \<le> card (gc_nodes s)" by (rule card_mono [OF fin]) blast
  also have "\<dots> \<le> length (all_slots s)" using gc_wf_nodes [OF assms] card_length by simp
  finally have "card (gc_nodes s - gc_dark ?s1) \<le> length (all_slots s)" .
  then have n: "card (gc_nodes ?s1 - gc_dark ?s1) + length (gc_grayStack ?s1)
      \<le> length (all_slots ?s1) + length (gc_grayStack ?s1)"
    by (simp add: same slots)
  have t: "tricolor ?s1" unfolding tricolor_def using d new by simp
  have sub: "set roots \<inter> gc_nodes s \<subseteq> reachable s (set roots)"
    by (auto simp: reachable_def)
  have "\<exists>s'. mark_loop (length (all_slots ?s1) + length (gc_grayStack ?s1)) ?s1 = Some s' \<and>
    gc_grayStack s' = [] \<and> \<not> gc_inYoungGC s' \<and> gc_view s' = gc_view ?s1 \<and>
    gc_dark ?s1 \<subseteq> gc_dark s' \<and> gc_dark s' \<subseteq> reachable s (set roots) \<and>
    (\<forall>p\<in>gc_dark s'. set (succs ?s1 p) \<inter> gc_nodes ?s1 \<subseteq> gc_dark s')"
  proof (rule mark_loop_spec)
    show "\<not> gc_inYoungGC ?s1" by (rule g(1))
    show "finite (gc_nodes ?s1)" using fin by (simp only: same)
    show "tricolor ?s1" by (rule t)
    show "card (gc_nodes ?s1 - gc_dark ?s1) + length (gc_grayStack ?s1)
      \<le> length (all_slots ?s1) + length (gc_grayStack ?s1)" by (rule n)
    show "gc_dark ?s1 \<subseteq> reachable s (set roots)" using d sub by simp
    show "set (gc_grayStack ?s1) \<subseteq> reachable s (set roots)" using new sub by simp
    show "\<And>p. p \<in> reachable s (set roots) \<Longrightarrow>
        set (succs ?s1 p) \<inter> gc_nodes ?s1 \<subseteq> reachable s (set roots)"
      unfolding same by (rule reachable_closed)
  qed
  then obtain s' where s': "mark_all ?s1 = Some s'" "gc_grayStack s' = []" "\<not> gc_inYoungGC s'"
    "gc_view s' = gc_view ?s1" "gc_dark ?s1 \<subseteq> gc_dark s'" "gc_dark s' \<subseteq> reachable s (set roots)"
    "\<forall>p\<in>gc_dark s'. set (succs s p) \<inter> gc_nodes s \<subseteq> gc_dark s'"
    unfolding mark_all_def same by blast
  have "reachable s (set roots) \<subseteq> gc_dark s'"
    using s'(5,7) d by (intro reachable_least) auto
  then have "gc_dark s' = reachable s (set roots)" using s'(6) by blast
  then show ?thesis using s'(1-4) gv by (intro exI [of _ s']) simp
qed

end
