(* ===== verification/Clox_GC_Sweep.thy ===== *)
theory Clox_GC_Sweep
  imports Clox_GC_Laws
begin

text \<open>Correctness of the sweep and of the whole full collection: what is reachable from the
  roots survives unchanged, what is not is freed, and which slots end on the free list. The
  young mark loop and the reaping of zombie threads are shown to go wrong on small states.\<close>

lemma gc_upd_heap: "gc_heap (s\<lparr>gc_freeList := fl\<rparr>) = gc_heap s"
  "gc_heapList (s\<lparr>gc_freeList := fl\<rparr>) = gc_heapList s" for s :: gc_state
  by simp_all

subsection \<open>Sweeping a list of slots\<close>

definition doomed :: "addr list \<Rightarrow> addr \<Rightarrow> obj \<Rightarrow> bool" where
  "doomed stackObjs p ob \<longleftrightarrow>
     o_body ob \<noteq> BNone \<and> \<not> is_dark ob \<and> \<not> is_hidden ob \<and> p \<notin> set stackObjs"

definition doomed_at :: "addr list \<Rightarrow> heap \<Rightarrow> addr \<Rightarrow> bool" where
  "doomed_at stackObjs h p = (case h p of Some ob \<Rightarrow> doomed stackObjs p ob | None \<Rightarrow> False)"

definition swept_obj :: "addr list \<Rightarrow> addr \<Rightarrow> obj \<Rightarrow> obj \<Rightarrow> bool" where
  "swept_obj stackObjs p ob ob' \<longleftrightarrow>
     (if doomed stackObjs p ob then o_body ob' = BNone
      else o_body ob' = o_body ob \<and> (o_body ob \<noteq> BNone \<longrightarrow> is_hidden ob' = is_hidden ob \<and> \<not> is_dark ob'))"

definition swept :: "addr list \<Rightarrow> addr list \<Rightarrow> heap \<Rightarrow> heap \<Rightarrow> bool" where
  "swept stackObjs ps h h' \<longleftrightarrow> (\<forall>q. q \<notin> set ps \<longrightarrow> h' q = h q) \<and>
     (\<forall>p\<in>set ps. \<exists>ob ob'. h p = Some ob \<and> h' p = Some ob' \<and> swept_obj stackObjs p ob ob')"

definition sweepable :: "addr list \<Rightarrow> addr list \<Rightarrow> heap \<Rightarrow> bool" where
  "sweepable stackObjs ps h \<longleftrightarrow> distinct ps \<and> NULL \<notin> set ps \<and>
     (\<forall>p\<in>set ps. \<exists>ob. h p = Some ob \<and> (doomed stackObjs p ob \<longrightarrow> free_asserts (o_body ob)))"

text \<open>The free list as a list of addresses.\<close>

fun chain :: "heap \<Rightarrow> addr \<Rightarrow> addr list \<Rightarrow> bool" where
  "chain h p [] \<longleftrightarrow> p = NULL"
| "chain h p (x # xs) \<longleftrightarrow> p = x \<and> p \<noteq> NULL \<and> (\<exists>ob. h x = Some ob \<and> chain h (o_nextFree ob) xs)"

lemma chain_cong: "(\<And>x. x \<in> set xs \<Longrightarrow> h' x = h x) \<Longrightarrow> chain h' p xs = chain h p xs"
  by (induction xs arbitrary: p) auto

lemma swept_append:
  assumes "swept st ps h h1" "swept st qs h1 h2" "set ps \<inter> set qs = {}"
  shows "swept st (ps @ qs) h h2"
  unfolding swept_def
proof (intro conjI allI impI ballI)
  fix q assume "q \<notin> set (ps @ qs)"
  then show "h2 q = h q" using assms(1,2) by (simp add: swept_def)
next
  fix p assume "p \<in> set (ps @ qs)"
  then consider "p \<in> set ps" "p \<notin> set qs" | "p \<in> set qs" "p \<notin> set ps" using assms(3) by auto
  then show "\<exists>ob ob'. h p = Some ob \<and> h2 p = Some ob' \<and> swept_obj st p ob ob'"
    by cases (use assms(1,2) in \<open>auto simp: swept_def\<close>)
qed

lemma sweep_slot_doomed:
  assumes "gc_heap s p = Some ob" "doomed st p ob" "free_asserts (o_body ob)"
  obtains s' ob' where "sweep_slot st p (s, fl, n) = Some (s', p, n + 2)"
    "gc_heap s' = (gc_heap s)(p \<mapsto> ob')" "o_body ob' = BNone" "o_nextFree ob' = fl"
    "gc_heapList s' = gc_heapList s" "gc_freeList s' = gc_freeList s"
proof -
  let ?ob = "ob\<lparr>o_nextFree := fl\<rparr>"
  have d: "o_body ob \<noteq> BNone" "\<not> is_dark ob" "\<not> is_hidden ob" "p \<notin> set st"
    using assms(2) by (auto simp: doomed_def)
  then obtain s1 where s1: "freeObject p (on_obj p (\<lambda>ob. ob\<lparr>o_nextFree := fl\<rparr>) s) = Some s1"
      "gc_heap s1 = (gc_heap s)(p \<mapsto> ?ob\<lparr>o_body := BNone\<rparr>)" "gc_heapList s1 = gc_heapList s"
      "gc_freeList s1 = gc_freeList s"
    using assms by (simp add: freeObject_def on_obj_def put_obj_def is_hidden_def Let_def)
  have "sweep_slot st p (s, fl, n) = Some (s1, p, n + 2)"
    using assms(1) d s1(1) by (simp add: sweep_slot_def free_slot_def)
  then show ?thesis using s1 by (intro that [of s1 "?ob\<lparr>o_body := BNone\<rparr>"]) auto
qed

lemma sweep_slot_kept:
  assumes "gc_heap s p = Some ob" "\<not> doomed st p ob"
    "o_body ob \<noteq> BNone \<Longrightarrow> p \<in> set st \<Longrightarrow> is_dark ob \<or> \<not> is_dark ob"
  obtains s' ob' where "sweep_slot st p (s, fl, n) = Some (s', fl, n)"
    "gc_heap s' = (gc_heap s)(p \<mapsto> ob')" "swept_obj st p ob ob'"
    "gc_heapList s' = gc_heapList s" "gc_freeList s' = gc_freeList s"
proof (cases "o_body ob \<noteq> BNone \<and> is_dark ob")
  case False
  then have "sweep_slot st p (s, fl, n) = Some (s, fl, n)"
    using assms by (auto simp: sweep_slot_def doomed_def)
  moreover have "swept_obj st p ob ob" using False assms(2) by (auto simp: swept_obj_def)
  ultimately show ?thesis using assms(1) by (intro that [of s ob]) (auto simp: fun_upd_idem)
next
  case True
  let ?s1 = "GCPromoteOnce p s"
  obtain g gs where s1: "?s1 = s\<lparr>gc_heap := (gc_heap s)(p \<mapsto> ob\<lparr>o_GCGen := g\<rparr>), gc_generations := gs\<rparr>"
  proof (cases "o_GCGen ob = GC_GEN_MAX")
    case True
    then show ?thesis using assms(1)
      by (intro that [of "gc_generations s" "o_GCGen ob"]) (simp add: GCPromoteOnce_def fun_upd_idem)
  next
    case False
    then show ?thesis using assms(1)
      by (intro that [of "move_gen (o_GCGen ob) (o_GCGen ob + 1) (gc_generations s)" "o_GCGen ob + 1"])
        (simp add: GCPromoteOnce_def put_obj_def)
  qed
  let ?ob' = "unset_dark (ob\<lparr>o_GCGen := g\<rparr>)"
  have "sweep_slot st p (s, fl, n) = Some (on_obj p unset_dark ?s1, fl, n)"
    using True assms(1) by (simp add: sweep_slot_def)
  moreover have "gc_heap (on_obj p unset_dark ?s1) = (gc_heap s)(p \<mapsto> ?ob')"
    unfolding s1 by (simp add: on_obj_def put_obj_def)
  moreover have "swept_obj st p ob ?ob'"
    using assms(2) True by (simp add: swept_obj_def unset_dark_def is_hidden_def is_dark_def)
  moreover have "gc_heapList (on_obj p unset_dark ?s1) = gc_heapList s"
    "gc_freeList (on_obj p unset_dark ?s1) = gc_freeList s"
    unfolding s1 by (simp_all add: on_obj_def put_obj_def)
  ultimately show ?thesis by (rule that)
qed

lemma swept_single:
  "h p = Some ob \<Longrightarrow> swept_obj st p ob ob' \<Longrightarrow> swept st [p] h (h(p \<mapsto> ob'))"
  by (simp add: swept_def)

lemma sweep_slots_spec:
  assumes "sweepable st ps (gc_heap s)" "chain (gc_heap s) fl rest" "set rest \<inter> set ps = {}"
  shows "\<exists>s' fl'. sweep_slots st ps (s, fl, n)
        = Some (s', fl', n + 2 * length (filter (doomed_at st (gc_heap s)) ps)) \<and>
      swept st ps (gc_heap s) (gc_heap s') \<and> gc_heapList s' = gc_heapList s \<and>
      chain (gc_heap s') fl' (rev (filter (doomed_at st (gc_heap s)) ps) @ rest)"
  using assms
proof (induction ps arbitrary: s fl n rest)
  case Nil
  then show ?case by (simp add: swept_def)
next
  case (Cons p ps)
  obtain ob where ob: "gc_heap s p = Some ob" "doomed st p ob \<Longrightarrow> free_asserts (o_body ob)"
    using Cons.prems(1) by (auto simp: sweepable_def)
  have pn: "p \<noteq> NULL" "p \<notin> set ps" "p \<notin> set rest"
    using Cons.prems(1,3) by (auto simp: sweepable_def)
  have step: ?case
    if s1: "sweep_slot st p (s, fl, n) = Some (s1, fl1, n + (if doomed st p ob then 2 else 0))"
      "gc_heap s1 = (gc_heap s)(p \<mapsto> ob')" "swept_obj st p ob ob'" "gc_heapList s1 = gc_heapList s"
      and c: "chain (gc_heap s1) fl1 ((if doomed st p ob then [p] else []) @ rest)" for s1 fl1 ob'
  proof -
    let ?rest = "(if doomed st p ob then [p] else []) @ rest"
    have other: "q \<in> set ps \<Longrightarrow> gc_heap s1 q = gc_heap s q" for q using s1(2) pn(2) by auto
    then have f: "filter (doomed_at st (gc_heap s1)) ps = filter (doomed_at st (gc_heap s)) ps"
      by (intro filter_cong refl) (simp add: doomed_at_def)
    have "sweepable st ps (gc_heap s1)"
      using Cons.prems(1) other by (simp add: sweepable_def)
    moreover have "set ?rest \<inter> set ps = {}" using Cons.prems(3) pn(2) by auto
    ultimately obtain s' fl' where s': "sweep_slots st ps (s1, fl1, n + (if doomed st p ob then 2 else 0))
        = Some (s', fl', n + (if doomed st p ob then 2 else 0) + 2 * length (filter (doomed_at st (gc_heap s)) ps))"
      "swept st ps (gc_heap s1) (gc_heap s')" "gc_heapList s' = gc_heapList s1"
      "chain (gc_heap s') fl' (rev (filter (doomed_at st (gc_heap s)) ps) @ ?rest)"
      using Cons.IH [OF _ c] unfolding f by blast
    have "swept st ([p] @ ps) (gc_heap s) (gc_heap s')"
      using swept_single [where h = "gc_heap s", OF ob(1) s1(3)] s'(2) pn(2) unfolding s1(2) [symmetric]
      by (intro swept_append) auto
    moreover have "doomed_at st (gc_heap s) p = doomed st p ob" using ob(1) by (simp add: doomed_at_def)
    ultimately show ?thesis using s1(1,4) s' by (intro exI [of _ s'] exI [of _ fl']) (auto split: if_splits)
  qed
  show ?case
  proof (cases "doomed st p ob")
    case True
    obtain s1 ob' where s1: "sweep_slot st p (s, fl, n) = Some (s1, p, n + 2)"
      "gc_heap s1 = (gc_heap s)(p \<mapsto> ob')" "o_body ob' = BNone" "o_nextFree ob' = fl"
      "gc_heapList s1 = gc_heapList s"
      using sweep_slot_doomed [OF ob(1) True ob(2) [OF True]] by metis
    have "x \<in> set rest \<Longrightarrow> gc_heap s1 x = gc_heap s x" for x using s1(2) pn(3) by auto
    then have "chain (gc_heap s1) fl rest"
      using Cons.prems(2) chain_cong [of rest "gc_heap s1" "gc_heap s"] by blast
    then have "chain (gc_heap s1) p ((if doomed st p ob then [p] else []) @ rest)"
      using True s1(2,4) pn(1) by simp
    then show ?thesis using True s1 by (intro step [of s1 p ob']) (auto simp: swept_obj_def)
  next
    case False
    obtain s1 ob' where s1: "sweep_slot st p (s, fl, n) = Some (s1, fl, n)"
      "gc_heap s1 = (gc_heap s)(p \<mapsto> ob')" "swept_obj st p ob ob'" "gc_heapList s1 = gc_heapList s"
      using sweep_slot_kept [OF ob(1) False] by metis
    have "x \<in> set rest \<Longrightarrow> gc_heap s1 x = gc_heap s x" for x using s1(2) pn(3) by auto
    then have "chain (gc_heap s1) fl rest"
      using Cons.prems(2) chain_cong [of rest "gc_heap s1" "gc_heap s"] by blast
    then show ?thesis using False s1 by (intro step [of s1 fl ob']) auto
  qed
qed

lemma sweepable_append:
  "sweepable st (ps @ qs) h \<Longrightarrow> sweepable st ps h \<and> sweepable st qs h \<and> set ps \<inter> set qs = {}"
  by (auto simp: sweepable_def)

lemma sweepable_swept:
  assumes "sweepable st qs h" "swept st ps h h'" "set ps \<inter> set qs = {}"
  shows "sweepable st qs h'" and "filter (doomed_at st h') qs = filter (doomed_at st h) qs"
proof -
  have "q \<in> set qs \<Longrightarrow> h' q = h q" for q using assms(2,3) by (auto simp: swept_def)
  then show "sweepable st qs h'" "filter (doomed_at st h') qs = filter (doomed_at st h) qs"
    using assms(1) by (auto simp: sweepable_def doomed_at_def intro!: filter_cong)
qed

lemma sweep_pages_spec:
  assumes "sweepable st (concat pages) (gc_heap s)" "chain (gc_heap s) (gc_freeList s) rest"
    "set rest \<inter> set (concat pages) = {}"
  shows "\<exists>s'. sweep_pages st pages s n
        = Some (s', n + 2 * length (filter (doomed_at st (gc_heap s)) (concat pages))) \<and>
      swept st (concat pages) (gc_heap s) (gc_heap s') \<and> gc_heapList s' = gc_heapList s \<and>
      chain (gc_heap s') (gc_freeList s')
        (rev (filter (doomed_at st (gc_heap s)) (concat pages)) @ rest)"
  using assms
proof (induction pages arbitrary: s n rest)
  case Nil
  then show ?case by (simp add: swept_def)
next
  case (Cons page pages)
  have sp: "sweepable st page (gc_heap s)" "sweepable st (concat pages) (gc_heap s)"
    "set page \<inter> set (concat pages) = {}"
    using sweepable_append [of st page "concat pages" "gc_heap s"] Cons.prems(1) by auto
  have "set rest \<inter> set page = {}" using Cons.prems(3) by auto
  from sweep_slots_spec [OF sp(1) Cons.prems(2) this, of n]
  obtain s1 fl where s1: "sweep_slots st page (s, gc_freeList s, n)
      = Some (s1, fl, n + 2 * length (filter (doomed_at st (gc_heap s)) page))"
    "swept st page (gc_heap s) (gc_heap s1)" "gc_heapList s1 = gc_heapList s"
    "chain (gc_heap s1) fl (rev (filter (doomed_at st (gc_heap s)) page) @ rest)"
    by blast
  let ?s1 = "s1\<lparr>gc_freeList := fl\<rparr>"
  note sw = sweepable_swept [OF sp(2) s1(2) sp(3)]
  have "chain (gc_heap ?s1) (gc_freeList ?s1) (rev (filter (doomed_at st (gc_heap s)) page) @ rest)"
    using s1(4) by simp
  moreover have "set (rev (filter (doomed_at st (gc_heap s)) page) @ rest) \<inter> set (concat pages) = {}"
    using Cons.prems(3) sp(3) by auto
  moreover have "sweepable st (concat pages) (gc_heap ?s1)" using sw(1) by simp
  ultimately obtain s' where s': "sweep_pages st pages ?s1
        (n + 2 * length (filter (doomed_at st (gc_heap s)) page)) =
        Some (s', n + 2 * length (filter (doomed_at st (gc_heap s)) page) +
                2 * length (filter (doomed_at st (gc_heap s)) (concat pages)))"
      "swept st (concat pages) (gc_heap s1) (gc_heap s')" "gc_heapList s' = gc_heapList s1"
      "chain (gc_heap s') (gc_freeList s') (rev (filter (doomed_at st (gc_heap s)) (concat pages)) @
        rev (filter (doomed_at st (gc_heap s)) page) @ rest)"
    using Cons.IH [of ?s1 "rev (filter (doomed_at st (gc_heap s)) page) @ rest"
        "n + 2 * length (filter (doomed_at st (gc_heap s)) page)"]
    unfolding gc_upd_heap sw(2) by auto
  have "swept st (page @ concat pages) (gc_heap s) (gc_heap s')"
    by (rule swept_append [OF s1(2) s'(2) sp(3)])
  then show ?case using s1(1,3) s' by (intro exI [of _ s']) simp
qed

subsection \<open>Adding a page\<close>

lemma addHeap_spec:
  assumes "NULL \<notin> set page" "distinct page" "chain (gc_heap s) (gc_freeList s) rest"
    "set rest \<inter> set page = {}"
  shows "chain (gc_heap (addHeap junk page s)) (gc_freeList (addHeap junk page s)) (rev page @ rest)"
    and "q \<notin> set page \<Longrightarrow> gc_heap (addHeap junk page s) q = gc_heap s q"
    and "q \<in> set page \<Longrightarrow> \<exists>ob. gc_heap (addHeap junk page s) q = Some ob \<and> o_body ob = BNone"
proof -
  let ?step = "add_slot junk"
  have "chain (gc_heap (fold ?step page t)) (gc_freeList (fold ?step page t)) (rev page @ rest) \<and>
    (\<forall>q. q \<notin> set page \<longrightarrow> gc_heap (fold ?step page t) q = gc_heap t q) \<and>
    (\<forall>q\<in>set page. \<exists>ob. gc_heap (fold ?step page t) q = Some ob \<and> o_body ob = BNone)"
    if "chain (gc_heap t) (gc_freeList t) rest" "set rest \<inter> set page = {}" for t rest
    using assms(1,2) that
  proof (induction page arbitrary: t rest)
    case (Cons p page)
    have st: "gc_heap (?step p t) = (gc_heap t)(p \<mapsto> (junk p)\<lparr>o_body := BNone, o_nextFree := gc_freeList t\<rparr>)"
      "gc_freeList (?step p t) = p"
      by (simp_all add: add_slot_def put_obj_def)
    have "x \<in> set rest \<Longrightarrow> gc_heap (?step p t) x = gc_heap t x" for x using st(1) Cons.prems(4) by auto
    then have "chain (gc_heap (?step p t)) (gc_freeList t) rest"
      using Cons.prems(3) chain_cong [of rest "gc_heap (?step p t)" "gc_heap t"] by blast
    then have "chain (gc_heap (?step p t)) (gc_freeList (?step p t)) (p # rest)"
      using Cons.prems(1) st by simp
    moreover have "set (p # rest) \<inter> set page = {}" using Cons.prems(2,4) by auto
    ultimately have IH: "chain (gc_heap (fold ?step page (?step p t)))
        (gc_freeList (fold ?step page (?step p t))) (rev page @ p # rest)"
      "\<forall>q. q \<notin> set page \<longrightarrow> gc_heap (fold ?step page (?step p t)) q = gc_heap (?step p t) q"
      "\<forall>q\<in>set page. \<exists>ob. gc_heap (fold ?step page (?step p t)) q = Some ob \<and> o_body ob = BNone"
      using Cons.IH [of "?step p t" "p # rest"] Cons.prems(1,2) by auto
    then show ?case using st(1) Cons.prems(2) by auto
  qed simp
  from this [of "s\<lparr>gc_heapList := gc_heapList s @ [page]\<rparr>" rest] assms(3,4)
  show "chain (gc_heap (addHeap junk page s)) (gc_freeList (addHeap junk page s)) (rev page @ rest)"
    and "q \<notin> set page \<Longrightarrow> gc_heap (addHeap junk page s) q = gc_heap s q"
    and "q \<in> set page \<Longrightarrow> \<exists>ob. gc_heap (addHeap junk page s) q = Some ob \<and> o_body ob = BNone"
    by (auto simp: addHeap_def)
qed

subsection \<open>The full collection\<close>

text \<open>What a full collection starts from: a well-formed heap, collection switched on, no active
  finalizer, every hidden object really hidden, every object in a state freeObject accepts, and
  a fresh page at hand in case one is added.\<close>

definition full_gc_ready :: "addr list \<Rightarrow> gc_state \<Rightarrow> bool" where
  "full_gc_ready page s \<longleftrightarrow> gc_wf s \<and> gc_GCOn s \<and> gc_activeFinalizers s = 0 \<and>
     (\<forall>p\<in>set (gc_hiddenObjs s). \<exists>ob. gc_heap s p = Some ob \<and> is_hidden ob) \<and>
     (\<forall>p ob. gc_heap s p = Some ob \<longrightarrow> o_body ob \<noteq> BNone \<longrightarrow> free_asserts (o_body ob)) \<and>
     distinct page \<and> NULL \<notin> set page \<and> set page \<inter> set (all_slots s) = {}"

lemma heap_view_obj:
  assumes "heap_view s = heap_view t" "gc_heap s p = Some ob"
  obtains ob' where "gc_heap t p = Some ob'" "o_body ob' = o_body ob" "is_hidden ob' = is_hidden ob"
proof -
  have "heap_view s p = heap_view t p" using assms(1) by simp
  then obtain ob' where "gc_heap t p = Some ob'" "obj_view ob = obj_view ob'"
    using assms(2) by (cases "gc_heap t p") (auto simp: heap_view_def)
  moreover from this have "unset_flag (o_flags ob') OBJ_FLAG_DARK = unset_flag (o_flags ob) OBJ_FLAG_DARK"
    by (simp add: obj_view_def)
  then have "is_hidden ob' = is_hidden ob"
    unfolding is_hidden_def using dark_flag_simps(5) by metis
  ultimately show ?thesis using that by (simp add: obj_view_def)
qed

text \<open>The state between the mark and the sweep, and the outcome of the sweep.\<close>

lemma full_collection_outcome:
  assumes "full_gc_ready page s" "reap_zombies (vm_threads v) = Some threads"
  defines "live \<equiv> reachable s (set (full_roots v threads (gc_hiddenObjs s)))"
  defines "dead \<equiv> filter (\<lambda>p. case gc_heap s p of None \<Rightarrow> False | Some ob \<Rightarrow>
      o_body ob \<noteq> BNone \<and> p \<notin> live \<and> \<not> is_hidden ob \<and> p \<notin> set (stack_objs v)) (all_slots s)"
  shows "\<exists>s'. collectGarbage run junk page v s = Some (v\<lparr>vm_threads := threads\<rparr>, s') \<and>
    (\<forall>p ob. gc_heap s p = Some ob \<longrightarrow> (\<exists>ob'. gc_heap s' p = Some ob' \<and>
       o_body ob' = (if p \<in> set dead then BNone else o_body ob) \<and>
       (o_body ob' \<noteq> BNone \<longrightarrow> \<not> is_dark ob' \<and> is_hidden ob' = is_hidden ob))) \<and>
    chain (gc_heap s') (gc_freeList s')
      ((if 2 * length dead < FREE_MIN then rev page else []) @ rev dead)"
proof -
  have wf: "gc_wf s" "gc_GCOn s" "gc_activeFinalizers s = 0" "distinct page" "NULL \<notin> set page"
    "set page \<inter> set (all_slots s) = {}"
    and hid: "\<forall>p\<in>set (gc_hiddenObjs s). \<exists>ob. gc_heap s p = Some ob \<and> is_hidden ob"
    and fa: "\<forall>p ob. gc_heap s p = Some ob \<longrightarrow> o_body ob \<noteq> BNone \<longrightarrow> free_asserts (o_body ob)"
    using assms(1) by (auto simp: full_gc_ready_def)
  have w: "gc_grayStack s = []" "\<not> gc_inGC s" "distinct (all_slots s)" "NULL \<notin> set (all_slots s)"
    "\<forall>p. gc_heap s p \<noteq> None \<longleftrightarrow> p \<in> set (all_slots s)"
    using wf(1) by (auto simp: gc_wf_def)
  let ?roots = "full_roots v threads (gc_hiddenObjs s)" and ?st = "stack_objs v"
  obtain s2 where s2: "mark_all (gray_all ?roots (s\<lparr>gc_inGC := True\<rparr>)) = Some s2"
    "gc_view s2 = gc_view s" "gc_dark s2 = live"
    using mark_all_spec [OF wf(1), of ?roots] unfolding live_def by blast
  have hv: "heap_view s2 = heap_view s" by (rule gc_view_heap [OF s2(2)])
  have sl: "gc_heapList s2 = gc_heapList s" "gc_activeFinalizers s2 = 0"
    using s2(2) wf(3) by (auto simp: gc_view_def)
  let ?s3 = "s2\<lparr>gc_freeList := NULL\<rparr>"
  have slot: "\<exists>ob2. gc_heap s2 p = Some ob2 \<and> o_body ob2 = o_body ob \<and> is_hidden ob2 = is_hidden ob \<and>
      (is_dark ob2 \<longleftrightarrow> p \<in> live)" if a: "gc_heap s p = Some ob" for p ob
  proof -
    obtain ob2 where "gc_heap s2 p = Some ob2" "o_body ob2 = o_body ob" "is_hidden ob2 = is_hidden ob"
      using heap_view_obj [OF hv [symmetric] a] by blast
    moreover from this have "is_dark ob2 \<longleftrightarrow> p \<in> gc_dark s2" by (simp add: gc_dark_def)
    ultimately show ?thesis using s2(3) by auto
  qed
  have doomed: "doomed_at ?st (gc_heap s2) p \<longleftrightarrow> p \<in> set dead" if p: "p \<in> set (all_slots s)" for p
  proof -
    obtain ob where ob: "gc_heap s p = Some ob" using w(5) p by blast
    then obtain ob2 where "gc_heap s2 p = Some ob2" "o_body ob2 = o_body ob" "is_hidden ob2 = is_hidden ob"
      "is_dark ob2 \<longleftrightarrow> p \<in> live" using slot by blast
    then show ?thesis using ob p by (auto simp: doomed_at_def doomed_def dead_def)
  qed
  have filt: "filter (doomed_at ?st (gc_heap s2)) (all_slots s) = dead"
  proof -
    have "filter (doomed_at ?st (gc_heap s2)) (all_slots s) = filter (\<lambda>p. p \<in> set dead) (all_slots s)"
      using doomed by (intro filter_cong) auto
    also have "\<dots> = dead" unfolding dead_def by (intro filter_cong) auto
    finally show ?thesis .
  qed
  have "sweepable ?st (concat (gc_heapList s2)) (gc_heap ?s3)"
    unfolding sweepable_def
  proof (intro conjI ballI)
    show "distinct (concat (gc_heapList s2))" "NULL \<notin> set (concat (gc_heapList s2))"
      using w(3,4) by (simp_all add: sl all_slots_def)
    fix p assume "p \<in> set (concat (gc_heapList s2))"
    then have "p \<in> set (all_slots s)" by (simp add: sl all_slots_def)
    then obtain ob where ob: "gc_heap s p = Some ob" using w(5) by blast
    then obtain ob2 where "gc_heap s2 p = Some ob2" "o_body ob2 = o_body ob" using slot by blast
    then show "\<exists>ob. gc_heap ?s3 p = Some ob \<and> (doomed ?st p ob \<longrightarrow> free_asserts (o_body ob))"
      using fa ob by (auto simp: doomed_def)
  qed
  then obtain s4 where s4: "sweep_pages ?st (gc_heapList s2) ?s3 0 = Some (s4, 2 * length dead)"
    "swept ?st (all_slots s) (gc_heap s2) (gc_heap s4)"
    "chain (gc_heap s4) (gc_freeList s4) (rev dead)"
    using sweep_pages_spec [of ?st "gc_heapList s2" ?s3 "[]" 0] filt
    by (auto simp: sl all_slots_def)
  define s5 where "s5 = (if 2 * length dead < FREE_MIN then addHeap junk page s4 else s4)"
  have fs: "full_sweep run junk page ?st s2 = Some s5"
    using s4(1) sl by (simp add: full_sweep_def finalize_phase_def s5_def)
  have disj: "set (rev dead) \<inter> set page = {}" using wf(6) by (auto simp: dead_def)
  note ah = addHeap_spec [where junk = junk, OF wf(5,4) s4(3) disj]
  have c5: "chain (gc_heap s5) (gc_freeList s5)
      ((if 2 * length dead < FREE_MIN then rev page else []) @ rev dead)"
    using ah(1) s4(3) by (simp add: s5_def)
  have obj: "\<exists>ob'. gc_heap s5 p = Some ob' \<and> o_body ob' = (if p \<in> set dead then BNone else o_body ob) \<and>
       (o_body ob' \<noteq> BNone \<longrightarrow> \<not> is_dark ob' \<and> is_hidden ob' = is_hidden ob)"
    if ob: "gc_heap s p = Some ob" for p ob
  proof -
    have p: "p \<in> set (all_slots s)" using w(5) ob by auto
    obtain ob2 where ob2: "gc_heap s2 p = Some ob2" "o_body ob2 = o_body ob" "is_hidden ob2 = is_hidden ob"
      using slot [OF ob] by blast
    obtain ob4 where ob4: "gc_heap s4 p = Some ob4" "swept_obj ?st p ob2 ob4"
      using s4(2) p ob2(1) by (auto simp: swept_def)
    have "gc_heap s5 p = Some ob4" using ob4(1) ah(2) [of p] wf(6) p by (auto simp: s5_def)
    moreover have "doomed ?st p ob2 \<longleftrightarrow> p \<in> set dead"
      using doomed [OF p] ob2(1) by (simp add: doomed_at_def)
    ultimately show ?thesis using ob4(2) ob2 by (auto simp: swept_obj_def)
  qed
  have "collectGarbage run junk page v s = Some (v\<lparr>vm_threads := threads\<rparr>,
      s5\<lparr>gc_rememberSet := [], gc_youngStack := [], gc_inGC := False, gc_grayStack := []\<rparr>)"
    using w(1,2) wf(2) hid assms(2) s2(1) fs by (simp add: collectGarbage_def)
  then show ?thesis using obj c5
    by (intro exI [of _ "s5\<lparr>gc_rememberSet := [], gc_youngStack := [], gc_inGC := False, gc_grayStack := []\<rparr>"])
      simp
qed

subsection \<open>Two small heaps\<close>

text \<open>In the first heap the handler object 1 refers to 2, and 3 is garbage; slot 4 is free. In the
  second one all of 1, 2 and 3 hang in a chain from the handler.\<close>

definition demo_obj :: "obj_body \<Rightarrow> addr \<Rightarrow> obj" where
  "demo_obj b nxt = \<lparr>o_flags = 0, o_nextFree = nxt, o_objectId = 0, o_GCGen = 0, o_body = b\<rparr>"

definition demo_table :: table where "demo_table = initTable"

definition demo_vm :: vm_state where
  "demo_vm = \<lparr>vm_threads = [], vm_loadedScripts = [], vm_globals = demo_table,
     vm_constants = demo_table, vm_strings = demo_table, vm_regexLiterals = demo_table,
     vm_autoloadTbl = demo_table, vm_compilerRoots = [], vm_initString = 0, vm_fileString = 0,
     vm_dirString = 0, vm_sigHandlers = [1], vm_printBuf = 0, vm_exitHandlers = []\<rparr>"

definition demo_state :: "heap \<Rightarrow> addr list \<Rightarrow> addr \<Rightarrow> gc_state" where
  "demo_state h page free = \<lparr>gc_heap = h, gc_grayStack = [], gc_grayCapacity = 8,
     gc_inYoungGC = False, gc_inGC = False, gc_GCOn = True, gc_generations = [4, 0, 0, 0, 0],
     gc_freeList = free, gc_heapList = [page], gc_youngStack = filter (\<lambda>p. p \<noteq> 4) page,
     gc_rememberSet = [], gc_hiddenObjs = [], gc_activeFinalizers = 0\<rparr>"

definition demo_heap :: heap where
  "demo_heap = [1 \<mapsto> demo_obj (BBoundMethod NIL_VAL 2) 0, 2 \<mapsto> demo_obj (BBoundMethod NIL_VAL 0) 0,
     3 \<mapsto> demo_obj (BBoundMethod NIL_VAL 0) 0, 4 \<mapsto> demo_obj BNone 0]"

definition chain_heap :: heap where
  "chain_heap = [1 \<mapsto> demo_obj (BBoundMethod NIL_VAL 2) 0, 2 \<mapsto> demo_obj (BBoundMethod NIL_VAL 3) 0,
     3 \<mapsto> demo_obj (BBoundMethod NIL_VAL 0) 0]"

definition demo_thread :: "thread_status \<Rightarrow> addr \<Rightarrow> lx_thread" where
  "demo_thread st p = \<lparr>th_obj = p, th_status = st, th_joined = True, th_detached = False,
     th_thisObj = 0, th_lastValue = None, th_tlsMap = 0, th_lastErrorThrown = NIL_VAL, th_ecs = [],
     th_blockStack = [], th_stackObjects = [], th_openUpvalues = []\<rparr>"

abbreviation "demo_run \<equiv> (\<lambda>(_ :: addr) (s :: gc_state). s)"
abbreviation "demo_junk \<equiv> (\<lambda>(_ :: addr). demo_obj BNone 0)"
abbreviation "demo_gc \<equiv> demo_state demo_heap [1, 2, 3, 4] 4"
abbreviation "chain_gc \<equiv> demo_state chain_heap [1, 2, 3] 0"

lemma demo_flags [simp]:
  "\<not> is_dark (demo_obj b n)" "\<not> is_hidden (demo_obj b n)" "is_young_obj (demo_obj b n)"
  "o_body (demo_obj b n) = b"
  by (simp_all add: demo_obj_def is_dark_def is_hidden_def has_flag_def is_young_obj_def GC_GEN_MIN_def)

lemma demo_ready: "full_gc_ready [9] demo_gc"
proof -
  have "demo_heap p \<noteq> None \<longleftrightarrow> p \<in> {1, 2, 3, 4}" for p by (auto simp: demo_heap_def)
  moreover have "demo_heap p = Some ob \<Longrightarrow> \<not> is_dark ob \<and> free_asserts (o_body ob)" for p ob
    by (auto simp: demo_heap_def free_asserts_def split: if_splits)
  ultimately show ?thesis
    by (auto simp: full_gc_ready_def gc_wf_def demo_state_def all_slots_def gc_dark_def)
qed

lemma demo_reap: "reap_zombies (vm_threads demo_vm) = Some []"
  by (simp add: demo_vm_def reap_zombies_def zombie_indexes_def)

lemma table_refs_demo: "table_refs demo_table = []"
  by (simp add: table_refs_def demo_table_def initTable_def)

lemma demo_full_roots:
  "set (full_roots demo_vm [] (gc_hiddenObjs demo_gc)) \<inter> gc_nodes demo_gc = {1}"
proof -
  have n: "gc_nodes demo_gc = {1, 2, 3, 4}"
    by (auto simp: gc_nodes_def demo_state_def demo_heap_def)
  have "set (full_roots demo_vm [] (gc_hiddenObjs demo_gc)) \<subseteq> {0, 1}"
    "1 \<in> set (full_roots demo_vm [] (gc_hiddenObjs demo_gc))"
    by (simp_all add: full_roots_def demo_vm_def table_refs_demo value_refs_def demo_state_def)
  then show ?thesis unfolding n by auto
qed

lemma demo_reachable:
  "reachable demo_gc (set (full_roots demo_vm [] (gc_hiddenObjs demo_gc))) \<subseteq> {1, 2}"
proof (rule reachable_least)
  show "set (full_roots demo_vm [] (gc_hiddenObjs demo_gc)) \<inter> gc_nodes demo_gc \<subseteq> {1, 2}"
    using demo_full_roots by simp
next
  fix p assume "p \<in> {1, 2 :: addr}"
  then show "set (succs demo_gc p) \<inter> gc_nodes demo_gc \<subseteq> {1, 2}"
    by (auto simp: succs_def obj_refs_def demo_state_def demo_heap_def value_refs_def gc_nodes_def)
qed

lemma young_roots_demo: "young_roots demo_vm = [1, 0]"
  by (simp add: young_roots_def demo_vm_def table_refs_demo value_refs_def)

lemma chain_reachable: "3 \<in> reachable chain_gc (set (young_roots demo_vm))"
proof -
  have "(1, 2) \<in> edges chain_gc" "(2, 3) \<in> edges chain_gc"
    by (simp_all add: edges_def succs_def obj_refs_def gc_nodes_def demo_state_def chain_heap_def)
  then have "(1, 3) \<in> (edges chain_gc)\<^sup>*" by (meson converse_rtrancl_into_rtrancl rtrancl.rtrancl_refl)
  moreover have "1 \<in> gc_nodes chain_gc" by (simp add: gc_nodes_def demo_state_def chain_heap_def)
  ultimately show ?thesis by (auto simp: reachable_def young_roots_demo)
qed

lemma chain_collect_run:
  "(case collectYoungGarbage demo_vm chain_gc of None \<Rightarrow> False | Some s' \<Rightarrow>
     map_option o_body (gc_heap s' 2) = Some (BBoundMethod NIL_VAL 3) \<and>
     map_option o_body (gc_heap s' 3) = Some BNone)"
  by code_simp

lemma chain_collect:
  "\<exists>s' ob2 ob3. collectYoungGarbage demo_vm chain_gc = Some s' \<and>
     gc_heap s' 2 = Some ob2 \<and> o_body ob2 = BBoundMethod NIL_VAL 3 \<and>
     gc_heap s' 3 = Some ob3 \<and> o_body ob3 = BNone"
  using chain_collect_run by (auto split: option.splits)

subsection \<open>Properties of the collector\<close>

text \<open>C1: safety and completeness of the full collection. From a well-formed heap it never fails
  an assertion, its mark loop ends, and every object keeps its body when it is reachable from
  the roots, hidden or on a thread's stack of new objects, while every other object is freed.\<close>

theorem full_gc_keeps_exactly_live:
  assumes "full_gc_ready page s" "reap_zombies (vm_threads v) = Some threads"
    "gc_heap s p = Some ob"
  shows "\<exists>s' ob'. collectGarbage run junk page v s = Some (v\<lparr>vm_threads := threads\<rparr>, s') \<and>
    gc_heap s' p = Some ob' \<and>
    o_body ob' = (if p \<in> reachable s (set (full_roots v threads (gc_hiddenObjs s))) \<or>
      is_hidden ob \<or> p \<in> set (stack_objs v) then o_body ob else BNone)"
proof -
  have p: "p \<in> set (all_slots s)" using assms(1,3) by (auto simp: full_gc_ready_def gc_wf_def)
  let ?live = "reachable s (set (full_roots v threads (gc_hiddenObjs s)))"
  let ?dead = "filter (\<lambda>p. case gc_heap s p of None \<Rightarrow> False | Some ob \<Rightarrow> o_body ob \<noteq> BNone \<and>
      p \<notin> ?live \<and> \<not> is_hidden ob \<and> p \<notin> set (stack_objs v)) (all_slots s)"
  obtain s' where s': "collectGarbage run junk page v s = Some (v\<lparr>vm_threads := threads\<rparr>, s')"
    "\<forall>p ob. gc_heap s p = Some ob \<longrightarrow> (\<exists>ob'. gc_heap s' p = Some ob' \<and>
       o_body ob' = (if p \<in> set ?dead then BNone else o_body ob) \<and>
       (o_body ob' \<noteq> BNone \<longrightarrow> \<not> is_dark ob' \<and> is_hidden ob' = is_hidden ob))"
    using full_collection_outcome [OF assms(1,2)] by blast
  obtain ob' where ob': "gc_heap s' p = Some ob'"
    "o_body ob' = (if p \<in> set ?dead then BNone else o_body ob)"
    using s'(2) assms(3) by blast
  have "p \<in> set ?dead \<longleftrightarrow> o_body ob \<noteq> BNone \<and> p \<notin> ?live \<and> \<not> is_hidden ob \<and> p \<notin> set (stack_objs v)"
    using p assms(3) by simp
  then have "o_body ob' = (if p \<in> ?live \<or> is_hidden ob \<or> p \<in> set (stack_objs v) then o_body ob else BNone)"
    using ob'(2) by auto
  then show ?thesis using s'(1) ob'(1) by blast
qed

theorem full_gc_keeps_exactly_live_witness:
  "(\<exists>s' ob'. collectGarbage demo_run demo_junk [9] demo_vm demo_gc = Some (demo_vm\<lparr>vm_threads := []\<rparr>, s') \<and>
     gc_heap s' 1 = Some ob' \<and> o_body ob' = BBoundMethod NIL_VAL 2) \<and>
   (\<exists>s' ob'. collectGarbage demo_run demo_junk [9] demo_vm demo_gc = Some (demo_vm\<lparr>vm_threads := []\<rparr>, s') \<and>
     gc_heap s' 3 = Some ob' \<and> o_body ob' = BNone)"
proof -
  have h: "gc_heap demo_gc 1 = Some (demo_obj (BBoundMethod NIL_VAL 2) 0)"
    "gc_heap demo_gc 3 = Some (demo_obj (BBoundMethod NIL_VAL 0) 0)"
    by (simp_all add: demo_state_def demo_heap_def)
  have "1 \<in> reachable demo_gc (set (full_roots demo_vm [] (gc_hiddenObjs demo_gc)))"
    using demo_full_roots by (auto simp: reachable_def)
  moreover have "3 \<notin> reachable demo_gc (set (full_roots demo_vm [] (gc_hiddenObjs demo_gc)))"
    using demo_reachable by auto
  moreover have "stack_objs demo_vm = []" by (simp add: stack_objs_def demo_vm_def)
  ultimately show ?thesis
    using full_gc_keeps_exactly_live [OF demo_ready demo_reap h(1), of demo_run demo_junk]
      full_gc_keeps_exactly_live [OF demo_ready demo_reap h(2), of demo_run demo_junk] by simp
qed

text \<open>C21: the free list after a full collection holds exactly the slots freed in this very
  collection and, when fewer than 250 were freed, a fresh page: a slot that was free before the
  collection is never on it, so the full collection loses all the free memory it started with.\<close>

theorem full_gc_drops_free_slots:
  assumes "full_gc_ready page s" "reap_zombies (vm_threads v) = Some threads"
    "gc_heap s p = Some ob" "o_body ob = BNone"
  shows "\<exists>s' fl ob'. collectGarbage run junk page v s = Some (v\<lparr>vm_threads := threads\<rparr>, s') \<and>
    chain (gc_heap s') (gc_freeList s') fl \<and> p \<notin> set fl \<and>
    gc_heap s' p = Some ob' \<and> o_body ob' = BNone"
proof -
  have p: "p \<in> set (all_slots s)" "p \<notin> set page"
    using assms(1,3) by (auto simp: full_gc_ready_def gc_wf_def)
  let ?live = "reachable s (set (full_roots v threads (gc_hiddenObjs s)))"
  let ?dead = "filter (\<lambda>p. case gc_heap s p of None \<Rightarrow> False | Some ob \<Rightarrow> o_body ob \<noteq> BNone \<and>
      p \<notin> ?live \<and> \<not> is_hidden ob \<and> p \<notin> set (stack_objs v)) (all_slots s)"
  let ?fl = "(if 2 * length ?dead < FREE_MIN then rev page else []) @ rev ?dead"
  obtain s' where s': "collectGarbage run junk page v s = Some (v\<lparr>vm_threads := threads\<rparr>, s')"
    "\<forall>p ob. gc_heap s p = Some ob \<longrightarrow> (\<exists>ob'. gc_heap s' p = Some ob' \<and>
       o_body ob' = (if p \<in> set ?dead then BNone else o_body ob) \<and>
       (o_body ob' \<noteq> BNone \<longrightarrow> \<not> is_dark ob' \<and> is_hidden ob' = is_hidden ob))"
    "chain (gc_heap s') (gc_freeList s') ?fl"
    using full_collection_outcome [OF assms(1,2)] by blast
  have "p \<notin> set ?dead" using assms(3,4) by simp
  then have nin: "p \<notin> set ?fl" using p(2) by simp
  obtain ob' where "gc_heap s' p = Some ob'" "o_body ob' = BNone"
    using s'(2) assms(3,4) by fastforce
  then show ?thesis using s'(1,3) nin by blast
qed

theorem full_gc_drops_free_slots_witness:
  "gc_freeList demo_gc = 4 \<and> (\<exists>s' fl ob'.
     collectGarbage demo_run demo_junk [9] demo_vm demo_gc = Some (demo_vm\<lparr>vm_threads := []\<rparr>, s') \<and>
     chain (gc_heap s') (gc_freeList s') fl \<and> 4 \<notin> set fl \<and> gc_heap s' 4 = Some ob' \<and> o_body ob' = BNone)"
proof -
  have "gc_heap demo_gc 4 = Some (demo_obj BNone 0)" by (simp add: demo_state_def demo_heap_def)
  from full_gc_drops_free_slots [OF demo_ready demo_reap this, of demo_run demo_junk]
  show ?thesis by (simp add: demo_state_def)
qed


text \<open>C23: reaping zombie threads splices the thread vector at indexes noted before the first
  splice. With two dead zombies in front of a running thread the running thread is dropped, and
  a dead zombie stays.\<close>

theorem reap_zombies_drops_live_thread:
  assumes "dead_zombie z1" "dead_zombie z2" "\<not> dead_zombie t"
  shows "reap_zombies [z1, z2, t] = Some [z2]"
  using assms by (simp add: reap_zombies_def zombie_indexes_def splice1_def upt_rec)

theorem reap_zombies_drops_live_thread_witness:
  "reap_zombies [demo_thread THREAD_ZOMBIE 1, demo_thread THREAD_ZOMBIE 2, demo_thread THREAD_RUNNING 3]
     = Some [demo_thread THREAD_ZOMBIE 2]"
  by (rule reap_zombies_drops_live_thread) (simp_all add: dead_zombie_def is_zombie_def demo_thread_def)

end
