(* ===== verification/Clox_Scanner.thy ===== *)
theory Clox_Scanner
  imports Clox_Prelude
begin

text \<open>The scanner (scanner.c, scanner.h). A source is the list of its bytes without the final NUL;
  reading at its end gives the NUL. The function that fetches more source (the prompt of the
  interpreter sets one, files have none) is an argument that maps the old source to the new one,
  the identity when there is none. A result None of a loop means that it does not end, which only
  such a function can bring about; undefined behaviour and failed assertions are errors.\<close>

subsection \<open>Characters\<close>

abbreviation ch :: "char \<Rightarrow> u8" where "ch c \<equiv> of_char c"

definition ascii :: "string \<Rightarrow> bytes" where
  "ascii s = map of_char s"

definition isAlpha :: "u8 \<Rightarrow> bool" where
  "isAlpha c \<longleftrightarrow> (c \<ge> ch CHR ''a'' \<and> c \<le> ch CHR ''z'') \<or> (c \<ge> ch CHR ''A'' \<and> c \<le> ch CHR ''Z'') \<or>
     c = ch CHR ''_''"
definition isDigit :: "u8 \<Rightarrow> bool" where
  "isDigit c \<longleftrightarrow> c \<ge> ch CHR ''0'' \<and> c \<le> ch CHR ''9''"
definition isHex :: "u8 \<Rightarrow> bool" where
  "isHex c \<longleftrightarrow> (c \<ge> ch CHR ''0'' \<and> c \<le> ch CHR ''9'') \<or> (c \<ge> ch CHR ''a'' \<and> c \<le> ch CHR ''f'') \<or>
     (c \<ge> ch CHR ''A'' \<and> c \<le> ch CHR ''F'')"
definition isBinary :: "u8 \<Rightarrow> bool" where
  "isBinary c \<longleftrightarrow> c = ch CHR ''0'' \<or> c = ch CHR ''1''"
definition isOct :: "u8 \<Rightarrow> bool" where
  "isOct c \<longleftrightarrow> c \<ge> ch CHR ''0'' \<and> c \<le> ch CHR ''7''"
definition isAlphaNumeric :: "u8 \<Rightarrow> bool" where
  "isAlphaNumeric c \<longleftrightarrow> isAlpha c \<or> isDigit c"

definition nl :: u8 where "nl = 10"
definition cr :: u8 where "cr = 13"
definition tab :: u8 where "tab = 9"
definition bslash :: u8 where "bslash = 92"
definition dquote :: u8 where "dquote = 34"
definition squote :: u8 where "squote = 39"

subsection \<open>Tokens and the scanner state\<close>

datatype (plugins only: code) token_type = TOKEN_EMPTY | TOKEN_LEFT_PAREN | TOKEN_RIGHT_PAREN | TOKEN_LEFT_BRACE
  | TOKEN_RIGHT_BRACE | TOKEN_LEFT_BRACKET | TOKEN_RIGHT_BRACKET | TOKEN_BANG | TOKEN_BANG_EQUAL
  | TOKEN_COMMA | TOKEN_DOT | TOKEN_EQUAL | TOKEN_EQUAL_EQUAL | TOKEN_GREATER | TOKEN_GREATER_EQUAL
  | TOKEN_LESS | TOKEN_LESS_EQUAL | TOKEN_MINUS | TOKEN_PLUS | TOKEN_SEMICOLON | TOKEN_COLON
  | TOKEN_SLASH | TOKEN_PERCENT | TOKEN_STAR | TOKEN_PIPE | TOKEN_AMP | TOKEN_CARET | TOKEN_SHOVEL_L
  | TOKEN_SHOVEL_R | TOKEN_ARROW | TOKEN_DICE | TOKEN_IDENTIFIER | TOKEN_STRING_SQUOTE
  | TOKEN_STRING_DQUOTE | TOKEN_STRING_STATIC | TOKEN_NUMBER | TOKEN_AND | TOKEN_CLASS | TOKEN_MODULE
  | TOKEN_ELSE | TOKEN_FALSE | TOKEN_FUN | TOKEN_FOR | TOKEN_TRY | TOKEN_CATCH | TOKEN_THROW
  | TOKEN_ENSURE | TOKEN_IF | TOKEN_NIL | TOKEN_OR | TOKEN_PRINT | TOKEN_RETURN | TOKEN_SUPER
  | TOKEN_THIS | TOKEN_TRUE | TOKEN_VAR | TOKEN_WHILE | TOKEN_CONTINUE | TOKEN_BREAK | TOKEN_IN
  | TOKEN_FOREACH | TOKEN_END_SCRIPT | TOKEN_ERROR | TOKEN_EOF

record token =
  tk_type :: token_type
  tk_startIdx :: nat
  tk_length :: int
  tk_lexeme :: "bytes option"
  tk_line :: int
  tk_alloced :: bool

record scanner =
  sc_source :: bytes
  sc_tokenStartIdx :: nat
  sc_currentIndex :: nat
  sc_line :: int
  sc_indent :: int
  sc_scriptEnded :: bool
  sc_afterDot :: bool

datatype scan_error = OutOfBounds | AssertionFailed

type_synonym scan_result = "(scan_error + token \<times> scanner) option"

definition initScanner :: "bytes \<Rightarrow> scanner" where
  "initScanner src = \<lparr>sc_source = src, sc_tokenStartIdx = 0, sc_currentIndex = 0, sc_line = 1,
     sc_indent = 0, sc_scriptEnded = False, sc_afterDot = False\<rparr>"

definition resetScanner :: "scanner \<Rightarrow> scanner" where
  "resetScanner s = s\<lparr>sc_tokenStartIdx := 0, sc_currentIndex := 0, sc_line := 1, sc_indent := 0,
     sc_scriptEnded := False, sc_afterDot := False\<rparr>"

text \<open>The reserved words.\<close>

definition keyword_table :: "(string \<times> token_type) list" where
  "keyword_table = [(''and'', TOKEN_AND), (''class'', TOKEN_CLASS), (''module'', TOKEN_MODULE),
     (''else'', TOKEN_ELSE), (''false'', TOKEN_FALSE), (''for'', TOKEN_FOR), (''fun'', TOKEN_FUN),
     (''if'', TOKEN_IF), (''nil'', TOKEN_NIL), (''try'', TOKEN_TRY), (''catch'', TOKEN_CATCH),
     (''throw'', TOKEN_THROW), (''ensure'', TOKEN_ENSURE), (''or'', TOKEN_OR),
     (''print'', TOKEN_PRINT), (''return'', TOKEN_RETURN), (''super'', TOKEN_SUPER),
     (''this'', TOKEN_THIS), (''true'', TOKEN_TRUE), (''var'', TOKEN_VAR), (''while'', TOKEN_WHILE),
     (''continue'', TOKEN_CONTINUE), (''break'', TOKEN_BREAK), (''in'', TOKEN_IN),
     (''foreach'', TOKEN_FOREACH), (''__END__'', TOKEN_END_SCRIPT)]"

subsection \<open>Reading characters\<close>

definition src_at :: "scanner \<Rightarrow> nat \<Rightarrow> u8" where
  "src_at s i = (if i < length (sc_source s) then sc_source s ! i else 0)"

definition peek :: "scanner \<Rightarrow> u8" where
  "peek s = src_at s (sc_currentIndex s)"

definition isAtEnd :: "scanner \<Rightarrow> bool" where
  "isAtEnd s \<longleftrightarrow> sc_scriptEnded s \<or> peek s = 0"

definition isAtEndGetMore :: "(bytes \<Rightarrow> bytes) \<Rightarrow> scanner \<Rightarrow> bool \<times> scanner" where
  "isAtEndGetMore fetch s =
     (if sc_scriptEnded s then (True, s)
      else if peek s \<noteq> 0 then (False, s)
      else (let s1 = s\<lparr>sc_source := fetch (sc_source s)\<rparr> in (peek s1 = 0, s1)))"

definition advance :: "scanner \<Rightarrow> scanner" where
  "advance s = s\<lparr>sc_currentIndex := sc_currentIndex s + 1\<rparr>"

definition peekNext :: "scanner \<Rightarrow> u8" where
  "peekNext s = (if isAtEnd s then 0 else src_at s (sc_currentIndex s + 1))"

definition match_char :: "u8 \<Rightarrow> scanner \<Rightarrow> bool \<times> scanner" where
  "match_char expected s =
     (if isAtEnd s then (False, s)
      else if peek s \<noteq> expected then (False, s)
      else (True, advance s))"

definition matchStr :: "bytes \<Rightarrow> scanner \<Rightarrow> bool \<times> scanner" where
  "matchStr str s =
     (if isAtEnd s then (False, s)
      else if take (length str) (drop (sc_currentIndex s) (sc_source s)) = str
      then (True, s\<lparr>sc_currentIndex := sc_currentIndex s + length str\<rparr>)
      else (False, s))"

definition newline :: "scanner \<Rightarrow> scanner" where
  "newline s = s\<lparr>sc_line := sc_line s + 1\<rparr>"

definition skipChar :: "u8 \<Rightarrow> scanner \<Rightarrow> scanner" where
  "skipChar c s = (if peek s = c then advance (if c = nl then newline s else s) else s)"

text \<open>The loop while (p(peek())) advance(), for tests that the NUL fails.\<close>

function advance_while :: "(u8 \<Rightarrow> bool) \<Rightarrow> scanner \<Rightarrow> scanner" where
  "advance_while p s =
     (if sc_currentIndex s < length (sc_source s) \<and> p (peek s) then advance_while p (advance s) else s)"
  by pat_completeness auto
termination
  by (relation "measure (\<lambda>(p, s). length (sc_source s) - sc_currentIndex s)") (auto simp: advance_def)

declare advance_while.simps [simp del]

subsection \<open>Replacing escapes\<close>

text \<open>strReplace: the first occurrence is replaced and the search starts over, until none is
  left.\<close>

fun strstr :: "bytes \<Rightarrow> bytes \<Rightarrow> nat option" where
  "strstr [] substr = (if substr = [] then Some 0 else None)"
| "strstr (c # cs) substr =
     (if take (length substr) (c # cs) = substr then Some 0 else map_option Suc (strstr cs substr))"

lemma strstr_bound: "strstr s sub = Some i \<Longrightarrow> i + length sub \<le> length s"
proof (induction s sub arbitrary: i rule: strstr.induct)
  case (2 c cs sub)
  show ?case
  proof (cases "take (length sub) (c # cs) = sub")
    case True
    from arg_cong [OF True, of length] have "length sub \<le> length (c # cs)"
      unfolding length_take by linarith
    then show ?thesis using 2 True by simp
  next
    case False
    then show ?thesis using 2 by auto
  qed
qed (simp split: if_splits)

function strReplace :: "bytes \<Rightarrow> bytes \<Rightarrow> u8 \<Rightarrow> bytes" where
  "strReplace str substr replace =
     (if length substr < 2 then str
      else case strstr str substr of
        None \<Rightarrow> str
      | Some i \<Rightarrow> strReplace (take i str @ [replace] @ drop (i + length substr) str) substr replace)"
  by pat_completeness auto
termination
  by (relation "measure (\<lambda>(str, substr, r). length str)") (auto dest: strstr_bound)

declare strReplace.simps [simp del]

subsection \<open>Making tokens\<close>

definition makeToken :: "token_type \<Rightarrow> scanner \<Rightarrow> token \<times> scanner" where
  "makeToken ttype s =
     (let tok = \<lparr>tk_type = ttype, tk_startIdx = sc_tokenStartIdx s,
            tk_length = int (sc_currentIndex s) - int (sc_tokenStartIdx s), tk_lexeme = None,
            tk_line = sc_line s, tk_alloced = False\<rparr>
      in if ttype = TOKEN_END_SCRIPT
         then (tok\<lparr>tk_type := TOKEN_EOF\<rparr>, s\<lparr>sc_scriptEnded := True, sc_afterDot := False\<rparr>)
         else (tok, s\<lparr>sc_afterDot := (ttype = TOKEN_DOT)\<rparr>))"

definition errorToken :: "string \<Rightarrow> scanner \<Rightarrow> token" where
  "errorToken message s = \<lparr>tk_type = TOKEN_ERROR, tk_startIdx = 0, tk_length = int (length message),
     tk_lexeme = Some (ascii message), tk_line = sc_line s, tk_alloced = False\<rparr>"

definition emptyTok :: token where
  "emptyTok = \<lparr>tk_type = TOKEN_EMPTY, tk_startIdx = 0, tk_length = 0, tk_lexeme = None, tk_line = 0,
     tk_alloced = False\<rparr>"

definition copyToken :: "token \<Rightarrow> token" where
  "copyToken tok = tok\<lparr>tk_alloced := False\<rparr>"

text \<open>tokStr computes the lexeme on demand and keeps it.\<close>

definition tokStr :: "bytes \<Rightarrow> token \<Rightarrow> bytes \<times> token" where
  "tokStr src tok =
     (case tk_lexeme tok of
        Some l \<Rightarrow> (l, tok)
      | None \<Rightarrow>
          if tk_length tok = 0 then ([], tok)
          else (let buf = take (nat (tk_length tok)) (drop (tk_startIdx tok) src)
                in (buf, tok\<lparr>tk_lexeme := Some buf, tk_alloced := True\<rparr>)))"

subsection \<open>White space\<close>

partial_function (option) block_comment :: "(bytes \<Rightarrow> bytes) \<Rightarrow> scanner \<Rightarrow> scanner option" where
  "block_comment fetch s =
     (let (fin, s1) = isAtEndGetMore fetch s
      in if fin then Some s1
         else if peek s1 = ch CHR ''*'' \<and> peekNext s1 = ch CHR ''/'' then Some (advance (advance s1))
         else block_comment fetch (advance (if peek s1 = nl then newline s1 else s1)))"

declare block_comment.simps [code]

definition line_comment :: "scanner \<Rightarrow> scanner" where
  "line_comment s = (if sc_scriptEnded s then s else advance_while (\<lambda>c. c \<noteq> nl \<and> c \<noteq> 0) s)"

text \<open>skip_one is the body of the loop of skipWhitespace; it gives None when the loop is left
  and otherwise the state after the step, computed by the comment loop.\<close>

definition skip_one :: "(bytes \<Rightarrow> bytes) \<Rightarrow> scanner \<Rightarrow> scanner option option" where
  "skip_one fetch s =
     (let c = peek s
      in if c = ch CHR '' '' \<or> c = cr \<or> c = tab then Some (Some (advance s))
         else if c = nl then Some (Some (advance (newline s)))
         else if c = ch CHR ''/'' then
           (if peekNext s = ch CHR ''/'' then Some (Some (line_comment s))
            else if peekNext s = ch CHR ''*'' then Some (block_comment fetch (advance (advance s)))
            else None)
         else None)"

partial_function (option) skipWhitespace :: "(bytes \<Rightarrow> bytes) \<Rightarrow> scanner \<Rightarrow> scanner option" where
  "skipWhitespace fetch s =
     (case skip_one fetch s of
        None \<Rightarrow> Some s
      | Some None \<Rightarrow> None
      | Some (Some s1) \<Rightarrow> skipWhitespace fetch s1)"

declare skipWhitespace.simps [code]

subsection \<open>Identifiers and numbers\<close>

definition lexeme_at :: "scanner \<Rightarrow> bytes" where
  "lexeme_at s = take (sc_currentIndex s - sc_tokenStartIdx s) (drop (sc_tokenStartIdx s) (sc_source s))"

fun lookup_keyword :: "bytes \<Rightarrow> (string \<times> token_type) list \<Rightarrow> token_type option" where
  "lookup_keyword w [] = None"
| "lookup_keyword w ((name, ttype) # kws) =
     (if length w = length name \<and> w = ascii name then Some ttype else lookup_keyword w kws)"

fun decimal :: "nat \<Rightarrow> bytes" where
  "decimal n = (if n < 10 then [] else decimal (n div 10)) @ [48 + of_nat (n mod 10)]"

declare decimal.simps [simp del]

definition decimal_int :: "int \<Rightarrow> bytes" where
  "decimal_int i = (if i < 0 then ch CHR ''-'' # decimal (nat (- i)) else decimal (nat i))"

text \<open>The comparison with __LINE__ runs over as many characters as the identifier has. The number
  is printed into a buffer of 8 bytes.\<close>

definition scan_identifier :: "scanner \<Rightarrow> scan_error + token \<times> scanner" where
  "scan_identifier s0 =
     (let s = advance_while isAlphaNumeric s0;
          ident = lexeme_at s;
          ttype = (if \<not> sc_afterDot s
                   then (case lookup_keyword ident keyword_table of Some t \<Rightarrow> t | None \<Rightarrow> TOKEN_IDENTIFIER)
                   else TOKEN_IDENTIFIER)
      in if ttype = TOKEN_IDENTIFIER \<and> ident = take (length ident) (ascii ''__LINE__'')
         then (let (tok, s1) = makeToken TOKEN_NUMBER s; numBuf = decimal_int (sc_line s1)
               in if length numBuf \<ge> 8 then Inl OutOfBounds
                  else Inr (tok\<lparr>tk_startIdx := sc_tokenStartIdx s1, tk_length := int (length numBuf),
                    tk_lexeme := Some numBuf, tk_alloced := True\<rparr>, s1))
         else Inr (makeToken ttype s))"

definition number :: "u8 \<Rightarrow> scanner \<Rightarrow> token \<times> scanner" where
  "number cur s =
     (if cur = ch CHR ''0'' \<and> (peek s = ch CHR ''c'' \<or> peek s = ch CHR ''C'')
      then makeToken TOKEN_NUMBER (advance_while isOct (advance s))
      else if cur = ch CHR ''0'' \<and> (peek s = ch CHR ''x'' \<or> peek s = ch CHR ''X'')
      then makeToken TOKEN_NUMBER (advance_while isHex (advance s))
      else if cur = ch CHR ''0'' \<and> (peek s = ch CHR ''b'' \<or> peek s = ch CHR ''B'')
      then makeToken TOKEN_NUMBER (advance_while isBinary (advance s))
      else
        (let s1 = advance_while isDigit s;
             s2 = (if peek s1 = ch CHR ''.'' \<and> isDigit (peekNext s1)
                   then advance_while isDigit (advance s1) else s1)
         in makeToken TOKEN_NUMBER s2))"

subsection \<open>Strings\<close>

text \<open>The loop over the characters of a string; prevc is the previous character.\<close>

partial_function (option) string_loop ::
    "(bytes \<Rightarrow> bytes) \<Rightarrow> u8 \<Rightarrow> u8 \<Rightarrow> scanner \<Rightarrow> scanner option" where
  "string_loop fetch quote prevc s =
     (let (fin, s1) = isAtEndGetMore fetch s
      in if fin then Some s1
         else if peek s1 = quote \<and> prevc = bslash then string_loop fetch quote (peek s1) (advance s1)
         else if peek s1 = quote then Some s1
         else string_loop fetch quote (peek s1) (advance (if peek s1 = nl then newline s1 else s1)))"

declare string_loop.simps [code]

definition slice :: "scanner \<Rightarrow> nat \<Rightarrow> nat \<Rightarrow> bytes" where
  "slice s start len = take len (drop start (sc_source s))"

definition unescape :: "bytes \<Rightarrow> bytes" where
  "unescape buf =
     strReplace (strReplace (strReplace (strReplace buf [bslash, dquote] dquote)
       [bslash, ch CHR ''n''] nl) [bslash, ch CHR ''t''] tab) [bslash, ch CHR ''r''] cr"

definition with_lexeme :: "bytes \<Rightarrow> token \<Rightarrow> token" where
  "with_lexeme buf tok = tok\<lparr>tk_length := int (length buf), tk_lexeme := Some buf, tk_alloced := True\<rparr>"

definition doubleQuotedString :: "(bytes \<Rightarrow> bytes) \<Rightarrow> scanner \<Rightarrow> (token \<times> scanner) option" where
  "doubleQuotedString fetch s0 =
     (case string_loop fetch dquote 0 s0 of
        None \<Rightarrow> None
      | Some s \<Rightarrow>
          Some (if isAtEnd s then (errorToken ''Unterminated string.'' s, s)
            else (let (tok, s1) = makeToken TOKEN_STRING_DQUOTE (advance s);
                      tok1 = tok\<lparr>tk_startIdx := tk_startIdx tok + 1, tk_length := tk_length tok - 2\<rparr>
                  in (with_lexeme (unescape (slice s1 (tk_startIdx tok1) (nat (tk_length tok1)))) tok1, s1))))"

definition singleQuotedString ::
    "(bytes \<Rightarrow> bytes) \<Rightarrow> bool \<Rightarrow> scanner \<Rightarrow> (token \<times> scanner) option" where
  "singleQuotedString fetch isStatic s0 =
     (case string_loop fetch squote 0 s0 of
        None \<Rightarrow> None
      | Some s \<Rightarrow>
          Some (if isAtEnd s then (errorToken ''Unterminated string.'' s, s)
            else (let (tok, s1) = makeToken (if isStatic then TOKEN_STRING_STATIC else TOKEN_STRING_SQUOTE)
                        (advance s);
                      start = tk_startIdx tok + (if isStatic then 2 else 1);
                      len = tk_length tok - (if isStatic then 3 else 2)
                  in (with_lexeme (strReplace (slice s1 start (nat len)) [bslash, squote] squote) tok, s1))))"

subsection \<open>Heredocs\<close>

definition not_eol :: "u8 \<Rightarrow> bool" where
  "not_eol c \<longleftrightarrow> c \<noteq> 0 \<and> c \<noteq> nl \<and> c \<noteq> cr"

text \<open>scanLine copies a line over the beginning of the buffer and leaves the rest of it.\<close>

definition scanLine :: "bytes \<Rightarrow> scanner \<Rightarrow> bytes \<times> nat \<times> scanner" where
  "scanLine buf s =
     (let s1 = advance_while not_eol s;
          line = slice s (sc_currentIndex s) (sc_currentIndex s1 - sc_currentIndex s)
      in (line @ drop (length line) buf, length line, s1))"

definition scanNewline :: "scanner \<Rightarrow> scanner" where
  "scanNewline s = skipChar nl (skipChar cr s)"

text \<open>The line buffer keeps what earlier lines left in it, and the comparison with the pattern
  looks at the buffer, not at the line.\<close>

definition LINE_MAX :: nat where "LINE_MAX = 4096"

definition heredoc_token :: "nat \<Rightarrow> nat \<Rightarrow> scanner \<Rightarrow> scan_error + token \<times> scanner" where
  "heredoc_token lineLen patBufi s =
     (let extraLen = int lineLen - int patBufi;
          (tok, s1) = makeToken TOKEN_STRING_DQUOTE s;
          tok1 = tok\<lparr>tk_length := tk_length tok - (extraLen + int patBufi)\<rparr>
      in if tk_length tok1 \<le> 0 then Inl AssertionFailed
         else if int (sc_currentIndex s1) - extraLen < 0
           \<or> int (sc_currentIndex s1) - extraLen > int (length (sc_source s1)) then Inl OutOfBounds
         else (let s2 = s1\<lparr>sc_currentIndex := nat (int (sc_currentIndex s1) - extraLen)\<rparr>
               in Inr (with_lexeme (unescape (slice s2 (tk_startIdx tok1) (nat (tk_length tok1)))) tok1, s2)))"

partial_function (option) heredoc_lines ::
    "(bytes \<Rightarrow> bytes) \<Rightarrow> bytes \<Rightarrow> bytes \<Rightarrow> scanner \<Rightarrow> scan_result" where
  "heredoc_lines fetch patBuf buf s =
     (let (fin, s1) = isAtEndGetMore fetch s
      in if fin then Some (Inr (errorToken ''Heredoc missing an end pattern'' s1, s1))
         else (let (buf1, lineLen, s2) = scanLine buf s1
               in if lineLen > LINE_MAX then Some (Inl OutOfBounds)
                  else if take (length patBuf) buf1 = patBuf
                  then Some (heredoc_token lineLen (length patBuf) s2)
                  else heredoc_lines fetch patBuf buf1 (scanNewline s2)))"

declare heredoc_lines.simps [code]

definition heredocString :: "(bytes \<Rightarrow> bytes) \<Rightarrow> bytes \<Rightarrow> scanner \<Rightarrow> scan_result" where
  "heredocString fetch garbage s0 =
     (let s1 = advance_while not_eol s0;
          patBuf = slice s0 (sc_currentIndex s0) (sc_currentIndex s1 - sc_currentIndex s0);
          s2 = scanNewline s1
      in if length patBuf \<ge> 100 then Some (Inl OutOfBounds)
         else if patBuf = [] then Some (Inr (errorToken ''Heredoc needs a pattern after <<<'' s2, s2))
         else heredoc_lines fetch patBuf garbage (s2\<lparr>sc_tokenStartIdx := sc_currentIndex s2\<rparr>))"

subsection \<open>The next token\<close>

definition ret :: "token \<times> scanner \<Rightarrow> scan_result" where
  "ret r = Some (Inr r)"

text \<open>The tokens of a single character, and of two.\<close>

definition single_chars :: "(char \<times> token_type) list" where
  "single_chars = [(CHR ''('', TOKEN_LEFT_PAREN), (CHR '')'', TOKEN_RIGHT_PAREN),
     (CHR ''{'', TOKEN_LEFT_BRACE), (CHR ''}'', TOKEN_RIGHT_BRACE), (CHR ''['', TOKEN_LEFT_BRACKET),
     (CHR '']'', TOKEN_RIGHT_BRACKET), (CHR '';'', TOKEN_SEMICOLON), (CHR '','', TOKEN_COMMA),
     (CHR ''+'', TOKEN_PLUS), (CHR ''/'', TOKEN_SLASH), (CHR ''%'', TOKEN_PERCENT),
     (CHR ''*'', TOKEN_STAR), (CHR ''|'', TOKEN_PIPE), (CHR ''^'', TOKEN_CARET), (CHR ''&'', TOKEN_AMP)]"

definition single_token :: "u8 \<Rightarrow> token_type option" where
  "single_token c = map_of (map (\<lambda>(x, t). (ch x, t)) single_chars) c"

definition indent_by :: "u8 \<Rightarrow> scanner \<Rightarrow> scanner" where
  "indent_by c s =
     (if c = ch CHR ''{'' then s\<lparr>sc_indent := sc_indent s + 1\<rparr>
      else if c = ch CHR ''}'' then s\<lparr>sc_indent := sc_indent s - 1\<rparr> else s)"

definition match_or :: "char \<Rightarrow> token_type \<Rightarrow> token_type \<Rightarrow> scanner \<Rightarrow> token \<times> scanner" where
  "match_or c t2 t1 s = (let (m, s1) = match_char (ch c) s in makeToken (if m then t2 else t1) s1)"

definition less_token :: "(bytes \<Rightarrow> bytes) \<Rightarrow> bytes \<Rightarrow> scanner \<Rightarrow> scan_result" where
  "less_token fetch garbage s =
     (let (m1, s1) = match_char (ch CHR ''='') s
      in if m1 then ret (makeToken TOKEN_LESS_EQUAL s1)
         else (let (m2, s2) = matchStr (ascii ''<<'') s1
               in if m2 then heredocString fetch garbage s2
                  else ret (match_or (CHR ''<'') TOKEN_SHOVEL_L TOKEN_LESS s2)))"

definition greater_token :: "scanner \<Rightarrow> token \<times> scanner" where
  "greater_token s =
     (let (m1, s1) = match_char (ch CHR ''='') s
      in if m1 then makeToken TOKEN_GREATER_EQUAL s1
         else match_or (CHR ''>'') TOKEN_SHOVEL_R TOKEN_GREATER s1)"

definition ret_option :: "(token \<times> scanner) option \<Rightarrow> scan_result" where
  "ret_option r = map_option Inr r"

text \<open>The switch of scanToken, for a character c other than a digit that has been read; the dot
  after a dot is left to scanToken.\<close>

definition scan_char :: "(bytes \<Rightarrow> bytes) \<Rightarrow> bytes \<Rightarrow> u8 \<Rightarrow> scanner \<Rightarrow> scan_result" where
  "scan_char fetch garbage c s =
     (case single_token c of
        Some t \<Rightarrow> ret (makeToken t (indent_by c s))
      | None \<Rightarrow>
          if c = ch CHR '':'' then ret (match_or (CHR '':'') TOKEN_DICE TOKEN_COLON s)
          else if c = ch CHR ''.'' then ret (makeToken TOKEN_DOT s)
          else if c = ch CHR ''-'' then ret (match_or (CHR ''>'') TOKEN_ARROW TOKEN_MINUS s)
          else if c = ch CHR ''!'' then ret (match_or (CHR ''='') TOKEN_BANG_EQUAL TOKEN_BANG s)
          else if c = ch CHR ''='' then ret (match_or (CHR ''='') TOKEN_EQUAL_EQUAL TOKEN_EQUAL s)
          else if c = ch CHR ''<'' then less_token fetch garbage s
          else if c = ch CHR ''>'' then ret (greater_token s)
          else if c = dquote then ret_option (doubleQuotedString fetch s)
          else if c = squote then ret_option (singleQuotedString fetch False s)
          else if c = ch CHR ''s'' \<and> peek s = squote
          then ret_option (singleQuotedString fetch True (advance s))
          else if isAlpha c then Some (scan_identifier s)
          else ret (errorToken ''Unexpected character.'' s, s))"

partial_function (option) scanToken :: "(bytes \<Rightarrow> bytes) \<Rightarrow> bytes \<Rightarrow> scanner \<Rightarrow> scan_result" where
  "scanToken fetch garbage s0 =
     (case skipWhitespace fetch s0 of
        None \<Rightarrow> None
      | Some s1 \<Rightarrow>
          (let s = s1\<lparr>sc_tokenStartIdx := sc_currentIndex s1\<rparr>; c = peek s
           in if isAtEnd s then ret (makeToken TOKEN_EOF s)
              else if isDigit c then ret (number c (advance s))
              else if c = ch CHR ''.'' \<and> sc_afterDot s then
                (if sc_currentIndex (advance (advance s)) > length (sc_source s) then Some (Inl OutOfBounds)
                 else scanToken fetch garbage (advance (advance s)))
              else scan_char fetch garbage c (advance s)))"

declare scanToken.simps [code]

text \<open>The tokens of a whole source, as scanAllPrint collects them.\<close>

partial_function (option) scanAll ::
    "(bytes \<Rightarrow> bytes) \<Rightarrow> bytes \<Rightarrow> token list \<Rightarrow> scanner \<Rightarrow> (scan_error + token list) option" where
  "scanAll fetch garbage acc s =
     (case scanToken fetch garbage s of
        None \<Rightarrow> None
      | Some (Inl e) \<Rightarrow> Some (Inl e)
      | Some (Inr (tok, s1)) \<Rightarrow>
          if tk_type tok = TOKEN_EOF then Some (Inr (rev (tok # acc)))
          else scanAll fetch garbage (tok # acc) s1)"

declare scanAll.simps [code]

subsection \<open>Names of tokens\<close>

definition token_names :: "(token_type \<times> string) list" where
  "token_names = [
     (TOKEN_EMPTY, ''(EMPTY)''),
     (TOKEN_LEFT_PAREN, ''LEFT_PAREN''),
     (TOKEN_RIGHT_PAREN, ''RIGHT_PAREN''),
     (TOKEN_LEFT_BRACE, ''LEFT_BRACE''),
     (TOKEN_RIGHT_BRACE, ''RIGHT_BRACE''),
     (TOKEN_LEFT_BRACKET, ''LEFT_BRACKET''),
     (TOKEN_RIGHT_BRACKET, ''RIGHT_BRACKET''),
     (TOKEN_BANG, ''BANG''),
     (TOKEN_BANG_EQUAL, ''BANG_EQUAL''),
     (TOKEN_COMMA, ''COMMA''),
     (TOKEN_DOT, ''DOT''),
     (TOKEN_EQUAL, ''EQUAL''),
     (TOKEN_EQUAL_EQUAL, ''EQUAL_EQUAL''),
     (TOKEN_GREATER, ''GREATER''),
     (TOKEN_GREATER_EQUAL, ''GREATER_EQUAL''),
     (TOKEN_LESS, ''LESS''),
     (TOKEN_LESS_EQUAL, ''LESS_EQUAL''),
     (TOKEN_MINUS, ''MINUS''),
     (TOKEN_PLUS, ''PLUS''),
     (TOKEN_SEMICOLON, ''SEMICOLON''),
     (TOKEN_COLON, ''COLON''),
     (TOKEN_DICE, ''DICE''),
     (TOKEN_SLASH, ''SLASH''),
     (TOKEN_STAR, ''STAR''),
     (TOKEN_PIPE, ''PIPE''),
     (TOKEN_AMP, ''AMP''),
     (TOKEN_CARET, ''CARET''),
     (TOKEN_PERCENT, ''PERCENT''),
     (TOKEN_IDENTIFIER, ''IDENTIFIER''),
     (TOKEN_STRING_DQUOTE, ''DOUBLE_QUOTED_STRING''),
     (TOKEN_STRING_SQUOTE, ''SINGLE_QUOTED_STRING''),
     (TOKEN_STRING_STATIC, ''STATIC_STRING''),
     (TOKEN_NUMBER, ''NUMBER''),
     (TOKEN_AND, ''AND''),
     (TOKEN_CLASS, ''CLASS''),
     (TOKEN_MODULE, ''MODULE''),
     (TOKEN_ELSE, ''ELSE''),
     (TOKEN_FALSE, ''FALSE''),
     (TOKEN_FUN, ''FUN''),
     (TOKEN_FOR, ''FOR''),
     (TOKEN_IF, ''IF''),
     (TOKEN_NIL, ''NIL''),
     (TOKEN_OR, ''OR''),
     (TOKEN_PRINT, ''PRINT''),
     (TOKEN_RETURN, ''RETURN''),
     (TOKEN_SUPER, ''SUPER''),
     (TOKEN_THIS, ''THIS''),
     (TOKEN_TRUE, ''TRUE''),
     (TOKEN_VAR, ''VAR''),
     (TOKEN_WHILE, ''WHILE''),
     (TOKEN_IN, ''IN''),
     (TOKEN_BREAK, ''BREAK''),
     (TOKEN_FOREACH, ''FOREACH''),
     (TOKEN_CONTINUE, ''CONTINUE''),
     (TOKEN_ARROW, ''ARROW''),
     (TOKEN_END_SCRIPT, ''__END__''),
     (TOKEN_ERROR, ''!!ERROR!!''),
     (TOKEN_EOF, ''EOF'')]"

definition tokTypeStr :: "token_type \<Rightarrow> string" where
  "tokTypeStr ttype =
     (case map_of token_names ttype of Some n \<Rightarrow> n | None \<Rightarrow> ''!!UNKNOWN!!'')"

end
