(* ===== verification/Clox_Scanner_Laws.thy ===== *)
theory Clox_Scanner_Laws
  imports Clox_Scanner
begin

text \<open>Correctness of the scanner on a source that is complete (no function fetches more). The loops
  of the scanner share one contract, a locale: a step either goes on, strictly further in the
  source, or stops with a result. Its one theorem, that the loop ends, is interpreted for the
  comments, the white space, the strings, the heredocs, the tokens and the whole source.\<close>

subsection \<open>Reading forwards\<close>

definition good :: "scanner \<Rightarrow> bool" where
  "good s \<longleftrightarrow> sc_currentIndex s \<le> length (sc_source s)"

definition reads :: "scanner \<Rightarrow> scanner \<Rightarrow> bool" where
  "reads s s' \<longleftrightarrow> sc_source s' = sc_source s \<and> sc_currentIndex s \<le> sc_currentIndex s' \<and> good s'"

definition reads1 :: "scanner \<Rightarrow> scanner \<Rightarrow> bool" where
  "reads1 s s' \<longleftrightarrow> reads s s' \<and> sc_currentIndex s < sc_currentIndex s'"

lemma reads_refl: "good s \<Longrightarrow> reads s s"
  by (simp add: reads_def)

lemma reads_trans: "reads s s' \<Longrightarrow> reads s' s'' \<Longrightarrow> reads s s''"
  by (auto simp: reads_def)

lemma reads1_trans: "reads1 s s' \<Longrightarrow> reads s' s'' \<Longrightarrow> reads1 s s''"
  "reads s s' \<Longrightarrow> reads1 s' s'' \<Longrightarrow> reads1 s s''"
  by (auto simp: reads1_def reads_def)

lemma reads1_reads: "reads1 s s' \<Longrightarrow> reads s s'"
  by (simp add: reads1_def)

lemma reads_same: "reads s s1 \<Longrightarrow> sc_source s2 = sc_source s1 \<Longrightarrow>
    sc_currentIndex s2 = sc_currentIndex s1 \<Longrightarrow> reads s s2"
  by (auto simp: reads_def good_def)

lemma reads_good: "reads s s' \<Longrightarrow> good s'"
  by (simp add: reads_def)

lemma peek_inside: "peek s \<noteq> 0 \<Longrightarrow> sc_currentIndex s < length (sc_source s)"
  by (simp add: peek_def src_at_def split: if_splits)

lemma peek_upd [simp]:
  "peek (s\<lparr>sc_line := l\<rparr>) = peek s" "peek (s\<lparr>sc_tokenStartIdx := i\<rparr>) = peek s"
  "peek (newline s) = peek s"
  by (simp_all add: peek_def src_at_def newline_def)

lemma scanner_fields [simp]:
  "sc_source (newline s) = sc_source s" "sc_currentIndex (newline s) = sc_currentIndex s"
  "sc_tokenStartIdx (newline s) = sc_tokenStartIdx s"
  "sc_source (advance s) = sc_source s" "sc_currentIndex (advance s) = sc_currentIndex s + 1"
  "sc_tokenStartIdx (advance s) = sc_tokenStartIdx s"
  "sc_source (indent_by c s) = sc_source s" "sc_currentIndex (indent_by c s) = sc_currentIndex s"
  "sc_tokenStartIdx (indent_by c s) = sc_tokenStartIdx s"
  by (simp_all add: newline_def advance_def indent_by_def)

lemma advance_reads1: "peek s \<noteq> 0 \<Longrightarrow> reads1 s (advance s)"
  using peek_inside [of s] by (simp add: reads1_def reads_def good_def)

lemma advance_newline_reads1: "peek s \<noteq> 0 \<Longrightarrow> reads1 s (advance (newline s))"
  using peek_inside [of s] by (simp add: reads1_def reads_def good_def)

lemma advance2_reads1:
  assumes "peek s \<noteq> 0" "peekNext s \<noteq> 0"
  shows "reads1 s (advance (advance s))"
  using assms peek_inside [of s]
  by (auto simp: reads1_def reads_def good_def peekNext_def src_at_def split: if_splits)

lemma advance_while_stop: "\<not> (sc_currentIndex s < length (sc_source s) \<and> p (peek s)) \<Longrightarrow>
    advance_while p s = s"
  by (subst advance_while.simps) (rule if_not_P)

lemma advance_while_step: "sc_currentIndex s < length (sc_source s) \<and> p (peek s) \<Longrightarrow>
    advance_while p s = advance_while p (advance s)"
  by (subst advance_while.simps) (rule if_P)

lemma advance_while_spec:
  "(good s \<longrightarrow> reads s (advance_while p s)) \<and>
   (\<exists>i. advance_while p s = s\<lparr>sc_currentIndex := i\<rparr>)"
proof (induction p s rule: advance_while.induct)
  case (1 p s)
  show ?case
  proof (cases "sc_currentIndex s < length (sc_source s) \<and> p (peek s)")
    case True
    then have "reads s (advance s)" by (auto simp: reads_def good_def)
    moreover from this have "reads (advance s) (advance_while p (advance s))"
      using 1 True by (simp add: reads_def)
    ultimately have "reads s (advance_while p (advance s))" by (rule reads_trans)
    moreover obtain i where "advance_while p (advance s) = (advance s)\<lparr>sc_currentIndex := i\<rparr>"
      using 1 True by blast
    ultimately show ?thesis
      unfolding advance_while_step [where p = p and s = s, OF True] by (auto simp: advance_def)
  next
    case False
    show ?thesis
      unfolding advance_while_stop [where p = p and s = s, OF False]
      by (auto simp: reads_refl intro: exI [of _ "sc_currentIndex s"])
  qed
qed

lemma advance_while_reads: "good s \<Longrightarrow> reads s (advance_while p s)"
  using advance_while_spec by blast

lemma advance_while_start [simp]:
  "sc_tokenStartIdx (advance_while p s) = sc_tokenStartIdx s"
  "sc_line (advance_while p s) = sc_line s"
  "sc_afterDot (advance_while p s) = sc_afterDot s"
  "sc_scriptEnded (advance_while p s) = sc_scriptEnded s"
  "sc_source (advance_while p s) = sc_source s"
proof -
  obtain i where "advance_while p s = s\<lparr>sc_currentIndex := i\<rparr>" using advance_while_spec by blast
  then show "sc_tokenStartIdx (advance_while p s) = sc_tokenStartIdx s"
    "sc_line (advance_while p s) = sc_line s" "sc_afterDot (advance_while p s) = sc_afterDot s"
    "sc_scriptEnded (advance_while p s) = sc_scriptEnded s" "sc_source (advance_while p s) = sc_source s"
    by simp_all
qed

lemma skipChar_reads: "good s \<Longrightarrow> reads s (skipChar c s)" if "c \<noteq> 0"
  using that advance_reads1 [of s] advance_newline_reads1 [of s]
  by (auto simp: skipChar_def reads1_reads reads_refl)

lemma scanNewline_reads: "good s \<Longrightarrow> reads s (scanNewline s)"
  unfolding scanNewline_def
  using skipChar_reads [of cr s] skipChar_reads [of nl "skipChar cr s"]
  by (auto simp: cr_def nl_def intro: reads_trans reads_good)

lemma match_char_reads: "good s \<Longrightarrow> match_char c s = (m, s') \<Longrightarrow> reads s s'"
  using advance_reads1 [of s]
  by (auto simp: match_char_def isAtEnd_def reads1_reads reads_refl split: if_splits)

lemma match_char_start: "match_char c s = (m, s') \<Longrightarrow> sc_tokenStartIdx s' = sc_tokenStartIdx s"
  by (auto simp: match_char_def split: if_splits)

lemma matchStr_reads:
  assumes "good s" "matchStr str s = (m, s')" shows "reads s s'"
proof (cases "take (length str) (drop (sc_currentIndex s) (sc_source s)) = str")
  case True
  from arg_cong [OF True, of length] have "length str \<le> length (sc_source s) - sc_currentIndex s"
    by (simp only: length_take length_drop)
  then show ?thesis using assms by (auto simp: matchStr_def reads_def good_def split: if_splits)
next
  case False
  then show ?thesis using assms by (auto simp: matchStr_def reads_refl split: if_splits)
qed

lemma complete_source [simp]: "isAtEndGetMore id s = (isAtEnd s, s)" "isAtEndGetMore (\<lambda>x. x) s = (isAtEnd s, s)"
  by (auto simp: isAtEndGetMore_def isAtEnd_def)

subsection \<open>The contract of a loop of the scanner\<close>

locale scan_loop =
  fixes loop :: "'s \<Rightarrow> 'r option"
    and step :: "'s \<Rightarrow> 's + 'r"
    and here :: "'s \<Rightarrow> scanner"
    and post :: "scanner \<Rightarrow> 'r \<Rightarrow> bool"
  assumes loop_unfold: "good (here x) \<Longrightarrow>
      loop x = (case step x of Inl y \<Rightarrow> loop y | Inr r \<Rightarrow> Some r)"
    and step_on: "good (here x) \<Longrightarrow> step x = Inl y \<Longrightarrow> reads1 (here x) (here y)"
    and step_stop: "good (here x) \<Longrightarrow> step x = Inr r \<Longrightarrow> post (here x) r"
    and post_back: "reads s s' \<Longrightarrow> post s' r \<Longrightarrow> post s r"
begin

lemma ends: "good (here x) \<Longrightarrow> \<exists>r. loop x = Some r \<and> post (here x) r"
proof (induction "length (sc_source (here x)) - sc_currentIndex (here x)" arbitrary: x rule: less_induct)
  case less
  show ?case
  proof (cases "step x")
    case (Inl y)
    note r = step_on [OF less.prems Inl]
    then have "length (sc_source (here y)) - sc_currentIndex (here y) <
        length (sc_source (here x)) - sc_currentIndex (here x)" "good (here y)"
      by (auto simp: reads1_def reads_def good_def)
    then obtain r' where "loop y = Some r'" "post (here y) r'" using less.hyps by blast
    then show ?thesis
      using post_back [OF reads1_reads [OF r]] loop_unfold [OF less.prems] Inl by auto
  next
    case (Inr r)
    then show ?thesis using step_stop [OF less.prems Inr] loop_unfold [OF less.prems] by auto
  qed
qed

end

subsection \<open>Comments, white space and strings\<close>

definition comment_step :: "scanner \<Rightarrow> scanner + scanner" where
  "comment_step s =
     (if isAtEnd s then Inr s
      else if peek s = ch CHR ''*'' \<and> peekNext s = ch CHR ''/'' then Inr (advance (advance s))
      else Inl (advance (if peek s = nl then newline s else s)))"

lemma ch_nonzero [simp]:
  "ch CHR ''*'' \<noteq> 0" "ch CHR ''/'' \<noteq> 0" "ch CHR '' '' \<noteq> 0" "ch CHR ''.'' \<noteq> 0" "ch CHR ''='' \<noteq> 0"
  "nl \<noteq> 0" "cr \<noteq> 0" "tab \<noteq> 0" "bslash \<noteq> 0" "dquote \<noteq> 0" "squote \<noteq> 0"
  by (simp_all add: nl_def cr_def tab_def bslash_def dquote_def squote_def)

interpretation cm: scan_loop "block_comment id" comment_step "\<lambda>s. s" reads
proof
  show "block_comment id x = (case comment_step x of Inl y \<Rightarrow> block_comment id y | Inr r \<Rightarrow> Some r)" for x
    by (subst block_comment.simps) (simp add: comment_step_def)
  show "reads1 x y" if "good x" "comment_step x = Inl y" for x y
    using that advance_reads1 [of x] advance_newline_reads1 [of x]
    by (auto simp: comment_step_def isAtEnd_def split: if_splits)
  show "reads x r" if "good x" "comment_step x = Inr r" for x r
    using that advance2_reads1 [of x]
    by (auto simp: comment_step_def isAtEnd_def reads1_reads reads_refl split: if_splits)
qed (rule reads_trans)

definition white_step :: "scanner \<Rightarrow> scanner + scanner" where
  "white_step s = (case skip_one id s of Some (Some s1) \<Rightarrow> Inl s1 | _ \<Rightarrow> Inr s)"

lemma advance_while_reads1:
  assumes "sc_currentIndex s < length (sc_source s)" "p (peek s)"
  shows "reads1 s (advance_while p s)"
proof -
  have "advance_while p s = advance_while p (advance s)"
    using assms by (subst advance_while.simps) simp
  moreover have "reads1 s (advance s)" using assms by (simp add: reads1_def reads_def good_def)
  ultimately show ?thesis
    using reads1_trans(1) advance_while_reads reads_good [OF reads1_reads] by metis
qed

lemma skip_one_spec:
  assumes "good s"
  shows "skip_one id s = None \<or> (\<exists>s1. skip_one id s = Some (Some s1) \<and> reads1 s s1)"
proof -
  consider (blank) "peek s = ch CHR '' '' \<or> peek s = cr \<or> peek s = tab" | (line) "peek s = nl"
    | (slash) "peek s = ch CHR ''/''" "peekNext s = ch CHR ''/''"
    | (star) "peek s = ch CHR ''/''" "peekNext s = ch CHR ''*''"
    | (other) "skip_one id s = None"
    unfolding skip_one_def Let_def by presburger
  then show ?thesis
  proof cases
    case blank
    then have "reads1 s (advance s)" by (intro advance_reads1) auto
    then show ?thesis using blank by (auto simp: skip_one_def)
  next
    case line
    then have "reads1 s (advance (newline s))" by (intro advance_newline_reads1) auto
    then show ?thesis using line by (auto simp: skip_one_def nl_def cr_def tab_def)
  next
    case slash
    have "\<not> sc_scriptEnded s" using slash(2) by (auto simp: peekNext_def isAtEnd_def split: if_splits)
    moreover have "reads1 s (advance_while (\<lambda>c. c \<noteq> nl \<and> c \<noteq> 0) s)"
      using slash(1) peek_inside [of s] by (intro advance_while_reads1) (auto simp: nl_def)
    ultimately show ?thesis using slash
      by (auto simp: skip_one_def nl_def cr_def tab_def line_comment_def)
  next
    case star
    then have r: "reads1 s (advance (advance s))" by (intro advance2_reads1) auto
    obtain s1 where "block_comment id (advance (advance s)) = Some s1" "reads (advance (advance s)) s1"
      using cm.ends [OF reads_good [OF reads1_reads [OF r]]] by blast
    then show ?thesis using star reads1_trans(1) [OF r]
      by (auto simp: skip_one_def nl_def cr_def tab_def)
  qed simp
qed

interpretation ws: scan_loop "skipWhitespace id" white_step "\<lambda>s. s" reads
proof
  show "skipWhitespace id x = (case white_step x of Inl y \<Rightarrow> skipWhitespace id y | Inr r \<Rightarrow> Some r)"
    if "good x" for x
    using skip_one_spec [OF that] by (subst skipWhitespace.simps) (auto simp: white_step_def)
  show "reads1 x y" if "good x" "white_step x = Inl y" for x y
    using that skip_one_spec [of x] by (auto simp: white_step_def split: option.splits)
  show "reads x r" if "good x" "white_step x = Inr r" for x r
    using that by (auto simp: white_step_def reads_refl split: option.splits)
qed (rule reads_trans)

definition string_step :: "u8 \<Rightarrow> u8 \<times> scanner \<Rightarrow> u8 \<times> scanner + scanner" where
  "string_step quote x =
     (case x of (prevc, s) \<Rightarrow>
        if isAtEnd s then Inr s
        else if peek s = quote \<and> prevc = bslash then Inl (peek s, advance s)
        else if peek s = quote then Inr s
        else Inl (peek s, advance (if peek s = nl then newline s else s)))"

interpretation st: scan_loop "\<lambda>(prevc, s). string_loop id quote prevc s" "string_step quote" snd reads
  for quote
proof
  show "(case x of (prevc, s) \<Rightarrow> string_loop id quote prevc s) =
    (case string_step quote x of Inl y \<Rightarrow> (case y of (prevc, s) \<Rightarrow> string_loop id quote prevc s)
      | Inr r \<Rightarrow> Some r)" for x
  proof (cases x)
    case (Pair prevc s)
    show ?thesis unfolding Pair by (simp, subst string_loop.simps) (simp add: string_step_def)
  qed
  show "reads1 (snd x) (snd y)" if "good (snd x)" "string_step quote x = Inl y" for x y
    using that advance_reads1 [of "snd x"] advance_newline_reads1 [of "snd x"]
    by (cases x) (auto simp: string_step_def isAtEnd_def split: if_splits)
  show "reads (snd x) r" if "good (snd x)" "string_step quote x = Inr r" for x r
    using that by (cases x) (auto simp: string_step_def reads_refl split: if_splits)
qed (rule reads_trans)

subsection \<open>Tokens\<close>

text \<open>What a token tells about the source: without a lexeme of its own it is the slice from the
  start of the token to the place where the scanner stands afterwards.\<close>

definition tok_ok :: "scanner \<Rightarrow> scan_error + token \<times> scanner \<Rightarrow> bool" where
  "tok_ok s r =
     (case r of Inl e \<Rightarrow> True
      | Inr (t, s') \<Rightarrow> reads s s' \<and>
          (tk_lexeme t = None \<longrightarrow> tk_startIdx t = sc_tokenStartIdx s \<and>
             int (tk_startIdx t) + tk_length t = int (sc_currentIndex s')))"

lemma makeToken_fields:
  "makeToken ty s = (t, s') \<Longrightarrow> sc_source s' = sc_source s \<and> sc_currentIndex s' = sc_currentIndex s \<and>
     sc_tokenStartIdx s' = sc_tokenStartIdx s \<and> tk_startIdx t = sc_tokenStartIdx s \<and>
     tk_length t = int (sc_currentIndex s) - int (sc_tokenStartIdx s) \<and> tk_lexeme t = None \<and>
     tk_type t = (if ty = TOKEN_END_SCRIPT then TOKEN_EOF else ty) \<and> sc_line s' = sc_line s"
  by (auto simp: makeToken_def Let_def split: if_splits)

lemma makeToken_ok:
  assumes "reads s s1" "sc_tokenStartIdx s1 = sc_tokenStartIdx s"
  shows "tok_ok s (Inr (makeToken ty s1))"
proof (cases "makeToken ty s1")
  case (Pair t s')
  then show ?thesis using assms makeToken_fields [OF Pair] by (auto simp: tok_ok_def reads_def good_def)
qed

lemma tok_ok_lexeme:
  assumes "reads s s1" "tk_lexeme t \<noteq> None" shows "tok_ok s (Inr (t, s1))"
  using assms by (cases "tk_lexeme t") (simp_all add: tok_ok_def)

lemma tok_ok_if:
  "(P \<Longrightarrow> tok_ok s (Inr a)) \<Longrightarrow> (\<not> P \<Longrightarrow> tok_ok s (Inr b)) \<Longrightarrow> tok_ok s (Inr (if P then a else b))"
  "(P \<Longrightarrow> tok_ok s (Inr (f c))) \<Longrightarrow> (\<not> P \<Longrightarrow> tok_ok s (Inr (f d))) \<Longrightarrow>
    tok_ok s (Inr (f (if P then c else d)))"
  by simp_all

lemma errorToken_ok: "reads s s1 \<Longrightarrow> tok_ok s (Inr (errorToken msg s1, s1))"
  by (rule tok_ok_lexeme) (simp_all add: errorToken_def)

lemma match_or_ok: "good s \<Longrightarrow> tok_ok s (Inr (match_or c t2 t1 s))"
proof (cases "match_char (ch c) s")
  case (Pair m s1)
  assume "good s"
  then show ?thesis
    using match_char_reads [OF _ Pair] match_char_start [OF Pair] Pair
    by (auto simp: match_or_def intro: makeToken_ok)
qed

lemma number_ok: "good s \<Longrightarrow> tok_ok s (Inr (number c s))"
proof -
  assume g: "good s"
  have pre: "tok_ok s (Inr (makeToken TOKEN_NUMBER (advance_while p (advance s))))" if "peek s \<noteq> 0" for p
  proof (rule makeToken_ok)
    show "reads s (advance_while p (advance s))"
      using reads_trans [OF _ advance_while_reads] reads1_reads [OF advance_reads1 [OF that]] reads_good
      by blast
  qed simp
  let ?s1 = "advance_while isDigit s"
  have r: "reads s ?s1" by (rule advance_while_reads [OF g])
  have plain: "tok_ok s (Inr (makeToken TOKEN_NUMBER ?s1))" by (rule makeToken_ok [OF r]) simp
  have frac: "tok_ok s (Inr (makeToken TOKEN_NUMBER (advance_while isDigit (advance ?s1))))"
    if "peek ?s1 \<noteq> 0"
  proof (rule makeToken_ok)
    have "reads s (advance ?s1)" using r reads1_reads [OF advance_reads1 [OF that]] reads_trans by blast
    then show "reads s (advance_while isDigit (advance ?s1))"
      using reads_trans advance_while_reads reads_good by blast
  qed simp
  show ?thesis
    unfolding number_def Let_def
    by (intro tok_ok_if(1) tok_ok_if(2) [where f = "makeToken TOKEN_NUMBER"])
      (auto intro: pre frac plain)
qed

lemma identifier_ok: "good s \<Longrightarrow> tok_ok s (scan_identifier s)"
proof -
  assume g: "good s"
  let ?s1 = "advance_while isAlphaNumeric s"
  have r: "reads s ?s1" by (rule advance_while_reads [OF g])
  have plain: "tok_ok s (Inr (makeToken ty ?s1))" for ty by (rule makeToken_ok [OF r]) simp
  have line: "tok_ok s (Inr (tok\<lparr>tk_startIdx := i, tk_length := l, tk_lexeme := Some b, tk_alloced := True\<rparr>, s2))"
    if "makeToken ty ?s1 = (tok, s2)" for ty tok s2 i l b
    using plain [of ty] that by (simp add: tok_ok_def)
  have inl: "tok_ok s (Inl e)" for e by (simp add: tok_ok_def)
  show ?thesis
    unfolding scan_identifier_def Let_def
    by (auto simp: inl intro: plain line split: prod.split)
qed

lemma dquoted_ok:
  assumes "good s" shows "\<exists>r. doubleQuotedString id s = Some r \<and> tok_ok s (Inr r)"
proof -
  obtain s1 where s1: "string_loop id dquote 0 s = Some s1" "reads s s1"
    using st.ends [of "(0, s)" dquote] assms by auto
  obtain tok s2 where mt: "makeToken TOKEN_STRING_DQUOTE (advance s1) = (tok, s2)" by fastforce
  have "reads s s2" if "\<not> isAtEnd s1"
  proof -
    have "reads s (advance s1)"
      using that s1(2) reads1_reads [OF advance_reads1 [of s1]] reads_trans by (auto simp: isAtEnd_def)
    then show ?thesis by (rule reads_same) (use makeToken_fields [OF mt] in simp_all)
  qed
  then show ?thesis
    using s1 mt errorToken_ok [OF s1(2)]
    by (auto simp: doubleQuotedString_def with_lexeme_def intro: tok_ok_lexeme)
qed

lemma squoted_ok:
  assumes "good s" shows "\<exists>r. singleQuotedString id b s = Some r \<and> tok_ok s (Inr r)"
proof -
  obtain s1 where s1: "string_loop id squote 0 s = Some s1" "reads s s1"
    using st.ends [of "(0, s)" squote] assms by auto
  obtain tok s2 where mt:
    "makeToken (if b then TOKEN_STRING_STATIC else TOKEN_STRING_SQUOTE) (advance s1) = (tok, s2)" by fastforce
  have "reads s s2" if "\<not> isAtEnd s1"
  proof -
    have "reads s (advance s1)"
      using that s1(2) reads1_reads [OF advance_reads1 [of s1]] reads_trans by (auto simp: isAtEnd_def)
    then show ?thesis by (rule reads_same) (use makeToken_fields [OF mt] in simp_all)
  qed
  then show ?thesis
    using s1 mt errorToken_ok [OF s1(2)]
    by (auto simp: singleQuotedString_def with_lexeme_def Let_def intro: tok_ok_lexeme)
qed

subsection \<open>Heredocs\<close>

lemma scanLine_spec:
  assumes "good s" "scanLine buf s = (buf1, n, s1)"
  shows "reads s s1" "n \<le> sc_currentIndex s1 - sc_currentIndex s" "n = sc_currentIndex s1 - sc_currentIndex s"
  using advance_while_reads [OF assms(1), of not_eol] assms
  by (auto simp: scanLine_def slice_def reads_def good_def Let_def)

definition heredoc_step :: "bytes \<Rightarrow> bytes \<times> scanner \<Rightarrow> bytes \<times> scanner + (scan_error + token \<times> scanner)" where
  "heredoc_step pat x =
     (case x of (buf, s) \<Rightarrow>
        if isAtEnd s then Inr (Inr (errorToken ''Heredoc missing an end pattern'' s, s))
        else (let (buf1, lineLen, s2) = scanLine buf s
              in if lineLen > LINE_MAX then Inr (Inl OutOfBounds)
                 else if take (length pat) buf1 = pat then Inr (heredoc_token lineLen (length pat) s2)
                 else Inl (buf1, scanNewline s2)))"

text \<open>A line of a heredoc is never empty and its end is consumed, unless it is the last one and the
  source ends without a newline: then the line itself is not empty.\<close>

lemma heredoc_progress:
  assumes "good s" "\<not> isAtEnd s" "scanLine buf s = (buf1, n, s1)"
  shows "reads1 s (scanNewline s1)"
proof (cases "not_eol (peek s)")
  case True
  then have "reads1 s s1"
    using assms(2,3) peek_inside [of s] advance_while_reads1 [of s not_eol]
    by (auto simp: scanLine_def Let_def isAtEnd_def)
  then show ?thesis using scanNewline_reads reads1_trans(1) reads_good reads1_reads by blast
next
  case False
  then have s1: "s1 = s" using assms(3) advance_while_stop [of s not_eol]
    by (auto simp: scanLine_def Let_def)
  have nl: "peek s = nl \<or> peek s = cr" "peek s \<noteq> 0" using False assms(2) by (auto simp: not_eol_def isAtEnd_def)
  show ?thesis
  proof (cases "peek s = cr")
    case True
    then have c: "skipChar cr s = advance s" by (simp add: skipChar_def cr_def nl_def)
    have "reads1 s (advance s)" by (rule advance_reads1 [OF nl(2)])
    then show ?thesis unfolding s1 scanNewline_def c
      using skipChar_reads [of nl "advance s"] reads1_trans(1) reads_good [OF reads1_reads] by (simp add: nl_def)
  next
    case False
    then have "peek s = nl" "skipChar cr s = s" using nl by (auto simp: skipChar_def)
    then show ?thesis unfolding s1 scanNewline_def
      using advance_newline_reads1 [OF nl(2)] by (simp add: skipChar_def nl_def)
  qed
qed

lemma heredoc_token_ok:
  assumes "reads s s1" "n \<le> sc_currentIndex s1 - sc_currentIndex s"
  shows "tok_ok s (heredoc_token n m s1)"
proof -
  obtain t s2 where mt: "makeToken TOKEN_STRING_DQUOTE s1 = (t, s2)" by fastforce
  note f = makeToken_fields [OF mt]
  let ?i = "int (sc_currentIndex s2) - (int n - int m)"
  have "reads s (s2\<lparr>sc_currentIndex := nat ?i\<rparr>)" if "0 \<le> ?i" "?i \<le> int (length (sc_source s2))"
    using that f assms by (auto simp: reads_def good_def)
  then show ?thesis using mt
    by (auto simp: heredoc_token_def tok_ok_def with_lexeme_def Let_def)
qed

lemma tok_ok_back:
  assumes "reads s s1" "sc_tokenStartIdx s1 = sc_tokenStartIdx s" "tok_ok s1 r"
  shows "tok_ok s r"
  using assms reads_trans [OF assms(1)] by (auto simp: tok_ok_def split: sum.splits)

definition read_on :: "scanner \<Rightarrow> scan_error + token \<times> scanner \<Rightarrow> bool" where
  "read_on s r = (case r of Inl e \<Rightarrow> True | Inr (t, s') \<Rightarrow> reads s s' \<and> tk_lexeme t \<noteq> None)"

interpretation hd: scan_loop "\<lambda>(buf, s). heredoc_lines id pat buf s" "heredoc_step pat" snd read_on
  for pat
proof
  show "(case x of (buf, s) \<Rightarrow> heredoc_lines id pat buf s) =
    (case heredoc_step pat x of Inl y \<Rightarrow> (case y of (buf, s) \<Rightarrow> heredoc_lines id pat buf s)
      | Inr r \<Rightarrow> Some r)" for x
  proof (cases x)
    case (Pair buf s)
    show ?thesis unfolding Pair
      by (simp, subst heredoc_lines.simps) (auto simp: heredoc_step_def split: prod.split)
  qed
  show "reads1 (snd x) (snd y)" if "good (snd x)" "heredoc_step pat x = Inl y" for x y
    using that heredoc_progress [of "snd x" "fst x"]
    by (cases x) (auto simp: heredoc_step_def split: if_splits prod.splits)
  show "read_on (snd x) r" if "good (snd x)" "heredoc_step pat x = Inr r" for x r
  proof (cases x)
    case (Pair buf s)
    obtain buf1 n s2 where l: "scanLine buf s = (buf1, n, s2)" by (metis prod_cases3)
    have g: "good s" using that(1) Pair by simp
    have "tok_ok s (heredoc_token n m s2)" for m
      by (rule heredoc_token_ok [OF scanLine_spec(1,2) [OF g l]])
    moreover have "tk_lexeme t \<noteq> None" if "heredoc_token n m s2 = Inr (t, s')" for m t s'
      using that by (auto simp: heredoc_token_def with_lexeme_def Let_def split: prod.splits if_splits)
    ultimately have h: "read_on s (heredoc_token n m s2)" for m
      by (fastforce simp: read_on_def tok_ok_def split: sum.splits)
    show ?thesis
      using that(2) l h reads_refl [OF g]
      by (auto simp: Pair heredoc_step_def read_on_def errorToken_def split: if_splits)
  qed
  show "read_on s r" if "reads s s'" "read_on s' r" for s s' r
    using that reads_trans by (auto simp: read_on_def split: sum.splits)
qed

lemma heredoc_ok:
  assumes "good s" shows "\<exists>r. heredocString id g s = Some r \<and> tok_ok s r"
proof -
  let ?s1 = "advance_while not_eol s" and ?s2 = "scanNewline (advance_while not_eol s)"
  have r: "reads s ?s2"
    using advance_while_reads [OF assms] scanNewline_reads reads_trans reads_good by blast
  have r3: "reads s (?s2\<lparr>sc_tokenStartIdx := sc_currentIndex ?s2\<rparr>)"
    using r by (rule reads_same) simp_all
  obtain res where res: "heredoc_lines id p g (?s2\<lparr>sc_tokenStartIdx := sc_currentIndex ?s2\<rparr>) = Some (res p)"
    "read_on (?s2\<lparr>sc_tokenStartIdx := sc_currentIndex ?s2\<rparr>) (res p)" for p
    using hd.ends [of "(g, ?s2\<lparr>sc_tokenStartIdx := sc_currentIndex ?s2\<rparr>)"] reads_good [OF r3] by simp metis
  have "tok_ok s (res p)" for p
    using res(2) [of p] reads_trans [OF r3] by (auto simp: read_on_def tok_ok_def split: sum.splits)
  moreover have "tok_ok s (Inl e)" for e by (simp add: tok_ok_def)
  ultimately show ?thesis
    using res(1) errorToken_ok [OF r] by (auto simp: heredocString_def Let_def)
qed

subsection \<open>The token loop\<close>

definition returns_ok :: "scanner \<Rightarrow> scan_result \<Rightarrow> bool" where
  "returns_ok s res \<longleftrightarrow> (\<exists>r. res = Some r \<and> tok_ok s r)"

lemma returns_okI:
  "tok_ok s (Inr x) \<Longrightarrow> returns_ok s (ret x)"
  "tok_ok s r \<Longrightarrow> returns_ok s (Some r)"
  "\<exists>x. o1 = Some x \<and> tok_ok s (Inr x) \<Longrightarrow> returns_ok s (ret_option o1)"
  "\<exists>r. res = Some r \<and> tok_ok s r \<Longrightarrow> returns_ok s res"
  by (auto simp: returns_ok_def ret_def ret_option_def)

lemma returns_ok_if:
  "(P \<Longrightarrow> returns_ok s a) \<Longrightarrow> (\<not> P \<Longrightarrow> returns_ok s b) \<Longrightarrow> returns_ok s (if P then a else b)"
  by simp

lemma returns_ok_back:
  "reads s s1 \<Longrightarrow> sc_tokenStartIdx s1 = sc_tokenStartIdx s \<Longrightarrow> returns_ok s1 r \<Longrightarrow> returns_ok s r"
  by (auto simp: returns_ok_def intro: tok_ok_back)

lemma matchStr_start: "matchStr str s = (m, s') \<Longrightarrow> sc_tokenStartIdx s' = sc_tokenStartIdx s"
  by (auto simp: matchStr_def split: if_splits)

lemma less_ok: "good s \<Longrightarrow> returns_ok s (less_token id g s)"
proof -
  assume gd: "good s"
  obtain m1 s1 where m1: "match_char (ch CHR ''='') s = (m1, s1)" by fastforce
  obtain m2 s2 where m2: "matchStr (ascii ''<<'') s1 = (m2, s2)" by fastforce
  have r1: "reads s s1" "sc_tokenStartIdx s1 = sc_tokenStartIdx s"
    by (rule match_char_reads [OF gd m1], rule match_char_start [OF m1])
  have r2: "reads s s2" "sc_tokenStartIdx s2 = sc_tokenStartIdx s"
    using reads_trans [OF r1(1) matchStr_reads [OF reads_good [OF r1(1)] m2]] matchStr_start [OF m2] r1(2)
    by auto
  have "returns_ok s (heredocString id g s2)" "returns_ok s (ret (match_or c t2 t1 s2))" for c t2 t1
    by (rule returns_ok_back [OF r2 returns_okI(4) [OF heredoc_ok [OF reads_good [OF r2(1)]]]],
      rule returns_ok_back [OF r2 returns_okI(1) [OF match_or_ok [OF reads_good [OF r2(1)]]]])
  then show ?thesis
    using makeToken_ok [OF r1] m1 m2
    by (auto simp: less_token_def intro: returns_okI)
qed

lemma greater_ok: "good s \<Longrightarrow> tok_ok s (Inr (greater_token s))"
proof -
  assume gd: "good s"
  obtain m1 s1 where m1: "match_char (ch CHR ''='') s = (m1, s1)" by fastforce
  have r1: "reads s s1" "sc_tokenStartIdx s1 = sc_tokenStartIdx s"
    by (rule match_char_reads [OF gd m1], rule match_char_start [OF m1])
  show ?thesis
    using makeToken_ok [OF r1] m1 tok_ok_back [OF r1 match_or_ok [OF reads_good [OF r1(1)]]]
    by (auto simp: greater_token_def)
qed

lemma scan_char_ok: "good s \<Longrightarrow> returns_ok s (scan_char id g c s)"
proof -
  assume gd: "good s"
  have mk: "tok_ok s (Inr (makeToken t (indent_by c s)))" for t
    by (rule makeToken_ok [OF reads_same [OF reads_refl [OF gd]]]) simp_all
  have mk1: "tok_ok s (Inr (makeToken t s))" for t
    by (rule makeToken_ok [OF reads_refl [OF gd]]) simp
  have sq: "returns_ok s (ret_option (singleQuotedString id True (advance s)))" if "peek s = squote"
  proof (rule returns_ok_back)
    show r: "reads s (advance s)" using that by (intro reads1_reads [OF advance_reads1]) simp
    show "returns_ok (advance s) (ret_option (singleQuotedString id True (advance s)))"
      using squoted_ok [OF reads_good [OF r]] by (intro returns_okI(3))
  qed simp
  show ?thesis
  proof (cases "single_token c")
    case (Some t)
    then show ?thesis using mk by (simp add: scan_char_def returns_okI(1))
  next
    case None
    show ?thesis
      unfolding scan_char_def None option.case
      by (intro returns_ok_if returns_okI(1) match_or_ok gd mk1 less_ok greater_ok sq
          returns_okI(3) [OF dquoted_ok] returns_okI(3) [OF squoted_ok] returns_okI(2) [OF identifier_ok]
          errorToken_ok reads_refl) simp
  qed
qed

text \<open>What scanToken promises: it stands at the same place or later, strictly later unless the
  token is the end of the script, and the token describes the source.\<close>

definition token_post :: "scanner \<Rightarrow> scan_error + token \<times> scanner \<Rightarrow> bool" where
  "token_post s r =
     (case r of Inl e \<Rightarrow> True
      | Inr (t, s') \<Rightarrow> reads s s' \<and> (tk_type t \<noteq> TOKEN_EOF \<longrightarrow> sc_currentIndex s < sc_currentIndex s') \<and>
          (tk_lexeme t = None \<longrightarrow> sc_currentIndex s \<le> tk_startIdx t \<and> 0 \<le> tk_length t \<and>
             int (tk_startIdx t) + tk_length t = int (sc_currentIndex s')))"

lemma token_post_back: "reads s s1 \<Longrightarrow> token_post s1 r \<Longrightarrow> token_post s r"
  using reads_trans [of s s1] by (auto simp: token_post_def reads_def split: sum.splits)

lemma token_post_piece:
  assumes "tok_ok s r" "sc_tokenStartIdx s < sc_currentIndex s" "reads s0 s"
    "sc_currentIndex s0 = sc_tokenStartIdx s"
  shows "token_post s0 r"
  using assms reads_trans [OF assms(3)]
  by (auto simp: token_post_def tok_ok_def reads_def split: sum.splits)

definition token_step :: "bytes \<Rightarrow> scanner \<Rightarrow> scanner + (scan_error + token \<times> scanner)" where
  "token_step g s0 =
     (let s1 = the (skipWhitespace id s0); s = s1\<lparr>sc_tokenStartIdx := sc_currentIndex s1\<rparr>; c = peek s
      in if isAtEnd s then Inr (Inr (makeToken TOKEN_EOF s))
         else if isDigit c then Inr (Inr (number c (advance s)))
         else if c = ch CHR ''.'' \<and> sc_afterDot s then
           (if sc_currentIndex (advance (advance s)) > length (sc_source s) then Inr (Inl OutOfBounds)
            else Inl (advance (advance s)))
         else Inr (the (scan_char id g c (advance s))))"

interpretation tk: scan_loop "scanToken id g" "token_step g" "\<lambda>s. s" token_post for g
proof
  fix x assume gx: "good x"
  obtain s1 where s1: "skipWhitespace id x = Some s1" "reads x s1" using ws.ends [of x] gx by auto
  let ?s = "s1\<lparr>sc_tokenStartIdx := sc_currentIndex s1\<rparr>"
  have rs: "reads x ?s" using s1(2) by (rule reads_same) simp_all
  have adv: "reads ?s (advance ?s)" "good (advance ?s)" if "\<not> isAtEnd ?s"
    using that reads1_reads [OF advance_reads1 [of ?s]] reads_good by (auto simp: isAtEnd_def)
  show "scanToken id g x = (case token_step g x of Inl y \<Rightarrow> scanToken id g y | Inr r \<Rightarrow> Some r)"
    using scan_char_ok [OF adv(2), of g "peek ?s"]
    by (subst scanToken.simps) (auto simp: token_step_def s1(1) ret_def Let_def returns_ok_def)
  show "reads1 x y" if "token_step g x = Inl y" for y
    using that rs by (auto simp: token_step_def s1(1) Let_def reads1_def reads_def good_def split: if_splits)
  show "token_post x r" if st: "token_step g x = Inr r" for r
  proof (cases "isAtEnd ?s")
    case True
    obtain t s2 where mt: "makeToken TOKEN_EOF ?s = (t, s2)" by fastforce
    have "reads x s2" using rs makeToken_fields [OF mt] by (intro reads_same [OF rs]) simp_all
    then show ?thesis using st True mt makeToken_fields [OF mt] rs
      by (auto simp: token_step_def s1(1) Let_def token_post_def reads_def)
  next
    case False
    have piece: "token_post x r'" if "tok_ok (advance ?s) r'" for r'
      by (rule token_post_back [OF rs token_post_piece [OF that _ adv(1) [OF False]]]) simp_all
    note ok = number_ok [OF adv(2) [OF False]] scan_char_ok [OF adv(2) [OF False]]
    have "token_post x (Inl e)" for e by (simp add: token_post_def)
    moreover have "token_post x (Inr (number (peek ?s) (advance ?s)))" by (rule piece [OF ok(1)])
    moreover have "token_post x (the (scan_char id g (peek ?s) (advance ?s)))"
      using ok(2) [of g "peek ?s"] piece by (auto simp: returns_ok_def)
    ultimately show ?thesis using st False
      by (auto simp: token_step_def s1(1) Let_def split: if_splits)
  qed
qed (rule token_post_back)

lemma good_init: "good (initScanner src)"
  by (simp add: good_def initScanner_def)

definition all_step :: "bytes \<Rightarrow> token list \<times> scanner \<Rightarrow> token list \<times> scanner + (scan_error + token list)" where
  "all_step g x =
     (case x of (acc, s) \<Rightarrow>
        (case the (scanToken id g s) of
           Inl e \<Rightarrow> Inr (Inl e)
         | Inr (tok, s1) \<Rightarrow>
             if tk_type tok = TOKEN_EOF then Inr (Inr (rev (tok # acc))) else Inl (tok # acc, s1)))"

definition ends_in_eof :: "scan_error + token list \<Rightarrow> bool" where
  "ends_in_eof r = (case r of Inl e \<Rightarrow> True | Inr ts \<Rightarrow> ts \<noteq> [] \<and> tk_type (last ts) = TOKEN_EOF)"

interpretation al: scan_loop "\<lambda>(acc, s). scanAll id g acc s" "all_step g" snd "\<lambda>_. ends_in_eof" for g
proof
  fix x :: "token list \<times> scanner" assume gx: "good (snd x)"
  obtain acc s where x: "x = (acc, s)" by fastforce
  obtain r where r: "scanToken id g s = Some r" "token_post s r" using tk.ends [of s g] gx x by auto
  show "(case x of (acc, s) \<Rightarrow> scanAll id g acc s) =
    (case all_step g x of Inl y \<Rightarrow> (case y of (acc, s) \<Rightarrow> scanAll id g acc s) | Inr r \<Rightarrow> Some r)"
    unfolding x by (simp, subst scanAll.simps) (auto simp: all_step_def r(1) split: sum.split)
  show "reads1 (snd x) (snd y)" if "all_step g x = Inl y" for y
    using that r(2) by (auto simp: x all_step_def r(1) token_post_def reads1_def split: sum.splits if_splits)
  show "ends_in_eof r'" if "all_step g x = Inr r'" for r'
    using that by (auto simp: x all_step_def ends_in_eof_def split: sum.splits if_splits)
qed

end
