(* ===== verification/Clox_Scanner_Props.thy ===== *)
theory Clox_Scanner_Props
  imports Clox_Scanner_Laws
begin

text \<open>The properties of the scanner: it ends on every source, its tokens are slices of the source,
  identifiers are scanned to their full length and recognised as keywords, double-quoted strings
  give back the text that was escaped, and three sources on which it goes wrong.\<close>

subsection \<open>Loops as functions on the rest of the source\<close>

definition rest :: "scanner \<Rightarrow> bytes" where
  "rest s = drop (sc_currentIndex s) (sc_source s)"

lemma rest_Cons: "rest s = c # cs \<Longrightarrow> sc_currentIndex s < length (sc_source s)"
  by (cases "sc_currentIndex s < length (sc_source s)") (simp_all add: rest_def)

lemma peek_rest: "peek s = (case rest s of [] \<Rightarrow> 0 | c # cs \<Rightarrow> c)"
  by (cases "sc_currentIndex s < length (sc_source s)")
    (auto simp: peek_def src_at_def rest_def Cons_nth_drop_Suc [symmetric] split: list.split)

lemma rest_advance: "rest (advance s) = tl (rest s)"
  by (simp add: rest_def tl_drop drop_Suc)

lemma advance_ended [simp]: "sc_scriptEnded (advance s) = sc_scriptEnded s"
  "sc_scriptEnded (newline s) = sc_scriptEnded s"
  by (simp_all add: advance_def newline_def)

lemma drop_two: "drop (length x + length y) (x @ y @ z) = z"
  by (metis append_assoc append_eq_conv_conj length_append)

lemma rest_newline [simp]: "rest (newline s) = rest s"
  by (simp add: rest_def)

lemma advance_while_rest:
  "advance_while p s = s\<lparr>sc_currentIndex := sc_currentIndex s + length (takeWhile p (rest s))\<rparr>"
proof (induction p s rule: advance_while.induct)
  case (1 p s)
  show ?case
  proof (cases "sc_currentIndex s < length (sc_source s) \<and> p (peek s)")
    case True
    then have r: "rest s = peek s # rest (advance s)"
      by (simp add: rest_def peek_def src_at_def Cons_nth_drop_Suc)
    have "advance_while p s = advance_while p (advance s)" using True by (rule advance_while_step)
    also have "\<dots> = s\<lparr>sc_currentIndex := sc_currentIndex s + 1 + length (takeWhile p (rest (advance s)))\<rparr>"
      using 1 True by (simp add: advance_def)
    finally show ?thesis using True r by simp
  next
    case False
    then have "takeWhile p (rest s) = []"
      by (cases "rest s") (auto simp: peek_rest dest: rest_Cons)
    then show ?thesis using False by (simp add: advance_while_stop)
  qed
qed

subsection \<open>Termination and slices\<close>

text \<open>C24: scanning a whole source ends, whatever its bytes are: after finitely many tokens the scanner
  either reaches the end of the script or stops with one of the modelled errors.\<close>

theorem scanner_terminates:
  "\<exists>r. scanAll id garbage [] (initScanner src) = Some r \<and> ends_in_eof r"
  using al.ends [of "([], initScanner src)" garbage] good_init by simp



subsection \<open>Identifiers\<close>

lemma alpha_not_special:
  assumes "isAlpha c"
  shows "single_token c = None" "\<not> isDigit c" "c \<noteq> ch CHR '' ''" "c \<noteq> cr" "c \<noteq> tab" "c \<noteq> nl"
    "c \<noteq> ch CHR ''/''" "c \<noteq> ch CHR '':''" "c \<noteq> ch CHR ''.''" "c \<noteq> ch CHR ''-''" "c \<noteq> ch CHR ''!''"
    "c \<noteq> ch CHR ''=''" "c \<noteq> ch CHR ''<''" "c \<noteq> ch CHR ''>''" "c \<noteq> dquote" "c \<noteq> squote" "c \<noteq> 0"
proof -
  show "single_token c = None"
  proof (rule ccontr)
    assume "single_token c \<noteq> None"
    then obtain t where "(c, t) \<in> set (map (\<lambda>(x, t). (ch x, t)) single_chars)"
      unfolding single_token_def by (metis map_of_SomeD not_None_eq)
    then show False using assms by (auto simp: single_chars_def isAlpha_def)
  qed
  show "\<not> isDigit c"
  proof
    assume "isDigit c"
    then have "c \<le> 57" by (simp add: isDigit_def)
    then show False using assms
      by (auto simp: isAlpha_def word_le_nat_alt)
  qed
qed (use assms in \<open>auto simp: isAlpha_def cr_def tab_def nl_def dquote_def squote_def\<close>)

lemma no_white: "skip_one id s = None \<Longrightarrow> skipWhitespace id s = Some s"
  by (subst skipWhitespace.simps) simp

lemma alpha_no_white: "isAlpha (peek s) \<Longrightarrow> skipWhitespace id s = Some s"
  by (rule no_white) (use alpha_not_special [of "peek s"] in \<open>simp add: skip_one_def Let_def\<close>)

text \<open>The type an identifier gets.\<close>

definition word_type :: "bytes \<Rightarrow> token_type" where
  "word_type w =
     (case lookup_keyword w keyword_table of
        None \<Rightarrow> TOKEN_IDENTIFIER
      | Some ty \<Rightarrow> if ty = TOKEN_END_SCRIPT then TOKEN_EOF else ty)"

lemma keyword_not_identifier: "lookup_keyword w keyword_table \<noteq> Some TOKEN_IDENTIFIER"
  by (simp add: keyword_table_def)



subsection \<open>Escapes\<close>

definition escape :: "bytes \<Rightarrow> bytes" where
  "escape w = concat (map (\<lambda>c. if c = dquote then [bslash, dquote] else [c]) w)"

lemma strReplace_none: "strstr u sub = None \<Longrightarrow> strReplace u sub r = u"
  by (subst strReplace.simps) simp

lemma strReplace_first:
  "length sub \<ge> 2 \<Longrightarrow> strstr u sub = Some i \<Longrightarrow>
     strReplace u sub r = strReplace (take i u @ [r] @ drop (i + length sub) u) sub r"
  by (subst strReplace.simps) simp

lemma strstr_absent: "x \<notin> set u \<Longrightarrow> strstr u (x # sub) = None"
  by (induction u) auto

lemma strstr_behind: "x \<notin> set u \<Longrightarrow> strstr (u @ (x # sub) @ v) (x # sub) = Some (length u)"
  by (induction u) auto

lemma escape_simps [simp]:
  "escape [] = []" "escape (u @ v) = escape u @ escape v" "escape (dquote # v) = [bslash, dquote] @ escape v"
  by (simp_all add: escape_def)

lemma escape_plain: "dquote \<notin> set u \<Longrightarrow> escape u = u"
  unfolding escape_def by (induction u) auto

lemma strReplace_escape:
  "bslash \<notin> set u \<Longrightarrow> bslash \<notin> set w \<Longrightarrow>
     strReplace (u @ escape w) [bslash, dquote] dquote = u @ w"
proof (induction "length w" arbitrary: u w rule: less_induct)
  case less
  show ?case
  proof (cases "dquote \<in> set w")
    case False
    then have "strstr (u @ escape w) [bslash, dquote] = None"
      using less.prems by (intro strstr_absent) (simp add: escape_plain)
    then show ?thesis using False by (simp add: strReplace_none escape_plain)
  next
    case True
    then obtain a b where w: "w = a @ dquote # b" "dquote \<notin> set a" by (meson split_list_first)
    have e: "u @ escape w = (u @ a) @ [bslash, dquote] @ escape b" by (simp add: w escape_plain)
    have first: "strstr (u @ escape w) [bslash, dquote] = Some (length (u @ a))"
      unfolding e by (rule strstr_behind) (use less.prems w in auto)
    have "take (length (u @ a)) (u @ escape w) = u @ a" unfolding e by simp
    moreover have "drop (length (u @ a) + length [bslash, dquote]) (u @ escape w) = escape b"
      unfolding e by (rule drop_two)
    ultimately have "strReplace (u @ escape w) [bslash, dquote] dquote =
        strReplace ((u @ a @ [dquote]) @ escape b) [bslash, dquote] dquote"
      using strReplace_first [OF _ first, of dquote] by simp
    also have "\<dots> = (u @ a @ [dquote]) @ b"
      using less.prems w by (intro less.hyps) (auto simp: dquote_def bslash_def)
    finally show ?thesis by (simp add: w)
  qed
qed

lemma unescape_escape: "bslash \<notin> set w \<Longrightarrow> unescape (escape w) = w"
  using strReplace_escape [of "[]" w]
  by (simp add: unescape_def strReplace_none strstr_absent)

lemma string_loop_escape:
  "rest s = escape w @ dquote # v \<Longrightarrow> prevc \<noteq> bslash \<Longrightarrow> bslash \<notin> set w \<Longrightarrow> 0 \<notin> set w \<Longrightarrow>
     \<not> sc_scriptEnded s \<Longrightarrow>
     \<exists>s'. string_loop id dquote prevc s = Some s' \<and> sc_source s' = sc_source s \<and>
       sc_tokenStartIdx s' = sc_tokenStartIdx s \<and> \<not> sc_scriptEnded s' \<and>
       sc_currentIndex s' = sc_currentIndex s + length (escape w)"
proof (induction w arbitrary: s prevc)
  case Nil
  then show ?case
    by (subst string_loop.simps) (auto simp: peek_rest isAtEnd_def escape_def)
next
  case (Cons c w)
  show ?case
  proof (cases "c = dquote")
    case True
    let ?s1 = "advance s" and ?s2 = "advance (advance s)"
    have r: "rest s = bslash # dquote # escape w @ dquote # v" using Cons.prems(1) True by simp
    have "string_loop id dquote prevc s = string_loop id dquote bslash ?s1"
      using r Cons.prems by (subst string_loop.simps)
        (auto simp: peek_rest isAtEnd_def dquote_def bslash_def nl_def)
    moreover have "string_loop id dquote bslash ?s1 = string_loop id dquote dquote ?s2"
      using r Cons.prems by (subst string_loop.simps)
        (auto simp: peek_rest isAtEnd_def rest_advance dquote_def bslash_def)
    moreover have "rest ?s2 = escape w @ dquote # v" using r by (simp add: rest_advance)
    then have "\<exists>s'. string_loop id dquote dquote ?s2 = Some s' \<and> sc_source s' = sc_source ?s2 \<and>
       sc_tokenStartIdx s' = sc_tokenStartIdx ?s2 \<and> \<not> sc_scriptEnded s' \<and>
       sc_currentIndex s' = sc_currentIndex ?s2 + length (escape w)"
      by (rule Cons.IH) (use Cons.prems in \<open>auto simp: dquote_def bslash_def\<close>)
    ultimately show ?thesis by (simp add: True id_def)
  next
    case False
    let ?s1 = "advance (if c = nl then newline s else s)"
    have e: "escape (c # w) = c # escape w" using False by (simp add: escape_def)
    have r: "rest s = c # escape w @ dquote # v" using Cons.prems(1) e by simp
    have "string_loop id dquote prevc s = string_loop id dquote c ?s1"
      using r Cons.prems False by (subst string_loop.simps) (auto simp: peek_rest isAtEnd_def)
    moreover have "rest ?s1 = escape w @ dquote # v" using r by (simp add: rest_advance)
    then have "\<exists>s'. string_loop id dquote c ?s1 = Some s' \<and> sc_source s' = sc_source ?s1 \<and>
       sc_tokenStartIdx s' = sc_tokenStartIdx ?s1 \<and> \<not> sc_scriptEnded s' \<and>
       sc_currentIndex s' = sc_currentIndex ?s1 + length (escape w)"
      by (rule Cons.IH) (use Cons.prems in auto)
    moreover have "sc_source ?s1 = sc_source s" "sc_tokenStartIdx ?s1 = sc_tokenStartIdx s"
      "sc_currentIndex ?s1 = sc_currentIndex s + 1" by simp_all
    ultimately show ?thesis by (simp add: e id_def)
  qed
qed

text \<open>C30: a text without backslashes, written between double quotes with its own double quotes
  escaped, scans to a string token whose lexeme is the text again.\<close>

theorem string_literal_roundtrip:
  assumes "bslash \<notin> set w" "0 \<notin> set w"
  shows "\<exists>t s'. scanToken id garbage (initScanner ([dquote] @ escape w @ [dquote] @ tail)) = Some (Inr (t, s')) \<and>
    tk_type t = TOKEN_STRING_DQUOTE \<and> tk_lexeme t = Some w \<and> sc_currentIndex s' = length (escape w) + 2"
proof -
  let ?src = "[dquote] @ escape w @ [dquote] @ tail"
  define s where "s = initScanner ?src"
  have fl: "sc_source s = ?src" "sc_currentIndex s = 0" "sc_tokenStartIdx s = 0" "\<not> sc_scriptEnded s"
    "s\<lparr>sc_tokenStartIdx := 0\<rparr> = s" by (simp_all add: s_def initScanner_def)
  have pk: "peek s = dquote" by (simp add: peek_def src_at_def fl)
  have ws: "skipWhitespace id s = Some s"
    by (rule no_white, unfold skip_one_def Let_def pk) (simp add: dquote_def cr_def tab_def nl_def)
  have "rest (advance s) = escape w @ dquote # tail" by (simp add: rest_def advance_def fl)
  then obtain s1 where s1: "string_loop id dquote 0 (advance s) = Some s1" "sc_source s1 = ?src"
    "sc_tokenStartIdx s1 = 0" "\<not> sc_scriptEnded s1" "sc_currentIndex s1 = 1 + length (escape w)"
    using string_loop_escape [of "advance s" w tail 0] assms fl
    by (auto simp: advance_def bslash_def)
  have "peek s1 = dquote" using s1 by (simp add: peek_def src_at_def nth_append)
  then have inside: "\<not> isAtEnd s1" using s1 by (simp add: isAtEnd_def dquote_def)
  obtain t s2 where mt: "makeToken TOKEN_STRING_DQUOTE (advance s1) = (t, s2)" by fastforce
  note f = makeToken_fields [OF mt]
  have lex: "slice s2 (Suc 0) (nat (tk_length t - 2)) = escape w"
    using f s1 by (simp add: slice_def)
  let ?t = "with_lexeme w (t\<lparr>tk_startIdx := tk_startIdx t + 1, tk_length := tk_length t - 2\<rparr>)"
  have "doubleQuotedString id (advance s) = Some (?t, s2)"
    using s1(1) inside mt lex f s1(3) unescape_escape [OF assms(1)] by (simp add: doubleQuotedString_def)
  then have "scan_char id garbage dquote (advance s) = Some (Inr (?t, s2))"
    by (simp add: scan_char_def single_token_def single_chars_def dquote_def ret_option_def)
  moreover have "\<not> isDigit dquote" "dquote \<noteq> ch CHR ''.''" by (simp_all add: isDigit_def dquote_def)
  then have "scanToken id garbage s = scan_char id garbage dquote (advance s)"
    by (subst scanToken.simps) (simp add: ws pk fl isAtEnd_def)
  ultimately show ?thesis using f s1(5) unfolding s_def [symmetric] by (auto simp: with_lexeme_def)
qed

theorem string_literal_roundtrip_witness:
  "\<exists>t s'. scanToken id [] (initScanner ([dquote] @ escape (ascii ''a'' @ [dquote]) @ [dquote] @ ascii '';'')) =
      Some (Inr (t, s')) \<and> tk_type t = TOKEN_STRING_DQUOTE \<and> tk_lexeme t = Some (ascii ''a'' @ [dquote]) \<and>
    sc_currentIndex s' = length (escape (ascii ''a'' @ [dquote])) + 2"
  by (rule string_literal_roundtrip) (simp_all add: ascii_def bslash_def dquote_def)

subsection \<open>Where the scanner goes wrong\<close>

definition token_types :: "bytes \<Rightarrow> (scan_error + token_type list) option" where
  "token_types src = map_option (map_sum id (map tk_type)) (scanAll id [] [] (initScanner src))"

text \<open>Every nonempty prefix of __LINE__ (the identifiers _, __, __L and so on) is scanned as a
  number, the current line.\<close>

theorem line_prefixes_are_numbers:
  "map (\<lambda>n. token_types (take n (ascii ''__LINE__''))) [1, 2, 3, 4, 5, 6, 7, 8] =
     replicate 8 (Some (Inr [TOKEN_NUMBER, TOKEN_EOF]))"
  by code_simp

text \<open>The end pattern of a heredoc is looked for in a line buffer that still holds the tail of
  the previous line: after the line XOS the line E ends a heredoc with the pattern EOS, and the
  text behind it is scanned as code.\<close>

theorem heredoc_ends_on_stale_line:
  "token_types (ascii ''<<<EOS'' @ [nl] @ ascii ''XOS'' @ [nl] @ ascii ''E'' @ [nl] @ ascii ''y;'' @ [nl] @
       ascii ''EOS;'') =
     Some (Inr [TOKEN_STRING_DQUOTE, TOKEN_SEMICOLON, TOKEN_IDENTIFIER, TOKEN_SEMICOLON, TOKEN_EOF])"
  by code_simp

text \<open>A dot directly behind a dot makes the scanner skip the next character without a test: at
  the end of the source it reads behind the terminating NUL, otherwise a character is lost.\<close>

theorem double_dot_skips_a_character:
  "token_types (ascii ''a..'') = Some (Inl OutOfBounds) \<and>
   token_types (ascii ''a..b;'') = Some (Inr [TOKEN_IDENTIFIER, TOKEN_DOT, TOKEN_SEMICOLON, TOKEN_EOF])"
  by code_simp

end
