(* ===== verification/Clox_Class.thy ===== *)
theory Clox_Class
  imports Clox_GC_Laws
begin

unbundle bit_operations_syntax

text \<open>Allocation of objects, classes and modules, and the resolution of methods (object.c). An
  object is created in a slot that getNewObject hands out; the collector's state and the stack of
  new objects of the running thread are threaded through. The constructors that the VM runs on
  new classes and modules are an argument. A walk up the superclasses that does not end, or that
  meets an object that is no class, has the result None.\<close>

subsection \<open>State and environment\<close>

record core_classes =
  lxObjClass :: addr
  lxClassClass :: addr
  lxModuleClass :: addr
  lxStringClass :: addr
  lxAryClass :: addr
  lxMapClass :: addr
  lxRegexClass :: addr

record mem =
  m_gc :: gc_state
  m_stackObjects :: "addr list"

record obj_env =
  oe_new :: "bool \<Rightarrow> gc_state \<Rightarrow> (addr \<times> gc_state) option"
  oe_inCCall :: bool
  oe_classes :: core_classes
  oe_vmInited :: bool
  oe_nativeInit :: "addr \<Rightarrow> mem \<Rightarrow> mem"

definition NEWOBJ_FLAG_NONE :: u16 where "NEWOBJ_FLAG_NONE = 0"
definition NEWOBJ_FLAG_OLD :: u16 where "NEWOBJ_FLAG_OLD = 1"
definition NEWOBJ_FLAG_FROZEN :: u16 where "NEWOBJ_FLAG_FROZEN = 2"
definition NEWOBJ_FLAG_HIDDEN :: u16 where "NEWOBJ_FLAG_HIDDEN = 4"

abbreviation OBJ_VAL :: "addr \<Rightarrow> lxvalue" where "OBJ_VAL p \<equiv> objectToValue p"

definition on_gc :: "(gc_state \<Rightarrow> gc_state) \<Rightarrow> mem \<Rightarrow> mem" where
  "on_gc f m = m\<lparr>m_gc := f (m_gc m)\<rparr>"

definition obj_at :: "mem \<Rightarrow> addr \<Rightarrow> obj option" where
  "obj_at m p = gc_heap (m_gc m) p"

definition OBJ_WRITE :: "addr \<Rightarrow> addr \<Rightarrow> mem \<Rightarrow> mem" where
  "OBJ_WRITE owner p m = on_gc (objWrite (OBJ_VAL owner) (OBJ_VAL p)) m"

definition write_if :: "addr \<Rightarrow> addr \<Rightarrow> mem \<Rightarrow> mem" where
  "write_if owner p m = (if p \<noteq> NULL then OBJ_WRITE owner p m else m)"

definition GC_PROMOTE :: "addr \<Rightarrow> nat \<Rightarrow> mem \<Rightarrow> mem" where
  "GC_PROMOTE p gen m = on_gc (GCPromote p gen) m"

definition GC_OLD :: "addr \<Rightarrow> mem \<Rightarrow> mem" where
  "GC_OLD p m = on_gc (GCPromote p GC_GEN_MAX) m"

definition obj_set_flag :: "addr \<Rightarrow> u16 \<Rightarrow> mem \<Rightarrow> mem" where
  "obj_set_flag p f m = on_gc (on_obj p (\<lambda>ob. ob\<lparr>o_flags := set_flag (o_flags ob) f\<rparr>)) m"

definition set_body :: "addr \<Rightarrow> (obj_body \<Rightarrow> obj_body) \<Rightarrow> mem \<Rightarrow> mem" where
  "set_body p f m = on_gc (on_obj p (\<lambda>ob. ob\<lparr>o_body := f (o_body ob)\<rparr>)) m"

subsection \<open>Allocation\<close>

text \<open>allocateObject, with the body that its caller fills in. The count of a generation goes up
  for the new object.\<close>

definition allocateObject :: "obj_env \<Rightarrow> obj_body \<Rightarrow> u16 \<Rightarrow> mem \<Rightarrow> (addr \<times> mem) option" where
  "allocateObject env body flags m =
     (case oe_new env (flags AND NEWOBJ_FLAG_OLD \<noteq> 0) (m_gc m) of
        None \<Rightarrow> None
      | Some (p, s) \<Rightarrow>
          (let gen = (if flags AND NEWOBJ_FLAG_OLD \<noteq> 0 then GC_GEN_MAX else GC_GEN_MIN);
               fl0 = OBJ_FLAG_NONE;
               fl1 = (if flags AND NEWOBJ_FLAG_HIDDEN \<noteq> 0 then fl0 OR OBJ_FLAG_NOGC else fl0);
               fl2 = (if flags AND NEWOBJ_FLAG_FROZEN \<noteq> 0 then fl1 OR OBJ_FLAG_FROZEN else fl1);
               s1 = on_obj p (\<lambda>ob. ob\<lparr>o_body := body, o_objectId := p, o_flags := fl2, o_GCGen := gen\<rparr>) s;
               s2 = s1\<lparr>gc_generations := (gc_generations s1)[gen := gc_generations s1 ! gen + 1]\<rparr>
           in Some (p, \<lparr>m_gc = s2,
                m_stackObjects = m_stackObjects m @ (if oe_inCCall env then [p] else [])\<rparr>)))"

definition new_hdr :: "addr \<Rightarrow> inst_hdr" where
  "new_hdr klass = \<lparr>i_klass = klass, i_singletonKlass = NULL, i_finalizerFunc = NULL, i_fields = initTable\<rparr>"

definition instance_like :: "(addr \<times> mem) option \<Rightarrow> (addr \<times> mem) option" where
  "instance_like r = map_option (\<lambda>(p, m). (p, obj_set_flag p OBJ_FLAG_INSTANCE_LIKE m)) r"

definition allocateString :: "obj_env \<Rightarrow> strbuf \<Rightarrow> addr \<Rightarrow> u16 \<Rightarrow> mem \<Rightarrow> (addr \<times> mem) option" where
  "allocateString env buf klass flags m =
     instance_like (allocateObject env (BString (new_hdr klass) buf) flags m)"

definition allocateRegex :: "obj_env \<Rightarrow> addr \<Rightarrow> u16 \<Rightarrow> mem \<Rightarrow> (addr \<times> mem) option" where
  "allocateRegex env klass flags m =
     instance_like (allocateObject env (BRegex (new_hdr klass) NULL) flags m)"

definition allocateArray :: "obj_env \<Rightarrow> addr \<Rightarrow> u16 \<Rightarrow> mem \<Rightarrow> (addr \<times> mem) option" where
  "allocateArray env klass flags m =
     instance_like (allocateObject env (BArray (new_hdr klass) initValueArray) flags m)"

definition allocateMap :: "obj_env \<Rightarrow> addr \<Rightarrow> u16 \<Rightarrow> mem \<Rightarrow> (addr \<times> mem) option" where
  "allocateMap env klass flags m =
     instance_like (allocateObject env (BMap (new_hdr klass) initTable) flags m)"

definition newClassInfo :: "addr \<Rightarrow> class_info" where
  "newClassInfo name = \<lparr>ci_methods = initTable, ci_getters = initTable, ci_setters = initTable,
     ci_constants = initTable, ci_name = name, ci_under = NULL, ci_superclass = NULL,
     ci_includedMods = [], ci_singletonOf = NULL\<rparr>"

fun on_info :: "(class_info \<Rightarrow> class_info) \<Rightarrow> obj_body \<Rightarrow> obj_body" where
  "on_info f (BClass i ci) = BClass i (f ci)"
| "on_info f (BModule i ci) = BModule i (f ci)"
| "on_info f b = b"

fun on_hdr :: "(inst_hdr \<Rightarrow> inst_hdr) \<Rightarrow> obj_body \<Rightarrow> obj_body" where
  "on_hdr f (BString i x) = BString (f i) x"
| "on_hdr f (BArray i x) = BArray (f i) x"
| "on_hdr f (BMap i x) = BMap (f i) x"
| "on_hdr f (BRegex i x) = BRegex (f i) x"
| "on_hdr f (BInstance i x) = BInstance (f i) x"
| "on_hdr f (BClass i x) = BClass (f i) x"
| "on_hdr f (BModule i x) = BModule (f i) x"
| "on_hdr f b = b"

definition newClass :: "obj_env \<Rightarrow> addr \<Rightarrow> addr \<Rightarrow> u16 \<Rightarrow> mem \<Rightarrow> (addr \<times> mem) option" where
  "newClass env name superclass flags m =
     (case allocateObject env
             (BClass (new_hdr (lxClassClass (oe_classes env))) (newClassInfo name)) (flags OR NEWOBJ_FLAG_OLD) m of
        None \<Rightarrow> None
      | Some (p, m1) \<Rightarrow>
          (let m2 = write_if p name m1;
               m3 = set_body p (on_info (\<lambda>ci. ci\<lparr>ci_superclass := superclass\<rparr>)) m2;
               m4 = obj_set_flag p OBJ_FLAG_INSTANCE_LIKE (write_if p superclass m3)
           in Some (p, GC_OLD p (oe_nativeInit env p m4))))"

definition newModule :: "obj_env \<Rightarrow> addr \<Rightarrow> u16 \<Rightarrow> mem \<Rightarrow> (addr \<times> mem) option" where
  "newModule env name flags m =
     (if lxModuleClass (oe_classes env) = NULL then None
      else case allocateObject env
             (BModule (new_hdr (lxModuleClass (oe_classes env))) (newClassInfo name)) (flags OR NEWOBJ_FLAG_OLD) m of
        None \<Rightarrow> None
      | Some (p, m1) \<Rightarrow>
          (let m2 = obj_set_flag p OBJ_FLAG_INSTANCE_LIKE (write_if p name m1)
           in Some (p, GC_OLD p (oe_nativeInit env p m2))))"

definition newIClass :: "obj_env \<Rightarrow> addr \<Rightarrow> addr \<Rightarrow> u16 \<Rightarrow> mem \<Rightarrow> (addr \<times> mem) option" where
  "newIClass env klass md flags m =
     (case allocateObject env
             (BIClass \<lparr>ic_klass = klass, ic_mod = md, ic_superklass = NULL, ic_isSetup = False\<rparr>)
             (flags OR NEWOBJ_FLAG_OLD) m of
        None \<Rightarrow> None
      | Some (p, m1) \<Rightarrow> Some (p, OBJ_WRITE p md (OBJ_WRITE p klass m1)))"

definition newBoundMethod :: "obj_env \<Rightarrow> addr \<Rightarrow> addr \<Rightarrow> u16 \<Rightarrow> mem \<Rightarrow> (addr \<times> mem) option" where
  "newBoundMethod env receiver callable flags m =
     (if receiver = NULL \<or> callable = NULL then None
      else case allocateObject env (BBoundMethod (OBJ_VAL receiver) callable) flags m of
        None \<Rightarrow> None
      | Some (p, m1) \<Rightarrow> Some (p, OBJ_WRITE p callable (OBJ_WRITE p receiver m1)))"

definition newNative :: "obj_env \<Rightarrow> addr \<Rightarrow> addr \<Rightarrow> u16 \<Rightarrow> mem \<Rightarrow> (addr \<times> mem) option" where
  "newNative env name function flags m =
     (if function = NULL then None
      else case allocateObject env
             (BNative \<lparr>nt_function = function, nt_name = name, nt_klass = NULL, nt_isStatic = False\<rparr>)
             (flags OR NEWOBJ_FLAG_OLD) m of
        None \<Rightarrow> None
      | Some (p, m1) \<Rightarrow> Some (p, GC_OLD p (write_if p name m1)))"

definition newUpvalue :: "obj_env \<Rightarrow> nat \<Rightarrow> u16 \<Rightarrow> mem \<Rightarrow> (addr \<times> mem) option" where
  "newUpvalue env slot flags m =
     allocateObject env (BUpvalue \<lparr>up_value = UpSlot slot, up_closed = NIL_VAL, up_next = NULL\<rparr>) flags m"

definition newScope :: "obj_env \<Rightarrow> addr \<Rightarrow> obj_function \<Rightarrow> mem \<Rightarrow> (addr \<times> mem) option" where
  "newScope env userFunc f m =
     allocateObject env (BScope userFunc (nat (fn_localCount f)) (replicate (nat (fn_localCount f)) NIL_VAL)) NEWOBJ_FLAG_NONE m"

definition newClosure :: "obj_env \<Rightarrow> addr \<Rightarrow> obj_function \<Rightarrow> u16 \<Rightarrow> mem \<Rightarrow> (addr \<times> mem) option" where
  "newClosure env func f flags m =
     (if func = NULL then None
      else case allocateObject env
             (BClosure \<lparr>cl_function = func, cl_upvalues = replicate (unat (fn_upvalueCount f)) NULL,
                cl_upvalueCount = int (unat (fn_upvalueCount f)), cl_isBlock = False\<rparr>) flags m of
        None \<Rightarrow> None
      | Some (p, m1) \<Rightarrow> Some (p, GC_PROMOTE p GC_GEN_YOUNG_MAX (OBJ_WRITE p func m1)))"

subsection \<open>Walking up the superclasses\<close>

definition class_info_at :: "heap \<Rightarrow> addr \<Rightarrow> class_info option" where
  "class_info_at h p =
     (case map_option o_body (h p) of
        Some (BClass _ ci) \<Rightarrow> Some ci | Some (BModule _ ci) \<Rightarrow> Some ci | _ \<Rightarrow> None)"

definition CLASS_SUPER :: "heap \<Rightarrow> addr \<Rightarrow> addr option" where
  "CLASS_SUPER h p =
     (case map_option o_body (h p) of
        Some (BClass _ ci) \<Rightarrow> Some (ci_superclass ci)
      | Some (BIClass ic) \<Rightarrow> Some (ic_superklass ic)
      | _ \<Rightarrow> None)"

text \<open>CLASS_METHOD_TBL, CLASS_GETTER_TBL and CLASS_SETTER_TBL, for the table a selects.\<close>

definition CLASS_TBL :: "(class_info \<Rightarrow> table) \<Rightarrow> heap \<Rightarrow> addr \<Rightarrow> table option" where
  "CLASS_TBL sel h p =
     (case map_option o_body (h p) of
        Some (BIClass ic) \<Rightarrow> map_option sel (class_info_at h (ic_mod ic))
      | _ \<Rightarrow> map_option sel (class_info_at h p))"

type_synonym tget = "table \<Rightarrow> lxvalue \<Rightarrow> lxvalue option option"

text \<open>The loop over the superclasses that the lookups share: sel chooses the table, next the
  successor of a class. The result is the method found, or null.\<close>

partial_function (option) find_up ::
    "tget \<Rightarrow> (class_info \<Rightarrow> table) \<Rightarrow> heap \<Rightarrow> (addr \<Rightarrow> addr option) \<Rightarrow> lxvalue \<Rightarrow> addr \<Rightarrow> addr option" where
  "find_up get sel h next_of name klass =
     (if klass = NULL then Some NULL
      else case CLASS_TBL sel h klass of
        None \<Rightarrow> None
      | Some mtable \<Rightarrow>
          (case get mtable name of
             None \<Rightarrow> None
           | Some (Some method) \<Rightarrow> Some (AS_OBJ method)
           | Some None \<Rightarrow>
               (case next_of klass of
                  None \<Rightarrow> None
                | Some k \<Rightarrow> find_up get sel h next_of name k)))"

declare find_up.simps [code]

definition hdr_at :: "heap \<Rightarrow> addr \<Rightarrow> inst_hdr option" where
  "hdr_at h p = (case h p of Some ob \<Rightarrow> inst_hdr_of (o_body ob) | None \<Rightarrow> None)"

definition start_class :: "inst_hdr \<Rightarrow> addr" where
  "start_class i = (if i_singletonKlass i \<noteq> NULL then i_singletonKlass i else i_klass i)"

text \<open>A string that was interned before the class String existed gets its class here.\<close>

definition fix_string_class :: "core_classes \<Rightarrow> addr \<Rightarrow> heap \<Rightarrow> heap" where
  "fix_string_class cc p h =
     (case h p of
        Some ob \<Rightarrow>
          (case o_body ob of
             BString i b \<Rightarrow>
               if i_klass i = NULL
               then h(p \<mapsto> ob\<lparr>o_body := BString (i\<lparr>i_klass := lxStringClass cc\<rparr>) b\<rparr>) else h
           | _ \<Rightarrow> h)
      | None \<Rightarrow> h)"

definition instanceFindMethod ::
    "tget \<Rightarrow> core_classes \<Rightarrow> heap \<Rightarrow> addr \<Rightarrow> lxvalue \<Rightarrow> (addr \<times> heap) option" where
  "instanceFindMethod get cc h0 p name =
     (let h = fix_string_class cc p h0
      in case hdr_at h p of
           None \<Rightarrow> None
         | Some i \<Rightarrow>
             map_option (\<lambda>r. (r, h)) (find_up get ci_methods h (CLASS_SUPER h) name (start_class i)))"

text \<open>The getters of the singleton class are followed by those of the class, not by the superclass
  of the singleton class.\<close>

definition instanceFindGetter :: "tget \<Rightarrow> heap \<Rightarrow> addr \<Rightarrow> lxvalue \<Rightarrow> addr option" where
  "instanceFindGetter get h p name =
     (case hdr_at h p of
        None \<Rightarrow> None
      | Some i \<Rightarrow>
          find_up get ci_getters h
            (\<lambda>k. if k = i_singletonKlass i then Some (i_klass i) else CLASS_SUPER h k) name (start_class i))"

definition instanceFindSetter :: "tget \<Rightarrow> heap \<Rightarrow> addr \<Rightarrow> lxvalue \<Rightarrow> addr option" where
  "instanceFindSetter get h p name =
     (case hdr_at h p of
        None \<Rightarrow> None
      | Some i \<Rightarrow> find_up get ci_setters h (CLASS_SUPER h) name (start_class i))"

text \<open>The name of the class that an error message shows.\<close>

definition instanceClassName :: "heap \<Rightarrow> addr \<Rightarrow> bytes option" where
  "instanceClassName h p =
     (case hdr_at h p of
        None \<Rightarrow> None
      | Some i \<Rightarrow>
          if i_klass i = NULL then Some (map of_char ''(anon)'')
          else (case class_info_at h (i_klass i) of
                  None \<Rightarrow> None
                | Some ci \<Rightarrow>
                    if ci_name ci = NULL then Some (map of_char ''(anon)'')
                    else map_option str_bytes (get_string h (OBJ_VAL (ci_name ci)))))"

definition instanceFindMethodOrRaise ::
    "tget \<Rightarrow> core_classes \<Rightarrow> heap \<Rightarrow> addr \<Rightarrow> lxvalue \<Rightarrow> (lx_error + addr \<times> heap) option" where
  "instanceFindMethodOrRaise get cc h p name =
     (case instanceFindMethod get cc h p name of
        None \<Rightarrow> None
      | Some (r, h1) \<Rightarrow>
          if r = NULL then Some (Inl (Throw ''Undefined instance method'')) else Some (Inr (r, h1)))"

text \<open>classFindStaticMethod: the singleton classes up the hierarchy, then the methods of the class
  of the class.\<close>

definition static_singleton :: "heap \<Rightarrow> addr \<Rightarrow> addr option" where
  "static_singleton h klass =
     (case map_option o_body (h klass) of
        Some (BIClass ic) \<Rightarrow> map_option i_singletonKlass (hdr_at h (ic_mod ic))
      | _ \<Rightarrow> map_option i_singletonKlass (hdr_at h klass))"

partial_function (option) find_static ::
    "tget \<Rightarrow> heap \<Rightarrow> lxvalue \<Rightarrow> addr \<Rightarrow> addr \<Rightarrow> addr option" where
  "find_static get h name fallback klass =
     (if klass = NULL then find_up get ci_methods h (CLASS_SUPER h) name fallback
      else case static_singleton h klass of
        None \<Rightarrow> None
      | Some lookupClass \<Rightarrow>
          (case (if lookupClass = NULL then Some None
                 else case CLASS_TBL ci_methods h lookupClass of
                   None \<Rightarrow> None | Some mtable \<Rightarrow> get mtable name) of
             None \<Rightarrow> None
           | Some (Some method) \<Rightarrow> Some (AS_OBJ method)
           | Some None \<Rightarrow>
               (case CLASS_SUPER h klass of
                  None \<Rightarrow> None | Some k \<Rightarrow> find_static get h name fallback k)))"

declare find_static.simps [code]

definition classFindStaticMethod :: "tget \<Rightarrow> heap \<Rightarrow> addr \<Rightarrow> lxvalue \<Rightarrow> addr option" where
  "classFindStaticMethod get h p name =
     (case hdr_at h p of None \<Rightarrow> None | Some i \<Rightarrow> find_static get h name (i_klass i) p)"

subsection \<open>Inclusion of modules, and the instance and subclass tests\<close>

text \<open>setupIClass links the included module between the class and its superclass, once.\<close>

definition setupIClass :: "addr \<Rightarrow> mem \<Rightarrow> mem option" where
  "setupIClass p m =
     (case map_option o_body (obj_at m p) of
        Some (BIClass ic) \<Rightarrow>
          if ic_isSetup ic then Some m
          else (case class_info_at (gc_heap (m_gc m)) (ic_klass ic) of
             None \<Rightarrow> None
           | Some ci \<Rightarrow>
               (let m1 = set_body (ic_klass ic) (on_info (\<lambda>c. c\<lparr>ci_superclass := p\<rparr>)) m;
                    m2 = OBJ_WRITE (ic_klass ic) p m1;
                    m3 = set_body p (\<lambda>b. BIClass (ic\<lparr>ic_superklass := ci_superclass ci\<rparr>)) m2;
                    m4 = OBJ_WRITE p (ci_superclass ci) m3
                in Some (set_body p (\<lambda>b. BIClass (ic\<lparr>ic_superklass := ci_superclass ci, ic_isSetup := True\<rparr>)) m4)))
      | _ \<Rightarrow> None)"

partial_function (option) is_ancestor :: "heap \<Rightarrow> addr \<Rightarrow> addr \<Rightarrow> bool option" where
  "is_ancestor h target klass =
     (if klass = NULL \<or> klass = target then Some (klass = target)
      else case CLASS_SUPER h klass of None \<Rightarrow> None | Some k \<Rightarrow> is_ancestor h target k)"

declare is_ancestor.simps [code]

definition instanceIsA :: "heap \<Rightarrow> addr \<Rightarrow> addr \<Rightarrow> bool option" where
  "instanceIsA h p klass =
     (case hdr_at h p of
        None \<Rightarrow> None
      | Some i \<Rightarrow> if i_klass i = klass then Some True else is_ancestor h klass (i_klass i))"

definition isSubclass :: "heap \<Rightarrow> addr \<Rightarrow> addr \<Rightarrow> bool option" where
  "isSubclass h subklass superklass =
     (if subklass = NULL \<or> superklass = NULL then None
      else if subklass = superklass then Some True else is_ancestor h superklass subklass)"

definition is_value_instance_of_p :: "heap \<Rightarrow> lxvalue \<Rightarrow> addr \<Rightarrow> bool" where
  "is_value_instance_of_p h v klass \<longleftrightarrow> IS_INSTANCE_LIKE h v \<and>
     (case hdr_at h (AS_OBJ v) of Some i \<Rightarrow> i_klass i = klass | None \<Rightarrow> False)"

definition is_value_a_p :: "heap \<Rightarrow> lxvalue \<Rightarrow> addr \<Rightarrow> bool option" where
  "is_value_a_p h v klass =
     (if IS_INSTANCE_LIKE h v then instanceIsA h (AS_OBJ v) klass else Some False)"

subsection \<open>Instances\<close>

definition newInstance :: "obj_env \<Rightarrow> addr \<Rightarrow> u16 \<Rightarrow> mem \<Rightarrow> (addr \<times> mem) option" where
  "newInstance env klass flags m =
     (let cc = oe_classes env; h = gc_heap (m_gc m);
          sub = (\<lambda>c. if klass = c then Some True else isSubclass h klass c);
          plain = instance_like (allocateObject env (BInstance (new_hdr klass) None) flags m)
      in if \<not> oe_vmInited env then plain
         else case sub (lxStringClass cc) of
           None \<Rightarrow> None
         | Some True \<Rightarrow> allocateString env nullString klass flags m
         | Some False \<Rightarrow>
          (case sub (lxAryClass cc) of
             None \<Rightarrow> None
           | Some True \<Rightarrow> allocateArray env klass flags m
           | Some False \<Rightarrow>
            (case sub (lxMapClass cc) of
               None \<Rightarrow> None
             | Some True \<Rightarrow> allocateMap env klass flags m
             | Some False \<Rightarrow>
              (case sub (lxRegexClass cc) of
                 None \<Rightarrow> None
               | Some True \<Rightarrow> allocateRegex env klass flags m
               | Some False \<Rightarrow>
                   if klass = lxClassClass cc then newClass env NULL (lxObjClass cc) flags m
                   else if klass = lxModuleClass cc then newModule env NULL flags m
                   else plain))))"

subsection \<open>Singleton classes, properties, finalizers and freezing\<close>

text \<open>The name of a singleton class is a new string; name is its text without the suffix.\<close>

definition meta_name :: "bytes \<Rightarrow> lx_error + strbuf" where
  "meta_name name = pushCString False (copyString name) (map of_char '' (meta)'')"

text \<open>What the three functions for singleton classes share after the name has been made: the new
  class, its flag and its links.\<close>

definition link_meta ::
    "obj_env \<Rightarrow> addr \<Rightarrow> addr \<Rightarrow> addr \<Rightarrow> mem \<Rightarrow> (addr \<times> mem) option" where
  "link_meta env owner name super m =
     (case newClass env name super NEWOBJ_FLAG_OLD m of
        None \<Rightarrow> None
      | Some (meta, m1) \<Rightarrow>
          (let m2 = obj_set_flag meta OBJ_FLAG_SINGLETON m1;
               m3 = set_body meta (on_info (\<lambda>ci. ci\<lparr>ci_singletonOf := owner\<rparr>)) m2;
               m4 = set_body owner (on_hdr (\<lambda>i. i\<lparr>i_singletonKlass := meta\<rparr>)) m3
           in Some (meta, OBJ_WRITE owner meta m4)))"

text \<open>The text of the name of a class or a module.\<close>

definition name_text :: "heap \<Rightarrow> class_info \<Rightarrow> bytes option" where
  "name_text h ci = (if ci_name ci = NULL then None
     else Some (case get_string h (OBJ_VAL (ci_name ci)) of Some b \<Rightarrow> str_bytes b | None \<Rightarrow> []))"

definition hiddenString :: "obj_env \<Rightarrow> strbuf \<Rightarrow> u16 \<Rightarrow> mem \<Rightarrow> (addr \<times> mem) option" where
  "hiddenString env buf flags m =
     (case allocateString env buf (lxStringClass (oe_classes env)) (flags OR NEWOBJ_FLAG_HIDDEN) m of
        None \<Rightarrow> None
      | Some (p, m1) \<Rightarrow> Some (p, on_gc (hideFromGC p) m1))"

definition classSingletonClass :: "obj_env \<Rightarrow> addr \<Rightarrow> mem \<Rightarrow> (addr \<times> mem) option" where
  "classSingletonClass env p m =
     (case (hdr_at (gc_heap (m_gc m)) p, class_info_at (gc_heap (m_gc m)) p) of
        (Some i, Some ci) \<Rightarrow>
          if i_singletonKlass i \<noteq> NULL then Some (i_singletonKlass i, m)
          else (let own = name_text (gc_heap (m_gc m)) ci;
                    str = lxStringClass (oe_classes env)
                in case meta_name (case own of Some b \<Rightarrow> b | None \<Rightarrow> map of_char ''(anon)'') of
             Inl _ \<Rightarrow> None
           | Inr buf \<Rightarrow>
               (case allocateString env buf str (if own = None then NEWOBJ_FLAG_OLD else NEWOBJ_FLAG_NONE) m of
                  None \<Rightarrow> None
                | Some (name, m1) \<Rightarrow>
                    link_meta env p name (ci_superclass ci) (if own = None then m1 else GC_OLD name m1)))
      | _ \<Rightarrow> None)"

definition moduleSingletonClass :: "obj_env \<Rightarrow> addr \<Rightarrow> mem \<Rightarrow> (addr \<times> mem) option" where
  "moduleSingletonClass env p m =
     (case (hdr_at (gc_heap (m_gc m)) p, class_info_at (gc_heap (m_gc m)) p) of
        (Some i, Some ci) \<Rightarrow>
          if i_singletonKlass i \<noteq> NULL then Some (i_singletonKlass i, m)
          else (let own = name_text (gc_heap (m_gc m)) ci;
                    str = lxStringClass (oe_classes env)
                in case meta_name (case own of Some b \<Rightarrow> b | None \<Rightarrow> map of_char ''(anon)'') of
             Inl _ \<Rightarrow> None
           | Inr buf \<Rightarrow>
               (case (if own = None then hiddenString env buf NEWOBJ_FLAG_OLD m
                      else map_option (\<lambda>(n, m1). (n, on_gc (hideFromGC n) (GC_OLD n m1)))
                             (allocateString env buf str NEWOBJ_FLAG_NONE m)) of
                  None \<Rightarrow> None
                | Some (name, m1) \<Rightarrow>
                    map_option (\<lambda>(meta, m2). (meta, on_gc (unhideFromGC name) m2))
                      (link_meta env p name (lxClassClass (oe_classes env)) m1)))
      | _ \<Rightarrow> None)"

text \<open>The name of an instance's singleton class comes from valueToString, which may run the
  program's own toString: an argument.\<close>

definition instanceSingletonClass ::
    "obj_env \<Rightarrow> (addr \<Rightarrow> mem \<Rightarrow> (bytes \<times> mem) option) \<Rightarrow> addr \<Rightarrow> mem \<Rightarrow> (addr \<times> mem) option" where
  "instanceSingletonClass env toStr p m =
     (case hdr_at (gc_heap (m_gc m)) p of
        None \<Rightarrow> None
      | Some i \<Rightarrow>
          if i_singletonKlass i \<noteq> NULL then Some (i_singletonKlass i, m)
          else (case toStr p m of
            None \<Rightarrow> None
          | Some (text, m0) \<Rightarrow>
             (case meta_name text of
                Inl _ \<Rightarrow> None
              | Inr buf \<Rightarrow>
                 (case hiddenString env buf NEWOBJ_FLAG_OLD m0 of
                    None \<Rightarrow> None
                  | Some (name, m1) \<Rightarrow>
                      map_option (\<lambda>(meta, m2). (meta, on_gc (unhideFromGC name) m2))
                        (link_meta env p name (i_klass i) m1)))))"

definition singletonClass ::
    "obj_env \<Rightarrow> (addr \<Rightarrow> mem \<Rightarrow> (bytes \<times> mem) option) \<Rightarrow> addr \<Rightarrow> mem \<Rightarrow> (addr \<times> mem) option" where
  "singletonClass env toStr p m =
     (case map_option obj_type_of (obj_at m p) of
        Some OBJ_T_INSTANCE \<Rightarrow> instanceSingletonClass env toStr p m
      | Some OBJ_T_CLASS \<Rightarrow> classSingletonClass env p m
      | Some OBJ_T_MODULE \<Rightarrow> moduleSingletonClass env p m
      | _ \<Rightarrow> None)"

definition getProp :: "tget \<Rightarrow> heap \<Rightarrow> lxvalue \<Rightarrow> lxvalue \<Rightarrow> lxvalue option" where
  "getProp get h self propName =
     (case hdr_at h (AS_OBJ self) of
        None \<Rightarrow> None
      | Some i \<Rightarrow>
          (case get (i_fields i) propName of
             None \<Rightarrow> None
           | Some (Some v) \<Rightarrow> Some v
           | Some None \<Rightarrow> Some NIL_VAL))"

definition setProp ::
    "(table \<Rightarrow> lxvalue \<Rightarrow> lxvalue \<Rightarrow> (bool \<times> table) option) \<Rightarrow> lxvalue \<Rightarrow> lxvalue \<Rightarrow> lxvalue \<Rightarrow> mem \<Rightarrow> mem option" where
  "setProp put self propName v m =
     (case hdr_at (gc_heap (m_gc m)) (AS_OBJ self) of
        None \<Rightarrow> None
      | Some i \<Rightarrow>
          (case put (i_fields i) propName v of
             None \<Rightarrow> None
           | Some (_, t) \<Rightarrow>
               Some (set_body (AS_OBJ self) (on_hdr (\<lambda>i. i\<lparr>i_fields := t\<rparr>))
                       (on_gc (objWrite self v) m))))"

definition setObjectFinalizer :: "addr \<Rightarrow> addr \<Rightarrow> mem \<Rightarrow> mem option" where
  "setObjectFinalizer p callable m =
     (if \<not> isCallable (gc_heap (m_gc m)) (OBJ_VAL callable) then None
      else case hdr_at (gc_heap (m_gc m)) p of
        None \<Rightarrow> None
      | Some i \<Rightarrow>
          (let m1 = (if i_finalizerFunc i = NULL
                     then obj_set_flag p OBJ_FLAG_HAS_FINALIZER
                            (on_gc (\<lambda>s. GCPromoteOnce p
                               (s\<lparr>gc_activeFinalizers := gc_activeFinalizers s + 1\<rparr>)) m)
                     else m)
           in Some (set_body p (on_hdr (\<lambda>i. i\<lparr>i_finalizerFunc := callable\<rparr>)) (OBJ_WRITE p callable m1))))"

definition objFreeze :: "obj \<Rightarrow> obj" where
  "objFreeze ob = ob\<lparr>o_flags := set_flag (o_flags ob) OBJ_FLAG_FROZEN\<rparr>"

definition isFrozen :: "obj \<Rightarrow> bool" where
  "isFrozen ob \<longleftrightarrow> has_flag (o_flags ob) OBJ_FLAG_FROZEN"

definition objUnfreeze :: "obj \<Rightarrow> lx_error + obj" where
  "objUnfreeze ob =
     (if obj_type_of ob = OBJ_T_STRING \<and> has_flag (o_flags ob) OBJ_FLAG_USER1
      then Inl (Throw ''Tried to unfreeze static String'')
      else Inr (ob\<lparr>o_flags := unset_flag (o_flags ob) OBJ_FLAG_FROZEN\<rparr>))"

end
