(* ===== verification/Clox_Class_Laws.thy ===== *)
theory Clox_Class_Laws
  imports Clox_Class
begin

text \<open>What the lookups of Clox_Class compute. The loops over the superclasses are instances of
  one walk along a finite chain, whose result is the first hit on the chain; method lookup, the
  ancestor tests and the effect of including a module are read off from it.\<close>

subsection \<open>Chains of superclasses\<close>

fun chain_of :: "(addr \<Rightarrow> addr option) \<Rightarrow> addr \<Rightarrow> addr list \<Rightarrow> bool" where
  "chain_of nx k [] \<longleftrightarrow> k = NULL"
| "chain_of nx k (c # cs) \<longleftrightarrow> k = c \<and> c \<noteq> NULL \<and> (\<exists>k'. nx c = Some k' \<and> chain_of nx k' cs)"

lemma chain_of_unique: "chain_of nx k xs \<Longrightarrow> chain_of nx k ys \<Longrightarrow> xs = ys"
proof (induction xs arbitrary: k ys)
  case Nil
  then show ?case by (cases ys) auto
next
  case (Cons c cs)
  then show ?case by (cases ys) auto
qed

lemma chain_of_not_NULL: "chain_of nx k cs \<Longrightarrow> NULL \<notin> set cs"
  by (induction cs arbitrary: k) auto

lemma chain_of_suffix:
  "chain_of nx k (xs @ c # ys) \<Longrightarrow> chain_of nx c (c # ys)"
  by (induction xs arbitrary: k) auto

text \<open>A chain that ends has no class twice.\<close>

lemma chain_of_distinct: "chain_of nx k cs \<Longrightarrow> distinct cs"
proof (induction cs arbitrary: k)
  case (Cons c cs)
  then obtain k' where k': "chain_of nx k' cs" by auto
  have "c \<notin> set cs"
  proof
    assume "c \<in> set cs"
    then obtain xs ys where "cs = xs @ c # ys" by (auto dest: split_list)
    then have "chain_of nx c (c # ys)" "chain_of nx c (c # xs @ c # ys)"
      using k' Cons.prems by (auto dest: chain_of_suffix)
    then have "c # ys = c # xs @ c # ys" by (rule chain_of_unique)
    then show False by (metis append_Cons append_is_Nil_conv append_self_conv2 list.inject list.distinct(1) self_append_conv2)
  qed
  then show ?case using Cons.IH [OF k'] by simp
qed simp

lemma chain_of_cong:
  "(\<And>c. c \<in> set cs \<Longrightarrow> nx' c = nx c) \<Longrightarrow> chain_of nx' k cs = chain_of nx k cs"
  by (induction cs arbitrary: k) auto

subsection \<open>The walk\<close>

text \<open>visit says what the loop does at a class: fail, stop with a result, or go on.\<close>

fun first_hit :: "(addr \<Rightarrow> 'a option option) \<Rightarrow> addr list \<Rightarrow> 'a option" where
  "first_hit visit [] = None"
| "first_hit visit (c # cs) =
     (case visit c of Some (Some r) \<Rightarrow> Some r | _ \<Rightarrow> first_hit visit cs)"

locale class_walk =
  fixes nx :: "addr \<Rightarrow> addr option"
    and visit :: "addr \<Rightarrow> 'a option option"
    and at_end :: "'a option"
    and walk :: "addr \<Rightarrow> 'a option"
  assumes walk_NULL: "walk NULL = at_end"
    and walk_step: "k \<noteq> NULL \<Longrightarrow> walk k =
      (case visit k of None \<Rightarrow> None
       | Some (Some r) \<Rightarrow> Some r
       | Some None \<Rightarrow> (case nx k of None \<Rightarrow> None | Some k' \<Rightarrow> walk k'))"
begin

lemma walk_chain:
  assumes "chain_of nx k cs" "\<forall>c\<in>set cs. visit c \<noteq> None"
  shows "walk k = (case first_hit visit cs of Some r \<Rightarrow> Some r | None \<Rightarrow> at_end)"
  using assms
proof (induction cs arbitrary: k)
  case Nil
  then show ?case by (simp add: walk_NULL)
next
  case (Cons c cs)
  then show ?case by (auto simp: walk_step split: option.splits)
qed

lemma walk_prefix:
  assumes "chain_of nx k cs" "visit c = Some (Some r)" "cs = xs @ c # ys"
    "\<forall>x\<in>set xs. visit x = Some None"
  shows "walk k = Some r"
  using assms
proof (induction xs arbitrary: k cs)
  case Nil
  then show ?case by (simp add: walk_step)
next
  case (Cons x xs)
  then show ?case by (auto simp: walk_step)
qed

end

text \<open>What the lookups do at a class: look the name up in one of its tables.\<close>

definition table_visit ::
    "tget \<Rightarrow> (class_info \<Rightarrow> table) \<Rightarrow> heap \<Rightarrow> lxvalue \<Rightarrow> addr \<Rightarrow> addr option option" where
  "table_visit get sel h name k =
     (case CLASS_TBL sel h k of None \<Rightarrow> None
      | Some mtable \<Rightarrow> (case get mtable name of None \<Rightarrow> None
          | Some (Some method) \<Rightarrow> Some (Some (AS_OBJ method)) | Some None \<Rightarrow> Some None))"

interpretation fu: class_walk next_of
    "table_visit get sel h name"
    "Some NULL" "find_up get sel h next_of name"
  for next_of sel h get name
proof
  show "find_up get sel h next_of name NULL = Some NULL" by (subst find_up.simps) simp
qed (subst find_up.simps, simp add: table_visit_def split: option.splits)

interpretation ia: class_walk "CLASS_SUPER h" "\<lambda>k. Some (if k = target then Some True else None)"
    "Some (NULL = target)" "is_ancestor h target"
  for h target
proof
  show "is_ancestor h target NULL = Some (NULL = target)" by (subst is_ancestor.simps) simp
qed (subst is_ancestor.simps, simp split: option.splits)

interpretation fs: class_walk "CLASS_SUPER h"
    "\<lambda>k. case static_singleton h k of None \<Rightarrow> None
       | Some l \<Rightarrow> (if l = NULL then Some None
           else case CLASS_TBL ci_methods h l of None \<Rightarrow> None
             | Some mtable \<Rightarrow> (case get mtable name of None \<Rightarrow> None
                 | Some (Some method) \<Rightarrow> Some (Some (AS_OBJ method)) | Some None \<Rightarrow> Some None))"
    "find_up get ci_methods h (CLASS_SUPER h) name fallback" "find_static get h name fallback"
  for h get name fallback
proof
  show "find_static get h name fallback NULL = find_up get ci_methods h (CLASS_SUPER h) name fallback"
    by (subst find_static.simps) simp
qed (subst find_static.simps, simp split: option.splits)

subsection \<open>Ancestors\<close>

lemma first_hit_member: "first_hit (\<lambda>k. Some (if k = t then Some True else None)) cs = (if t \<in> set cs then Some True else None)"
  by (induction cs) auto

lemma is_ancestor_chain:
  assumes "chain_of (CLASS_SUPER h) k cs" "t \<noteq> NULL"
  shows "is_ancestor h t k = Some (t \<in> set cs)"
  using ia.walk_chain [OF assms(1), of t] assms(2) by (auto simp: first_hit_member)

lemma is_ancestor_chain':
  assumes "chain_of (CLASS_SUPER h) k cs"
  shows "is_ancestor h t k = Some (t = NULL \<or> t \<in> set cs)"
  using ia.walk_chain [OF assms(1), of t] by (auto simp: first_hit_member)

subsection \<open>Resolution in tables\<close>

abbreviation "value_get env \<equiv> tableGet (hash_of env) (valEqual env)"
abbreviation "value_put env \<equiv> tableSet (hash_of env) (valEqual env)"
abbreviation "value_look env \<equiv> table_lookup (hash_of env) (valEqual env)"

text \<open>Every class of a list has a well-formed table of the chosen kind.\<close>

definition tables_ok :: "lx_env \<Rightarrow> (class_info \<Rightarrow> table) \<Rightarrow> heap \<Rightarrow> addr list \<Rightarrow> bool" where
  "tables_ok env sel h cs \<longleftrightarrow> (\<forall>c\<in>set cs. \<exists>t. CLASS_TBL sel h c = Some t \<and> value_table env t)"

text \<open>The reference: the first class of the list whose table binds the name.\<close>

fun resolve :: "lx_env \<Rightarrow> (class_info \<Rightarrow> table) \<Rightarrow> heap \<Rightarrow> lxvalue \<Rightarrow> addr list \<Rightarrow> addr option" where
  "resolve env sel h name [] = None"
| "resolve env sel h name (c # cs) =
     (case (case CLASS_TBL sel h c of None \<Rightarrow> None | Some t \<Rightarrow> value_look env t name) of
        Some method \<Rightarrow> Some (AS_OBJ method)
      | None \<Rightarrow> resolve env sel h name cs)"

lemma resolve_append:
  "resolve env sel h name (xs @ ys) =
     (case resolve env sel h name xs of Some m \<Rightarrow> Some m | None \<Rightarrow> resolve env sel h name ys)"
  by (induction xs) (auto split: option.splits)

lemma table_visit_value:
  assumes "tables_ok env sel h cs" "key_ok env name" "c \<in> set cs"
  shows "table_visit (value_get env) sel h name c =
    Some (map_option AS_OBJ (case CLASS_TBL sel h c of None \<Rightarrow> None | Some t \<Rightarrow> value_look env t name))"
proof -
  obtain t where t: "CLASS_TBL sel h c = Some t" "value_table env t"
    using assms(1,3) by (auto simp: tables_ok_def)
  have "value_get env t name = Some (value_look env t name)" by (rule vk.get_total [OF t(2) assms(2)])
  then show ?thesis using t(1) by (simp add: table_visit_def split: option.splits)
qed

lemma resolve_first_hit:
  assumes "tables_ok env sel h cs" "key_ok env name"
  shows "first_hit (table_visit (value_get env) sel h name) cs = resolve env sel h name cs"
  using assms(1)
proof (induction cs)
  case (Cons c cs)
  then show ?case using table_visit_value [OF Cons.prems assms(2), of c]
    by (auto simp: tables_ok_def split: option.splits)
qed simp

lemma find_up_resolve:
  assumes "chain_of next_of k cs" "tables_ok env sel h cs" "key_ok env name"
  shows "find_up (value_get env) sel h next_of name k =
    Some (case resolve env sel h name cs of Some m \<Rightarrow> m | None \<Rightarrow> NULL)"
  using fu.walk_chain [OF assms(1), of "value_get env" sel h name] table_visit_value [OF assms(2,3)]
  by (simp add: resolve_first_hit [OF assms(2,3)] split: option.splits)

text \<open>The singleton classes that classFindStaticMethod looks at, along a chain.\<close>

definition singletons_of :: "heap \<Rightarrow> addr list \<Rightarrow> addr list" where
  "singletons_of h cs = filter (\<lambda>k. k \<noteq> NULL) (map (\<lambda>c. case static_singleton h c of Some k \<Rightarrow> k | None \<Rightarrow> NULL) cs)"

lemma find_static_resolve:
  assumes "chain_of (CLASS_SUPER h) k cs" "\<forall>c\<in>set cs. static_singleton h c \<noteq> None"
    "tables_ok env ci_methods h (singletons_of h cs)" "key_ok env name"
    "chain_of (CLASS_SUPER h) fallback ds" "tables_ok env ci_methods h ds"
  shows "find_static (value_get env) h name fallback k =
    Some (case resolve env ci_methods h name (singletons_of h cs @ ds) of Some m \<Rightarrow> m | None \<Rightarrow> NULL)"
  using assms(1-3)
proof (induction cs arbitrary: k)
  case Nil
  then have "find_static (value_get env) h name fallback k = find_up (value_get env) ci_methods h (CLASS_SUPER h) name fallback"
    using fs.walk_NULL by simp
  then show ?case using find_up_resolve [OF assms(5,6,4)] by (simp add: singletons_of_def)
next
  case (Cons c cs)
  obtain k' l where k': "CLASS_SUPER h c = Some k'" "chain_of (CLASS_SUPER h) k' cs" "k = c" "c \<noteq> NULL"
    and l: "static_singleton h c = Some l" using Cons.prems by auto
  have IH: "find_static (value_get env) h name fallback k' =
    Some (case resolve env ci_methods h name (singletons_of h cs @ ds) of Some m \<Rightarrow> m | None \<Rightarrow> NULL)"
    using Cons.IH [OF k'(2)] Cons.prems(2,3) by (auto simp: tables_ok_def singletons_of_def)
  show ?case
  proof (cases "l = NULL")
    case True
    then show ?thesis using k' l IH fs.walk_step [OF k'(4)] by (simp add: singletons_of_def)
  next
    case False
    then obtain t where t: "CLASS_TBL ci_methods h l = Some t" "value_table env t"
      using Cons.prems(3) l by (auto simp: tables_ok_def singletons_of_def)
    have "value_get env t name = Some (value_look env t name)" by (rule vk.get_total [OF t(2) assms(4)])
    then show ?thesis using k' l IH fs.walk_step [OF k'(4)] False t(1)
      by (simp add: singletons_of_def split: option.splits)
  qed
qed

end
