(* ===== verification/Clox_Class_Props.thy ===== *)
theory Clox_Class_Props
  imports Clox_Class_Laws
begin

unbundle bit_operations_syntax

text \<open>Properties of classes and instances: method resolution, ancestor tests, inclusion of
  modules, properties of instances.\<close>

subsection \<open>Effects on the heap\<close>

abbreviation heap_of :: "mem \<Rightarrow> heap" where "heap_of m \<equiv> gc_heap (m_gc m)"

lemma heap_objWrite [simp]: "gc_heap (objWrite a b s) = gc_heap s"
  by (simp add: objWrite_def pushRememberSet_def)

lemma heap_OBJ_WRITE [simp]: "heap_of (OBJ_WRITE a b m) = heap_of m"
  by (simp add: OBJ_WRITE_def on_gc_def)

lemma heap_set_body:
  "heap_of (set_body p f m) =
     (case heap_of m p of None \<Rightarrow> heap_of m | Some ob \<Rightarrow> (heap_of m)(p \<mapsto> ob\<lparr>o_body := f (o_body ob)\<rparr>))"
  by (simp add: set_body_def on_gc_def on_obj_def put_obj_def split: option.splits)

lemma set_body_Some [simp]:
  "heap_of m p = Some ob \<Longrightarrow> heap_of (set_body p f m) = (heap_of m)(p \<mapsto> ob\<lparr>o_body := f (o_body ob)\<rparr>)"
  by (simp add: heap_set_body)

lemma CLASS_SUPER_other [simp]: "q \<noteq> p \<Longrightarrow> CLASS_SUPER (h(p \<mapsto> ob)) q = CLASS_SUPER h q"
  by (simp add: CLASS_SUPER_def)

lemma class_info_at_other [simp]: "q \<noteq> p \<Longrightarrow> class_info_at (h(p \<mapsto> ob)) q = class_info_at h q"
  by (simp add: class_info_at_def)

subsection \<open>A concrete hierarchy\<close>

text \<open>A class 16 whose table binds a name, a class 32 below it, an instance 48 of 32 with the
  singleton class 64, a module 96 that binds the name, and an include class 80 for 96 in 32.\<close>

definition ex_table :: table where
  "ex_table = snd (the (value_put plain_env initTable NIL_VAL (objectToValue 112)))"

definition ex_obj :: "obj_body \<Rightarrow> obj" where
  "ex_obj b = \<lparr>o_flags = OBJ_FLAG_INSTANCE_LIKE, o_nextFree = NULL, o_objectId = 0, o_GCGen = 0, o_body = b\<rparr>"

definition ex_class :: "table \<Rightarrow> addr \<Rightarrow> obj" where
  "ex_class t super = ex_obj (BClass (new_hdr NULL) ((newClassInfo NULL)\<lparr>ci_methods := t, ci_superclass := super\<rparr>))"

definition ex_heap :: heap where
  "ex_heap = [16 \<mapsto> ex_class ex_table NULL, 32 \<mapsto> ex_class initTable 16,
     48 \<mapsto> ex_obj (BInstance ((new_hdr 32)\<lparr>i_singletonKlass := 64\<rparr>) None),
     64 \<mapsto> ex_class initTable 32,
     80 \<mapsto> ex_obj (BIClass \<lparr>ic_klass = 32, ic_mod = 96, ic_superklass = NULL, ic_isSetup = False\<rparr>),
     96 \<mapsto> ex_obj (BModule (new_hdr NULL) ((newClassInfo NULL)\<lparr>ci_methods := ex_table\<rparr>))]"

definition ex_cc :: core_classes where
  "ex_cc = \<lparr>lxObjClass = 0, lxClassClass = 0, lxModuleClass = 0, lxStringClass = 0,
     lxAryClass = 0, lxMapClass = 0, lxRegexClass = 0\<rparr>"

definition ex_mem :: mem where
  "ex_mem = \<lparr>m_gc = \<lparr>gc_heap = ex_heap, gc_grayStack = [], gc_grayCapacity = 0, gc_inYoungGC = False,
       gc_inGC = False, gc_GCOn = True, gc_generations = replicate 5 0, gc_freeList = NULL,
       gc_heapList = [], gc_youngStack = [], gc_rememberSet = [], gc_hiddenObjs = [],
       gc_activeFinalizers = 0\<rparr>, m_stackObjects = []\<rparr>"

lemma ex_mem_heap [simp]: "heap_of ex_mem = ex_heap"
  by (simp add: ex_mem_def)

lemma new_hdr_simps [simp]: "i_klass (new_hdr k) = k" "i_singletonKlass (new_hdr k) = NULL"
  "i_fields (new_hdr k) = initTable"
  by (simp_all add: new_hdr_def)

lemma ex_table_ok: "value_table plain_env ex_table"
  "value_look plain_env ex_table NIL_VAL = Some (objectToValue 112)"
proof -
  obtain b t where t: "value_put plain_env initTable NIL_VAL (objectToValue 112) = Some (b, t)"
    "value_table plain_env t" "value_get plain_env t NIL_VAL = Some (Some (objectToValue 112))"
    using vk.set_get [OF value_table_init table_room_init key_ok_plain(1), of plain_env "objectToValue 112"]
      key_ok_plain(1) [of plain_env] by (auto simp: valEqual_def)
  then show "value_table plain_env ex_table"
    "value_look plain_env ex_table NIL_VAL = Some (objectToValue 112)"
    using vk.get_total [OF t(2) key_ok_plain(1)] by (simp_all add: ex_table_def)
qed

lemma ex_super [simp]:
  "CLASS_SUPER ex_heap 16 = Some 0" "CLASS_SUPER ex_heap 32 = Some 16" "CLASS_SUPER ex_heap 64 = Some 32"
  by (simp_all add: CLASS_SUPER_def ex_heap_def ex_class_def ex_obj_def newClassInfo_def)

lemma ex_chain: "chain_of (CLASS_SUPER ex_heap) 32 [32, 16]" "chain_of (CLASS_SUPER ex_heap) 64 [64, 32, 16]"
  by simp_all

lemma ex_tbl [simp]:
  "CLASS_TBL ci_methods ex_heap 16 = Some ex_table" "CLASS_TBL ci_methods ex_heap 32 = Some initTable"
  "CLASS_TBL ci_methods ex_heap 64 = Some initTable"
  "CLASS_TBL ci_getters ex_heap 16 = Some initTable" "CLASS_TBL ci_getters ex_heap 32 = Some initTable"
  "CLASS_TBL ci_getters ex_heap 64 = Some initTable"
  "CLASS_TBL ci_setters ex_heap 16 = Some initTable" "CLASS_TBL ci_setters ex_heap 32 = Some initTable"
  "CLASS_TBL ci_setters ex_heap 64 = Some initTable"
  by (simp_all add: CLASS_TBL_def class_info_at_def ex_heap_def ex_class_def ex_obj_def newClassInfo_def)

lemma ex_hdr [simp]: "hdr_at ex_heap 48 = Some ((new_hdr 32)\<lparr>i_singletonKlass := 64\<rparr>)"
  "hdr_at ex_heap 32 = Some (new_hdr NULL)" "hdr_at ex_heap 16 = Some (new_hdr NULL)"
  by (simp_all add: hdr_at_def ex_heap_def ex_obj_def ex_class_def inst_hdr_of_def)

lemma ex_tables [simp]: "tables_ok plain_env ci_methods ex_heap [64, 32, 16]"
  "tables_ok plain_env ci_getters ex_heap [64, 32, 16]" "tables_ok plain_env ci_setters ex_heap [64, 32, 16]"
  by (simp_all add: tables_ok_def ex_table_ok value_table_init)

lemma ex_fix [simp]: "fix_string_class cc 48 ex_heap = ex_heap"
  by (simp add: fix_string_class_def ex_heap_def ex_obj_def)

lemma ex_singleton [simp]: "static_singleton ex_heap 32 = Some NULL" "static_singleton ex_heap 16 = Some NULL"
  by (simp_all add: static_singleton_def hdr_at_def inst_hdr_of_def new_hdr_def ex_heap_def ex_class_def ex_obj_def)

lemma look_init [simp]: "value_look env initTable k = None"
  by (simp add: table_lookup_def tableGet_def initTable_def)

subsection \<open>Inclusion of modules\<close>

lemma chain_of_insert:
  assumes "chain_of nx k (xs @ c # ys)" "p \<notin> set (xs @ c # ys)" "p \<noteq> NULL"
    "\<And>q. q \<noteq> c \<Longrightarrow> q \<noteq> p \<Longrightarrow> nx' q = nx q" "nx' c = Some p" "nx' p = nx c"
  shows "chain_of nx' k (xs @ c # p # ys)"
  using assms(1-2)
proof (induction xs arbitrary: k)
  case Nil
  have "c \<notin> set ys" using chain_of_distinct [OF Nil(1)] by simp
  then have "chain_of nx' k' ys = chain_of nx k' ys" for k'
    using Nil(2) by (intro chain_of_cong assms(4)) auto
  then show ?case using Nil assms(3,5,6) by auto
next
  case (Cons x xs)
  have "x \<noteq> c" using chain_of_distinct [OF Cons.prems(1)] by auto
  then show ?case using Cons assms(4) [of x] by auto
qed

lemma setupIClass_heap:
  assumes "heap_of m p = Some pob" "o_body pob = BIClass ic" "\<not> ic_isSetup ic" "ic_klass ic \<noteq> p"
    "heap_of m (ic_klass ic) = Some cob" "o_body cob = BClass i ci"
  shows "\<exists>m'. setupIClass p m = Some m' \<and> heap_of m' =
    (heap_of m)(ic_klass ic \<mapsto> cob\<lparr>o_body := BClass i (ci\<lparr>ci_superclass := p\<rparr>)\<rparr>,
      p \<mapsto> pob\<lparr>o_body := BIClass (ic\<lparr>ic_superklass := ci_superclass ci, ic_isSetup := True\<rparr>)\<rparr>)"
proof -
  let ?b = "\<lambda>s. BIClass (ic\<lparr>ic_superklass := ci_superclass ci, ic_isSetup := s\<rparr>)"
  let ?m1 = "OBJ_WRITE (ic_klass ic) p (set_body (ic_klass ic) (on_info (\<lambda>c. c\<lparr>ci_superclass := p\<rparr>)) m)"
  let ?m2 = "OBJ_WRITE p (ci_superclass ci)
      (set_body p (\<lambda>b. BIClass (ic\<lparr>ic_superklass := ci_superclass ci\<rparr>)) ?m1)"
  let ?h1 = "(heap_of m)(ic_klass ic \<mapsto> cob\<lparr>o_body := BClass i (ci\<lparr>ci_superclass := p\<rparr>)\<rparr>)"
  have h1: "heap_of ?m1 = ?h1" using assms(5,6) by simp
  have p1: "heap_of ?m1 p = Some pob" unfolding h1 using assms(1,4) by simp
  have h2: "heap_of ?m2 = ?h1(p \<mapsto> pob\<lparr>o_body := BIClass (ic\<lparr>ic_superklass := ci_superclass ci\<rparr>)\<rparr>)"
    by (simp only: heap_OBJ_WRITE [of p] set_body_Some [OF p1] h1)
  have "heap_of ?m2 p = Some (pob\<lparr>o_body := BIClass (ic\<lparr>ic_superklass := ci_superclass ci\<rparr>)\<rparr>)"
    unfolding h2 by simp
  from set_body_Some [OF this, of "\<lambda>b. ?b True"]
  have "heap_of (set_body p (\<lambda>b. ?b True) ?m2) = ?h1(p \<mapsto> pob\<lparr>o_body := ?b True\<rparr>)"
    unfolding h2 by simp
  moreover have "class_info_at (heap_of m) (ic_klass ic) = Some ci"
    using assms(5,6) by (simp add: class_info_at_def)
  ultimately show ?thesis
    using assms(1-3) by (simp add: setupIClass_def obj_at_def Let_def)
qed



subsection \<open>Method lookup\<close>

text \<open>C31: method resolution. For an instance whose superclass chain is finite, the loop of
  instanceFindMethod ends and its result is that of the reference: the method of the first
  class or include class on the chain, starting at the singleton class if there is one, whose
  method table binds the name, and null if there is none.\<close>

theorem method_resolution:
  assumes "h' = fix_string_class cc p h" "hdr_at h' p = Some i"
    and "chain_of (CLASS_SUPER h') (start_class i) cs" "tables_ok env ci_methods h' cs" "key_ok env name"
  shows "instanceFindMethod (value_get env) cc h p name =
    Some (case resolve env ci_methods h' name cs of Some method \<Rightarrow> method | None \<Rightarrow> NULL, h')"
  using assms(2) find_up_resolve [OF assms(3-5)]
  by (simp add: instanceFindMethod_def Let_def assms(1)[symmetric])

theorem method_resolution_witness:
  "instanceFindMethod (value_get plain_env) ex_cc ex_heap 48 NIL_VAL = Some (112, ex_heap)"
proof -
  have "AS_OBJ (objectToValue 112) = 112" by (simp add: AS_OBJ_objectToValue addr_ok_def)
  then show ?thesis
    using method_resolution [of ex_heap ex_cc 48 ex_heap _ "[64, 32, 16]" plain_env NIL_VAL]
      key_ok_plain(1) [of plain_env]
    by (simp add: start_class_def ex_table_ok)
qed

text \<open>C35: static methods. classFindStaticMethod first looks at the singleton classes of the
  class, of the modules it includes and of its superclasses, in that order, and then at the
  instance methods of the class of the class.\<close>

theorem static_method_resolution:
  assumes "hdr_at h p = Some i"
    and "chain_of (CLASS_SUPER h) p cs" "\<forall>c\<in>set cs. static_singleton h c \<noteq> None"
    and "chain_of (CLASS_SUPER h) (i_klass i) ds"
    and "tables_ok env ci_methods h (singletons_of h cs @ ds)" "key_ok env name"
  shows "classFindStaticMethod (value_get env) h p name =
    Some (case resolve env ci_methods h name (singletons_of h cs @ ds) of
            Some method \<Rightarrow> method | None \<Rightarrow> NULL)"
proof -
  have t: "tables_ok env ci_methods h (singletons_of h cs)" "tables_ok env ci_methods h ds"
    using assms(5) by (auto simp: tables_ok_def)
  show ?thesis using assms(1) find_static_resolve [OF assms(2,3) t(1) assms(6,4) t(2)]
    by (simp add: classFindStaticMethod_def)
qed

theorem static_method_resolution_witness:
  "classFindStaticMethod (value_get plain_env) (ex_heap(16 \<mapsto>
      ex_obj (BClass ((new_hdr NULL)\<lparr>i_singletonKlass := 64\<rparr>) (newClassInfo NULL)))) 32 NIL_VAL = Some NULL"
  (is "classFindStaticMethod _ ?h _ _ = _")
proof -
  have [simp]: "CLASS_SUPER ?h 16 = Some 0" "CLASS_SUPER ?h 32 = Some 16"
    "static_singleton ?h 16 = Some 64" "static_singleton ?h 32 = Some NULL"
    "CLASS_TBL ci_methods ?h 64 = Some initTable" "hdr_at ?h 32 = Some (new_hdr NULL)"
    by (simp_all add: CLASS_SUPER_def static_singleton_def CLASS_TBL_def class_info_at_def hdr_at_def
        ex_heap_def ex_obj_def ex_class_def newClassInfo_def new_hdr_def inst_hdr_of_def)
  have "chain_of (CLASS_SUPER ?h) 32 [32, 16]" by simp
  then show ?thesis
    using static_method_resolution [of ?h 32 "new_hdr NULL" "[32, 16]" "[]" plain_env NIL_VAL]
      key_ok_plain(1) [of plain_env]
    by (simp add: singletons_of_def tables_ok_def value_table_init)
qed

text \<open>C36: getters. instanceFindGetter looks at the singleton class and then goes straight to the
  class and its superclasses: whatever stands above the singleton class on its own superclass
  chain, such as a module included in the singleton class, is not asked, although methods and
  setters are looked up there.\<close>

theorem getter_resolution:
  assumes "hdr_at h p = Some i" "i_singletonKlass i \<noteq> NULL"
    and "chain_of (CLASS_SUPER h) (i_klass i) cs" "i_singletonKlass i \<notin> set cs"
    and "chain_of (CLASS_SUPER h) (i_singletonKlass i) ds"
    and "tables_ok env ci_getters h (i_singletonKlass i # cs)" "tables_ok env ci_setters h ds"
    and "key_ok env name"
  shows "instanceFindGetter (value_get env) h p name =
      Some (case resolve env ci_getters h name (i_singletonKlass i # cs) of Some g \<Rightarrow> g | None \<Rightarrow> NULL) \<and>
    instanceFindSetter (value_get env) h p name =
      Some (case resolve env ci_setters h name ds of Some s \<Rightarrow> s | None \<Rightarrow> NULL)"
proof -
  let ?nx = "\<lambda>k. if k = i_singletonKlass i then Some (i_klass i) else CLASS_SUPER h k"
  have "chain_of ?nx (i_klass i) cs = chain_of (CLASS_SUPER h) (i_klass i) cs"
    by (rule chain_of_cong) (use assms(4) in auto)
  then have "chain_of ?nx (start_class i) (i_singletonKlass i # cs)"
    using assms(2,3) by (simp add: start_class_def)
  moreover have "chain_of (CLASS_SUPER h) (start_class i) ds"
    using assms(2,5) by (simp add: start_class_def)
  ultimately show ?thesis
    using assms(1) find_up_resolve [OF _ assms(6,8)] find_up_resolve [OF _ assms(7,8)]
    by (simp add: instanceFindGetter_def instanceFindSetter_def del: resolve.simps)
qed

theorem getter_resolution_witness:
  "instanceFindGetter (value_get plain_env) ex_heap 48 NIL_VAL = Some NULL"
  using getter_resolution [of ex_heap 48 _ "[32, 16]" "[64, 32, 16]" plain_env NIL_VAL]
    key_ok_plain(1) [of plain_env]
  by simp

subsection \<open>Instance and subclass tests\<close>

text \<open>C34: on a finite chain the ancestor tests end and decide membership in the chain; the class
  itself counts as its ancestor.\<close>

theorem ancestor_tests:
  assumes "chain_of (CLASS_SUPER h) sub cs" "sub \<noteq> NULL" "super \<noteq> NULL"
    and "hdr_at h p = Some i" "i_klass i = sub"
  shows "isSubclass h sub super = Some (super \<in> set cs) \<and>
    instanceIsA h p super = Some (super \<in> set cs) \<and> sub \<in> set cs"
proof -
  have "sub \<in> set cs" using assms(1,2) by (cases cs) auto
  then show ?thesis
    using is_ancestor_chain [OF assms(1,3)] assms(2-5)
    by (auto simp: isSubclass_def instanceIsA_def)
qed

theorem ancestor_tests_witness:
  "isSubclass ex_heap 32 16 = Some True \<and> instanceIsA ex_heap 48 64 = Some False"
  using ancestor_tests [of ex_heap 32 "[32, 16]" 16 48] ancestor_tests [of ex_heap 32 "[32, 16]" 64 48]
  by simp

subsection \<open>Properties of instances\<close>

lemma inst_hdr_of_on_hdr: "inst_hdr_of (on_hdr f b) = map_option f (inst_hdr_of b)"
  by (cases b) (auto simp: inst_hdr_of_def)

lemma hdr_at_update:
  assumes "hdr_at (heap_of m) p = Some i"
  shows "hdr_at (heap_of (set_body p (on_hdr f) m)) q =
    (if q = p then Some (f i) else hdr_at (heap_of m) q)"
  using assms by (auto simp: hdr_at_def heap_set_body inst_hdr_of_on_hdr split: option.splits)

lemma heap_on_gc_objWrite [simp]: "heap_of (on_gc (objWrite a b) m) = heap_of m"
  by (simp add: on_gc_def)

text \<open>C33: setProp returns, afterwards getProp finds the new value under every equal name, the old
  value under every other name, and nil under names never set; no other object changes; and a
  young value that is stored is in the remember set.\<close>

theorem set_prop_get_prop:
  assumes "hdr_at (heap_of m) (AS_OBJ self) = Some i" "value_table env (i_fields i)"
    and "table_room (i_fields i)" "key_ok env name"
  shows "\<exists>m'. setProp (value_put env) self name v m = Some m' \<and>
    (\<forall>n. key_ok env n \<longrightarrow> getProp (value_get env) (heap_of m') self n =
       (if valEqual env name n then Some v else getProp (value_get env) (heap_of m) self n)) \<and>
    (\<forall>q. q \<noteq> AS_OBJ self \<longrightarrow> heap_of m' q = heap_of m q) \<and>
    (\<forall>ob. IS_OBJ v \<and> heap_of m (AS_OBJ v) = Some ob \<and> is_young_obj ob \<longrightarrow>
       AS_OBJ v \<in> set (gc_rememberSet (m_gc m')))"
proof -
  obtain b t where t: "value_put env (i_fields i) name v = Some (b, t)" "value_table env t"
    "\<forall>k. key_ok env k \<longrightarrow> value_get env t k = (if valEqual env name k then Some (Some v) else value_get env (i_fields i) k)"
    using vk.set_get [OF assms(2-4)] by blast
  let ?m0 = "on_gc (objWrite self v) m"
  let ?m' = "set_body (AS_OBJ self) (on_hdr (\<lambda>i. i\<lparr>i_fields := t\<rparr>)) ?m0"
  have s: "setProp (value_put env) self name v m = Some ?m'"
    using assms(1) t(1) by (simp add: setProp_def)
  have "hdr_at (heap_of ?m0) (AS_OBJ self) = Some i" using assms(1) by simp
  from hdr_at_update [OF this]
  have h: "hdr_at (heap_of ?m') (AS_OBJ self) = Some (i\<lparr>i_fields := t\<rparr>)" by simp
  have "getProp (value_get env) (heap_of ?m') self n =
      (if valEqual env name n then Some v else getProp (value_get env) (heap_of m) self n)"
    if "key_ok env n" for n
    using t(3) that h assms(1) by (simp add: getProp_def)
  moreover have "heap_of ?m' q = heap_of m q" if "q \<noteq> AS_OBJ self" for q
    using that by (simp add: heap_set_body split: option.splits)
  moreover have "AS_OBJ v \<in> set (gc_rememberSet (m_gc ?m'))"
    if "IS_OBJ v" "heap_of m (AS_OBJ v) = Some ob" "is_young_obj ob" for ob
    using that by (simp add: set_body_def on_gc_def on_obj_def put_obj_def objWrite_def
      pushRememberSet_def split: option.splits)
  ultimately show ?thesis using s by blast
qed

theorem set_prop_get_prop_witness:
  "\<exists>m'. setProp (value_put plain_env) (objectToValue 48) NIL_VAL TRUE_VAL ex_mem = Some m' \<and>
    getProp (value_get plain_env) (heap_of m') (objectToValue 48) NIL_VAL = Some TRUE_VAL"
proof -
  have "AS_OBJ (objectToValue 48) = 48" by (simp add: AS_OBJ_objectToValue addr_ok_def)
  then show ?thesis
    using set_prop_get_prop [of ex_mem "objectToValue 48" "(new_hdr 32)\<lparr>i_singletonKlass := 64\<rparr>"
        plain_env NIL_VAL TRUE_VAL] key_ok_plain(1) [of plain_env]
    by (auto simp: value_table_init table_room_init valEqual_def)
qed

end


