(* ===== verification/Clox_Chunk.thy ===== *)
theory Clox_Chunk
  imports Clox_Table_Map
begin

text \<open>Chunks of bytecode (chunk.c, chunk.h): the opcodes, the arrays of words that a function is
  compiled to with their parallel arrays of lines and node levels, the constants and the catch
  table. A chunk is a buffer of words: it interprets the interface of Clox_Value.\<close>

subsection \<open>Opcodes\<close>

text \<open>OP_WORD is any other word in the place of an opcode; the compiler emits such words as
  instructions.\<close>

datatype (plugins only: code) opcode =
    OP_CONSTANT | OP_ADD | OP_SUBTRACT | OP_MULTIPLY | OP_DIVIDE | OP_MODULO | OP_BITOR |
    OP_BITAND | OP_BITXOR | OP_SHOVEL_L | OP_SHOVEL_R | OP_NEGATE | OP_NOT | OP_GET_LOCAL |
    OP_SET_LOCAL | OP_UNPACK_SET_LOCAL | OP_GET_GLOBAL | OP_SET_GLOBAL | OP_DEFINE_GLOBAL |
    OP_UNPACK_DEFINE_GLOBAL | OP_GET_CONST | OP_SET_CONST | OP_GET_CONST_UNDER | OP_CLOSURE |
    OP_GET_UPVALUE | OP_SET_UPVALUE | OP_CLOSE_UPVALUE | OP_PROP_GET | OP_PROP_SET | OP_METHOD |
    OP_CLASS_METHOD | OP_GETTER | OP_SETTER | OP_CALL | OP_INVOKE | OP_SPLAT_ARRAY |
    OP_GET_THIS | OP_GET_SUPER | OP_RETURN | OP_PRINT | OP_STRING | OP_ARRAY | OP_DUPARRAY |
    OP_DUPMAP | OP_MAP | OP_REGEX | OP_ITER | OP_ITER_NEXT | OP_BLOCK_BREAK | OP_BLOCK_CONTINUE |
    OP_BLOCK_RETURN | OP_TO_BLOCK | OP_TRUE | OP_FALSE | OP_NIL | OP_AND | OP_OR | OP_POP |
    OP_POP_CREF | OP_POP_N | OP_POP_DEBUG | OP_EQUAL | OP_NOT_EQUAL | OP_GREATER | OP_LESS |
    OP_GREATER_EQUAL | OP_LESS_EQUAL | OP_JUMP | OP_JUMP_IF_FALSE | OP_JUMP_IF_TRUE |
    OP_JUMP_IF_FALSE_PEEK | OP_JUMP_IF_TRUE_PEEK | OP_LOOP | OP_BREAK | OP_CLASS | OP_SUBCLASS |
    OP_MODULE | OP_IN | OP_THROW | OP_GET_THROWN | OP_RETHROW_IF_ERR | OP_INDEX_GET |
    OP_INDEX_SET | OP_CHECK_KEYWORD | OP_LEAVE | OP_WORD u32

definition all_opcodes :: "opcode list" where
  "all_opcodes = [
     OP_CONSTANT, OP_ADD, OP_SUBTRACT, OP_MULTIPLY, OP_DIVIDE, OP_MODULO, OP_BITOR, OP_BITAND,
     OP_BITXOR, OP_SHOVEL_L, OP_SHOVEL_R, OP_NEGATE, OP_NOT, OP_GET_LOCAL, OP_SET_LOCAL,
     OP_UNPACK_SET_LOCAL, OP_GET_GLOBAL, OP_SET_GLOBAL, OP_DEFINE_GLOBAL,
     OP_UNPACK_DEFINE_GLOBAL, OP_GET_CONST, OP_SET_CONST, OP_GET_CONST_UNDER, OP_CLOSURE,
     OP_GET_UPVALUE, OP_SET_UPVALUE, OP_CLOSE_UPVALUE, OP_PROP_GET, OP_PROP_SET, OP_METHOD,
     OP_CLASS_METHOD, OP_GETTER, OP_SETTER, OP_CALL, OP_INVOKE, OP_SPLAT_ARRAY, OP_GET_THIS,
     OP_GET_SUPER, OP_RETURN, OP_PRINT, OP_STRING, OP_ARRAY, OP_DUPARRAY, OP_DUPMAP, OP_MAP,
     OP_REGEX, OP_ITER, OP_ITER_NEXT, OP_BLOCK_BREAK, OP_BLOCK_CONTINUE, OP_BLOCK_RETURN,
     OP_TO_BLOCK, OP_TRUE, OP_FALSE, OP_NIL, OP_AND, OP_OR, OP_POP, OP_POP_CREF, OP_POP_N,
     OP_POP_DEBUG, OP_EQUAL, OP_NOT_EQUAL, OP_GREATER, OP_LESS, OP_GREATER_EQUAL, OP_LESS_EQUAL,
     OP_JUMP, OP_JUMP_IF_FALSE, OP_JUMP_IF_TRUE, OP_JUMP_IF_FALSE_PEEK, OP_JUMP_IF_TRUE_PEEK,
     OP_LOOP, OP_BREAK, OP_CLASS, OP_SUBCLASS, OP_MODULE, OP_IN, OP_THROW, OP_GET_THROWN,
     OP_RETHROW_IF_ERR, OP_INDEX_GET, OP_INDEX_SET, OP_CHECK_KEYWORD, OP_LEAVE]"

text \<open>The number of an opcode is its position in opcodes.h.inc.\<close>

fun position :: "'a \<Rightarrow> 'a list \<Rightarrow> nat" where
  "position x [] = 0"
| "position x (y # ys) = (if x = y then 0 else Suc (position x ys))"

definition op_word :: "opcode \<Rightarrow> u32" where
  "op_word c = (case c of OP_WORD w \<Rightarrow> w | _ \<Rightarrow> of_nat (position c all_opcodes))"

definition word_op :: "u32 \<Rightarrow> opcode option" where
  "word_op w = (if unat w < length all_opcodes then Some (all_opcodes ! unat w) else None)"

text \<open>The instruction that a word is taken for.\<close>

definition opcode_of :: "u32 \<Rightarrow> opcode" where
  "opcode_of w = (case word_op w of Some c \<Rightarrow> c | None \<Rightarrow> OP_WORD w)"

subsection \<open>Chunks\<close>

record catch_row =
  ct_ifrom :: int
  ct_ito :: int
  ct_itarget :: int
  ct_catchVal :: lxvalue
  ct_lastThrownValue :: lxvalue
  ct_isEnsure :: bool
  ct_isEnsureRunning :: bool

text \<open>Slots behind count are not initialised: they hold None.\<close>

record chunk =
  ck_count :: int
  ck_capacity :: int
  ck_code :: "u32 option list"
  ck_lines :: "int option list"
  ck_ndepths :: "int option list"
  ck_nwidths :: "int option list"
  ck_constants :: value_array
  ck_varInfo :: table
  ck_catchTbl :: "catch_row list"

definition initChunk :: chunk where
  "initChunk = \<lparr>ck_count = 0, ck_capacity = 0, ck_code = [], ck_lines = [], ck_ndepths = [],
     ck_nwidths = [], ck_constants = initValueArray, ck_varInfo = initTable, ck_catchTbl = []\<rparr>"

definition ck_reserve :: "chunk \<Rightarrow> chunk" where
  "ck_reserve c =
     (if ck_count c = ck_capacity c
      then (let capa = GROW_CAPACITY (ck_capacity c)
            in c\<lparr>ck_code := grow_slots (ck_code c) capa, ck_lines := grow_slots (ck_lines c) capa,
                 ck_ndepths := grow_slots (ck_ndepths c) capa,
                 ck_nwidths := grow_slots (ck_nwidths c) capa, ck_capacity := capa\<rparr>)
      else c)"

definition writeChunkWord :: "chunk \<Rightarrow> u32 \<Rightarrow> int \<Rightarrow> int \<Rightarrow> int \<Rightarrow> chunk" where
  "writeChunkWord c0 word line nDepth nWidth =
     (let c = ck_reserve c0; n = nat (ck_count c)
      in c\<lparr>ck_code := (ck_code c)[n := Some word], ck_lines := (ck_lines c)[n := Some line],
           ck_ndepths := (ck_ndepths c)[n := Some nDepth], ck_nwidths := (ck_nwidths c)[n := Some nWidth],
           ck_count := ck_count c + 1\<rparr>)"

definition freeChunk :: "chunk \<Rightarrow> chunk" where
  "freeChunk c = c\<lparr>ck_count := 0, ck_capacity := 0, ck_code := [], ck_lines := [], ck_ndepths := [],
     ck_nwidths := [], ck_constants := freeValueArray (ck_constants c),
     ck_varInfo := freeTable (ck_varInfo c), ck_catchTbl := []\<rparr>"

definition getConstant :: "chunk \<Rightarrow> nat \<Rightarrow> lxvalue option" where
  "getConstant c idx =
     (if idx < length (va_values (ck_constants c)) then va_values (ck_constants c) ! idx else None)"

text \<open>addVarInfo is for the debugger; the number of a slot becomes a value by of_int.\<close>

definition addVarInfo ::
    "(table \<Rightarrow> lxvalue \<Rightarrow> lxvalue \<Rightarrow> (bool \<times> table) option) \<Rightarrow> chunk \<Rightarrow> lxvalue \<Rightarrow> lxvalue \<Rightarrow> chunk option" where
  "addVarInfo put c varName idx =
     map_option (\<lambda>(_, t). c\<lparr>ck_varInfo := t\<rparr>) (put (ck_varInfo c) varName idx)"

text \<open>Adding a row to a catch table, at its end; the index of the row is returned.\<close>

definition add_row :: "catch_row \<Rightarrow> catch_row list \<Rightarrow> nat \<times> catch_row list" where
  "add_row r rows = (length rows, rows @ [r])"

definition catch_row :: "int \<Rightarrow> int \<Rightarrow> int \<Rightarrow> lxvalue \<Rightarrow> catch_row" where
  "catch_row ifrom ito itarget catchVal =
     \<lparr>ct_ifrom = ifrom, ct_ito = ito, ct_itarget = itarget, ct_catchVal = catchVal,
      ct_lastThrownValue = 0, ct_isEnsure = False, ct_isEnsureRunning = False\<rparr>"

definition ensure_row :: "int \<Rightarrow> int \<Rightarrow> int \<Rightarrow> catch_row" where
  "ensure_row ifrom ito itarget =
     (catch_row ifrom ito itarget NIL_VAL)\<lparr>ct_isEnsure := True\<rparr>"

subsection \<open>A chunk as a buffer\<close>

type_synonym chunk_entry = "u32 \<times> int \<times> int \<times> int"

text \<open>An array of n slots that holds a list at its front.\<close>

definition arr :: "nat \<Rightarrow> 'a list \<Rightarrow> 'a option list \<Rightarrow> bool" where
  "arr n xs slots \<longleftrightarrow> length slots = n \<and> length xs \<le> n \<and> take (length xs) slots = map Some xs"

lemma arr_grow: "arr n xs slots \<Longrightarrow> n \<le> nat m \<Longrightarrow> arr (nat m) xs (grow_slots slots m)"
  by (auto simp: arr_def take_grow_slots)

lemma arr_put:
  "arr n xs slots \<Longrightarrow> k = length xs \<Longrightarrow> k < n \<Longrightarrow> arr n (xs @ [x]) (slots[k := Some x])"
  by (auto simp: arr_def take_Suc_update)

definition chunk_holds :: "chunk \<Rightarrow> chunk_entry list \<Rightarrow> bool" where
  "chunk_holds c es \<longleftrightarrow> ck_count c = int (length es) \<and> 0 \<le> ck_capacity c \<and>
     arr (nat (ck_capacity c)) (map fst es) (ck_code c) \<and>
     arr (nat (ck_capacity c)) (map (fst \<circ> snd) es) (ck_lines c) \<and>
     arr (nat (ck_capacity c)) (map (fst \<circ> snd \<circ> snd) es) (ck_ndepths c) \<and>
     arr (nat (ck_capacity c)) (map (snd \<circ> snd \<circ> snd) es) (ck_nwidths c)"

definition put_entry :: "chunk \<Rightarrow> chunk_entry \<Rightarrow> chunk" where
  "put_entry c e = (case e of (w, l, d, n) \<Rightarrow> writeChunkWord c w l d n)"

lemma chunk_holds_init: "chunk_holds initChunk []"
  by (simp add: chunk_holds_def arr_def initChunk_def)

lemma ck_reserve_holds:
  assumes "chunk_holds c es"
  shows "chunk_holds (ck_reserve c) es" "ck_count (ck_reserve c) = int (length es)"
    "length es < nat (ck_capacity (ck_reserve c))"
proof -
  have c: "ck_count c = int (length es)" "0 \<le> ck_capacity c" "length es \<le> nat (ck_capacity c)"
    using assms by (auto simp: chunk_holds_def arr_def)
  have g: "nat (ck_capacity c) \<le> nat (GROW_CAPACITY (ck_capacity c))"
    "ck_capacity c < GROW_CAPACITY (ck_capacity c)" using c(2) by (auto simp: GROW_CAPACITY_def)
  show "chunk_holds (ck_reserve c) es"
    using assms g by (auto simp: chunk_holds_def ck_reserve_def Let_def intro: arr_grow)
  show "ck_count (ck_reserve c) = int (length es)" using c by (simp add: ck_reserve_def Let_def)
  show "length es < nat (ck_capacity (ck_reserve c))" using c g by (auto simp: ck_reserve_def Let_def)
qed

lemma chunk_holds_put:
  assumes "chunk_holds c es"
  shows "chunk_holds (put_entry c e) (es @ [e])"
proof -
  obtain w l d n where e: "e = (w, l, d, n)" by (cases e)
  note r = ck_reserve_holds [OF assms]
  show ?thesis
    using r(1,3) by (simp add: chunk_holds_def put_entry_def e writeChunkWord_def Let_def r(2) arr_put)
qed

text \<open>The list of the entries of a chunk.\<close>

definition chunk_list :: "chunk \<Rightarrow> chunk_entry list" where
  "chunk_list c = map (\<lambda>i. (the (ck_code c ! i), the (ck_lines c ! i), the (ck_ndepths c ! i), the (ck_nwidths c ! i)))
     [0..<nat (ck_count c)]"

definition chunk_ok :: "chunk \<Rightarrow> bool" where
  "chunk_ok c \<longleftrightarrow> chunk_holds c (chunk_list c)"

lemma arr_nth: "arr n xs slots \<Longrightarrow> i < length xs \<Longrightarrow> slots ! i = Some (xs ! i)"
  unfolding arr_def by (metis nth_map nth_take)

lemma chunk_holds_list:
  assumes "chunk_holds c es"
  shows "chunk_list c = es"
  by (rule nth_equalityI)
    (use assms in \<open>auto simp: chunk_list_def chunk_holds_def arr_nth [where i = i and xs = "map f es" for i f]\<close>)

lemma chunk_ok_holds: "chunk_holds c es \<Longrightarrow> chunk_ok c"
  by (simp add: chunk_ok_def chunk_holds_list)

interpretation ck: value_buffer chunk_ok chunk_list initChunk put_entry
proof
  show "chunk_ok initChunk" "chunk_list initChunk = []"
    using chunk_holds_init by (simp_all add: chunk_ok_holds chunk_holds_list)
  fix c e assume "chunk_ok c"
  then have "chunk_holds (put_entry c e) (chunk_list c @ [e])"
    by (simp add: chunk_ok_def chunk_holds_put)
  then show "chunk_ok (put_entry c e)" "chunk_list (put_entry c e) = chunk_list c @ [e]"
    by (simp_all add: chunk_ok_holds chunk_holds_list)
qed

lemma position_nth: "x \<in> set xs \<Longrightarrow> position x xs < length xs \<and> xs ! position x xs = x"
  by (induction xs) auto

lemma all_opcodes_complete: "c \<in> set all_opcodes \<or> (\<exists>w. c = OP_WORD w)"
  by (cases c) (simp_all add: all_opcodes_def)

lemma OP_WORD_not_opcode: "OP_WORD w \<notin> set all_opcodes"
  by (simp add: all_opcodes_def)

lemma op_word_position:
  assumes "c \<in> set all_opcodes"
  shows "op_word c = of_nat (position c all_opcodes)"
proof (cases c)
  case (OP_WORD w)
  then show ?thesis using assms OP_WORD_not_opcode by simp
qed (simp_all add: op_word_def)

lemma length_all_opcodes: "length all_opcodes = 85"
  by (simp add: all_opcodes_def)

lemma word_op_op_word [simp]:
  assumes "c \<in> set all_opcodes"
  shows "word_op (op_word c) = Some c"
proof -
  have p: "position c all_opcodes < length all_opcodes" "all_opcodes ! position c all_opcodes = c"
    using position_nth [OF assms] by auto
  then have "unat (op_word c) = position c all_opcodes"
    by (simp add: op_word_position assms unat_of_nat length_all_opcodes)
  then show ?thesis using p by (simp add: word_op_def)
qed

lemma op_word_inject: "c \<in> set all_opcodes \<Longrightarrow> d \<in> set all_opcodes \<Longrightarrow> op_word c = op_word d \<longleftrightarrow> c = d"
  by (metis option.inject word_op_op_word)

lemma position_distinct: "distinct xs \<Longrightarrow> i < length xs \<Longrightarrow> position (xs ! i) xs = i"
  by (induction xs arbitrary: i) (auto simp: nth_Cons split: nat.splits)

text \<open>Every word is the number of the instruction it is taken for.\<close>

lemma op_word_opcode_of [simp]: "op_word (opcode_of w) = w"
proof (cases "unat w < length all_opcodes")
  case True
  have "distinct all_opcodes" by (simp add: all_opcodes_def)
  then show ?thesis using True
    by (simp add: opcode_of_def word_op_def op_word_position position_distinct)
next
  case False
  then show ?thesis by (simp add: opcode_of_def word_op_def op_word_def)
qed

end
