(* ===== verification/Clox_Iseq.thy ===== *)
theory Clox_Iseq
  imports Clox_Chunk
begin

text \<open>Instruction sequences (chunk.c, chunk.h): the doubly linked list of instructions that the
  compiler emits into and the optimiser edits. The nodes live in a store of pointers; a
  dereference of a pointer that is not in the store has the result None. The list of nodes that
  a well-linked sequence represents, and what the operations do to it, follow.\<close>

type_synonym iptr = nat

definition MAX_INSN_OPERANDS :: nat where "MAX_INSN_OPERANDS = 3"
definition INSN_FL_NUMBER :: u32 where "INSN_FL_NUMBER = 1"
definition INSN_FL_BREAK :: u32 where "INSN_FL_BREAK = 2"
definition INSN_FL_CONTINUE :: u32 where "INSN_FL_CONTINUE = 4"

text \<open>An instruction, without its links to the neighbours.\<close>

record insn =
  in_code :: opcode
  in_operands :: "u32 list"
  in_numOperands :: nat
  in_lineno :: int
  in_flags :: u32
  in_jumpTo :: "iptr option"
  in_jumpToPrev :: "iptr option"
  in_depth :: int
  in_width :: int
  in_extra :: int
  in_isLabel :: bool

record node =
  nd_insn :: insn
  nd_next :: "iptr option"
  nd_prev :: "iptr option"

record iseq =
  is_count :: int
  is_wordCount :: int
  is_constants :: value_array
  is_catchTbl :: "catch_row list"
  is_tail :: "iptr option"
  is_insns :: "iptr option"
  is_store :: "iptr \<Rightarrow> node option"

definition insn_words :: "insn \<Rightarrow> int" where
  "insn_words i = int (in_numOperands i) + 1"

definition initIseq :: iseq where
  "initIseq = \<lparr>is_count = 0, is_wordCount = 0, is_constants = initValueArray, is_catchTbl = [],
     is_tail = None, is_insns = None, is_store = (\<lambda>_. None)\<rparr>"

definition upd_node :: "iptr \<Rightarrow> (node \<Rightarrow> node) \<Rightarrow> iseq \<Rightarrow> iseq option" where
  "upd_node p f s =
     (case is_store s p of
        None \<Rightarrow> None
      | Some n \<Rightarrow> Some (s\<lparr>is_store := (is_store s)(p \<mapsto> f n)\<rparr>))"

text \<open>iseqAddInsn: toAdd is in the store already.\<close>

definition iseqAddInsn :: "iseq \<Rightarrow> iptr \<Rightarrow> iseq option" where
  "iseqAddInsn s toAdd =
     (let pv = is_tail s
      in case (case pv of
            Some p \<Rightarrow> upd_node p (\<lambda>n. n\<lparr>nd_next := Some toAdd\<rparr>) s
          | None \<Rightarrow> Some (s\<lparr>is_insns := Some toAdd\<rparr>)) of
        None \<Rightarrow> None
      | Some s1 \<Rightarrow>
          (case (upd_node toAdd (\<lambda>n. n\<lparr>nd_prev := pv, nd_next := None\<rparr>) s1, is_store s1 toAdd) of
             (Some s2, Some n) \<Rightarrow>
               Some (s2\<lparr>is_tail := Some toAdd, is_count := is_count s2 + 1,
                        is_wordCount := is_wordCount s2 + insn_words (nd_insn n)\<rparr>)
           | _ \<Rightarrow> None))"

text \<open>The loop that looks for an instruction from the head on.\<close>

partial_function (option) find_insn :: "(iptr \<Rightarrow> node option) \<Rightarrow> iptr \<Rightarrow> iptr option \<Rightarrow> int \<Rightarrow> (iptr option \<times> int) option" where
  "find_insn st p cur i =
     (case cur of
        None \<Rightarrow> Some (None, i)
      | Some c \<Rightarrow>
          if c = p then Some (Some c, i)
          else (case st c of None \<Rightarrow> None | Some n \<Rightarrow> find_insn st p (nd_next n) (i + 1)))"

declare find_insn.simps [code]

definition iseqInsnIndex :: "iseq \<Rightarrow> iptr \<Rightarrow> int option" where
  "iseqInsnIndex s p =
     (case find_insn (is_store s) p (is_insns s) 0 of
        None \<Rightarrow> None
      | Some (Some _, i) \<Rightarrow> Some i
      | Some (None, _) \<Rightarrow> Some (- 1))"

text \<open>iseqRmInsn unlinks and frees the node.\<close>

definition unlink_next :: "iptr option \<Rightarrow> iptr option \<Rightarrow> iseq \<Rightarrow> iseq option" where
  "unlink_next pv nx s =
     (case pv of
        Some p \<Rightarrow> upd_node p (\<lambda>n. n\<lparr>nd_next := nx\<rparr>) s
      | None \<Rightarrow> Some (s\<lparr>is_insns := nx\<rparr>))"

definition unlink_prev :: "iptr option \<Rightarrow> iptr option \<Rightarrow> iseq \<Rightarrow> iseq option" where
  "unlink_prev pv nx s =
     (case nx of
        Some p \<Rightarrow> upd_node p (\<lambda>n. n\<lparr>nd_prev := pv\<rparr>) s
      | None \<Rightarrow> Some (s\<lparr>is_tail := pv\<rparr>))"

definition iseqRmInsn :: "iseq \<Rightarrow> iptr \<Rightarrow> (bool \<times> iseq) option" where
  "iseqRmInsn s toRm =
     (case find_insn (is_store s) toRm (is_insns s) 0 of
        None \<Rightarrow> None
      | Some (None, _) \<Rightarrow> Some (False, s)
      | Some (Some c, _) \<Rightarrow>
          (case is_store s c of
             None \<Rightarrow> None
           | Some n \<Rightarrow>
               (case Option.bind (unlink_next (nd_prev n) (nd_next n) s) (unlink_prev (nd_prev n) (nd_next n)) of
                  None \<Rightarrow> None
                | Some s1 \<Rightarrow>
                    (let s2 = (if is_tail s1 = None then s1\<lparr>is_insns := None\<rparr> else s1)
                     in Some (True, s2\<lparr>is_count := is_count s2 - 1,
                          is_wordCount := is_wordCount s2 - insn_words (nd_insn n),
                          is_store := (is_store s2)(c := None)\<rparr>)))))"

text \<open>iseqInsnWordDiff walks back from after to prev, or to the head.\<close>

partial_function (option) word_diff :: "(iptr \<Rightarrow> node option) \<Rightarrow> iptr option \<Rightarrow> iptr option \<Rightarrow> int \<Rightarrow> int option" where
  "word_diff st pv cur d =
     (case cur of
        None \<Rightarrow> Some d
      | Some c \<Rightarrow>
          if cur = pv then Some d
          else (case st c of
            None \<Rightarrow> None
          | Some n \<Rightarrow> word_diff st pv (nd_prev n) (d + insn_words (nd_insn n))))"

declare word_diff.simps [code]

definition iseqInsnWordDiff :: "iseq \<Rightarrow> iptr option \<Rightarrow> iptr \<Rightarrow> int option" where
  "iseqInsnWordDiff s pv after = word_diff (is_store s) pv (Some after) 0"

partial_function (option) at_offset :: "(iptr \<Rightarrow> node option) \<Rightarrow> int \<Rightarrow> iptr option \<Rightarrow> int \<Rightarrow> iptr option option" where
  "at_offset st wordOffset cur i =
     (case cur of
        Some c \<Rightarrow>
          if i < wordOffset
          then (case st c of None \<Rightarrow> None
            | Some n \<Rightarrow> at_offset st wordOffset (nd_next n) (i + insn_words (nd_insn n)))
          else Some (if i = wordOffset then cur else None)
      | None \<Rightarrow> Some None)"

declare at_offset.simps [code]

definition insnAtOffset :: "iseq \<Rightarrow> int \<Rightarrow> iptr option option" where
  "insnAtOffset s wordOffset = at_offset (is_store s) wordOffset (is_insns s) 0"

definition iseqAddConstant :: "iseq \<Rightarrow> lxvalue \<Rightarrow> int \<times> iseq" where
  "iseqAddConstant s v =
     (let cs = writeValueArrayEnd (is_constants s) v in (va_count cs - 1, s\<lparr>is_constants := cs\<rparr>))"

definition iseqAddCatchRow :: "iseq \<Rightarrow> int \<Rightarrow> int \<Rightarrow> int \<Rightarrow> lxvalue \<Rightarrow> nat \<times> iseq" where
  "iseqAddCatchRow s ifrom ito itarget catchVal =
     (let (i, rows) = add_row (catch_row ifrom ito itarget catchVal) (is_catchTbl s)
      in (i, s\<lparr>is_catchTbl := rows\<rparr>))"

definition iseqAddEnsureRow :: "iseq \<Rightarrow> int \<Rightarrow> int \<Rightarrow> int \<Rightarrow> nat \<times> iseq" where
  "iseqAddEnsureRow s ifrom ito itarget =
     (let (i, rows) = add_row (ensure_row ifrom ito itarget) (is_catchTbl s)
      in (i, s\<lparr>is_catchTbl := rows\<rparr>))"

text \<open>freeIseq zeroes the nodes along the list and forgets them; they stay allocated.\<close>

definition zero_insn :: insn where
  "zero_insn = \<lparr>in_code = OP_CONSTANT, in_operands = [0, 0, 0], in_numOperands = 0, in_lineno = 0,
     in_flags = 0, in_jumpTo = None, in_jumpToPrev = None, in_depth = 0, in_width = 0, in_extra = 0,
     in_isLabel = False\<rparr>"

partial_function (option) zero_nodes :: "iptr option \<Rightarrow> (iptr \<Rightarrow> node option) \<Rightarrow> (iptr \<Rightarrow> node option) option" where
  "zero_nodes cur st =
     (case cur of
        None \<Rightarrow> Some st
      | Some c \<Rightarrow>
          (case st c of
             None \<Rightarrow> None
           | Some n \<Rightarrow> zero_nodes (nd_next n)
               (st(c \<mapsto> \<lparr>nd_insn = zero_insn, nd_next = None, nd_prev = None\<rparr>))))"

declare zero_nodes.simps [code]

definition freeIseq :: "iseq \<Rightarrow> iseq option" where
  "freeIseq s = map_option (\<lambda>st. initIseq\<lparr>is_store := st\<rparr>) (zero_nodes (is_insns s) (is_store s))"

end
