(* ===== verification/Clox_Iseq_Laws.thy ===== *)
theory Clox_Iseq_Laws
  imports Clox_Iseq
begin

text \<open>The doubly linked list of an instruction sequence as a list of pointers: a segment
  predicate over the store, the representation of a sequence, and what each operation of
  Clox_Iseq does to the list it represents.\<close>

subsection \<open>Segments\<close>

fun hd_or :: "iptr list \<Rightarrow> iptr option \<Rightarrow> iptr option" where
  "hd_or [] nx = nx"
| "hd_or (x # xs) nx = Some x"

fun last_or :: "iptr list \<Rightarrow> iptr option \<Rightarrow> iptr option" where
  "last_or [] pv = pv"
| "last_or (x # xs) pv = last_or xs (Some x)"

fun lseg :: "(iptr \<Rightarrow> node option) \<Rightarrow> iptr option \<Rightarrow> iptr list \<Rightarrow> iptr option \<Rightarrow> bool" where
  "lseg st pv [] nx \<longleftrightarrow> True"
| "lseg st pv (x # xs) nx \<longleftrightarrow>
     (\<exists>n. st x = Some n \<and> nd_prev n = pv \<and> nd_next n = hd_or xs nx) \<and> lseg st (Some x) xs nx"

lemma hd_or_append [simp]: "hd_or (xs @ ys) nx = hd_or xs (hd_or ys nx)"
  by (cases xs) auto

lemma last_or_append [simp]: "last_or (xs @ ys) pv = last_or ys (last_or xs pv)"
  by (induction xs arbitrary: pv) auto

lemma last_or_nonempty: "xs \<noteq> [] \<Longrightarrow> last_or xs pv = Some (last xs)"
  by (induction xs arbitrary: pv) auto

lemma hd_or_nonempty: "xs \<noteq> [] \<Longrightarrow> hd_or xs nx = Some (hd xs)"
  by (cases xs) auto

lemma lseg_append:
  "lseg st pv (xs @ ys) nx \<longleftrightarrow> lseg st pv xs (hd_or ys nx) \<and> lseg st (last_or xs pv) ys nx"
  by (induction xs arbitrary: pv) auto

lemma lseg_other [simp]: "q \<notin> set xs \<Longrightarrow> lseg (st(q := v)) pv xs nx = lseg st pv xs nx"
  by (induction xs arbitrary: pv) auto

lemma lseg_set_next:
  assumes "lseg st pv (xs @ [q]) nx" "q \<notin> set xs" "st q = Some n"
  shows "lseg (st(q \<mapsto> n\<lparr>nd_next := nx'\<rparr>)) pv (xs @ [q]) nx'"
  using assms by (auto simp: lseg_append)

lemma lseg_set_prev:
  assumes "lseg st pv (q # ys) nx" "q \<notin> set ys" "st q = Some n"
  shows "lseg (st(q \<mapsto> n\<lparr>nd_prev := pv'\<rparr>)) pv' (q # ys) nx"
  using assms by auto

lemma lseg_node: "lseg st pv xs nx \<Longrightarrow> x \<in> set xs \<Longrightarrow> st x \<noteq> None"
  by (induction xs arbitrary: pv) auto

subsection \<open>Representation\<close>

text \<open>The instruction at a pointer, and the words of a list of instructions.\<close>

definition insn_of :: "iseq \<Rightarrow> iptr \<Rightarrow> insn" where
  "insn_of s p = nd_insn (the (is_store s p))"

definition words_of :: "insn list \<Rightarrow> int" where
  "words_of is = sum_list (map insn_words is)"

lemma words_of_simps [simp]: "words_of [] = 0" "words_of (i # is) = insn_words i + words_of is"
  "words_of (is @ js) = words_of is + words_of js"
  by (simp_all add: words_of_def)

definition iseq_links :: "iseq \<Rightarrow> iptr list \<Rightarrow> bool" where
  "iseq_links s ps \<longleftrightarrow> distinct ps \<and> lseg (is_store s) None ps None \<and> is_insns s = hd_or ps None \<and>
     is_tail s = last_or ps None \<and> is_count s = int (length ps)"

definition iseq_rep :: "iseq \<Rightarrow> iptr list \<Rightarrow> bool" where
  "iseq_rep s ps \<longleftrightarrow> iseq_links s ps \<and> is_wordCount s = words_of (map (insn_of s) ps)"

lemma iseq_links_node: "iseq_links s ps \<Longrightarrow> p \<in> set ps \<Longrightarrow> \<exists>n. is_store s p = Some n \<and> nd_insn n = insn_of s p"
  using lseg_node by (fastforce simp: iseq_links_def insn_of_def)

lemma rep_init: "iseq_rep initIseq []"
  by (simp add: iseq_rep_def iseq_links_def initIseq_def)

lemma upd_node_Some: "is_store s p = Some n \<Longrightarrow> upd_node p f s = Some (s\<lparr>is_store := (is_store s)(p \<mapsto> f n)\<rparr>)"
  by (simp add: upd_node_def)

text \<open>Appending.\<close>

lemma iseqAddInsn_spec:
  assumes "iseq_links s ps" "q \<notin> set ps" "is_store s q = Some n"
  shows "\<exists>s'. iseqAddInsn s q = Some s' \<and> iseq_links s' (ps @ [q]) \<and>
    (\<forall>p. insn_of s' p = insn_of s p) \<and>
    is_wordCount s' = is_wordCount s + insn_words (nd_insn n) \<and> is_constants s' = is_constants s \<and> is_catchTbl s' = is_catchTbl s"
proof (cases ps rule: rev_cases)
  case Nil
  let ?n = "n\<lparr>nd_prev := None, nd_next := None\<rparr>"
  let ?s = "s\<lparr>is_insns := Some q, is_store := (is_store s)(q \<mapsto> ?n), is_tail := Some q,
     is_count := is_count s + 1, is_wordCount := is_wordCount s + insn_words (nd_insn n)\<rparr>"
  have "iseqAddInsn s q = Some ?s"
    using assms Nil by (simp add: iseqAddInsn_def Let_def iseq_links_def upd_node_def)
  moreover have "insn_of ?s p = insn_of s p" for p using assms(3) by (simp add: insn_of_def)
  moreover have "iseq_links ?s [q]" using assms Nil by (simp add: iseq_links_def insn_of_def)
  ultimately show ?thesis using Nil by (intro exI [of _ ?s]) simp
next
  case (snoc xs l)
  have l: "is_tail s = Some l" "q \<noteq> l" using assms(1,2) snoc by (auto simp: iseq_links_def)
  obtain m where m: "is_store s l = Some m" using iseq_links_node [OF assms(1)] snoc by auto
  let ?st1 = "(is_store s)(l \<mapsto> m\<lparr>nd_next := Some q\<rparr>)"
  let ?st = "?st1(q \<mapsto> n\<lparr>nd_prev := Some l, nd_next := None\<rparr>)"
  let ?s = "s\<lparr>is_store := ?st, is_tail := Some q,
     is_count := is_count s + 1, is_wordCount := is_wordCount s + insn_words (nd_insn n)\<rparr>"
  have a: "iseqAddInsn s q = Some ?s"
    using assms(3) l m by (simp add: iseqAddInsn_def Let_def upd_node_def)
  have i: "insn_of ?s p = insn_of s p" for p using assms(3) m by (simp add: insn_of_def)
  have "lseg ?st1 None ps (Some q)"
    using lseg_set_next [of "is_store s" None xs l None m "Some q"] m assms(1) snoc
    by (auto simp: iseq_links_def)
  then have "lseg ?st None (ps @ [q]) None"
    using assms(2) snoc by (simp add: lseg_append)
  then have "iseq_links ?s (ps @ [q])"
    using assms(1,2) snoc by (auto simp: iseq_links_def)
  then show ?thesis using a i by (intro exI [of _ ?s]) simp
qed

text \<open>Searching from the head.\<close>

lemma find_insn_found:
  "lseg st pv (xs @ p # ys) nx \<Longrightarrow> p \<notin> set xs \<Longrightarrow>
     find_insn st p (hd_or (xs @ p # ys) nx) i = Some (Some p, i + int (length xs))"
proof (induction xs arbitrary: pv i)
  case Nil
  then show ?case by (subst find_insn.simps) simp
next
  case (Cons x xs)
  then obtain n where n: "st x = Some n" "nd_next n = hd_or (xs @ p # ys) nx" by auto
  have "find_insn st p (nd_next n) (i + 1) = Some (Some p, i + 1 + int (length xs))"
    unfolding n(2) using Cons by auto
  then show ?case using n Cons.prems by (subst find_insn.simps) simp
qed

lemma find_insn_absent:
  "lseg st pv xs None \<Longrightarrow> p \<notin> set xs \<Longrightarrow> find_insn st p (hd_or xs None) i = Some (None, i + int (length xs))"
proof (induction xs arbitrary: pv i)
  case Nil
  then show ?case by (subst find_insn.simps) simp
next
  case (Cons x xs)
  then obtain n where n: "st x = Some n" "nd_next n = hd_or xs None" by auto
  have "find_insn st p (nd_next n) (i + 1) = Some (None, i + 1 + int (length xs))"
    unfolding n(2) using Cons by auto
  then show ?case using n Cons.prems by (subst find_insn.simps) simp
qed

lemma iseqInsnIndex_spec:
  assumes "iseq_links s ps"
  shows "iseqInsnIndex s p = Some (if p \<in> set ps then int (position p ps) else - 1)"
proof (cases "p \<in> set ps")
  case True
  then obtain xs ys where x: "ps = xs @ p # ys" "p \<notin> set xs" by (metis split_list_first)
  have "position p (xs @ p # ys) = length xs" using x(2) by (induction xs) auto
  then show ?thesis using find_insn_found [of "is_store s" None xs p ys None 0] assms x True
    by (simp add: iseqInsnIndex_def iseq_links_def)
next
  case False
  then show ?thesis using find_insn_absent [of "is_store s" None ps p 0] assms
    by (simp add: iseqInsnIndex_def iseq_links_def)
qed

text \<open>Removal.\<close>

lemma iseqRmInsn_spec:
  assumes "iseq_links s ps" "p \<in> set ps"
  shows "\<exists>s'. iseqRmInsn s p = Some (True, s') \<and> iseq_links s' (remove1 p ps) \<and> is_store s' p = None \<and>
    is_wordCount s' = is_wordCount s - insn_words (insn_of s p) \<and>
    (\<forall>q. q \<noteq> p \<longrightarrow> insn_of s' q = insn_of s q) \<and> is_constants s' = is_constants s \<and> is_catchTbl s' = is_catchTbl s"
proof -
  obtain xs ys where x: "ps = xs @ p # ys" "p \<notin> set xs" using split_list_first [OF assms(2)] by blast
  have d: "distinct xs" "distinct ys" "p \<notin> set ys" "set xs \<inter> set ys = {}" "remove1 p ps = xs @ ys"
    using assms(1) x by (auto simp: iseq_links_def remove1_append)
  have seg: "lseg (is_store s) None xs (Some p)" "lseg (is_store s) (Some p) ys None"
    and n: "\<exists>n. is_store s p = Some n \<and> nd_prev n = last_or xs None \<and> nd_next n = hd_or ys None"
    using assms(1) x by (auto simp: iseq_links_def lseg_append)
  obtain n where n: "is_store s p = Some n" "nd_prev n = last_or xs None" "nd_next n = hd_or ys None"
    using n by blast
  have "find_insn (is_store s) p (is_insns s) 0 = Some (Some p, int (length xs))"
    using find_insn_found [of "is_store s" None xs p ys None 0] assms(1) x by (simp add: iseq_links_def)
  note f = this
  obtain s1 where s1: "unlink_next (last_or xs None) (hd_or ys None) s = Some s1"
    "lseg (is_store s1) None xs (hd_or ys None)" "lseg (is_store s1) (Some p) ys None"
    "\<And>q. insn_of s1 q = insn_of s q" "is_insns s1 = hd_or (xs @ ys) None" "is_tail s1 = is_tail s"
    "is_count s1 = is_count s" "is_wordCount s1 = is_wordCount s" "is_store s1 p = Some n"
    "is_constants s1 = is_constants s" "is_catchTbl s1 = is_catchTbl s"
  proof (cases xs rule: rev_cases)
    case Nil
    then show ?thesis using seg n by (intro that [of "s\<lparr>is_insns := hd_or ys None\<rparr>"])
      (auto simp: unlink_next_def insn_of_def)
  next
    case (snoc as a)
    then obtain m where m: "is_store s a = Some m" using lseg_node [OF seg(1)] by auto
    have ap: "a \<noteq> p" "a \<notin> set ys" "a \<notin> set as" using snoc x d by auto
    have "lseg ((is_store s)(a \<mapsto> m\<lparr>nd_next := hd_or ys None\<rparr>)) None xs (hd_or ys None)"
      using lseg_set_next [of "is_store s" None as a "Some p" m] m ap(3) seg(1) snoc by simp
    then show ?thesis using seg n m snoc ap assms(1) x
      by (intro that [of "s\<lparr>is_store := (is_store s)(a \<mapsto> m\<lparr>nd_next := hd_or ys None\<rparr>)\<rparr>"])
        (auto simp: unlink_next_def insn_of_def upd_node_def hd_or_nonempty iseq_links_def)
  qed
  obtain s2 where s2: "unlink_prev (last_or xs None) (hd_or ys None) s1 = Some s2"
    "lseg (is_store s2) None xs (hd_or ys None)" "lseg (is_store s2) (last_or xs None) ys None"
    "\<And>q. insn_of s2 q = insn_of s q" "is_insns s2 = hd_or (xs @ ys) None" "is_tail s2 = last_or (xs @ ys) None"
    "is_count s2 = is_count s" "is_wordCount s2 = is_wordCount s"
    "is_constants s2 = is_constants s" "is_catchTbl s2 = is_catchTbl s"
  proof (cases ys)
    case Nil
    then show ?thesis using s1 by (intro that [of "s1\<lparr>is_tail := last_or xs None\<rparr>"])
      (auto simp: unlink_prev_def insn_of_def)
  next
    case (Cons b bs)
    then obtain m where m: "is_store s1 b = Some m" using lseg_node [OF s1(3)] by auto
    have bp: "b \<notin> set xs" "b \<notin> set bs" using Cons d by auto
    have mb: "nd_insn m = nd_insn (the (is_store s b))" using s1(4) [of b] m by (simp add: insn_of_def)
    have "lseg ((is_store s1)(b \<mapsto> m\<lparr>nd_prev := last_or xs None\<rparr>)) (last_or xs None) ys None"
      using lseg_set_prev [of "is_store s1" "Some p" b bs None m] m bp(2) s1(3) Cons by simp
    then show ?thesis using s1 m mb Cons bp assms(1) x
      by (intro that [of "s1\<lparr>is_store := (is_store s1)(b \<mapsto> m\<lparr>nd_prev := last_or xs None\<rparr>)\<rparr>"])
        (auto simp: unlink_prev_def insn_of_def upd_node_def last_or_nonempty iseq_links_def)
  qed
  define s' where "s' = (if is_tail s2 = None then s2\<lparr>is_insns := None\<rparr> else s2)
      \<lparr>is_count := is_count s2 - 1, is_wordCount := is_wordCount s2 - insn_words (nd_insn n),
        is_store := (is_store s2)(p := None)\<rparr>"
  have r: "iseqRmInsn s p = Some (True, s')"
    using f n s1(1) s2(1,7,8) by (simp add: iseqRmInsn_def Let_def s'_def)
  have fields: "is_store s' = (is_store s2)(p := None)" "is_tail s' = last_or (xs @ ys) None"
    "is_count s' = is_count s - 1" "is_wordCount s' = is_wordCount s - insn_words (nd_insn n)"
    "is_constants s' = is_constants s" "is_catchTbl s' = is_catchTbl s"
    using s2 by (simp_all add: s'_def)
  have e: "is_insns s' = hd_or (xs @ ys) None"
    using s2(5,6) last_or_nonempty [of "xs @ ys" None] by (cases "xs @ ys = []") (auto simp: s'_def)
  have i: "insn_of s' q = insn_of s q" if "q \<noteq> p" for q
    using s2(4) [of q] that by (simp add: insn_of_def fields(1))
  have np: "insn_of s p = nd_insn n" using n(1) by (simp add: insn_of_def)
  have "lseg (is_store s') None (xs @ ys) None"
    using s2(2,3) x(2) d(3) by (simp add: lseg_append fields(1))
  then have "iseq_links s' (xs @ ys)"
    using assms(1) d e fields(2-4) x(1) by (auto simp: iseq_links_def)
  then show ?thesis using r i d(5) fields np by (intro exI [of _ s']) simp
qed

text \<open>The word count goes along.\<close>

lemma words_of_remove1:
  "p \<in> set ps \<Longrightarrow> words_of (map f (remove1 p ps)) = words_of (map f ps) - insn_words (f p)"
  by (induction ps) auto

lemma words_of_cong: "(\<And>p. p \<in> set ps \<Longrightarrow> f p = g p) \<Longrightarrow> words_of (map f ps) = words_of (map g ps)"
  by (metis (no_types, lifting) map_cong)

lemma iseqAddInsn_rep:
  assumes "iseq_rep s ps" "q \<notin> set ps" "is_store s q = Some n"
  shows "\<exists>s'. iseqAddInsn s q = Some s' \<and> iseq_rep s' (ps @ [q]) \<and> (\<forall>p. insn_of s' p = insn_of s p)"
proof -
  obtain s' where s': "iseqAddInsn s q = Some s'" "iseq_links s' (ps @ [q])" "\<forall>p. insn_of s' p = insn_of s p"
    "is_wordCount s' = is_wordCount s + insn_words (nd_insn n)"
    using iseqAddInsn_spec [of s ps q n] assms by (auto simp: iseq_rep_def)
  have "words_of (map (insn_of s') ps) = words_of (map (insn_of s) ps)" using s'(3) by (intro words_of_cong) simp
  moreover have "insn_of s' q = nd_insn n" using s'(3) assms(3) by (simp add: insn_of_def)
  ultimately have "iseq_rep s' (ps @ [q])" using s'(2,4) assms(1) by (simp add: iseq_rep_def)
  then show ?thesis using s' by blast
qed

lemma iseqRmInsn_rep:
  assumes "iseq_rep s ps" "p \<in> set ps"
  shows "\<exists>s'. iseqRmInsn s p = Some (True, s') \<and> iseq_rep s' (remove1 p ps) \<and> is_store s' p = None \<and>
    (\<forall>q. q \<noteq> p \<longrightarrow> insn_of s' q = insn_of s q)"
proof -
  obtain s' where s': "iseqRmInsn s p = Some (True, s')" "iseq_links s' (remove1 p ps)" "is_store s' p = None"
    "is_wordCount s' = is_wordCount s - insn_words (insn_of s p)" "\<forall>q. q \<noteq> p \<longrightarrow> insn_of s' q = insn_of s q"
    using iseqRmInsn_spec [of s ps p] assms by (auto simp: iseq_rep_def)
  have "distinct ps" using assms(1) by (simp add: iseq_rep_def iseq_links_def)
  then have "words_of (map (insn_of s') (remove1 p ps)) = words_of (map (insn_of s) (remove1 p ps))"
    using s'(5) by (intro words_of_cong) auto
  then have "iseq_rep s' (remove1 p ps)"
    using s'(2,4) assms by (simp add: iseq_rep_def words_of_remove1)
  then show ?thesis using s' by blast
qed

text \<open>The operations on the represented list, as an interface for the compiler: emitting appends,
  removing removes, and the word count is that of the list.\<close>

locale insn_list =
  fixes rep :: "'s \<Rightarrow> iptr list \<Rightarrow> bool"
    and at :: "'s \<Rightarrow> iptr \<Rightarrow> insn"
    and add :: "'s \<Rightarrow> iptr \<Rightarrow> 's option"
    and rm :: "'s \<Rightarrow> iptr \<Rightarrow> (bool \<times> 's) option"
    and alloc :: "'s \<Rightarrow> iptr \<Rightarrow> bool"
  assumes add_rep: "rep s ps \<Longrightarrow> q \<notin> set ps \<Longrightarrow> alloc s q \<Longrightarrow>
      \<exists>s'. add s q = Some s' \<and> rep s' (ps @ [q]) \<and> (\<forall>p. at s' p = at s p)"
    and rm_rep: "rep s ps \<Longrightarrow> p \<in> set ps \<Longrightarrow>
      \<exists>s'. rm s p = Some (True, s') \<and> rep s' (remove1 p ps) \<and> \<not> alloc s' p \<and> (\<forall>q. q \<noteq> p \<longrightarrow> at s' q = at s q)"
begin

lemma add_rm:
  assumes "rep s ps" "q \<notin> set ps" "alloc s q"
  shows "\<exists>s1 s2. add s q = Some s1 \<and> rm s1 q = Some (True, s2) \<and> rep s2 ps \<and> (\<forall>p. p \<noteq> q \<longrightarrow> at s2 p = at s p)"
proof -
  obtain s1 where s1: "add s q = Some s1" "rep s1 (ps @ [q])" "\<forall>p. at s1 p = at s p"
    using add_rep [OF assms] by blast
  obtain s2 where "rm s1 q = Some (True, s2)" "rep s2 (remove1 q (ps @ [q]))" "\<forall>p. p \<noteq> q \<longrightarrow> at s2 p = at s1 p"
    using rm_rep [OF s1(2), of q] by auto
  then show ?thesis using s1 assms(2) by (auto simp: remove1_append)
qed

end

interpretation il: insn_list iseq_rep insn_of iseqAddInsn iseqRmInsn "\<lambda>s p. is_store s p \<noteq> None"
proof
  show "\<exists>s'. iseqAddInsn s q = Some s' \<and> iseq_rep s' (ps @ [q]) \<and> (\<forall>p. insn_of s' p = insn_of s p)"
    if "iseq_rep s ps" "q \<notin> set ps" "is_store s q \<noteq> None" for s ps q
    using iseqAddInsn_rep [OF that(1,2)] that(3) by blast
  show "\<exists>s'. iseqRmInsn s p = Some (True, s') \<and> iseq_rep s' (remove1 p ps) \<and> \<not> is_store s' p \<noteq> None \<and>
      (\<forall>q. q \<noteq> p \<longrightarrow> insn_of s' q = insn_of s q)"
    if "iseq_rep s ps" "p \<in> set ps" for s ps p
    using iseqRmInsn_rep [OF that] by fastforce
qed

end
