(* ===== verification/Clox_Optimizer.thy ===== *)
theory Clox_Optimizer
  imports Clox_Iseq_Laws "HOL-Library.Signed_Division"
begin

unbundle bit_operations_syntax

text \<open>The peephole optimiser of the compiler (compiler.c): constant folding, the merging of pops,
  the removal of jumps and of unused constants, with the patching of jump offsets, and the copy
  of the sequence into a chunk. None is a failed assertion or a bad pointer; the loop of the
  optimiser itself is a partial function over these steps, so that its not returning would be
  told apart from its aborting.\<close>

subsection \<open>Arithmetic on numbers\<close>

text \<open>The arithmetic on doubles, their conversion to int (which C leaves undefined outside the
  range of int), that of an int to a double, and the result of a shift by a count outside 0 to
  31 belong to the machine.\<close>

record fpu =
  fp_add :: "u64 \<Rightarrow> u64 \<Rightarrow> u64"
  fp_sub :: "u64 \<Rightarrow> u64 \<Rightarrow> u64"
  fp_mul :: "u64 \<Rightarrow> u64 \<Rightarrow> u64"
  fp_div :: "u64 \<Rightarrow> u64 \<Rightarrow> u64"
  fp_to_int :: "u64 \<Rightarrow> 32 word"
  fp_of_int :: "32 word \<Rightarrow> u64"
  fp_shift :: "bool \<Rightarrow> 32 word \<Rightarrow> 32 word \<Rightarrow> 32 word"

text \<open>The comparison with 0.00 holds for both zeros.\<close>

definition is_zero :: "u64 \<Rightarrow> bool" where
  "is_zero w \<longleftrightarrow> w AND mask 63 = 0"

definition c_shl :: "fpu \<Rightarrow> 32 word \<Rightarrow> 32 word \<Rightarrow> 32 word" where
  "c_shl fp a b = (if 0 \<le> sint b \<and> sint b < 32 then push_bit (nat (sint b)) a else fp_shift fp True a b)"

definition c_shr :: "fpu \<Rightarrow> 32 word \<Rightarrow> 32 word \<Rightarrow> 32 word" where
  "c_shr fp a b =
     (if 0 \<le> sint b \<and> sint b < 32 then word_of_int (drop_bit (nat (sint b)) (sint a)) else fp_shift fp False a b)"

text \<open>The remainder truncates; a zero divisor, and the smallest int divided by -1, trap.\<close>

definition c_rem :: "32 word \<Rightarrow> 32 word \<Rightarrow> 32 word option" where
  "c_rem a b = (if b = 0 \<or> (sint a = - (2 ^ 31) \<and> sint b = - 1) then None
     else Some (word_of_int (sint a smod sint b)))"

subsection \<open>Predicates on instructions\<close>

definition isBinOp :: "insn \<Rightarrow> bool" where
  "isBinOp i \<longleftrightarrow> in_code i \<in> {OP_ADD, OP_SUBTRACT, OP_MULTIPLY, OP_DIVIDE, OP_MODULO,
     OP_BITOR, OP_BITAND, OP_BITXOR, OP_SHOVEL_L, OP_SHOVEL_R}"
definition isNumConstOp :: "insn \<Rightarrow> bool" where
  "isNumConstOp i \<longleftrightarrow> in_code i = OP_CONSTANT \<and> in_flags i AND INSN_FL_NUMBER \<noteq> 0"
definition isJump :: "insn \<Rightarrow> bool" where
  "isJump i \<longleftrightarrow> in_code i \<in> {OP_JUMP, OP_JUMP_IF_FALSE, OP_JUMP_IF_TRUE, OP_JUMP_IF_TRUE_PEEK,
     OP_JUMP_IF_FALSE_PEEK}"
definition isLoop :: "insn \<Rightarrow> bool" where "isLoop i \<longleftrightarrow> in_code i = OP_LOOP"
definition isJumpNextInsn :: "insn \<Rightarrow> bool" where "isJumpNextInsn i \<longleftrightarrow> in_operands i ! 0 = 0"
definition isConst :: "insn \<Rightarrow> bool" where
  "isConst i \<longleftrightarrow> in_code i \<in> {OP_CONSTANT, OP_FALSE, OP_TRUE, OP_NIL}"
definition constBool :: "insn \<Rightarrow> bool" where
  "constBool i \<longleftrightarrow> in_code i \<in> {OP_CONSTANT, OP_TRUE}"
definition noSideEffectsConst :: "insn \<Rightarrow> bool" where "noSideEffectsConst i \<longleftrightarrow> isConst i"
definition isJumpIfFalse :: "insn \<Rightarrow> bool" where "isJumpIfFalse i \<longleftrightarrow> in_code i = OP_JUMP_IF_FALSE"
definition isJumpIfTrue :: "insn \<Rightarrow> bool" where "isJumpIfTrue i \<longleftrightarrow> in_code i = OP_JUMP_IF_TRUE_PEEK"
definition isPop :: "insn \<Rightarrow> bool" where "isPop i \<longleftrightarrow> in_code i = OP_POP"
definition isPopType :: "insn \<Rightarrow> bool" where "isPopType i \<longleftrightarrow> in_code i = OP_POP \<or> in_code i = OP_POP_N"
definition isPopType2 :: "insn \<Rightarrow> bool" where
  "isPopType2 i \<longleftrightarrow> in_code i = OP_POP \<or> in_code i = OP_POP_N \<or> in_code i = OP_POP_DEBUG"
definition isJumpTarget :: "insn \<Rightarrow> bool" where "isJumpTarget i \<longleftrightarrow> in_isLabel i"

subsection \<open>Constants\<close>

definition iseqGetConstant :: "iseq \<Rightarrow> u32 \<Rightarrow> lxvalue option" where
  "iseqGetConstant s idx =
     (if unat idx < length (va_values (is_constants s)) then va_values (is_constants s) ! unat idx else None)"

definition changeConstant :: "iseq \<Rightarrow> u32 \<Rightarrow> lxvalue \<Rightarrow> iseq option" where
  "changeConstant s constIdx newVal =
     (if int (unat constIdx) < va_count (is_constants s)
      then Some (s\<lparr>is_constants := (is_constants s)\<lparr>va_values :=
             (va_values (is_constants s))[unat constIdx := Some newVal]\<rparr>\<rparr>)
      else None)"

text \<open>The number that an operation on two numbers has; Some None is the undefined value of a
  division by zero, None a trap of the machine or an operation that is not binary.\<close>

definition fold_numbers :: "fpu \<Rightarrow> opcode \<Rightarrow> u64 \<Rightarrow> u64 \<Rightarrow> u64 option option" where
  "fold_numbers fp code aNum bNum =
     (let ia = fp_to_int fp aNum; ib = fp_to_int fp bNum; num = (\<lambda>w. Some (Some (fp_of_int fp w)))
      in case code of
        OP_ADD \<Rightarrow> Some (Some (fp_add fp aNum bNum))
      | OP_SUBTRACT \<Rightarrow> Some (Some (fp_sub fp aNum bNum))
      | OP_MULTIPLY \<Rightarrow> Some (Some (fp_mul fp aNum bNum))
      | OP_DIVIDE \<Rightarrow> if is_zero bNum then Some None else Some (Some (fp_div fp aNum bNum))
      | OP_MODULO \<Rightarrow> if is_zero bNum then Some None
          else map_option (\<lambda>r. Some (fp_of_int fp r)) (c_rem ia ib)
      | OP_BITOR \<Rightarrow> num (ia OR ib)
      | OP_BITAND \<Rightarrow> num (ia AND ib)
      | OP_BITXOR \<Rightarrow> num (ia XOR ib)
      | OP_SHOVEL_L \<Rightarrow> num (c_shl fp ia ib)
      | OP_SHOVEL_R \<Rightarrow> num (c_shr fp ia ib)
      | _ \<Rightarrow> None)"

definition foldConstant :: "fpu \<Rightarrow> iseq \<Rightarrow> insn \<Rightarrow> insn \<Rightarrow> insn \<Rightarrow> lxvalue option" where
  "foldConstant fp s cur bin ain =
     (case (iseqGetConstant s (in_operands bin ! 0), iseqGetConstant s (in_operands ain ! 0)) of
        (Some b, Some a) \<Rightarrow>
          map_option (\<lambda>r. case r of None \<Rightarrow> UNDEF_VAL | Some w \<Rightarrow> numberToValue w)
            (fold_numbers fp (in_code cur) (valueToNumber a) (valueToNumber b))
      | _ \<Rightarrow> None)"

subsection \<open>Patching jumps\<close>

text \<open>patchJumpInsnWithOffset: the sum is unsigned, so the two assertions fail exactly when it
  is zero.\<close>

definition patchJumpInsnWithOffset :: "insn \<Rightarrow> int \<Rightarrow> insn option" where
  "patchJumpInsnWithOffset jump offset =
     (let w = in_operands jump ! 0 + word_of_int offset
      in if w = 0 then None else Some (jump\<lparr>in_operands := (in_operands jump)[0 := w]\<rparr>))"

definition insn_at :: "iseq \<Rightarrow> iptr \<Rightarrow> insn option" where
  "insn_at s p = map_option nd_insn (is_store s p)"

definition next_of :: "iseq \<Rightarrow> iptr \<Rightarrow> iptr option" where
  "next_of s p = Option.bind (is_store s p) nd_next"

definition prev_of :: "iseq \<Rightarrow> iptr \<Rightarrow> iptr option" where
  "prev_of s p = Option.bind (is_store s p) nd_prev"

definition set_insn :: "iptr \<Rightarrow> insn \<Rightarrow> iseq \<Rightarrow> iseq option" where
  "set_insn p i s = upd_node p (\<lambda>n. n\<lparr>nd_insn := i\<rparr>) s"

text \<open>The instruction a forward jump goes to: jumpTo, or what follows jumpToPrev.\<close>

definition jump_dest :: "iseq \<Rightarrow> insn \<Rightarrow> iptr option" where
  "jump_dest s i =
     (case in_jumpTo i of
        Some t \<Rightarrow> Some t
      | None \<Rightarrow> (case in_jumpToPrev i of None \<Rightarrow> None | Some p \<Rightarrow> next_of s p))"

text \<open>The loop body that rmInsnAndPatchJumps and addInsnOperand share: p, at index pIdx, is the
  instruction that shrinks or grows by delta words, q the one looked at; clear is set for
  addInsnOperand.\<close>

definition patch_one ::
    "int \<Rightarrow> bool \<Rightarrow> iptr \<Rightarrow> int \<Rightarrow> iptr \<Rightarrow> int \<Rightarrow> iseq \<Rightarrow> iseq option" where
  "patch_one delta clear p pIdx q idx s =
     (case insn_at s q of
        None \<Rightarrow> None
      | Some i \<Rightarrow>
          if idx < pIdx \<and> isJump i then
            (case jump_dest s i of
               None \<Rightarrow> None
             | Some t \<Rightarrow>
                 (case iseqInsnIndex s t of
                    None \<Rightarrow> None
                  | Some ti \<Rightarrow>
                      if ti < 0 then None
                      else if ti \<ge> pIdx then
                        (let i1 = (if ti = pIdx then i\<lparr>in_jumpTo := next_of s p\<rparr> else i);
                             i2 = (if ti = pIdx \<and> clear then i1\<lparr>in_jumpToPrev := None\<rparr> else i1)
                         in Option.bind (patchJumpInsnWithOffset i2 delta) (\<lambda>i3. set_insn q i3 s))
                      else Some s))
          else if idx > pIdx \<and> isLoop i then
            (case in_jumpTo i of
               None \<Rightarrow> None
             | Some t \<Rightarrow>
                 (case iseqInsnIndex s t of
                    None \<Rightarrow> None
                  | Some ti \<Rightarrow>
                      if ti < 0 then None
                      else if ti \<le> pIdx then
                        (let i1 = (if ti = pIdx then i\<lparr>in_jumpTo := next_of s p\<rparr> else i)
                         in Option.bind (patchJumpInsnWithOffset i1 delta) (\<lambda>i3. set_insn q i3 s))
                      else Some s))
          else Some s)"

partial_function (option) patch_loop ::
    "int \<Rightarrow> bool \<Rightarrow> iptr \<Rightarrow> int \<Rightarrow> iptr option \<Rightarrow> int \<Rightarrow> iseq \<Rightarrow> iseq option" where
  "patch_loop delta clear p pIdx cur idx s =
     (case cur of
        None \<Rightarrow> Some s
      | Some q \<Rightarrow>
          (case (if q = p then Some s else patch_one delta clear p pIdx q idx s) of
             None \<Rightarrow> None
           | Some s1 \<Rightarrow>
               (case is_store s1 q of
                  None \<Rightarrow> None
                | Some n \<Rightarrow> patch_loop delta clear p pIdx (nd_next n) (idx + 1) s1)))"

declare patch_loop.simps [code]

definition rmInsnAndPatchJumps :: "iseq \<Rightarrow> iptr \<Rightarrow> iseq option" where
  "rmInsnAndPatchJumps s p =
     (case (iseqInsnIndex s p, insn_at s p) of
        (Some pIdx, Some i) \<Rightarrow>
          if pIdx < 0 then None
          else Option.bind (patch_loop (- insn_words i) False p pIdx (is_insns s) 0 s)
                 (\<lambda>s1. map_option snd (iseqRmInsn s1 p))
      | _ \<Rightarrow> None)"

definition addInsnOperand :: "iseq \<Rightarrow> iptr \<Rightarrow> u32 \<Rightarrow> iseq option" where
  "addInsnOperand s p operand =
     (case insn_at s p of
        None \<Rightarrow> None
      | Some i \<Rightarrow>
          if in_numOperands i = MAX_INSN_OPERANDS then None
          else (case set_insn p (i\<lparr>in_operands := (in_operands i)[in_numOperands i := operand],
                       in_numOperands := in_numOperands i + 1\<rparr>) s of
             None \<Rightarrow> None
           | Some s1 \<Rightarrow>
               (let s2 = s1\<lparr>is_wordCount := is_wordCount s1 + 1\<rparr>
                in case iseqInsnIndex s2 p of
                     None \<Rightarrow> None
                   | Some pIdx \<Rightarrow>
                       if pIdx < 0 then None else patch_loop 1 True p pIdx (is_insns s2) 0 s2)))"

text \<open>replaceJumpInsn: the flag says that the instruction is gone.\<close>

definition replaceJumpInsn :: "iseq \<Rightarrow> iptr \<Rightarrow> (bool \<times> iseq) option" where
  "replaceJumpInsn s p =
     (case insn_at s p of
        None \<Rightarrow> None
      | Some i \<Rightarrow>
          if in_code i \<in> {OP_JUMP, OP_JUMP_IF_FALSE_PEEK, OP_JUMP_IF_TRUE_PEEK} then
            (if \<not> in_isLabel i then map_option (Pair True) (rmInsnAndPatchJumps s p) else Some (False, s))
          else if in_code i = OP_JUMP_IF_FALSE then
            (if \<not> in_isLabel i
             then map_option (Pair False) (set_insn p (i\<lparr>in_code := OP_POP, in_numOperands := 0\<rparr>) s)
             else Some (False, s))
          else None)"

subsection \<open>The optimiser\<close>

text \<open>Constant folding at cur, with the instructions pv and pvp before it.\<close>

definition fold_at ::
    "fpu \<Rightarrow> iseq \<Rightarrow> iptr \<Rightarrow> insn \<Rightarrow> iptr \<Rightarrow> iptr \<Rightarrow> insn \<Rightarrow> insn \<Rightarrow> (iseq \<times> iptr option) option" where
  "fold_at fp s cur ci pv pvp pi ppi =
     (case foldConstant fp s ci pi ppi of
        None \<Rightarrow> None
      | Some newVal \<Rightarrow>
          if IS_UNDEF newVal then Some (s, next_of s cur)
          else map_option (\<lambda>s3. (s3, Some pvp))
            (Option.bind (Option.bind (changeConstant s (in_operands ppi ! 0) newVal)
                (\<lambda>s1. rmInsnAndPatchJumps s1 cur))
              (\<lambda>s2. rmInsnAndPatchJumps s2 pv)))"

text \<open>Merging the pop at pv into that at cur.\<close>

definition merge_pops :: "iseq \<Rightarrow> iptr \<Rightarrow> insn \<Rightarrow> iptr \<Rightarrow> insn \<Rightarrow> iseq option" where
  "merge_pops s cur ci pv pi =
     (let n = (if in_code pi = OP_POP then 1 else in_operands pi ! 0)
      in case rmInsnAndPatchJumps s pv of
           None \<Rightarrow> None
         | Some s1 \<Rightarrow>
             if in_code ci = OP_POP
             then (case addInsnOperand s1 cur (n + 1) of
                     None \<Rightarrow> None
                   | Some s2 \<Rightarrow>
                       Option.bind (insn_at s2 cur) (\<lambda>i. set_insn cur (i\<lparr>in_code := OP_POP_N\<rparr>) s2))
             else Option.bind (insn_at s1 cur)
               (\<lambda>i. set_insn cur (i\<lparr>in_operands := (in_operands i)[0 := in_operands i ! 0 + n]\<rparr>) s1))"

text \<open>The rest of the loop body, for the sequence after the merging; pi is the instruction before
  cur as it was at the beginning. When pops have been merged, pi has been freed, but then cur is
  a pop of several values and pi is not looked at.\<close>

definition after_merge ::
    "bool \<Rightarrow> iseq \<Rightarrow> iptr \<Rightarrow> (iptr \<times> insn) option \<Rightarrow> (iseq \<times> iptr option) option" where
  "after_merge noRemove s cur prior =
     (case insn_at s cur of
        None \<Rightarrow> None
      | Some ci \<Rightarrow>
          if isJump ci \<and> isJumpNextInsn ci
          then map_option (\<lambda>(_, s1). (s1, next_of s cur)) (replaceJumpInsn s cur)
          else if isJump ci \<and> (case prior of Some (_, pi) \<Rightarrow> isConst pi | None \<Rightarrow> False)
          then (case prior of
                  None \<Rightarrow> None
                | Some (_, pi) \<Rightarrow>
                    if (isJumpIfFalse ci \<and> constBool pi) \<or> (isJumpIfTrue ci \<and> \<not> constBool pi)
                    then map_option (\<lambda>(deleted, s1). (s1, if deleted then is_insns s1 else next_of s1 cur))
                           (replaceJumpInsn s cur)
                    else Some (s, next_of s cur))
          else (case prior of
                  Some (pv, pi) \<Rightarrow>
                    if \<not> noRemove \<and> isPop ci \<and> noSideEffectsConst pi \<and>
                       (case Option.bind (next_of s cur) (insn_at s) of
                          None \<Rightarrow> True | Some ni \<Rightarrow> in_code ni \<noteq> OP_BLOCK_CONTINUE)
                    then map_option (\<lambda>s2. (s2, is_insns s2))
                      (Option.bind (rmInsnAndPatchJumps s pv) (\<lambda>s1. rmInsnAndPatchJumps s1 cur))
                    else Some (s, next_of s cur)
                | None \<Rightarrow> Some (s, next_of s cur)))"

text \<open>One iteration of the loop of optimizeIseq.\<close>

definition opt_step :: "fpu \<Rightarrow> bool \<Rightarrow> iseq \<Rightarrow> iptr \<Rightarrow> (iseq \<times> iptr option) option" where
  "opt_step fp noRemove s cur =
     (case insn_at s cur of
        None \<Rightarrow> None
      | Some ci \<Rightarrow>
          (case prev_of s cur of
             None \<Rightarrow> after_merge noRemove s cur None
           | Some pv \<Rightarrow>
               (case insn_at s pv of
                  None \<Rightarrow> None
                | Some pi \<Rightarrow>
                    let rest = (if isPopType pi \<and> isPopType ci \<and> \<not> isJumpTarget pi \<and> \<not> isJumpTarget ci
                                then Option.bind (merge_pops s cur ci pv pi)
                                       (\<lambda>s1. after_merge noRemove s1 cur (Some (pv, pi)))
                                else after_merge noRemove s cur (Some (pv, pi)))
                    in case prev_of s pv of
                         None \<Rightarrow> rest
                       | Some pvp \<Rightarrow>
                           (case insn_at s pvp of
                              None \<Rightarrow> None
                            | Some ppi \<Rightarrow>
                                if isBinOp ci \<and> isNumConstOp pi \<and> isNumConstOp ppi
                                then fold_at fp s cur ci pv pvp pi ppi
                                else rest))))"

text \<open>The loop over the instructions, for the step at hand.\<close>

partial_function (option) opt_loop ::
    "(iseq \<Rightarrow> iptr \<Rightarrow> (iseq \<times> iptr option) option) \<Rightarrow> iseq \<Rightarrow> iptr option \<Rightarrow> iseq option option" where
  "opt_loop step s cur =
     (case cur of
        None \<Rightarrow> Some (Some s)
      | Some c \<Rightarrow>
          (case step s c of
             None \<Rightarrow> Some None
           | Some r \<Rightarrow> opt_loop step (fst r) (snd r)))"

declare opt_loop.simps [code]

definition optimizeIseq :: "fpu \<Rightarrow> bool \<Rightarrow> iseq \<Rightarrow> iseq option option" where
  "optimizeIseq fp noRemove s = opt_loop (opt_step fp noRemove) s (is_insns s)"

subsection \<open>The chunk\<close>

definition write_insn :: "insn \<Rightarrow> chunk \<Rightarrow> chunk" where
  "write_insn i ck =
     (let put = (\<lambda>w c. writeChunkWord c w (in_lineno i) (in_depth i) (in_width i))
      in fold put (take (in_numOperands i) (in_operands i)) (put (op_word (in_code i)) ck))"

partial_function (option) copy_insns :: "(iptr \<Rightarrow> node option) \<Rightarrow> iptr option \<Rightarrow> nat \<Rightarrow> chunk \<Rightarrow> (nat \<times> chunk) option" where
  "copy_insns st cur idx ck =
     (case cur of
        None \<Rightarrow> Some (idx, ck)
      | Some c \<Rightarrow>
          (case st c of
             None \<Rightarrow> None
           | Some n \<Rightarrow> copy_insns st (nd_next n) (idx + 1) (write_insn (nd_insn n) ck)))"

declare copy_insns.simps [code]

text \<open>copyIseqToChunk after the optimiser has run, and with it.\<close>

definition copy_iseq :: "iseq \<Rightarrow> chunk \<Rightarrow> chunk option" where
  "copy_iseq s ck =
     (case copy_insns (is_store s) (is_insns s) 0
             (ck\<lparr>ck_catchTbl := is_catchTbl s, ck_constants := is_constants s\<rparr>) of
        None \<Rightarrow> None
      | Some (idx, ck1) \<Rightarrow> if int idx = is_count s then Some ck1 else None)"

definition copyIseqToChunk :: "fpu \<Rightarrow> bool \<Rightarrow> bool \<Rightarrow> iseq \<Rightarrow> chunk \<Rightarrow> chunk option option" where
  "copyIseqToChunk fp noOptimize noRemove s ck =
     (if noOptimize then Some (copy_iseq s ck)
      else map_option (\<lambda>r. Option.bind r (\<lambda>s1. copy_iseq s1 ck)) (optimizeIseq fp noRemove s))"

end
