(* ===== verification/Clox_Optimizer_Laws.thy ===== *)
theory Clox_Optimizer_Laws
  imports Clox_Optimizer
begin

text \<open>What the steps of the optimiser do to a well-linked sequence: patching keeps the links,
  removing removes one instruction, and every iteration of the loop either makes the sequence
  shorter or moves on.\<close>

subsection \<open>Neighbours\<close>

lemma links_split:
  assumes "iseq_links s (xs @ p # ys)"
  shows "prev_of s p = last_or xs None" "next_of s p = hd_or ys None" "insn_at s p = Some (insn_of s p)"
    "p \<notin> set xs" "p \<notin> set ys"
  using assms by (auto simp: iseq_links_def lseg_append prev_of_def next_of_def insn_at_def insn_of_def)

lemma links_insn_at: "iseq_links s ps \<Longrightarrow> p \<in> set ps \<Longrightarrow> insn_at s p = Some (insn_of s p)"
  using iseq_links_node by (fastforce simp: insn_at_def)

lemma last_or_in: "last_or xs None = Some p \<Longrightarrow> \<exists>zs. xs = zs @ [p]"
  by (cases xs rule: rev_cases) auto

lemma hd_or_in: "hd_or ys None = Some p \<Longrightarrow> \<exists>zs. ys = p # zs"
  by (cases ys) auto

lemma links_prev:
  assumes "iseq_links s ps" "p \<in> set ps" "prev_of s p = Some q"
  shows "\<exists>xs ys. ps = xs @ q # p # ys"
proof -
  obtain xs ys where x: "ps = xs @ p # ys" using assms(2) by (auto dest: split_list)
  then have "last_or xs None = Some q" using links_split [of s xs p ys] assms by simp
  then obtain zs where "xs = zs @ [q]" by (auto dest: last_or_in)
  then show ?thesis using x by (intro exI [of _ zs] exI [of _ ys]) simp
qed

lemma links_next:
  assumes "iseq_links s ps" "p \<in> set ps" "next_of s p = Some q"
  shows "\<exists>xs ys. ps = xs @ p # q # ys"
proof -
  obtain xs ys where x: "ps = xs @ p # ys" using assms(2) by (auto dest: split_list)
  then have "hd_or ys None = Some q" using links_split [of s xs p ys] assms by simp
  then obtain zs where "ys = q # zs" by (auto dest: hd_or_in)
  then show ?thesis using x by (intro exI [of _ xs] exI [of _ zs]) simp
qed

subsection \<open>Patching\<close>

text \<open>The parts of an instruction that patching leaves alone.\<close>

definition same_insn :: "insn \<Rightarrow> insn \<Rightarrow> bool" where
  "same_insn i j \<longleftrightarrow> in_code i = in_code j \<and> in_numOperands i = in_numOperands j \<and>
     in_flags i = in_flags j \<and> in_isLabel i = in_isLabel j \<and> length (in_operands i) = length (in_operands j) \<and>
     tl (in_operands i) = tl (in_operands j)"

definition patched :: "iptr list \<Rightarrow> iseq \<Rightarrow> iseq \<Rightarrow> bool" where
  "patched ps s s' \<longleftrightarrow> iseq_links s' ps \<and> (\<forall>q. same_insn (insn_of s' q) (insn_of s q)) \<and>
     (\<forall>q. next_of s' q = next_of s q \<and> prev_of s' q = prev_of s q) \<and> is_insns s' = is_insns s \<and>
     is_wordCount s' = is_wordCount s \<and> is_constants s' = is_constants s \<and> is_catchTbl s' = is_catchTbl s"

lemma same_insn_refl [simp]: "same_insn i i"
  by (simp add: same_insn_def)

lemma same_insn_trans: "same_insn i j \<Longrightarrow> same_insn j k \<Longrightarrow> same_insn i k"
  by (auto simp: same_insn_def)

lemma same_insn_words: "same_insn i j \<Longrightarrow> insn_words i = insn_words j"
  by (simp add: same_insn_def insn_words_def)

lemma patched_refl: "iseq_links s ps \<Longrightarrow> patched ps s s"
  by (simp add: patched_def)

lemma patched_trans: "patched ps s s1 \<Longrightarrow> patched ps s1 s2 \<Longrightarrow> patched ps s s2"
  unfolding patched_def using same_insn_trans by fastforce

lemma lseg_set_insn:
  "st p = Some n \<Longrightarrow> lseg (st(p \<mapsto> n\<lparr>nd_insn := i\<rparr>)) pv xs nx = lseg st pv xs nx"
  by (induction xs arbitrary: pv) auto

lemma set_insn_spec:
  assumes "iseq_links s ps" "set_insn p i s = Some s'"
  shows "iseq_links s' ps" "insn_of s' q = (if q = p then i else insn_of s q)"
    "next_of s' q = next_of s q" "prev_of s' q = prev_of s q" "is_insns s' = is_insns s"
    "is_wordCount s' = is_wordCount s" "is_constants s' = is_constants s" "is_catchTbl s' = is_catchTbl s"
    "is_count s' = is_count s" "is_store s' q = None \<longleftrightarrow> is_store s q = None"
proof -
  obtain n where n: "is_store s p = Some n" "s' = s\<lparr>is_store := (is_store s)(p \<mapsto> n\<lparr>nd_insn := i\<rparr>)\<rparr>"
    using assms(2) by (auto simp: set_insn_def upd_node_def split: option.splits)
  then show "iseq_links s' ps" "insn_of s' q = (if q = p then i else insn_of s q)"
    "next_of s' q = next_of s q" "prev_of s' q = prev_of s q" "is_insns s' = is_insns s"
    "is_wordCount s' = is_wordCount s" "is_constants s' = is_constants s" "is_catchTbl s' = is_catchTbl s"
    "is_count s' = is_count s" "is_store s' q = None \<longleftrightarrow> is_store s q = None"
    using assms(1) by (auto simp: iseq_links_def lseg_set_insn insn_of_def next_of_def prev_of_def)
qed

lemma set_insn_patched:
  assumes "iseq_links s ps" "set_insn p i s = Some s'" "same_insn i (insn_of s p)"
  shows "patched ps s s'"
  using set_insn_spec [OF assms(1,2)] assms(3) by (auto simp: patched_def)

lemma patch_offset_same:
  "patchJumpInsnWithOffset i d = Some j \<Longrightarrow> same_insn j i"
  by (cases "in_operands i") (auto simp: patchJumpInsnWithOffset_def same_insn_def Let_def split: if_splits)

lemma same_insn_jumpTo [simp]:
  "same_insn (i\<lparr>in_jumpTo := t\<rparr>) j = same_insn i j" "same_insn (i\<lparr>in_jumpToPrev := t\<rparr>) j = same_insn i j"
  "same_insn j (i\<lparr>in_jumpTo := t\<rparr>) = same_insn j i" "same_insn j (i\<lparr>in_jumpToPrev := t\<rparr>) = same_insn j i"
  by (auto simp: same_insn_def)

lemma patch_one_patched:
  assumes "iseq_links s ps" "patch_one d clear p pIdx q idx s = Some s'"
  shows "patched ps s s'"
proof -
  obtain n where n: "is_store s q = Some n" "insn_at s q = Some (insn_of s q)"
    using assms(2) by (auto simp: patch_one_def insn_at_def insn_of_def split: option.splits)
  have "patched ps s s'" if "s' = s" using that patched_refl [OF assms(1)] by simp
  moreover have "patched ps s s'" if "patchJumpInsnWithOffset i d = Some j" "set_insn q j s = Some s'"
    "same_insn i (insn_of s q)" for i j
    using set_insn_patched [OF assms(1) that(2)] patch_offset_same [OF that(1)] that(3) same_insn_trans by blast
  ultimately show ?thesis
    using assms(2) n by (auto simp: patch_one_def Let_def split: option.splits if_splits bind_splits)
qed

lemma patch_loop_patched:
  assumes "iseq_links s (xs @ ys)" "patch_loop d clear p pIdx (hd_or ys None) idx s = Some s'"
  shows "patched (xs @ ys) s s'"
  using assms
proof (induction ys arbitrary: xs idx s)
  case Nil
  then have "s' = s" by (subst (asm) patch_loop.simps) simp
  then show ?case using patched_refl [OF Nil(1)] by simp
next
  case (Cons q ys)
  obtain s1 where s1: "(if q = p then Some s else patch_one d clear p pIdx q idx s) = Some s1"
    "patch_loop d clear p pIdx (next_of s1 q) (idx + 1) s1 = Some s'"
    using Cons.prems(2) by (subst (asm) patch_loop.simps) (auto simp: next_of_def split: option.splits)
  have p1: "patched (xs @ q # ys) s s1"
    using s1(1) patch_one_patched [OF Cons.prems(1)] patched_refl [OF Cons.prems(1)]
    by (auto split: if_splits)
  then have l: "iseq_links s1 ((xs @ [q]) @ ys)" by (simp add: patched_def)
  then have "next_of s1 q = hd_or ys None" using links_split(2) [of s1 xs q ys] by simp
  then have "patched ((xs @ [q]) @ ys) s1 s'" using Cons.IH [OF l] s1(2) by simp
  then show ?case using patched_trans [OF p1] by simp
qed

subsection \<open>Removing and growing an instruction\<close>

lemma rm_patch_spec:
  assumes "iseq_links s ps" "rmInsnAndPatchJumps s p = Some s'"
  shows "p \<in> set ps" "iseq_links s' (remove1 p ps)"
    "\<exists>s1. patch_loop (- insn_words (insn_of s p)) False p (int (position p ps)) (is_insns s) 0 s = Some s1 \<and>
       patched ps s s1 \<and> (\<forall>q. q \<noteq> p \<longrightarrow> insn_of s' q = insn_of s1 q) \<and>
       is_constants s' = is_constants s \<and> is_catchTbl s' = is_catchTbl s \<and>
       is_wordCount s' = is_wordCount s - insn_words (insn_of s p)"
proof -
  have idx: "\<And>q. iseqInsnIndex s q = Some (if q \<in> set ps then int (position q ps) else - 1)"
    using assms(1) by (intro iseqInsnIndex_spec)
  show p: "p \<in> set ps" using assms(2) idx by (auto simp: rmInsnAndPatchJumps_def split: option.splits if_splits)
  then have i: "insn_at s p = Some (insn_of s p)" by (rule links_insn_at [OF assms(1)])
  obtain s1 b where s1: "patch_loop (- insn_words (insn_of s p)) False p (int (position p ps)) (is_insns s) 0 s = Some s1"
    "iseqRmInsn s1 p = Some (b, s')"
    using assms(2) idx p i by (auto simp: rmInsnAndPatchJumps_def split: option.splits if_splits bind_splits)
  have "patch_loop (- insn_words (insn_of s p)) False p (int (position p ps)) (hd_or ps None) 0 s = Some s1"
    using s1(1) assms(1) by (simp add: iseq_links_def)
  then have pt: "patched ps s s1" using patch_loop_patched [of s "[]" ps] assms(1) by simp
  then have l1: "iseq_links s1 ps" by (simp add: patched_def)
  from iseqRmInsn_spec [OF this p] s1(2) have
    r: "iseq_links s' (remove1 p ps)" "\<forall>q. q \<noteq> p \<longrightarrow> insn_of s' q = insn_of s1 q"
    "is_constants s' = is_constants s1" "is_catchTbl s' = is_catchTbl s1"
    "is_wordCount s' = is_wordCount s1 - insn_words (insn_of s1 p)" by auto
  show "iseq_links s' (remove1 p ps)" by (rule r(1))
  have "insn_words (insn_of s1 p) = insn_words (insn_of s p)" using pt same_insn_words by (simp add: patched_def)
  then show "\<exists>s1. patch_loop (- insn_words (insn_of s p)) False p (int (position p ps)) (is_insns s) 0 s = Some s1 \<and>
       patched ps s s1 \<and> (\<forall>q. q \<noteq> p \<longrightarrow> insn_of s' q = insn_of s1 q) \<and>
       is_constants s' = is_constants s \<and> is_catchTbl s' = is_catchTbl s \<and>
       is_wordCount s' = is_wordCount s - insn_words (insn_of s p)"
    using s1(1) pt r by (auto simp: patched_def)
qed

lemma iseq_links_wordCount [simp]: "iseq_links (s\<lparr>is_wordCount := w\<rparr>) ps = iseq_links s ps"
  by (simp add: iseq_links_def)

lemma iseq_links_constants [simp]: "iseq_links (s\<lparr>is_constants := w\<rparr>) ps = iseq_links s ps"
  by (simp add: iseq_links_def)

lemma add_operand_links:
  assumes "iseq_links s ps" "addInsnOperand s p w = Some s'"
  shows "iseq_links s' ps"
proof -
  obtain s1 i k where s1: "set_insn p i s = Some s1"
    "patch_loop 1 True p k (is_insns (s1\<lparr>is_wordCount := is_wordCount s1 + 1\<rparr>)) 0 (s1\<lparr>is_wordCount := is_wordCount s1 + 1\<rparr>) = Some s'"
    using assms(2) by (auto simp: addInsnOperand_def Let_def split: option.splits if_splits)
  let ?s2 = "s1\<lparr>is_wordCount := is_wordCount s1 + 1\<rparr>"
  have l: "iseq_links ?s2 ([] @ ps)" using set_insn_spec(1) [OF assms(1) s1(1)] by simp
  moreover have "is_insns ?s2 = hd_or ps None" using l by (simp add: iseq_links_def)
  ultimately have "patched ([] @ ps) ?s2 s'" using patch_loop_patched [OF l] s1(2) by simp
  then show ?thesis by (simp add: patched_def)
qed

subsection \<open>Progress of the loop\<close>

text \<open>A loop whose steps decrease a bound ends, and what holds at its last step holds of its
  result. The bound is a ghost: the loop does not compute it.\<close>

locale measured_loop =
  fixes step :: "iseq \<Rightarrow> iptr \<Rightarrow> (iseq \<times> iptr option) option"
    and bound :: "iseq \<Rightarrow> iptr \<Rightarrow> nat \<Rightarrow> bool"
    and fin :: "iseq \<Rightarrow> bool"
  assumes step_bound: "bound s c k \<Longrightarrow> step s c = Some (s', Some c') \<Longrightarrow> \<exists>k'<k. bound s' c' k'"
    and step_fin: "bound s c k \<Longrightarrow> step s c = Some (s', None) \<Longrightarrow> fin s'"
begin

lemma ends:
  assumes "bound s c k"
  shows "\<exists>r. opt_loop step s (Some c) = Some r \<and> (\<forall>s'. r = Some s' \<longrightarrow> fin s')"
  using assms
proof (induction k arbitrary: s c rule: less_induct)
  case (less k)
  show ?case
  proof (cases "step s c")
    case None
    then show ?thesis by (subst opt_loop.simps) simp
  next
    case (Some x)
    then obtain s1 cur where x: "step s c = Some (s1, cur)" by (cases x) auto
    show ?thesis
    proof (cases cur)
      case None
      have "opt_loop step s (Some c) = Some (Some s1)"
        using x None by (subst opt_loop.simps, simp, subst opt_loop.simps) simp
      then show ?thesis using step_fin [OF less.prems] x None by simp
    next
      case (Some c1)
      obtain k' where "k' < k" "bound s1 c1 k'" using step_bound [OF less.prems] x Some by blast
      then have "\<exists>r. opt_loop step s1 (Some c1) = Some r \<and> (\<forall>s'. r = Some s' \<longrightarrow> fin s')"
        by (rule less.IH)
      then show ?thesis using x Some by (subst opt_loop.simps) simp
    qed
  qed
qed

end

text \<open>What an iteration at cur may lead to: a shorter sequence, or the same one at the next
  instruction.\<close>

definition moves_on :: "iptr list \<Rightarrow> iptr \<Rightarrow> iseq \<times> iptr option \<Rightarrow> bool" where
  "moves_on ps cur r \<longleftrightarrow>
     (\<exists>ps'. iseq_links (fst r) ps' \<and> (\<forall>c. snd r = Some c \<longrightarrow> c \<in> set ps') \<and>
        (length ps' < length ps \<or>
         ps' = ps \<and> (\<forall>c. snd r = Some c \<longrightarrow> (\<exists>xs ys. ps = xs @ cur # c # ys))))"

lemma moves_on_shorter:
  "iseq_links s' ps' \<Longrightarrow> length ps' < length ps \<Longrightarrow> (\<And>c. cur' = Some c \<Longrightarrow> c \<in> set ps') \<Longrightarrow>
     moves_on ps cur (s', cur')"
  by (auto simp: moves_on_def)

lemma moves_onI:
  assumes "iseq_links s' ps" "cur \<in> set ps" "\<forall>c. next_of s cur = Some c \<longrightarrow> next_of s' cur = Some c"
  shows "moves_on ps cur (s', next_of s cur)"
proof -
  have "\<exists>xs ys. ps = xs @ cur # c # ys" if "next_of s cur = Some c" for c
    using links_next [OF assms(1,2)] assms(3) that by blast
  then show ?thesis using assms(1) unfolding moves_on_def by fastforce
qed

lemma next_in: "iseq_links s ps \<Longrightarrow> p \<in> set ps \<Longrightarrow> next_of s p = Some c \<Longrightarrow> c \<in> set ps \<and> c \<noteq> p"
  using links_next [of s ps p c] by (auto simp: iseq_links_def)

lemma prev_in: "iseq_links s ps \<Longrightarrow> p \<in> set ps \<Longrightarrow> prev_of s p = Some c \<Longrightarrow> c \<in> set ps \<and> c \<noteq> p"
  using links_prev [of s ps p c] by (auto simp: iseq_links_def)

lemma links_hd: "iseq_links s ps \<Longrightarrow> is_insns s = Some c \<Longrightarrow> c \<in> set ps"
  by (cases ps) (auto simp: iseq_links_def)

lemma length_remove1_less: "p \<in> set ps \<Longrightarrow> length (remove1 p ps) < length ps"
  using length_pos_if_in_set [of p ps] by (simp add: length_remove1)

lemma replace_jump_links:
  assumes "iseq_links s ps" "replaceJumpInsn s p = Some (b, s')"
  shows "if b then p \<in> set ps \<and> iseq_links s' (remove1 p ps)
         else iseq_links s' ps \<and> (\<forall>q. next_of s' q = next_of s q)"
proof -
  have "\<not> b \<and> s' = s \<or> \<not> b \<and> (\<exists>i. set_insn p i s = Some s') \<or> b \<and> rmInsnAndPatchJumps s p = Some s'"
    using assms(2) unfolding replaceJumpInsn_def
    by (simp split: option.splits if_splits) blast+
  then consider "\<not> b" "s' = s" | i where "\<not> b" "set_insn p i s = Some s'"
    | "b" "rmInsnAndPatchJumps s p = Some s'" by blast
  then show ?thesis
  proof cases
    case 1
    then show ?thesis using assms(1) by simp
  next
    case 2
    then show ?thesis using set_insn_spec(1,3) [OF assms(1) 2(2)] by simp
  next
    case 3
    then show ?thesis using rm_patch_spec(1,2) [OF assms(1) 3(2)] by simp
  qed
qed

lemma after_merge_cases:
  assumes "after_merge noRemove s cur prior = Some r" "insn_at s cur = Some ci"
  obtains "r = (s, next_of s cur)"
  | d s1 where "replaceJumpInsn s cur = Some (d, s1)" "r = (s1, next_of s cur)"
  | d s1 where "replaceJumpInsn s cur = Some (d, s1)" "r = (s1, if d then is_insns s1 else next_of s1 cur)"
  | pv s1 s2 where "rmInsnAndPatchJumps s pv = Some s1" "rmInsnAndPatchJumps s1 cur = Some s2"
      "r = (s2, is_insns s2)"
proof (cases "isJump ci \<and> isJumpNextInsn ci")
  case True
  then have "map_option (\<lambda>(_, s1). (s1, next_of s cur)) (replaceJumpInsn s cur) = Some r"
    using assms by (simp add: after_merge_def)
  then show ?thesis using that(2) by (auto simp: map_option_case split: option.splits)
next
  case no1: False
  show ?thesis
  proof (cases prior)
    case None
    then show ?thesis using assms no1 that(1) by (simp add: after_merge_def)
  next
    case (Some x)
    obtain pv pi where b: "x = (pv, pi)" by (cases x)
    show ?thesis
    proof (cases "isJump ci \<and> isConst pi")
      case True
      show ?thesis
      proof (cases "(isJumpIfFalse ci \<and> constBool pi) \<or> (isJumpIfTrue ci \<and> \<not> constBool pi)")
        case t2: True
        have "map_option (\<lambda>(deleted, s1). (s1, if deleted then is_insns s1 else next_of s1 cur))
             (replaceJumpInsn s cur) = Some r"
          using assms no1 Some b True t2 by (simp add: after_merge_def)
        then obtain d s1 where "replaceJumpInsn s cur = Some (d, s1)" "r = (s1, if d then is_insns s1 else next_of s1 cur)"
          by (auto simp only: map_option_case split: option.splits prod.splits)
        then show ?thesis by (rule that(3))
      next
        case False
        have "(if (isJumpIfFalse ci \<and> constBool pi) \<or> (isJumpIfTrue ci \<and> \<not> constBool pi)
            then map_option (\<lambda>(deleted, s1). (s1, if deleted then is_insns s1 else next_of s1 cur))
              (replaceJumpInsn s cur) else Some (s, next_of s cur)) = Some r"
          using assms no1 Some b True by (simp add: after_merge_def)
        then have "Some (s, next_of s cur) = Some r" unfolding if_not_P [OF False] .
        then show ?thesis using that(1) by simp
      qed
    next
      case no2: False
      let ?c = "\<not> noRemove \<and> isPop ci \<and> noSideEffectsConst pi \<and>
        (case Option.bind (next_of s cur) (insn_at s) of None \<Rightarrow> True | Some ni \<Rightarrow> in_code ni \<noteq> OP_BLOCK_CONTINUE)"
      have e: "after_merge noRemove s cur prior =
        (if ?c then map_option (\<lambda>s2. (s2, is_insns s2))
           (Option.bind (rmInsnAndPatchJumps s pv) (\<lambda>s1. rmInsnAndPatchJumps s1 cur))
         else Some (s, next_of s cur))"
        by (simp only: after_merge_def assms(2) Some b option.case prod.case if_not_P [OF no1] if_not_P [OF no2])
      show ?thesis
      proof (cases ?c)
        case True
        then have "map_option (\<lambda>s2. (s2, is_insns s2))
           (Option.bind (rmInsnAndPatchJumps s pv) (\<lambda>s1. rmInsnAndPatchJumps s1 cur)) = Some r"
          using e assms(1) by simp
        then obtain s1 s2 where "rmInsnAndPatchJumps s pv = Some s1" "rmInsnAndPatchJumps s1 cur = Some s2"
          "r = (s2, is_insns s2)" by (auto simp only: map_option_case bind_eq_Some_conv split: option.splits)
        then show ?thesis by (rule that(4))
      next
        case False
        have "Some (s, next_of s cur) = Some r" using assms(1) unfolding e if_not_P [OF False] .
        then show ?thesis using that(1) by simp
      qed
    qed
  qed
qed

lemma after_merge_moves:
  assumes l: "iseq_links s ps" and c: "cur \<in> set ps"
    and r: "after_merge noRemove s cur prior = Some r"
  shows "moves_on ps cur r"
  using r links_insn_at [OF l c]
proof (cases rule: after_merge_cases)
  case 1
  then show ?thesis using moves_onI [OF l c] by simp
next
  case (2 d s1)
  show ?thesis
  proof (cases d)
    case True
    then have l1: "iseq_links s1 (remove1 cur ps)" using replace_jump_links [OF l 2(1)] by simp
    have "c' \<in> set (remove1 cur ps)" if "next_of s cur = Some c'" for c'
      using next_in [OF l c that] by (simp add: in_set_remove1)
    then show ?thesis unfolding 2(2) using moves_on_shorter [OF l1 length_remove1_less [OF c]] by blast
  next
    case False
    then have "iseq_links s1 ps" "next_of s1 cur = next_of s cur" using replace_jump_links [OF l 2(1)] by auto
    then show ?thesis unfolding 2(2) using moves_onI [of s1 ps cur s] c by simp
  qed
next
  case (3 d s1)
  show ?thesis
  proof (cases d)
    case True
    then have l1: "iseq_links s1 (remove1 cur ps)" using replace_jump_links [OF l 3(1)] by simp
    show ?thesis unfolding 3(2) using moves_on_shorter [OF l1 length_remove1_less [OF c]] links_hd [OF l1] True
      by simp
  next
    case False
    then have "iseq_links s1 ps" using replace_jump_links [OF l 3(1)] by auto
    then show ?thesis unfolding 3(2) using moves_onI [of s1 ps cur s1] c False by simp
  qed
next
  case (4 pv s1 s2)
  have "iseq_links s1 (remove1 pv ps)" and pv: "pv \<in> set ps" using rm_patch_spec [OF l 4(1)] by auto
  then have l2: "iseq_links s2 (remove1 cur (remove1 pv ps))" "cur \<in> set (remove1 pv ps)"
    using rm_patch_spec [OF _ 4(2)] by blast+
  have "length (remove1 cur (remove1 pv ps)) < length ps"
    using length_remove1_less [OF l2(2)] length_remove1_less [OF pv] by simp
  then show ?thesis unfolding 4(3) using moves_on_shorter [OF l2(1)] links_hd [OF l2(1)] by blast
qed

lemma merge_pops_links:
  assumes "iseq_links s ps" "merge_pops s cur ci pv pi = Some s'"
  shows "pv \<in> set ps" "iseq_links s' (remove1 pv ps)"
proof -
  obtain s1 where s1: "rmInsnAndPatchJumps s pv = Some s1"
    using assms(2) by (auto simp: merge_pops_def Let_def split: option.splits)
  then show "pv \<in> set ps" using rm_patch_spec(1) [OF assms(1)] by blast
  have l1: "iseq_links s1 (remove1 pv ps)" using rm_patch_spec(2) [OF assms(1) s1] .
  have "\<exists>s2 i. iseq_links s2 (remove1 pv ps) \<and> set_insn cur i s2 = Some s'"
  proof (cases "in_code ci = OP_POP")
    case True
    then obtain n s2 i where "addInsnOperand s1 cur n = Some s2" "set_insn cur i s2 = Some s'"
      using assms(2) s1 by (auto simp: merge_pops_def Let_def bind_eq_Some_conv split: option.splits)
    then show ?thesis using add_operand_links [OF l1] by blast
  next
    case False
    then obtain i where "set_insn cur i s1 = Some s'"
      using assms(2) s1 by (auto simp: merge_pops_def Let_def bind_eq_Some_conv split: option.splits)
    then show ?thesis using l1 by blast
  qed
  then show "iseq_links s' (remove1 pv ps)" using set_insn_spec(1) by blast
qed

lemma fold_at_moves:
  assumes l: "iseq_links s ps" and c: "cur \<in> set ps" and p: "prev_of s cur = Some pv" "prev_of s pv = Some pvp"
    and r: "fold_at fp s cur ci pv pvp pi ppi = Some r"
  shows "moves_on ps cur r"
proof -
  consider "r = (s, next_of s cur)" | s1 s2 s3 w v where "changeConstant s w v = Some s1"
      "rmInsnAndPatchJumps s1 cur = Some s2" "rmInsnAndPatchJumps s2 pv = Some s3" "r = (s3, Some pvp)"
    using r by (auto simp: fold_at_def bind_eq_Some_conv split: option.splits if_splits)
  then show ?thesis
  proof cases
    case 1
    then show ?thesis using moves_onI [OF l c] by simp
  next
    case (2 s1 s2 s3 w v)
    have "iseq_links s1 ps" using l 2(1) by (auto simp: changeConstant_def split: if_splits)
    then have l2: "iseq_links s2 (remove1 cur ps)" using rm_patch_spec(2) [OF _ 2(2)] by blast
    then have l3: "iseq_links s3 (remove1 pv (remove1 cur ps))" "pv \<in> set (remove1 cur ps)"
      using rm_patch_spec [OF _ 2(3)] by blast+
    have pv: "pv \<in> set ps" "pv \<noteq> cur" using prev_in [OF l c p(1)] by auto
    obtain xs ys where x: "ps = xs @ pvp # pv # ys" using links_prev [OF l pv(1) p(2)] by blast
    have d: "distinct ps" using l by (simp add: iseq_links_def)
    obtain as bs where "ps = as @ pv # cur # bs" using links_prev [OF l c p(1)] by blast
    then have "pvp \<noteq> cur"
      using links_split(1) [of s as pv "cur # bs"] l p(2) d last_or_in [of as pvp] by auto
    then have "pvp \<in> set (remove1 pv (remove1 cur ps))" using x d by (auto simp: in_set_remove1)
    moreover have "length (remove1 pv (remove1 cur ps)) < length ps"
      using length_remove1_less [OF l3(2)] length_remove1_less [OF c] by simp
    ultimately show ?thesis unfolding 2(4) using moves_on_shorter [OF l3(1)] by blast
  qed
qed

lemma opt_step_moves:
  assumes l: "iseq_links s ps" and c: "cur \<in> set ps" and r: "opt_step fp noRemove s cur = Some r"
  shows "moves_on ps cur r"
proof -
  note i = links_insn_at [OF l c]
  consider "after_merge noRemove s cur None = Some r"
    | pv pi where "after_merge noRemove s cur (Some (pv, pi)) = Some r"
    | pv pi s1 ci where "merge_pops s cur ci pv pi = Some s1" "after_merge noRemove s1 cur (Some (pv, pi)) = Some r"
        "prev_of s cur = Some pv"
    | pv pi pvp ppi ci where "prev_of s cur = Some pv" "prev_of s pv = Some pvp"
        "fold_at fp s cur ci pv pvp pi ppi = Some r"
    using r i by (auto simp: opt_step_def Let_def bind_eq_Some_conv split: option.splits if_splits)
  then show ?thesis
  proof cases
    case (3 pv pi s1 ci)
    have l1: "pv \<in> set ps" "iseq_links s1 (remove1 pv ps)" using merge_pops_links [OF l 3(1)] by auto
    have "cur \<in> set (remove1 pv ps)" using prev_in [OF l c 3(3)] c by (simp add: in_set_remove1)
    then have "moves_on (remove1 pv ps) cur r" using after_merge_moves [OF l1(2) _ 3(2)] by blast
    then obtain ps' where ps': "iseq_links (fst r) ps'" "\<forall>c. snd r = Some c \<longrightarrow> c \<in> set ps'"
      "length ps' \<le> length (remove1 pv ps)" by (auto simp: moves_on_def)
    have "length ps' < length ps" using ps'(3) length_remove1_less [OF l1(1)] by simp
    then show ?thesis using moves_on_shorter [OF ps'(1), of ps "snd r" cur] ps'(2) by simp
  qed (use after_merge_moves [OF l c] fold_at_moves [OF l c] in blast)+
qed

text \<open>The bound of the loop: the square of the length, and the instructions from cur on.\<close>

definition opt_bound :: "iseq \<Rightarrow> iptr \<Rightarrow> nat \<Rightarrow> bool" where
  "opt_bound s c k \<longleftrightarrow>
     (\<exists>xs ys. iseq_links s (xs @ c # ys) \<and> k = (length xs + length ys + 1) ^ 2 + length ys)"

interpretation ol: measured_loop "opt_step fp noRemove" opt_bound "\<lambda>s. \<exists>ps. iseq_links s ps" for fp noRemove
proof
  fix s c k s' c'
  assume "opt_bound s c k" and r: "opt_step fp noRemove s c = Some (s', Some c')"
  then obtain xs ys where x: "iseq_links s (xs @ c # ys)" "k = (length xs + length ys + 1) ^ 2 + length ys"
    by (auto simp: opt_bound_def)
  let ?n = "length xs + length ys + 1"
  have "moves_on (xs @ c # ys) c (s', Some c')" using opt_step_moves [OF x(1) _ r] by simp
  then obtain ps' where ps': "iseq_links s' ps'" "c' \<in> set ps'"
    "length ps' < ?n \<or> (\<exists>us vs. ps' = us @ c # c' # vs \<and> ps' = xs @ c # ys)"
    by (auto simp: moves_on_def)
  from ps'(3) show "\<exists>k'<k. opt_bound s' c' k'"
  proof
    assume less: "length ps' < ?n"
    obtain us vs where u: "ps' = us @ c' # vs" using ps'(2) by (auto dest: split_list)
    let ?m = "length us + length vs + 1"
    have "?m < ?n" "length vs < ?m" using less u by simp_all
    then have "?m ^ 2 + length vs < ?m ^ 2 + ?m" by simp
    also have "\<dots> = ?m * (?m + 1)" by (simp add: power2_eq_square)
    also have "\<dots> \<le> ?n * ?n" using \<open>?m < ?n\<close> by (intro mult_le_mono) simp_all
    also have "\<dots> = ?n ^ 2" by (simp add: power2_eq_square)
    finally have "?m ^ 2 + length vs < k" using x(2) by simp
    moreover have "opt_bound s' c' (?m ^ 2 + length vs)" using ps'(1) u by (auto simp: opt_bound_def)
    ultimately show ?thesis by blast
  next
    assume "\<exists>us vs. ps' = us @ c # c' # vs \<and> ps' = xs @ c # ys"
    then obtain us vs where u: "ps' = us @ c # c' # vs" "ps' = xs @ c # ys" by blast
    have "distinct ps'" using ps'(1) by (simp add: iseq_links_def)
    then have "c \<notin> set xs" "c \<notin> set ys" unfolding u(2) by simp_all
    moreover have "xs @ c # ys = us @ c # c' # vs" using u by simp
    ultimately have "us = xs" "ys = c' # vs" using append_Cons_eq_iff [of c xs ys us "c' # vs"] by auto
    then have "iseq_links s' ((xs @ [c]) @ c' # vs)" "?n = length (xs @ [c]) + length vs + 1"
      using ps'(1) u by simp_all
    then have "opt_bound s' c' (?n ^ 2 + length vs)" unfolding opt_bound_def by metis
    moreover have "?n ^ 2 + length vs < k" using \<open>ys = c' # vs\<close> x(2) by simp
    ultimately show ?thesis by blast
  qed
next
  fix s c k s'
  assume "opt_bound s c k" "opt_step fp noRemove s c = Some (s', None)"
  then show "\<exists>ps. iseq_links s' ps" using opt_step_moves by (fastforce simp: opt_bound_def moves_on_def)
qed

lemma optimize_ends:
  assumes "iseq_links s ps"
  shows "\<exists>r. optimizeIseq fp noRemove s = Some r \<and> (\<forall>s'. r = Some s' \<longrightarrow> (\<exists>ps'. iseq_links s' ps'))"
proof (cases ps)
  case Nil
  then have "optimizeIseq fp noRemove s = Some (Some s)"
    using assms unfolding optimizeIseq_def by (subst opt_loop.simps) (simp add: iseq_links_def)
  then show ?thesis using assms by blast
next
  case (Cons c ys)
  then have "is_insns s = Some c" using assms by (simp add: iseq_links_def)
  moreover have "opt_bound s c ((length ys + 1) ^ 2 + length ys)"
    using assms Cons unfolding opt_bound_def by (intro exI [of _ "[]"] exI [of _ ys]) simp
  ultimately show ?thesis using ol.ends by (simp add: optimizeIseq_def)
qed

subsection \<open>Copying into a chunk\<close>

definition insn_entries :: "insn \<Rightarrow> chunk_entry list" where
  "insn_entries i = map (\<lambda>w. (w, in_lineno i, in_depth i, in_width i))
     (op_word (in_code i) # take (in_numOperands i) (in_operands i))"

lemma chunk_holds_fields [simp]:
  "chunk_holds (c\<lparr>ck_catchTbl := x\<rparr>) es = chunk_holds c es"
  "chunk_holds (c\<lparr>ck_constants := y\<rparr>) es = chunk_holds c es"
  by (simp_all add: chunk_holds_def)

lemma put_entry_tables [simp]:
  "ck_catchTbl (put_entry c e) = ck_catchTbl c" "ck_constants (put_entry c e) = ck_constants c"
  by (cases e; simp add: put_entry_def writeChunkWord_def ck_reserve_def Let_def)+

lemma fold_put_entry:
  assumes "chunk_holds c es"
  shows "chunk_holds (fold (\<lambda>e c. put_entry c e) fs c) (es @ fs)"
    "ck_catchTbl (fold (\<lambda>e c. put_entry c e) fs c) = ck_catchTbl c"
    "ck_constants (fold (\<lambda>e c. put_entry c e) fs c) = ck_constants c"
proof -
  show "ck_catchTbl (fold (\<lambda>e c. put_entry c e) fs c) = ck_catchTbl c"
    "ck_constants (fold (\<lambda>e c. put_entry c e) fs c) = ck_constants c"
    by (induction fs arbitrary: c) simp_all
  have "chunk_ok c" "chunk_list c = es" using assms by (simp_all add: chunk_ok_holds chunk_holds_list)
  then show "chunk_holds (fold (\<lambda>e c. put_entry c e) fs c) (es @ fs)"
    using ck.fold_push [of c fs] by (metis chunk_ok_def)
qed

lemma write_insn_entries: "write_insn i c = fold (\<lambda>e c. put_entry c e) (insn_entries i) c"
proof -
  let ?e = "\<lambda>w. (w, in_lineno i, in_depth i, in_width i)"
  have "fold (\<lambda>e c. put_entry c e) (map ?e ws) c =
     fold (\<lambda>w c. writeChunkWord c w (in_lineno i) (in_depth i) (in_width i)) ws c" for ws c
    by (induction ws arbitrary: c) (simp_all add: put_entry_def)
  then show ?thesis by (simp add: write_insn_def insn_entries_def put_entry_def)
qed

lemma copy_insns_spec:
  assumes "iseq_links s (us @ vs)" "chunk_holds c es"
  shows "\<exists>c'. copy_insns (is_store s) (hd_or vs None) k c = Some (k + length vs, c') \<and>
    chunk_holds c' (es @ concat (map (insn_entries \<circ> insn_of s) vs)) \<and>
    ck_catchTbl c' = ck_catchTbl c \<and> ck_constants c' = ck_constants c"
  using assms
proof (induction vs arbitrary: us es k c)
  case Nil
  then show ?case by (subst copy_insns.simps) simp
next
  case (Cons p vs)
  let ?c = "write_insn (insn_of s p) c"
  have n: "next_of s p = hd_or vs None" "insn_at s p = Some (insn_of s p)" using links_split [OF Cons.prems(1)] by auto
  obtain n where nd: "is_store s p = Some n" "nd_insn n = insn_of s p" "nd_next n = hd_or vs None"
    using n by (auto simp: insn_at_def next_of_def bind_eq_Some_conv split: option.splits)
  have h: "chunk_holds ?c (es @ insn_entries (insn_of s p))" "ck_catchTbl ?c = ck_catchTbl c"
    "ck_constants ?c = ck_constants c"
    using fold_put_entry [OF Cons.prems(2)] by (simp_all add: write_insn_entries)
  have "iseq_links s ((us @ [p]) @ vs)" using Cons.prems(1) by simp
  from Cons.IH [OF this h(1), of "k + 1"] show ?case
    using nd h(2,3) by (subst copy_insns.simps) (auto simp: comp_def)
qed

lemma copy_iseq_spec:
  assumes "iseq_links s ps" "chunk_holds c es"
  shows "\<exists>c'. copy_iseq s c = Some c' \<and> chunk_holds c' (es @ concat (map (insn_entries \<circ> insn_of s) ps)) \<and>
    ck_catchTbl c' = is_catchTbl s \<and> ck_constants c' = is_constants s"
  using copy_insns_spec [of s "[]" ps "c\<lparr>ck_catchTbl := is_catchTbl s, ck_constants := is_constants s\<rparr>" es 0] assms
  by (auto simp: copy_iseq_def iseq_links_def)

end
