(* ===== verification/Clox_Optimizer_Props.thy ===== *)
theory Clox_Optimizer_Props
  imports Clox_Optimizer_Laws
begin

unbundle bit_operations_syntax

text \<open>Properties of the instruction sequences and the optimiser: the linked list, the chunk, the
  offsets of jumps when an instruction is removed, and where the optimiser goes wrong.\<close>

subsection \<open>Concrete sequences\<close>

text \<open>An instruction as the compiler emits it, and the sequence of a list of instructions, at the
  pointers 1, 2, and so on; the links of the jumps are part of the instructions.\<close>

definition ins :: "opcode \<Rightarrow> u32 list \<Rightarrow> insn" where
  "ins c ops = \<lparr>in_code = c, in_operands = take 3 (ops @ [0, 0, 0]), in_numOperands = length ops,
     in_lineno = 1, in_flags = 0, in_jumpTo = None, in_jumpToPrev = None, in_depth = 0, in_width = 0,
     in_extra = 0, in_isLabel = False\<rparr>"

definition to_prev :: "iptr \<Rightarrow> insn \<Rightarrow> insn" where "to_prev p i = i\<lparr>in_jumpToPrev := Some p\<rparr>"
definition labelled :: "insn \<Rightarrow> insn" where "labelled i = i\<lparr>in_isLabel := True\<rparr>"
definition num :: "u32 \<Rightarrow> insn" where "num c = (ins OP_CONSTANT [c])\<lparr>in_flags := INSN_FL_NUMBER\<rparr>"

fun emit_all :: "iptr \<Rightarrow> insn list \<Rightarrow> iseq \<Rightarrow> iseq" where
  "emit_all k [] s = s"
| "emit_all k (i # is) s =
     emit_all (k + 1) is (the (iseqAddInsn
       (s\<lparr>is_store := (is_store s)(k \<mapsto> \<lparr>nd_insn = i, nd_next = None, nd_prev = None\<rparr>)\<rparr>) k))"

definition number_array :: value_array where
  "number_array = writeValueArrayEnd (writeValueArrayEnd initValueArray (numberToValue 0)) (numberToValue 0)"

definition sequence :: "insn list \<Rightarrow> iseq" where
  "sequence is = emit_all 1 is (initIseq\<lparr>is_constants := number_array\<rparr>)"

definition toy_fpu :: fpu where
  "toy_fpu = \<lparr>fp_add = (\<lambda>a b. a), fp_sub = (\<lambda>a b. a), fp_mul = (\<lambda>a b. a), fp_div = (\<lambda>a b. a),
     fp_to_int = (\<lambda>_. 0), fp_of_int = (\<lambda>_. 0), fp_shift = (\<lambda>_ a b. a)\<rparr>"

lemma emit_all_rep:
  assumes "iseq_rep s ps" "\<forall>q\<in>set ps. q < k"
  shows "iseq_rep (emit_all k is s) (ps @ [k..<k + length is])"
  using assms
proof (induction "is" arbitrary: k s ps)
  case (Cons i "is")
  let ?s = "s\<lparr>is_store := (is_store s)(k \<mapsto> \<lparr>nd_insn = i, nd_next = None, nd_prev = None\<rparr>)\<rparr>"
  have k: "k \<notin> set ps" using Cons.prems(2) by auto
  have "words_of (map (insn_of ?s) ps) = words_of (map (insn_of s) ps)"
    using k by (intro words_of_cong) (auto simp: insn_of_def)
  then have "iseq_rep ?s ps" using Cons.prems(1) k by (simp add: iseq_rep_def iseq_links_def)
  then obtain s' where s': "iseqAddInsn ?s k = Some s'" "iseq_rep s' (ps @ [k])"
    using il.add_rep [of ?s ps k] k by auto
  have "iseq_rep (emit_all (k + 1) is s') ((ps @ [k]) @ [k + 1..<k + 1 + length is])"
    using Cons.IH [OF s'(2), of "k + 1"] Cons.prems(2) by (simp add: less_Suc_eq)
  moreover have "[k..<k + length (i # is)] = k # [k + 1..<k + 1 + length is]"
    by (simp add: upt_conv_Cons del: upt_Suc)
  ultimately show ?case using s'(1) by (simp del: upt_Suc)
qed simp

lemma sequence_rep: "iseq_rep (sequence is) [1..<1 + length is]"
proof -
  have "iseq_rep (initIseq\<lparr>is_constants := number_array\<rparr>) []"
    by (simp add: iseq_rep_def iseq_links_def initIseq_def)
  from emit_all_rep [OF this, of 1 "is"] show ?thesis by (simp add: sequence_def)
qed

lemma sequence_links: "iseq_links (sequence is) [1..<1 + length is]"
  using sequence_rep by (simp add: iseq_rep_def)

definition if_sequence :: iseq where
  "if_sequence = sequence [ins OP_GET_GLOBAL [0], to_prev 4 (ins OP_JUMP_IF_FALSE [4]), num 0, ins OP_PRINT [],
     ins OP_LEAVE []]"

lemma if_sequence_rep: "iseq_rep if_sequence [1, 2, 3, 4, 5]"
  using sequence_rep [of "[ins OP_GET_GLOBAL [0], to_prev 4 (ins OP_JUMP_IF_FALSE [4]), num 0, ins OP_PRINT [],
     ins OP_LEAVE []]"] by (simp add: if_sequence_def upt_rec eval_nat_numeral)

lemma if_sequence_insns:
  "insn_of if_sequence 1 = ins OP_GET_GLOBAL [0]" "insn_of if_sequence 2 = to_prev 4 (ins OP_JUMP_IF_FALSE [4])"
  "insn_of if_sequence 3 = num 0" "insn_of if_sequence 4 = ins OP_PRINT []" "insn_of if_sequence 5 = ins OP_LEAVE []"
  "next_of if_sequence 4 = Some 5" "insn_of if_sequence (Suc 0) = ins OP_GET_GLOBAL [0]"
  by code_simp+

text \<open>The words of the chunk that the optimised sequence is copied to.\<close>

definition optimized :: "insn list \<Rightarrow> u32 list option option" where
  "optimized is = map_option (map_option (\<lambda>c. map the (take (nat (ck_count c)) (ck_code c))))
     (copyIseqToChunk toy_fpu False False (sequence is) initChunk)"

subsection \<open>Sequences and chunks\<close>

text \<open>C7: the doubly linked list refines a list of instructions. On a well-linked sequence with a
  right count of words, iseqAddInsn appends a new instruction and iseqRmInsn removes any one,
  without changing another; both keep the links and counts right; and iseqInsnIndex is the
  position in the list, or -1.\<close>

theorem iseq_refines_list:
  assumes "iseq_rep s ps" "q \<notin> set ps" "is_store s q \<noteq> None" "p \<in> set ps"
  shows "\<exists>s1 s2. iseqAddInsn s q = Some s1 \<and> iseq_rep s1 (ps @ [q]) \<and> (\<forall>r. insn_of s1 r = insn_of s r) \<and>
    iseqRmInsn s p = Some (True, s2) \<and> iseq_rep s2 (remove1 p ps) \<and> is_store s2 p = None \<and>
    (\<forall>r. r \<noteq> p \<longrightarrow> insn_of s2 r = insn_of s r) \<and>
    iseqInsnIndex s p = Some (int (position p ps)) \<and> iseqInsnIndex s q = Some (- 1)"
proof -
  have l: "iseq_links s ps" using assms(1) by (simp add: iseq_rep_def)
  obtain n where "is_store s q = Some n" using assms(3) by auto
  from iseqAddInsn_rep [OF assms(1,2) this] iseqRmInsn_rep [OF assms(1,4)]
    iseqInsnIndex_spec [OF l, of p] iseqInsnIndex_spec [OF l, of q] assms(2,4)
  show ?thesis by auto
qed

theorem iseq_refines_list_witness:
  "\<exists>s2. iseqRmInsn (if_sequence\<lparr>is_store := (is_store if_sequence)(9 \<mapsto> \<lparr>nd_insn = num 1, nd_next = None, nd_prev = None\<rparr>)\<rparr>) 2
      = Some (True, s2) \<and> iseq_rep s2 [1, 3, 4, 5]"
proof -
  let ?s = "if_sequence\<lparr>is_store := (is_store if_sequence)(9 \<mapsto> \<lparr>nd_insn = num 1, nd_next = None, nd_prev = None\<rparr>)\<rparr>"
  have "iseq_rep ?s [1, 2, 3, 4, 5]" using if_sequence_rep by (simp add: iseq_rep_def iseq_links_def insn_of_def)
  from iseq_refines_list [OF this, of 9 2] show ?thesis by auto
qed

text \<open>C27: copying a sequence to an empty chunk. The words of the chunk are those of the
  instructions in order, each an opcode followed by its operands, with the lines and node levels
  of the instruction; their number is the word count of the sequence; and the chunk shares the
  constants and the catch table of the sequence.\<close>

theorem chunk_is_flattened_iseq:
  assumes "iseq_rep s ps" "\<forall>p\<in>set ps. in_numOperands (insn_of s p) \<le> length (in_operands (insn_of s p))"
  shows "\<exists>c. copy_iseq s initChunk = Some c \<and> chunk_ok c \<and>
    chunk_list c = concat (map (insn_entries \<circ> insn_of s) ps) \<and> ck_count c = is_wordCount s \<and>
    ck_constants c = is_constants s \<and> ck_catchTbl c = is_catchTbl s"
proof -
  obtain c where c: "copy_iseq s initChunk = Some c" "chunk_holds c (concat (map (insn_entries \<circ> insn_of s) ps))"
    "ck_catchTbl c = is_catchTbl s" "ck_constants c = is_constants s"
    using copy_iseq_spec [OF _ chunk_holds_init, of s ps] assms(1) by (auto simp: iseq_rep_def)
  have "int (length (concat (map (insn_entries \<circ> insn_of s) ps))) = words_of (map (insn_of s) ps)"
    using assms(2) by (induction ps) (auto simp: insn_entries_def insn_words_def)
  then have "ck_count c = is_wordCount s" using c(2) assms(1) by (simp add: chunk_holds_def iseq_rep_def)
  then show ?thesis using c chunk_ok_holds chunk_holds_list by blast
qed

theorem chunk_is_flattened_iseq_witness:
  "\<exists>c. copy_iseq if_sequence initChunk = Some c \<and> ck_count c = is_wordCount if_sequence \<and>
     map fst (chunk_list c) = [op_word OP_GET_GLOBAL, 0, op_word OP_JUMP_IF_FALSE, 4, op_word OP_CONSTANT, 0,
       op_word OP_PRINT, op_word OP_LEAVE]"
  using chunk_is_flattened_iseq [OF if_sequence_rep]
  by (auto simp: if_sequence_insns insn_entries_def ins_def num_def to_prev_def)



subsection \<open>Which jumps are patched\<close>

text \<open>Around the removed instruction p, between xs and ys: the forward jumps of xs to ys, and the
  loops of ys back to xs.\<close>

definition crosses :: "iptr list \<Rightarrow> iptr list \<Rightarrow> iseq \<Rightarrow> iptr \<Rightarrow> bool" where
  "crosses xs ys s q \<longleftrightarrow>
     (q \<in> set xs \<and> isJump (insn_of s q) \<and> (\<exists>t\<in>set ys. jump_dest s (insn_of s q) = Some t)) \<or>
     (q \<in> set ys \<and> isLoop (insn_of s q) \<and> (\<exists>t\<in>set xs. in_jumpTo (insn_of s q) = Some t))"

text \<open>Every jump before p and every loop behind it has a target in the sequence other than p.\<close>

definition dests_ok :: "iptr list \<Rightarrow> iptr list \<Rightarrow> iseq \<Rightarrow> bool" where
  "dests_ok xs ys s \<longleftrightarrow>
     (\<forall>q\<in>set xs. isJump (insn_of s q) \<longrightarrow> (\<exists>t\<in>set xs \<union> set ys. jump_dest s (insn_of s q) = Some t)) \<and>
     (\<forall>q\<in>set ys. isLoop (insn_of s q) \<longrightarrow> (\<exists>t\<in>set xs \<union> set ys. in_jumpTo (insn_of s q) = Some t))"

definition shift :: "int \<Rightarrow> insn \<Rightarrow> insn" where
  "shift d i = i\<lparr>in_operands := (in_operands i)[0 := in_operands i ! 0 + word_of_int d]\<rparr>"

lemma patch_offset_shift:
  "in_operands i ! 0 + word_of_int d \<noteq> 0 \<Longrightarrow> patchJumpInsnWithOffset i d = Some (shift d i)"
  by (simp add: patchJumpInsnWithOffset_def shift_def Let_def)

lemma position_append:
  "position t (xs @ ys) = (if t \<in> set xs then position t xs else length xs + position t ys)"
  by (induction xs) auto

lemma position_less: "t \<in> set xs \<Longrightarrow> position t xs < length xs"
  by (induction xs) auto

lemma set_insn_total:
  "iseq_links s ps \<Longrightarrow> q \<in> set ps \<Longrightarrow> \<exists>s'. set_insn q i s = Some s'"
  using iseq_links_node [of s ps q] by (auto simp: set_insn_def upd_node_def)

text \<open>Loop and jump are different instructions.\<close>

lemma loop_not_jump: "isLoop i \<Longrightarrow> \<not> isJump i"
  by (simp add: isLoop_def isJump_def)

lemma jump_dest_cong: "(\<And>q. next_of s' q = next_of s q) \<Longrightarrow> jump_dest s' i = jump_dest s i"
  by (simp add: jump_dest_def split: option.split)

lemma patch_one_exact:
  assumes l: "iseq_links s ps" and ps: "ps = xs @ p # ys" and q: "q \<in> set xs \<union> set ys"
    and ok: "dests_ok xs ys s"
    and nz: "crosses xs ys s q \<Longrightarrow> in_operands (insn_of s q) ! 0 + word_of_int d \<noteq> 0"
  shows "\<exists>s'. patch_one d False p (int (length xs)) q (int (position q ps)) s = Some s' \<and> iseq_links s' ps \<and>
    (\<forall>r. next_of s' r = next_of s r) \<and>
    (\<forall>r. insn_of s' r = (if r = q \<and> crosses xs ys s q then shift d (insn_of s q) else insn_of s r))"
proof -
  let ?i = "insn_of s q"
  have dist: "distinct ps" using l by (simp add: iseq_links_def)
  have qps: "q \<in> set ps" using q ps by auto
  have idx: "\<And>t. t \<in> set ps \<Longrightarrow> iseqInsnIndex s t = Some (int (position t ps))"
    using iseqInsnIndex_spec [OF l] by simp
  have at: "insn_at s q = Some ?i" by (rule links_insn_at [OF l qps])
  have side: "position t ps < length xs" if "t \<in> set xs" for t
    using that by (simp add: ps position_append position_less)
  have side': "length xs < position t ps" if "t \<in> set ys" for t
    using that dist by (auto simp: ps position_append)
  have set: "\<exists>s'. set_insn q j s = Some s' \<and> iseq_links s' ps \<and> (\<forall>r. next_of s' r = next_of s r) \<and>
     (\<forall>r. insn_of s' r = (if r = q then j else insn_of s r))" for j
    using set_insn_total [OF l qps] set_insn_spec [OF l] by metis
  have same: "\<exists>s'. Some s = Some s' \<and> iseq_links s' ps \<and> (\<forall>r. next_of s' r = next_of s r) \<and>
     (\<forall>r. insn_of s' r = (if r = q \<and> crosses xs ys s q then shift d (insn_of s q) else insn_of s r))"
    if "\<not> crosses xs ys s q" using that l by simp
  show ?thesis
  proof (cases "q \<in> set xs")
    case True
    then have lt: "int (position q ps) < int (length xs)" "q \<notin> set ys" using side dist ps by auto
    show ?thesis
    proof (cases "isJump ?i")
      case j: True
      then obtain t where t: "jump_dest s ?i = Some t" "t \<in> set xs \<union> set ys"
        using ok True by (auto simp: dests_ok_def)
      then have ti: "iseqInsnIndex s t = Some (int (position t ps))" using idx ps by auto
      show ?thesis
      proof (cases "t \<in> set ys")
        case ty: True
        then have cr: "crosses xs ys s q" using True j t by (auto simp: crosses_def)
        then have "patch_one d False p (int (length xs)) q (int (position q ps)) s = set_insn q (shift d ?i) s"
          using at lt j t ti side' [OF ty] nz patch_offset_shift by (simp add: patch_one_def Let_def)
        then show ?thesis using set [of "shift d ?i"] cr by simp
      next
        case False
        then have "position t ps < length xs" using t(2) side by auto
        moreover have "\<not> crosses xs ys s q" using False t(1) lt(2) by (auto simp: crosses_def)
        ultimately show ?thesis using at lt j t ti same by (simp add: patch_one_def Let_def)
      qed
    next
      case False
      then have "\<not> crosses xs ys s q" using lt(2) by (auto simp: crosses_def)
      then show ?thesis using at lt False same by (simp add: patch_one_def)
    qed
  next
    case False
    then have qy: "q \<in> set ys" using q by auto
    then have lt: "int (length xs) < int (position q ps)" using side' by simp
    show ?thesis
    proof (cases "isLoop ?i")
      case j: True
      then obtain t where t: "in_jumpTo ?i = Some t" "t \<in> set xs \<union> set ys"
        using ok qy by (auto simp: dests_ok_def)
      then have ti: "iseqInsnIndex s t = Some (int (position t ps))" using idx ps by auto
      show ?thesis
      proof (cases "t \<in> set xs")
        case tx: True
        then have cr: "crosses xs ys s q" using qy j t by (auto simp: crosses_def)
        then have "patch_one d False p (int (length xs)) q (int (position q ps)) s = set_insn q (shift d ?i) s"
          using at lt j t ti side [OF tx] nz patch_offset_shift by (simp add: patch_one_def Let_def)
        then show ?thesis using set [of "shift d ?i"] cr by simp
      next
        case tx: False
        then have "length xs < position t ps" using t(2) side' by auto
        moreover have "\<not> crosses xs ys s q" using tx t(1) False by (auto simp: crosses_def)
        ultimately show ?thesis using at lt j t ti same by (simp add: patch_one_def Let_def)
      qed
    next
      case j: False
      then have "\<not> crosses xs ys s q" using False by (auto simp: crosses_def)
      then show ?thesis using at lt j same by (simp add: patch_one_def)
    qed
  qed
qed

lemma shift_fields [simp]:
  "in_code (shift d i) = in_code i" "in_jumpTo (shift d i) = in_jumpTo i"
  "in_jumpToPrev (shift d i) = in_jumpToPrev i" "in_numOperands (shift d i) = in_numOperands i"
  "isJump (shift d i) = isJump i" "isLoop (shift d i) = isLoop i" "insn_words (shift d i) = insn_words i"
  "in_operands (shift d i) = [] \<longleftrightarrow> in_operands i = []"
  by (simp_all add: shift_def isJump_def isLoop_def insn_words_def)

lemma jump_dest_shift [simp]: "jump_dest s (shift d i) = jump_dest s i"
  by (simp add: jump_dest_def split: option.split)

lemma patch_loop_exact:
  assumes "iseq_links s (us @ vs)" "us @ vs = xs @ p # ys" "dests_ok xs ys s"
    "\<And>q. q \<in> set vs \<Longrightarrow> q \<noteq> p \<Longrightarrow> crosses xs ys s q \<Longrightarrow> in_operands (insn_of s q) ! 0 + word_of_int d \<noteq> 0"
  shows "\<exists>s'. patch_loop d False p (int (length xs)) (hd_or vs None) (int (length us)) s = Some s' \<and>
    (\<forall>r. next_of s' r = next_of s r) \<and>
    (\<forall>r. insn_of s' r = (if r \<in> set vs \<and> r \<noteq> p \<and> crosses xs ys s r then shift d (insn_of s r) else insn_of s r))"
  using assms
proof (induction vs arbitrary: us s)
  case Nil
  then show ?case by (subst patch_loop.simps) simp
next
  case (Cons q vs)
  have qd: "q \<notin> set us" "q \<notin> set vs" using Cons.prems(1) by (auto simp: iseq_links_def)
  have pos: "position q (us @ q # vs) = length us" using qd(1) by (simp add: position_append)
  obtain s1 where s1: "(if q = p then Some s else patch_one d False p (int (length xs)) q (int (length us)) s) = Some s1"
    "iseq_links s1 (us @ q # vs)" "\<forall>r. next_of s1 r = next_of s r"
    "\<forall>r. insn_of s1 r = (if r = q \<and> r \<noteq> p \<and> crosses xs ys s q then shift d (insn_of s q) else insn_of s r)"
  proof (cases "q = p")
    case True
    then show ?thesis using that [of s] Cons.prems(1) by simp
  next
    case False
    have "q \<in> set (us @ q # vs)" by simp
    then have "q \<in> set xs \<union> set ys" using False unfolding Cons.prems(2) by auto
    from patch_one_exact [OF Cons.prems(1,2) this Cons.prems(3), of d] Cons.prems(4) [of q] False pos
    show ?thesis using that by fastforce
  qed
  have jd: "jump_dest s1 i = jump_dest s i" for i using jump_dest_cong [of s1 s] s1(3) by simp
  have cr: "crosses xs ys s1 r = crosses xs ys s r" for r
    using s1(4) by (simp add: crosses_def jd)
  have dk: "dests_ok xs ys s1" using Cons.prems(3) s1(4) by (simp add: dests_ok_def jd)
  have l1: "iseq_links s1 ((us @ [q]) @ vs)" "(us @ [q]) @ vs = xs @ p # ys" using s1(2) Cons.prems(2) by simp_all
  have nz: "in_operands (insn_of s1 r) ! 0 + word_of_int d \<noteq> 0"
    if "r \<in> set vs" "r \<noteq> p" "crosses xs ys s1 r" for r
    using Cons.prems(4) [of r] that s1(4) qd(2) cr by auto
  obtain s' where s': "patch_loop d False p (int (length xs)) (hd_or vs None) (int (length (us @ [q]))) s1 = Some s'"
    "\<forall>r. next_of s' r = next_of s1 r"
    "\<forall>r. insn_of s' r = (if r \<in> set vs \<and> r \<noteq> p \<and> crosses xs ys s1 r then shift d (insn_of s1 r) else insn_of s1 r)"
    using Cons.IH [OF l1 dk nz] by blast
  have "next_of s1 q = hd_or vs None" "insn_at s1 q \<noteq> None" using links_split [OF s1(2)] by simp_all
  then have st: "patch_loop d False p (int (length xs)) (hd_or (q # vs) None) (int (length us)) s = Some s'"
    using s1(1) s'(1) by (subst patch_loop.simps) (auto simp: next_of_def insn_at_def add.commute split: option.splits)
  have "insn_of s' r = (if r \<in> set (q # vs) \<and> r \<noteq> p \<and> crosses xs ys s r then shift d (insn_of s r) else insn_of s r)" for r
    using s'(3) s1(4) qd(2) cr by auto
  then show ?case using st s'(2) s1(3) by auto
qed

lemma rm_exact:
  assumes "iseq_links s (xs @ p # ys)" "dests_ok xs ys s"
    "\<And>q. q \<in> set xs \<union> set ys \<Longrightarrow> crosses xs ys s q \<Longrightarrow>
       in_operands (insn_of s q) ! 0 + word_of_int (- insn_words (insn_of s p)) \<noteq> 0"
  shows "\<exists>s'. rmInsnAndPatchJumps s p = Some s' \<and> iseq_links s' (xs @ ys) \<and>
    (\<forall>q\<in>set xs \<union> set ys. insn_of s' q =
      (if crosses xs ys s q then shift (- insn_words (insn_of s p)) (insn_of s q) else insn_of s q))"
proof -
  let ?ps = "xs @ p # ys"
  note sp = links_split [OF assms(1)]
  have pos: "position p ?ps = length xs" using sp(4) by (simp add: position_append)
  obtain s1 where s1: "patch_loop (- insn_words (insn_of s p)) False p (int (length xs)) (hd_or ?ps None) 0 s = Some s1"
    "\<forall>r. insn_of s1 r = (if r \<in> set ?ps \<and> r \<noteq> p \<and> crosses xs ys s r
       then shift (- insn_words (insn_of s p)) (insn_of s r) else insn_of s r)"
    using patch_loop_exact [of s "[]" ?ps xs p ys "- insn_words (insn_of s p)"] assms by fastforce
  have "patched ?ps s s1" using patch_loop_patched [of s "[]" ?ps] assms(1) s1(1) by simp
  then have l1: "iseq_links s1 ?ps" by (simp add: patched_def)
  obtain s' where s': "iseqRmInsn s1 p = Some (True, s')" "iseq_links s' (remove1 p ?ps)"
    "\<forall>q. q \<noteq> p \<longrightarrow> insn_of s' q = insn_of s1 q"
    using iseqRmInsn_spec [OF l1, of p] by auto
  have "is_insns s = hd_or ?ps None" using assms(1) by (simp add: iseq_links_def)
  then have "rmInsnAndPatchJumps s p = Some s'"
    using s1(1) s'(1) sp(3) pos iseqInsnIndex_spec [OF assms(1), of p]
    by (simp add: rmInsnAndPatchJumps_def del: hd_or_append)
  moreover have "remove1 p ?ps = xs @ ys" using sp(4) by (simp add: remove1_append)
  ultimately show ?thesis using s'(2,3) s1(2) sp(4,5) by auto
qed

subsection \<open>Word offsets\<close>

definition word_at :: "iseq \<Rightarrow> iptr list \<Rightarrow> iptr \<Rightarrow> int" where
  "word_at s ps q = words_of (map (insn_of s) (takeWhile (\<lambda>r. r \<noteq> q) ps))"

lemma insn_words_pos: "1 \<le> insn_words i"
  by (simp add: insn_words_def)

lemma words_of_nonneg: "0 \<le> words_of is"
  by (induction "is") (auto simp: insn_words_def)

lemma word_at_append:
  "word_at s (as @ bs) q = (if q \<in> set as then word_at s as q else words_of (map (insn_of s) as) + word_at s bs q)"
  by (induction as) (auto simp: word_at_def)

lemma word_at_Cons: "word_at s (a # bs) q = (if q = a then 0 else insn_words (insn_of s a) + word_at s bs q)"
  by (auto simp: word_at_def)

lemma word_at_nonneg: "0 \<le> word_at s ps q"
  by (simp add: word_at_def words_of_nonneg)

lemma word_at_before: "q \<in> set as \<Longrightarrow> word_at s as q + insn_words (insn_of s q) \<le> words_of (map (insn_of s) as)"
proof (induction as)
  case (Cons a as)
  then show ?case using words_of_nonneg [of "map (insn_of s) as"] by (auto simp: word_at_Cons)
qed simp

lemma word_at_cong:
  assumes "\<And>r. r \<in> set ps \<Longrightarrow> insn_words (insn_of s' r) = insn_words (insn_of s r)"
  shows "word_at s' ps q = word_at s ps q"
  using assms by (induction ps) (auto simp: word_at_Cons word_at_def)

text \<open>The operand of a jump is one more than the words it skips, that of a loop the distance
  back, as the interpreter reads them. The jump of an if or a loop lands on the instruction it
  refers to; that of an and or an or refers to the last instruction it skips, and lands behind
  it. The last argument is the size of what is skipped in the second case.\<close>

definition lands :: "insn \<Rightarrow> int \<Rightarrow> bool" where
  "lands t e \<longleftrightarrow> e = 0 \<or> e = insn_words t"

definition jump_right :: "iseq \<Rightarrow> iptr list \<Rightarrow> iptr \<Rightarrow> bool" where
  "jump_right s ps q \<longleftrightarrow> (let i = insn_of s q in
     (isJump i \<longrightarrow> in_operands i \<noteq> [] \<and> in_numOperands i = 1 \<and>
        (\<forall>l. in_jumpTo i = None \<and> in_jumpToPrev i = Some l \<longrightarrow> l \<in> set ps) \<and>
        (\<exists>t\<in>set ps. \<exists>e. jump_dest s i = Some t \<and> lands (insn_of s t) e \<and>
           word_at s ps q + 2 \<le> word_at s ps t \<and>
           uint (in_operands i ! 0) = word_at s ps t - word_at s ps q - 1 + e)) \<and>
     (isLoop i \<longrightarrow> in_operands i \<noteq> [] \<and>
        (\<exists>t\<in>set ps. in_jumpTo i = Some t \<and> word_at s ps t \<le> word_at s ps q \<and>
           uint (in_operands i ! 0) = word_at s ps q - word_at s ps t)))"

text \<open>The instruction p is the target of the jump or loop i, or what it remembers of its
  target.\<close>

definition refers_to :: "iseq \<Rightarrow> insn \<Rightarrow> iptr \<Rightarrow> bool" where
  "refers_to s i p \<longleftrightarrow>
     (isJump i \<and> (jump_dest s i = Some p \<or> (in_jumpTo i = None \<and> in_jumpToPrev i = Some p))) \<or>
     (isLoop i \<and> in_jumpTo i = Some p)"

lemma uint_shift:
  fixes a :: "'a::len word"
  assumes "0 \<le> w" "w \<le> uint a"
  shows "uint (a + word_of_int (- w)) = uint a - w"
proof -
  have "a + word_of_int (- w) = word_of_int (uint a - w)" by simp
  moreover have "0 \<le> uint a - w" using assms by simp
  moreover have "uint a - w < 2 ^ LENGTH('a)" using assms(1) uint_lt2p [of a] by linarith
  ultimately show ?thesis by (simp add: word_of_int_inverse take_bit_int_eq_self)
qed

text \<open>The situation before the removal of p from between xs and ys: the jumps are right and none
  refers to p.\<close>

definition removable :: "iseq \<Rightarrow> iptr list \<Rightarrow> iptr \<Rightarrow> iptr list \<Rightarrow> bool" where
  "removable s xs p ys \<longleftrightarrow> iseq_links s (xs @ p # ys) \<and>
     (\<forall>q\<in>set (xs @ p # ys). jump_right s (xs @ p # ys) q) \<and>
     (\<forall>q\<in>set xs \<union> set ys. \<not> refers_to s (insn_of s q) p)"

abbreviation "old_at s xs p ys \<equiv> word_at s (xs @ p # ys)"

lemma removable_links:
  assumes "removable s xs p ys"
  shows "iseq_links s (xs @ p # ys)" "p \<notin> set xs" "p \<notin> set ys" "set xs \<inter> set ys = {}"
  using assms by (auto simp: removable_def iseq_links_def)

lemma removable_before:
  assumes "removable s xs p ys" "q \<in> set xs"
  shows "old_at s xs p ys q + insn_words (insn_of s q) \<le> old_at s xs p ys p"
  using word_at_before [OF assms(2)] assms removable_links(2) [OF assms(1)]
  by (simp add: word_at_append word_at_Cons)

lemma removable_behind:
  assumes "removable s xs p ys" "q \<in> set ys"
  shows "old_at s xs p ys p + insn_words (insn_of s p) \<le> old_at s xs p ys q"
  using assms(2) removable_links [OF assms(1)] word_at_nonneg by (auto simp: word_at_append word_at_Cons)

lemma removable_order:
  assumes "removable s xs p ys" "q \<in> set ys" "t \<in> set xs \<union> set ys" "old_at s xs p ys q \<le> old_at s xs p ys t"
  shows "t \<in> set ys"
  using assms(2-4) removable_before [OF assms(1), of t] removable_behind [OF assms(1,2)]
    insn_words_pos [of "insn_of s t"] insn_words_pos [of "insn_of s p"] by auto

lemma removable_jump:
  assumes r: "removable s xs p ys" and q: "q \<in> set xs \<union> set ys" and j: "isJump (insn_of s q)"
  obtains t e where "t \<in> set xs \<union> set ys" "jump_dest s (insn_of s q) = Some t"
    "old_at s xs p ys q + 2 \<le> old_at s xs p ys t"
    "uint (in_operands (insn_of s q) ! 0) = old_at s xs p ys t - old_at s xs p ys q - 1 + e"
    "lands (insn_of s t) e"
    "in_operands (insn_of s q) \<noteq> []" "in_numOperands (insn_of s q) = 1"
    "\<forall>l. in_jumpTo (insn_of s q) = None \<and> in_jumpToPrev (insn_of s q) = Some l \<longrightarrow> l \<in> set xs \<union> set ys"
proof -
  let ?i = "insn_of s q" and ?W = "old_at s xs p ys"
  have jr: "jump_right s (xs @ p # ys) q" and nr: "\<not> refers_to s ?i p"
    using r q unfolding removable_def by auto
  then obtain t e where t: "t \<in> set (xs @ p # ys)" "jump_dest s ?i = Some t" "?W q + 2 \<le> ?W t"
      "uint (in_operands ?i ! 0) = ?W t - ?W q - 1 + e" "lands (insn_of s t) e"
    using j unfolding jump_right_def Let_def by blast
  have o: "in_operands ?i \<noteq> []" "in_numOperands ?i = 1"
    "\<forall>l. in_jumpTo ?i = None \<and> in_jumpToPrev ?i = Some l \<longrightarrow> l \<in> set (xs @ p # ys)"
    using jr j unfolding jump_right_def Let_def by blast+
  have n: "t \<noteq> p" "in_jumpTo ?i = None \<Longrightarrow> in_jumpToPrev ?i \<noteq> Some p"
    using nr j t(2) unfolding refers_to_def by blast+
  have "l \<in> set xs \<union> set ys" if "in_jumpTo ?i = None" "in_jumpToPrev ?i = Some l" for l
    using o(3) n(2) that by auto
  moreover have "t \<in> set xs \<union> set ys" using t(1) n(1) by auto
  ultimately show ?thesis using that [of t e] t(2-5) o(1,2) by blast
qed

lemma removable_loop:
  assumes r: "removable s xs p ys" and q: "q \<in> set xs \<union> set ys" and j: "isLoop (insn_of s q)"
  obtains t where "t \<in> set xs \<union> set ys" "in_jumpTo (insn_of s q) = Some t"
    "old_at s xs p ys t \<le> old_at s xs p ys q"
    "uint (in_operands (insn_of s q) ! 0) = old_at s xs p ys q - old_at s xs p ys t"
    "in_operands (insn_of s q) \<noteq> []"
proof -
  let ?i = "insn_of s q" and ?W = "old_at s xs p ys"
  have jr: "jump_right s (xs @ p # ys) q" and nr: "\<not> refers_to s ?i p"
    using r q unfolding removable_def by auto
  then obtain t where t: "t \<in> set (xs @ p # ys)" "in_jumpTo ?i = Some t" "?W t \<le> ?W q"
      "uint (in_operands ?i ! 0) = ?W q - ?W t" "in_operands ?i \<noteq> []"
    using j unfolding jump_right_def Let_def by blast
  moreover have "t \<noteq> p" using nr j t(2) unfolding refers_to_def by blast
  ultimately show ?thesis using that [of t] by auto
qed

lemma removable_dests: "removable s xs p ys \<Longrightarrow> dests_ok xs ys s"
  unfolding dests_ok_def by (blast elim: removable_jump removable_loop)

text \<open>An operand that is patched is larger than the removed instruction.\<close>

lemma removable_big:
  assumes r: "removable s xs p ys" and c: "crosses xs ys s q"
  shows "insn_words (insn_of s p) < uint (in_operands (insn_of s q) ! 0)"
  using c unfolding crosses_def
proof (elim disjE conjE bexE)
  fix t assume a: "q \<in> set xs" "isJump (insn_of s q)" and t: "t \<in> set ys" "jump_dest s (insn_of s q) = Some t"
  obtain t' e where "jump_dest s (insn_of s q) = Some t'" "in_numOperands (insn_of s q) = 1"
    "uint (in_operands (insn_of s q) ! 0) = old_at s xs p ys t' - old_at s xs p ys q - 1 + e" "lands (insn_of s t') e"
    by (rule removable_jump [OF r _ a(2)]) (use a in auto)
  then show ?thesis using t(2) removable_before [OF r a(1)] removable_behind [OF r t(1)]
    by (auto simp: insn_words_def lands_def)
next
  fix t assume a: "q \<in> set ys" "isLoop (insn_of s q)" and t: "t \<in> set xs" "in_jumpTo (insn_of s q) = Some t"
  obtain t' where "in_jumpTo (insn_of s q) = Some t'"
    "uint (in_operands (insn_of s q) ! 0) = old_at s xs p ys q - old_at s xs p ys t'"
    by (rule removable_loop [OF r _ a(2)]) (use a in auto)
  then show ?thesis using t(2) removable_before [OF r t(1)] removable_behind [OF r a(1)]
    insn_words_pos [of "insn_of s t"] by simp
qed

lemma removable_shift:
  assumes "removable s xs p ys" "crosses xs ys s q"
  shows "uint (in_operands (insn_of s q) ! 0 + word_of_int (- insn_words (insn_of s p)))
    = uint (in_operands (insn_of s q) ! 0) - insn_words (insn_of s p)"
  using removable_big [OF assms] insn_words_pos [of "insn_of s p"] by (intro uint_shift) auto

text \<open>The sequence after the removal.\<close>

definition removed :: "iseq \<Rightarrow> iptr list \<Rightarrow> iptr \<Rightarrow> iptr list \<Rightarrow> iseq \<Rightarrow> bool" where
  "removed s xs p ys s' \<longleftrightarrow> iseq_links s' (xs @ ys) \<and>
     (\<forall>q\<in>set xs \<union> set ys. insn_of s' q =
       (if crosses xs ys s q then shift (- insn_words (insn_of s p)) (insn_of s q) else insn_of s q))"

lemma removable_rm:
  assumes "removable s xs p ys"
  shows "\<exists>s'. rmInsnAndPatchJumps s p = Some s' \<and> removed s xs p ys s'"
proof -
  have "in_operands (insn_of s q) ! 0 + word_of_int (- insn_words (insn_of s p)) \<noteq> 0" if "crosses xs ys s q" for q
    using removable_shift [OF assms that] removable_big [OF assms that] by auto
  then show ?thesis
    using rm_exact [OF removable_links(1) [OF assms] removable_dests [OF assms]] by (auto simp: removed_def)
qed

lemma removed_word_at:
  assumes "removable s xs p ys" "removed s xs p ys s'" "q \<in> set xs \<union> set ys"
  shows "word_at s' (xs @ ys) q =
    (if q \<in> set xs then old_at s xs p ys q else old_at s xs p ys q - insn_words (insn_of s p))"
proof -
  have "word_at s' (xs @ ys) q = word_at s (xs @ ys) q"
    by (rule word_at_cong) (use assms(2) in \<open>auto simp: removed_def\<close>)
  then show ?thesis using assms(3) removable_links [OF assms(1)] by (auto simp: word_at_append word_at_Cons)
qed

lemma removed_next:
  assumes "removable s xs p ys" "removed s xs p ys s'" "l \<in> set xs \<union> set ys" "next_of s l = Some t" "t \<noteq> p"
  shows "next_of s' l = Some t"
proof (cases "l \<in> set xs")
  case True
  then obtain as bs where a: "xs = as @ l # bs" by (auto dest: split_list)
  have "next_of s l = hd_or (bs @ p # ys) None"
    using links_split(2) [of s as l "bs @ p # ys"] removable_links(1) [OF assms(1)] a by simp
  moreover have "next_of s' l = hd_or (bs @ ys) None"
    using links_split(2) [of s' as l "bs @ ys"] assms(2) a by (simp add: removed_def)
  ultimately show ?thesis using assms(4,5) by (cases bs) auto
next
  case False
  then have "l \<in> set ys" using assms(3) by blast
  then obtain as bs where a: "ys = as @ l # bs" by (auto dest: split_list)
  have "next_of s l = hd_or bs None"
    using links_split(2) [of s "xs @ p # as" l bs] removable_links(1) [OF assms(1)] a by simp
  moreover have "next_of s' l = hd_or bs None"
    using links_split(2) [of s' "xs @ as" l bs] assms(2) a by (simp add: removed_def)
  ultimately show ?thesis using assms(4) by simp
qed

lemma shift_operand: "in_operands i \<noteq> [] \<Longrightarrow> in_operands (shift d i) ! 0 = in_operands i ! 0 + word_of_int d"
  by (cases "in_operands i") (simp_all add: shift_def)

lemma removed_operand:
  assumes "removable s xs p ys" "removed s xs p ys s'" "q \<in> set xs \<union> set ys" "in_operands (insn_of s q) \<noteq> []"
  shows "uint (in_operands (insn_of s' q) ! 0) =
    uint (in_operands (insn_of s q) ! 0) - (if crosses xs ys s q then insn_words (insn_of s p) else 0)"
  using removable_shift [OF assms(1), of q] assms(2-4) by (simp add: removed_def shift_operand)

lemma removed_jump:
  assumes r: "removable s xs p ys" and d: "removed s xs p ys s'" and q: "q \<in> set xs \<union> set ys"
    and j: "isJump (insn_of s q)"
  shows "jump_right s' (xs @ ys) q"
proof -
  let ?W = "old_at s xs p ys" and ?V = "word_at s' (xs @ ys)" and ?i = "insn_of s q" and ?j = "insn_of s' q"
  obtain t e where t: "t \<in> set xs \<union> set ys" "jump_dest s ?i = Some t" "?W q + 2 \<le> ?W t"
    "uint (in_operands ?i ! 0) = ?W t - ?W q - 1 + e" "in_operands ?i \<noteq> []" "in_numOperands ?i = 1"
    "\<forall>l. in_jumpTo ?i = None \<and> in_jumpToPrev ?i = Some l \<longrightarrow> l \<in> set xs \<union> set ys"
    and e: "lands (insn_of s t) e"
    by (rule removable_jump [OF r q j])
  have "lands (insn_of s' t) e" using e d t(1) by (simp add: removed_def lands_def)
  have ji: "?j = (if crosses xs ys s q then shift (- insn_words (insn_of s p)) ?i else ?i)"
    using d q by (simp add: removed_def)
  have "t \<noteq> p" using t(1) removable_links [OF r] by blast
  then have "jump_dest s' ?i = Some t"
    using t(2,7) removed_next [OF r d] by (auto simp: jump_dest_def split: option.splits)
  then have jd: "jump_dest s' ?j = Some t" using ji by simp
  have cr: "crosses xs ys s q \<longleftrightarrow> q \<in> set xs \<and> t \<in> set ys"
    using j t(2) loop_not_jump [of ?i] by (auto simp: crosses_def)
  have "insn_words ?i = 2" using t(6) by (simp add: insn_words_def)
  then have "?V q + 2 \<le> ?V t \<and> uint (in_operands ?j ! 0) = ?V t - ?V q - 1 + e"
    using removed_word_at [OF r d q] removed_word_at [OF r d t(1)] removed_operand [OF r d q t(5)] t(1,3,4)
      removable_before [OF r, of q] removable_behind [OF r, of t] removable_order [OF r, of q t]
      removable_links(4) [OF r] q cr by (auto split: if_splits)
  moreover have "\<not> isLoop ?j" using j ji loop_not_jump [of ?i] by auto
  ultimately show ?thesis
    unfolding jump_right_def Let_def using jd t(1,5-7) ji \<open>lands (insn_of s' t) e\<close> by auto
qed

lemma removed_loop:
  assumes r: "removable s xs p ys" and d: "removed s xs p ys s'" and q: "q \<in> set xs \<union> set ys"
    and j: "isLoop (insn_of s q)"
  shows "jump_right s' (xs @ ys) q"
proof -
  let ?W = "old_at s xs p ys" and ?V = "word_at s' (xs @ ys)" and ?i = "insn_of s q" and ?j = "insn_of s' q"
  obtain t where t: "t \<in> set xs \<union> set ys" "in_jumpTo ?i = Some t" "?W t \<le> ?W q"
    "uint (in_operands ?i ! 0) = ?W q - ?W t" "in_operands ?i \<noteq> []"
    by (rule removable_loop [OF r q j])
  have ji: "?j = (if crosses xs ys s q then shift (- insn_words (insn_of s p)) ?i else ?i)"
    using d q by (simp add: removed_def)
  have cr: "crosses xs ys s q \<longleftrightarrow> q \<in> set ys \<and> t \<in> set xs"
    using j t(2) loop_not_jump [of ?i] by (auto simp: crosses_def)
  have "?V t \<le> ?V q \<and> uint (in_operands ?j ! 0) = ?V q - ?V t"
    using removed_word_at [OF r d q] removed_word_at [OF r d t(1)] removed_operand [OF r d q t(5)] t(1,3,4)
      removable_before [OF r, of t] removable_behind [OF r, of q] removable_order [OF r, of t q]
      insn_words_pos [of "insn_of s t"] removable_links(4) [OF r] q cr by (auto split: if_splits)
  moreover have "\<not> isJump ?j" using j ji loop_not_jump [of ?i] by auto
  ultimately show ?thesis
    unfolding jump_right_def Let_def using t(1,2,5) ji by auto
qed

lemma removed_right:
  assumes "removable s xs p ys" "removed s xs p ys s'" "q \<in> set xs \<union> set ys"
  shows "jump_right s' (xs @ ys) q"
proof (cases "isJump (insn_of s q) \<or> isLoop (insn_of s q)")
  case True
  then show ?thesis using removed_jump [OF assms] removed_loop [OF assms] by blast
next
  case False
  then have "\<not> isJump (insn_of s' q)" "\<not> isLoop (insn_of s' q)" using assms(2,3) by (auto simp: removed_def)
  then show ?thesis by (simp add: jump_right_def)
qed

text \<open>C25: removing an instruction. If every jump and loop of the sequence has the right offset and
  none of them refers to the removed instruction, rmInsnAndPatchJumps succeeds, the sequence is
  again well linked, and every remaining jump and loop has the right offset.\<close>

theorem rm_keeps_jump_targets:
  assumes "iseq_links s ps" "p \<in> set ps"
    and "\<forall>q\<in>set ps. jump_right s ps q" "\<forall>q\<in>set ps. q \<noteq> p \<longrightarrow> \<not> refers_to s (insn_of s q) p"
  shows "\<exists>s'. rmInsnAndPatchJumps s p = Some s' \<and> iseq_links s' (remove1 p ps) \<and>
    (\<forall>q\<in>set (remove1 p ps). jump_right s' (remove1 p ps) q)"
proof -
  obtain xs ys where x: "ps = xs @ p # ys" using assms(2) by (auto dest: split_list)
  then have "p \<notin> set xs" "p \<notin> set ys" using assms(1) by (auto simp: iseq_links_def)
  then have "removable s xs p ys" and rem: "remove1 p ps = xs @ ys"
    using assms x by (auto simp: removable_def remove1_append)
  then show ?thesis using removable_rm [of s xs p ys] removed_right [of s xs p ys]
    unfolding rem by (auto simp: removed_def)
qed

theorem rm_keeps_jump_targets_witness:
  "\<exists>s'. rmInsnAndPatchJumps if_sequence 3 = Some s' \<and> iseq_links s' [1, 2, 4, 5] \<and> jump_right s' [1, 2, 4, 5] 2"
proof -
  have l: "iseq_links if_sequence [1, 2, 3, 4, 5]" using if_sequence_rep by (simp add: iseq_rep_def)
  have d: "jump_dest if_sequence (insn_of if_sequence 2) = Some 5"
    by (simp add: if_sequence_insns jump_dest_def to_prev_def ins_def)
  have w: "word_at if_sequence [1, 2, 3, 4, 5] 2 = 2" "word_at if_sequence [1, 2, 3, 4, 5] 5 = 7"
    by (simp_all add: word_at_def if_sequence_insns insn_words_def ins_def to_prev_def num_def)
  have "jump_right if_sequence [1, 2, 3, 4, 5] 2"
    using d w by (simp add: jump_right_def if_sequence_insns)
      (simp add: isJump_def isLoop_def to_prev_def ins_def lands_def)
  moreover have "\<not> isJump (insn_of if_sequence q) \<and> \<not> isLoop (insn_of if_sequence q)" if "q \<in> {1, 3, 4, 5}" for q
    using that by (auto simp: if_sequence_insns isJump_def isLoop_def ins_def num_def)
  ultimately have "\<forall>q\<in>set [1, 2, 3, 4, 5]. jump_right if_sequence [1, 2, 3, 4, 5] q"
    "\<forall>q\<in>set [1, 2, 3, 4, 5]. q \<noteq> 3 \<longrightarrow> \<not> refers_to if_sequence (insn_of if_sequence q) 3"
    using d by (auto simp: jump_right_def refers_to_def)
      (auto simp: if_sequence_insns isLoop_def to_prev_def ins_def)
  from rm_keeps_jump_targets [OF l _ this] show ?thesis by auto
qed

subsection \<open>Where the optimiser goes wrong\<close>



text \<open>Constant folding behind a break. The operand of OP_BREAK is not patched: in three words
  of BREAK, two constants, ADD and PRINT, the break goes to LEAVE, at word 9; afterwards it still
  goes to word 9, but the code has only 7 words.\<close>

theorem folding_breaks_break:
  "optimized [ins OP_BREAK [9, 0], num 0, num 1, ins OP_ADD [], ins OP_PRINT [], ins OP_LEAVE []] =
     Some (Some [op_word OP_BREAK, 9, 0, op_word OP_CONSTANT, 0, op_word OP_PRINT, op_word OP_LEAVE])"
  by code_simp

text \<open>A constant condition inside an if, if (x) \{ if (true) \{ print y; \} \}. The inner jump
  becomes a pop, which is one word shorter, but no jump is patched and the word count is not
  changed: the outer jump, with operand 7, goes from word 4 to word 10, behind the end of the
  code.\<close>

theorem constant_condition_breaks_outer_jump:
  "optimized [ins OP_GET_GLOBAL [0], to_prev 6 (ins OP_JUMP_IF_FALSE [7]), ins OP_TRUE [],
       to_prev 6 (ins OP_JUMP_IF_FALSE [4]), ins OP_GET_GLOBAL [1], ins OP_PRINT [], labelled (ins OP_LEAVE [])] =
     Some (Some [op_word OP_GET_GLOBAL, 0, op_word OP_JUMP_IF_FALSE, 7, op_word OP_TRUE, op_word OP_POP,
       op_word OP_GET_GLOBAL, 1, op_word OP_PRINT, op_word OP_LEAVE])"
  by code_simp

end
