(* ===== verification/Clox_Intern.thy ===== *)
theory Clox_Intern
  imports Clox_Class
begin

text \<open>The objects that the compiler and the interpreter make outside of the program's own control
  (object.c): interned strings, function objects, internal objects, and the constant arrays and
  maps. The table of interned strings (vm.strings) is passed along with the memory.\<close>

subsection \<open>Interned strings\<close>

definition objs_of :: "mem \<Rightarrow> heap" where "objs_of m = gc_heap (m_gc m)"

definition lx_at :: "lx_env \<Rightarrow> mem \<Rightarrow> lx_env" where
  "lx_at lx m = lx\<lparr>env_heap := objs_of m\<rparr>"

definition mem_get :: "lx_env \<Rightarrow> mem \<Rightarrow> table \<Rightarrow> lxvalue \<Rightarrow> lxvalue option option" where
  "mem_get lx m t k = tableGet (hash_of (lx_at lx m)) (valEqual (lx_at lx m)) t k"

definition mem_put :: "lx_env \<Rightarrow> mem \<Rightarrow> table \<Rightarrow> lxvalue \<Rightarrow> lxvalue \<Rightarrow> (bool \<times> table) option" where
  "mem_put lx m t k v = tableSet (hash_of (lx_at lx m)) (valEqual (lx_at lx m)) t k v"

definition find_interned :: "mem \<Rightarrow> table \<Rightarrow> bytes \<Rightarrow> lxvalue option option" where
  "find_interned m strings chars =
     tableFindString (IS_STRING (objs_of m))
       (\<lambda>v. case get_string (objs_of m) v of Some b \<Rightarrow> sb_hash b | None \<Rightarrow> 0)
       (\<lambda>v. case get_string (objs_of m) v of Some b \<Rightarrow> str_bytes b | None \<Rightarrow> [])
       strings chars (hashString chars)"

text \<open>A new string takes its hash when it becomes a key of the table.\<close>

definition internedString ::
    "obj_env \<Rightarrow> lx_env \<Rightarrow> bytes \<Rightarrow> u16 \<Rightarrow> mem \<Rightarrow> table \<Rightarrow> (addr \<times> mem \<times> table) option" where
  "internedString env lx chars flags m strings =
     (case find_interned m strings chars of
        None \<Rightarrow> None
      | Some (Some k) \<Rightarrow> Some (AS_OBJ k, m, strings)
      | Some None \<Rightarrow>
          (case allocateString env (copyString chars) (lxStringClass (oe_classes env))
                  (flags OR NEWOBJ_FLAG_OLD OR NEWOBJ_FLAG_FROZEN) m of
             None \<Rightarrow> None
           | Some (p, m1) \<Rightarrow>
               (let m2 = on_gc (\<lambda>s. s\<lparr>gc_heap := cache_hash (gc_heap s) p (hashString chars)\<rparr>) m1
                in case mem_put lx m2 strings (OBJ_VAL p) NIL_VAL of
                     Some (True, strings1) \<Rightarrow>
                       Some (p, on_gc (on_obj p objFreeze) (obj_set_flag p OBJ_FLAG_USER2 m2), strings1)
                   | _ \<Rightarrow> None)))"

subsection \<open>Functions and internal objects\<close>

text \<open>The chunk and the other arrays that an ObjFunction points to are kept by the address of the
  function; fn_chunk is that address.\<close>

definition newFunction :: "obj_env \<Rightarrow> function_type \<Rightarrow> u16 \<Rightarrow> mem \<Rightarrow> (addr \<times> mem) option" where
  "newFunction env ftype flags m =
     (case allocateObject env (BFunction \<lparr>fn_chunk = NULL, fn_ftype = ftype, fn_name = NULL,
             fn_localsTable = initTable, fn_variables = [], fn_klass = NULL, fn_arity = 0,
             fn_numDefaultArgs = 0, fn_numKwargs = 0, fn_upvalueCount = 0, fn_localCount = 0,
             fn_isSingletonMethod = False, fn_hasRestArg = False, fn_hasBlockArg = False,
             fn_isBlock = False, fn_hasReceiver = False\<rparr>) (flags OR NEWOBJ_FLAG_OLD) m of
        None \<Rightarrow> None
      | Some (p, m1) \<Rightarrow>
          Some (p, GC_PROMOTE p GC_GEN_YOUNG_MAX (set_body p
             (\<lambda>b. case b of BFunction f \<Rightarrow> BFunction (f\<lparr>fn_chunk := p\<rparr>) | _ \<Rightarrow> b) m1)))"

definition fn_at :: "mem \<Rightarrow> addr \<Rightarrow> obj_function option" where
  "fn_at m p = (case objs_of m p of
     Some ob \<Rightarrow> (case o_body ob of BFunction f \<Rightarrow> Some f | _ \<Rightarrow> None) | None \<Rightarrow> None)"

definition upd_fn :: "addr \<Rightarrow> (obj_function \<Rightarrow> obj_function) \<Rightarrow> mem \<Rightarrow> mem" where
  "upd_fn p f = set_body p (\<lambda>b. case b of BFunction g \<Rightarrow> BFunction (f g) | _ \<Rightarrow> b)"

text \<open>newInternalObject, for a real object; its data is the number data.\<close>

definition newInternalObject :: "obj_env \<Rightarrow> addr \<Rightarrow> nat \<Rightarrow> u16 \<Rightarrow> mem \<Rightarrow> (addr \<times> mem) option" where
  "newInternalObject env data dataSz flags m =
     allocateObject env (BInternal \<lparr>in_data = data, in_dataSz = dataSz, in_marks = [],
       in_hasFreeFunc = False, in_isRealObject = True\<rparr>) (flags OR NEWOBJ_FLAG_OLD) m"

subsection \<open>Constant arrays and maps\<close>

definition newArrayConstant :: "obj_env \<Rightarrow> mem \<Rightarrow> (addr \<times> mem) option" where
  "newArrayConstant env m =
     (case allocateArray env (lxAryClass (oe_classes env)) NEWOBJ_FLAG_OLD m of
        None \<Rightarrow> None
      | Some (p, m1) \<Rightarrow> Some (p, GC_OLD p (obj_set_flag p OBJ_FLAG_USER2 m1)))"

text \<open>arrayPush on an array that shares its buffer with no other; None when the array is
  frozen.\<close>

definition push_constant :: "addr \<Rightarrow> lxvalue \<Rightarrow> mem \<Rightarrow> mem option" where
  "push_constant p el m =
     (case objs_of m p of
        None \<Rightarrow> None
      | Some ob \<Rightarrow>
          if isFrozen ob then None
          else Some (on_gc (objWrite (OBJ_VAL p) el)
                 (set_body p (\<lambda>b. case b of BArray i a \<Rightarrow> BArray i (writeValueArrayEnd a el) | _ \<Rightarrow> b) m)))"

definition newMapConstant :: "obj_env \<Rightarrow> mem \<Rightarrow> (addr \<times> mem) option" where
  "newMapConstant env m = allocateMap env (lxMapClass (oe_classes env)) NEWOBJ_FLAG_OLD m"

definition mapSet :: "lx_env \<Rightarrow> addr \<Rightarrow> lxvalue \<Rightarrow> lxvalue \<Rightarrow> mem \<Rightarrow> mem option" where
  "mapSet lx p key val m =
     (case objs_of m p of
        None \<Rightarrow> None
      | Some ob \<Rightarrow>
          (case o_body ob of
             BMap i t \<Rightarrow>
               (case mem_put lx m t key val of
                  None \<Rightarrow> None
                | Some (_, t1) \<Rightarrow> Some (set_body p (\<lambda>_. BMap i t1) m))
           | _ \<Rightarrow> None))"

end
