(* ===== verification/Clox_Monad.thy ===== *)
theory Clox_Monad
  imports Clox_Prelude
begin

text \<open>State passing with failure, for the components whose functions are long sequences of
  effects: an action takes a state and returns a value and the new state, or None where the code
  has a failed assertion or follows a bad pointer. With the combinators come the rules for
  partial correctness: what an action keeps of a state.\<close>

type_synonym ('s, 'a) act = "'s \<Rightarrow> ('a \<times> 's) option"

definition yields :: "'a \<Rightarrow> ('s, 'a) act" where "yields a s = Some (a, s)"

definition bnd :: "('s, 'a) act \<Rightarrow> ('a \<Rightarrow> ('s, 'b) act) \<Rightarrow> ('s, 'b) act" where
  "bnd m f s = (case m s of None \<Rightarrow> None | Some (a, s1) \<Rightarrow> f a s1)"

definition thn :: "('s, 'a) act \<Rightarrow> ('s, 'b) act \<Rightarrow> ('s, 'b) act" where
  "thn m n = bnd m (\<lambda>_. n)"

definition gets :: "('s \<Rightarrow> 'a) \<Rightarrow> ('s, 'a) act" where "gets f s = Some (f s, s)"

definition modify :: "('s \<Rightarrow> 's) \<Rightarrow> ('s, unit) act" where "modify f s = Some ((), f s)"

definition fails :: "('s, 'a) act" where "fails s = None"

definition assume_that :: "bool \<Rightarrow> ('s, unit) act" where
  "assume_that b = (if b then yields () else fails)"

text \<open>The value of an option, which must be there.\<close>

definition the_val :: "'a option \<Rightarrow> ('s, 'a) act" where
  "the_val x = (case x of None \<Rightarrow> fails | Some a \<Rightarrow> yields a)"

definition skip :: "('s, unit) act" where "skip = yields ()"

definition drop_val :: "('s, 'a) act \<Rightarrow> ('s, unit) act" where "drop_val m = thn m skip"

definition whenc :: "bool \<Rightarrow> ('s, unit) act \<Rightarrow> ('s, unit) act" where
  "whenc b m = (if b then m else skip)"

text \<open>Actions one after the other.\<close>

fun seqs :: "('s, unit) act list \<Rightarrow> ('s, unit) act" where
  "seqs [] = skip"
| "seqs (m # ms) = thn m (seqs ms)"

subsection \<open>What an action keeps\<close>

named_theorems keeps_rules

definition hoare :: "('s \<Rightarrow> bool) \<Rightarrow> ('s, 'a) act \<Rightarrow> ('a \<Rightarrow> 's \<Rightarrow> bool) \<Rightarrow> bool" where
  "hoare P m Q \<longleftrightarrow> (\<forall>s. P s \<longrightarrow> (case m s of None \<Rightarrow> True | Some (a, s1) \<Rightarrow> Q a s1))"

definition keeps :: "('s \<Rightarrow> bool) \<Rightarrow> ('s, 'a) act \<Rightarrow> bool" where
  "keeps I m \<longleftrightarrow> hoare I m (\<lambda>_. I)"

lemma hoareI: "(\<And>s a s1. P s \<Longrightarrow> m s = Some (a, s1) \<Longrightarrow> Q a s1) \<Longrightarrow> hoare P m Q"
  by (auto simp: hoare_def split: option.splits)

lemma hoareD: "hoare P m Q \<Longrightarrow> P s \<Longrightarrow> m s = Some (a, s1) \<Longrightarrow> Q a s1"
  by (fastforce simp: hoare_def)

lemma hoare_weaken: "hoare P m Q \<Longrightarrow> (\<And>s. P' s \<Longrightarrow> P s) \<Longrightarrow> (\<And>a s. Q a s \<Longrightarrow> Q' a s) \<Longrightarrow> hoare P' m Q'"
  by (fastforce intro!: hoareI dest: hoareD)

lemma hoare_bnd: "hoare P m R \<Longrightarrow> (\<And>a. hoare (R a) (f a) Q) \<Longrightarrow> hoare P (bnd m f) Q"
  by (intro hoareI) (auto simp: bnd_def dest!: hoareD split: option.splits)

lemma keepsI: "(\<And>s a s1. I s \<Longrightarrow> m s = Some (a, s1) \<Longrightarrow> I s1) \<Longrightarrow> keeps I m"
  by (auto simp: keeps_def intro: hoareI)

lemma keepsD: "keeps I m \<Longrightarrow> m s = Some (a, s1) \<Longrightarrow> I s \<Longrightarrow> I s1"
  by (auto simp: keeps_def dest: hoareD)

lemma keeps_yields [keeps_rules]: "keeps I (yields a)"
  by (auto simp: yields_def intro: keepsI)

lemma keeps_bnd [keeps_rules]: "keeps I m \<Longrightarrow> (\<And>a. keeps I (f a)) \<Longrightarrow> keeps I (bnd m f)"
  unfolding keeps_def by (rule hoare_bnd)

lemma keeps_thn [keeps_rules]: "keeps I m \<Longrightarrow> keeps I n \<Longrightarrow> keeps I (thn m n)"
  unfolding thn_def by (rule keeps_bnd)

lemma keeps_gets [keeps_rules]: "keeps I (gets f)"
  by (auto simp: gets_def intro: keepsI)

lemma keeps_modify [keeps_rules]: "(\<And>s. I s \<Longrightarrow> I (f s)) \<Longrightarrow> keeps I (modify f)"
  by (intro keepsI) (auto simp: modify_def)

lemma keeps_fails [keeps_rules]: "keeps I fails"
  by (auto simp: fails_def intro: keepsI)

lemma keeps_assume_that [keeps_rules]: "keeps I (assume_that b)"
  by (simp add: assume_that_def keeps_rules)

lemma keeps_the_val [keeps_rules]: "keeps I (the_val x)"
  by (cases x) (simp_all add: the_val_def keeps_rules)

lemma keeps_skip [keeps_rules]: "keeps I skip"
  by (simp add: skip_def keeps_rules)

lemma keeps_drop_val [keeps_rules]: "keeps I m \<Longrightarrow> keeps I (drop_val m)"
  by (simp add: drop_val_def keeps_rules)

lemma keeps_whenc [keeps_rules]: "(b \<Longrightarrow> keeps I m) \<Longrightarrow> keeps I (whenc b m)"
  by (simp add: whenc_def keeps_rules)

lemma keeps_if [keeps_rules]: "(b \<Longrightarrow> keeps I m) \<Longrightarrow> (\<not> b \<Longrightarrow> keeps I n) \<Longrightarrow> keeps I (if b then m else n)"
  by simp

lemma keeps_seqs [keeps_rules]: "(\<And>m. m \<in> set ms \<Longrightarrow> keeps I m) \<Longrightarrow> keeps I (seqs ms)"
  by (induction ms) (auto intro: keeps_rules)

lemma keeps_option [keeps_rules]:
  "(x = None \<Longrightarrow> keeps I m) \<Longrightarrow> (\<And>a. x = Some a \<Longrightarrow> keeps I (f a)) \<Longrightarrow>
     keeps I (case x of None \<Rightarrow> m | Some a \<Rightarrow> f a)"
  by (cases x) simp_all

lemma keeps_prod [keeps_rules]: "(\<And>a b. keeps I (f a b)) \<Longrightarrow> keeps I (case x of (a, b) \<Rightarrow> f a b)"
  by (cases x) simp

lemma keeps_list [keeps_rules]:
  "(x = [] \<Longrightarrow> keeps I m) \<Longrightarrow> (\<And>a as. x = a # as \<Longrightarrow> keeps I (f a as)) \<Longrightarrow>
     keeps I (case x of [] \<Rightarrow> m | a # as \<Rightarrow> f a as)"
  by (cases x) simp_all

end
