(* ===== verification/Clox_Emit.thy ===== *)
theory Clox_Emit
  imports Clox_Iseq_Laws Clox_Intern Clox_Monad Clox_Optimizer Clox_Scanner
begin

unbundle bit_operations_syntax

text \<open>The emitting half of the compiler (compiler.c): instructions, scopes, local variables and
  upvalues, the pool of constants, jumps and their patching. The static variables of the file and
  the chain of the compilers of the enclosing functions are one state, the current compiler first.
  None is a failed assertion or a bad pointer; a compile error is recorded in the state, as the
  code does, and compilation goes on.\<close>

subsection \<open>State\<close>

definition LX_MAX_LOCALS :: nat where "LX_MAX_LOCALS = 256"
definition LX_MAX_UPVALUES :: nat where "LX_MAX_UPVALUES = 256"
definition LX_MAX_KWARGS :: nat where "LX_MAX_KWARGS = 8"
definition UINT8_MAX :: nat where "UINT8_MAX = 255"
definition BYTECODE_MAX :: u32 where "BYTECODE_MAX = 0xFFFFFFFF"

datatype scope_type = COMPILE_SCOPE_MAIN | COMPILE_SCOPE_FUNCTION | COMPILE_SCOPE_IF | COMPILE_SCOPE_WHILE
  | COMPILE_SCOPE_FOREACH | COMPILE_SCOPE_FOR | COMPILE_SCOPE_TRY | COMPILE_SCOPE_IN | COMPILE_SCOPE_CLASS
  | COMPILE_SCOPE_MODULE | COMPILE_SCOPE_BLOCK

datatype loop_type = LOOP_T_NONE | LOOP_T_FOR | LOOP_T_FOREACH | LOOP_T_WHILE | LOOP_T_BLOCK
datatype var_op = VAR_GET | VAR_SET
datatype const_type = CONST_T_NUMLIT | CONST_T_STRLIT | CONST_T_ARYLIT | CONST_T_MAPLIT | CONST_T_CODE
  | CONST_T_CALLINFO

text \<open>A pointer to a scope is its number among the scopes made so far.\<close>

record scope =
  scp_type :: scope_type
  scp_parent :: "nat option"
  scp_line_start :: int
  scp_line_end :: int
  scp_bytecode_start :: int
  scp_bytecode_end :: int

text \<open>Names are texts of tokens.\<close>

record local =
  l_name :: bytes
  l_depth :: int
  l_isUpvalue :: bool
  l_popOnScopeEnd :: bool

record local_variable =
  lv_name :: addr
  lv_scope :: "nat option"
  lv_slot :: nat
  lv_declare_start :: int

record upvalue =
  uv_index :: u8
  uv_isLocal :: bool

text \<open>What an ObjFunction points to, beside the fields of its object; fi_defaults are the offsets
  that emitFunction notes in the nodes of the default arguments.\<close>

record fn_info =
  fi_chunk :: chunk
  fi_scopes :: "nat list"
  fi_variables :: "local_variable list"
  fi_upvaluesInfo :: "upvalue list"
  fi_defaults :: "int list"

record call_info =
  ca_nameTok :: token
  ca_argc :: int
  ca_numKwargs :: int
  ca_usesSplat :: bool
  ca_kwargNames :: "token list"
  ca_blockFunction :: "addr option"

record compiler =
  c_function :: addr
  c_type :: function_type
  c_locals :: "local list"
  c_upvalues :: "upvalue list"
  c_localCountMax :: nat
  c_scopeDepth :: int
  c_iseq :: iseq
  c_constTbl :: table
  c_hadError :: bool

text \<open>c_locals holds the first localCount entries of the array, c_upvalues the first upvalueCount;
  upvalueCount is a field of the function object.\<close>

record class_compiler =
  cc_name :: token
  cc_hasSuperclass :: bool
  cc_isModule :: bool

text \<open>cs_fresh is the next instruction that xcalloc returns.\<close>

record cstate =
  cs_comps :: "compiler list"
  cs_classes :: "class_compiler list"
  cs_inINBlock :: bool
  cs_curTok :: "token option"
  cs_loopStart :: int
  cs_curLoopType :: loop_type
  cs_nodeDepth :: int
  cs_nodeWidth :: int
  cs_blockDepth :: int
  cs_breakBlock :: bool
  cs_curScope :: "nat option"
  cs_scopes :: "scope list"
  cs_loopLocalCount :: int
  cs_nextInsnIsLabel :: bool
  cs_errMessages :: "(int \<times> string) list"
  cs_mem :: mem
  cs_strings :: table
  cs_fnInfo :: "addr \<Rightarrow> fn_info option"
  cs_callInfos :: "call_info list"
  cs_fresh :: iptr

text \<open>What the compiler uses of its surroundings: allocation, the source text, the conversion of a
  text by strtod, arithmetic for the optimiser and its switches; ce_garbage is what realloc leaves in
  a new byte.\<close>

record comp_env =
  ce_obj :: obj_env
  ce_lx :: lx_env
  ce_src :: bytes
  ce_strtod :: "bytes \<Rightarrow> u64"
  ce_garbage :: u8
  ce_fpu :: fpu
  ce_noOptimize :: bool
  ce_noRemove :: bool

type_synonym 'a comp = "(cstate, 'a) act"

subsection \<open>Access to the state\<close>

definition current :: "compiler comp" where
  "current s = (case cs_comps s of [] \<Rightarrow> None | c # _ \<Rightarrow> Some (c, s))"

definition upd_current :: "(compiler \<Rightarrow> compiler) \<Rightarrow> cstate \<Rightarrow> cstate" where
  "upd_current f s = s\<lparr>cs_comps := (case cs_comps s of [] \<Rightarrow> [] | c # cs \<Rightarrow> f c # cs)\<rparr>"

definition upd_top :: "(compiler \<Rightarrow> compiler) \<Rightarrow> cstate \<Rightarrow> cstate" where
  "upd_top f s = s\<lparr>cs_comps := (case rev (cs_comps s) of [] \<Rightarrow> [] | c # cs \<Rightarrow> rev (f c # cs))\<rparr>"

definition on_current :: "(compiler \<Rightarrow> compiler) \<Rightarrow> unit comp" where
  "on_current f = modify (upd_current f)"

definition currentIseq :: "iseq comp" where
  "currentIseq = bnd current (\<lambda>c. yields (c_iseq c))"

text \<open>An operation on the current instruction list that may fail.\<close>

definition on_iseq :: "(iseq \<Rightarrow> iseq option) \<Rightarrow> unit comp" where
  "on_iseq f = bnd currentIseq (\<lambda>q. bnd (the_val (f q)) (\<lambda>q1. on_current (\<lambda>c. c\<lparr>c_iseq := q1\<rparr>)))"

definition on_mem :: "(mem \<Rightarrow> mem) \<Rightarrow> unit comp" where
  "on_mem f = modify (\<lambda>s. s\<lparr>cs_mem := f (cs_mem s)\<rparr>)"

definition mem_act :: "(mem \<Rightarrow> ('a \<times> mem) option) \<Rightarrow> 'a comp" where
  "mem_act f s = (case f (cs_mem s) of None \<Rightarrow> None | Some (a, m) \<Rightarrow> Some (a, s\<lparr>cs_mem := m\<rparr>))"

definition on_fnInfo :: "addr \<Rightarrow> (fn_info \<Rightarrow> fn_info) \<Rightarrow> unit comp" where
  "on_fnInfo p f = modify (\<lambda>s. s\<lparr>cs_fnInfo := (cs_fnInfo s)(p := map_option f (cs_fnInfo s p))\<rparr>)"

definition tok_text :: "comp_env \<Rightarrow> token \<Rightarrow> bytes" where
  "tok_text env t = fst (tokStr (ce_src env) t)"

definition cur_line :: "cstate \<Rightarrow> int" where
  "cur_line s = (case cs_curTok s of None \<Rightarrow> 0 | Some t \<Rightarrow> tk_line t)"

text \<open>error: the message with the line; its arguments are left out.\<close>

definition error :: "string \<Rightarrow> unit comp" where
  "error msg = modify (\<lambda>s.
     (let fail = (\<lambda>c. c\<lparr>c_hadError := True\<rparr>)
      in upd_top fail (upd_current fail (s\<lparr>cs_errMessages := cs_errMessages s @ [(cur_line s, msg)]\<rparr>))))"

subsection \<open>Instructions\<close>

text \<open>emitInsn: the new instruction takes the line and node level, and the pending label.\<close>

definition new_insn :: "insn \<Rightarrow> iptr comp" where
  "new_insn i s =
     (let p = cs_fresh s;
          i1 = i\<lparr>in_lineno := cur_line s, in_depth := cs_nodeDepth s, in_width := cs_nodeWidth s\<rparr>;
          i2 = (if cs_nextInsnIsLabel s then i1\<lparr>in_isLabel := True\<rparr> else i1)
      in Some (p, upd_current (\<lambda>c. c\<lparr>c_iseq := (c_iseq c)\<lparr>is_store := (is_store (c_iseq c))
           (p \<mapsto> \<lparr>nd_insn = i2, nd_next = None, nd_prev = None\<rparr>)\<rparr>\<rparr>)
           (s\<lparr>cs_fresh := p + 1, cs_nextInsnIsLabel := False\<rparr>)))"

definition emitInsn :: "insn \<Rightarrow> iptr comp" where
  "emitInsn i = bnd (new_insn i) (\<lambda>p. thn (on_iseq (\<lambda>q. iseqAddInsn q p)) (yields p))"

definition emitOp0 :: "opcode \<Rightarrow> iptr comp" where
  "emitOp0 code = emitInsn (zero_insn\<lparr>in_code := code\<rparr>)"
definition emitOp1 :: "opcode \<Rightarrow> u32 \<Rightarrow> iptr comp" where
  "emitOp1 code op1 = emitInsn (zero_insn\<lparr>in_code := code, in_operands := [op1, 0, 0], in_numOperands := 1\<rparr>)"
definition emitOp2 :: "opcode \<Rightarrow> u32 \<Rightarrow> u32 \<Rightarrow> iptr comp" where
  "emitOp2 code op1 op2 =
     emitInsn (zero_insn\<lparr>in_code := code, in_operands := [op1, op2, 0], in_numOperands := 2\<rparr>)"
definition emitOp3 :: "opcode \<Rightarrow> u32 \<Rightarrow> u32 \<Rightarrow> u32 \<Rightarrow> iptr comp" where
  "emitOp3 code op1 op2 op3 =
     emitInsn (zero_insn\<lparr>in_code := code, in_operands := [op1, op2, op3], in_numOperands := 3\<rparr>)"

text \<open>The same, for a caller that drops the pointer.\<close>

definition op0 :: "opcode \<Rightarrow> unit comp" where "op0 code = drop_val (emitOp0 code)"
definition op1 :: "opcode \<Rightarrow> u32 \<Rightarrow> unit comp" where "op1 code a = drop_val (emitOp1 code a)"
definition op2 :: "opcode \<Rightarrow> u32 \<Rightarrow> u32 \<Rightarrow> unit comp" where "op2 code a b = drop_val (emitOp2 code a b)"
definition op3 :: "opcode \<Rightarrow> u32 \<Rightarrow> u32 \<Rightarrow> u32 \<Rightarrow> unit comp" where
  "op3 code a b c = drop_val (emitOp3 code a b c)"

definition emitNil :: "unit comp" where "emitNil = op0 OP_NIL"
definition emitLeave :: "unit comp" where "emitLeave = op0 OP_LEAVE"
definition emitCloseUpvalue :: "unit comp" where "emitCloseUpvalue = op0 OP_CLOSE_UPVALUE"

text \<open>emitReturn: what ends a function without an explicit return.\<close>

definition emitReturn :: "compiler \<Rightarrow> unit comp" where
  "emitReturn c =
     (if c_type c = FUN_TYPE_TOP_LEVEL then fails
      else if c_type c = FUN_TYPE_INIT then seqs [op0 OP_GET_THIS, op0 OP_RETURN]
      else bnd (gets cs_breakBlock) (\<lambda>breakBlock.
        if breakBlock \<and> c_type c = FUN_TYPE_BLOCK
        then seqs [whenc (is_count (c_iseq c) = 0) (op0 OP_NIL), op0 OP_BLOCK_CONTINUE]
        else if c_type c = FUN_TYPE_BLOCK
        then seqs [whenc (is_count (c_iseq c) = 0) (seqs [op0 OP_NIL, op0 OP_POP]), op0 OP_BLOCK_CONTINUE]
        else seqs [op0 OP_NIL, op0 OP_RETURN]))"

subsection \<open>Scopes\<close>

definition pushScope :: "scope_type \<Rightarrow> unit comp" where
  "pushScope stype = bnd current (\<lambda>c. bnd (gets (\<lambda>s. length (cs_scopes s))) (\<lambda>n. seqs [
     modify (\<lambda>s. s\<lparr>cs_scopes := cs_scopes s @ [\<lparr>scp_type = stype, scp_parent = cs_curScope s,
        scp_line_start = cur_line s, scp_line_end = - 1,
        scp_bytecode_start = is_wordCount (c_iseq c), scp_bytecode_end = - 1\<rparr>]\<rparr>),
     on_fnInfo (c_function c) (\<lambda>i. i\<lparr>fi_scopes := fi_scopes i @ [n]\<rparr>),
     on_current (\<lambda>c. c\<lparr>c_scopeDepth := c_scopeDepth c + 1\<rparr>),
     modify (\<lambda>s. s\<lparr>cs_curScope := Some n\<rparr>)]))"

text \<open>The loop of popScope over the locals, from the last one down: a captured one is closed,
  another is popped, except in a block.\<close>

fun pop_locals :: "local list \<Rightarrow> unit comp" where
  "pop_locals [] = skip"
| "pop_locals (l # ls) = bnd current (\<lambda>c.
     if l_depth l \<ge> c_scopeDepth c
     then seqs [
       if l_isUpvalue l then emitCloseUpvalue
       else whenc (c_type c \<noteq> FUN_TYPE_BLOCK \<and> l_popOnScopeEnd l) (op0 OP_POP),
       on_current (\<lambda>c. c\<lparr>c_locals := rev ls\<rparr>),
       pop_locals ls]
     else skip)"

definition close_scope :: "unit comp" where
  "close_scope = bnd currentIseq (\<lambda>q. bnd (gets cs_curScope) (\<lambda>cur. bnd (the_val cur) (\<lambda>n. seqs [
     modify (\<lambda>s. s\<lparr>cs_scopes := (cs_scopes s)[n := (cs_scopes s ! n)
        \<lparr>scp_bytecode_end := is_wordCount q, scp_line_end := cur_line s\<rparr>]\<rparr>),
     modify (\<lambda>s. s\<lparr>cs_curScope := scp_parent (cs_scopes s ! n)\<rparr>),
     on_current (\<lambda>c. c\<lparr>c_scopeDepth := c_scopeDepth c - 1\<rparr>)])))"

definition popScope :: "scope_type \<Rightarrow> unit comp" where
  "popScope stype = seqs [
     bnd current (\<lambda>c. pop_locals (rev (c_locals c))),
     whenc (stype = COMPILE_SCOPE_FUNCTION \<or> stype = COMPILE_SCOPE_MAIN) (bnd current emitReturn),
     close_scope]"

subsection \<open>Upvalues and names\<close>

definition comp_at :: "nat \<Rightarrow> compiler comp" where
  "comp_at n = bnd (gets cs_comps) (\<lambda>cs. the_val (if n < length cs then Some (cs ! n) else None))"

definition on_comp :: "nat \<Rightarrow> (compiler \<Rightarrow> compiler) \<Rightarrow> unit comp" where
  "on_comp n f = modify (\<lambda>s. s\<lparr>cs_comps := (cs_comps s)[n := f (cs_comps s ! n)]\<rparr>)"

fun find_upvalue :: "u8 \<Rightarrow> bool \<Rightarrow> upvalue list \<Rightarrow> nat option" where
  "find_upvalue index isLocal [] = None"
| "find_upvalue index isLocal (u # us) =
     (if uv_index u = index \<and> uv_isLocal u = isLocal then Some 0
      else map_option Suc (find_upvalue index isLocal us))"

text \<open>addUpvalue, on the compiler number n of the chain.\<close>

definition addUpvalue :: "nat \<Rightarrow> u8 \<Rightarrow> bool \<Rightarrow> nat comp" where
  "addUpvalue n index isLocal = bnd (comp_at n) (\<lambda>c.
     case find_upvalue index isLocal (c_upvalues c) of
       Some i \<Rightarrow> yields i
     | None \<Rightarrow>
         if length (c_upvalues c) = LX_MAX_UPVALUES
         then thn (error ''Too many closure variables in function.'') (yields 0)
         else thn (on_comp n (\<lambda>c. c\<lparr>c_upvalues := c_upvalues c @ [\<lparr>uv_index = index, uv_isLocal = isLocal\<rparr>]\<rparr>))
              (thn (on_mem (upd_fn (c_function c) (\<lambda>f. f\<lparr>fn_upvalueCount := fn_upvalueCount f + 1\<rparr>)))
                 (yields (length (c_upvalues c)))))"

text \<open>resolveLocal looks from the last local down; the list is in that order.\<close>

fun resolve_rev :: "bytes \<Rightarrow> local list \<Rightarrow> int" where
  "resolve_rev name [] = - 1"
| "resolve_rev name (l # ls) = (if l_name l = name then int (length ls) else resolve_rev name ls)"

definition resolveLocal :: "compiler \<Rightarrow> bytes \<Rightarrow> int" where
  "resolveLocal c name = resolve_rev name (rev (c_locals c))"

text \<open>resolveUpvalue, on the compiler number n of the chain, which has k enclosing ones.\<close>

fun resolve_up :: "nat \<Rightarrow> nat \<Rightarrow> bytes \<Rightarrow> int comp" where
  "resolve_up 0 n name = yields (- 1)"
| "resolve_up (Suc k) n name = bnd (comp_at (Suc n)) (\<lambda>e.
     let l = resolveLocal e name
     in if l \<noteq> - 1
        then thn (on_comp (Suc n) (\<lambda>e. e\<lparr>c_locals := (c_locals e)[nat l := (c_locals e ! nat l)\<lparr>l_isUpvalue := True\<rparr>]\<rparr>))
               (bnd (addUpvalue n (word_of_int l) True) (\<lambda>i. yields (int i)))
        else bnd (resolve_up k (Suc n) name) (\<lambda>u.
          if u \<noteq> - 1 then bnd (addUpvalue n (word_of_int u) False) (\<lambda>i. yields (int i))
          else yields (- 1)))"

definition resolveUpvalue :: "bytes \<Rightarrow> int comp" where
  "resolveUpvalue name = bnd (gets (\<lambda>s. length (cs_comps s) - 1)) (\<lambda>k. resolve_up k 0 name)"

subsection \<open>Constants\<close>

text \<open>The conversion of a number, not negative, to a double, rounded to the nearest, ties to even.\<close>

fun bit_len :: "int \<Rightarrow> nat" where
  "bit_len n = (if n \<le> 0 then 0 else Suc (bit_len (n div 2)))"

declare bit_len.simps [simp del]

definition double_of_int :: "int \<Rightarrow> u64" where
  "double_of_int n =
     (if n \<le> 0 then 0
      else let e = bit_len n - 1
        in if e \<le> 52 then word_of_int ((1023 + int e) * 2 ^ 52 + (n - 2 ^ e) * 2 ^ (52 - e))
        else let q = n div 2 ^ (e - 52); r = n mod 2 ^ (e - 52);
                 up = (2 * r > 2 ^ (e - 52) \<or> (2 * r = 2 ^ (e - 52) \<and> odd q))
             in word_of_int ((1023 + int e) * 2 ^ 52 + (q - 2 ^ 52) + (if up then 1 else 0)))"

definition intern :: "comp_env \<Rightarrow> bytes \<Rightarrow> addr comp" where
  "intern env chars s =
     (case internedString (ce_obj env) (ce_lx env) chars NEWOBJ_FLAG_NONE (cs_mem s) (cs_strings s) of
        None \<Rightarrow> None
      | Some (p, m, t) \<Rightarrow> Some (p, s\<lparr>cs_mem := m, cs_strings := t\<rparr>))"

definition intern_static :: "comp_env \<Rightarrow> bytes \<Rightarrow> addr comp" where
  "intern_static env chars =
     bnd (intern env chars) (\<lambda>p. thn (on_mem (obj_set_flag p OBJ_FLAG_USER1)) (yields p))"

definition table_get :: "comp_env \<Rightarrow> table \<Rightarrow> lxvalue \<Rightarrow> lxvalue option comp" where
  "table_get env t k = bnd (gets cs_mem) (\<lambda>m. the_val (mem_get (ce_lx env) m t k))"

definition table_set :: "comp_env \<Rightarrow> table \<Rightarrow> lxvalue \<Rightarrow> lxvalue \<Rightarrow> (bool \<times> table) comp" where
  "table_set env t k v = bnd (gets cs_mem) (\<lambda>m. the_val (mem_put (ce_lx env) m t k v))"

text \<open>makeConstant: strings that were used before keep their slot.\<close>

definition add_constant :: "comp_env \<Rightarrow> lxvalue \<Rightarrow> const_type \<Rightarrow> u32 comp" where
  "add_constant env v ctype = bnd currentIseq (\<lambda>q.
     let (constant, q1) = iseqAddConstant q v
     in thn (on_current (\<lambda>c. c\<lparr>c_iseq := q1\<rparr>))
       (if word_of_int constant > BYTECODE_MAX
        then thn (error ''Too many constants in one chunk.'') (yields 0)
        else if ctype = CONST_T_STRLIT
        then bnd current (\<lambda>c. bnd (table_set env (c_constTbl c) v (numberToValue (double_of_int constant)))
          (\<lambda>(isNew, t). thn (assume_that isNew)
             (thn (on_current (\<lambda>c. c\<lparr>c_constTbl := t\<rparr>)) (yields (word_of_int constant)))))
        else yields (word_of_int constant)))"

definition makeConstant :: "comp_env \<Rightarrow> lxvalue \<Rightarrow> const_type \<Rightarrow> u32 comp" where
  "makeConstant env v ctype =
     (if ctype = CONST_T_STRLIT
      then bnd current (\<lambda>c. bnd (table_get env (c_constTbl c) v) (\<lambda>found.
        case found of
          Some existingIdx \<Rightarrow> yields (double_to_u32 (env_d2u (ce_lx env)) (valueToNumber existingIdx))
        | None \<Rightarrow> add_constant env v ctype))
      else add_constant env v ctype)"

definition identifierConstant :: "comp_env \<Rightarrow> token \<Rightarrow> u32 comp" where
  "identifierConstant env name = bnd (intern_static env (tok_text env name))
     (\<lambda>p. makeConstant env (OBJ_VAL p) CONST_T_STRLIT)"

definition emitConstant :: "comp_env \<Rightarrow> lxvalue \<Rightarrow> const_type \<Rightarrow> iptr comp" where
  "emitConstant env v ctype = bnd (makeConstant env v ctype) (\<lambda>k. bnd (emitOp1 OP_CONSTANT k) (\<lambda>p.
     thn (whenc (ctype = CONST_T_NUMLIT)
            (on_iseq (upd_node p (\<lambda>n. n\<lparr>nd_insn := (nd_insn n)\<lparr>in_flags := in_flags (nd_insn n) OR INSN_FL_NUMBER\<rparr>\<rparr>))))
       (yields p)))"

subsection \<open>Jumps\<close>

definition emitJump :: "opcode \<Rightarrow> iptr comp" where "emitJump jumpOp = emitOp1 jumpOp 0"

definition emitBreak :: "iptr comp" where
  "emitBreak = bnd current (\<lambda>c. bnd (gets cs_loopLocalCount) (\<lambda>n.
     emitOp2 OP_BREAK 0 (word_of_int (int (length (c_locals c)) - n))))"

text \<open>insnOffset: the words from an instruction to a later one.\<close>

partial_function (option) insn_offset :: "(iptr \<Rightarrow> node option) \<Rightarrow> iptr option \<Rightarrow> iptr \<Rightarrow> int \<Rightarrow> int option" where
  "insn_offset st cur fin offset =
     (case cur of
        None \<Rightarrow> None
      | Some c \<Rightarrow>
          if c = fin then Some offset
          else (case st c of None \<Rightarrow> None
            | Some n \<Rightarrow> insn_offset st (nd_next n) fin (offset + insn_words (nd_insn n))))"

declare insn_offset.simps [code]

definition insnOffset :: "iptr \<Rightarrow> iptr \<Rightarrow> int comp" where
  "insnOffset start fin = bnd currentIseq (\<lambda>q. the_val (insn_offset (is_store q) (Some start) fin 0))"

definition get_insn :: "iptr \<Rightarrow> insn comp" where
  "get_insn p = bnd currentIseq (\<lambda>q. the_val (insn_at q p))"

definition upd_insn :: "iptr \<Rightarrow> (insn \<Rightarrow> insn) \<Rightarrow> unit comp" where
  "upd_insn p f = on_iseq (upd_node p (\<lambda>n. n\<lparr>nd_insn := f (nd_insn n)\<rparr>))"

definition set_label :: "iptr \<Rightarrow> unit comp" where
  "set_label p = upd_insn p (\<lambda>i. i\<lparr>in_isLabel := True\<rparr>)"

text \<open>patchJump: with offset -1 the jump goes behind the given instruction, or behind the last one.\<close>

definition patchJump :: "iptr \<Rightarrow> int \<Rightarrow> iptr option \<Rightarrow> unit comp" where
  "patchJump toPatch jumpoffset jumpTo0 =
     bnd (get_insn toPatch) (\<lambda>i.
     thn (assume_that (in_operands i ! 0 = 0 \<and> in_jumpTo i = None))
     (bnd currentIseq (\<lambda>q.
     bnd (the_val (if jumpoffset = - 1 \<and> jumpTo0 = None then is_tail q else jumpTo0)) (\<lambda>jumpTo.
     bnd (get_insn jumpTo) (\<lambda>j.
     bnd (if jumpoffset = - 1
          then bnd (insnOffset toPatch jumpTo) (\<lambda>d. yields (d + int (in_numOperands j)))
          else yields jumpoffset) (\<lambda>off.
     let jumpToNext = (jumpoffset = - 1 \<and> next_of q jumpTo = None)
     in seqs [
       upd_insn toPatch (\<lambda>i. i\<lparr>in_operands := (in_operands i)[0 := word_of_int off]\<rparr>),
       if jumpToNext
       then seqs [modify (\<lambda>s. s\<lparr>cs_nextInsnIsLabel := True\<rparr>),
                  upd_insn toPatch (\<lambda>i. i\<lparr>in_jumpToPrev := Some jumpTo\<rparr>)]
       else seqs [upd_insn toPatch (\<lambda>i. i\<lparr>in_jumpTo := Some jumpTo\<rparr>), set_label jumpTo]]))))))"

definition isContinue :: "insn \<Rightarrow> bool" where
  "isContinue i \<longleftrightarrow> in_code i = OP_JUMP \<and> in_flags i AND INSN_FL_CONTINUE \<noteq> 0"

text \<open>getInsnTail: so many instructions before the last one; the inner None is a null pointer.\<close>

fun tail_back :: "nat \<Rightarrow> (iptr \<Rightarrow> node option) \<Rightarrow> iptr option \<Rightarrow> iptr option option" where
  "tail_back 0 st cur = Some cur"
| "tail_back (Suc idx) st cur =
     (case cur of
        None \<Rightarrow> Some None
      | Some c \<Rightarrow> (case st c of None \<Rightarrow> None | Some n \<Rightarrow> tail_back idx st (nd_prev n)))"

definition getInsnTail :: "int \<Rightarrow> iptr option comp" where
  "getInsnTail idx = bnd currentIseq (\<lambda>q. the_val (tail_back (nat idx) (is_store q) (is_tail q)))"

text \<open>The instructions from one up to another, which the loops of patchContinuesBetween and
  patchBreaks visit; they do not change the links.\<close>

partial_function (option) insns_between :: "(iptr \<Rightarrow> node option) \<Rightarrow> iptr option \<Rightarrow> iptr option \<Rightarrow> iptr list option" where
  "insns_between st cur fin =
     (if cur = fin then Some []
      else (case cur of
          None \<Rightarrow> None
        | Some p \<Rightarrow> (case st p of None \<Rightarrow> None
            | Some n \<Rightarrow> Option.bind (insns_between st (nd_next n) fin) (\<lambda>ps. Some (p # ps)))))"

declare insns_between.simps [code]

definition between :: "iptr option \<Rightarrow> iptr option \<Rightarrow> iptr list comp" where
  "between a b = bnd currentIseq (\<lambda>q. the_val (insns_between (is_store q) a b))"

definition patch_continue :: "iptr \<Rightarrow> unit comp" where
  "patch_continue cur = bnd (get_insn cur) (\<lambda>i.
     whenc (isContinue i) (bnd (getInsnTail (in_extra i)) (\<lambda>jumpTo. seqs [
       whenc (in_extra i > 0) (bnd (the_val jumpTo) (\<lambda>j. bnd (get_insn j) (\<lambda>k. assume_that (isPopType2 k)))),
       patchJump cur (- 1) jumpTo])))"

definition patchContinuesBetween :: "iptr option \<Rightarrow> iptr option \<Rightarrow> unit comp" where
  "patchContinuesBetween a b = bnd (between a b) (\<lambda>ps. seqs (map patch_continue ps))"

text \<open>emitLoop: the jump back to the word offset loopStart - 2.\<close>

definition emitLoop :: "int \<Rightarrow> unit comp" where
  "emitLoop loopStart = bnd currentIseq (\<lambda>q.
     let offset = is_wordCount q - loopStart + 2
     in thn (whenc ((word_of_int offset :: u32) > BYTECODE_MAX) (error ''Loop body too large.''))
       (thn (assume_that (offset \<ge> 0))
       (bnd (emitOp1 OP_LOOP (word_of_int offset)) (\<lambda>p.
        bnd currentIseq (\<lambda>q1.
        bnd (the_val (insnAtOffset q1 (loopStart - 2))) (\<lambda>to.
        bnd (the_val to) (\<lambda>t. seqs [
          upd_insn p (\<lambda>i. i\<lparr>in_jumpTo := Some t\<rparr>),
          set_label t]))))))) "

definition isBreak :: "insn \<Rightarrow> bool" where "isBreak i \<longleftrightarrow> in_code i = OP_BREAK"

definition patchBreak :: "iptr \<Rightarrow> int \<Rightarrow> iptr option \<Rightarrow> unit comp" where
  "patchBreak br offset label = seqs [
     upd_insn br (\<lambda>i. i\<lparr>in_operands := (in_operands i)[0 := word_of_int offset]\<rparr>),
     (case label of Some l \<Rightarrow> set_label l | None \<Rightarrow> skip)]"

definition patch_break :: "iptr \<Rightarrow> int \<Rightarrow> iptr \<Rightarrow> unit comp" where
  "patch_break fin offset cur = bnd (get_insn cur) (\<lambda>i.
     whenc (isBreak i \<and> in_operands i ! 0 = 0)
       (thn (whenc (offset > 0) (modify (\<lambda>s. s\<lparr>cs_nextInsnIsLabel := True\<rparr>)))
       (bnd (insnOffset cur fin) (\<lambda>d.
        bnd (get_insn fin) (\<lambda>e.
        patchBreak cur (if offset > 0 then d + int (in_numOperands e) + 1 else d)
          (if offset = 0 then Some fin else None))))))"

definition patchBreaks :: "iptr \<Rightarrow> iptr \<Rightarrow> int \<Rightarrow> unit comp" where
  "patchBreaks start fin offset =
     bnd (between (Some start) (Some fin)) (\<lambda>ps. seqs (map (patch_break fin offset) ps))"

subsection \<open>Local variables\<close>

definition incrLocalCount :: "compiler \<Rightarrow> compiler" where
  "incrLocalCount c = c\<lparr>c_localCountMax := max (c_localCountMax c) (length (c_locals c))\<rparr>"

text \<open>Storing a local in the next slot and counting it.\<close>

definition add_local :: "local \<Rightarrow> compiler \<Rightarrow> compiler" where
  "add_local l c = incrLocalCount (c\<lparr>c_locals := c_locals c @ [l]\<rparr>)"

definition addLocal :: "comp_env \<Rightarrow> token \<Rightarrow> int comp" where
  "addLocal env name = bnd current (\<lambda>c.
     if length (c_locals c) \<ge> UINT8_MAX
     then thn (error ''Too many local variables'') (yields (- 1))
     else let slot = length (c_locals c); text = tok_text env name
       in thn (on_current (add_local \<lparr>l_name = text, l_depth = c_scopeDepth c, l_isUpvalue = False,
                 l_popOnScopeEnd = True\<rparr>))
          (bnd (mem_act (allocateString (ce_obj env) (copyString (c_string text))
                  (lxStringClass (oe_classes (ce_obj env))) NEWOBJ_FLAG_OLD)) (\<lambda>name.
           bnd (gets cs_curScope) (\<lambda>sc.
           thn (on_fnInfo (c_function c) (\<lambda>i. i\<lparr>fi_variables := fi_variables i @
                  [\<lparr>lv_name = name, lv_scope = sc, lv_slot = slot,
                     lv_declare_start = is_wordCount (c_iseq c)\<rparr>]\<rparr>))
           (thn (on_mem (upd_fn (c_function c) (\<lambda>f. f\<lparr>fn_variables := fn_variables f @ [name]\<rparr>)))
             (yields (int slot)))))))"

definition addFakeLocal :: "bool \<Rightarrow> int comp" where
  "addFakeLocal popOnScopeEnd = bnd current (\<lambda>c. thn (assume_that (c_scopeDepth c > 0))
     (if length (c_locals c) \<ge> UINT8_MAX
      then thn (error ''Too many local variables'') (yields (- 1))
      else thn (on_current (add_local \<lparr>l_name = map of_char ''_'', l_depth = c_scopeDepth c,
                  l_isUpvalue = False, l_popOnScopeEnd = popOnScopeEnd\<rparr>))
           (yields (int (length (c_locals c))))))"

definition pushVarSlots :: "unit comp" where "pushVarSlots = drop_val (addFakeLocal True)"

text \<open>The loop of declareVariable over the locals of the scope, the last one first.\<close>

fun declared_in_scope :: "int \<Rightarrow> bytes \<Rightarrow> local list \<Rightarrow> bool" where
  "declared_in_scope depth name [] = False"
| "declared_in_scope depth name (l # ls) =
     (if l_depth l \<noteq> - 1 \<and> l_depth l < depth then False
      else if l_name l = name then True
      else declared_in_scope depth name ls)"

definition declareVariable :: "comp_env \<Rightarrow> token \<Rightarrow> int comp" where
  "declareVariable env name = bnd current (\<lambda>c.
     if c_scopeDepth c = 0 then bnd (identifierConstant env name) (\<lambda>k. yields (sint k))
     else if declared_in_scope (c_scopeDepth c) (tok_text env name) (rev (c_locals c))
     then thn (error ''Variable with name '%s' already defined in this scope.'') (yields (- 1))
     else bnd (addLocal env name) (\<lambda>index.
       thn (whenc (index \<ge> 0)
         (bnd (intern env (c_string (tok_text env name))) (\<lambda>p.
          bnd (gets (\<lambda>s. fn_at (cs_mem s) (c_function c))) (\<lambda>fo.
          bnd (the_val fo) (\<lambda>f.
          bnd (table_set env (fn_localsTable f) (OBJ_VAL p) (numberToValue (double_of_int index))) (\<lambda>(_, t).
            on_mem (upd_fn (c_function c) (\<lambda>f. f\<lparr>fn_localsTable := t\<rparr>))))))))
       (yields index)))"

text \<open>defineVariable, with the slot or the constant; a slot outside of the array is a wild write.\<close>

definition defineVariable :: "u32 \<Rightarrow> unit comp" where
  "defineVariable arg = bnd current (\<lambda>c.
     if c_scopeDepth c = 0 then op1 OP_DEFINE_GLOBAL arg
     else seqs [assume_that (unat arg < LX_MAX_LOCALS),
       on_current (\<lambda>c. c\<lparr>c_locals := (c_locals c)[unat arg := (c_locals c ! unat arg)\<lparr>l_depth := c_scopeDepth c\<rparr>]\<rparr>)])"

text \<open>What namedVariable emits for a name that is a local or an upvalue.\<close>

definition emit_slot :: "comp_env \<Rightarrow> token \<Rightarrow> opcode \<Rightarrow> int \<Rightarrow> unit comp" where
  "emit_slot env name code arg = bnd (identifierConstant env name) (\<lambda>varNameSlot. seqs [
     op2 code (word_of_int arg) varNameSlot,
     whenc (code = OP_SET_LOCAL)
       (bnd (intern env (c_string (tok_text env name))) (\<lambda>p.
        bnd current (\<lambda>c. bnd (gets cs_mem) (\<lambda>m. bnd (gets (\<lambda>s. cs_fnInfo s (c_function c))) (\<lambda>io.
        bnd (the_val io) (\<lambda>i.
        bnd (the_val (addVarInfo (mem_put (ce_lx env) m) (fi_chunk i) (OBJ_VAL p)
               (numberToValue (double_of_int arg)))) (\<lambda>ck.
          on_fnInfo (c_function c) (\<lambda>i. i\<lparr>fi_chunk := ck\<rparr>))))))))])"

definition namedVariable :: "comp_env \<Rightarrow> token \<Rightarrow> var_op \<Rightarrow> unit comp" where
  "namedVariable env name getSet = bnd current (\<lambda>c.
     let arg = resolveLocal c (tok_text env name)
     in if arg \<noteq> - 1
        then emit_slot env name (if getSet = VAR_SET then OP_SET_LOCAL else OP_GET_LOCAL) arg
        else bnd (resolveUpvalue (tok_text env name)) (\<lambda>up.
          if up \<noteq> - 1
          then emit_slot env name (if getSet = VAR_SET then OP_SET_UPVALUE else OP_GET_UPVALUE) up
          else bnd (identifierConstant env name) (\<lambda>k.
            op1 (if getSet = VAR_SET then OP_SET_GLOBAL else OP_GET_GLOBAL) k)))"

end
