(* ===== verification/Clox_Compile.thy ===== *)
theory Clox_Compile
  imports Clox_Emit
begin

unbundle bit_operations_syntax

text \<open>The compiler (compiler.c) on the syntax tree (nodes.h): the emission of every kind of node,
  functions, classes, calls and try statements, and compile_node. Each function that emits a kind
  of node takes the actions that emit its children; emitNode puts them together.\<close>

subsection \<open>Nodes\<close>

datatype (plugins only: code) node_kind =
    BINARY_EXPR | LOGICAL_EXPR | GROUPING_EXPR | LITERAL_EXPR | ARRAY_EXPR | MAP_EXPR | INDEX_GET_EXPR
  | INDEX_SET_EXPR | UNARY_EXPR | VARIABLE_EXPR | CONSTANT_EXPR | CONSTANT_LOOKUP_EXPR | ASSIGN_EXPR
  | CALL_EXPR | CALL_BLOCK_EXPR | TO_BLOCK_EXPR | ANON_FN_EXPR | PROP_ACCESS_EXPR | PROP_SET_EXPR
  | PROP_SET_BINOP_EXPR | THIS_EXPR | SUPER_EXPR | SPLAT_EXPR | BINARY_ASSIGN_EXPR
  | EXPR_STMT | PRINT_STMT | VAR_STMT | BLOCK_STMT | IF_STMT | WHILE_STMT | FOR_STMT | FOREACH_STMT
  | CONTINUE_STMT | BREAK_STMT | FUNCTION_STMT | METHOD_STMT | CLASS_METHOD_STMT | GETTER_STMT
  | SETTER_STMT | RETURN_STMT | CLASS_STMT | MODULE_STMT | TRY_STMT | CATCH_STMT | ENSURE_STMT
  | TRY_ELSE_STMT | THROW_STMT | IN_STMT | STMTLIST_STMT | KWARG_IN_CALL_STMT
  | PARAM_NODE_REGULAR | PARAM_NODE_DEFAULT_ARG | PARAM_NODE_KWARG | PARAM_NODE_SPLAT
  | PARAM_NODE_BLOCK | TOKEN_NODE

datatype lit_kind = LIT_TYPE_NONE | NUMBER_TYPE | STRING_TYPE | STATIC_STRING_TYPE | REGEX_TYPE | NIL_TYPE
  | BOOL_TYPE | SUPER_CALL | SUPER_PROP

text \<open>A node has its kind, its literal kind, its token, its children, and as data the parameters of
  a function or the superclass of a class. NullNode is a null pointer among the children.\<close>

datatype ast = NullNode
  | Node node_kind lit_kind token "ast list" "ast list" "token option"

fun nodeKind :: "ast \<Rightarrow> node_kind option" where
  "nodeKind NullNode = None"
| "nodeKind (Node k _ _ _ _ _) = Some k"

fun node_tok :: "ast \<Rightarrow> token option" where
  "node_tok NullNode = None"
| "node_tok (Node _ _ t _ _ _) = Some t"

fun node_children :: "ast \<Rightarrow> ast list" where
  "node_children NullNode = []"
| "node_children (Node _ _ _ kids _ _) = kids"

text \<open>Names of tokens, for children that must not be null.\<close>

definition tok_of :: "ast \<Rightarrow> token comp" where "tok_of n = the_val (node_tok n)"

subsection \<open>Starting and ending a function\<close>

text \<open>fullClassNameFromCompiler joins the names of the open classes, the outermost first. Each step
  but the first makes room for one byte too many, and what it appends then stands behind that byte.\<close>

definition join_name :: "u8 \<Rightarrow> bool \<Rightarrow> bytes option \<Rightarrow> bytes \<Rightarrow> bytes" where
  "join_name garbage isLast acc buf =
     (let colons = (if isLast then [] else map of_char ''::'')
      in case acc of
           None \<Rightarrow> buf @ colons
         | Some r \<Rightarrow> c_string (r @ buf @ [garbage] @ colons))"

fun join_names :: "u8 \<Rightarrow> bytes option \<Rightarrow> bytes list \<Rightarrow> bytes" where
  "join_names garbage acc [] = (case acc of None \<Rightarrow> [] | Some r \<Rightarrow> r)"
| "join_names garbage acc (b # bs) = join_names garbage (Some (join_name garbage (bs = []) acc b)) bs"

definition fullClassName :: "comp_env \<Rightarrow> class_compiler list \<Rightarrow> bytes" where
  "fullClassName env cs =
     join_names (ce_garbage env) None (map (\<lambda>c. c_string (tok_text env (cc_name c))) (rev cs))"

definition is_method_type :: "function_type \<Rightarrow> bool" where
  "is_method_type ftype \<longleftrightarrow> ftype \<in> {FUN_TYPE_METHOD, FUN_TYPE_INIT, FUN_TYPE_GETTER, FUN_TYPE_SETTER,
     FUN_TYPE_CLASS_METHOD}"

definition new_string :: "comp_env \<Rightarrow> bytes \<Rightarrow> addr comp" where
  "new_string env text = mem_act (allocateString (ce_obj env) (copyString text)
     (lxStringClass (oe_classes (ce_obj env))) NEWOBJ_FLAG_OLD)"

definition name_function :: "comp_env \<Rightarrow> addr \<Rightarrow> bytes \<Rightarrow> unit comp" where
  "name_function env func text = bnd (new_string env text) (\<lambda>p. seqs [
     on_mem (upd_fn func (\<lambda>f. f\<lparr>fn_name := p\<rparr>)),
     on_mem (OBJ_WRITE func p)])"

definition name_by_type :: "comp_env \<Rightarrow> function_type \<Rightarrow> bytes \<Rightarrow> addr \<Rightarrow> unit comp" where
  "name_by_type env ftype funcName func =
     (if ftype = FUN_TYPE_NAMED then name_function env func funcName
      else if is_method_type ftype
      then bnd (gets cs_classes) (\<lambda>classes. bnd (gets cs_inINBlock) (\<lambda>inIN.
        thn (assume_that (classes \<noteq> [] \<or> inIN))
          (name_function env func ((if classes = [] then [] else fullClassName env classes) @
             map of_char (if ftype = FUN_TYPE_CLASS_METHOD then ''.'' else ''#'') @ funcName))))
      else if ftype = FUN_TYPE_EVAL then fails
      else whenc (ftype = FUN_TYPE_BLOCK) (on_mem (upd_fn func (\<lambda>f. f\<lparr>fn_isBlock := True\<rparr>))))"

definition new_compiler :: "addr \<Rightarrow> function_type \<Rightarrow> int \<Rightarrow> compiler" where
  "new_compiler func ftype scopeDepth = \<lparr>c_function = func, c_type = ftype, c_locals = [],
     c_upvalues = [], c_localCountMax = 0, c_scopeDepth = scopeDepth, c_iseq = initIseq,
     c_constTbl = initTable, c_hadError = False\<rparr>"

definition initCompiler :: "comp_env \<Rightarrow> int \<Rightarrow> function_type \<Rightarrow> bytes \<Rightarrow> unit comp" where
  "initCompiler env scopeDepth ftype fTok =
     bnd (mem_act (newFunction (ce_obj env) ftype NEWOBJ_FLAG_OLD)) (\<lambda>func. seqs [
       on_mem (on_gc (hideFromGC func)),
       modify (\<lambda>s. s\<lparr>cs_fnInfo := (cs_fnInfo s)(func \<mapsto> \<lparr>fi_chunk = initChunk, fi_scopes = [],
          fi_variables = [], fi_upvaluesInfo = [], fi_defaults = []\<rparr>),
          cs_comps := new_compiler func ftype scopeDepth # cs_comps s\<rparr>),
       name_by_type env ftype (c_string fTok) func,
       whenc (ftype \<noteq> FUN_TYPE_TOP_LEVEL) (seqs [
         on_current (\<lambda>c. add_local \<lparr>l_name = [], l_depth = c_scopeDepth c, l_isUpvalue = False,
            l_popOnScopeEnd = True\<rparr> c),
         whenc (is_method_type ftype) (on_mem (upd_fn func (\<lambda>f. f\<lparr>fn_hasReceiver := True\<rparr>)))])])"

definition endCompiler :: "comp_env \<Rightarrow> addr comp" where
  "endCompiler env = bnd current (\<lambda>c0.
     thn (whenc (c_type c0 = FUN_TYPE_TOP_LEVEL \<or> c_type c0 = FUN_TYPE_EVAL) emitLeave)
     (bnd current (\<lambda>c.
      bnd (gets (\<lambda>s. cs_fnInfo s (c_function c))) (\<lambda>io.
      bnd (the_val io) (\<lambda>i.
      bnd (the_val (Option.bind (copyIseqToChunk (ce_fpu env) (ce_noOptimize env) (ce_noRemove env)
             (c_iseq c) (fi_chunk i)) id)) (\<lambda>ck.
      thn (on_fnInfo (c_function c) (\<lambda>i. i\<lparr>fi_chunk := ck\<rparr>))
      (thn (on_mem (upd_fn (c_function c) (\<lambda>f. f\<lparr>fn_localCount := int (c_localCountMax c)\<rparr>)))
      (thn (modify (\<lambda>s. s\<lparr>cs_comps := tl (cs_comps s)\<rparr>))
        (yields (c_function c))))))))))"

subsection \<open>Children\<close>

definition emitChildren :: "unit comp list \<Rightarrow> unit comp" where
  "emitChildren ms = bnd (gets cs_nodeWidth) (\<lambda>lastWidth. seqs [
     modify (\<lambda>s. s\<lparr>cs_nodeDepth := cs_nodeDepth s + 1, cs_nodeWidth := 0\<rparr>),
     seqs ms,
     modify (\<lambda>s. s\<lparr>cs_nodeDepth := cs_nodeDepth s - 1, cs_nodeWidth := lastWidth\<rparr>)])"

text \<open>The child at an index, which must be there.\<close>

definition child :: "'a list \<Rightarrow> nat \<Rightarrow> 'a comp" where
  "child ms i = the_val (if i < length ms then Some (ms ! i) else None)"

definition emit_child :: "unit comp list \<Rightarrow> nat \<Rightarrow> unit comp" where
  "emit_child ms i = (if i < length ms then ms ! i else fails)"

subsection \<open>Expressions\<close>

definition binary_code :: "token_type \<Rightarrow> opcode option" where
  "binary_code t = (case t of
       TOKEN_PLUS \<Rightarrow> Some OP_ADD | TOKEN_MINUS \<Rightarrow> Some OP_SUBTRACT | TOKEN_STAR \<Rightarrow> Some OP_MULTIPLY
     | TOKEN_SLASH \<Rightarrow> Some OP_DIVIDE | TOKEN_PERCENT \<Rightarrow> Some OP_MODULO | TOKEN_LESS \<Rightarrow> Some OP_LESS
     | TOKEN_LESS_EQUAL \<Rightarrow> Some OP_LESS_EQUAL | TOKEN_GREATER \<Rightarrow> Some OP_GREATER
     | TOKEN_GREATER_EQUAL \<Rightarrow> Some OP_GREATER_EQUAL | TOKEN_EQUAL_EQUAL \<Rightarrow> Some OP_EQUAL
     | TOKEN_BANG_EQUAL \<Rightarrow> Some OP_NOT_EQUAL | TOKEN_PIPE \<Rightarrow> Some OP_BITOR | TOKEN_AMP \<Rightarrow> Some OP_BITAND
     | TOKEN_CARET \<Rightarrow> Some OP_BITXOR | TOKEN_SHOVEL_L \<Rightarrow> Some OP_SHOVEL_L
     | TOKEN_SHOVEL_R \<Rightarrow> Some OP_SHOVEL_R | _ \<Rightarrow> None)"

definition emitBinaryOp :: "token \<Rightarrow> unit comp" where
  "emitBinaryOp tok = bnd (the_val (binary_code (tk_type tok))) op0"

definition emit_binary :: "comp_env \<Rightarrow> token \<Rightarrow> bool \<Rightarrow> unit comp list \<Rightarrow> ast list \<Rightarrow> unit comp" where
  "emit_binary env tok isAssign ms kids = seqs [emitChildren ms, emitBinaryOp tok,
     whenc isAssign (bnd (child kids 0) (\<lambda>v. bnd (tok_of v) (\<lambda>t. namedVariable env t VAR_SET)))]"

text \<open>A logical operator: the jump over the right side goes to the instruction for the operator.\<close>

definition emit_logical_with :: "opcode \<Rightarrow> opcode \<Rightarrow> unit comp \<Rightarrow> unit comp \<Rightarrow> unit comp" where
  "emit_logical_with jumpCode code lhs rhs =
     thn lhs (bnd (emitJump jumpCode) (\<lambda>skipRhsJump. seqs [rhs, op0 code,
       bnd currentIseq (\<lambda>q. bnd (the_val (is_tail q)) (\<lambda>t. bnd (insnOffset skipRhsJump t) (\<lambda>d.
         patchJump skipRhsJump d (Some t))))]))"

definition emit_logical :: "token \<Rightarrow> unit comp \<Rightarrow> unit comp \<Rightarrow> unit comp" where
  "emit_logical tok lhs rhs =
     (if tk_type tok = TOKEN_AND then emit_logical_with OP_JUMP_IF_FALSE_PEEK OP_AND lhs rhs
      else if tk_type tok = TOKEN_OR then emit_logical_with OP_JUMP_IF_TRUE_PEEK OP_OR lhs rhs
      else fails)"

definition emit_unary :: "token \<Rightarrow> unit comp \<Rightarrow> unit comp" where
  "emit_unary tok operand = thn operand
     (if tk_type tok = TOKEN_MINUS then op0 OP_NEGATE
      else if tk_type tok = TOKEN_BANG then op0 OP_NOT else fails)"

text \<open>strtol on digits: the number of the longest prefix, at most LONG_MAX.\<close>

definition digit_of :: "u8 \<Rightarrow> int" where
  "digit_of c = (if 48 \<le> c \<and> c \<le> 57 then uint c - 48 else 99)"

fun digits_val :: "int \<Rightarrow> int \<Rightarrow> bytes \<Rightarrow> int" where
  "digits_val base acc [] = acc"
| "digits_val base acc (c # cs) =
     (if digit_of c < base then digits_val base (acc * base + digit_of c) cs else acc)"

definition strtol :: "int \<Rightarrow> bytes \<Rightarrow> int" where
  "strtol base cs = min (2 ^ 63 - 1) (digits_val base 0 cs)"

definition is_prefix_char :: "bytes \<Rightarrow> string \<Rightarrow> bool" where
  "is_prefix_char t cs \<longleftrightarrow> length t \<ge> 2 \<and> t ! 0 = of_char (CHR ''0'') \<and> t ! 1 \<in> set (map of_char cs)"

definition number_value :: "comp_env \<Rightarrow> bytes \<Rightarrow> lxvalue" where
  "number_value env numStr = numberToValue
     (if is_prefix_char numStr ''cC'' then double_of_int (strtol 8 (drop 2 numStr))
      else if is_prefix_char numStr ''xX'' then ce_strtod env numStr
      else if is_prefix_char numStr ''bB'' then double_of_int (strtol 2 (drop 2 numStr))
      else ce_strtod env numStr)"

definition numberLiteral :: "comp_env \<Rightarrow> token \<Rightarrow> unit comp" where
  "numberLiteral env tok =
     drop_val (emitConstant env (number_value env (c_string (tok_text env tok))) CONST_T_NUMLIT)"

definition string_constant :: "comp_env \<Rightarrow> token \<Rightarrow> u32 comp" where
  "string_constant env tok = bnd (intern_static env (tok_text env tok))
     (\<lambda>p. makeConstant env (OBJ_VAL p) CONST_T_STRLIT)"

definition emit_literal :: "comp_env \<Rightarrow> token \<Rightarrow> lit_kind \<Rightarrow> unit comp" where
  "emit_literal env tok lit =
     (if tk_type tok = TOKEN_NUMBER then numberLiteral env tok
      else if lit = REGEX_TYPE then bnd (string_constant env tok) (op1 OP_REGEX)
      else if tk_type tok = TOKEN_STRING_SQUOTE \<or> tk_type tok = TOKEN_STRING_DQUOTE
      then bnd (string_constant env tok) (\<lambda>k. op2 OP_STRING k 0)
      else if tk_type tok = TOKEN_STRING_STATIC then bnd (string_constant env tok) (\<lambda>k. op2 OP_STRING k 1)
      else if tk_type tok = TOKEN_TRUE then op0 OP_TRUE
      else if tk_type tok = TOKEN_FALSE then op0 OP_FALSE
      else if tk_type tok = TOKEN_NIL then op0 OP_NIL
      else fails)"

text \<open>Arrays and maps of literals become constants. Of others, the children are reversed in the tree
  and then emitted; emits is how often the node has been emitted before.\<close>

definition reversed :: "nat \<Rightarrow> 'a list \<Rightarrow> 'a list" where
  "reversed emits xs = (if even emits then rev xs else xs)"

fun valueFromConstNode :: "comp_env \<Rightarrow> ast \<Rightarrow> lxvalue option" where
  "valueFromConstNode env NullNode = None"
| "valueFromConstNode env (Node k lit tok kids params super) =
     (if k \<noteq> LITERAL_EXPR then None
      else case tk_type tok of
          TOKEN_NUMBER \<Rightarrow> Some (number_value env (c_string (tok_text env tok)))
        | TOKEN_TRUE \<Rightarrow> Some TRUE_VAL | TOKEN_FALSE \<Rightarrow> Some FALSE_VAL | TOKEN_NIL \<Rightarrow> Some NIL_VAL
        | _ \<Rightarrow> None)"

definition isConstExprNodeCanEmbed :: "comp_env \<Rightarrow> ast \<Rightarrow> bool" where
  "isConstExprNodeCanEmbed env n \<longleftrightarrow> valueFromConstNode env n \<noteq> None"

definition emit_array :: "comp_env \<Rightarrow> nat \<Rightarrow> unit comp list \<Rightarrow> ast list \<Rightarrow> unit comp" where
  "emit_array env emits ms kids =
     (if length kids \<ge> UINT8_MAX then error ''Too many elements in array literal''
      else if \<not> list_all (isConstExprNodeCanEmbed env) kids
      then seqs [emitChildren (reversed emits ms), op1 OP_ARRAY (of_nat (length kids))]
      else bnd (mem_act (newArrayConstant (ce_obj env))) (\<lambda>ary. seqs [
        on_mem (on_gc (hideFromGC ary)),
        seqs (map (\<lambda>n. bnd (the_val (valueFromConstNode env n)) (\<lambda>v.
                mem_act (\<lambda>m. map_option (Pair ()) (push_constant ary v m)))) kids),
        bnd (makeConstant env (OBJ_VAL ary) CONST_T_ARYLIT) (op1 OP_DUPARRAY)]))"

fun node_pairs :: "ast list \<Rightarrow> (ast \<times> ast) list" where
  "node_pairs (k # v # ns) = (k, v) # node_pairs ns"
| "node_pairs _ = []"

definition emit_map :: "comp_env \<Rightarrow> nat \<Rightarrow> unit comp list \<Rightarrow> ast list \<Rightarrow> unit comp" where
  "emit_map env emits ms kids = thn (assume_that (even (length kids)))
     (if length kids \<ge> UINT8_MAX then error ''Too many key-value pairs in map literal''
      else if \<not> list_all (isConstExprNodeCanEmbed env) kids
      then seqs [emitChildren (reversed emits ms), op1 OP_MAP (of_nat (length kids))]
      else bnd (mem_act (newMapConstant (ce_obj env))) (\<lambda>mp. seqs [
        on_mem (on_gc (hideFromGC mp)),
        seqs (map (\<lambda>(k, v). bnd (the_val (valueFromConstNode env k)) (\<lambda>kv.
                bnd (the_val (valueFromConstNode env v)) (\<lambda>vv.
                mem_act (\<lambda>m. map_option (Pair ()) (mapSet (ce_lx env) mp kv vv m))))) (node_pairs kids)),
        bnd (makeConstant env (OBJ_VAL mp) CONST_T_MAPLIT) (op1 OP_DUPMAP)]))"

definition emit_assign :: "comp_env \<Rightarrow> unit comp \<Rightarrow> ast \<Rightarrow> unit comp" where
  "emit_assign env rval varNode = thn rval (bnd (tok_of varNode) (\<lambda>t.
     if nodeKind varNode = Some CONSTANT_EXPR
     then bnd (identifierConstant env t) (op1 OP_SET_CONST)
     else namedVariable env t VAR_SET))"

definition emit_constant_lookup :: "comp_env \<Rightarrow> token \<Rightarrow> unit comp list \<Rightarrow> unit comp" where
  "emit_constant_lookup env tok ms = seqs [
     if ms \<noteq> [] then emitChildren ms else op0 OP_NIL,
     bnd (identifierConstant env tok) (op1 OP_GET_CONST_UNDER)]"

text \<open>obj.prop op= value: the object is emitted twice.\<close>

definition emit_prop_set_binop ::
    "comp_env \<Rightarrow> token \<Rightarrow> unit comp \<Rightarrow> unit comp \<Rightarrow> unit comp \<Rightarrow> token \<Rightarrow> unit comp" where
  "emit_prop_set_binop env tok obj propGet val propTok = seqs [obj, propGet, val, emitBinaryOp tok,
     bnd (identifierConstant env propTok) (op1 OP_PROP_SET)]"

subsection \<open>Statements\<close>

definition emit_if :: "unit comp \<Rightarrow> unit comp \<Rightarrow> unit comp option \<Rightarrow> unit comp" where
  "emit_if cond thenBranch elseBranch =
     thn cond (bnd (emitJump OP_JUMP_IF_FALSE) (\<lambda>ifJumpStart. seqs [
       pushScope COMPILE_SCOPE_IF,
       thenBranch,
       (case elseBranch of
          None \<Rightarrow> patchJump ifJumpStart (- 1) None
        | Some e \<Rightarrow> bnd (emitJump OP_JUMP) (\<lambda>elseJump. seqs [
            patchJump ifJumpStart (- 1) None, e, patchJump elseJump (- 1) None])),
       popScope COMPILE_SCOPE_IF]))"

text \<open>The block of a loop, which changes the kind of loop and the count of locals for a while.\<close>

definition in_loop :: "loop_type \<Rightarrow> unit comp \<Rightarrow> unit comp \<Rightarrow> unit comp" where
  "in_loop lt prologue block =
     bnd (gets cs_curLoopType) (\<lambda>oldLoopType.
     thn (modify (\<lambda>s. s\<lparr>cs_curLoopType := lt\<rparr>))
     (thn prologue
     (bnd current (\<lambda>c.
     bnd (gets cs_loopLocalCount) (\<lambda>oldLoopLocalCount. seqs [
       modify (\<lambda>s. s\<lparr>cs_loopLocalCount := int (length (c_locals c))\<rparr>),
       block,
       modify (\<lambda>s. s\<lparr>cs_loopLocalCount := oldLoopLocalCount\<rparr>),
       modify (\<lambda>s. s\<lparr>cs_curLoopType := oldLoopType\<rparr>)])))))"

definition emit_while :: "unit comp \<Rightarrow> unit comp \<Rightarrow> unit comp" where
  "emit_while cond block =
     bnd (gets cs_loopStart) (\<lambda>oldLoopStart.
     bnd (gets cs_breakBlock) (\<lambda>oldBreakBlock.
     thn (modify (\<lambda>s. s\<lparr>cs_breakBlock := False\<rparr>))
     (bnd currentIseq (\<lambda>q0.
     thn (modify (\<lambda>s. s\<lparr>cs_loopStart := is_wordCount q0 + 2\<rparr>))
     (thn cond
     (bnd currentIseq (\<lambda>q1.
     let loopLabel = (case is_tail q0 of Some l \<Rightarrow> next_of q1 l | None \<Rightarrow> is_tail q1)
     in bnd (emitJump OP_JUMP_IF_FALSE) (\<lambda>whileJumpStart.
     thn (set_label whileJumpStart)
     (thn (in_loop LOOP_T_WHILE (pushScope COMPILE_SCOPE_WHILE) block)
     (bnd (the_val loopLabel) (\<lambda>l.
     thn (seqs [
       upd_insn l (\<lambda>i. i\<lparr>in_jumpTo := Some whileJumpStart\<rparr>),
       set_label whileJumpStart,
       bnd (gets cs_loopStart) emitLoop,
       patchJump whileJumpStart (- 1) None])
     (bnd currentIseq (\<lambda>q2.
     bnd (the_val (is_tail q2)) (\<lambda>t. seqs [
       patchBreaks whileJumpStart t 1,
       modify (\<lambda>s. s\<lparr>cs_loopStart := oldLoopStart, cs_breakBlock := oldBreakBlock\<rparr>),
       popScope COMPILE_SCOPE_WHILE]))))))))))))))"

definition emit_for ::
    "unit comp option \<Rightarrow> unit comp option \<Rightarrow> unit comp option \<Rightarrow> unit comp \<Rightarrow> unit comp" where
  "emit_for init test incrExpr forBlock =
     thn (pushScope COMPILE_SCOPE_FOR)
     (thn (case init of Some m \<Rightarrow> m | None \<Rightarrow> skip)
     (bnd (gets cs_loopStart) (\<lambda>oldLoopStart.
     bnd (gets cs_breakBlock) (\<lambda>oldBreakBlock.
     bnd currentIseq (\<lambda>q0.
     let beforeTest = is_wordCount q0 + 2
     in thn (modify (\<lambda>s. s\<lparr>cs_loopStart := beforeTest\<rparr>))
     (thn (case test of Some m \<Rightarrow> m | None \<Rightarrow> op0 OP_TRUE)
     (bnd (emitJump OP_JUMP_IF_FALSE) (\<lambda>forJump.
     thn (seqs [
       in_loop LOOP_T_FOR skip forBlock,
       (case incrExpr of Some m \<Rightarrow> m | None \<Rightarrow> skip),
       emitLoop beforeTest,
       patchJump forJump (- 1) None])
     (bnd currentIseq (\<lambda>q1.
     bnd (the_val (is_tail q1)) (\<lambda>t. seqs [
       patchBreaks forJump t 2,
       modify (\<lambda>s. s\<lparr>cs_loopStart := oldLoopStart, cs_breakBlock := oldBreakBlock\<rparr>),
       popScope COMPILE_SCOPE_FOR])))))))))))"

fun declare_vars :: "comp_env \<Rightarrow> token list \<Rightarrow> u32 list comp" where
  "declare_vars env [] = yields []"
| "declare_vars env (t # ts) = bnd (declareVariable env t) (\<lambda>slot.
     bnd (declare_vars env ts) (\<lambda>slots. yields (ucast (word_of_int slot :: u8) # slots)))"

fun set_vars :: "comp_env \<Rightarrow> bool \<Rightarrow> nat \<Rightarrow> (u32 \<times> token) list \<Rightarrow> unit comp" where
  "set_vars env unpack slotIdx [] = skip"
| "set_vars env unpack slotIdx ((slotNum, name) # vs) = bnd (identifierConstant env name) (\<lambda>nameIdx. seqs [
     if unpack then op3 OP_UNPACK_SET_LOCAL slotNum (of_nat slotIdx) nameIdx else op2 OP_SET_LOCAL slotNum nameIdx,
     set_vars env unpack (slotIdx + 1) vs])"

definition emit_foreach :: "comp_env \<Rightarrow> token list \<Rightarrow> unit comp \<Rightarrow> unit comp \<Rightarrow> unit comp" where
  "emit_foreach env vars iter block =
     (let numVars = length vars
      in thn (seqs [pushScope COMPILE_SCOPE_FOREACH, pushVarSlots, whenc (numVars > 1) pushVarSlots])
     (bnd (declare_vars env vars) (\<lambda>slots.
     thn (seqs [iter, op0 OP_ITER])
     (bnd currentIseq (\<lambda>q0.
     let beforeIterNext = is_wordCount q0 + 2
     in thn (op0 OP_ITER_NEXT)
     (bnd (emitJump OP_JUMP_IF_FALSE_PEEK) (\<lambda>iterDone.
     thn (set_vars env (numVars > 1) 0 (zip slots vars))
     (bnd currentIseq (\<lambda>q1.
     thn (in_loop LOOP_T_FOREACH skip block)
     (bnd currentIseq (\<lambda>q2.
     thn (seqs [
       patchContinuesBetween (is_tail q1) (is_tail q2),
       whenc (numVars = 1) (op0 OP_POP),
       whenc (numVars > 1) (seqs (replicate numVars (op0 OP_POP) @ [op0 OP_POP])),
       emitLoop beforeIterNext,
       popScope COMPILE_SCOPE_FOREACH,
       patchJump iterDone (- 1) None,
       op0 OP_POP])
     (bnd currentIseq (\<lambda>q3.
     bnd (the_val (is_tail q1)) (\<lambda>start.
     bnd (the_val (is_tail q3)) (\<lambda>t. seqs [patchBreaks start t 0, op0 OP_POP])))))))))))))))"

definition emit_break :: "unit comp" where
  "emit_break = bnd (gets cs_curLoopType) (\<lambda>lt.
     if lt = LOOP_T_NONE
     then error ''break can only be used in loops (while, for, foreach loops) and blocks''
     else if lt = LOOP_T_BLOCK then op0 OP_BLOCK_BREAK
     else drop_val emitBreak)"

definition emit_continue :: "unit comp" where
  "emit_continue = bnd (gets cs_curLoopType) (\<lambda>lt.
     if lt = LOOP_T_NONE
     then error ''continue can only be used in loops (while, for, foreach loops) and blocks''
     else if lt = LOOP_T_BLOCK
     then bnd current (\<lambda>c. bnd (gets (\<lambda>s. cs_fnInfo s (c_function c))) (\<lambda>io. bnd (the_val io) (\<lambda>i. seqs [
       whenc (ck_count (fi_chunk i) = 0) (seqs [op0 OP_NIL, op0 OP_POP]),
       op0 OP_BLOCK_CONTINUE])))
     else if lt = LOOP_T_FOREACH
     then bnd (emitJump OP_JUMP) (\<lambda>p. bnd current (\<lambda>c. bnd (gets cs_loopLocalCount) (\<lambda>n.
       upd_insn p (\<lambda>i. i\<lparr>in_flags := INSN_FL_CONTINUE, in_extra := int (length (c_locals c)) - n\<rparr>))))
     else bnd (gets cs_loopStart) emitLoop)"

text \<open>The loop of a var statement over its names.\<close>

fun emit_vars :: "comp_env \<Rightarrow> bool \<Rightarrow> nat \<Rightarrow> token list \<Rightarrow> unit comp" where
  "emit_vars env single slotIdx [] = skip"
| "emit_vars env single slotIdx (t # ts) = bnd (declareVariable env t) (\<lambda>arg.
     if arg = - 1 then skip
     else bnd current (\<lambda>c. seqs [
       (if c_scopeDepth c = 0
        then (if single then op1 OP_DEFINE_GLOBAL (word_of_int arg)
              else op2 OP_UNPACK_DEFINE_GLOBAL (word_of_int arg) (of_nat slotIdx))
        else bnd (identifierConstant env t) (\<lambda>k.
          if single then op2 OP_SET_LOCAL (word_of_int arg) k
          else op3 OP_UNPACK_SET_LOCAL (word_of_int arg) (of_nat slotIdx) k)),
       emit_vars env single (slotIdx + 1) ts]))"

definition emit_var :: "comp_env \<Rightarrow> token \<Rightarrow> unit comp list \<Rightarrow> ast list \<Rightarrow> unit comp" where
  "emit_var env tok ms kids =
     (let uninitialized = (kids = [] \<or> nodeKind (last kids) = Some VAR_STMT);
          numVarsSet = (if uninitialized then 1 else length kids)
      in if \<not> list_all (\<lambda>n. node_tok n \<noteq> None) kids then fails
      else seqs [
        if uninitialized then emitNil else last ms,
        bnd current (\<lambda>c. whenc (numVarsSet > 1 \<and> c_scopeDepth c > 0) pushVarSlots),
        emit_vars env (numVarsSet = 1 \<or> uninitialized) 0
          (tok # map (\<lambda>n. the (node_tok n)) (take (numVarsSet - 1) kids))])"

definition emit_block :: "unit comp list \<Rightarrow> unit comp" where
  "emit_block ms = seqs [pushScope COMPILE_SCOPE_BLOCK, emitChildren ms, popScope COMPILE_SCOPE_BLOCK]"

definition emit_return :: "unit comp list \<Rightarrow> unit comp" where
  "emit_return ms = bnd current (\<lambda>c. bnd (gets cs_breakBlock) (\<lambda>breakBlock.
     if ms \<noteq> [] then seqs [
       if c_type c = FUN_TYPE_INIT then op0 OP_GET_THIS else emitChildren ms,
       if breakBlock then seqs [assume_that (c_type c = FUN_TYPE_BLOCK), op0 OP_BLOCK_RETURN]
       else op0 OP_RETURN]
     else if breakBlock then seqs [op0 OP_NIL, op0 OP_BLOCK_RETURN]
     else if c_type c = FUN_TYPE_BLOCK then op0 OP_BLOCK_CONTINUE
     else emitReturn c))"

end
