(* ===== verification/Clox_Emit_Node.thy ===== *)
theory Clox_Emit_Node
  imports Clox_Compile
begin

unbundle bit_operations_syntax

text \<open>The compiler, second part (compiler.c): functions and their parameters, classes and modules,
  calls, try statements, and the traversal of the tree that composes all parts. compile_node is the
  entry point for a whole program.\<close>

subsection \<open>Functions\<close>

text \<open>A parameter as emitFunction sees it: its kind, its token, whether an offset has been noted in
  it before, and the actions of its children.\<close>

record param =
  pa_kind :: "node_kind option"
  pa_tok :: token
  pa_noted :: bool
  pa_kids :: "unit comp list"

definition on_function :: "addr \<Rightarrow> (obj_function \<Rightarrow> obj_function) \<Rightarrow> unit comp" where
  "on_function p f = on_mem (upd_fn p f)"

text \<open>Declaring a parameter. A slot of type uint8_t loses the upper bits of the result.\<close>

definition declare_param :: "comp_env \<Rightarrow> token \<Rightarrow> u32 comp" where
  "declare_param env t = bnd (declareVariable env t) (\<lambda>slot.
     let localSlot = ucast (word_of_int slot :: u8)
     in thn (defineVariable localSlot) (yields localSlot))"

definition regular_param :: "comp_env \<Rightarrow> addr \<Rightarrow> param \<Rightarrow> unit comp" where
  "regular_param env func p = whenc (pa_kind p = Some PARAM_NODE_REGULAR)
     (bnd (declareVariable env (pa_tok p)) (\<lambda>slot. seqs [
       defineVariable (word_of_int slot),
       on_function func (\<lambda>f. f\<lparr>fn_arity := fn_arity f + 1\<rparr>)]))"

definition default_param :: "comp_env \<Rightarrow> addr \<Rightarrow> param \<Rightarrow> unit comp" where
  "default_param env func p = bnd (declare_param env (pa_tok p)) (\<lambda>localSlot.
     thn (on_function func (\<lambda>f. f\<lparr>fn_numDefaultArgs := fn_numDefaultArgs f + 1\<rparr>))
     (bnd currentIseq (\<lambda>q0.
     thn (emit_child (pa_kids p) 0)
     (bnd (identifierConstant env (pa_tok p)) (\<lambda>k.
     thn (seqs [op2 OP_SET_LOCAL localSlot k, op0 OP_POP])
     (bnd currentIseq (\<lambda>q1.
     bnd (the_val (is_tail q1)) (\<lambda>insnAfter.
     bnd (the_val (iseqInsnWordDiff q1 (is_tail q0) insnAfter)) (\<lambda>codeDiff. seqs [
       assume_that (\<not> pa_noted p),
       on_fnInfo func (\<lambda>i. i\<lparr>fi_defaults := fi_defaults i @ [codeDiff]\<rparr>)])))))))))"

definition kwarg_param :: "comp_env \<Rightarrow> addr \<Rightarrow> nat \<Rightarrow> param \<Rightarrow> unit comp" where
  "kwarg_param env func numParams p = bnd (declare_param env (pa_tok p)) (\<lambda>localSlot.
     thn (op2 OP_CHECK_KEYWORD localSlot (of_nat (numParams + 1)))
     (thn (on_function func (\<lambda>f. f\<lparr>fn_numKwargs := fn_numKwargs f + 1\<rparr>))
     (bnd (emitJump OP_JUMP_IF_TRUE) (\<lambda>ifJumpStart.
     thn (emitChildren (pa_kids p))
     (bnd (identifierConstant env (pa_tok p)) (\<lambda>k. seqs [
       op2 OP_SET_LOCAL localSlot k, op0 OP_POP, patchJump ifJumpStart (- 1) None]))))))"

definition other_param :: "comp_env \<Rightarrow> addr \<Rightarrow> nat \<Rightarrow> param \<Rightarrow> unit comp" where
  "other_param env func numParams p =
     (case pa_kind p of
        Some PARAM_NODE_DEFAULT_ARG \<Rightarrow> default_param env func p
      | Some PARAM_NODE_SPLAT \<Rightarrow> thn (drop_val (declare_param env (pa_tok p)))
          (on_function func (\<lambda>f. f\<lparr>fn_hasRestArg := True\<rparr>))
      | Some PARAM_NODE_KWARG \<Rightarrow> kwarg_param env func numParams p
      | Some PARAM_NODE_BLOCK \<Rightarrow> thn (drop_val (declare_param env (pa_tok p)))
          (on_function func (\<lambda>f. f\<lparr>fn_hasBlockArg := True\<rparr>))
      | Some PARAM_NODE_REGULAR \<Rightarrow> skip
      | _ \<Rightarrow> fails)"

definition emit_params :: "comp_env \<Rightarrow> addr \<Rightarrow> param list \<Rightarrow> unit comp" where
  "emit_params env func params = seqs [
     seqs (map (regular_param env func) params),
     seqs (map (other_param env func (length params)) params),
     whenc (list_ex (\<lambda>p. pa_kind p = Some PARAM_NODE_KWARG) params) (drop_val (addFakeLocal True))]"

text \<open>The body, in which breaks and returns are those of a block.\<close>

definition emit_body :: "function_type \<Rightarrow> unit comp list \<Rightarrow> unit comp" where
  "emit_body ftype ms =
     bnd (gets cs_breakBlock) (\<lambda>oldBreakBlock.
     thn (whenc (ftype = FUN_TYPE_BLOCK)
            (modify (\<lambda>s. s\<lparr>cs_blockDepth := cs_blockDepth s + 1, cs_breakBlock := True\<rparr>)))
     (bnd (gets cs_curLoopType) (\<lambda>oldLoopType. seqs [
       modify (\<lambda>s. s\<lparr>cs_curLoopType := LOOP_T_BLOCK\<rparr>),
       emitChildren ms,
       modify (\<lambda>s. s\<lparr>cs_curLoopType := oldLoopType\<rparr>),
       whenc (ftype = FUN_TYPE_BLOCK)
         (modify (\<lambda>s. s\<lparr>cs_blockDepth := cs_blockDepth s - 1, cs_breakBlock := oldBreakBlock\<rparr>))])))"

text \<open>The words that tell the closure instruction what to capture are emitted as instructions.\<close>

definition emit_upvalue :: "upvalue \<Rightarrow> unit comp" where
  "emit_upvalue u = seqs [
     op0 (opcode_of (if uv_isLocal u then 1 else 0)),
     op0 (opcode_of (ucast (uv_index u)))]"

definition bind_function :: "comp_env \<Rightarrow> token \<Rightarrow> function_type \<Rightarrow> unit comp" where
  "bind_function env tok ftype =
     bnd (gets cs_classes) (\<lambda>classes. bnd (gets cs_inINBlock) (\<lambda>inIN.
       if (classes = [] \<and> \<not> inIN) \<or> ftype = FUN_TYPE_NAMED
       then seqs [namedVariable env tok VAR_SET, op0 OP_POP]
       else bnd (the_val (case ftype of
                FUN_TYPE_METHOD \<Rightarrow> Some OP_METHOD | FUN_TYPE_INIT \<Rightarrow> Some OP_METHOD
              | FUN_TYPE_CLASS_METHOD \<Rightarrow> Some OP_CLASS_METHOD | FUN_TYPE_GETTER \<Rightarrow> Some OP_GETTER
              | FUN_TYPE_SETTER \<Rightarrow> Some OP_SETTER | _ \<Rightarrow> None)) (\<lambda>code.
         bnd (identifierConstant env tok) (op1 code))))"

text \<open>emitFunction. Declaring parameters is done with the compiler of the new function as the
  current one; it has gone when the closure is emitted.\<close>

definition emitFunction ::
    "comp_env \<Rightarrow> token \<Rightarrow> function_type \<Rightarrow> param list \<Rightarrow> unit comp list \<Rightarrow> addr comp" where
  "emitFunction env tok ftype params body =
     (let stype = (if ftype = FUN_TYPE_TOP_LEVEL then COMPILE_SCOPE_MAIN else COMPILE_SCOPE_FUNCTION)
      in bnd current (\<lambda>c.
     thn (initCompiler env (c_scopeDepth c) ftype (tok_text env tok))
     (thn (pushScope stype)
     (bnd current (\<lambda>fc.
     thn (seqs [emit_params env (c_function fc) params, emit_body ftype body, popScope stype])
     (bnd current (\<lambda>fCompiler.
     bnd (endCompiler env) (\<lambda>func.
     thn (whenc (ftype \<noteq> FUN_TYPE_BLOCK)
            (bnd (makeConstant env (OBJ_VAL func) CONST_T_CODE) (op1 OP_CLOSURE)))
     (thn (whenc (ftype \<noteq> FUN_TYPE_BLOCK) (seqs (map emit_upvalue (c_upvalues fCompiler))))
     (thn (on_fnInfo func (\<lambda>i. i\<lparr>fi_upvaluesInfo := c_upvalues fCompiler\<rparr>))
     (thn (whenc (\<not> (ftype = FUN_TYPE_TOP_LEVEL \<or> ftype = FUN_TYPE_BLOCK \<or> ftype = FUN_TYPE_ANON))
            (bind_function env tok ftype))
       (yields func))))))))))))"

subsection \<open>Classes and modules\<close>

definition with_class :: "class_compiler \<Rightarrow> unit comp \<Rightarrow> unit comp" where
  "with_class cc m = bnd (gets cs_classes) (\<lambda>enclosing. seqs [
     modify (\<lambda>s. s\<lparr>cs_classes := cc # cs_classes s\<rparr>), m,
     modify (\<lambda>s. s\<lparr>cs_classes := enclosing\<rparr>)])"

definition emitClass :: "comp_env \<Rightarrow> token \<Rightarrow> token option \<Rightarrow> unit comp list \<Rightarrow> unit comp" where
  "emitClass env tok superClassTok ms = bnd (identifierConstant env tok) (\<lambda>nameConstant.
     with_class \<lparr>cc_name = tok, cc_hasSuperclass = superClassTok \<noteq> None, cc_isModule = False\<rparr> (seqs [
       pushScope COMPILE_SCOPE_CLASS,
       (case superClassTok of
          Some t \<Rightarrow> seqs [namedVariable env t VAR_GET, op1 OP_SUBCLASS nameConstant]
        | None \<Rightarrow> op1 OP_CLASS nameConstant),
       drop_val (addFakeLocal False),
       emitChildren ms,
       popScope COMPILE_SCOPE_CLASS,
       op0 OP_POP_CREF]))"

definition emitModule :: "comp_env \<Rightarrow> token \<Rightarrow> unit comp list \<Rightarrow> unit comp" where
  "emitModule env tok ms = bnd (identifierConstant env tok) (\<lambda>nameConstant.
     with_class \<lparr>cc_name = tok, cc_hasSuperclass = False, cc_isModule = True\<rparr> (seqs [
       op1 OP_MODULE nameConstant,
       pushScope COMPILE_SCOPE_MODULE,
       emitChildren ms,
       popScope COMPILE_SCOPE_MODULE,
       op0 OP_POP_CREF]))"

definition emitIn :: "unit comp \<Rightarrow> unit comp \<Rightarrow> unit comp" where
  "emitIn obj block = bnd (gets cs_inINBlock) (\<lambda>oldIn. seqs [
     obj,
     op0 OP_IN,
     modify (\<lambda>s. s\<lparr>cs_inINBlock := True\<rparr>),
     pushScope COMPILE_SCOPE_IN,
     block,
     popScope COMPILE_SCOPE_IN,
     op0 OP_POP,
     modify (\<lambda>s. s\<lparr>cs_inINBlock := oldIn\<rparr>)])"

definition emit_method :: "comp_env \<Rightarrow> string \<Rightarrow> unit comp \<Rightarrow> unit comp" where
  "emit_method env msg m = bnd (gets cs_classes) (\<lambda>classes. bnd (gets cs_inINBlock) (\<lambda>inIN.
     if classes = [] \<and> \<not> inIN then error msg else m))"

subsection \<open>Calls\<close>

text \<open>emitCall: the callee is a property access, emitted as its receiver, or an expression. The
  result is the number of the call info, or None after an error.\<close>

definition call_info_of :: "token \<Rightarrow> ast list \<Rightarrow> call_info" where
  "call_info_of tok kids =
     (let count = (\<lambda>k. length (filter (\<lambda>n. nodeKind n = Some k) (tl kids)))
      in \<lparr>ca_nameTok = tok, ca_argc = int (length kids) - int (count KWARG_IN_CALL_STMT) - int (count SPLAT_EXPR),
          ca_numKwargs = int (count KWARG_IN_CALL_STMT), ca_usesSplat = count SPLAT_EXPR > 0,
          ca_kwargNames = List.map_filter (\<lambda>n. if nodeKind n = Some KWARG_IN_CALL_STMT then node_tok n else None) kids,
          ca_blockFunction = None\<rparr>)"

definition make_call_info :: "comp_env \<Rightarrow> token \<Rightarrow> ast list \<Rightarrow> (nat \<times> u32) comp" where
  "make_call_info env tok kids = bnd (gets (\<lambda>s. length (cs_callInfos s))) (\<lambda>n.
     thn (modify (\<lambda>s. s\<lparr>cs_callInfos := cs_callInfos s @ [call_info_of tok kids]\<rparr>))
     (bnd (mem_act (newInternalObject (ce_obj env) (of_nat n) 1 NEWOBJ_FLAG_OLD)) (\<lambda>p.
      thn (on_mem (on_gc (hideFromGC p)))
      (bnd (makeConstant env (OBJ_VAL p) CONST_T_CALLINFO) (\<lambda>slot. yields (n, slot))))))"

definition emitCall ::
    "comp_env \<Rightarrow> token \<Rightarrow> ast list \<Rightarrow> unit comp list \<Rightarrow> unit comp list \<Rightarrow> nat option comp" where
  "emitCall env tok kids ms receiver =
     (let nArgs = length kids - 1
      in if nArgs > 8
      then thn (error ''too many arguments given to function, maximum 8'') (yields None)
      else bnd (child kids 0) (\<lambda>lhs.
        if nodeKind lhs = Some PROP_ACCESS_EXPR
        then thn (emitChildren receiver)
          (bnd (tok_of lhs) (\<lambda>t. bnd (identifierConstant env t) (\<lambda>methodNameArg.
           thn (seqs (tl ms))
           (bnd (make_call_info env tok kids) (\<lambda>(n, slot).
            thn (op3 OP_INVOKE methodNameArg (of_nat nArgs) slot) (yields (Some n)))))))
        else thn (emit_child ms 0)
          (thn (seqs (tl ms))
          (bnd (make_call_info env tok kids) (\<lambda>(n, slot).
            thn (op2 OP_CALL (of_nat nArgs) slot) (yields (Some n)))))))"

text \<open>A call with a block; the call info is a bad pointer after an error in the call.\<close>

definition emit_call_block :: "nat option comp \<Rightarrow> addr comp \<Rightarrow> unit comp" where
  "emit_call_block call block = bnd call (\<lambda>cinfo. bnd block (\<lambda>func. bnd (the_val cinfo) (\<lambda>n.
     modify (\<lambda>s. s\<lparr>cs_callInfos := (cs_callInfos s)[n := (cs_callInfos s ! n)\<lparr>ca_blockFunction := Some func\<rparr>]\<rparr>))))"

subsection \<open>Try statements\<close>

record clause =
  cl_kind :: "node_kind option"
  cl_parts :: "bytes list"
  cl_bind :: "token option"
  cl_body :: "unit comp"

text \<open>What the name of the caught class is pushed together from. The loop writes the name of each
  level but the last twice.\<close>

fun catch_chain :: "comp_env \<Rightarrow> ast \<Rightarrow> bytes list" where
  "catch_chain env (Node k lit t (c # cs) params super) =
     [(case node_tok c of Some ct \<Rightarrow> c_string (tok_text env ct) | None \<Rightarrow> []), map of_char ''::'',
      c_string (tok_text env t)] @ catch_chain env c"
| "catch_chain env _ = []"

definition catch_parts :: "comp_env \<Rightarrow> ast \<Rightarrow> bytes list" where
  "catch_parts env n =
     (if node_children n \<noteq> [] then catch_chain env n
      else [case node_tok n of Some t \<Rightarrow> c_string (tok_text env t) | None \<Rightarrow> []])"

definition push_part :: "addr \<Rightarrow> bytes \<Rightarrow> unit comp" where
  "push_part p chars = mem_act (\<lambda>m.
     case objs_of m p of
       None \<Rightarrow> None
     | Some ob \<Rightarrow> (case o_body ob of
          BString i b \<Rightarrow> (case pushCString (isFrozen ob) b chars of
              Inl _ \<Rightarrow> None
            | Inr b1 \<Rightarrow> Some ((), set_body p (\<lambda>_. BString i b1) m))
        | _ \<Rightarrow> None))"

definition class_name_string :: "comp_env \<Rightarrow> bytes list \<Rightarrow> addr comp" where
  "class_name_string env parts =
     bnd (mem_act (hiddenString (ce_obj env) (copyString []) NEWOBJ_FLAG_NONE)) (\<lambda>p.
     thn (seqs (map (push_part p) parts))
     (thn (on_mem (obj_set_flag p OBJ_FLAG_USER1)) (yields p)))"

definition add_row_act :: "(iseq \<Rightarrow> nat \<times> iseq) \<Rightarrow> nat comp" where
  "add_row_act f = bnd currentIseq (\<lambda>q. let (row, q1) = f q in
     thn (on_current (\<lambda>c. c\<lparr>c_iseq := q1\<rparr>)) (yields row))"

definition row_constant :: "comp_env \<Rightarrow> nat \<Rightarrow> u32 comp" where
  "row_constant env row = makeConstant env (numberToValue (double_of_int (int row))) CONST_T_NUMLIT"

definition bind_thrown :: "comp_env \<Rightarrow> nat \<Rightarrow> token \<Rightarrow> unit comp" where
  "bind_thrown env row varTok = seqs [
     bnd (row_constant env row) (op1 OP_GET_THROWN),
     drop_val (declareVariable env varTok),
     namedVariable env varTok VAR_SET]"

text \<open>A catch block; it ends in a jump if another clause follows that is not an ensure block.\<close>

definition emit_catch :: "comp_env \<Rightarrow> int \<Rightarrow> int \<Rightarrow> int \<Rightarrow> clause \<Rightarrow> bool \<Rightarrow> iptr list comp" where
  "emit_catch env ifrom ito itarget c withJump =
     bnd (class_name_string env (cl_parts c)) (\<lambda>p.
     bnd (add_row_act (\<lambda>q. iseqAddCatchRow q ifrom ito itarget (OBJ_VAL p))) (\<lambda>row.
     thn (seqs [
       pushScope COMPILE_SCOPE_TRY,
       (case cl_bind c of Some t \<Rightarrow> bind_thrown env row t | None \<Rightarrow> skip),
       cl_body c])
     (bnd (if withJump then bnd (emitJump OP_JUMP) (\<lambda>j. yields [j]) else yields []) (\<lambda>js.
       thn (popScope COMPILE_SCOPE_TRY) (yields js)))))"

definition patch_to_tail :: "iptr \<Rightarrow> unit comp" where
  "patch_to_tail j = bnd currentIseq (\<lambda>q. patchJump j (- 1) (is_tail q))"

definition emit_else :: "clause \<Rightarrow> iptr option \<Rightarrow> unit comp" where
  "emit_else c jumpToEnd = bnd (the_val jumpToEnd) (\<lambda>j. seqs [
     patch_to_tail j, pushScope COMPILE_SCOPE_TRY, cl_body c, popScope COMPILE_SCOPE_TRY])"

definition emit_ensure :: "comp_env \<Rightarrow> int \<Rightarrow> int \<Rightarrow> int \<Rightarrow> clause \<Rightarrow> iptr list \<Rightarrow> unit comp" where
  "emit_ensure env ifrom ito itarget c vjumps = thn (seqs (map patch_to_tail vjumps))
     (bnd (add_row_act (\<lambda>q. iseqAddEnsureRow q ifrom ito itarget)) (\<lambda>row.
      bnd (row_constant env row) (\<lambda>rethrowIfArg. seqs [
        pushScope COMPILE_SCOPE_TRY, cl_body c, op1 OP_RETHROW_IF_ERR rethrowIfArg,
        popScope COMPILE_SCOPE_TRY])))"

text \<open>The clauses in their order, with the jumps to the end of the statement that are still to be
  patched.\<close>

fun emit_clauses ::
    "comp_env \<Rightarrow> int \<Rightarrow> int \<Rightarrow> clause list \<Rightarrow> iptr list \<Rightarrow> iptr option \<Rightarrow> iptr list comp" where
  "emit_clauses env ifrom ito [] vjumps jumpToEnd = yields vjumps"
| "emit_clauses env ifrom ito (c # cs) vjumps jumpToEnd = bnd currentIseq (\<lambda>q.
     let itarget = is_wordCount q
     in if cl_kind c = Some CATCH_STMT
        then bnd (emit_catch env ifrom ito itarget c
               (cs \<noteq> [] \<and> cl_kind (hd cs) \<in> {Some CATCH_STMT, Some TRY_ELSE_STMT}))
             (\<lambda>js. emit_clauses env ifrom ito cs (vjumps @ js) jumpToEnd)
        else if cl_kind c = Some TRY_ELSE_STMT
        then thn (emit_else c jumpToEnd) (emit_clauses env ifrom ito cs (tl vjumps) None)
        else thn (assume_that (cl_kind c = Some ENSURE_STMT))
          (thn (emit_ensure env ifrom ito itarget c vjumps)
             (emit_clauses env ifrom ito cs [] jumpToEnd)))"

definition emit_try :: "comp_env \<Rightarrow> unit comp \<Rightarrow> clause list \<Rightarrow> unit comp" where
  "emit_try env tryBlock clauses =
     bnd currentIseq (\<lambda>q0.
     thn tryBlock
     (bnd (if length clauses = 1 \<and> cl_kind (hd clauses) = Some ENSURE_STMT then yields None
           else bnd (emitJump OP_JUMP) (\<lambda>j. yields (Some j))) (\<lambda>jumpToEnd.
     bnd currentIseq (\<lambda>q1.
     let vjumps = (case jumpToEnd of Some j \<Rightarrow> [j] | None \<Rightarrow> [])
     in whenc (clauses \<noteq> [])
        (bnd (emit_clauses env (is_wordCount q0) (is_wordCount q1) clauses vjumps jumpToEnd)
           (\<lambda>js. seqs (map patch_to_tail js)))))))"

subsection \<open>The tree\<close>

lemma size_node_children: "c \<in> set (node_children n) \<Longrightarrow> size c < size n"
  by (cases n) (auto simp: less_Suc_eq_le dest!: size_list_estimation' [of _ _ "size c" size] intro: size_list_estimation')

definition param_of :: "token \<Rightarrow> nat \<Rightarrow> ast \<Rightarrow> unit comp list \<Rightarrow> param" where
  "param_of tok emits p ms = \<lparr>pa_kind = nodeKind p,
     pa_tok = (case node_tok p of Some t \<Rightarrow> t | None \<Rightarrow> tok), pa_noted = (emits > 0), pa_kids = ms\<rparr>"

definition clause_of :: "comp_env \<Rightarrow> ast \<Rightarrow> unit comp list \<Rightarrow> clause" where
  "clause_of env c ms =
     (let kids = node_children c
      in \<lparr>cl_kind = nodeKind c,
          cl_parts = (case kids of [] \<Rightarrow> [] | n # _ \<Rightarrow> catch_parts env n),
          cl_bind = (if length kids > 2 then node_tok (kids ! 1) else None),
          cl_body = (if ms = [] then fails else last ms)\<rparr>)"

definition null_or :: "ast \<Rightarrow> unit comp \<Rightarrow> unit comp option" where
  "null_or n m = (if n = NullNode then None else Some m)"

text \<open>emitNode. An action is emitted at most once by every function it is passed to, except in the
  assignment with an operator to a property, which emits the object of the property twice.\<close>

function (sequential) emitNode :: "comp_env \<Rightarrow> nat \<Rightarrow> ast \<Rightarrow> unit comp" where
  "emitNode env emits NullNode = bnd current (\<lambda>c0. if c_hadError c0 then skip else fails)"
| "emitNode env emits (Node kind lit tok kids params super) =
     bnd current (\<lambda>c0. if c_hadError c0 then skip else
     thn (modify (\<lambda>s. s\<lparr>cs_curTok := Some tok, cs_nodeWidth := cs_nodeWidth s + 1\<rparr>))
     (let ms = map (emitNode env emits) kids;
          ps = map (\<lambda>p. param_of tok emits p (map (emitNode env emits) (node_children p))) params;
          fn = (\<lambda>ftype. drop_val (emitFunction env tok ftype ps ms))
      in case kind of
          STMTLIST_STMT \<Rightarrow> emitChildren ms
        | GROUPING_EXPR \<Rightarrow> emitChildren ms
        | EXPR_STMT \<Rightarrow> seqs [emitChildren ms, op0 OP_POP]
        | BINARY_EXPR \<Rightarrow> emit_binary env tok False ms kids
        | BINARY_ASSIGN_EXPR \<Rightarrow> emit_binary env tok True ms kids
        | LOGICAL_EXPR \<Rightarrow> (if kids = [] then fails else emit_logical tok (hd ms) (last ms))
        | UNARY_EXPR \<Rightarrow> emit_unary tok (emit_child ms 0)
        | LITERAL_EXPR \<Rightarrow> emit_literal env tok lit
        | ARRAY_EXPR \<Rightarrow> emit_array env emits ms kids
        | MAP_EXPR \<Rightarrow> emit_map env emits ms kids
        | IF_STMT \<Rightarrow> emit_if (emit_child ms 0) (emit_child ms 1)
            (if length kids > 2 then null_or (kids ! 2) (ms ! 2) else None)
        | WHILE_STMT \<Rightarrow> emit_while (emit_child ms 0) (emit_child ms 1)
        | FOR_STMT \<Rightarrow>
            (if length kids < 3 then fails
             else emit_for (null_or (kids ! 0) (ms ! 0)) (null_or (kids ! 1) (ms ! 1))
                    (null_or (kids ! 2) (ms ! 2)) (last ms))
        | FOREACH_STMT \<Rightarrow>
            (let vars = take (length kids - 2) kids
             in if length kids < 2 \<or> \<not> list_all (\<lambda>n. node_tok n \<noteq> None) vars then fails
                else emit_foreach env (map (\<lambda>n. the (node_tok n)) vars)
                       (ms ! (length kids - 2)) (ms ! (length kids - 1)))
        | BREAK_STMT \<Rightarrow> emit_break
        | CONTINUE_STMT \<Rightarrow> emit_continue
        | PRINT_STMT \<Rightarrow> seqs [emitChildren ms, op0 OP_PRINT]
        | VAR_STMT \<Rightarrow> emit_var env tok ms kids
        | VARIABLE_EXPR \<Rightarrow> namedVariable env tok VAR_GET
        | CONSTANT_EXPR \<Rightarrow> bnd (identifierConstant env tok) (op1 OP_GET_CONST)
        | CONSTANT_LOOKUP_EXPR \<Rightarrow> emit_constant_lookup env tok ms
        | ASSIGN_EXPR \<Rightarrow> (case kids of v # _ # _ \<Rightarrow> emit_assign env (ms ! 1) v | _ \<Rightarrow> fails)
        | BLOCK_STMT \<Rightarrow> emit_block ms
        | FUNCTION_STMT \<Rightarrow> fn FUN_TYPE_NAMED
        | METHOD_STMT \<Rightarrow> emit_method env
            ''Methods can only be declared in classes and modules. Maybe forgot keyword fun?''
            (fn (if c_string (tok_text env tok) = map of_char ''init'' then FUN_TYPE_INIT else FUN_TYPE_METHOD))
        | CLASS_METHOD_STMT \<Rightarrow> emit_method env
            ''Static methods can only be declared in classes and modules.'' (fn FUN_TYPE_CLASS_METHOD)
        | GETTER_STMT \<Rightarrow> emit_method env
            ''Getter methods can only be declared in classes and modules'' (fn FUN_TYPE_GETTER)
        | SETTER_STMT \<Rightarrow> emit_method env
            ''Setter methods can only be declared in classes and modules'' (fn FUN_TYPE_SETTER)
        | ANON_FN_EXPR \<Rightarrow> fn FUN_TYPE_ANON
        | CLASS_STMT \<Rightarrow> emitClass env tok super ms
        | MODULE_STMT \<Rightarrow> emitModule env tok ms
        | IN_STMT \<Rightarrow> emitIn (emit_child ms 0) (emit_child ms 1)
        | PROP_ACCESS_EXPR \<Rightarrow> seqs [emitChildren ms, bnd (identifierConstant env tok) (op1 OP_PROP_GET)]
        | PROP_SET_EXPR \<Rightarrow> seqs [emitChildren ms, bnd (identifierConstant env tok) (op1 OP_PROP_SET)]
        | PROP_SET_BINOP_EXPR \<Rightarrow>
            (case kids of
               Node pk pl ptok (obj # os) pps psup # v # _ \<Rightarrow>
                 emit_prop_set_binop env tok (emitNode env (2 * emits) obj)
                   (emitNode env (2 * emits + 1) (Node pk pl ptok (obj # os) pps psup))
                   (emitNode env emits v) ptok
             | _ \<Rightarrow> fails)
        | RETURN_STMT \<Rightarrow> emit_return ms
        | THIS_EXPR \<Rightarrow> op0 OP_GET_THIS
        | SUPER_EXPR \<Rightarrow>
            (if kids = [] then fails
             else bnd (tok_of (last kids)) (\<lambda>t. bnd (identifierConstant env t) (op1 OP_GET_SUPER)))
        | CALL_EXPR \<Rightarrow>
            (case kids of
               [] \<Rightarrow> fails
             | lhs # _ \<Rightarrow> drop_val (emitCall env tok kids ms (map (emitNode env emits) (node_children lhs))))
        | CALL_BLOCK_EXPR \<Rightarrow>
            (case kids of
               Node ck cl ct (lhs # args) cps csup # Node fk fl ft fkids fps fsup # _ \<Rightarrow>
                 emit_call_block
                   (emitCall env ct (lhs # args) (map (emitNode env emits) (lhs # args))
                      (map (emitNode env emits) (node_children lhs)))
                   (emitFunction env ft FUN_TYPE_BLOCK
                      (map (\<lambda>p. param_of ft emits p (map (emitNode env emits) (node_children p))) fps)
                      (map (emitNode env emits) fkids))
             | _ \<Rightarrow> fails)
        | TO_BLOCK_EXPR \<Rightarrow> seqs [emitChildren ms, op0 OP_TO_BLOCK]
        | SPLAT_EXPR \<Rightarrow> seqs [emitChildren ms, op0 OP_SPLAT_ARRAY]
        | KWARG_IN_CALL_STMT \<Rightarrow> emitChildren ms
        | TRY_STMT \<Rightarrow>
            (case kids of
               [] \<Rightarrow> fails
             | t # cs \<Rightarrow> emit_try env (emitNode env emits t)
                 (map (\<lambda>c. clause_of env c (map (emitNode env emits) (node_children c))) cs))
        | THROW_STMT \<Rightarrow> seqs [emitChildren ms, op0 OP_THROW]
        | INDEX_GET_EXPR \<Rightarrow> seqs [emitChildren ms, op0 OP_INDEX_GET]
        | INDEX_SET_EXPR \<Rightarrow> seqs [emitChildren ms, op0 OP_INDEX_SET]
        | _ \<Rightarrow> fails))"
  by pat_completeness auto


lemma size_in_list: "c \<in> set kids \<Longrightarrow> size c \<le> size_list size kids"
  by (simp add: size_list_estimation')

lemma size_grandkid: "c \<in> set (node_children p) \<Longrightarrow> p \<in> set kids \<Longrightarrow> size c < size_list size kids"
  by (meson less_le_trans size_in_list size_node_children)

termination emitNode
  by (relation "measure (\<lambda>(_, _, n). size n)")
    (auto dest: size_node_children size_grandkid size_in_list)

subsection \<open>A whole program\<close>

datatype compile_err = COMPILE_ERR_NONE | COMPILE_ERR_SYNTAX | COMPILE_ERR_SEMANTICS | COMPILE_ERR_ERRNO

definition initializeCompiler :: "cstate \<Rightarrow> cstate" where
  "initializeCompiler s = s\<lparr>cs_comps := [], cs_classes := [], cs_inINBlock := False, cs_curTok := None,
     cs_loopStart := - 1, cs_curLoopType := LOOP_T_NONE, cs_nodeDepth := 0, cs_nodeWidth := - 1,
     cs_blockDepth := 0, cs_breakBlock := False, cs_curScope := None, cs_loopLocalCount := 0,
     cs_nextInsnIsLabel := False, cs_errMessages := []\<rparr>"

definition compile_node :: "comp_env \<Rightarrow> ast \<Rightarrow> (addr option \<times> compile_err) comp" where
  "compile_node env program =
     thn (seqs [modify initializeCompiler, initCompiler env 0 FUN_TYPE_TOP_LEVEL [], emitNode env 0 program])
     (bnd current (\<lambda>mainCompiler.
      bnd (endCompiler env) (\<lambda>prog.
        yields (if c_hadError mainCompiler then (None, COMPILE_ERR_SEMANTICS)
                else (Some prog, COMPILE_ERR_NONE)))))"

definition grayCompilerRoots :: "cstate \<Rightarrow> gc_state \<Rightarrow> gc_state" where
  "grayCompilerRoots s = fold grayObject (map c_function (cs_comps s))"

end
