(* ===== verification/Clox_Emit_Laws.thy ===== *)
theory Clox_Emit_Laws
  imports Clox_Emit Clox_Optimizer_Laws
begin

unbundle bit_operations_syntax

text \<open>What the functions below emitNode keep of the state of the compiler: every compiler in the
  chain has a well-linked list of instructions, within the limits on locals and upvalues, and unless
  an error was reported, every instruction has the operands that the interpreter reads for it, with
  local slots, upvalue indexes and constant indexes in range. A small logic for actions carries
  the proofs: an action is safe when it keeps the invariant and lets every compiler only grow.\<close>

subsection \<open>Values of a table\<close>

text \<open>The table of constants holds indexes; what tableGet returns is one of them. Neither needs more
  of the table than its size.\<close>

definition table_sized :: "table \<Rightarrow> bool" where
  "table_sized t \<longleftrightarrow> tb_entries t = [] \<and> tb_mask t = - 1 \<or>
     (\<exists>j. length (tb_entries t) = 2 ^ j \<and> tb_mask t = 2 ^ j - 1)"

definition table_values :: "(lxvalue \<Rightarrow> bool) \<Rightarrow> entry list \<Rightarrow> bool" where
  "table_values P es \<longleftrightarrow> (\<forall>e\<in>set es. \<not> IS_UNDEF (e_key e) \<longrightarrow> P (e_value e))"

lemma masked_less: "unat (x AND (2 ^ j - 1) :: u32) < 2 ^ j"
proof -
  have "unat (x AND (2 ^ j - 1) :: u32) = take_bit j (unat x)"
    by (simp only: mask_eq_exp_minus_1 [symmetric] take_bit_eq_mask [symmetric] unsigned_take_bit_eq)
  then show ?thesis by simp
qed

lemma find_from_less:
  "find_from eqv es (2 ^ j - 1) key n i = Some k \<Longrightarrow> unat i < 2 ^ j \<Longrightarrow> unat k < 2 ^ j"
  by (induction n arbitrary: i) (auto simp: masked_less split: if_splits)

lemma findEntry_less:
  "findEntry hsh eqv es (2 ^ j - 1) key = Some k \<Longrightarrow> unat k < 2 ^ j"
  by (auto simp: findEntry_def masked_less elim!: find_from_less)

lemma tableGet_value:
  assumes "tableGet hsh eqv t k = Some (Some v)" "table_sized t" "table_values P (tb_entries t)"
  shows "P v"
  using assms findEntry_less [of hsh eqv "tb_entries t" _ k]
  by (fastforce simp: tableGet_def table_sized_def table_values_def Let_def split: if_splits bind_splits)

lemma table_values_update:
  "table_values P es \<Longrightarrow> P (e_value e) \<Longrightarrow> table_values P (es[i := e])"
  unfolding table_values_def by (metis in_set_conv_nth length_list_update nth_list_update_eq nth_list_update_neq)

lemma table_values_Cons [simp]:
  "table_values P (e # es) \<longleftrightarrow> (\<not> IS_UNDEF (e_key e) \<longrightarrow> P (e_value e)) \<and> table_values P es"
  by (simp add: table_values_def)

lemma resize_loop_values:
  "resize_loop hsh eqv msk old new n = Some (es, c) \<Longrightarrow> table_values P old \<Longrightarrow> table_values P new \<Longrightarrow>
     table_values P es \<and> length es = length new"
  by (induction old arbitrary: new n)
    (fastforce simp: table_values_update split: if_splits bind_splits)+

lemma grow_power: "\<exists>j'. GROW_CAPACITY (2 ^ j) = 2 ^ j'"
proof (cases "j < 3")
  case True
  then have "(2::int) ^ j < 8" using power_strict_increasing [of j 3 "2::int"] by simp
  then show ?thesis by (intro exI [of _ 3]) (simp add: GROW_CAPACITY_def)
next
  case False
  then have "(8::int) \<le> 2 ^ j" using power_increasing [of 3 j "2::int"] by simp
  then show ?thesis by (intro exI [of _ "Suc j"]) (simp add: GROW_CAPACITY_def)
qed

lemma table_resize_values:
  assumes "table_resize hsh eqv t (GROW_CAPACITY (tb_mask t + 1) - 1) = Some t'" "table_sized t"
    "table_values P (tb_entries t)"
  shows "table_sized t'" "table_values P (tb_entries t')"
proof -
  have "\<exists>j. GROW_CAPACITY (tb_mask t + 1) = 2 ^ j"
    using assms(2) grow_power by (auto simp: table_sized_def GROW_CAPACITY_def [of 0] intro: exI [of _ 3])
  then obtain j where j: "GROW_CAPACITY (tb_mask t + 1) = 2 ^ j" by blast
  have "table_values P (replicate n TBL_EMPTY_ENTRY)" for n by (simp add: table_values_def)
  then have "table_values P (tb_entries t') \<and> length (tb_entries t') = 2 ^ j \<and> tb_mask t' = 2 ^ j - 1"
    using assms(1,3) j by (auto simp: table_resize_def split: bind_splits dest!: resize_loop_values [where P = P])
  then show "table_sized t'" "table_values P (tb_entries t')" by (auto simp: table_sized_def)
qed

lemma tableSet_values:
  assumes "tableSet hsh eqv t k v = Some (b, t')" "table_sized t" "table_values P (tb_entries t)" "P v"
  shows "table_sized t'" "table_values P (tb_entries t')"
proof -
  obtain t1 where t1: "table_sized t1" "table_values P (tb_entries t1)" "table_put hsh eqv t1 k v = Some (b, t')"
  proof (cases "over_load t")
    case True
    then obtain t1 where "table_resize hsh eqv t (GROW_CAPACITY (tb_mask t + 1) - 1) = Some t1"
      "table_put hsh eqv t1 k v = Some (b, t')"
      using assms(1) by (auto simp: tableSet_def split: bind_splits)
    then show ?thesis using that table_resize_values [OF _ assms(2,3)] by blast
  qed (use assms that in \<open>auto simp: tableSet_def\<close>)
  then obtain i where "tb_entries t' = (tb_entries t1)[i := \<lparr>e_key = k, e_value = v\<rparr>]" "tb_mask t' = tb_mask t1"
    by (auto simp: table_put_def Let_def split: bind_splits)
  then show "table_sized t'" "table_values P (tb_entries t')"
    using t1 assms(4) by (auto simp: table_sized_def intro: table_values_update)
qed
subsection \<open>Indexes as doubles\<close>

lemma bit_len_spec: "0 < n \<Longrightarrow> 2 ^ (bit_len n - 1) \<le> n \<and> n < 2 ^ bit_len n \<and> 0 < bit_len n"
proof (induction n rule: bit_len.induct)
  case (1 n)
  show ?case
  proof (cases "n = 1")
    case True
    then show ?thesis by (simp add: bit_len.simps)
  next
    case False
    then have "0 < n div 2" using 1 by simp
    then have b: "2 ^ (bit_len (n div 2) - 1) \<le> n div 2" "n div 2 < 2 ^ bit_len (n div 2)" "0 < bit_len (n div 2)"
      using 1 by simp_all
    obtain k where k: "bit_len (n div 2) = Suc k" using b(3) by (cases "bit_len (n div 2)") simp_all
    have "bit_len n = Suc (Suc k)" using k 1 by (simp add: bit_len.simps [of n])
    moreover have "2 * 2 ^ k \<le> n" "n < 4 * 2 ^ k" using b k by auto
    ultimately show ?thesis by simp
  qed
qed

lemma double_parts:
  assumes "0 \<le> m" "m < 2 ^ 52" "0 \<le> x" "x < 2048"
  shows "double_exp (word_of_int (x * 2 ^ 52 + m)) = nat x" "double_mant (word_of_int (x * 2 ^ 52 + m)) = nat m"
    "\<not> bit (word_of_int (x * 2 ^ 52 + m) :: u64) 63"
proof -
  have r: "uint (word_of_int (x * 2 ^ 52 + m) :: u64) = x * 2 ^ 52 + m"
    by (subst uint_word_of_int) (use assms in \<open>auto intro!: mod_pos_pos_trivial\<close>)
  have q: "(x * 2 ^ 52 + m) div 2 ^ 52 = x" "(x * 2 ^ 52 + m) mod 2 ^ 52 = m" using assms by auto
  have "uint (drop_bit 52 (word_of_int (x * 2 ^ 52 + m) :: u64)) = x"
    unfolding unsigned_drop_bit_eq r using assms q by (simp add: drop_bit_eq_div take_bit_eq_mod)
  then have "uint (take_bit 11 (drop_bit 52 (word_of_int (x * 2 ^ 52 + m) :: u64))) = x"
    unfolding unsigned_take_bit_eq using assms by (simp add: take_bit_eq_mod)
  then show "double_exp (word_of_int (x * 2 ^ 52 + m)) = nat x" by (simp add: double_exp_def unat_eq_nat_uint)
  have "uint (take_bit 52 (word_of_int (x * 2 ^ 52 + m) :: u64)) = m"
    unfolding unsigned_take_bit_eq r using q by (simp add: take_bit_eq_mod)
  then show "double_mant (word_of_int (x * 2 ^ 52 + m)) = nat m" by (simp add: double_mant_def unat_eq_nat_uint)
  have "x * 2 ^ 52 + m < 2 ^ 63" using assms by simp
  then have "(x * 2 ^ 52 + m) div 2 ^ 63 = 0" using assms by (intro div_pos_pos_trivial) auto
  then have "\<not> bit (uint (word_of_int (x * 2 ^ 52 + m) :: u64)) 63" unfolding r bit_iff_odd by simp
  then show "\<not> bit (word_of_int (x * 2 ^ 52 + m) :: u64) 63" unfolding bit_uint_iff by simp
qed

lemma double_roundtrip:
  assumes "0 \<le> n" "n < 2 ^ 32"
  shows "double_to_u32 ub (double_of_int n) = word_of_int n"
proof (cases "n = 0")
  case True
  then show ?thesis by (simp add: double_of_int_def double_to_u32_def double_magnitude_def double_exp_def)
next
  case False
  define e where "e = bit_len n - 1"
  have b: "2 ^ e \<le> n" "n < 2 ^ Suc e" using bit_len_spec [of n] False assms by (auto simp: e_def)
  then have "(2::int) ^ e < 2 ^ 32" using assms by linarith
  then have e: "e < 32" by (rule power_less_imp_less_exp [rotated]) simp
  have "n - 2 ^ e < 2 ^ e" using b by simp
  then have "(n - 2 ^ e) * 2 ^ (52 - e) < 2 ^ e * 2 ^ (52 - e)" by (simp only: mult_less_cancel_right zero_less_power) simp
  also have "(2::int) ^ e * 2 ^ (52 - e) = 2 ^ 52" using e by (simp flip: power_add)
  finally have m: "(n - 2 ^ e) * 2 ^ (52 - e) < 2 ^ 52" .
  let ?m = "(n - 2 ^ e) * 2 ^ (52 - e)" and ?d = "double_of_int n"
  have d: "?d = word_of_int ((1023 + int e) * 2 ^ 52 + ?m)"
    using False assms e by (simp add: double_of_int_def Let_def e_def)
  have p: "double_exp ?d = 1023 + e" "double_mant ?d = nat ?m" "\<not> bit ?d 63"
    unfolding d using double_parts [of ?m "1023 + int e"] m b e by auto
  have "int ((2 ^ 52 + nat ?m) * 2 ^ e) = (2 ^ 52 + ?m) * 2 ^ e" using b by simp
  also have "2 ^ 52 + ?m = n * 2 ^ (52 - e)"
    using e by (simp add: algebra_simps flip: power_add)
  also have "n * 2 ^ (52 - e) * 2 ^ e = n * 2 ^ 52" using e by (simp add: mult.assoc flip: power_add)
  finally have "int ((2 ^ 52 + nat ?m) * 2 ^ e div 2 ^ 52) = n" by (simp add: zdiv_int)
  then have "double_magnitude ?d = nat n" using p by (simp add: double_magnitude_def)
  then show ?thesis using p e assms by (simp add: double_to_u32_def nat_less_iff flip: not_less)
qed
subsection \<open>Operands\<close>

text \<open>What the interpreter takes the operands of an instruction for (vm.c).\<close>

datatype operand = LOCAL_SLOT | UPVALUE_INDEX | CONSTANT_INDEX | PLAIN_WORD

definition operands_of :: "opcode \<Rightarrow> operand list" where
  "operands_of code = (case code of
       OP_CONSTANT \<Rightarrow> [CONSTANT_INDEX]
     | OP_GET_LOCAL \<Rightarrow> [LOCAL_SLOT, CONSTANT_INDEX]
     | OP_SET_LOCAL \<Rightarrow> [LOCAL_SLOT, CONSTANT_INDEX]
     | OP_UNPACK_SET_LOCAL \<Rightarrow> [LOCAL_SLOT, PLAIN_WORD, CONSTANT_INDEX]
     | OP_GET_GLOBAL \<Rightarrow> [CONSTANT_INDEX] | OP_SET_GLOBAL \<Rightarrow> [CONSTANT_INDEX]
     | OP_DEFINE_GLOBAL \<Rightarrow> [CONSTANT_INDEX]
     | OP_UNPACK_DEFINE_GLOBAL \<Rightarrow> [CONSTANT_INDEX, PLAIN_WORD]
     | OP_GET_CONST \<Rightarrow> [CONSTANT_INDEX] | OP_SET_CONST \<Rightarrow> [CONSTANT_INDEX]
     | OP_GET_CONST_UNDER \<Rightarrow> [CONSTANT_INDEX] | OP_CLOSURE \<Rightarrow> [CONSTANT_INDEX]
     | OP_GET_UPVALUE \<Rightarrow> [UPVALUE_INDEX, CONSTANT_INDEX]
     | OP_SET_UPVALUE \<Rightarrow> [UPVALUE_INDEX, CONSTANT_INDEX]
     | OP_PROP_GET \<Rightarrow> [CONSTANT_INDEX] | OP_PROP_SET \<Rightarrow> [CONSTANT_INDEX]
     | OP_METHOD \<Rightarrow> [CONSTANT_INDEX] | OP_CLASS_METHOD \<Rightarrow> [CONSTANT_INDEX]
     | OP_GETTER \<Rightarrow> [CONSTANT_INDEX] | OP_SETTER \<Rightarrow> [CONSTANT_INDEX]
     | OP_CALL \<Rightarrow> [PLAIN_WORD, CONSTANT_INDEX]
     | OP_INVOKE \<Rightarrow> [CONSTANT_INDEX, PLAIN_WORD, CONSTANT_INDEX]
     | OP_GET_SUPER \<Rightarrow> [CONSTANT_INDEX] | OP_STRING \<Rightarrow> [CONSTANT_INDEX, PLAIN_WORD]
     | OP_ARRAY \<Rightarrow> [PLAIN_WORD] | OP_DUPARRAY \<Rightarrow> [CONSTANT_INDEX]
     | OP_MAP \<Rightarrow> [PLAIN_WORD] | OP_DUPMAP \<Rightarrow> [CONSTANT_INDEX]
     | OP_REGEX \<Rightarrow> [CONSTANT_INDEX] | OP_POP_DEBUG \<Rightarrow> [CONSTANT_INDEX] | OP_POP_N \<Rightarrow> [PLAIN_WORD]
     | OP_JUMP \<Rightarrow> [PLAIN_WORD] | OP_JUMP_IF_FALSE \<Rightarrow> [PLAIN_WORD] | OP_JUMP_IF_TRUE \<Rightarrow> [PLAIN_WORD]
     | OP_JUMP_IF_FALSE_PEEK \<Rightarrow> [PLAIN_WORD] | OP_JUMP_IF_TRUE_PEEK \<Rightarrow> [PLAIN_WORD]
     | OP_LOOP \<Rightarrow> [PLAIN_WORD] | OP_BREAK \<Rightarrow> [PLAIN_WORD, PLAIN_WORD]
     | OP_CLASS \<Rightarrow> [CONSTANT_INDEX] | OP_SUBCLASS \<Rightarrow> [CONSTANT_INDEX] | OP_MODULE \<Rightarrow> [CONSTANT_INDEX]
     | OP_GET_THROWN \<Rightarrow> [CONSTANT_INDEX] | OP_RETHROW_IF_ERR \<Rightarrow> [CONSTANT_INDEX]
     | OP_CHECK_KEYWORD \<Rightarrow> [LOCAL_SLOT, PLAIN_WORD]
     | _ \<Rightarrow> [])"

definition n_constants :: "compiler \<Rightarrow> int" where
  "n_constants c = va_count (is_constants (c_iseq c))"

text \<open>An index of a constant is a word; with more constants than words it says nothing.\<close>

definition operand_ok :: "compiler \<Rightarrow> operand \<Rightarrow> u32 \<Rightarrow> bool" where
  "operand_ok c k w = (case k of
       LOCAL_SLOT \<Rightarrow> unat w < c_localCountMax c
     | UPVALUE_INDEX \<Rightarrow> unat w < length (c_upvalues c)
     | CONSTANT_INDEX \<Rightarrow> n_constants c \<le> 2 ^ 32 \<longrightarrow> uint w < n_constants c
     | PLAIN_WORD \<Rightarrow> True)"

text \<open>The words for the upvalues of a closure are instructions without operands.\<close>

definition insn_ok :: "compiler \<Rightarrow> insn \<Rightarrow> bool" where
  "insn_ok c i \<longleftrightarrow> in_numOperands i = 0 \<or>
     list_all2 (operand_ok c) (operands_of (in_code i)) (take (in_numOperands i) (in_operands i)) \<and>
     length (in_operands i) = 3 \<and> in_numOperands i \<le> 3"

subsection \<open>The invariant\<close>

definition index_value :: "int \<Rightarrow> lxvalue \<Rightarrow> bool" where
  "index_value n v \<longleftrightarrow> (\<exists>k. 0 \<le> k \<and> k < n \<and> v = numberToValue (double_of_int k))"

definition compiler_ok :: "iptr \<Rightarrow> compiler \<Rightarrow> bool" where
  "compiler_ok fr c \<longleftrightarrow> (\<exists>ps. iseq_rep (c_iseq c) ps) \<and> 0 \<le> c_scopeDepth c \<and>
     (\<forall>p. is_store (c_iseq c) p \<noteq> None \<longrightarrow> p < fr) \<and>
     length (c_locals c) \<le> c_localCountMax c \<and> c_localCountMax c \<le> UINT8_MAX \<and>
     length (c_upvalues c) \<le> LX_MAX_UPVALUES \<and> va_ok (is_constants (c_iseq c)) \<and>
     table_sized (c_constTbl c) \<and> table_values (index_value (n_constants c)) (tb_entries (c_constTbl c)) \<and>
     (c_hadError c \<or> (\<forall>p n. is_store (c_iseq c) p = Some n \<longrightarrow> insn_ok c (nd_insn n)))"

definition state_ok :: "cstate \<Rightarrow> bool" where
  "state_ok s \<longleftrightarrow> (\<forall>c\<in>set (cs_comps s). compiler_ok (cs_fresh s) c)"

text \<open>How a compiler develops.\<close>

definition same_shape :: "node \<Rightarrow> node \<Rightarrow> bool" where
  "same_shape m n \<longleftrightarrow> in_code (nd_insn m) = in_code (nd_insn n) \<and>
     in_numOperands (nd_insn m) = in_numOperands (nd_insn n)"

definition kept_nodes :: "(iptr \<Rightarrow> node option) \<Rightarrow> (iptr \<Rightarrow> node option) \<Rightarrow> bool" where
  "kept_nodes st st' \<longleftrightarrow> (\<forall>p n. st p = Some n \<longrightarrow> (\<exists>n'. st' p = Some n' \<and> same_shape n n'))"

definition develops :: "compiler \<Rightarrow> compiler \<Rightarrow> bool" where
  "develops c c' \<longleftrightarrow> c_function c' = c_function c \<and> c_type c' = c_type c \<and>
     c_localCountMax c \<le> c_localCountMax c' \<and> length (c_upvalues c) \<le> length (c_upvalues c') \<and>
     n_constants c \<le> n_constants c' \<and> (c_hadError c \<longrightarrow> c_hadError c') \<and>
     kept_nodes (is_store (c_iseq c)) (is_store (c_iseq c'))"

text \<open>The chain of compilers develops; the scope of the current one gets d levels deeper.\<close>

fun deeper :: "int \<Rightarrow> int list \<Rightarrow> int list" where
  "deeper d [] = []"
| "deeper d (x # xs) = (x + d) # xs"

definition grows_by :: "int \<Rightarrow> cstate \<Rightarrow> cstate \<Rightarrow> bool" where
  "grows_by d s s' \<longleftrightarrow> list_all2 develops (cs_comps s) (cs_comps s') \<and> cs_fresh s \<le> cs_fresh s' \<and>
     map c_scopeDepth (cs_comps s') = deeper d (map c_scopeDepth (cs_comps s))"

abbreviation "grows \<equiv> grows_by 0"

lemma deeper_0 [simp]: "deeper 0 xs = xs"
  by (cases xs) simp_all

lemma deeper_deeper [simp]: "deeper b (deeper a xs) = deeper (a + b) xs"
  by (cases xs) simp_all

lemma kept_nodes_refl [simp]: "kept_nodes st st"
  by (simp add: kept_nodes_def same_shape_def)

lemma kept_nodes_trans: "kept_nodes a b \<Longrightarrow> kept_nodes b c \<Longrightarrow> kept_nodes a c"
  unfolding kept_nodes_def same_shape_def by metis

lemma develops_refl [simp]: "develops c c"
  by (simp add: develops_def)

lemma develops_trans:
  assumes "develops a b" "develops b c"
  shows "develops a c"
proof -
  have k: "kept_nodes (is_store (c_iseq a)) (is_store (c_iseq c))"
    by (rule kept_nodes_trans [of _ "is_store (c_iseq b)"]) (use assms in \<open>unfold develops_def, blast\<close>)+
  have "c_function c = c_function a \<and> c_type c = c_type a" using assms unfolding develops_def by metis
  moreover have "c_localCountMax a \<le> c_localCountMax c \<and> length (c_upvalues a) \<le> length (c_upvalues c) \<and> n_constants a \<le> n_constants c"
    using assms unfolding develops_def by linarith
  moreover have "(c_hadError a \<longrightarrow> c_hadError c)" using assms unfolding develops_def by blast
  ultimately show ?thesis using k unfolding develops_def by blast
qed

lemma grows_refl [simp]: "grows s s"
  by (simp add: grows_by_def list_all2_refl)

lemma grows_trans:
  assumes "grows_by a s t" "grows_by b t u"
  shows "grows_by (a + b) s u"
proof -
  have "list_all2 develops (cs_comps s) (cs_comps u)"
    by (rule list_all2_trans [of develops develops develops]) (use assms develops_trans in \<open>auto simp: grows_by_def\<close>)
  then show ?thesis using assms by (simp add: grows_by_def)
qed

lemma grows_trans_here: "grows s t \<Longrightarrow> grows t u \<Longrightarrow> grows s u"
  using grows_trans [of 0 s t 0 u] by simp

lemma operand_ok_develops: "operand_ok c k w \<Longrightarrow> develops c c' \<Longrightarrow> operand_ok c' k w"
  by (cases k) (auto simp: operand_ok_def develops_def)

lemma insn_ok_develops: "insn_ok c i \<Longrightarrow> develops c c' \<Longrightarrow> insn_ok c' i"
  unfolding insn_ok_def using operand_ok_develops by (metis list_all2_mono)

lemma index_value_mono: "index_value m v \<Longrightarrow> m \<le> n \<Longrightarrow> index_value n v"
  by (auto simp: index_value_def)

lemma compiler_ok_fresh: "compiler_ok fr c \<Longrightarrow> fr \<le> fr' \<Longrightarrow> compiler_ok fr' c"
  unfolding compiler_ok_def by (meson less_le_trans)

lemma same_comps:
  assumes "cs_comps s' = cs_comps s" "cs_fresh s' = cs_fresh s"
  shows "state_ok s \<Longrightarrow> state_ok s'" "grows s s'"
  using assms by (simp_all add: state_ok_def grows_by_def list_all2_refl)

subsection \<open>Safe actions\<close>

definition safe_via :: "(cstate \<Rightarrow> cstate \<Rightarrow> bool) \<Rightarrow> (cstate \<Rightarrow> bool) \<Rightarrow> 'a comp \<Rightarrow> ('a \<Rightarrow> cstate \<Rightarrow> bool) \<Rightarrow> bool" where
  "safe_via R P m Q \<longleftrightarrow>
     (\<forall>s a s1. state_ok s \<longrightarrow> P s \<longrightarrow> m s = Some (a, s1) \<longrightarrow> state_ok s1 \<and> R s s1 \<and> Q a s1)"

abbreviation "safe \<equiv> safe_via grows"

text \<open>Facts that last, in any scope or in the present one.\<close>

definition stable :: "(cstate \<Rightarrow> bool) \<Rightarrow> bool" where
  "stable P \<longleftrightarrow> (\<forall>d s s'. grows_by d s s' \<longrightarrow> P s \<longrightarrow> P s')"

definition stable_here :: "(cstate \<Rightarrow> bool) \<Rightarrow> bool" where
  "stable_here P \<longleftrightarrow> (\<forall>s s'. grows s s' \<longrightarrow> P s \<longrightarrow> P s')"

named_theorems safe_rules

lemma safeI:
  "(\<And>s a s1. state_ok s \<Longrightarrow> P s \<Longrightarrow> m s = Some (a, s1) \<Longrightarrow> state_ok s1 \<and> R s s1 \<and> Q a s1) \<Longrightarrow> safe_via R P m Q"
  by (simp add: safe_via_def)

lemma safeD: "safe_via R P m Q \<Longrightarrow> m s = Some (a, s1) \<Longrightarrow> state_ok s \<Longrightarrow> P s \<Longrightarrow> state_ok s1 \<and> R s s1 \<and> Q a s1"
  by (simp add: safe_via_def)

lemma safe_weaken: "safe_via R P m Q \<Longrightarrow> (\<And>s. P' s \<Longrightarrow> P s) \<Longrightarrow> (\<And>a s. Q a s \<Longrightarrow> Q' a s) \<Longrightarrow> safe_via R P' m Q'"
  unfolding safe_via_def by blast

lemma safe_T: "safe_via R P m Q \<Longrightarrow> safe_via R P m (\<lambda>_ _. True)"
  by (simp add: safe_via_def)

lemma safe_any: "safe_via R (\<lambda>_. True) m Q \<Longrightarrow> safe_via R P m Q"
  by (simp add: safe_via_def)

lemma stable_rules:
  "stable (\<lambda>_. b)" "stable P \<Longrightarrow> stable Q \<Longrightarrow> stable (\<lambda>s. P s \<and> Q s)" "stable P \<Longrightarrow> stable (\<lambda>s. b \<longrightarrow> P s)"
  "(\<And>x. stable (P' x)) \<Longrightarrow> stable (\<lambda>s. \<forall>x\<in>A. P' x s)" "(\<And>x. stable (P' x)) \<Longrightarrow> stable (\<lambda>s. \<forall>x. P' x s)"
  unfolding stable_def by blast+

lemma stable_here_rules:
  "stable P \<Longrightarrow> stable_here P" "stable_here P \<Longrightarrow> stable_here Q \<Longrightarrow> stable_here (\<lambda>s. P s \<and> Q s)"
  unfolding stable_def stable_here_def by blast+

text \<open>Sequencing through relations that compose.\<close>

lemma safe_bnd_via:
  assumes "safe_via Ra P m Qa" "\<And>a. safe_via Rb (P' a) (f a) Q" "\<And>a s s1. P s \<Longrightarrow> Ra s s1 \<Longrightarrow> Qa a s1 \<Longrightarrow> P' a s1"
    "\<And>a b c. Ra a b \<Longrightarrow> Rb b c \<Longrightarrow> Rc a c"
  shows "safe_via Rc P (bnd m f) Q"
proof (rule safeI)
  fix s b s2
  assume s: "state_ok s" "P s" "bnd m f s = Some (b, s2)"
  then obtain a s1 where m: "m s = Some (a, s1)" "f a s1 = Some (b, s2)"
    by (auto simp: bnd_def split: option.splits)
  then show "state_ok s2 \<and> Rc s s2 \<and> Q b s2"
    using safeD [OF assms(1) m(1)] safeD [OF assms(2) m(2)] s assms(3,4) by blast
qed

lemma safe_bnd [safe_rules]:
  assumes "safe P m R" "stable_here P" "\<And>a. safe (\<lambda>s. P s \<and> R a s) (f a) Q"
  shows "safe P (bnd m f) Q"
  by (rule safe_bnd_via [OF assms(1,3)]) (use assms(2) in \<open>auto simp: stable_here_def elim: grows_trans_here\<close>)

lemma safe_thn [safe_rules]:
  assumes "safe P m R" "stable_here P" "\<And>a. safe (\<lambda>s. P s \<and> R a s) n Q"
  shows "safe P (thn m n) Q"
  unfolding thn_def by (rule safe_bnd [OF assms])

lemma safe_yields_any: "(\<And>s. P s \<Longrightarrow> Q a s) \<Longrightarrow> safe P (yields a) Q"
  by (rule safeI) (auto simp: yields_def)

lemma safe_yields: "safe P (yields a) (\<lambda>x s. x = a \<and> P s)"
  by (rule safe_yields_any) simp

lemma safe_T_rules:
  "safe P (yields a) (\<lambda>_ _. True)" "safe P skip (\<lambda>_ _. True)" "safe P (gets f) (\<lambda>_ _. True)"
  "safe P fails Q" "safe P (the_val x) (\<lambda>a _. x = Some a)" "safe P (assume_that b) (\<lambda>_ _. b)"
  by (auto intro!: safeI simp: yields_def skip_def gets_def fails_def the_val_def assume_that_def
      split: option.splits if_splits)

lemma safe_the_val_T: "safe P (the_val x) (\<lambda>_ _. True)"
  by (rule safe_T [OF safe_T_rules(5)])

lemma safe_assume_T: "safe P (assume_that b) (\<lambda>_ _. True)"
  by (rule safe_T [OF safe_T_rules(6)])

lemma safe_drop: "safe P m Q \<Longrightarrow> safe P (drop_val m) (\<lambda>_ _. True)"
  unfolding drop_val_def thn_def
  by (erule safe_bnd_via [where P' = "\<lambda>_ _. True", OF _ safe_T_rules(2)]) (simp, erule grows_trans_here)

lemma safe_whenc: "(b \<Longrightarrow> safe P m (\<lambda>_ _. True)) \<Longrightarrow> safe P (whenc b m) (\<lambda>_ _. True)"
  by (simp add: whenc_def safe_T_rules)

lemma safe_if: "(b \<Longrightarrow> safe P m Q) \<Longrightarrow> (\<not> b \<Longrightarrow> safe P n Q) \<Longrightarrow> safe P (if b then m else n) Q"
  by simp

lemma safe_option:
  "(x = None \<Longrightarrow> safe P m Q) \<Longrightarrow> (\<And>a. x = Some a \<Longrightarrow> safe P (f a) Q) \<Longrightarrow>
     safe P (case x of None \<Rightarrow> m | Some a \<Rightarrow> f a) Q"
  by (cases x) simp_all

lemma safe_list:
  "(x = [] \<Longrightarrow> safe P m Q) \<Longrightarrow> (\<And>a as. x = a # as \<Longrightarrow> safe P (f a as) Q) \<Longrightarrow>
     safe P (case x of [] \<Rightarrow> m | a # as \<Rightarrow> f a as) Q"
  by (cases x) simp_all

lemma safe_prod: "(\<And>a b. x = (a, b) \<Longrightarrow> safe P (f a b) Q) \<Longrightarrow> safe P (case x of (a, b) \<Rightarrow> f a b) Q"
  by (cases x) simp

lemma safe_let: "safe P (f x) Q \<Longrightarrow> safe P (Let x f) Q"
  by simp

lemmas safe_splits =
  safe_if safe_option safe_list
  safe_if [where Q = "\<lambda>_ _. True"] safe_option [where Q = "\<lambda>_ _. True"] safe_list [where Q = "\<lambda>_ _. True"]

lemma safe_seqs_Cons:
  "safe P m R \<Longrightarrow> stable_here P \<Longrightarrow> (\<And>a. safe (\<lambda>s. P s \<and> R a s) (seqs ms) Q) \<Longrightarrow> safe P (seqs (m # ms)) Q"
  by (simp add: safe_thn)

lemma safe_seqs_Nil: "safe P (seqs []) (\<lambda>_ _. True)"
  by (simp add: safe_T_rules)

lemma safe_seqs: "(\<And>m. m \<in> set ms \<Longrightarrow> safe P m (\<lambda>_ _. True)) \<Longrightarrow> stable_here P \<Longrightarrow> safe P (seqs ms) (\<lambda>_ _. True)"
proof (induction ms)
  case (Cons m ms)
  have "safe (\<lambda>s. P s \<and> True) (seqs ms) (\<lambda>_ _. True)" using Cons by (intro safe_weaken [OF Cons.IH]) auto
  then show ?case using Cons.prems by (intro safe_seqs_Cons) auto
qed (rule safe_seqs_Nil)

lemma safe_seqs_map:
  "(\<And>x. x \<in> set xs \<Longrightarrow> safe P (f x) (\<lambda>_ _. True)) \<Longrightarrow> stable_here P \<Longrightarrow> safe P (seqs (map f xs)) (\<lambda>_ _. True)"
  by (rule safe_seqs) auto

subsection \<open>Actions that leave the compilers alone\<close>

lemma safe_modify:
  "(\<And>s. cs_comps (f s) = cs_comps s \<and> cs_fresh (f s) = cs_fresh s) \<Longrightarrow> safe P (modify f) (\<lambda>_ _. True)"
  by (rule safeI) (auto simp: modify_def intro: same_comps)

lemma safe_on_mem: "safe P (on_mem f) (\<lambda>_ _. True)"
  unfolding on_mem_def by (rule safe_modify) simp

lemma safe_on_fnInfo: "safe P (on_fnInfo p f) (\<lambda>_ _. True)"
  unfolding on_fnInfo_def by (rule safe_modify) simp

lemma safe_mem_act: "safe P (mem_act f) (\<lambda>_ _. True)"
  by (rule safeI) (auto simp: mem_act_def intro: same_comps same_comps(1) [rotated 2] split: option.splits)

lemma safe_intern: "safe P (intern env chars) (\<lambda>_ _. True)"
  by (rule safeI) (auto simp: intern_def intro: same_comps same_comps(1) [rotated 2] split: option.splits)

lemma safe_table_set: "safe P (table_set env t k v) (\<lambda>r s. \<exists>hsh eqv. tableSet hsh eqv t k v = Some r)"
  by (rule safeI) (auto simp: table_set_def bnd_def gets_def the_val_def mem_put_def yields_def fails_def
      split: option.splits)

lemma safe_table_get: "safe P (table_get env t k) (\<lambda>r s. \<exists>hsh eqv. tableGet hsh eqv t k = Some r)"
  by (rule safeI) (auto simp: table_get_def bnd_def gets_def the_val_def mem_get_def yields_def fails_def
      split: option.splits)

lemmas safe_basics [safe_rules] = safe_any [OF safe_T_rules(1)] safe_yields

subsection \<open>Facts about the current compiler\<close>

text \<open>A fact that holds of a compiler, and that its development keeps.\<close>

definition at_current :: "(compiler \<Rightarrow> bool) \<Rightarrow> cstate \<Rightarrow> bool" where
  "at_current F s \<longleftrightarrow> (\<exists>c cs. cs_comps s = c # cs \<and> F c)"

definition lasting :: "(compiler \<Rightarrow> bool) \<Rightarrow> bool" where
  "lasting F \<longleftrightarrow> (\<forall>c c'. F c \<longrightarrow> develops c c' \<longrightarrow> F c')"

definition usable :: "operand \<Rightarrow> u32 \<Rightarrow> compiler \<Rightarrow> bool" where
  "usable k w c \<longleftrightarrow> c_hadError c \<or> operand_ok c k w"

definition holds_code :: "iptr \<Rightarrow> opcode \<Rightarrow> compiler \<Rightarrow> bool" where
  "holds_code p code c \<longleftrightarrow> (\<exists>n. is_store (c_iseq c) p = Some n \<and> in_code (nd_insn n) = code)"

definition operand_at :: "operand \<Rightarrow> u32 \<Rightarrow> cstate \<Rightarrow> bool" where
  "operand_at k w = at_current (usable k w)"

definition code_at :: "iptr \<Rightarrow> opcode \<Rightarrow> cstate \<Rightarrow> bool" where
  "code_at p code = at_current (holds_code p code)"

definition was :: "compiler \<Rightarrow> cstate \<Rightarrow> bool" where
  "was c = at_current (develops c)"

lemma stable_at_current: "lasting F \<Longrightarrow> stable (at_current F)"
  unfolding stable_def at_current_def grows_by_def lasting_def by (auto simp: list_all2_Cons1)

lemma lasting_usable: "lasting (usable k w)"
  unfolding lasting_def usable_def using operand_ok_develops by (auto simp: develops_def)

lemma lasting_holds_code: "lasting (holds_code p code)"
  unfolding lasting_def holds_code_def develops_def kept_nodes_def same_shape_def by metis

lemma lasting_develops: "lasting (develops c)"
  unfolding lasting_def using develops_trans by blast

lemma lasting_hadError: "lasting c_hadError"
  by (simp add: lasting_def develops_def)

lemma stable_facts: "stable (operand_at k w)" "stable (code_at p code)" "stable (was c)" "stable (at_current c_hadError)"
  unfolding operand_at_def code_at_def was_def
  by (rule stable_at_current lasting_usable lasting_holds_code lasting_develops lasting_hadError)+

lemma operand_at_plain: "was c s \<Longrightarrow> operand_at PLAIN_WORD w s"
  by (auto simp: was_def operand_at_def at_current_def usable_def operand_ok_def)

lemma safe_current: "safe P current (\<lambda>c s. was c s \<and> (\<exists>fr. compiler_ok fr c))"
  by (rule safeI) (auto simp: current_def was_def at_current_def state_ok_def split: list.splits)

lemma operand_ok_same:
  "c_localCountMax c' = c_localCountMax c \<Longrightarrow> c_upvalues c' = c_upvalues c \<Longrightarrow>
     is_constants (c_iseq c') = is_constants (c_iseq c) \<Longrightarrow> operand_ok c' = operand_ok c"
  by (intro ext) (simp add: operand_ok_def n_constants_def split: operand.split)

text \<open>Changes of the current compiler.\<close>

definition steps :: "iptr \<Rightarrow> compiler \<Rightarrow> compiler \<Rightarrow> bool" where
  "steps fr c c' \<longleftrightarrow> compiler_ok fr c' \<and> develops c c' \<and> c_scopeDepth c' = c_scopeDepth c"

lemma safe_on_current_if:
  assumes "\<And>s c cs. P s \<Longrightarrow> cs_comps s = c # cs \<Longrightarrow> compiler_ok (cs_fresh s) c \<Longrightarrow>
      steps (cs_fresh s) c (f c)"
  shows "safe P (on_current f) (\<lambda>_ _. True)"
proof (rule safeI)
  fix s a s1
  assume s: "state_ok s" "P s" "on_current f s = Some (a, s1)"
  then have s1: "s1 = upd_current f s" by (simp add: on_current_def modify_def)
  show "state_ok s1 \<and> grows s s1 \<and> True"
  proof (cases "cs_comps s")
    case (Cons c cs)
    then have "steps (cs_fresh s) c (f c)" using assms s by (simp add: state_ok_def)
    then show ?thesis using s(1) Cons
      by (auto simp: s1 upd_current_def state_ok_def grows_by_def steps_def intro!: list.rel_refl)
  qed (use s in \<open>simp add: s1 upd_current_def state_ok_def grows_by_def\<close>)
qed

lemma compiler_same:
  assumes "compiler_ok fr c" "c_function c' = c_function c" "c_type c' = c_type c" "c_iseq c' = c_iseq c"
    "c_localCountMax c' = c_localCountMax c" "c_upvalues c' = c_upvalues c" "c_constTbl c' = c_constTbl c"
    "c_hadError c \<longrightarrow> c_hadError c'" "length (c_locals c') \<le> c_localCountMax c" "c_scopeDepth c' = c_scopeDepth c"
  shows "steps fr c c'"
proof -
  have "operand_ok c' = operand_ok c" using assms by (intro operand_ok_same) simp_all
  then have "insn_ok c' = insn_ok c" by (intro ext) (simp add: insn_ok_def)
  then show ?thesis using assms by (auto simp: steps_def compiler_ok_def develops_def n_constants_def)
qed

lemma safe_on_current:
  assumes "\<And>c. c_function (f c) = c_function c \<and> c_type (f c) = c_type c \<and> c_iseq (f c) = c_iseq c \<and>
      c_localCountMax (f c) = c_localCountMax c \<and> c_upvalues (f c) = c_upvalues c \<and>
      c_constTbl (f c) = c_constTbl c \<and> c_hadError (f c) = c_hadError c \<and>
      length (c_locals (f c)) = length (c_locals c) \<and> c_scopeDepth (f c) = c_scopeDepth c"
  shows "safe P (on_current f) (\<lambda>_ _. True)"
  by (rule safe_on_current_if, rule compiler_same) (use assms in \<open>auto simp: compiler_ok_def\<close>)

lemma safe_on_comp_if:
  assumes "\<And>s c. P s \<Longrightarrow> n < length (cs_comps s) \<Longrightarrow> c = cs_comps s ! n \<Longrightarrow> compiler_ok (cs_fresh s) c \<Longrightarrow>
      steps (cs_fresh s) c (f c)"
  shows "safe P (on_comp n f) (\<lambda>_ _. True)"
proof (rule safeI)
  fix s a s1
  assume s: "state_ok s" "P s" "on_comp n f s = Some (a, s1)"
  then have s1: "s1 = s\<lparr>cs_comps := (cs_comps s)[n := f (cs_comps s ! n)]\<rparr>" by (simp add: on_comp_def modify_def)
  show "state_ok s1 \<and> grows s s1 \<and> True"
  proof (cases "n < length (cs_comps s)")
    case True
    then have "steps (cs_fresh s) (cs_comps s ! n) (f (cs_comps s ! n))"
      using assms s by (simp add: state_ok_def)
    then show ?thesis using s(1) True
      by (auto simp: s1 state_ok_def grows_by_def steps_def list_all2_conv_all_nth nth_list_update map_update list_update_same_conv dest!: set_update_subset_insert [THEN subsetD])
  qed (use s in \<open>simp add: s1 state_ok_def grows_by_def list.rel_refl list_update_beyond\<close>)
qed

lemma error_flag: "compiler_ok fr c \<Longrightarrow> steps fr c (c\<lparr>c_hadError := True\<rparr>)"
  by (rule compiler_same) (auto simp: compiler_ok_def)

lemma error_develops: "develops c (c\<lparr>c_hadError := True\<rparr>)"
  by (simp add: develops_def n_constants_def)

lemma list_all2_update:
  "list_all2 R xs ys \<Longrightarrow> R (xs ! i) y \<Longrightarrow> list_all2 R xs (ys[i := y])"
  by (cases "i < length ys") (auto simp: list_all2_conv_all_nth nth_list_update)

text \<open>After an error anything goes for the current compiler.\<close>

lemma error_comps:
  "error msg s = Some (u, s') \<Longrightarrow> cs_fresh s' = cs_fresh s \<and>
     (cs_comps s' = (case cs_comps s of [] \<Rightarrow> [] | c # cs \<Rightarrow>
        (let cs1 = c\<lparr>c_hadError := True\<rparr> # cs; n = length cs in cs1[n := (cs1 ! n)\<lparr>c_hadError := True\<rparr>])))"
proof (cases "cs_comps s")
  case (Cons c cs)
  then show "error msg s = Some (u, s') \<Longrightarrow> ?thesis"
    by (cases cs rule: rev_cases) (auto simp: error_def modify_def upd_top_def upd_current_def Let_def)
qed (auto simp: error_def modify_def upd_top_def upd_current_def)

lemma safe_error: "safe P (error msg) (\<lambda>_ s. cs_comps s = [] \<or> at_current c_hadError s)"
proof (rule safeI)
  fix s a s1
  assume s: "state_ok s" "error msg s = Some (a, s1)"
  show "state_ok s1 \<and> grows s s1 \<and> (cs_comps s1 = [] \<or> at_current c_hadError s1)"
  proof (cases "cs_comps s")
    case (Cons c cs)
    let ?f = "\<lambda>c. c\<lparr>c_hadError := True\<rparr>" and ?n = "length cs"
    let ?cs = "?f c # cs"
    have ok: "compiler_ok (cs_fresh s) x" if "x \<in> set ?cs" for x
      using that s(1) Cons error_flag by (auto simp: state_ok_def steps_def)
    then have n: "compiler_ok (cs_fresh s) (?f (?cs ! ?n))" using error_flag [OF ok [OF nth_mem]] by (simp add: steps_def)
    have "list_all2 develops (c # cs) ?cs" by (simp add: error_develops list.rel_refl)
    moreover have "develops ((c # cs) ! ?n) (?f (?cs ! ?n))"
      by (cases cs) (simp_all add: error_develops develops_trans [OF error_develops error_develops])
    ultimately have dev: "list_all2 develops (c # cs) (?cs[?n := ?f (?cs ! ?n)])" by (rule list_all2_update)
    have "map c_scopeDepth (?cs[?n := ?f (?cs ! ?n)]) = map c_scopeDepth (c # cs)"
      by (cases cs rule: rev_cases) (simp_all add: nth_append)
    then show ?thesis using error_comps [OF s(2)] Cons ok n dev
      by (auto simp: state_ok_def grows_by_def Let_def at_current_def nth_Cons' split: nat.splits
          dest!: set_update_subset_insert [THEN subsetD])
  qed (use error_comps [OF s(2)] s in \<open>simp add: state_ok_def grows_by_def\<close>)
qed

subsection \<open>Emission\<close>

lemma iseqAddInsn_store:
  "iseqAddInsn q p = Some q' \<Longrightarrow> is_store q' r = None \<longleftrightarrow> is_store q r = None"
  by (auto simp: iseqAddInsn_def Let_def upd_node_def split: option.splits prod.splits if_splits)

lemma iseq_rep_new_node:
  assumes "iseq_rep q ps" "is_store q p = None"
  shows "iseq_rep (q\<lparr>is_store := (is_store q)(p \<mapsto> n)\<rparr>) ps" "p \<notin> set ps"
proof -
  show p: "p \<notin> set ps" using assms by (auto simp: iseq_rep_def dest: iseq_links_node)
  then have "insn_of (q\<lparr>is_store := (is_store q)(p \<mapsto> n)\<rparr>) r = insn_of q r" if "r \<in> set ps" for r
    using that by (auto simp: insn_of_def)
  then have "map (insn_of (q\<lparr>is_store := (is_store q)(p \<mapsto> n)\<rparr>)) ps = map (insn_of q) ps" by simp
  then show "iseq_rep (q\<lparr>is_store := (is_store q)(p \<mapsto> n)\<rparr>) ps"
    using assms(1) p by (simp add: iseq_rep_def iseq_links_def del: map_eq_conv)
qed

text \<open>The instruction as emitInsn stores it has the code and the operands it was given.\<close>

definition plain_insn :: "insn \<Rightarrow> insn \<Rightarrow> bool" where
  "plain_insn i j \<longleftrightarrow> in_code i = in_code j \<and> in_numOperands i = in_numOperands j \<and> in_operands i = in_operands j"

lemma insn_ok_plain: "plain_insn i j \<Longrightarrow> insn_ok c i = insn_ok c j"
  by (simp add: plain_insn_def insn_ok_def)

text \<open>Adding a node to the list of a compiler.\<close>

lemma add_node:
  assumes ok: "compiler_ok fr c" and q': "iseqAddInsn ((c_iseq c)\<lparr>is_store := (is_store (c_iseq c))(fr \<mapsto> n)\<rparr>) fr = Some q'"
    and i: "c_hadError c \<or> insn_ok c (nd_insn n)"
  shows "compiler_ok (Suc fr) (c\<lparr>c_iseq := q'\<rparr>)" "develops c (c\<lparr>c_iseq := q'\<rparr>)"
    "holds_code fr (in_code (nd_insn n)) (c\<lparr>c_iseq := q'\<rparr>)"
proof -
  let ?q = "(c_iseq c)\<lparr>is_store := (is_store (c_iseq c))(fr \<mapsto> n)\<rparr>"
  obtain ps where ps: "iseq_rep (c_iseq c) ps" and none: "is_store (c_iseq c) fr = None"
    using ok unfolding compiler_ok_def by blast
  have q: "iseq_rep ?q ps" "fr \<notin> set ps" using iseq_rep_new_node [OF ps none] by auto
  have links: "iseq_links ?q ps" and node: "is_store ?q fr = Some n" using q by (auto simp: iseq_rep_def)
  have r: "iseq_rep q' (ps @ [fr])" "insn_of q' r = insn_of ?q r" "is_constants q' = is_constants (c_iseq c)" for r
    using iseqAddInsn_rep [OF q(1,2) node] iseqAddInsn_spec [OF links q(2) node] q' by auto
  have ins: "nd_insn (the (is_store q' p)) = nd_insn (the (is_store ?q p))" for p using r(2) [of p] by (simp add: insn_of_def)
  have st: "\<exists>m. is_store q' p = Some m \<and> nd_insn m = nd_insn k" if "is_store ?q p = Some k" for p k
    using that iseqAddInsn_store [OF q', of p] ins [of p] by (cases "is_store q' p") simp_all
  have st': "\<exists>k. is_store ?q p = Some k \<and> nd_insn m = nd_insn k" if "is_store q' p = Some m" for p m
    using that iseqAddInsn_store [OF q', of p] ins [of p] by (cases "is_store ?q p") simp_all
  have o: "operand_ok (c\<lparr>c_iseq := q'\<rparr>) = operand_ok c" by (rule operand_ok_same) (simp_all add: r(3))
  then have ik: "insn_ok (c\<lparr>c_iseq := q'\<rparr>) = insn_ok c" by (intro ext) (simp add: insn_ok_def)
  have kept: "kept_nodes (is_store (c_iseq c)) (is_store q')"
    unfolding kept_nodes_def same_shape_def using st none by (metis fun_upd_apply iseq.select_convs(7) iseq.surjective iseq.update_convs(7) option.distinct(1))
  show "develops c (c\<lparr>c_iseq := q'\<rparr>)" using kept by (simp add: develops_def n_constants_def r(3))
  show "holds_code fr (in_code (nd_insn n)) (c\<lparr>c_iseq := q'\<rparr>)"
    using st [of fr n] by (auto simp: holds_code_def)
  have "p < Suc fr" if "is_store q' p \<noteq> None" for p
  proof (cases "p = fr")
    case False
    then have "is_store (c_iseq c) p \<noteq> None" using that iseqAddInsn_store [OF q', of p] by simp
    then show ?thesis using ok unfolding compiler_ok_def by (meson less_SucI)
  qed simp
  moreover have "c_hadError c \<or> (\<forall>p m. is_store q' p = Some m \<longrightarrow> insn_ok c (nd_insn m))"
  proof (cases "c_hadError c")
    case False
    have "insn_ok c (nd_insn m)" if "is_store q' p = Some m" for p m
      using st' [OF that] False ok i by (cases "p = fr") (auto simp: compiler_ok_def)
    then show ?thesis by blast
  qed simp
  ultimately show "compiler_ok (Suc fr) (c\<lparr>c_iseq := q'\<rparr>)"
    using ok r(1,3) ik unfolding compiler_ok_def n_constants_def by simp blast
qed

lemma state_ok_Cons:
  assumes "state_ok s" "cs_comps s = c # cs" "cs_comps s1 = c' # cs" "cs_fresh s \<le> cs_fresh s1"
    "compiler_ok (cs_fresh s1) c'" "develops c c'" "c_scopeDepth c' = c_scopeDepth c"
  shows "state_ok s1 \<and> grows s s1"
  using assms by (auto simp: state_ok_def grows_by_def list.rel_refl intro: compiler_ok_fresh)

lemma emitInsn_result:
  assumes "emitInsn i s = Some (p, s1)"
  obtains c cs q' n where "cs_comps s = c # cs" "p = cs_fresh s" "cs_fresh s1 = Suc p" "plain_insn (nd_insn n) i"
    "iseqAddInsn ((c_iseq c)\<lparr>is_store := (is_store (c_iseq c))(p \<mapsto> n)\<rparr>) p = Some q'"
    "cs_comps s1 = c\<lparr>c_iseq := q'\<rparr> # cs"
proof (cases "cs_comps s")
  case (Cons c cs)
  define j where "j = (let i1 = i\<lparr>in_lineno := cur_line s, in_depth := cs_nodeDepth s, in_width := cs_nodeWidth s\<rparr>
     in if cs_nextInsnIsLabel s then i1\<lparr>in_isLabel := True\<rparr> else i1)"
  let ?n = "\<lparr>nd_insn = j, nd_next = None, nd_prev = None\<rparr>"
  have "plain_insn (nd_insn ?n) i" by (simp add: plain_insn_def j_def Let_def)
  moreover obtain q' where "p = cs_fresh s" "cs_fresh s1 = Suc p" "cs_comps s1 = c\<lparr>c_iseq := q'\<rparr> # cs"
    "iseqAddInsn ((c_iseq c)\<lparr>is_store := (is_store (c_iseq c))(p \<mapsto> ?n)\<rparr>) p = Some q'"
    using assms Cons
    by (auto simp: emitInsn_def new_insn_def j_def bnd_def thn_def on_iseq_def currentIseq_def current_def
        upd_current_def the_val_def on_current_def modify_def yields_def fails_def Let_def
        split: option.splits simp del: fun_upd_apply)
  ultimately show ?thesis using that Cons by blast
qed (use assms in \<open>simp add: emitInsn_def new_insn_def bnd_def thn_def on_iseq_def currentIseq_def current_def upd_current_def Let_def\<close>)

lemma safe_emitInsn:
  assumes "\<And>s c. P s \<Longrightarrow> was c s \<Longrightarrow> in_numOperands i = 0 \<or>
      length (in_operands i) = 3 \<and> in_numOperands i \<le> 3 \<and>
      list_all2 (\<lambda>k w. operand_at k w s) (operands_of (in_code i)) (take (in_numOperands i) (in_operands i))"
  shows "safe P (emitInsn i) (\<lambda>p s. code_at p (in_code i) s)"
proof (rule safeI)
  fix s p s1
  assume s: "state_ok s" "P s" "emitInsn i s = Some (p, s1)"
  obtain c cs q' n where r: "cs_comps s = c # cs" "p = cs_fresh s" "cs_fresh s1 = Suc p" "plain_insn (nd_insn n) i"
    "iseqAddInsn ((c_iseq c)\<lparr>is_store := (is_store (c_iseq c))(p \<mapsto> n)\<rparr>) p = Some q'"
    "cs_comps s1 = c\<lparr>c_iseq := q'\<rparr> # cs"
    using s(3) by (rule emitInsn_result)
  have ok: "compiler_ok (cs_fresh s) c" using s(1) r(1) by (simp add: state_ok_def)
  have "was c s" using r(1) by (simp add: was_def at_current_def)
  moreover have "c_hadError c \<or> operand_at k w s = operand_ok c k w" for k w
    using r(1) by (auto simp: operand_at_def at_current_def usable_def)
  ultimately have "c_hadError c \<or> insn_ok c i" using assms [OF s(2)] by (auto simp: insn_ok_def elim!: list_all2_mono)
  then have "c_hadError c \<or> insn_ok c (nd_insn n)" using insn_ok_plain [OF r(4)] by simp
  note a = add_node [OF ok r(5) [unfolded r(2)] this]
  then show "state_ok s1 \<and> grows s s1 \<and> code_at p (in_code i) s1"
    using state_ok_Cons [OF s(1) r(1,6)] r(2-6) a
    by (auto simp: code_at_def at_current_def plain_insn_def)
qed

definition operands_at :: "opcode \<Rightarrow> u32 list \<Rightarrow> cstate \<Rightarrow> bool" where
  "operands_at code ws s \<longleftrightarrow> list_all2 (\<lambda>k w. operand_at k w s) (operands_of code) ws"

lemma safe_emitOp0: "safe P (emitOp0 code) (\<lambda>p s. code_at p code s)"
  unfolding emitOp0_def using safe_emitInsn [where i = "zero_insn\<lparr>in_code := code\<rparr>"]
  by (simp add: zero_insn_def)

lemma safe_emitOp1:
  "(\<And>s c. P s \<Longrightarrow> was c s \<Longrightarrow> operands_at code [a] s) \<Longrightarrow> safe P (emitOp1 code a) (\<lambda>p s. code_at p code s)"
  unfolding emitOp1_def
  using safe_emitInsn [where P = P and i = "zero_insn\<lparr>in_code := code, in_operands := [a, 0, 0], in_numOperands := 1\<rparr>"]
  by (simp add: operands_at_def)

lemma safe_emitOp2:
  "(\<And>s c. P s \<Longrightarrow> was c s \<Longrightarrow> operands_at code [a, b] s) \<Longrightarrow> safe P (emitOp2 code a b) (\<lambda>p s. code_at p code s)"
  unfolding emitOp2_def
  using safe_emitInsn [where P = P and i = "zero_insn\<lparr>in_code := code, in_operands := [a, b, 0], in_numOperands := 2\<rparr>"]
  by (simp add: operands_at_def take_Cons')

lemma safe_emitOp3:
  "(\<And>s c'. P s \<Longrightarrow> was c' s \<Longrightarrow> operands_at code [a, b, c] s) \<Longrightarrow> safe P (emitOp3 code a b c) (\<lambda>p s. code_at p code s)"
  unfolding emitOp3_def
  using safe_emitInsn [where P = P and i = "zero_insn\<lparr>in_code := code, in_operands := [a, b, c], in_numOperands := 3\<rparr>"]
  by (simp add: operands_at_def take_Cons')

lemma safe_op0: "safe P (op0 code) (\<lambda>_ _. True)"
  unfolding op0_def by (rule safe_drop, rule safe_emitOp0)

lemma safe_op1: "(\<And>s c. P s \<Longrightarrow> was c s \<Longrightarrow> operands_at code [a] s) \<Longrightarrow> safe P (op1 code a) (\<lambda>_ _. True)"
  unfolding op1_def by (rule safe_drop, rule safe_emitOp1)

lemma safe_op2: "(\<And>s c. P s \<Longrightarrow> was c s \<Longrightarrow> operands_at code [a, b] s) \<Longrightarrow> safe P (op2 code a b) (\<lambda>_ _. True)"
  unfolding op2_def by (rule safe_drop, rule safe_emitOp2)

lemma safe_op3: "(\<And>s c'. P s \<Longrightarrow> was c' s \<Longrightarrow> operands_at code [a, b, c] s) \<Longrightarrow> safe P (op3 code a b c) (\<lambda>_ _. True)"
  unfolding op3_def by (rule safe_drop, rule safe_emitOp3)

subsection \<open>Changes of an instruction\<close>

lemma iseq_rep_set_insn:
  assumes "iseq_rep q ps" "is_store q p = Some n" "in_numOperands i = in_numOperands (nd_insn n)"
  shows "iseq_rep (q\<lparr>is_store := (is_store q)(p \<mapsto> n\<lparr>nd_insn := i\<rparr>)\<rparr>) ps"
proof -
  let ?q = "q\<lparr>is_store := (is_store q)(p \<mapsto> n\<lparr>nd_insn := i\<rparr>)\<rparr>"
  have "insn_words (insn_of ?q r) = insn_words (insn_of q r)" for r
    using assms(2,3) by (simp add: insn_of_def insn_words_def)
  then have "words_of (map (insn_of ?q) ps) = words_of (map (insn_of q) ps)"
    by (simp add: words_of_def comp_def)
  then show ?thesis using assms(1,2) by (simp add: iseq_rep_def iseq_links_def lseg_set_insn)
qed

lemma set_node_steps:
  assumes ok: "compiler_ok fr c" and n: "is_store (c_iseq c) p = Some n"
    and i: "in_code i = in_code (nd_insn n)" "in_numOperands i = in_numOperands (nd_insn n)"
    and good: "\<not> c_hadError c \<Longrightarrow> insn_ok c (nd_insn n) \<Longrightarrow> insn_ok c i"
  shows "steps fr c (c\<lparr>c_iseq := (c_iseq c)\<lparr>is_store := (is_store (c_iseq c))(p \<mapsto> n\<lparr>nd_insn := i\<rparr>)\<rparr>\<rparr>)"
proof -
  let ?c = "c\<lparr>c_iseq := (c_iseq c)\<lparr>is_store := (is_store (c_iseq c))(p \<mapsto> n\<lparr>nd_insn := i\<rparr>)\<rparr>\<rparr>"
  have "operand_ok ?c = operand_ok c" by (rule operand_ok_same) simp_all
  then have "insn_ok ?c = insn_ok c" by (intro ext) (simp add: insn_ok_def)
  moreover obtain ps where "iseq_rep (c_iseq c) ps" using ok by (auto simp: compiler_ok_def)
  then have "\<exists>ps. iseq_rep (c_iseq ?c) ps" using iseq_rep_set_insn [OF _ n i(2)] by (intro exI [of _ ps]) simp
  ultimately have "compiler_ok fr ?c"
    using ok n good by (auto simp: compiler_ok_def n_constants_def)
  moreover have "develops c ?c"
    using n i by (auto simp: develops_def n_constants_def kept_nodes_def same_shape_def)
  ultimately show ?thesis by (simp add: steps_def)
qed

lemma safe_upd_insn_if:
  assumes "\<And>i. in_code (f i) = in_code i \<and> in_numOperands (f i) = in_numOperands i"
    "\<And>s c cs n. P s \<Longrightarrow> cs_comps s = c # cs \<Longrightarrow> is_store (c_iseq c) p = Some n \<Longrightarrow> insn_ok c (nd_insn n) \<Longrightarrow>
       insn_ok c (f (nd_insn n))"
  shows "safe P (upd_insn p f) (\<lambda>_ _. True)"
proof (rule safeI)
  fix s a s1
  assume s: "state_ok s" "P s" "upd_insn p f s = Some (a, s1)"
  obtain c cs where c: "cs_comps s = c # cs"
    using s(3) by (cases "cs_comps s") (simp_all add: upd_insn_def on_iseq_def currentIseq_def current_def bnd_def)
  obtain n where n: "is_store (c_iseq c) p = Some n"
    "s1 = upd_current (\<lambda>c'. c'\<lparr>c_iseq := (c_iseq c)\<lparr>is_store := (is_store (c_iseq c))(p \<mapsto> n\<lparr>nd_insn := f (nd_insn n)\<rparr>)\<rparr>\<rparr>) s"
    using s(3) c by (auto simp: upd_insn_def on_iseq_def currentIseq_def current_def bnd_def the_val_def upd_node_def
        on_current_def modify_def yields_def fails_def split: option.splits)
  have "steps (cs_fresh s) c (c\<lparr>c_iseq := (c_iseq c)\<lparr>is_store := (is_store (c_iseq c))(p \<mapsto> n\<lparr>nd_insn := f (nd_insn n)\<rparr>)\<rparr>\<rparr>)"
    using s(1) c n(1) assms(1) assms(2) [OF s(2) c n(1)] by (intro set_node_steps) (auto simp: state_ok_def)
  then show "state_ok s1 \<and> grows s s1 \<and> True"
    using state_ok_Cons [OF s(1) c] c n(2) by (auto simp: steps_def upd_current_def)
qed

lemma safe_upd_insn:
  "(\<And>i. in_code (f i) = in_code i \<and> in_numOperands (f i) = in_numOperands i \<and> in_operands (f i) = in_operands i) \<Longrightarrow>
     safe P (upd_insn p f) (\<lambda>_ _. True)"
  by (rule safe_upd_insn_if) (auto simp: insn_ok_def)

lemma safe_set_label: "safe P (set_label p) (\<lambda>_ _. True)"
  unfolding set_label_def by (rule safe_upd_insn) simp

text \<open>The first operand of a jump is an offset.\<close>

definition plain_first :: "opcode \<Rightarrow> bool" where
  "plain_first code \<longleftrightarrow> operands_of code \<noteq> [] \<and> hd (operands_of code) = PLAIN_WORD"

definition jump_at :: "iptr \<Rightarrow> cstate \<Rightarrow> bool" where
  "jump_at p s \<longleftrightarrow> (\<exists>code. plain_first code \<and> code_at p code s)"

lemma stable_jump_at: "stable (jump_at p)"
  using stable_facts(2) unfolding jump_at_def stable_def by blast

lemma safe_first_operand:
  assumes "\<And>s. P s \<Longrightarrow> jump_at p s"
  shows "safe P (upd_insn p (\<lambda>i. i\<lparr>in_operands := (in_operands i)[0 := w]\<rparr>)) (\<lambda>_ _. True)"
proof (rule safe_upd_insn_if)
  fix s c cs n
  assume a: "P s" "cs_comps s = c # cs" "is_store (c_iseq c) p = Some n" "insn_ok c (nd_insn n)"
  let ?i = "nd_insn n"
  have "plain_first (in_code ?i)" using assms [OF a(1)] a(2,3)
    by (auto simp: jump_at_def code_at_def at_current_def holds_code_def)
  then obtain ks where ks: "operands_of (in_code ?i) = PLAIN_WORD # ks"
    by (cases "operands_of (in_code ?i)") (auto simp: plain_first_def)
  show "insn_ok c (?i\<lparr>in_operands := (in_operands ?i)[0 := w]\<rparr>)"
    using a(4) ks by (cases "in_operands ?i"; cases "in_numOperands ?i") (auto simp: insn_ok_def operand_ok_def)
qed simp

lemma safe_get_insn: "safe P (get_insn p) (\<lambda>i s. code_at p (in_code i) s)"
proof (rule safeI)
  fix s i s1
  assume "state_ok s" "get_insn p s = Some (i, s1)"
  then show "state_ok s1 \<and> grows s s1 \<and> code_at p (in_code i) s1"
    by (cases "cs_comps s")
      (auto simp: get_insn_def currentIseq_def current_def bnd_def the_val_def insn_at_def yields_def fails_def
        code_at_def at_current_def holds_code_def split: option.splits)
qed

lemma safe_currentIseq: "safe P currentIseq (\<lambda>_ _. True)"
  unfolding currentIseq_def by (rule safe_bnd_via [OF safe_current safe_T_rules(1)]) (simp, erule grows_trans_here)

subsection \<open>Constants\<close>

lemma writeEnd_count: "va_count (writeValueArrayEnd a v) = va_count a + 1"
  by (simp add: writeValueArrayEnd_def Let_def va_reserve_def)

lemma set_constants_steps:
  assumes ok: "compiler_ok fr c" and q: "iseqAddConstant (c_iseq c) v = (k, q)"
  shows "steps fr c (c\<lparr>c_iseq := q\<rparr>)" "k = n_constants c" "0 \<le> k" "n_constants (c\<lparr>c_iseq := q\<rparr>) = k + 1"
proof -
  have d: "q = (c_iseq c)\<lparr>is_constants := writeValueArrayEnd (is_constants (c_iseq c)) v\<rparr>" "k = n_constants c"
    using q by (auto simp: iseqAddConstant_def Let_def writeEnd_count n_constants_def)
  show k: "k = n_constants c" "0 \<le> k" "n_constants (c\<lparr>c_iseq := q\<rparr>) = k + 1"
    using d ok by (auto simp: n_constants_def writeEnd_count compiler_ok_def va_ok_def)
  let ?c = "c\<lparr>c_iseq := q\<rparr>"
  have dev: "develops c ?c" using d k by (simp add: develops_def)
  have "insn_ok ?c i" if "insn_ok c i" for i using insn_ok_develops [OF that dev] .
  moreover have "table_values (index_value (n_constants ?c)) (tb_entries (c_constTbl c))"
    using ok k index_value_mono [of "n_constants c" _ "n_constants ?c"]
    unfolding compiler_ok_def table_values_def by auto
  moreover have "iseq_rep q ps = iseq_rep (c_iseq c) ps" for ps
    by (simp add: d iseq_rep_def iseq_links_def insn_of_def cong: map_cong)
  moreover have "va_ok (is_constants q)" using ok d writeValueArrayEnd_spec(1) by (auto simp: compiler_ok_def)
  ultimately show "steps fr c ?c" using ok dev by (auto simp: steps_def compiler_ok_def d(1))
qed

definition constant_slot :: "int \<Rightarrow> compiler \<Rightarrow> bool" where
  "constant_slot k c \<longleftrightarrow> 0 \<le> k \<and> k < n_constants c"

lemma lasting_constant_slot: "lasting (constant_slot k)"
  by (auto simp: lasting_def constant_slot_def develops_def)

lemma constant_slot_usable: "at_current (constant_slot k) s \<Longrightarrow> operand_at CONSTANT_INDEX (word_of_int k) s"
  by (auto simp: at_current_def constant_slot_def operand_at_def usable_def operand_ok_def uint_word_of_int
      dest: order.strict_trans1 [OF zmod_le_nonneg_dividend])

text \<open>Reading the list of instructions and storing it with another constant.\<close>

lemma safe_append_constant:
  assumes "\<And>k. safe (at_current (constant_slot k)) (h k) Q"
  shows "safe P (bnd currentIseq (\<lambda>q. let (k, q1) = iseqAddConstant q v
     in thn (on_current (\<lambda>c. c\<lparr>c_iseq := q1\<rparr>)) (h k))) Q"
proof (rule safeI)
  let ?m = "bnd currentIseq (\<lambda>q. let (k, q1) = iseqAddConstant q v in thn (on_current (\<lambda>c. c\<lparr>c_iseq := q1\<rparr>)) (h k))"
  fix s a s2
  assume s: "state_ok s" "?m s = Some (a, s2)"
  obtain c cs where c: "cs_comps s = c # cs"
    using s(2) by (cases "cs_comps s") (simp_all add: bnd_def currentIseq_def current_def)
  obtain k q where q: "iseqAddConstant (c_iseq c) v = (k, q)" by fastforce
  let ?s1 = "upd_current (\<lambda>c. c\<lparr>c_iseq := q\<rparr>) s"
  have h: "h k ?s1 = Some (a, s2)"
    using s(2) c q by (simp add: bnd_def thn_def currentIseq_def current_def yields_def on_current_def modify_def)
  have ok: "compiler_ok (cs_fresh s) c" using s(1) c by (simp add: state_ok_def)
  note k = set_constants_steps [OF ok q]
  have "state_ok ?s1 \<and> grows s ?s1"
    using state_ok_Cons [OF s(1) c, of ?s1] c k(1) by (auto simp: upd_current_def steps_def)
  moreover have "at_current (constant_slot k) ?s1"
    using c k(3,4) by (simp add: at_current_def upd_current_def constant_slot_def)
  ultimately show "state_ok s2 \<and> grows s s2 \<and> Q a s2"
    using safeD [OF assms h] grows_trans [of 0 s ?s1 0 s2] by auto
qed

lemma safe_store_index:
  assumes "tableSet hsh eqv (c_constTbl c) v (numberToValue (double_of_int k)) = Some (b, t)" "compiler_ok fr c"
  shows "safe (\<lambda>s. at_current (constant_slot k) s \<and> was c s) (on_current (\<lambda>c. c\<lparr>c_constTbl := t\<rparr>)) (\<lambda>_ _. True)"
proof (rule safe_on_current_if)
  fix s c1 cs
  assume a: "at_current (constant_slot k) s \<and> was c s" "cs_comps s = c1 # cs" "compiler_ok (cs_fresh s) c1"
  then have d: "develops c c1" "constant_slot k c1" by (auto simp: was_def at_current_def)
  have "table_values (index_value (n_constants c1)) (tb_entries (c_constTbl c))"
    using assms(2) d(1) index_value_mono [of "n_constants c" _ "n_constants c1"]
    by (auto simp: compiler_ok_def table_values_def develops_def)
  moreover have "index_value (n_constants c1) (numberToValue (double_of_int k))"
    using d(2) by (auto simp: index_value_def constant_slot_def)
  ultimately have t: "table_sized t" "table_values (index_value (n_constants c1)) (tb_entries t)"
    using tableSet_values [OF assms(1)] assms(2) by (auto simp: compiler_ok_def)
  let ?c = "c1\<lparr>c_constTbl := t\<rparr>"
  have "operand_ok ?c = operand_ok c1" by (rule operand_ok_same) simp_all
  then have "insn_ok ?c = insn_ok c1" by (intro ext) (simp add: insn_ok_def)
  then show "steps (cs_fresh s) c1 ?c"
    using t a(3) by (auto simp: steps_def compiler_ok_def develops_def n_constants_def)
qed

text \<open>What a fact about the state says besides.\<close>

lemma safe_pre: "(\<And>s. P s \<Longrightarrow> safe P m Q) \<Longrightarrow> safe P m Q"
  unfolding safe_via_def by blast

lemma safe_store_constant:
  assumes "compiler_ok fr c"
  shows "safe (\<lambda>s. at_current (constant_slot k) s \<and> was c s)
     (bnd (table_set env (c_constTbl c) v (numberToValue (double_of_int k))) (\<lambda>(isNew, t). thn (assume_that isNew)
        (thn (on_current (\<lambda>c. c\<lparr>c_constTbl := t\<rparr>)) (yields (word_of_int k))))) (\<lambda>k s. operand_at CONSTANT_INDEX k s)"
  (is "safe ?R _ _")
proof (rule safe_bnd [OF safe_table_set])
  show st: "stable_here ?R" by (intro stable_here_rules stable_rules stable_facts stable_at_current lasting_constant_slot)
  fix r :: "bool \<times> table"
  obtain isNew t where r: "r = (isNew, t)" by (cases r)
  have "safe ?R (thn (assume_that isNew) (thn (on_current (\<lambda>c. c\<lparr>c_constTbl := t\<rparr>)) (yields (word_of_int k))))
      (\<lambda>k s. operand_at CONSTANT_INDEX k s)"
    if "tableSet hsh eqv (c_constTbl c) v (numberToValue (double_of_int k)) = Some (isNew, t)" for hsh eqv
  proof (rule safe_thn [OF safe_assume_T st], rule safe_thn)
    show "safe (\<lambda>s. ?R s \<and> True) (on_current (\<lambda>c. c\<lparr>c_constTbl := t\<rparr>)) (\<lambda>_ _. True)"
      using safe_store_index [OF that assms] by simp
    show "stable_here (\<lambda>s. ?R s \<and> True)" using st by simp
    show "safe (\<lambda>s. (?R s \<and> True) \<and> True) (yields (word_of_int k)) (\<lambda>k s. operand_at CONSTANT_INDEX k s)"
      by (rule safe_yields_any) (simp add: constant_slot_usable)
  qed
  note key = this
  show "safe (\<lambda>s. ?R s \<and> (\<exists>hsh eqv. tableSet hsh eqv (c_constTbl c) v (numberToValue (double_of_int k)) = Some r))
     (case r of (isNew, t) \<Rightarrow> thn (assume_that isNew)
        (thn (on_current (\<lambda>c. c\<lparr>c_constTbl := t\<rparr>)) (yields (word_of_int k)))) (\<lambda>k s. operand_at CONSTANT_INDEX k s)"
    unfolding r prod.case by (rule safe_pre, elim conjE exE, rule safe_weaken [OF key]) simp_all
qed

lemma safe_add_constant: "safe P (add_constant env v ctype) (\<lambda>k s. operand_at CONSTANT_INDEX k s)"
proof -
  have st: "stable (at_current (constant_slot k))" for k by (rule stable_at_current, rule lasting_constant_slot)
  have ret: "safe (\<lambda>s. at_current (constant_slot k) s \<and> R s) (yields (word_of_int k)) (\<lambda>k s. operand_at CONSTANT_INDEX k s)"
    for k R by (rule safe_yields_any) (simp add: constant_slot_usable)
  show ?thesis unfolding add_constant_def
  proof (rule safe_append_constant, intro safe_if)
    fix k
    assume "(word_of_int k :: u32) > BYTECODE_MAX"
    then show "safe (at_current (constant_slot k)) (thn (error ''Too many constants in one chunk.'') (yields 0))
      (\<lambda>k s. operand_at CONSTANT_INDEX k s)"
      using unsigned_less [where ?'a = nat, of "word_of_int k :: u32"] by (simp add: BYTECODE_MAX_def word_less_nat_alt)
  next
    fix k
    show "safe (at_current (constant_slot k)) (bnd current (\<lambda>c. bnd (table_set env (c_constTbl c) v (numberToValue (double_of_int k)))
          (\<lambda>(isNew, t). thn (assume_that isNew)
             (thn (on_current (\<lambda>c. c\<lparr>c_constTbl := t\<rparr>)) (yields (word_of_int k)))))) (\<lambda>k s. operand_at CONSTANT_INDEX k s)"
    proof (rule safe_bnd [OF safe_current stable_here_rules(1) [OF st]])
      fix c
      show "safe (\<lambda>s. at_current (constant_slot k) s \<and> was c s \<and> (\<exists>fr. compiler_ok fr c))
        (bnd (table_set env (c_constTbl c) v (numberToValue (double_of_int k))) (\<lambda>(isNew, t). thn (assume_that isNew)
          (thn (on_current (\<lambda>c. c\<lparr>c_constTbl := t\<rparr>)) (yields (word_of_int k))))) (\<lambda>k s. operand_at CONSTANT_INDEX k s)"
        by (rule safe_pre, elim conjE exE) (erule safe_weaken [OF safe_store_constant], simp_all)
    qed
  next
    fix k
    show "safe (at_current (constant_slot k)) (yields (word_of_int k)) (\<lambda>k s. operand_at CONSTANT_INDEX k s)"
      by (rule safe_yields_any) (rule constant_slot_usable)
  qed
qed

lemma index_usable:
  assumes "index_value (n_constants c) v" "was c s" "compiler_ok fr c"
  shows "operand_at CONSTANT_INDEX (double_to_u32 ub (valueToNumber v)) s"
proof -
  obtain k where k: "0 \<le> k" "k < n_constants c" "v = numberToValue (double_of_int k)"
    using assms(1) by (auto simp: index_value_def)
  obtain c1 cs where c1: "cs_comps s = c1 # cs" "develops c c1" using assms(2) by (auto simp: was_def at_current_def)
  have "n_constants c1 \<le> 2 ^ 32 \<longrightarrow> uint (double_to_u32 ub (valueToNumber v)) < n_constants c1"
    using k c1(2) double_roundtrip [of k ub]
    by (auto simp: develops_def valueToNumber_def numberToValue_def uint_word_of_int)
  then show ?thesis using c1(1) by (auto simp: operand_at_def at_current_def usable_def operand_ok_def)
qed

lemma safe_makeConstant: "safe P (makeConstant env v ctype) (\<lambda>k s. operand_at CONSTANT_INDEX k s)"
proof (rule safe_any, unfold makeConstant_def, intro safe_if safe_add_constant)
  have r: "safe (\<lambda>s. (True \<and> was c s \<and> (\<exists>fr. compiler_ok fr c)) \<and> (\<exists>hsh eqv. tableGet hsh eqv (c_constTbl c) v = Some found))
      (case found of Some existingIdx \<Rightarrow> yields (double_to_u32 (env_d2u (ce_lx env)) (valueToNumber existingIdx))
        | None \<Rightarrow> add_constant env v ctype) (\<lambda>k s. operand_at CONSTANT_INDEX k s)" for c found
  proof (cases found)
    case (Some i)
    show ?thesis unfolding Some option.case
    proof (rule safe_yields_any, elim conjE exE)
      fix s fr hsh eqv
      assume a: "was c s" "compiler_ok fr c" "tableGet hsh eqv (c_constTbl c) v = Some (Some i)"
      then have "index_value (n_constants c) i" by (auto simp: compiler_ok_def intro: tableGet_value)
      then show "operand_at CONSTANT_INDEX (double_to_u32 (env_d2u (ce_lx env)) (valueToNumber i)) s"
        using a(1,2) by (rule index_usable)
    qed
  qed (simp add: safe_add_constant)
  show "safe (\<lambda>_. True) (bnd current (\<lambda>c. bnd (table_get env (c_constTbl c) v) (\<lambda>found.
        case found of
          Some existingIdx \<Rightarrow> yields (double_to_u32 (env_d2u (ce_lx env)) (valueToNumber existingIdx))
        | None \<Rightarrow> add_constant env v ctype))) (\<lambda>k s. operand_at CONSTANT_INDEX k s)"
    by (intro safe_bnd [OF safe_current] safe_bnd [OF safe_table_get] r stable_here_rules stable_rules stable_facts)
qed

end
