(* ===== verification/Clox_Emit_Rules.thy ===== *)
theory Clox_Emit_Rules
  imports Clox_Emit_Laws
begin

unbundle bit_operations_syntax

text \<open>The rules of the logic of Clox_Emit_Laws for the functions below emitNode: jumps and their
  patching, scopes, upvalues and local variables. Each says that the function is safe and what the
  value it returns satisfies.\<close>

subsection \<open>Rules for the functions of the compiler\<close>

text \<open>Facts that hold in the present scope.\<close>

definition level :: "compiler \<Rightarrow> cstate \<Rightarrow> bool" where
  "level c = at_current (\<lambda>c1. c_scopeDepth c1 = c_scopeDepth c)"

definition in_scope :: "cstate \<Rightarrow> bool" where
  "in_scope = at_current (\<lambda>c. 0 < c_scopeDepth c)"

lemma stable_here_at_current:
  "(\<And>c c'. F c \<Longrightarrow> develops c c' \<Longrightarrow> c_scopeDepth c' = c_scopeDepth c \<Longrightarrow> F c') \<Longrightarrow> stable_here (at_current F)"
  unfolding stable_here_def at_current_def grows_by_def by (fastforce simp: list_all2_Cons1)

lemma stable_here_facts: "stable_here (level c)" "stable_here in_scope"
  unfolding level_def in_scope_def by (rule stable_here_at_current, simp)+

lemma safe_current_level:
  "safe P current (\<lambda>c s. was c s \<and> level c s \<and> (\<exists>fr. compiler_ok fr c))"
  by (rule safeI) (auto simp: current_def was_def level_def at_current_def state_ok_def split: list.splits)

lemmas stability = stable_here_rules(2) stable_here_facts stable_here_rules(1) [OF stable_facts(1)]
  stable_here_rules(1) [OF stable_facts(2)] stable_here_rules(1) [OF stable_facts(3)]
  stable_here_rules(1) [OF stable_facts(4)] stable_here_rules(1) [OF stable_jump_at]
  stable_here_rules(1) [OF stable_rules(1)]

text \<open>Rules in the order in which to try them; those that find out what a value satisfies come before
  those that forget it.\<close>

lemmas safe_leaves =
  safe_error safe_error [THEN safe_T] safe_T_rules safe_the_val_T safe_assume_T safe_yields
  safe_current_level safe_current [THEN safe_T] safe_currentIseq safe_get_insn safe_get_insn [THEN safe_T]
  safe_on_mem safe_on_fnInfo safe_mem_act safe_intern safe_op0 safe_set_label
  safe_makeConstant safe_makeConstant [THEN safe_T]

lemmas safe_struct = safe_bnd safe_thn safe_seqs_Cons safe_seqs_Nil safe_whenc safe_drop safe_splits safe_prod safe_let

lemmas operands_simps = operands_at_def operands_of_def list_all2_Cons1

lemma safe_intern_static: "safe P (intern_static env chars) (\<lambda>_ _. True)"
  unfolding intern_static_def
  by (rule safe_any) (rule safe_struct safe_leaves stability)+

lemma safe_identifierConstant: "safe P (identifierConstant env t) (\<lambda>k s. operand_at CONSTANT_INDEX k s)"
  unfolding identifierConstant_def
  by (rule safe_any) (rule safe_bnd safe_intern_static stability safe_makeConstant)+

lemma safe_emit_plain: "safe P emitNil (\<lambda>_ _. True)" "safe P emitLeave (\<lambda>_ _. True)" "safe P emitCloseUpvalue (\<lambda>_ _. True)"
  by (simp_all add: emitNil_def emitLeave_def emitCloseUpvalue_def safe_op0)

lemma safe_emitReturn: "safe P (emitReturn c) (\<lambda>_ _. True)"
  unfolding emitReturn_def by (rule safe_any) (rule safe_struct safe_leaves stability)+

lemma safe_flags:
  "safe P (on_iseq (upd_node p (\<lambda>n. n\<lparr>nd_insn := (nd_insn n)\<lparr>in_flags := f (nd_insn n)\<rparr>\<rparr>))) (\<lambda>_ _. True)"
  using safe_upd_insn [of "\<lambda>i. i\<lparr>in_flags := f i\<rparr>" P p] by (simp add: upd_insn_def)

lemma safe_emitConstant: "safe P (emitConstant env v ctype) (\<lambda>_ _. True)"
  unfolding emitConstant_def
  by (rule safe_any)
    (rule safe_struct safe_makeConstant safe_emitOp1 safe_leaves stability safe_flags
      | fastforce simp: operands_simps intro: operand_at_plain)+

subsection \<open>Jumps\<close>

lemma safe_emitJump:
  "operands_of code = [PLAIN_WORD] \<Longrightarrow> safe P (emitJump code) (\<lambda>p s. jump_at p s)"
  unfolding emitJump_def jump_at_def
  by (rule safe_weaken [OF safe_emitOp1 [where P = P]])
    (auto simp: operands_at_def plain_first_def intro!: operand_at_plain exI [of _ code])

lemma safe_emitBreak: "safe P emitBreak (\<lambda>_ _. True)"
  unfolding emitBreak_def
  by (rule safe_any) (rule safe_struct safe_emitOp2 [THEN safe_T] safe_leaves stability
      | fastforce simp: operands_simps intro: operand_at_plain)+

lemma safe_insnOffset: "safe P (insnOffset a b) (\<lambda>_ _. True)"
  unfolding insnOffset_def by (rule safe_any) (rule safe_struct safe_leaves stability)+

lemma safe_patchJump:
  assumes "\<And>s. P s \<Longrightarrow> jump_at p s"
  shows "safe P (patchJump p off to) (\<lambda>_ _. True)"
proof (rule safe_weaken)
  show "safe (jump_at p) (patchJump p off to) (\<lambda>_ _. True)"
    unfolding patchJump_def
    by (rule safe_struct safe_first_operand safe_upd_insn safe_leaves safe_insnOffset safe_modify stability | simp; fail)+
qed (use assms in auto)

lemma safe_getInsnTail: "safe P (getInsnTail i) (\<lambda>_ _. True)"
  unfolding getInsnTail_def by (rule safe_any) (rule safe_struct safe_leaves stability)+

lemma safe_between: "safe P (between a b) (\<lambda>_ _. True)"
  unfolding between_def by (rule safe_any) (rule safe_struct safe_leaves stability)+

lemma code_jump: "code_at p code s \<Longrightarrow> plain_first code \<Longrightarrow> jump_at p s"
  by (auto simp: jump_at_def)

lemma plain_first_simps [simp]: "plain_first OP_JUMP" "plain_first OP_BREAK"
  by (simp_all add: plain_first_def operands_of_def)

lemma safe_patch_continue: "safe P (patch_continue p) (\<lambda>_ _. True)"
  unfolding patch_continue_def
  by (rule safe_any)
    (rule safe_struct safe_get_insn safe_getInsnTail safe_patchJump safe_leaves stability
      | fastforce simp: isContinue_def intro: code_jump)+

lemma safe_patchContinuesBetween: "safe P (patchContinuesBetween a b) (\<lambda>_ _. True)"
  unfolding patchContinuesBetween_def
  by (rule safe_any) (rule safe_bnd safe_between stability safe_seqs_map safe_patch_continue)+

lemma safe_emitLoop: "safe P (emitLoop n) (\<lambda>_ _. True)"
  unfolding emitLoop_def
  by (rule safe_any)
    (rule safe_struct safe_emitOp1 safe_upd_insn safe_leaves stability
      | fastforce simp: operands_simps intro: operand_at_plain)+

lemma safe_patch_break: "safe P (patch_break fin off p) (\<lambda>_ _. True)"
  unfolding patch_break_def patchBreak_def
  by (rule safe_any)
    (rule safe_struct safe_get_insn safe_first_operand safe_insnOffset safe_modify safe_leaves stability
      | fastforce simp: isBreak_def intro: code_jump)+

lemma safe_patchBreaks: "safe P (patchBreaks a b off) (\<lambda>_ _. True)"
  unfolding patchBreaks_def
  by (rule safe_any) (rule safe_bnd safe_between stability safe_seqs_map safe_patch_break)+

subsection \<open>Scopes\<close>

lemma was_here: "cs_comps s = c # cs \<Longrightarrow> was c s"
  by (simp add: was_def at_current_def)

lemma safe_pop_locals:
  "safe (at_current (\<lambda>c. length ls \<le> c_localCountMax c)) (pop_locals ls) (\<lambda>_ _. True)"
proof (induction ls)
  case (Cons l ls)
  have st: "stable_here (at_current (\<lambda>c. length (l # ls) \<le> c_localCountMax c))"
    by (rule stable_here_at_current) (auto simp: develops_def)
  have set: "safe P (on_current (\<lambda>c. c\<lparr>c_locals := rev ls\<rparr>)) (\<lambda>_ _. True)"
    if "\<And>s. P s \<Longrightarrow> at_current (\<lambda>c. length (l # ls) \<le> c_localCountMax c) s" for P
  proof (rule safe_on_current_if)
    fix s c cs
    assume a: "P s" "cs_comps s = c # cs" "compiler_ok (cs_fresh s) c"
    then show "steps (cs_fresh s) c (c\<lparr>c_locals := rev ls\<rparr>)"
      using that [OF a(1)] by (intro compiler_same) (auto simp: at_current_def)
  qed
  have rec: "safe P (pop_locals ls) (\<lambda>_ _. True)"
    if "\<And>s. P s \<Longrightarrow> at_current (\<lambda>c. length (l # ls) \<le> c_localCountMax c) s" for P
    by (rule safe_weaken [OF Cons.IH]) (drule that, auto simp: at_current_def)
  show ?case unfolding pop_locals.simps
    by (rule safe_struct safe_current [THEN safe_T] set rec st safe_emit_plain safe_op0 safe_T_rules stability | (simp; fail))+
qed (simp add: safe_T_rules)

text \<open>Entering and leaving a scope.\<close>

abbreviation "safe_open \<equiv> safe_via (grows_by 1)"
abbreviation "safe_close \<equiv> safe_via (grows_by (- 1))"

lemma state_ok_level:
  assumes "state_ok s" "cs_comps s = c # cs" "cs_comps s1 = c\<lparr>c_scopeDepth := c_scopeDepth c + d\<rparr> # cs"
    "cs_fresh s1 = cs_fresh s" "0 \<le> c_scopeDepth c + d"
  shows "state_ok s1 \<and> grows_by d s s1"
proof -
  let ?c = "c\<lparr>c_scopeDepth := c_scopeDepth c + d\<rparr>"
  have "operand_ok ?c = operand_ok c" by (rule operand_ok_same) simp_all
  then have "insn_ok ?c = insn_ok c" by (intro ext) (simp add: insn_ok_def)
  then have "compiler_ok (cs_fresh s) ?c" "develops c ?c"
    using assms(1,2,5) by (auto simp: state_ok_def compiler_ok_def develops_def n_constants_def)
  then show ?thesis using assms by (auto simp: state_ok_def grows_by_def list.rel_refl)
qed

lemma safe_pushScope: "safe_open P (pushScope t) (\<lambda>_ s. in_scope s)"
proof (rule safeI)
  fix s a s1
  assume s: "state_ok s" "pushScope t s = Some (a, s1)"
  then obtain c cs where c: "cs_comps s = c # cs"
    by (cases "cs_comps s") (simp_all add: pushScope_def bnd_def current_def)
  then have s1: "cs_comps s1 = c\<lparr>c_scopeDepth := c_scopeDepth c + 1\<rparr> # cs" "cs_fresh s1 = cs_fresh s"
    using s(2) by (auto simp: pushScope_def bnd_def thn_def gets_def current_def modify_def on_fnInfo_def on_current_def
        upd_current_def skip_def yields_def)
  have "0 \<le> c_scopeDepth c" using s(1) c by (simp add: state_ok_def compiler_ok_def)
  then show "state_ok s1 \<and> grows_by 1 s s1 \<and> in_scope s1"
    using state_ok_level [OF s(1) c s1] s1 by (simp add: in_scope_def at_current_def)
qed

lemma safe_close_scope:
  assumes "\<And>s. P s \<Longrightarrow> in_scope s"
  shows "safe_close P close_scope (\<lambda>_ _. True)"
proof (rule safeI)
  fix s a s1
  assume s: "state_ok s" "P s" "close_scope s = Some (a, s1)"
  obtain c cs where c: "cs_comps s = c # cs" "0 < c_scopeDepth c"
    using assms [OF s(2)] by (auto simp: in_scope_def at_current_def)
  then have s1: "cs_comps s1 = c\<lparr>c_scopeDepth := c_scopeDepth c + - 1\<rparr> # cs" "cs_fresh s1 = cs_fresh s"
    using s(3) by (auto simp: close_scope_def bnd_def thn_def gets_def the_val_def fails_def current_def currentIseq_def
        modify_def on_current_def upd_current_def skip_def yields_def split: option.splits)
  then show "state_ok s1 \<and> grows_by (- 1) s s1 \<and> True"
    using state_ok_level [OF s(1) c(1) s1] c(2) by simp
qed

text \<open>What follows in the scope that is open, up to its end.\<close>

lemma close_bnd:
  assumes "safe P m R" "stable_here P" "\<And>a. safe_close (\<lambda>s. P s \<and> R a s) (f a) Q"
  shows "safe_close P (bnd m f) Q"
  by (rule safe_bnd_via [OF assms(1,3)])
    (use assms(2) grows_trans [where a = 0 and b = "- 1"] in \<open>auto simp: stable_here_def\<close>)

lemma close_thn:
  assumes "safe P m R" "stable_here P" "\<And>a. safe_close (\<lambda>s. P s \<and> R a s) n Q"
  shows "safe_close P (thn m n) Q"
  unfolding thn_def by (rule close_bnd [OF assms])

lemma close_seqs_Cons:
  "safe P m R \<Longrightarrow> stable_here P \<Longrightarrow> (\<And>a. safe_close (\<lambda>s. P s \<and> R a s) (seqs ms) Q) \<Longrightarrow> safe_close P (seqs (m # ms)) Q"
  by (simp add: close_thn)

lemma safe_popScope:
  assumes "\<And>s. P s \<Longrightarrow> in_scope s"
  shows "safe_close P (popScope t) (\<lambda>_ _. True)"
proof -
  let ?locals = "bnd current (\<lambda>c. pop_locals (rev (c_locals c)))"
  let ?ret = "whenc (t = COMPILE_SCOPE_FUNCTION \<or> t = COMPILE_SCOPE_MAIN) (bnd current emitReturn)"
  have pop: "safe (\<lambda>s. in_scope s \<and> was c s \<and> (\<exists>fr. compiler_ok fr c)) (pop_locals (rev (c_locals c))) (\<lambda>_ _. True)" for c
    by (rule safe_weaken [OF safe_pop_locals]) (auto simp: was_def at_current_def compiler_ok_def develops_def)
  have "safe_close in_scope (thn ?locals (thn ?ret (thn close_scope skip))) (\<lambda>_ _. True)"
  proof (rule close_thn)
    show "safe in_scope ?locals (\<lambda>_ _. True)" by (rule safe_bnd safe_current stability pop)+
    show "safe_close (\<lambda>s. in_scope s \<and> True) (thn ?ret (thn close_scope skip)) (\<lambda>_ _. True)"
    proof (rule close_thn)
      show "safe (\<lambda>s. in_scope s \<and> True) ?ret (\<lambda>_ _. True)"
        by (rule safe_any) (rule safe_whenc safe_bnd safe_current stability safe_emitReturn)+
      show "safe_close (\<lambda>s. (in_scope s \<and> True) \<and> True) (thn close_scope skip) (\<lambda>_ _. True)"
        unfolding thn_def
        by (rule safe_bnd_via [OF safe_close_scope [where P = in_scope] safe_T_rules(2), THEN safe_weaken])
          (auto dest: grows_trans [where b = 0])
    qed (rule stability)+
  qed (rule stability)
  then show ?thesis unfolding popScope_def using assms by (auto elim: safe_weaken)
qed

subsection \<open>Upvalues\<close>

definition upvalue_slot :: "nat \<Rightarrow> int \<Rightarrow> cstate \<Rightarrow> bool" where
  "upvalue_slot n i s \<longleftrightarrow> n < length (cs_comps s) \<and> 0 \<le> i \<and> i < int LX_MAX_UPVALUES \<and>
     i < int (length (c_upvalues (cs_comps s ! n)))"

lemma stable_upvalue_slot: "stable (upvalue_slot n i)"
  unfolding stable_def upvalue_slot_def grows_by_def
  by (auto simp: list_all2_conv_all_nth develops_def)

lemma find_upvalue_less: "find_upvalue i b us = Some k \<Longrightarrow> k < length us"
  by (induction us arbitrary: k) (auto split: if_splits)

lemma comp_at_result:
  "comp_at n s = Some (c, s1) \<longleftrightarrow> n < length (cs_comps s) \<and> c = cs_comps s ! n \<and> s1 = s"
  by (auto simp: comp_at_def bnd_def gets_def the_val_def yields_def fails_def)

lemma error_keeps: "state_ok s \<Longrightarrow> error msg s = Some (u, s1) \<Longrightarrow> state_ok s1 \<and> grows s s1"
  using safeD [OF safe_error] by blast

lemma add_upvalue_steps:
  "compiler_ok fr c \<Longrightarrow> length (c_upvalues c) < LX_MAX_UPVALUES \<Longrightarrow> steps fr c (c\<lparr>c_upvalues := c_upvalues c @ [u]\<rparr>)"
proof -
  assume ok: "compiler_ok fr c" "length (c_upvalues c) < LX_MAX_UPVALUES"
  let ?c = "c\<lparr>c_upvalues := c_upvalues c @ [u]\<rparr>"
  have d: "develops c ?c" by (simp add: develops_def n_constants_def)
  then have "insn_ok ?c i" if "insn_ok c i" for i using that insn_ok_develops by blast
  then show ?thesis using ok d by (auto simp: steps_def compiler_ok_def n_constants_def)
qed

lemma safe_addUpvalue: "safe P (addUpvalue n index isLocal) (\<lambda>i s. upvalue_slot n (int i) s)"
proof (rule safeI)
  fix s i s1
  assume s: "state_ok s" "addUpvalue n index isLocal s = Some (i, s1)"
  then have n: "n < length (cs_comps s)" by (auto simp: addUpvalue_def bnd_def comp_at_result split: option.splits)
  let ?c = "cs_comps s ! n"
  have ok: "compiler_ok (cs_fresh s) ?c" using s(1) n by (simp add: state_ok_def)
  then have len: "length (c_upvalues ?c) \<le> LX_MAX_UPVALUES" by (simp add: compiler_ok_def)
  have body: "addUpvalue n index isLocal s =
     (case find_upvalue index isLocal (c_upvalues ?c) of
       Some i \<Rightarrow> yields i
     | None \<Rightarrow>
         if length (c_upvalues ?c) = LX_MAX_UPVALUES
         then thn (error ''Too many closure variables in function.'') (yields 0)
         else thn (on_comp n (\<lambda>c. c\<lparr>c_upvalues := c_upvalues c @ [\<lparr>uv_index = index, uv_isLocal = isLocal\<rparr>]\<rparr>))
              (thn (on_mem (upd_fn (c_function ?c) (\<lambda>f. f\<lparr>fn_upvalueCount := fn_upvalueCount f + 1\<rparr>)))
                 (yields (length (c_upvalues ?c))))) s"
    using n by (simp add: addUpvalue_def bnd_def comp_at_result [of n s _ s, THEN iffD2])
  show "state_ok s1 \<and> grows s s1 \<and> upvalue_slot n (int i) s1"
  proof (cases "find_upvalue index isLocal (c_upvalues ?c)")
    case (Some k)
    then have "i = k" "s1 = s" using s(2) body by (simp_all add: yields_def)
    then show ?thesis using s(1) n len find_upvalue_less [OF Some] by (simp add: upvalue_slot_def)
  next
    case None
    show ?thesis
    proof (cases "length (c_upvalues ?c) = LX_MAX_UPVALUES")
      case True
      then obtain u where "error ''Too many closure variables in function.'' s = Some (u, s1)" "i = 0"
        using s(2) body None by (auto simp: thn_def bnd_def yields_def split: option.splits)
      then have "state_ok s1 \<and> grows s s1" "i = 0" using error_keeps [OF s(1)] by blast+
      moreover have "upvalue_slot n 0 s" using n True by (simp add: upvalue_slot_def LX_MAX_UPVALUES_def)
      ultimately show ?thesis using stable_upvalue_slot by (auto simp: stable_def)
    next
      case False
      let ?f = "\<lambda>c. c\<lparr>c_upvalues := c_upvalues c @ [\<lparr>uv_index = index, uv_isLocal = isLocal\<rparr>]\<rparr>"
      have r: "i = length (c_upvalues ?c)" "cs_comps s1 = (cs_comps s)[n := ?f ?c]" "cs_fresh s1 = cs_fresh s"
        using s(2) body None False
        by (auto simp: thn_def bnd_def yields_def on_comp_def on_mem_def modify_def)
      have st: "steps (cs_fresh s) ?c (?f ?c)" using ok len False by (intro add_upvalue_steps) simp_all
      have "safe (\<lambda>t. t = s) (on_comp n ?f) (\<lambda>_ _. True)" by (rule safe_on_comp_if) (use st in auto)
      then have "state_ok (s\<lparr>cs_comps := (cs_comps s)[n := ?f ?c]\<rparr>) \<and> grows s (s\<lparr>cs_comps := (cs_comps s)[n := ?f ?c]\<rparr>)"
        using s(1) by (auto simp: on_comp_def modify_def dest: safeD)
      then have "state_ok s1 \<and> grows s s1" using r by (simp add: state_ok_def grows_by_def)
      then show ?thesis using r n len False by (simp add: upvalue_slot_def)
    qed
  qed
qed

lemma safe_comp_at: "safe P (comp_at n) (\<lambda>_ _. True)"
  by (rule safeI) (auto simp: comp_at_result)

lemma safe_capture:
  "safe P (on_comp n (\<lambda>e. e\<lparr>c_locals := (c_locals e)[i := (c_locals e ! i)\<lparr>l_isUpvalue := True\<rparr>]\<rparr>)) (\<lambda>_ _. True)"
  by (rule safe_on_comp_if, rule compiler_same) (auto simp: compiler_ok_def)

lemma safe_found_upvalue:
  "safe P (bnd (addUpvalue n j b) (\<lambda>i. yields (int i))) (\<lambda>i s. i \<noteq> - 1 \<longrightarrow> upvalue_slot n i s)"
  by (rule safe_any) (rule safe_bnd safe_addUpvalue stability safe_yields_any | simp)+

lemma safe_resolve_step:
  assumes "\<And>P. safe P (resolve_up k (Suc n) name) (\<lambda>_ _. True)"
  shows "safe P (resolve_up (Suc k) n name) (\<lambda>i s. i \<noteq> - 1 \<longrightarrow> upvalue_slot n i s)"
  unfolding resolve_up.simps Let_def
  apply (rule safe_any)
  apply (rule safe_bnd [OF safe_comp_at])
   apply (rule stability)
  apply (rule safe_if)
   apply (rule safe_thn [OF safe_capture])
    apply (rule stability)+
   apply (rule safe_found_upvalue)
  apply (rule safe_bnd [OF assms])
   apply (rule stability)+
  apply (rule safe_if)
   apply (rule safe_found_upvalue)
  apply (rule safe_yields_any)
  apply simp
  done

lemma safe_resolve_up: "safe P (resolve_up k n name) (\<lambda>i s. i \<noteq> - 1 \<longrightarrow> upvalue_slot n i s)"
proof (induction k arbitrary: n P)
  case 0
  show ?case unfolding resolve_up.simps by (rule safe_yields_any) simp
next
  case (Suc k)
  show ?case by (rule safe_resolve_step) (rule safe_T [OF Suc.IH])
qed

lemma small_word: "0 \<le> i \<Longrightarrow> i < 256 \<Longrightarrow> unat (word_of_int i :: u32) = nat i"
  "0 \<le> i \<Longrightarrow> i < 256 \<Longrightarrow> unat (ucast (word_of_int i :: u8) :: u32) = nat i"
  by (simp_all add: unat_eq_nat_uint uint_word_of_int unsigned_ucast_eq take_bit_eq_mod)

lemma safe_resolveUpvalue:
  "safe P (resolveUpvalue name) (\<lambda>i s. i \<noteq> - 1 \<longrightarrow> operand_at UPVALUE_INDEX (word_of_int i) s)"
  unfolding resolveUpvalue_def
proof (rule safe_any, rule safe_bnd [OF safe_T_rules(3)])
  fix k
  show "safe (\<lambda>s. True \<and> True) (resolve_up k 0 name) (\<lambda>i s. i \<noteq> - 1 \<longrightarrow> operand_at UPVALUE_INDEX (word_of_int i) s)"
  proof (rule safe_weaken [OF safe_resolve_up])
    fix i s
    assume "i \<noteq> - 1 \<longrightarrow> upvalue_slot 0 i s"
    then have "i \<noteq> - 1 \<longrightarrow> at_current (\<lambda>c. 0 \<le> i \<and> i < 256 \<and> i < int (length (c_upvalues c))) s"
      by (cases "cs_comps s") (simp_all add: upvalue_slot_def LX_MAX_UPVALUES_def at_current_def)
    then show "i \<noteq> - 1 \<longrightarrow> operand_at UPVALUE_INDEX (word_of_int i) s"
      using small_word [of i] by (auto simp: operand_at_def at_current_def usable_def operand_ok_def)
  qed simp
qed (rule stability)

subsection \<open>Locals\<close>

lemma add_local_steps:
  assumes "compiler_ok fr c" "length (c_locals c) < UINT8_MAX"
  shows "steps fr c (add_local l c)" "length (c_locals c) < c_localCountMax (add_local l c)"
proof -
  let ?c = "add_local l c"
  have d: "develops c ?c" by (simp add: add_local_def incrLocalCount_def develops_def n_constants_def)
  then have "insn_ok ?c i" if "insn_ok c i" for i using that insn_ok_develops by blast
  then show "steps fr c ?c" "length (c_locals c) < c_localCountMax ?c"
    using assms d by (auto simp: steps_def compiler_ok_def n_constants_def add_local_def incrLocalCount_def)
qed

text \<open>A slot or a constant, as declareVariable returns it: -1 only after an error.\<close>

definition slot_in :: "int \<Rightarrow> compiler \<Rightarrow> bool" where
  "slot_in r c \<longleftrightarrow> - 1 \<le> r \<and> r < int UINT8_MAX \<and> (c_hadError c \<or> r \<noteq> - 1 \<and> nat r < c_localCountMax c)"

lemma lasting_slot_in: "lasting (slot_in r)"
  by (auto simp: lasting_def slot_in_def develops_def)

lemma slot_usable:
  assumes "at_current (slot_in r) s"
  shows "operand_at LOCAL_SLOT (word_of_int r) s" "operand_at LOCAL_SLOT (ucast (word_of_int r :: u8)) s"
proof -
  obtain c cs where c: "cs_comps s = c # cs" "slot_in r c" using assms by (auto simp: at_current_def)
  have "unat (word_of_int r :: u32) = nat r" "unat (ucast (word_of_int r :: u8) :: u32) = nat r" if "r \<noteq> - 1"
    using c(2) that small_word [of r] by (auto simp: slot_in_def UINT8_MAX_def)
  then show "operand_at LOCAL_SLOT (word_of_int r) s" "operand_at LOCAL_SLOT (ucast (word_of_int r :: u8)) s"
    using c by (auto simp: operand_at_def at_current_def usable_def operand_ok_def slot_in_def)
qed


text \<open>Right after the current compiler has been read.\<close>

definition exact :: "compiler \<Rightarrow> cstate \<Rightarrow> bool" where
  "exact c s \<longleftrightarrow> (\<exists>cs. cs_comps s = c # cs)"

lemma safe_bnd_exact:
  assumes "\<And>c. safe (exact c) (f c) Q"
  shows "safe P (bnd current f) Q"
proof (rule safe_bnd_via)
  show "safe P current (\<lambda>c s. exact c s)"
    by (rule safeI) (auto simp: current_def exact_def split: list.splits)
  show "safe (exact c) (f c) Q" for c by (rule assms)
qed (simp, erule grows_trans_here)

lemma safe_exact_thn:
  "safe P m R \<Longrightarrow> (\<And>a. safe (R a) n Q) \<Longrightarrow> safe P (thn m n) Q"
  unfolding thn_def
  by (erule safe_bnd_via [where P' = R and Rb = grows]) (simp_all, erule grows_trans_here)

lemma safe_exact_assume: "(b \<Longrightarrow> safe P n Q) \<Longrightarrow> safe P (thn (assume_that b) n) Q"
  by (simp add: safe_via_def thn_def bnd_def assume_that_def fails_def yields_def)

lemma safe_exact_error: "safe (exact c) (error msg) (\<lambda>_ s. at_current c_hadError s)"
proof (rule safeI)
  fix s a s1
  assume s: "state_ok s" "exact c s" "error msg s = Some (a, s1)"
  then have "state_ok s1 \<and> grows s s1 \<and> (cs_comps s1 = [] \<or> at_current c_hadError s1)"
    using safeD [OF safe_error [where P = "\<lambda>_. True"]] by blast
  then show "state_ok s1 \<and> grows s s1 \<and> at_current c_hadError s1"
    using s(2) by (auto simp: exact_def grows_by_def)
qed

lemma safe_add_local:
  assumes "length (c_locals c) < UINT8_MAX"
  shows "safe (exact c) (on_current (add_local l)) (\<lambda>_ s. at_current (slot_in (int (length (c_locals c)))) s)"
proof (rule safeI)
  fix s a s1
  assume s: "state_ok s" "exact c s" "on_current (add_local l) s = Some (a, s1)"
  then obtain cs where c: "cs_comps s = c # cs" "cs_comps s1 = add_local l c # cs" "cs_fresh s1 = cs_fresh s"
    by (auto simp: exact_def on_current_def modify_def upd_current_def)
  have ok: "compiler_ok (cs_fresh s) c" using s(1) c by (simp add: state_ok_def)
  show "state_ok s1 \<and> grows s s1 \<and> at_current (slot_in (int (length (c_locals c)))) s1"
    using state_ok_Cons [OF s(1) c(1,2)] add_local_steps [OF ok assms, of l] c assms
    by (auto simp: steps_def at_current_def slot_in_def)
qed

lemma stable_here_slot_in: "stable_here (at_current (slot_in r))"
  by (rule stable_here_rules(1), rule stable_at_current, rule lasting_slot_in)

lemma error_slot: "safe (at_current c_hadError) (yields (- 1)) (\<lambda>r s. at_current (slot_in r) s)"
  by (rule safe_yields_any) (auto simp: at_current_def slot_in_def UINT8_MAX_def)

lemma safe_addLocal: "safe P (addLocal env t) (\<lambda>r s. at_current (slot_in r) s)"
  unfolding addLocal_def Let_def
proof (rule safe_bnd_exact, rule safe_if)
  fix c :: compiler
  show "safe (exact c) (thn (error ''Too many local variables'') (yields (- 1))) (\<lambda>r s. at_current (slot_in r) s)"
    by (rule safe_exact_thn safe_exact_error error_slot)+
next
  fix c :: compiler
  assume "\<not> UINT8_MAX \<le> length (c_locals c)"
  then have l: "length (c_locals c) < UINT8_MAX" by simp
  let ?Q = "at_current (slot_in (int (length (c_locals c))))"
  have ret: "safe P (yields (int (length (c_locals c)))) (\<lambda>r s. at_current (slot_in r) s)" if "\<And>s. P s \<Longrightarrow> ?Q s" for P
    using that by (rule safe_yields_any)
  show "safe (exact c) (thn (on_current (add_local \<lparr>l_name = tok_text env t, l_depth = c_scopeDepth c, l_isUpvalue = False,
                 l_popOnScopeEnd = True\<rparr>))
          (bnd (mem_act (allocateString (ce_obj env) (copyString (c_string (tok_text env t)))
                  (lxStringClass (oe_classes (ce_obj env))) NEWOBJ_FLAG_OLD)) (\<lambda>name.
           bnd (gets cs_curScope) (\<lambda>sc.
           thn (on_fnInfo (c_function c) (\<lambda>i. i\<lparr>fi_variables := fi_variables i @
                  [\<lparr>lv_name = name, lv_scope = sc, lv_slot = length (c_locals c),
                     lv_declare_start = is_wordCount (c_iseq c)\<rparr>]\<rparr>))
           (thn (on_mem (upd_fn (c_function c) (\<lambda>f. f\<lparr>fn_variables := fn_variables f @ [name]\<rparr>)))
             (yields (int (length (c_locals c))))))))) (\<lambda>r s. at_current (slot_in r) s)"
    by (rule safe_exact_thn [OF safe_add_local [OF l]])
      (rule safe_bnd safe_thn safe_mem_act safe_on_mem safe_on_fnInfo safe_T_rules(3) stability stable_here_slot_in ret | (simp; fail))+
qed

lemma safe_addFakeLocal: "safe P (addFakeLocal b) (\<lambda>_ _. True)"
  unfolding addFakeLocal_def
proof (rule safe_bnd_exact, rule safe_exact_assume, rule safe_if)
  fix c :: compiler
  assume "\<not> UINT8_MAX \<le> length (c_locals c)"
  then show "safe (exact c) (thn (on_current (add_local \<lparr>l_name = map of_char ''_'', l_depth = c_scopeDepth c,
                  l_isUpvalue = False, l_popOnScopeEnd = b\<rparr>)) (yields (int (length (c_locals c))))) (\<lambda>_ _. True)"
    by (intro safe_exact_thn [OF safe_add_local] safe_T_rules) simp
qed (rule safe_exact_thn safe_exact_error safe_T_rules)+

lemma safe_pushVarSlots: "safe P pushVarSlots (\<lambda>_ _. True)"
  unfolding pushVarSlots_def by (rule safe_drop, rule safe_addFakeLocal)

text \<open>The result of declareVariable is a slot, or at the top level a constant.\<close>

definition variable_in :: "int \<Rightarrow> compiler \<Rightarrow> bool" where
  "variable_in r c \<longleftrightarrow> (if c_scopeDepth c = 0 then usable CONSTANT_INDEX (word_of_int r) c else slot_in r c)"

lemma stable_here_variable: "stable_here (at_current (variable_in r))"
  by (rule stable_here_at_current)
    (use lasting_slot_in lasting_usable in \<open>auto simp: variable_in_def lasting_def\<close>)

lemma variable_at_top: "at_current (variable_in r) s \<Longrightarrow> level c s \<Longrightarrow> c_scopeDepth c = 0 \<Longrightarrow>
    operand_at CONSTANT_INDEX (word_of_int r) s"
  by (auto simp: at_current_def level_def variable_in_def operand_at_def)

lemma variable_in_scope: "at_current (variable_in r) s \<Longrightarrow> level c s \<Longrightarrow> c_scopeDepth c \<noteq> 0 \<Longrightarrow> at_current (slot_in r) s"
  "at_current (variable_in r) s \<Longrightarrow> in_scope s \<Longrightarrow> at_current (slot_in r) s"
  by (auto simp: at_current_def level_def in_scope_def variable_in_def)

lemma safe_table_set_T: "safe P (table_set env t k v) (\<lambda>_ _. True)"
  by (rule safe_T [OF safe_table_set])

lemma safe_declareVariable: "safe P (declareVariable env t) (\<lambda>r s. at_current (variable_in r) s)"
proof -
  let ?P = "\<lambda>c s. True \<and> was c s \<and> level c s \<and> (\<exists>fr. compiler_ok fr c)"
  have st: "stable_here (?P c)" for c by (rule stability)+
  have slot: "safe P (yields r) (\<lambda>r s. at_current (variable_in r) s)"
    if "c_scopeDepth c \<noteq> 0" "\<And>s. P s \<Longrightarrow> level c s \<and> at_current (slot_in r) s" for c r P
    by (rule safe_yields_any) (use that in \<open>fastforce simp: at_current_def level_def variable_in_def\<close>)
  have top: "safe (?P c) (bnd (identifierConstant env t) (\<lambda>k. yields (sint k))) (\<lambda>r s. at_current (variable_in r) s)"
    if "c_scopeDepth c = 0" for c
    by (rule safe_bnd [OF safe_identifierConstant st], rule safe_yields_any)
      (use that in \<open>auto simp: operand_at_def at_current_def level_def variable_in_def\<close>)
  have twice: "safe (?P c) (thn (error msg) (yields (- 1))) (\<lambda>r s. at_current (variable_in r) s)"
    if "c_scopeDepth c \<noteq> 0" for c msg
    by (rule safe_thn [OF safe_error st], rule slot [OF that])
      (auto simp: was_def at_current_def slot_in_def UINT8_MAX_def)
  have new: "safe (?P c) (bnd (addLocal env t) (\<lambda>index.
       thn (whenc (index \<ge> 0)
         (bnd (intern env (c_string (tok_text env t))) (\<lambda>p.
          bnd (gets (\<lambda>s. fn_at (cs_mem s) (c_function c))) (\<lambda>fo.
          bnd (the_val fo) (\<lambda>f.
          bnd (table_set env (fn_localsTable f) (OBJ_VAL p) (numberToValue (double_of_int index))) (\<lambda>(_, t).
            on_mem (upd_fn (c_function c) (\<lambda>f. f\<lparr>fn_localsTable := t\<rparr>))))))))
       (yields index))) (\<lambda>r s. at_current (variable_in r) s)" if "c_scopeDepth c \<noteq> 0" for c
  proof (rule safe_bnd [OF safe_addLocal st])
    fix r
    let ?R = "\<lambda>s. ?P c s \<and> at_current (slot_in r) s"
    have st': "stable_here ?R" by (rule stability stable_here_slot_in)+
    show "safe ?R (thn (whenc (r \<ge> 0)
         (bnd (intern env (c_string (tok_text env t))) (\<lambda>p.
          bnd (gets (\<lambda>s. fn_at (cs_mem s) (c_function c))) (\<lambda>fo.
          bnd (the_val fo) (\<lambda>f.
          bnd (table_set env (fn_localsTable f) (OBJ_VAL p) (numberToValue (double_of_int r))) (\<lambda>(_, t).
            on_mem (upd_fn (c_function c) (\<lambda>f. f\<lparr>fn_localsTable := t\<rparr>))))))))
       (yields r)) (\<lambda>r s. at_current (variable_in r) s)"
    proof (rule safe_thn [OF _ st'])
      show "safe ?R (whenc (r \<ge> 0)
         (bnd (intern env (c_string (tok_text env t))) (\<lambda>p.
          bnd (gets (\<lambda>s. fn_at (cs_mem s) (c_function c))) (\<lambda>fo.
          bnd (the_val fo) (\<lambda>f.
          bnd (table_set env (fn_localsTable f) (OBJ_VAL p) (numberToValue (double_of_int r))) (\<lambda>(_, t).
            on_mem (upd_fn (c_function c) (\<lambda>f. f\<lparr>fn_localsTable := t\<rparr>)))))))) (\<lambda>_ _. True)"
        by (rule safe_any) (rule safe_whenc safe_bnd safe_prod safe_intern safe_T_rules(3) safe_the_val_T
            safe_table_set_T safe_on_mem stability)+
    qed (rule slot [OF that], simp)
  qed
  show ?thesis unfolding declareVariable_def
    by (rule safe_any, rule safe_bnd [OF safe_current_level], rule stability)
      (rule safe_if top twice new | assumption)+
qed

text \<open>Using a variable.\<close>

lemma safe_defineVariable:
  "safe (\<lambda>s. at_current (variable_in r) s \<and> w = word_of_int r) (defineVariable w) (\<lambda>_ _. True)"
  unfolding defineVariable_def
proof (rule safe_bnd [OF safe_current_level])
  show "stable_here (\<lambda>s. at_current (variable_in r) s \<and> w = word_of_int r)"
    by (rule stability stable_here_variable)+
  fix c
  have set: "safe P (on_current (\<lambda>c. c\<lparr>c_locals := (c_locals c)[i := (c_locals c ! i)\<lparr>l_depth := c_scopeDepth c\<rparr>]\<rparr>)) (\<lambda>_ _. True)"
    for P i by (rule safe_on_current) simp
  show "safe (\<lambda>s. (at_current (variable_in r) s \<and> w = word_of_int r) \<and> was c s \<and> level c s \<and> (\<exists>fr. compiler_ok fr c))
    (if c_scopeDepth c = 0 then op1 OP_DEFINE_GLOBAL w
     else seqs [assume_that (unat w < LX_MAX_LOCALS),
       on_current (\<lambda>c. c\<lparr>c_locals := (c_locals c)[unat w := (c_locals c ! unat w)\<lparr>l_depth := c_scopeDepth c\<rparr>]\<rparr>)]) (\<lambda>_ _. True)"
  proof (rule safe_if)
    assume "c_scopeDepth c = 0"
    then show "safe (\<lambda>s. (at_current (variable_in r) s \<and> w = word_of_int r) \<and> was c s \<and> level c s \<and> (\<exists>fr. compiler_ok fr c))
      (op1 OP_DEFINE_GLOBAL w) (\<lambda>_ _. True)"
      by (intro safe_op1) (auto simp: operands_simps intro: variable_at_top)
  qed (rule safe_any, (rule safe_seqs_Cons safe_seqs_Nil safe_assume_T set stability)+)
qed

lemma resolve_rev_range: "resolve_rev name ls \<noteq> - 1 \<Longrightarrow> 0 \<le> resolve_rev name ls \<and> resolve_rev name ls < int (length ls)"
  by (induction ls) (auto split: if_splits)

lemma resolveLocal_slot:
  assumes "resolveLocal c name \<noteq> - 1" "was c s" "compiler_ok fr c"
  shows "at_current (slot_in (resolveLocal c name)) s"
proof -
  have "0 \<le> resolveLocal c name" "resolveLocal c name < int (length (c_locals c))"
    using resolve_rev_range [of name "rev (c_locals c)"] assms(1) by (simp_all add: resolveLocal_def)
  then show ?thesis using assms(2,3)
    by (fastforce simp: was_def at_current_def slot_in_def develops_def compiler_ok_def)
qed

lemma safe_varInfo:
  "safe P (bnd (intern env n) (\<lambda>p.
        bnd current (\<lambda>c. bnd (gets cs_mem) (\<lambda>m. bnd (gets (\<lambda>s. cs_fnInfo s (c_function c))) (\<lambda>io.
        bnd (the_val io) (\<lambda>i.
        bnd (the_val (addVarInfo (mem_put (ce_lx env) m) (fi_chunk i) (OBJ_VAL p) v)) (\<lambda>ck.
          on_fnInfo (c_function c) (\<lambda>i. i\<lparr>fi_chunk := ck\<rparr>)))))))) (\<lambda>_ _. True)"
  by (rule safe_any) (rule safe_bnd safe_intern safe_current [THEN safe_T] safe_T_rules(3) safe_the_val_T safe_on_fnInfo stability)+

lemma safe_emit_slot:
  assumes "operands_of code = [k, CONSTANT_INDEX]" "\<And>s. P s \<Longrightarrow> operand_at k (word_of_int r) s"
  shows "safe P (emit_slot env t code r) (\<lambda>_ _. True)"
proof (rule safe_weaken)
  show "safe (operand_at k (word_of_int r)) (emit_slot env t code r) (\<lambda>_ _. True)"
    unfolding emit_slot_def
    by (rule safe_bnd safe_seqs_Cons safe_seqs_Nil safe_whenc safe_identifierConstant safe_op2 safe_varInfo stability
        | simp add: operands_at_def assms(1); fail)+
qed (use assms in auto)

lemma safe_namedVariable: "safe P (namedVariable env t g) (\<lambda>_ _. True)"
  unfolding namedVariable_def Let_def
proof (rule safe_any, rule safe_bnd [OF safe_current], rule stability, rule safe_if)
  fix c
  assume "resolveLocal c (tok_text env t) \<noteq> - 1"
  then show "safe (\<lambda>s. True \<and> was c s \<and> (\<exists>fr. compiler_ok fr c))
    (emit_slot env t (if g = VAR_SET then OP_SET_LOCAL else OP_GET_LOCAL) (resolveLocal c (tok_text env t))) (\<lambda>_ _. True)"
    by (intro safe_emit_slot [where k = LOCAL_SLOT]) (auto simp: operands_of_def intro: slot_usable resolveLocal_slot)
next
  fix c
  show "safe (\<lambda>s. True \<and> was c s \<and> (\<exists>fr. compiler_ok fr c)) (bnd (resolveUpvalue (tok_text env t)) (\<lambda>up.
          if up \<noteq> - 1
          then emit_slot env t (if g = VAR_SET then OP_SET_UPVALUE else OP_GET_UPVALUE) up
          else bnd (identifierConstant env t) (\<lambda>k.
            op1 (if g = VAR_SET then OP_SET_GLOBAL else OP_GET_GLOBAL) k))) (\<lambda>_ _. True)"
  proof (rule safe_any, rule safe_bnd [OF safe_resolveUpvalue], rule stability, rule safe_if)
    fix up :: int
    assume "up \<noteq> - 1"
    then show "safe (\<lambda>s. True \<and> (up \<noteq> - 1 \<longrightarrow> operand_at UPVALUE_INDEX (word_of_int up) s))
      (emit_slot env t (if g = VAR_SET then OP_SET_UPVALUE else OP_GET_UPVALUE) up) (\<lambda>_ _. True)"
      by (intro safe_emit_slot [where k = UPVALUE_INDEX]) (auto simp: operands_of_def)
  qed (rule safe_any, (rule safe_bnd safe_identifierConstant stability safe_op1 | simp add: operands_simps operands_of_def; fail)+)
qed

end
