(* ===== verification/Clox_Compile_Laws.thy ===== *)
theory Clox_Compile_Laws
  imports Clox_Emit_Node Clox_Emit_Rules
begin

unbundle bit_operations_syntax

text \<open>Every function that emits a kind of node is safe when the actions for its children are: the
  invariant of Clox_Emit_Laws holds throughout the compilation of a tree.\<close>

subsection \<open>Children\<close>

abbreviation harmless :: "'a comp \<Rightarrow> bool" where
  "harmless m \<equiv> (\<forall>P. safe P m (\<lambda>_ _. True))"

lemma harmlessI: "safe (\<lambda>_. True) m (\<lambda>_ _. True) \<Longrightarrow> harmless m"
  by (blast intro: safe_any)

lemma harmlessD: "harmless m \<Longrightarrow> safe P m (\<lambda>_ _. True)"
  by blast

lemma harmless_seqs: "\<forall>m\<in>set ms. harmless m \<Longrightarrow> harmless (seqs ms)"
  by (rule harmlessI, rule safe_seqs) (auto intro: stability)

lemma harmless_emitChildren: "\<forall>m\<in>set ms. harmless m \<Longrightarrow> harmless (emitChildren ms)"
  unfolding emitChildren_def
  by (rule harmlessI) (rule safe_bnd safe_seqs_Cons safe_seqs_Nil safe_T_rules(3) safe_modify stability harmlessD harmless_seqs | simp; fail)+

lemma harmless_emit_child: "\<forall>m\<in>set ms. harmless m \<Longrightarrow> harmless (emit_child ms i)"
  by (auto simp: emit_child_def intro: safe_T_rules)

lemma safe_child: "safe P (child xs i) (\<lambda>_ _. True)"
  by (simp add: child_def safe_the_val_T)

lemma safe_tok_of: "safe P (tok_of n) (\<lambda>_ _. True)"
  by (simp add: tok_of_def safe_the_val_T)

lemmas node_leaves = safe_leaves safe_emit_plain safe_emitReturn safe_emitBreak safe_identifierConstant safe_child
  safe_tok_of safe_emitConstant safe_namedVariable safe_emitLoop safe_patchBreaks safe_patchContinuesBetween
  safe_addFakeLocal safe_pushVarSlots safe_insnOffset safe_patchJump safe_modify safe_upd_insn

lemmas node_struct = safe_bnd safe_thn safe_seqs_Cons safe_seqs_Nil safe_whenc safe_drop safe_splits safe_prod safe_let

subsection \<open>Expressions\<close>

lemma binary_code_plain: "binary_code t = Some code \<Longrightarrow> operands_of code = []"
  by (auto simp: binary_code_def operands_of_def split: token_type.splits)

lemma safe_emitBinaryOp: "safe P (emitBinaryOp tok) (\<lambda>_ _. True)"
  unfolding emitBinaryOp_def by (rule safe_any) (rule node_struct node_leaves stability)+

lemma harmless_binary: "\<forall>m\<in>set ms. harmless m \<Longrightarrow> harmless (emit_binary env tok a ms kids)"
  unfolding emit_binary_def
  by (rule harmlessI) (rule node_struct node_leaves safe_emitBinaryOp stability harmlessD harmless_emitChildren | assumption)+

lemma harmless_logical_with:
  "harmless lhs \<Longrightarrow> harmless rhs \<Longrightarrow> operands_of jc = [PLAIN_WORD] \<Longrightarrow> harmless (emit_logical_with jc code lhs rhs)"
  unfolding emit_logical_with_def
  by (rule harmlessI) (rule node_struct safe_emitJump node_leaves stability harmlessD | assumption | simp; fail)+

lemma harmless_logical: "harmless lhs \<Longrightarrow> harmless rhs \<Longrightarrow> harmless (emit_logical tok lhs rhs)"
  unfolding emit_logical_def by (auto intro: safe_T_rules harmlessD [OF harmless_logical_with] simp: operands_of_def)

lemma harmless_unary: "harmless m \<Longrightarrow> harmless (emit_unary tok m)"
  unfolding emit_unary_def
  by (rule harmlessI) (rule node_struct node_leaves stability harmlessD | assumption)+

lemma safe_string_constant: "safe P (string_constant env t) (\<lambda>k s. operand_at CONSTANT_INDEX k s)"
  unfolding string_constant_def
  by (rule safe_any) (rule safe_bnd safe_intern_static stability safe_makeConstant)+

lemma harmless_literal: "harmless (emit_literal env tok lit)"
  unfolding emit_literal_def numberLiteral_def
  by (rule harmlessI)
    (rule node_struct safe_string_constant safe_op1 safe_op2 node_leaves stability
      | fastforce simp: operands_simps intro: operand_at_plain)+

lemma harmless_reversed: "\<forall>m\<in>set ms. harmless m \<Longrightarrow> \<forall>m\<in>set (reversed e ms). harmless m"
  by (simp add: reversed_def)

lemma harmless_array: "\<forall>m\<in>set ms. harmless m \<Longrightarrow> harmless (emit_array env e ms kids)"
  unfolding emit_array_def
  by (rule harmlessI)
    (rule node_struct safe_seqs_map safe_makeConstant safe_op1 node_leaves stability harmlessD harmless_emitChildren
      harmless_reversed | assumption | fastforce simp: operands_simps intro: operand_at_plain)+

lemma harmless_map: "\<forall>m\<in>set ms. harmless m \<Longrightarrow> harmless (emit_map env e ms kids)"
  unfolding emit_map_def
  by (rule harmlessI)
    (rule node_struct safe_seqs_map safe_makeConstant safe_op1 node_leaves stability harmlessD harmless_emitChildren
      harmless_reversed | assumption | fastforce simp: operands_simps intro: operand_at_plain)+

lemma harmless_assign: "harmless r \<Longrightarrow> harmless (emit_assign env r v)"
  unfolding emit_assign_def
  by (rule harmlessI)
    (rule node_struct safe_op1 node_leaves stability harmlessD | assumption
      | fastforce simp: operands_simps intro: operand_at_plain)+

lemma harmless_constant_lookup: "\<forall>m\<in>set ms. harmless m \<Longrightarrow> harmless (emit_constant_lookup env tok ms)"
  unfolding emit_constant_lookup_def
  by (rule harmlessI)
    (rule node_struct safe_op1 node_leaves stability harmlessD harmless_emitChildren | assumption
      | fastforce simp: operands_simps intro: operand_at_plain)+

lemma harmless_prop_set_binop:
  "harmless obj \<Longrightarrow> harmless get \<Longrightarrow> harmless val \<Longrightarrow> harmless (emit_prop_set_binop env tok obj get val t)"
  unfolding emit_prop_set_binop_def
  by (rule harmlessI)
    (rule node_struct safe_op1 safe_emitBinaryOp node_leaves stability harmlessD | assumption
      | fastforce simp: operands_simps intro: operand_at_plain)+

subsection \<open>Statements\<close>

lemma push_bnd:
  assumes "safe_open P m R" "stable P" "\<And>a. safe_close (\<lambda>s. P s \<and> R a s) (f a) Q"
  shows "safe P (bnd m f) Q"
  by (rule safe_bnd_via [OF assms(1,3)])
    (use assms(2) in \<open>auto simp: stable_def dest: grows_trans [where a = 1 and b = "- 1"]\<close>)

lemma push_thn:
  assumes "safe_open P m R" "stable P" "\<And>a. safe_close (\<lambda>s. P s \<and> R a s) n Q"
  shows "safe P (thn m n) Q"
  unfolding thn_def by (rule push_bnd [OF assms])

lemma push_seqs_Cons:
  "safe_open P m R \<Longrightarrow> stable P \<Longrightarrow> (\<And>a. safe_close (\<lambda>s. P s \<and> R a s) (seqs ms) Q) \<Longrightarrow> safe P (seqs (m # ms)) Q"
  by (simp add: push_thn)

lemma pop_thn:
  assumes "safe_close P m R" "\<And>s. P s \<Longrightarrow> P' s" "stable P'" "\<And>a. safe (\<lambda>s. P' s \<and> R a s) n Q"
  shows "safe_close P (thn m n) Q"
  unfolding thn_def
proof (rule safe_bnd_via [OF assms(1,4)])
  fix a s s1
  assume "P s" "grows_by (- 1) s s1" "R a s1"
  then show "P' s1 \<and> R a s1" using assms(2,3) unfolding stable_def by blast
qed (use grows_trans [where a = "- 1" and b = 0] in auto)

text \<open>The end of a scope in a list of actions; the facts of the scope are forgotten.\<close>

lemma close_seqs:
  assumes "\<And>s. P s \<Longrightarrow> in_scope s" "safe (\<lambda>_. True) (seqs ms) Q"
  shows "safe_close P (seqs (popScope t # ms)) Q"
  unfolding seqs.simps
  by (rule pop_thn [OF safe_popScope, where P' = "\<lambda>_. True"]) (use assms in \<open>auto intro: stable_rules safe_any\<close>)

lemmas push_rules = push_seqs_Cons [OF safe_pushScope] push_thn [OF safe_pushScope]
lemmas close_rules = close_seqs close_seqs_Cons close_bnd close_thn

lemmas firm = stable_rules(2) stable_facts stable_jump_at stable_rules(1)

lemma close_let: "safe_close P (f x) Q \<Longrightarrow> safe_close P (Let x f) Q"
  by simp

lemma harmless_option:
  "(x = None \<Longrightarrow> harmless m) \<Longrightarrow> (\<And>a. x = Some a \<Longrightarrow> harmless (f a)) \<Longrightarrow>
    harmless (case x of None \<Rightarrow> m | Some a \<Rightarrow> f a)"
  by (cases x) simp_all

lemma harmless_if:
  assumes "harmless cond" "harmless body" "\<And>m. other = Some m \<Longrightarrow> harmless m"
  shows "harmless (emit_if cond body other)"
  unfolding emit_if_def
  by (rule harmlessI)
    (rule push_rules close_rules node_struct safe_emitJump node_leaves stability firm assms [THEN harmlessD]
      | assumption | simp add: operands_of_def; fail)+

lemma harmless_skip: "harmless skip"
  by (simp add: safe_T_rules)

lemma harmless_in_loop: "harmless m \<Longrightarrow> harmless block \<Longrightarrow> harmless (in_loop lt m block)"
  unfolding in_loop_def
  by (rule harmlessI) (rule node_struct node_leaves stability harmlessD | assumption | simp; fail)+

lemma in_loop_body:
  assumes "harmless block"
  shows "safe in_scope (bnd current (\<lambda>c. bnd (gets cs_loopLocalCount) (\<lambda>n. seqs [
       modify (\<lambda>s. s\<lparr>cs_loopLocalCount := int (length (c_locals c))\<rparr>),
       block,
       modify (\<lambda>s. s\<lparr>cs_loopLocalCount := n\<rparr>),
       modify (\<lambda>s. s\<lparr>cs_curLoopType := t\<rparr>)]))) (\<lambda>_ s. in_scope s)"
proof -
  let ?m = "bnd current (\<lambda>c. bnd (gets cs_loopLocalCount) (\<lambda>n. seqs [
       modify (\<lambda>s. s\<lparr>cs_loopLocalCount := int (length (c_locals c))\<rparr>),
       block,
       modify (\<lambda>s. s\<lparr>cs_loopLocalCount := n\<rparr>),
       modify (\<lambda>s. s\<lparr>cs_curLoopType := t\<rparr>)]))"
  have "harmless ?m"
    by (rule harmlessI) (rule node_struct node_leaves stability harmlessD assms | simp; fail)+
  then have "safe in_scope ?m (\<lambda>_ _. True)" by blast
  then show ?thesis using stable_here_facts(2) unfolding safe_via_def stable_here_def by blast
qed

lemma open_in_loop:
  assumes "harmless block"
  shows "safe_open P (in_loop lt (pushScope st) block) (\<lambda>_ s. in_scope s)"
proof -
  have "safe_open (\<lambda>_. True) (in_loop lt (pushScope st) block) (\<lambda>_ s. in_scope s)"
    unfolding in_loop_def thn_def
  proof (rule safe_bnd_via [OF safe_T_rules(3)])
    fix oldLoopType
    show "safe_open (\<lambda>_. True) (bnd (modify (\<lambda>s. s\<lparr>cs_curLoopType := lt\<rparr>)) (\<lambda>_. bnd (pushScope st) (\<lambda>_.
      bnd current (\<lambda>c. bnd (gets cs_loopLocalCount) (\<lambda>n. seqs [
       modify (\<lambda>s. s\<lparr>cs_loopLocalCount := int (length (c_locals c))\<rparr>),
       block,
       modify (\<lambda>s. s\<lparr>cs_loopLocalCount := n\<rparr>),
       modify (\<lambda>s. s\<lparr>cs_curLoopType := oldLoopType\<rparr>)]))))) (\<lambda>_ s. in_scope s)"
    proof (rule safe_bnd_via [OF safe_modify])
      show "safe_open (\<lambda>_. True) (bnd (pushScope st) (\<lambda>_.
        bnd current (\<lambda>c. bnd (gets cs_loopLocalCount) (\<lambda>n. seqs [
         modify (\<lambda>s. s\<lparr>cs_loopLocalCount := int (length (c_locals c))\<rparr>),
         block,
         modify (\<lambda>s. s\<lparr>cs_loopLocalCount := n\<rparr>),
         modify (\<lambda>s. s\<lparr>cs_curLoopType := oldLoopType\<rparr>)])))) (\<lambda>_ s. in_scope s)"
        by (rule safe_bnd_via [OF safe_pushScope in_loop_body [OF assms]])
          (auto dest: grows_trans [where a = 1 and b = 0])
    qed (auto dest: grows_trans [where a = 0 and b = 1])
  qed (auto dest: grows_trans [where a = 0 and b = 1])
  then show ?thesis by (rule safe_any)
qed

lemmas loop_push = push_thn [OF open_in_loop]

lemma harmless_while:
  assumes "harmless cond" "harmless block"
  shows "harmless (emit_while cond block)"
  unfolding emit_while_def
  by (rule harmlessI)
    (rule loop_push push_rules close_rules close_let node_struct safe_emitJump node_leaves stability firm
      assms assms [THEN harmlessD] | assumption | simp add: operands_of_def; fail)+

lemma harmless_opt: "(\<And>m. x = Some m \<Longrightarrow> harmless m) \<Longrightarrow> harmless d \<Longrightarrow> harmless (case x of Some m \<Rightarrow> m | None \<Rightarrow> d)"
  by (cases x) simp_all

lemma harmless_for:
  assumes "\<And>m. init = Some m \<Longrightarrow> harmless m" "\<And>m. test = Some m \<Longrightarrow> harmless m" "\<And>m. incr = Some m \<Longrightarrow> harmless m"
    "harmless block"
  shows "harmless (emit_for init test incr block)"
  unfolding emit_for_def
  by (rule harmlessI)
    (rule push_rules close_rules close_let node_struct safe_emitJump node_leaves stability firm
      assms(1-3) [THEN harmlessD] harmlessD [OF harmless_in_loop [OF harmless_skip assms(4)]]
      | assumption | simp add: operands_of_def; fail)+

text \<open>The foreach statement.\<close>

definition slots_at :: "u32 list \<Rightarrow> cstate \<Rightarrow> bool" where
  "slots_at ws s \<longleftrightarrow> (\<forall>w\<in>set ws. operand_at LOCAL_SLOT w s)"

lemma stable_slots: "stable (slots_at ws)"
  unfolding slots_at_def by (rule stable_rules(4), rule stable_facts)

lemma safe_declare_vars: "safe in_scope (declare_vars env ts) (\<lambda>ws s. slots_at ws s)"
proof (induction ts)
  case (Cons t ts)
  have st: "stable_here (\<lambda>s. in_scope s \<and> at_current (variable_in r) s)" for r
    by (rule stability stable_here_variable)+
  have "safe (\<lambda>s. (in_scope s \<and> at_current (variable_in r) s) \<and> slots_at ws s)
      (yields (ucast (word_of_int r :: u8) # ws)) (\<lambda>ws s. slots_at ws s)" for r ws
    by (rule safe_yields_any) (auto simp: slots_at_def intro: slot_usable variable_in_scope)
  moreover have "safe (\<lambda>s. in_scope s \<and> at_current (variable_in r) s) (declare_vars env ts) (\<lambda>ws s. slots_at ws s)" for r
    by (rule safe_weaken [OF Cons.IH]) auto
  ultimately show ?case unfolding declare_vars.simps
    by (intro safe_bnd [OF safe_declareVariable stable_here_facts(2)] safe_bnd [OF _ st])
qed (auto intro: safe_yields_any simp: slots_at_def)

lemma safe_set_vars: "safe (slots_at (map fst vs)) (set_vars env u n vs) (\<lambda>_ _. True)"
proof (induction vs arbitrary: n)
  case (Cons v vs)
  obtain w t where v: "v = (w, t)" by (cases v)
  have st: "stable_here (slots_at (map fst (v # vs)))" by (rule stable_here_rules(1), rule stable_slots)
  have rec: "safe P (set_vars env u m vs) (\<lambda>_ _. True)" if "\<And>s. P s \<Longrightarrow> slots_at (map fst (v # vs)) s" for P m
    by (rule safe_weaken [OF Cons.IH]) (use that in \<open>auto simp: slots_at_def\<close>)
  have "safe (\<lambda>s. slots_at (map fst (v # vs)) s \<and> operand_at CONSTANT_INDEX k s)
    (seqs [if u then op3 OP_UNPACK_SET_LOCAL w (of_nat n) k else op2 OP_SET_LOCAL w k, set_vars env u (n + 1) vs])
    (\<lambda>_ _. True)" for k
    by (rule safe_seqs_Cons safe_seqs_Nil safe_if safe_op2 safe_op3 stability st rec
      | fastforce simp: operands_simps v slots_at_def intro: operand_at_plain)+
  then show ?case unfolding v set_vars.simps by (rule safe_bnd [OF safe_identifierConstant st [unfolded v]])
qed (simp add: safe_T_rules)

lemma keep_scope:
  assumes "harmless m"
  shows "safe in_scope m (\<lambda>_ s. in_scope s)"
proof -
  have "safe in_scope m (\<lambda>_ _. True)" using assms by (rule harmlessD)
  then show ?thesis using stable_here_facts(2) unfolding safe_via_def stable_here_def by blast
qed

lemma open_seqs:
  assumes "\<forall>m\<in>set ms. harmless m"
  shows "safe_open P (seqs (pushScope t # ms)) (\<lambda>_ s. in_scope s)"
  unfolding seqs.simps thn_def
proof (rule safe_bnd_via [OF safe_pushScope])
  show "safe in_scope (seqs ms) (\<lambda>_ s. in_scope s)"
    by (rule keep_scope, rule harmless_seqs, rule assms)
qed (auto dest: grows_trans [where a = 1 and b = 0])

lemma close_thn_first:
  assumes "safe_close P m R" "\<And>a. safe (R a) n Q"
  shows "safe_close P (thn m n) Q"
  unfolding thn_def by (rule safe_bnd_via [OF assms]) (auto dest: grows_trans [where a = "- 1" and b = 0])

lemma close_seqs_keep:
  assumes "\<And>s. P s \<Longrightarrow> in_scope s" "\<And>s. P s \<Longrightarrow> P' s" "stable P'" "safe P' (seqs ms) Q"
  shows "safe_close P (seqs (popScope t # ms)) Q"
  unfolding seqs.simps
  by (rule pop_thn [OF safe_popScope, where P' = P']) (use assms in \<open>auto elim: safe_weaken\<close>)

lemma foreach_end:
  "safe_close (\<lambda>s. in_scope s \<and> jump_at j s) (seqs [
       patchContinuesBetween a b,
       whenc (n = 1) (op0 OP_POP),
       whenc (n > 1) (seqs (replicate n (op0 OP_POP) @ [op0 OP_POP])),
       emitLoop l,
       popScope COMPILE_SCOPE_FOREACH,
       patchJump j (- 1) None,
       op0 OP_POP]) (\<lambda>_ _. True)"
proof -
  have pops: "safe P (seqs (replicate n (op0 OP_POP) @ [op0 OP_POP])) (\<lambda>_ _. True)" for P
    by (rule harmlessD, rule harmless_seqs) (auto intro: safe_op0)
  have last: "safe (jump_at j) (seqs [patchJump j (- 1) None, op0 OP_POP]) (\<lambda>_ _. True)"
    by (rule safe_seqs_Cons safe_seqs_Nil safe_patchJump safe_op0 stability | assumption)+
  show ?thesis
    by (rule close_seqs_Cons, rule safe_patchContinuesBetween, (rule stability)+,
        rule close_seqs_Cons, rule safe_whenc, rule safe_op0, (rule stability)+,
        rule close_seqs_Cons, rule safe_whenc, rule pops, (rule stability)+,
        rule close_seqs_Cons, rule safe_emitLoop, (rule stability)+,
        rule close_seqs_keep [OF _ _ stable_jump_at last]) simp_all
qed

lemma harmless_foreach:
  assumes "harmless iter" "harmless block"
  shows "harmless (emit_foreach env vars iter block)"
proof -
  let ?tail = "\<lambda>q1. bnd currentIseq (\<lambda>q3. bnd (the_val (is_tail q1)) (\<lambda>start. bnd (the_val (is_tail q3)) (\<lambda>t.
      seqs [patchBreaks start t 0, op0 OP_POP])))"
  have tail: "safe P (?tail q1) (\<lambda>_ _. True)" for P q1
    by (rule safe_any) (rule node_struct node_leaves stability)+
  have vars: "safe P (set_vars env u n (zip ws vars)) (\<lambda>_ _. True)" if "\<And>s. P s \<Longrightarrow> slots_at ws s" for P ws u n
    by (rule safe_weaken [OF safe_set_vars], drule that) (auto simp: slots_at_def dest: set_zip_leftD)
  have ending: "safe_close P (thn (seqs [
       patchContinuesBetween a b,
       whenc (n = 1) (op0 OP_POP),
       whenc (n > 1) (seqs (replicate n (op0 OP_POP) @ [op0 OP_POP])),
       emitLoop l,
       popScope COMPILE_SCOPE_FOREACH,
       patchJump j (- 1) None,
       op0 OP_POP]) (?tail q1)) (\<lambda>_ _. True)" if "\<And>s. P s \<Longrightarrow> in_scope s \<and> jump_at j s" for P a b n l j q1
    by (rule close_thn_first [OF safe_weaken [OF foreach_end] tail]) (use that in auto)
  have iter: "safe P (seqs [iter, op0 OP_ITER]) (\<lambda>_ _. True)" for P
    by (rule safe_any) (rule safe_seqs_Cons safe_seqs_Nil safe_op0 stability harmlessD [OF assms(1)])+
  have start: "safe_open P (seqs [pushScope COMPILE_SCOPE_FOREACH, pushVarSlots, whenc (n > 1) pushVarSlots])
      (\<lambda>_ s. in_scope s)" for P and n :: nat
    by (rule open_seqs) (auto intro: safe_pushVarSlots safe_whenc)
  have decl: "safe (\<lambda>s. True \<and> in_scope s) (declare_vars env ts) (\<lambda>ws s. slots_at ws s)" for ts
    using safe_declare_vars by simp
  show ?thesis unfolding emit_foreach_def Let_def
  proof (rule harmlessI, rule push_thn [OF start], rule stable_rules, rule close_bnd [OF decl])
    fix a ws
    let ?P = "\<lambda>s. (True \<and> in_scope s) \<and> slots_at ws s"
    have st: "stable_here ?P" by (rule stability stable_here_rules(1) [OF stable_slots])+
    show "safe_close ?P (thn (seqs [iter, op0 OP_ITER])
     (bnd currentIseq (\<lambda>q0.
      thn (op0 OP_ITER_NEXT)
     (bnd (emitJump OP_JUMP_IF_FALSE_PEEK) (\<lambda>iterDone.
     thn (set_vars env (length vars > 1) 0 (zip ws vars))
     (bnd currentIseq (\<lambda>q1.
     thn (in_loop LOOP_T_FOREACH skip block)
     (bnd currentIseq (\<lambda>q2.
     thn (seqs [
       patchContinuesBetween (is_tail q1) (is_tail q2),
       whenc (length vars = 1) (op0 OP_POP),
       whenc (length vars > 1) (seqs (replicate (length vars) (op0 OP_POP) @ [op0 OP_POP])),
       emitLoop (is_wordCount q0 + 2),
       popScope COMPILE_SCOPE_FOREACH,
       patchJump iterDone (- 1) None,
       op0 OP_POP])
     (?tail q1)))))))))) (\<lambda>_ _. True)"
      by (rule ending close_bnd close_thn iter safe_currentIseq safe_op0 safe_emitJump vars st
          harmlessD [OF harmless_in_loop [OF harmless_skip assms(2)]] stability stable_here_rules(1) [OF stable_slots]
        | simp add: operands_of_def; fail)+
  qed (rule stability)+
qed

subsection \<open>Other statements\<close>

lemma harmless_break: "harmless emit_break"
  unfolding emit_break_def by (rule harmlessI) (rule node_struct node_leaves stability)+

lemma harmless_continue: "harmless emit_continue"
  unfolding emit_continue_def
  by (rule harmlessI) (rule node_struct safe_emitJump node_leaves stability | simp add: operands_of_def; fail)+

text \<open>The variables of a var statement: each is stored as soon as it is declared.\<close>

lemma safe_emit_vars: "safe P (emit_vars env single n ts) (\<lambda>_ _. True)"
proof (induction ts arbitrary: n P)
  case (Cons t ts)
  have st: "stable_here (at_current (variable_in r))" for r by (rule stable_here_variable)
  let ?P = "\<lambda>r c s. at_current (variable_in r) s \<and> was c s \<and> level c s \<and> (\<exists>fr. compiler_ok fr c)"
  have top: "safe (?P r c) (if single then op1 OP_DEFINE_GLOBAL (word_of_int r)
      else op2 OP_UNPACK_DEFINE_GLOBAL (word_of_int r) (of_nat n)) (\<lambda>_ _. True)" if "c_scopeDepth c = 0" for r c
    by (rule safe_if safe_op1 safe_op2
      | use that in \<open>fastforce simp: operands_simps intro: operand_at_plain variable_at_top\<close>)+
  have inner: "safe (?P r c) (bnd (identifierConstant env t) (\<lambda>k.
          if single then op2 OP_SET_LOCAL (word_of_int r) k
          else op3 OP_UNPACK_SET_LOCAL (word_of_int r) (of_nat n) k)) (\<lambda>_ _. True)" if "c_scopeDepth c \<noteq> 0" for r c
  proof -
    have "safe (at_current (slot_in r)) (bnd (identifierConstant env t) (\<lambda>k.
          if single then op2 OP_SET_LOCAL (word_of_int r) k
          else op3 OP_UNPACK_SET_LOCAL (word_of_int r) (of_nat n) k)) (\<lambda>_ _. True)"
      by (rule safe_bnd safe_identifierConstant stable_here_slot_in safe_if safe_op2 safe_op3
        | fastforce simp: operands_simps intro: operand_at_plain slot_usable)+
    then show ?thesis by (rule safe_weaken) (use that variable_in_scope in auto)
  qed
  show ?case unfolding emit_vars.simps
  proof (rule safe_any, rule safe_bnd [OF safe_declareVariable], rule stability, rule safe_if, rule safe_T_rules)
    fix r
    have step: "safe (?P r c) (seqs [
       (if c_scopeDepth c = 0
        then (if single then op1 OP_DEFINE_GLOBAL (word_of_int r)
              else op2 OP_UNPACK_DEFINE_GLOBAL (word_of_int r) (of_nat n))
        else bnd (identifierConstant env t) (\<lambda>k.
          if single then op2 OP_SET_LOCAL (word_of_int r) k
          else op3 OP_UNPACK_SET_LOCAL (word_of_int r) (of_nat n) k)),
       emit_vars env single (n + 1) ts]) (\<lambda>_ _. True)" for c
      by (rule safe_seqs_Cons, rule safe_if [OF top inner], assumption, assumption, (rule stability st)+,
          rule safe_seqs_Cons, rule Cons.IH, (rule stability st)+, rule safe_seqs_Nil)
    show "safe (\<lambda>s. True \<and> at_current (variable_in r) s) (bnd current (\<lambda>c. seqs [
       (if c_scopeDepth c = 0
        then (if single then op1 OP_DEFINE_GLOBAL (word_of_int r)
              else op2 OP_UNPACK_DEFINE_GLOBAL (word_of_int r) (of_nat n))
        else bnd (identifierConstant env t) (\<lambda>k.
          if single then op2 OP_SET_LOCAL (word_of_int r) k
          else op3 OP_UNPACK_SET_LOCAL (word_of_int r) (of_nat n) k)),
       emit_vars env single (n + 1) ts])) (\<lambda>_ _. True)"
      by (rule safe_weaken [OF safe_bnd [OF safe_current_level st step]]) simp_all
  qed
qed (simp add: safe_T_rules)

lemma harmless_last: "\<forall>m\<in>set ms. harmless m \<Longrightarrow> ms \<noteq> [] \<Longrightarrow> harmless (last ms)"
  by simp

lemma harmless_var:
  assumes "\<forall>m\<in>set ms. harmless m" "length ms = length kids"
  shows "harmless (emit_var env tok ms kids)"
proof -
  have "harmless (last ms)" if "kids \<noteq> []" using assms that by (intro harmless_last) auto
  then have "harmless (if kids = [] \<or> b then emitNil else last ms)" for b
    using safe_emit_plain by auto
  then show ?thesis unfolding emit_var_def Let_def
    by (intro harmlessI) (rule safe_if safe_T_rules safe_seqs_Cons safe_seqs_Nil harmlessD safe_bnd safe_current_level
        safe_whenc safe_pushVarSlots safe_emit_vars stability | assumption)+
qed

lemma harmless_block: "\<forall>m\<in>set ms. harmless m \<Longrightarrow> harmless (emit_block ms)"
  unfolding emit_block_def
  by (rule harmlessI)
    (rule push_rules close_rules safe_seqs_Nil stability firm harmlessD harmless_emitChildren | assumption | simp; fail)+

lemma harmless_return: "\<forall>m\<in>set ms. harmless m \<Longrightarrow> harmless (emit_return ms)"
  unfolding emit_return_def
  by (rule harmlessI) (rule node_struct node_leaves stability harmlessD harmless_emitChildren | assumption)+

subsection \<open>Starting and ending a function\<close>

lemma act_results:
  "bnd m f s = Some (b, s2) \<longleftrightarrow> (\<exists>a s1. m s = Some (a, s1) \<and> f a s1 = Some (b, s2))"
  "thn m n s = Some (b, s2) \<longleftrightarrow> (\<exists>a s1. m s = Some (a, s1) \<and> n s1 = Some (b, s2))"
  "modify g s = Some (u, s2) \<longleftrightarrow> s2 = g s" "skip s = Some (u, s2) \<longleftrightarrow> s2 = s" "yields b s = Some (c, s2) \<longleftrightarrow> c = b \<and> s2 = s"
  by (auto simp: thn_def bnd_def modify_def skip_def yields_def split: option.splits)

definition pushed :: "cstate \<Rightarrow> cstate \<Rightarrow> bool" where
  "pushed s s' \<longleftrightarrow> cs_comps s' \<noteq> [] \<and> list_all2 develops (cs_comps s) (tl (cs_comps s')) \<and>
     map c_scopeDepth (tl (cs_comps s')) = map c_scopeDepth (cs_comps s) \<and> cs_fresh s \<le> cs_fresh s'"

definition popped :: "cstate \<Rightarrow> cstate \<Rightarrow> bool" where
  "popped s s' \<longleftrightarrow> cs_comps s \<noteq> [] \<and> list_all2 develops (tl (cs_comps s)) (cs_comps s') \<and>
     map c_scopeDepth (cs_comps s') = map c_scopeDepth (tl (cs_comps s)) \<and> cs_fresh s \<le> cs_fresh s'"

lemma develops_all_trans: "list_all2 develops xs ys \<Longrightarrow> list_all2 develops ys zs \<Longrightarrow> list_all2 develops xs zs"
  by (rule list_all2_trans [of develops develops develops]) (auto intro: develops_trans)

lemma grows_popped:
  assumes "grows_by d s t" "popped t u"
  shows "popped s u"
proof -
  have "list_all2 develops (tl (cs_comps s)) (tl (cs_comps t))" "cs_comps s \<noteq> []"
    "map c_scopeDepth (tl (cs_comps t)) = map c_scopeDepth (tl (cs_comps s))"
    using assms by (cases "cs_comps s"; auto simp: grows_by_def popped_def list_all2_Cons1)+
  then show ?thesis using assms develops_all_trans by (auto simp: grows_by_def popped_def)
qed

lemma popped_grows: "popped s t \<Longrightarrow> grows t u \<Longrightarrow> popped s u"
  using develops_all_trans by (auto simp: grows_by_def popped_def)

lemma pushed_popped: "pushed s t \<Longrightarrow> popped t u \<Longrightarrow> grows s u"
  using develops_all_trans by (auto simp: grows_by_def popped_def pushed_def)

lemma new_compiler_ok: "0 \<le> d \<Longrightarrow> compiler_ok fr (new_compiler func ftype d)"
  by (auto simp: compiler_ok_def new_compiler_def n_constants_def initIseq_def initTable_def initValueArray_def
      table_sized_def table_values_def va_ok_def intro!: exI [of _ "[]"] rep_init [unfolded initIseq_def initValueArray_def])

lemma keeps_on_mem: "keeps (\<lambda>s. cs_comps s = cs \<and> cs_fresh s = fr) (on_mem f)"
  unfolding on_mem_def by (rule keeps_modify) simp

lemma keeps_mem_act: "keeps (\<lambda>s. cs_comps s = cs \<and> cs_fresh s = fr) (mem_act f)"
  by (auto simp: mem_act_def intro!: keepsI split: option.splits)

lemma name_by_type_keeps: "keeps (\<lambda>s. cs_comps s = cs \<and> cs_fresh s = fr) (name_by_type env ftype text func)"
  unfolding name_by_type_def name_function_def new_string_def
  by (auto intro!: keeps_rules keeps_on_mem keeps_mem_act)

lemma safe_exactly:
  assumes "keeps (\<lambda>s. cs_comps s = cs \<and> cs_fresh s = fr) m" "m s = Some (a, s1)" "cs_comps s = cs" "cs_fresh s = fr"
  shows "cs_comps s1 = cs \<and> cs_fresh s1 = fr"
  using keepsD [OF assms(1,2)] assms(3,4) by simp

lemma initCompiler_result:
  assumes "initCompiler env d ftype name s = Some (u, s1)"
  shows "\<exists>func c. cs_comps s1 = c # cs_comps s \<and> cs_fresh s1 = cs_fresh s \<and>
    (c = new_compiler func ftype d \<or> (\<exists>l. c = add_local l (new_compiler func ftype d)))"
proof -
  define W where "W = (\<lambda>func. whenc (ftype \<noteq> FUN_TYPE_TOP_LEVEL) (seqs [
         on_current (\<lambda>c. add_local \<lparr>l_name = [], l_depth = c_scopeDepth c, l_isUpvalue = False,
            l_popOnScopeEnd = True\<rparr> c),
         whenc (is_method_type ftype) (on_mem (upd_fn func (\<lambda>f. f\<lparr>fn_hasReceiver := True\<rparr>)))]))"
  obtain func s2 where s2: "mem_act (newFunction (ce_obj env) ftype NEWOBJ_FLAG_OLD) s = Some (func, s2)"
    "seqs [
       on_mem (on_gc (hideFromGC func)),
       modify (\<lambda>s. s\<lparr>cs_fnInfo := (cs_fnInfo s)(func \<mapsto> \<lparr>fi_chunk = initChunk, fi_scopes = [],
          fi_variables = [], fi_upvaluesInfo = [], fi_defaults = []\<rparr>),
          cs_comps := new_compiler func ftype d # cs_comps s\<rparr>),
       name_by_type env ftype (c_string name) func, W func] s2 = Some (u, s1)"
    using assms unfolding initCompiler_def W_def act_results(1) by blast
  let ?c = "new_compiler func ftype d"
  have "cs_comps s2 = cs_comps s \<and> cs_fresh s2 = cs_fresh s"
    using safe_exactly [OF keeps_mem_act s2(1)] by simp
  moreover define s3 where "s3 = s2\<lparr>cs_mem := on_gc (hideFromGC func) (cs_mem s2), cs_fnInfo := (cs_fnInfo s2)(func \<mapsto>
    \<lparr>fi_chunk = initChunk, fi_scopes = [], fi_variables = [], fi_upvaluesInfo = [], fi_defaults = []\<rparr>),
    cs_comps := ?c # cs_comps s2\<rparr>"
  ultimately obtain s4 where s4: "cs_comps s3 = ?c # cs_comps s" "cs_fresh s3 = cs_fresh s"
    "name_by_type env ftype (c_string name) func s3 = Some ((), s4)" "W func s4 = Some ((), s1)"
    using s2(2) by (auto simp: on_mem_def act_results)
  have "cs_comps s4 = ?c # cs_comps s \<and> cs_fresh s4 = cs_fresh s"
    using safe_exactly [OF name_by_type_keeps s4(3,1,2)] .
  then show ?thesis using s4(4)
    by (auto simp: W_def whenc_def on_current_def upd_current_def on_mem_def act_results split: if_splits)
qed

lemma safe_initCompiler:
  assumes "0 \<le> d"
  shows "safe_via pushed P (initCompiler env d ftype name) (\<lambda>_ _. True)"
proof (rule safeI)
  fix s u s1
  assume s: "state_ok s" "initCompiler env d ftype name s = Some (u, s1)"
  obtain func c where c: "cs_comps s1 = c # cs_comps s" "cs_fresh s1 = cs_fresh s"
    "c = new_compiler func ftype d \<or> (\<exists>l. c = add_local l (new_compiler func ftype d))"
    using initCompiler_result [OF s(2)] by blast
  have ok: "compiler_ok (cs_fresh s) (new_compiler func ftype d)" using assms by (rule new_compiler_ok)
  have "length (c_locals (new_compiler func ftype d)) < UINT8_MAX" by (simp add: new_compiler_def UINT8_MAX_def)
  then have "compiler_ok (cs_fresh s) c" using c(3) ok add_local_steps(1) [OF ok] by (auto simp: steps_def)
  then show "state_ok s1 \<and> pushed s s1 \<and> True"
    using s(1) c(1,2) by (simp add: state_ok_def pushed_def list.rel_refl)
qed

lemma safe_pop:
  assumes "\<And>s. P s \<Longrightarrow> was c s"
  shows "safe_via popped P (modify (\<lambda>s. s\<lparr>cs_comps := tl (cs_comps s)\<rparr>)) (\<lambda>_ _. True)"
proof (rule safeI)
  fix s a s1
  assume s: "state_ok s" "P s" "modify (\<lambda>s. s\<lparr>cs_comps := tl (cs_comps s)\<rparr>) s = Some (a, s1)"
  have "cs_comps s \<noteq> []" using assms [OF s(2)] by (auto simp: was_def at_current_def)
  then show "state_ok s1 \<and> popped s s1 \<and> True"
    using s(1,3) by (auto simp: modify_def state_ok_def popped_def list.rel_refl dest: list.set_sel(2))
qed

lemma popped_bnd:
  assumes "safe_via (grows_by d) P m R" "\<And>a. safe_via popped (R a) (f a) Q"
  shows "safe_via popped P (bnd m f) Q"
  by (rule safe_bnd_via [OF assms]) (simp, erule (1) grows_popped)

lemma popped_thn:
  assumes "safe_via (grows_by d) P m R" "\<And>a. safe_via popped (R a) n Q"
  shows "safe_via popped P (thn m n) Q"
  unfolding thn_def by (rule popped_bnd [OF assms])

lemma popped_bnd_keep:
  assumes "safe P m R" "stable_here P" "\<And>a. safe_via popped (\<lambda>s. P s \<and> R a s) (f a) Q"
  shows "safe_via popped P (bnd m f) Q"
  by (rule safe_bnd_via [OF assms(1,3)])
    (use assms(2) in \<open>auto simp: stable_here_def elim: grows_popped\<close>)

lemma popped_thn_keep:
  assumes "safe P m R" "stable_here P" "\<And>a. safe_via popped (\<lambda>s. P s \<and> R a s) n Q"
  shows "safe_via popped P (thn m n) Q"
  unfolding thn_def by (rule popped_bnd_keep [OF assms])

lemma popped_first:
  assumes "safe_via popped P m R" "\<And>a. safe (R a) n Q"
  shows "safe_via popped P (thn m n) Q"
  unfolding thn_def by (rule safe_bnd_via [OF assms]) (simp, erule (1) popped_grows)

lemma safe_endCompiler: "safe_via popped P (endCompiler env) (\<lambda>_ _. True)"
proof -
  have leave: "safe P (whenc b emitLeave) (\<lambda>_ _. True)" for P b
    by (rule safe_whenc) (rule safe_emit_plain)
  have pop: "safe_via popped P (thn (modify (\<lambda>s. s\<lparr>cs_comps := tl (cs_comps s)\<rparr>)) (yields x)) (\<lambda>_ _. True)"
    if "\<And>s. P s \<Longrightarrow> was c s" for P c and x :: addr
    by (rule popped_first [OF safe_pop safe_T_rules(1)]) (rule that)
  have "safe_via popped (\<lambda>_. True) (endCompiler env) (\<lambda>_ _. True)"
    unfolding endCompiler_def
    by (rule popped_bnd_keep, rule safe_current, (rule stability)+,
        rule popped_thn_keep, rule leave, (rule stability)+,
        (rule pop popped_bnd_keep popped_thn_keep safe_current safe_T_rules(3) safe_the_val_T safe_on_fnInfo safe_on_mem stability
          | (elim conjE, assumption))+)
  then show ?thesis by (rule safe_any)
qed

subsection \<open>Parameters\<close>

lemma safe_define_inner: "safe in_scope (defineVariable w) (\<lambda>_ _. True)"
  unfolding defineVariable_def
proof (rule safe_bnd [OF safe_current_level], rule stability, rule safe_if)
  fix c :: compiler
  assume "c_scopeDepth c = 0"
  then show "safe (\<lambda>s. in_scope s \<and> was c s \<and> level c s \<and> (\<exists>fr. compiler_ok fr c)) (op1 OP_DEFINE_GLOBAL w) (\<lambda>_ _. True)"
    by (intro safe_op1) (auto simp: in_scope_def level_def at_current_def)
next
  fix c :: compiler
  have set: "safe P (on_current (\<lambda>c. c\<lparr>c_locals := (c_locals c)[i := (c_locals c ! i)\<lparr>l_depth := c_scopeDepth c\<rparr>]\<rparr>)) (\<lambda>_ _. True)"
    for P i by (rule safe_on_current) simp
  show "safe (\<lambda>s. in_scope s \<and> was c s \<and> level c s \<and> (\<exists>fr. compiler_ok fr c)) (seqs [assume_that (unat w < LX_MAX_LOCALS),
       on_current (\<lambda>c. c\<lparr>c_locals := (c_locals c)[unat w := (c_locals c ! unat w)\<lparr>l_depth := c_scopeDepth c\<rparr>]\<rparr>)]) (\<lambda>_ _. True)"
    by (rule safe_any) (rule safe_seqs_Cons safe_seqs_Nil safe_assume_T set stability)+
qed

lemma safe_declare_param: "safe in_scope (declare_param env t) (\<lambda>w s. operand_at LOCAL_SLOT w s)"
  unfolding declare_param_def Let_def
proof (rule safe_bnd [OF safe_declareVariable], rule stability, rule safe_thn)
  fix r
  show "safe (\<lambda>s. in_scope s \<and> at_current (variable_in r) s) (defineVariable (ucast (word_of_int r :: u8))) (\<lambda>_ _. True)"
    by (rule safe_weaken [OF safe_define_inner]) auto
  show "stable_here (\<lambda>s. in_scope s \<and> at_current (variable_in r) s)" by (rule stability stable_here_variable)+
  show "safe (\<lambda>s. (in_scope s \<and> at_current (variable_in r) s) \<and> True) (yields (ucast (word_of_int r :: u8)))
      (\<lambda>w s. operand_at LOCAL_SLOT w s)"
    by (rule safe_yields_any) (auto intro: slot_usable variable_in_scope)
qed

lemma safe_on_function: "safe P (on_function p f) (\<lambda>_ _. True)"
  unfolding on_function_def by (rule safe_on_mem)

definition param_harmless :: "param \<Rightarrow> bool" where
  "param_harmless p \<longleftrightarrow> (\<forall>m\<in>set (pa_kids p). harmless m)"

lemma safe_regular_param: "safe in_scope (regular_param env func p) (\<lambda>_ _. True)"
proof -
  have d: "safe (\<lambda>s. in_scope s \<and> R s) (defineVariable w) (\<lambda>_ _. True)" for R w
    by (rule safe_weaken [OF safe_define_inner]) auto
  show ?thesis unfolding regular_param_def
    by (rule safe_whenc safe_bnd safe_seqs_Cons safe_seqs_Nil safe_declareVariable d safe_on_function stability stable_here_variable)+
qed

lemma safe_default_param:
  assumes "param_harmless p"
  shows "safe in_scope (default_param env func p) (\<lambda>_ _. True)"
proof -
  have kid: "safe P (emit_child (pa_kids p) 0) (\<lambda>_ _. True)" for P
    using harmless_emit_child assms by (auto simp: param_harmless_def)
  show ?thesis unfolding default_param_def
    by (rule safe_bnd safe_thn safe_seqs_Cons safe_seqs_Nil safe_declare_param kid safe_on_function safe_currentIseq
        safe_identifierConstant safe_op2 safe_op0 safe_the_val_T safe_assume_T safe_on_fnInfo stability
      | fastforce simp: operands_simps intro: operand_at_plain)+
qed

lemma safe_kwarg_param:
  assumes "param_harmless p"
  shows "safe in_scope (kwarg_param env func n p) (\<lambda>_ _. True)"
proof -
  have kid: "safe P (emitChildren (pa_kids p)) (\<lambda>_ _. True)" for P
    using harmless_emitChildren assms by (auto simp: param_harmless_def)
  show ?thesis unfolding kwarg_param_def
    by (rule safe_bnd safe_thn safe_seqs_Cons safe_seqs_Nil safe_declare_param kid safe_on_function safe_emitJump
        safe_identifierConstant safe_op2 safe_op0 safe_patchJump stability
      | fastforce simp: operands_simps intro: operand_at_plain)+
qed

lemma safe_other_param:
  assumes "param_harmless p"
  shows "safe in_scope (other_param env func n p) (\<lambda>_ _. True)"
proof -
  have "safe in_scope (thn (drop_val (declare_param env t)) (on_function func f)) (\<lambda>_ _. True)" for t f
    by (rule safe_thn [OF safe_drop [OF safe_declare_param]], rule stability, rule safe_on_function)
  then show ?thesis unfolding other_param_def
    using assms safe_default_param safe_kwarg_param
    by (auto intro: safe_T_rules split: option.splits node_kind.splits)
qed

lemma safe_inner: "safe in_scope m (\<lambda>_ _. True) \<Longrightarrow> (\<And>s. P s \<Longrightarrow> in_scope s) \<Longrightarrow> safe P m (\<lambda>_ _. True)"
  by (rule safe_weaken)

lemma safe_emit_params:
  assumes "\<forall>p\<in>set params. param_harmless p"
  shows "safe in_scope (emit_params env func params) (\<lambda>_ _. True)"
  unfolding emit_params_def
  by (rule safe_seqs_Cons safe_seqs_Nil safe_seqs_map safe_inner [OF safe_regular_param] safe_inner [OF safe_other_param]
      safe_whenc safe_drop safe_addFakeLocal stability | (use assms in blast) | (simp; fail))+

subsection \<open>Functions\<close>

lemma harmless_body: "\<forall>m\<in>set ms. harmless m \<Longrightarrow> harmless (emit_body t ms)"
  unfolding emit_body_def
  by (rule harmlessI)
    (rule safe_bnd safe_thn safe_seqs_Cons safe_seqs_Nil safe_whenc safe_modify safe_T_rules(3) stability harmlessD
      harmless_emitChildren | assumption | simp; fail)+

lemma harmless_upvalue: "harmless (emit_upvalue u)"
  unfolding emit_upvalue_def
  by (rule harmlessI) (rule safe_seqs_Cons safe_seqs_Nil safe_op0 stability)+

lemma harmless_bind_function: "harmless (bind_function env tok t)"
proof -
  have code: "safe P (bnd (the_val (case t of
                FUN_TYPE_METHOD \<Rightarrow> Some OP_METHOD | FUN_TYPE_INIT \<Rightarrow> Some OP_METHOD
              | FUN_TYPE_CLASS_METHOD \<Rightarrow> Some OP_CLASS_METHOD | FUN_TYPE_GETTER \<Rightarrow> Some OP_GETTER
              | FUN_TYPE_SETTER \<Rightarrow> Some OP_SETTER | _ \<Rightarrow> None)) (\<lambda>code.
         bnd (identifierConstant env tok) (op1 code))) (\<lambda>_ _. True)" for P
    by (rule safe_any)
      (rule safe_bnd safe_T_rules(5) safe_identifierConstant safe_op1 stability
        | force simp: operands_simps split: function_type.splits)+
  show ?thesis unfolding bind_function_def
    by (rule harmlessI)
      (rule code safe_bnd safe_T_rules(3) safe_if safe_seqs_Cons safe_seqs_Nil safe_namedVariable safe_op0 stability | assumption)+
qed

lemma harmless_closure: "harmless (bnd (makeConstant env v t) (op1 OP_CLOSURE))"
  by (rule harmlessI) (rule safe_bnd safe_makeConstant safe_op1 stability | fastforce simp: operands_simps)+

text \<open>The part of emitFunction between the start and the end of the new compiler.\<close>

lemma safe_function_code:
  assumes "\<forall>p\<in>set params. param_harmless p" "\<forall>m\<in>set body. harmless m"
  shows "safe_close in_scope (seqs [emit_params env func params, emit_body ftype body, popScope stype]) (\<lambda>_ _. True)"
proof (rule close_seqs_Cons [OF safe_emit_params], rule assms, rule stability, rule close_seqs_Cons)
  show "safe (\<lambda>s. in_scope s \<and> True) (emit_body ftype body) (\<lambda>_ _. True)"
    using harmless_body [OF assms(2)] by (rule harmlessD)
  show "stable_here (\<lambda>s. in_scope s \<and> True)" by (rule stability)+
  show "safe_close (\<lambda>s. (in_scope s \<and> True) \<and> True) (seqs [popScope stype]) (\<lambda>_ _. True)"
    by (rule close_seqs) (simp_all add: safe_T_rules)
qed

lemma harmless_function:
  assumes "\<forall>p\<in>set params. param_harmless p" "\<forall>m\<in>set body. harmless m"
  shows "harmless (emitFunction env tok ftype params body)"
proof -
  let ?rest = "\<lambda>us func. thn (whenc (ftype \<noteq> FUN_TYPE_BLOCK)
            (bnd (makeConstant env (OBJ_VAL func) CONST_T_CODE) (op1 OP_CLOSURE)))
     (thn (whenc (ftype \<noteq> FUN_TYPE_BLOCK) (seqs (map emit_upvalue us)))
     (thn (on_fnInfo func (\<lambda>i. i\<lparr>fi_upvaluesInfo := us\<rparr>))
     (thn (whenc (\<not> (ftype = FUN_TYPE_TOP_LEVEL \<or> ftype = FUN_TYPE_BLOCK \<or> ftype = FUN_TYPE_ANON))
            (bind_function env tok ftype))
       (yields func))))"
  have ups: "harmless (seqs (map emit_upvalue us))" for us
    by (rule harmless_seqs) (use harmless_upvalue in auto)
  have rest: "safe P (?rest us func) (\<lambda>_ _. True)" for P us func
    by (rule safe_any) (rule safe_thn safe_whenc harmlessD [OF harmless_closure] harmlessD [OF ups] safe_on_fnInfo
        harmlessD [OF harmless_bind_function] safe_T_rules(1) stability)+
  have ending: "safe_via popped P (bnd (endCompiler env) (?rest us)) (\<lambda>_ _. True)" for P us
    by (rule safe_bnd_via [OF safe_endCompiler rest]) (simp, erule (1) popped_grows)
  let ?stype = "if ftype = FUN_TYPE_TOP_LEVEL then COMPILE_SCOPE_MAIN else COMPILE_SCOPE_FUNCTION"
  have inside: "safe_via popped P (thn (pushScope ?stype)
     (bnd current (\<lambda>fc.
     thn (seqs [emit_params env (c_function fc) params, emit_body ftype body, popScope ?stype])
     (bnd current (\<lambda>fCompiler. bnd (endCompiler env) (?rest (c_upvalues fCompiler))))))) (\<lambda>_ _. True)" for P
  proof (rule popped_thn [OF safe_pushScope], rule popped_bnd_keep [OF safe_current], rule stability)
    fix a fc
    have "safe_close (\<lambda>s. in_scope s \<and> was fc s \<and> (\<exists>fr. compiler_ok fr fc))
      (seqs [emit_params env (c_function fc) params, emit_body ftype body, popScope ?stype]) (\<lambda>_ _. True)"
      by (rule safe_weaken [OF safe_function_code [OF assms]]) auto
    then show "safe_via popped (\<lambda>s. in_scope s \<and> was fc s \<and> (\<exists>fr. compiler_ok fr fc))
      (thn (seqs [emit_params env (c_function fc) params, emit_body ftype body, popScope ?stype])
        (bnd current (\<lambda>fCompiler. bnd (endCompiler env) (?rest (c_upvalues fCompiler))))) (\<lambda>_ _. True)"
      by (rule popped_thn) (rule popped_bnd [OF safe_current ending])
  qed
  show ?thesis unfolding emitFunction_def Let_def
  proof (rule harmlessI, rule safe_bnd [OF safe_current], rule stability)
    fix c
    show "safe (\<lambda>s. True \<and> was c s \<and> (\<exists>fr. compiler_ok fr c))
      (thn (initCompiler env (c_scopeDepth c) ftype (tok_text env tok)) (thn (pushScope ?stype)
     (bnd current (\<lambda>fc.
     thn (seqs [emit_params env (c_function fc) params, emit_body ftype body, popScope ?stype])
     (bnd current (\<lambda>fCompiler. bnd (endCompiler env) (?rest (c_upvalues fCompiler)))))))) (\<lambda>_ _. True)"
    proof (rule safe_pre)
      fix s
      assume "True \<and> was c s \<and> (\<exists>fr. compiler_ok fr c)"
      then have "0 \<le> c_scopeDepth c" by (auto simp: compiler_ok_def)
      then show "safe (\<lambda>s. True \<and> was c s \<and> (\<exists>fr. compiler_ok fr c))
        (thn (initCompiler env (c_scopeDepth c) ftype (tok_text env tok)) (thn (pushScope ?stype)
         (bnd current (\<lambda>fc.
         thn (seqs [emit_params env (c_function fc) params, emit_body ftype body, popScope ?stype])
         (bnd current (\<lambda>fCompiler. bnd (endCompiler env) (?rest (c_upvalues fCompiler)))))))) (\<lambda>_ _. True)"
        unfolding thn_def [of "initCompiler env (c_scopeDepth c) ftype (tok_text env tok)"]
        by (intro safe_bnd_via [OF safe_initCompiler inside]) (auto elim: pushed_popped)
    qed
  qed
qed

subsection \<open>Classes, calls and try statements\<close>

lemma harmless_with_class: "harmless m \<Longrightarrow> harmless (with_class c m)"
  unfolding with_class_def
  by (rule harmlessI) (rule safe_bnd safe_T_rules(3) safe_seqs_Cons safe_seqs_Nil safe_modify stability harmlessD | assumption | simp; fail)+

lemma harmless_class:
  assumes "\<forall>m\<in>set ms. harmless m"
  shows "harmless (emitClass env tok super ms)"
proof -
  have body: "safe (operand_at CONSTANT_INDEX k) (with_class cc (seqs [
       pushScope COMPILE_SCOPE_CLASS,
       (case super of
          Some t \<Rightarrow> seqs [namedVariable env t VAR_GET, op1 OP_SUBCLASS k]
        | None \<Rightarrow> op1 OP_CLASS k),
       drop_val (addFakeLocal False),
       emitChildren ms,
       popScope COMPILE_SCOPE_CLASS,
       op0 OP_POP_CREF])) (\<lambda>_ _. True)" for k cc
    unfolding with_class_def
    by (rule push_rules close_rules safe_bnd safe_T_rules(3) safe_seqs_Cons safe_seqs_Nil safe_option safe_modify
        safe_namedVariable safe_op1 safe_op0 safe_drop safe_addFakeLocal harmlessD [OF harmless_emitChildren] stability firm
      | (rule assms) | fastforce simp: operands_simps)+
  show ?thesis unfolding emitClass_def
    by (rule harmlessI, rule safe_bnd [OF safe_identifierConstant], rule stability, rule safe_weaken [OF body]) auto
qed

lemma harmless_module:
  assumes "\<forall>m\<in>set ms. harmless m"
  shows "harmless (emitModule env tok ms)"
  unfolding emitModule_def with_class_def
  by (rule harmlessI)
    (rule push_rules close_rules safe_bnd safe_T_rules(3) safe_seqs_Cons safe_seqs_Nil safe_modify safe_identifierConstant
        safe_op1 safe_op0 harmlessD [OF harmless_emitChildren] stability firm
      | (rule assms) | fastforce simp: operands_simps)+

lemma harmless_in:
  assumes "harmless obj" "harmless block"
  shows "harmless (emitIn obj block)"
  unfolding emitIn_def
  by (rule harmlessI)
    (rule push_rules close_rules safe_bnd safe_T_rules(3) safe_seqs_Cons safe_seqs_Nil safe_modify safe_op0
        assms [THEN harmlessD] stability firm | simp; fail)+

lemma harmless_method: "harmless m \<Longrightarrow> harmless (emit_method env msg m)"
  unfolding emit_method_def
  by (rule harmlessI) (rule safe_bnd safe_T_rules(3) safe_if safe_error [THEN safe_T] harmlessD stability | assumption)+

lemma safe_make_call_info: "safe P (make_call_info env tok kids) (\<lambda>(n, slot) s. operand_at CONSTANT_INDEX slot s)"
proof -
  have y: "safe P (yields (n, k)) (\<lambda>(n, slot) s. operand_at CONSTANT_INDEX slot s)"
    if "\<And>s. P s \<Longrightarrow> operand_at CONSTANT_INDEX k s" for P n k
    by (rule safe_yields_any) (simp add: that)
  show ?thesis unfolding make_call_info_def
    by (rule safe_any)
      (rule safe_bnd safe_thn safe_T_rules(3) safe_modify safe_mem_act safe_on_mem safe_makeConstant y stability | simp; fail)+
qed

lemma harmless_tl: "\<forall>m\<in>set ms. harmless m \<Longrightarrow> harmless (seqs (tl ms))"
  by (rule harmless_seqs) (cases ms, auto)

lemma harmless_call:
  assumes "\<forall>m\<in>set ms. harmless m" "\<forall>m\<in>set rs. harmless m"
  shows "harmless (emitCall env tok kids ms rs)"
proof -
  have y: "safe P (case v of (n, slot) \<Rightarrow> thn (op3 OP_INVOKE k a slot) (yields (Some n))) (\<lambda>_ _. True)"
    if "\<And>s. P s \<Longrightarrow> operand_at CONSTANT_INDEX k s \<and> operand_at CONSTANT_INDEX (snd v) s" for P v k a
  proof (cases v)
    case (Pair n slot)
    have "safe (\<lambda>s. operand_at CONSTANT_INDEX k s \<and> operand_at CONSTANT_INDEX slot s)
      (thn (op3 OP_INVOKE k a slot) (yields (Some n))) (\<lambda>_ _. True)"
      by (rule safe_thn safe_op3 stability safe_T_rules(1) | fastforce simp: operands_simps intro: operand_at_plain)+
    then show ?thesis unfolding Pair prod.case by (rule safe_weaken) (use that Pair in auto)
  qed
  have z: "safe P (case v of (n, slot) \<Rightarrow> thn (op2 OP_CALL a slot) (yields (Some n))) (\<lambda>_ _. True)"
    if "\<And>s. P s \<Longrightarrow> operand_at CONSTANT_INDEX (snd v) s" for P v a
  proof (cases v)
    case (Pair n slot)
    have "safe (\<lambda>s. operand_at CONSTANT_INDEX slot s)
      (thn (op2 OP_CALL a slot) (yields (Some n))) (\<lambda>_ _. True)"
      by (rule safe_thn safe_op2 stability safe_T_rules(1) | fastforce simp: operands_simps intro: operand_at_plain)+
    then show ?thesis unfolding Pair prod.case by (rule safe_weaken) (use that Pair in auto)
  qed
  have info: "safe P (make_call_info env tok kids) (\<lambda>v s. operand_at CONSTANT_INDEX (snd v) s)" for P
    by (rule safe_weaken [OF safe_make_call_info]) auto
  show ?thesis unfolding emitCall_def Let_def
    by (rule harmlessI)
      (rule safe_if safe_thn safe_error safe_T_rules(1) safe_child y z safe_bnd info
        harmlessD [OF harmless_emitChildren] harmlessD [OF harmless_tl] harmlessD [OF harmless_emit_child] safe_tok_of safe_identifierConstant stability
        | (rule assms) | (simp; fail))+
qed

lemma harmless_call_block:
  assumes "harmless call" "harmless block"
  shows "harmless (emit_call_block call block)"
  unfolding emit_call_block_def
  by (rule harmlessI) (rule safe_bnd safe_the_val_T safe_modify assms [THEN harmlessD] stability | simp; fail)+

text \<open>The clauses of a try statement.\<close>

definition clause_harmless :: "clause \<Rightarrow> bool" where
  "clause_harmless c \<longleftrightarrow> harmless (cl_body c)"

lemma harmless_push_part: "harmless (push_part p chars)"
  by (simp add: push_part_def safe_mem_act)

lemma harmless_class_name: "harmless (class_name_string env parts)"
proof -
  have "harmless (seqs (map (push_part p) parts))" for p
    by (rule harmless_seqs) (use harmless_push_part in auto)
  then have parts: "safe P (seqs (map (push_part p) parts)) (\<lambda>_ _. True)" for P p by blast
  show ?thesis unfolding class_name_string_def
    by (rule harmlessI) (rule safe_bnd safe_thn safe_mem_act parts safe_on_mem safe_T_rules(1) stability)+
qed

lemma set_catch_steps:
  "compiler_ok fr c \<Longrightarrow> steps fr c (c\<lparr>c_iseq := (c_iseq c)\<lparr>is_catchTbl := t\<rparr>\<rparr>)"
proof -
  assume ok: "compiler_ok fr c"
  let ?c = "c\<lparr>c_iseq := (c_iseq c)\<lparr>is_catchTbl := t\<rparr>\<rparr>"
  have "iseq_rep (c_iseq ?c) ps = iseq_rep (c_iseq c) ps" for ps
    by (simp add: iseq_rep_def iseq_links_def insn_of_def cong: map_cong)
  moreover have "operand_ok ?c = operand_ok c" by (rule operand_ok_same) simp_all
  then have "insn_ok ?c = insn_ok c" by (intro ext) (simp add: insn_ok_def)
  ultimately show ?thesis using ok by (auto simp: steps_def compiler_ok_def develops_def n_constants_def)
qed

lemma safe_add_row:
  assumes "\<And>q. \<exists>t. snd (f q) = q\<lparr>is_catchTbl := t\<rparr>"
  shows "safe P (add_row_act f) (\<lambda>_ _. True)"
proof (rule safeI)
  fix s a s1
  assume s: "state_ok s" "add_row_act f s = Some (a, s1)"
  obtain c cs where c: "cs_comps s = c # cs"
    using s(2) by (cases "cs_comps s") (simp_all add: add_row_act_def bnd_def currentIseq_def current_def)
  obtain t where t: "snd (f (c_iseq c)) = (c_iseq c)\<lparr>is_catchTbl := t\<rparr>" using assms by blast
  have s1: "s1 = upd_current (\<lambda>c'. c'\<lparr>c_iseq := snd (f (c_iseq c))\<rparr>) s"
    using s(2) c by (auto simp: add_row_act_def bnd_def thn_def currentIseq_def current_def yields_def on_current_def modify_def
        split: prod.splits)
  have "steps (cs_fresh s) c (c\<lparr>c_iseq := snd (f (c_iseq c))\<rparr>)"
    unfolding t using s(1) c by (intro set_catch_steps) (simp add: state_ok_def)
  then show "state_ok s1 \<and> grows s s1 \<and> True"
    using state_ok_Cons [OF s(1) c, of s1] c s1 by (auto simp: steps_def upd_current_def)
qed

lemma safe_catch_row: "safe P (add_row_act (\<lambda>q. iseqAddCatchRow q a b t v)) (\<lambda>_ _. True)"
  by (rule safe_add_row) (auto simp: iseqAddCatchRow_def split: prod.splits)

lemma safe_ensure_row: "safe P (add_row_act (\<lambda>q. iseqAddEnsureRow q a b t)) (\<lambda>_ _. True)"
  by (rule safe_add_row) (auto simp: iseqAddEnsureRow_def split: prod.splits)

lemma safe_row_constant: "safe P (row_constant env row) (\<lambda>k s. operand_at CONSTANT_INDEX k s)"
  unfolding row_constant_def by (rule safe_makeConstant)

lemma harmless_bind_thrown: "harmless (bind_thrown env row t)"
  unfolding bind_thrown_def
  by (rule harmlessI)
    (rule safe_seqs_Cons safe_seqs_Nil safe_bnd safe_row_constant safe_op1 safe_drop safe_declareVariable safe_namedVariable stability
      stable_here_variable | fastforce simp: operands_simps)+

definition jumps_at :: "iptr list \<Rightarrow> cstate \<Rightarrow> bool" where
  "jumps_at js s \<longleftrightarrow> (\<forall>j\<in>set js. jump_at j s)"

lemma stable_jumps: "stable (jumps_at js)"
  unfolding jumps_at_def by (rule stable_rules(4), rule stable_jump_at)

lemma close_yields:
  assumes "\<And>s. P s \<Longrightarrow> in_scope s \<and> jumps_at js s"
  shows "safe_close P (thn (popScope t) (yields js)) (\<lambda>js s. jumps_at js s)"
  by (rule pop_thn [OF safe_popScope, where P' = "jumps_at js"])
    (use assms in \<open>auto intro: stable_jumps safe_yields_any\<close>)

lemma safe_emit_catch:
  assumes "clause_harmless c"
  shows "safe P (emit_catch env ifrom ito itarget c w) (\<lambda>js s. jumps_at js s)"
proof -
  have j: "safe P (if w then bnd (emitJump OP_JUMP) (\<lambda>j. yields [j]) else yields []) (\<lambda>js s. jumps_at js s)" for P
    by (rule safe_any) (rule safe_if safe_bnd safe_emitJump safe_yields_any stability | simp add: operands_of_def jumps_at_def; fail)+
  have cb: "safe P (cl_body c) (\<lambda>_ _. True)" for P using assms by (simp add: clause_harmless_def)
  have bind: "safe P (case cl_bind c of Some t \<Rightarrow> bind_thrown env row t | None \<Rightarrow> skip) (\<lambda>_ _. True)" for P row
    by (rule safe_option) (rule safe_T_rules harmlessD [OF harmless_bind_thrown])+
  have body: "safe_open P (seqs [
       pushScope COMPILE_SCOPE_TRY,
       (case cl_bind c of Some t \<Rightarrow> bind_thrown env row t | None \<Rightarrow> skip),
       cl_body c]) (\<lambda>_ s. in_scope s)" for P row
    by (rule open_seqs) (simp add: bind cb)
  show ?thesis unfolding emit_catch_def
    by (rule safe_any)
      (rule safe_bnd harmlessD [OF harmless_class_name] safe_catch_row push_thn [OF body] close_bnd j close_yields stability firm
        | simp; fail)+
qed

lemma safe_patch_to_tail: "(\<And>s. P s \<Longrightarrow> jump_at j s) \<Longrightarrow> safe P (patch_to_tail j) (\<lambda>_ _. True)"
proof -
  have "safe (jump_at j) (patch_to_tail j) (\<lambda>_ _. True)"
    unfolding patch_to_tail_def by (rule safe_bnd safe_currentIseq safe_patchJump stability | simp; fail)+
  then show "(\<And>s. P s \<Longrightarrow> jump_at j s) \<Longrightarrow> safe P (patch_to_tail j) (\<lambda>_ _. True)" by (rule safe_weaken)
qed

lemma safe_patch_all: "(\<And>s. P s \<Longrightarrow> jumps_at js s) \<Longrightarrow> safe P (seqs (map patch_to_tail js)) (\<lambda>_ _. True)"
proof -
  have "safe (jumps_at js) (seqs (map patch_to_tail js)) (\<lambda>_ _. True)"
    by (rule safe_seqs_map) (auto simp: jumps_at_def intro: safe_patch_to_tail stable_here_rules(1) [OF stable_jumps])
  then show "(\<And>s. P s \<Longrightarrow> jumps_at js s) \<Longrightarrow> safe P (seqs (map patch_to_tail js)) (\<lambda>_ _. True)" by (rule safe_weaken)
qed

lemma safe_emit_else:
  assumes "clause_harmless c" "\<And>s. P s \<Longrightarrow> \<forall>j. jumpToEnd = Some j \<longrightarrow> jump_at j s"
  shows "safe P (emit_else c jumpToEnd) (\<lambda>_ _. True)"
proof -
  have cb: "safe P (cl_body c) (\<lambda>_ _. True)" for P using assms by (simp add: clause_harmless_def)
  have body: "safe P (seqs [patch_to_tail j, pushScope COMPILE_SCOPE_TRY, cl_body c, popScope COMPILE_SCOPE_TRY]) (\<lambda>_ _. True)"
    if "\<And>s. P s \<Longrightarrow> jump_at j s" for P j
  proof (rule safe_weaken)
    show "safe (jump_at j) (seqs [patch_to_tail j, pushScope COMPILE_SCOPE_TRY, cl_body c, popScope COMPILE_SCOPE_TRY]) (\<lambda>_ _. True)"
      by (rule push_rules close_rules safe_seqs_Cons safe_seqs_Nil safe_patch_to_tail cb stability firm | simp; fail)+
  qed (use that in auto)
  show ?thesis
  proof (cases jumpToEnd)
    case None
    then show ?thesis by (simp add: emit_else_def the_val_def bnd_def fails_def safe_via_def)
  next
    case (Some j)
    have "safe P (bnd (yields j) (\<lambda>j. seqs [patch_to_tail j, pushScope COMPILE_SCOPE_TRY, cl_body c, popScope COMPILE_SCOPE_TRY])) (\<lambda>_ _. True)"
      using body [of P j] assms(2) Some by (simp add: bnd_def yields_def safe_via_def)
    then show ?thesis by (simp add: emit_else_def the_val_def Some)
  qed
qed

lemma safe_emit_ensure:
  assumes "clause_harmless c" "\<And>s. P s \<Longrightarrow> jumps_at js s"
  shows "safe P (emit_ensure env a b t c js) (\<lambda>_ _. True)"
proof -
  have cb: "safe P (cl_body c) (\<lambda>_ _. True)" for P using assms by (simp add: clause_harmless_def)
  have body: "safe (operand_at CONSTANT_INDEX k) (seqs [
        pushScope COMPILE_SCOPE_TRY, cl_body c, op1 OP_RETHROW_IF_ERR k, popScope COMPILE_SCOPE_TRY]) (\<lambda>_ _. True)" for k
    by (rule push_rules close_rules safe_seqs_Nil safe_op1 cb stability firm | fastforce simp: operands_simps)+
  have body': "safe P (seqs [
        pushScope COMPILE_SCOPE_TRY, cl_body c, op1 OP_RETHROW_IF_ERR k, popScope COMPILE_SCOPE_TRY]) (\<lambda>_ _. True)"
    if "\<And>s. P s \<Longrightarrow> operand_at CONSTANT_INDEX k s" for P k
    by (rule safe_weaken [OF body]) (use that in auto)
  have "safe (jumps_at js) (emit_ensure env a b t c js) (\<lambda>_ _. True)"
    unfolding emit_ensure_def
    by (rule safe_thn safe_patch_all safe_bnd safe_ensure_row safe_row_constant body' stability
        stable_here_rules(1) [OF stable_jumps] | simp; fail)+
  then show ?thesis by (rule safe_weaken) (use assms in auto)
qed

definition jump_opt :: "iptr option \<Rightarrow> cstate \<Rightarrow> bool" where
  "jump_opt jo s \<longleftrightarrow> (\<forall>j. jo = Some j \<longrightarrow> jump_at j s)"

lemma stable_jump_opt: "stable (jump_opt jo)"
  using stable_jump_at unfolding jump_opt_def stable_def by blast

lemma jumps_tl: "jumps_at js s \<Longrightarrow> jumps_at (tl js) s" "jump_opt None s"
  by (cases js) (simp_all add: jumps_at_def jump_opt_def)

lemma safe_emit_clauses:
  assumes "\<forall>c\<in>set cs. clause_harmless c"
  shows "safe (\<lambda>s. jumps_at js s \<and> jump_opt jo s) (emit_clauses env a b cs js jo) (\<lambda>js s. jumps_at js s)"
  using assms
proof (induction cs arbitrary: js jo)
  case Nil
  show ?case unfolding emit_clauses.simps by (rule safe_yields_any) simp
next
  case (Cons c cs)
  let ?P = "\<lambda>js jo s. jumps_at js s \<and> jump_opt jo s"
  have st: "stable_here (?P js jo)" for js jo
    by (rule stability stable_here_rules(1) [OF stable_jumps] stable_here_rules(1) [OF stable_jump_opt])+
  have IH: "safe P (emit_clauses env a b cs js jo) (\<lambda>js s. jumps_at js s)" if "\<And>s. P s \<Longrightarrow> ?P js jo s" for P js jo
    by (rule safe_weaken [OF Cons.IH]) (use Cons.prems that in auto)
  have c: "clause_harmless c" using Cons.prems by simp
  have "safe (?P js jo) (bnd (emit_catch env a b t c w) (\<lambda>js'. emit_clauses env a b cs (js @ js') jo)) (\<lambda>js s. jumps_at js s)"
    for t w by (rule safe_bnd [OF safe_emit_catch [OF c] st IH]) (auto simp: jumps_at_def)
  moreover have "safe (?P js jo) (thn (emit_else c jo) (emit_clauses env a b cs (tl js) None)) (\<lambda>js s. jumps_at js s)"
    by (rule safe_thn [OF safe_emit_else [OF c] st IH]) (auto simp: jump_opt_def jumps_tl)
  moreover have "safe (?P js jo) (thn (assume_that q) (thn (emit_ensure env a b t c js) (emit_clauses env a b cs [] jo)))
      (\<lambda>js s. jumps_at js s)" for t q
    by (rule safe_thn [OF safe_assume_T st], rule safe_thn [OF safe_emit_ensure [OF c] _ IH])
      (auto simp: jumps_at_def [of "[]"] intro: st stable_here_rules stable_rules)
  ultimately have step: "safe (?P js jo)
     (let itarget = is_wordCount q
      in if cl_kind c = Some CATCH_STMT
        then bnd (emit_catch env a b itarget c
               (cs \<noteq> [] \<and> cl_kind (hd cs) \<in> {Some CATCH_STMT, Some TRY_ELSE_STMT}))
             (\<lambda>js'. emit_clauses env a b cs (js @ js') jo)
        else if cl_kind c = Some TRY_ELSE_STMT
        then thn (emit_else c jo) (emit_clauses env a b cs (tl js) None)
        else thn (assume_that (cl_kind c = Some ENSURE_STMT))
          (thn (emit_ensure env a b itarget c js)
             (emit_clauses env a b cs [] jo))) (\<lambda>js s. jumps_at js s)" for q
    by (simp add: Let_def)
  show ?case unfolding emit_clauses.simps
    by (rule safe_bnd [OF safe_currentIseq st], rule safe_weaken [OF step]) auto
qed

lemma harmless_try:
  assumes "harmless block" "\<forall>c\<in>set cs. clause_harmless c"
  shows "harmless (emit_try env block cs)"
proof -
  have j: "safe P (if q then yields None else bnd (emitJump OP_JUMP) (\<lambda>j. yields (Some j))) (\<lambda>jo s. jump_opt jo s)" for P q
    by (rule safe_any) (rule safe_if safe_bnd safe_emitJump safe_yields_any stability | simp add: operands_of_def jump_opt_def; fail)+
  have clauses: "safe P (emit_clauses env a b cs (case jo of Some j \<Rightarrow> [j] | None \<Rightarrow> []) jo) (\<lambda>js s. jumps_at js s)"
    if "\<And>s. P s \<Longrightarrow> jump_opt jo s" for P a b jo
    by (rule safe_weaken [OF safe_emit_clauses [OF assms(2)]], drule that)
      (auto simp: jumps_at_def jump_opt_def split: option.splits)
  show ?thesis unfolding emit_try_def Let_def
    by (rule harmlessI)
      (rule safe_bnd safe_thn safe_currentIseq harmlessD [OF assms(1)] j safe_whenc clauses safe_patch_all stability
        stable_here_rules(1) [OF stable_jump_opt] | simp; fail)+
qed

subsection \<open>The tree\<close>

lemma harmless_constant_op: "operands_of code = [CONSTANT_INDEX] \<Longrightarrow> harmless (bnd (identifierConstant env t) (op1 code))"
  by (rule harmlessI) (rule safe_bnd safe_identifierConstant safe_op1 stability | simp add: operands_at_def; fail)+

lemma harmless_then_op: "harmless m \<Longrightarrow> harmless (seqs [m, op0 code])"
  by (rule harmlessI) (rule safe_seqs_Cons safe_seqs_Nil safe_op0 harmlessD stability | assumption)+

lemma harmless_then_constant:
  "harmless m \<Longrightarrow> operands_of code = [CONSTANT_INDEX] \<Longrightarrow> harmless (seqs [m, bnd (identifierConstant env t) (op1 code)])"
  by (rule harmlessI) (rule safe_seqs_Cons safe_seqs_Nil harmlessD [OF harmless_constant_op] harmlessD stability | assumption)+

lemma harmless_fails: "harmless fails"
  by (simp add: safe_T_rules)

lemma harmless_op0: "harmless (op0 code)"
  by (simp add: safe_op0)

lemma harmless_drop: "harmless m \<Longrightarrow> harmless (drop_val m)"
  by (blast intro: safe_drop)

lemma harmless_named: "harmless (namedVariable env t g)"
  by (simp add: safe_namedVariable)

lemma harmless_guarded:
  assumes "harmless m"
  shows "harmless (bnd current (\<lambda>c0. if c_hadError c0 then skip else thn (modify (\<lambda>s. s\<lparr>cs_curTok := Some tok,
     cs_nodeWidth := cs_nodeWidth s + 1\<rparr>)) m))"
  by (rule harmlessI) (rule safe_bnd safe_current safe_if safe_T_rules(2) safe_thn safe_modify harmlessD [OF assms] stability | simp; fail)+

text \<open>What emitNode may assume of the actions for the nodes below.\<close>

definition below :: "comp_env \<Rightarrow> ast list \<Rightarrow> bool" where
  "below env ns \<longleftrightarrow> (\<forall>n\<in>set ns. \<forall>e. harmless (emitNode env e n) \<and>
     (\<forall>c\<in>set (node_children n). harmless (emitNode env e c)))"

lemma below_kids: "below env ns \<Longrightarrow> \<forall>m\<in>set (map (emitNode env e) ns). harmless m"
  by (auto simp: below_def)

lemma below_child: "below env ns \<Longrightarrow> n \<in> set ns \<Longrightarrow> harmless (emitNode env e n)"
  by (auto simp: below_def)

lemma below_grand: "below env ns \<Longrightarrow> n \<in> set ns \<Longrightarrow> \<forall>m\<in>set (map (emitNode env e) (node_children n)). harmless m"
  by (auto simp: below_def)

lemma below_params:
  "below env ns \<Longrightarrow> \<forall>p\<in>set (map (\<lambda>p. param_of tok e p (map (emitNode env e) (node_children p))) ns). param_harmless p"
  by (auto simp: below_def param_of_def param_harmless_def)

lemma below_nth: "below env ns \<Longrightarrow> i < length ns \<Longrightarrow> harmless (map (emitNode env e) ns ! i)"
  by (simp add: below_def)

lemma below_last: "below env ns \<Longrightarrow> ns \<noteq> [] \<Longrightarrow> harmless (last (map (emitNode env e) ns))"
  by (simp add: below_def last_map)

lemma harmless_null_or:
  "below env ns \<Longrightarrow> i < length ns \<Longrightarrow> null_or n (map (emitNode env e) ns ! i) = Some m \<Longrightarrow> harmless m"
  using below_nth by (auto simp: null_or_def split: if_splits)

lemma below_clauses:
  "below env ns \<Longrightarrow> \<forall>c\<in>set (map (\<lambda>c. clause_of env c (map (emitNode env e) (node_children c))) ns). clause_harmless c"
  by (auto simp: below_def clause_of_def clause_harmless_def Let_def last_map intro: safe_T_rules)

end
