(* ===== verification/Clox_Compile_Node.thy ===== *)
theory Clox_Compile_Node
  imports Clox_Compile_Laws
begin

unbundle bit_operations_syntax

text \<open>The invariant of the compiler over whole trees. By induction on the size of the tree every
  call of emitNode is harmless; so compiling any tree from a state in order leaves a state in order,
  in which the instructions emitted so far and their operands remain.\<close>

lemma harmless_if_then: "(b \<Longrightarrow> harmless m) \<Longrightarrow> (\<not> b \<Longrightarrow> harmless n) \<Longrightarrow> harmless (if b then m else n)"
  by simp

lemma harmless_node:
  assumes kids: "below env kids" and params: "below env params"
    and ms: "ms = map (emitNode env emits) kids"
    and ps: "ps = map (\<lambda>p. param_of tok emits p (map (emitNode env emits) (node_children p))) params"
  shows "kind = IF_STMT \<Longrightarrow> harmless (emit_if (emit_child ms 0) (emit_child ms 1)
            (if length kids > 2 then null_or (kids ! 2) (ms ! 2) else None))"
    "kind = FOR_STMT \<Longrightarrow> harmless (if length kids < 3 then fails
             else emit_for (null_or (kids ! 0) (ms ! 0)) (null_or (kids ! 1) (ms ! 1))
                    (null_or (kids ! 2) (ms ! 2)) (last ms))"
    "kind = FOREACH_STMT \<Longrightarrow> harmless (let vars = take (length kids - 2) kids
             in if length kids < 2 \<or> \<not> list_all (\<lambda>n. node_tok n \<noteq> None) vars then fails
                else emit_foreach env (map (\<lambda>n. the (node_tok n)) vars)
                       (ms ! (length kids - 2)) (ms ! (length kids - 1)))"
    "kind = LOGICAL_EXPR \<Longrightarrow> harmless (if kids = [] then fails else emit_logical tok (hd ms) (last ms))"
proof -
  have m: "\<forall>m\<in>set ms. harmless m" unfolding ms by (rule below_kids [OF kids])
  have nth: "harmless (ms ! i)" if "i < length kids" for i unfolding ms using below_nth [OF kids that] .
  have nul: "harmless m" if "null_or (kids ! i) (ms ! i) = Some m" "i < length kids" for i m
    using nth [OF that(2)] that(1) by (auto simp: null_or_def split: if_splits)
  have lst: "harmless (last ms)" if "kids \<noteq> []" using below_last [OF kids that] by (simp add: ms)
  show "harmless (emit_if (emit_child ms 0) (emit_child ms 1)
            (if length kids > 2 then null_or (kids ! 2) (ms ! 2) else None))"
    by (rule harmless_if, (rule harmless_emit_child, rule m)+, rule nul) (auto split: if_splits)
  show "harmless (if length kids < 3 then fails
             else emit_for (null_or (kids ! 0) (ms ! 0)) (null_or (kids ! 1) (ms ! 1))
                    (null_or (kids ! 2) (ms ! 2)) (last ms))"
  proof (rule harmless_if_then, rule harmless_fails)
    assume "\<not> length kids < 3"
    then have "0 < length kids" "1 < length kids" "2 < length kids" "kids \<noteq> []" by auto
    then show "harmless (emit_for (null_or (kids ! 0) (ms ! 0)) (null_or (kids ! 1) (ms ! 1))
                    (null_or (kids ! 2) (ms ! 2)) (last ms))"
      by (intro harmless_for lst) (erule nul, assumption)+
  qed
  show "harmless (let vars = take (length kids - 2) kids
             in if length kids < 2 \<or> \<not> list_all (\<lambda>n. node_tok n \<noteq> None) vars then fails
                else emit_foreach env (map (\<lambda>n. the (node_tok n)) vars)
                       (ms ! (length kids - 2)) (ms ! (length kids - 1)))"
    unfolding Let_def
  proof (rule harmless_if_then, rule harmless_fails)
    assume "\<not> (length kids < 2 \<or> \<not> list_all (\<lambda>n. node_tok n \<noteq> None) (take (length kids - 2) kids))"
    then have "length kids - 2 < length kids" "length kids - 1 < length kids" by auto
    then show "harmless (emit_foreach env (map (\<lambda>n. the (node_tok n)) (take (length kids - 2) kids))
       (ms ! (length kids - 2)) (ms ! (length kids - 1)))" by (intro harmless_foreach nth)
  qed
  have hd: "harmless (hd ms)" if "kids \<noteq> []"
  proof -
    have "ms \<noteq> []" using that by (simp add: ms)
    then have "hd ms \<in> set ms" by (rule hd_in_set)
    with m show ?thesis by (rule bspec)
  qed
  show "harmless (if kids = [] then fails else emit_logical tok (hd ms) (last ms))"
    by (rule harmless_if_then, rule harmless_fails, rule harmless_logical) (erule hd, erule lst)
qed

text \<open>Matching the children.\<close>

lemma match_two:
  "F d \<Longrightarrow> (\<And>v w r. kids = v # w # r \<Longrightarrow> F (f v)) \<Longrightarrow> F (case kids of v # _ # _ \<Rightarrow> f v | _ \<Rightarrow> d)"
  by (auto split: list.split)

lemma match_prop:
  assumes d: "F d"
    and f: "\<And>k l t x xs ps sc v r. kids = Node k l t (x # xs) ps sc # v # r \<Longrightarrow> F (f k l t x xs ps sc v)"
  shows "F (case kids of Node k l t (x # xs) ps sc # v # _ \<Rightarrow> f k l t x xs ps sc v | _ \<Rightarrow> d)"
proof (cases kids)
  case (Cons p rest)
  show ?thesis
  proof (cases p)
    case (Node k l t pk ps sc)
    show ?thesis by (cases pk; cases rest) (simp_all only: Cons Node list.case ast.case d f)
  qed (simp only: Cons list.case ast.case d)
qed (simp only: list.case d)

lemma match_call:
  assumes d: "F d"
    and f: "\<And>k l t x xs ps sc fk fl ft fkids fps fsup r.
        kids = Node k l t (x # xs) ps sc # Node fk fl ft fkids fps fsup # r \<Longrightarrow> F (f t x xs ft fkids fps)"
  shows "F (case kids of Node k l t (x # xs) ps sc # Node fk fl ft fkids fps fsup # _ \<Rightarrow> f t x xs ft fkids fps | _ \<Rightarrow> d)"
proof (cases kids)
  case (Cons p rest)
  note kids = Cons
  show ?thesis
  proof (cases p)
    case (Node k l t pk ps sc)
    note p = Node
    show ?thesis
    proof (cases rest)
      case (Cons q r)
      show ?thesis by (cases pk; cases q) (simp_all only: kids p Cons list.case ast.case d f)
    qed (cases pk; simp only: kids p list.case ast.case d)
  qed (simp only: kids list.case ast.case d)
qed (simp only: list.case d)

text \<open>By induction on the size of the tree.\<close>

definition below_size :: "comp_env \<Rightarrow> nat \<Rightarrow> bool" where
  "below_size env N \<longleftrightarrow> (\<forall>m e. size m < N \<longrightarrow> harmless (emitNode env e m))"

lemma below_sizeI: "below_size env N \<Longrightarrow> (\<And>n. n \<in> set ns \<Longrightarrow> size n < N) \<Longrightarrow> below env ns"
  unfolding below_size_def below_def by (meson less_trans size_node_children)

lemma size_kids: "m \<in> set kids \<Longrightarrow> size m < size (Node k l t kids ps sc)" "m \<in> set ps \<Longrightarrow> size m < size (Node k l t kids ps sc)"
  by (auto simp: less_Suc_eq_le trans_le_add1 trans_le_add2 dest!: size_in_list)

lemma harmless_call_expr:
  assumes "below env kids"
  shows "harmless (case kids of
               [] \<Rightarrow> fails
             | lhs # _ \<Rightarrow> drop_val (emitCall env tok kids (map (emitNode env emits) kids) (map (emitNode env emits) (node_children lhs))))"
proof (cases kids)
  case (Cons lhs args)
  then show ?thesis
    using harmless_drop [OF harmless_call [OF below_kids [OF assms] below_grand [OF assms, of lhs]]] by simp
qed (simp add: safe_T_rules)

lemma harmless_call_block_expr:
  assumes N: "below_size env N" and kids: "\<And>n. n \<in> set kids \<Longrightarrow> size n < N"
  shows "harmless (case kids of
               Node ck cl ct (lhs # args) cps csup # Node fk fl ft fkids fps fsup # _ \<Rightarrow>
                 emit_call_block
                   (emitCall env ct (lhs # args) (map (emitNode env emits) (lhs # args))
                      (map (emitNode env emits) (node_children lhs)))
                   (emitFunction env ft FUN_TYPE_BLOCK
                      (map (\<lambda>p. param_of ft emits p (map (emitNode env emits) (node_children p))) fps)
                      (map (emitNode env emits) fkids))
             | _ \<Rightarrow> fails)"
proof (rule match_call [where F = "\<lambda>m. harmless m"], rule harmless_fails)
  fix ck cl ct lhs args cps csup fk fl ft fkids fps fsup rest
  assume that: "kids = Node ck cl ct (lhs # args) cps csup # Node fk fl ft fkids fps fsup # rest"
  have s: "size (Node ck cl ct (lhs # args) cps csup) < N" "size (Node fk fl ft fkids fps fsup) < N"
    by (rule kids, simp add: that)+
  have args: "below env (lhs # args)" "below env fkids" "below env fps"
    by (rule below_sizeI [OF N], erule less_trans [OF size_kids(1) s(1)], 
        rule below_sizeI [OF N], erule less_trans [OF size_kids(1) s(2)],
        rule below_sizeI [OF N], erule less_trans [OF size_kids(2) s(2)])
  show "harmless (emit_call_block
                   (emitCall env ct (lhs # args) (map (emitNode env emits) (lhs # args))
                      (map (emitNode env emits) (node_children lhs)))
                   (emitFunction env ft FUN_TYPE_BLOCK
                      (map (\<lambda>p. param_of ft emits p (map (emitNode env emits) (node_children p))) fps)
                      (map (emitNode env emits) fkids)))"
    by (rule harmless_call_block [OF harmless_call [OF below_kids [OF args(1)] below_grand [OF args(1)]]
          harmless_function [OF below_params [OF args(3)] below_kids [OF args(2)]]]) simp
qed

lemma harmless_prop_set_binop_expr:
  assumes N: "below_size env N" and kids: "\<And>n. n \<in> set kids \<Longrightarrow> size n < N"
  shows "harmless (case kids of
               Node pk pl ptok (obj # os) pps psup # v # _ \<Rightarrow>
                 emit_prop_set_binop env tok (emitNode env (2 * emits) obj)
                   (emitNode env (2 * emits + 1) (Node pk pl ptok (obj # os) pps psup))
                   (emitNode env emits v) ptok
             | _ \<Rightarrow> fails)"
proof (rule match_prop [where F = "\<lambda>m. harmless m"], rule harmless_fails)
  fix pk pl ptok obj os pps psup v rest
  assume that: "kids = Node pk pl ptok (obj # os) pps psup # v # rest"
  have s: "size (Node pk pl ptok (obj # os) pps psup) < N" "size v < N" by (rule kids, simp add: that)+
  have "size obj < size (Node pk pl ptok (obj # os) pps psup)" by (rule size_kids) simp
  then have o: "size obj < N" using s(1) by (rule less_trans)
  have h: "harmless (emitNode env e n)" if "size n < N" for e n using N that unfolding below_size_def by blast
  show "harmless (emit_prop_set_binop env tok (emitNode env (2 * emits) obj)
                   (emitNode env (2 * emits + 1) (Node pk pl ptok (obj # os) pps psup)) (emitNode env emits v) ptok)"
    by (rule harmless_prop_set_binop [OF h [OF o] h [OF s(1)] h [OF s(2)]])
qed

lemma harmless_assign_expr:
  assumes "below env kids"
  shows "harmless (case kids of v # _ # _ \<Rightarrow> emit_assign env (map (emitNode env e) kids ! 1) v | _ \<Rightarrow> fails)"
proof (rule match_two [where F = "\<lambda>m. harmless m"], rule harmless_fails)
  fix v w r
  assume "kids = v # w # r"
  then have "1 < length kids" by simp
  then show "harmless (emit_assign env (map (emitNode env e) kids ! 1) v)"
    by (rule harmless_assign [OF below_nth [OF assms]])
qed

lemma harmless_try_stmt:
  assumes "below env kids"
  shows "harmless (case kids of
               [] \<Rightarrow> fails
             | t # cs \<Rightarrow> emit_try env (emitNode env e t)
                 (map (\<lambda>c. clause_of env c (map (emitNode env e) (node_children c))) cs))"
proof (cases kids)
  case (Cons t cs)
  then have "below env cs" "harmless (emitNode env e t)" using assms by (auto simp: below_def)
  then show ?thesis using harmless_try below_clauses Cons by simp
qed (simp add: safe_T_rules)

lemma harmless_super: "harmless (if kids = [] then fails
             else bnd (tok_of (last kids)) (\<lambda>t. bnd (identifierConstant env t) (op1 OP_GET_SUPER)))"
  by (rule harmlessI)
    (rule safe_if safe_T_rules safe_bnd safe_tok_of harmlessD [OF harmless_constant_op] stability | simp add: operands_of_def; fail)+

lemma harmless_Node:
  assumes N: "below_size env N" and kids: "\<And>n. n \<in> set kids \<Longrightarrow> size n < N" and params: "\<And>n. n \<in> set params \<Longrightarrow> size n < N"
  shows "harmless (emitNode env emits (Node kind lit tok kids params super))"
proof -
  let ?ms = "map (emitNode env emits) kids"
  let ?ps = "map (\<lambda>p. param_of tok emits p (map (emitNode env emits) (node_children p))) params"
  have bk: "below env kids" by (rule below_sizeI [OF N kids])
  have bp: "below env params" by (rule below_sizeI [OF N params])
  have m: "\<forall>m\<in>set ?ms. harmless m" by (rule below_kids [OF bk])
  have fn: "harmless (drop_val (emitFunction env tok t ?ps ?ms))" for t
    by (rule harmless_drop, rule harmless_function [OF below_params [OF bp] m])
  note rules = harmless_emitChildren [OF m] harmless_emit_child [OF m] harmless_node [OF bk bp refl refl] m fn
    harmless_fails harmless_op0 harmless_then_op harmless_then_constant harmless_constant_op harmless_named
    harmless_binary harmless_unary harmless_literal harmless_array harmless_map harmless_while harmless_break
    harmless_continue harmless_var harmless_constant_lookup harmless_assign_expr [OF bk] harmless_block
    harmless_method harmless_class harmless_module harmless_in
    harmless_prop_set_binop_expr [OF N kids] harmless_return harmless_super harmless_call_expr [OF bk]
    harmless_call_block_expr [OF N kids] harmless_try_stmt [OF bk]
  show ?thesis
    by (subst emitNode.simps(2), rule harmless_guarded, subst Let_def, subst Let_def, subst Let_def,
        cases kind, simp_all only: node_kind.case)
      (assumption | rule refl rules | simp add: operands_of_def; fail)+
qed

lemma emitNode_below: "below_size env N"
proof (induction N)
  case 0
  then show ?case by (simp add: below_size_def)
next
  case (Suc N)
  have "harmless (emitNode env e m)" if "size m < Suc N" for m e
  proof (cases m)
    case NullNode
    show ?thesis unfolding NullNode emitNode.simps(1)
      by (rule harmlessI) (rule safe_bnd safe_current safe_if safe_T_rules stability)+
  next
    case (Node kind lit tok kids params super)
    have less: "size n < N" if "n \<in> set kids \<or> n \<in> set params" for n
      using that size_kids \<open>size m < Suc N\<close> unfolding Node by (meson less_Suc_eq_le less_le_trans)
    show ?thesis unfolding Node by (rule harmless_Node [OF Suc.IH]) (simp_all add: less)
  qed
  then show ?case by (simp add: below_size_def)
qed

lemma emitNode_harmless: "harmless (emitNode env e n)"
  using emitNode_below [of env "Suc (size n)"] by (simp add: below_size_def)

text \<open>C3: whatever tree emitNode compiles, when it returns then every compiler of the chain is still
  in order: the instruction list is well linked, there are at most 255 slots of locals and 256
  upvalues, the table of constants maps to indexes of constants, and unless an error was reported
  every operand of an emitted instruction that vm.c reads as a slot, an upvalue or a constant is the
  index of one. The scopes are balanced, and nothing emitted before loses its opcode.\<close>

theorem emitNode_operands_valid:
  assumes "state_ok s" "emitNode env emits n s = Some ((), s1)"
  shows "state_ok s1 \<and> map c_scopeDepth (cs_comps s1) = map c_scopeDepth (cs_comps s) \<and>
    list_all2 develops (cs_comps s) (cs_comps s1) \<and>
    (\<forall>c\<in>set (cs_comps s1). \<not> c_hadError c \<longrightarrow>
       (\<forall>p nd. is_store (c_iseq c) p = Some nd \<longrightarrow> insn_ok c (nd_insn nd)))"
proof -
  have "state_ok s1 \<and> grows s s1"
    using harmlessD [OF emitNode_harmless, of "\<lambda>_. True"] assms by (auto dest!: safeD)
  then show ?thesis by (auto simp: grows_by_def state_ok_def compiler_ok_def)
qed

definition wt_tok :: "token_type \<Rightarrow> token" where
  "wt_tok t = \<lparr>tk_type = t, tk_startIdx = 0, tk_length = 0, tk_lexeme = None, tk_line = 1, tk_alloced = False\<rparr>"

text \<open>The tree of if (true) print nil;\<close>

definition wt_tree :: ast where
  "wt_tree = Node IF_STMT LIT_TYPE_NONE (wt_tok TOKEN_IF)
     [Node LITERAL_EXPR BOOL_TYPE (wt_tok TOKEN_TRUE) [] [] None,
      Node PRINT_STMT LIT_TYPE_NONE (wt_tok TOKEN_PRINT)
        [Node LITERAL_EXPR NIL_TYPE (wt_tok TOKEN_NIL) [] [] None] [] None] [] None"

definition wt_state :: "comp_env \<Rightarrow> mem \<Rightarrow> cstate" where
  "wt_state env m = \<lparr>cs_comps = [new_compiler 0 FUN_TYPE_TOP_LEVEL 0], cs_classes = [],
     cs_inINBlock = False, cs_curTok = None, cs_loopStart = - 1, cs_curLoopType = LOOP_T_NONE,
     cs_nodeDepth = 0, cs_nodeWidth = - 1, cs_blockDepth = 0, cs_breakBlock = False,
     cs_curScope = None, cs_scopes = [], cs_loopLocalCount = 0, cs_nextInsnIsLabel = False,
     cs_errMessages = [], cs_mem = m, cs_strings = initTable,
     cs_fnInfo = (\<lambda>_. Some \<lparr>fi_chunk = initChunk, fi_scopes = [], fi_variables = [],
       fi_upvaluesInfo = [], fi_defaults = []\<rparr>), cs_callInfos = [], cs_fresh = 1\<rparr>"

lemma wt_state_ok: "state_ok (wt_state env m)"
  by (simp add: state_ok_def wt_state_def new_compiler_ok)

definition emitted :: "iseq \<Rightarrow> iptr list \<Rightarrow> (opcode \<times> u32 list) option list" where
  "emitted q ps = map (\<lambda>p. map_option (\<lambda>n. (in_code (nd_insn n),
     take (in_numOperands (nd_insn n)) (in_operands (nd_insn n)))) (is_store q p)) ps"

lemma wt_tree_code:
  "map_option (\<lambda>(_, s). map (\<lambda>c. emitted (c_iseq c) [1, 2, 3, 4, 5]) (cs_comps s))
     (emitNode env 0 wt_tree (wt_state env m)) =
   Some [[Some (OP_TRUE, []), Some (OP_JUMP_IF_FALSE, [3]), Some (OP_NIL, []), Some (OP_PRINT, []), None]]"
  by code_simp

theorem emitNode_operands_valid_witness:
  "\<forall>env m. \<exists>s1. emitNode env 0 wt_tree (wt_state env m) = Some ((), s1) \<and> state_ok s1 \<and>
     map (\<lambda>c. emitted (c_iseq c) [1, 2, 3, 4, 5]) (cs_comps s1) =
       [[Some (OP_TRUE, []), Some (OP_JUMP_IF_FALSE, [3]), Some (OP_NIL, []), Some (OP_PRINT, []), None]]"
proof (intro allI)
  fix env m
  from wt_tree_code [of env m] obtain s1 where s1: "emitNode env 0 wt_tree (wt_state env m) = Some ((), s1)"
    and code: "map (\<lambda>c. emitted (c_iseq c) [1, 2, 3, 4, 5]) (cs_comps s1) =
       [[Some (OP_TRUE, []), Some (OP_JUMP_IF_FALSE, [3]), Some (OP_NIL, []), Some (OP_PRINT, []), None]]"
    by auto
  have "state_ok s1" using emitNode_operands_valid [OF wt_state_ok s1] by (rule conjunct1)
  with s1 code show "\<exists>s1. emitNode env 0 wt_tree (wt_state env m) = Some ((), s1) \<and> state_ok s1 \<and>
     map (\<lambda>c. emitted (c_iseq c) [1, 2, 3, 4, 5]) (cs_comps s1) =
       [[Some (OP_TRUE, []), Some (OP_JUMP_IF_FALSE, [3]), Some (OP_NIL, []), Some (OP_PRINT, []), None]]"
    by (intro exI [of _ s1] conjI)
qed

end
