(* ===== verification/Clox_VM.thy ===== *)
theory Clox_VM
  imports Clox_Emit
begin

unbundle bit_operations_syntax

text \<open>The state of the interpreter and its smallest operations (vm.c, vm.h): the operand stack, the
  execution contexts, call frames, the stacks of receivers and of open classes, the tags for
  errors, the entries of blocks, and upvalues. An operation passes the state of the running thread;
  its result is None where the code has a failed assertion or undefined behaviour, and otherwise a
  value or the target of a longjmp.\<close>

subsection \<open>State\<close>

text \<open>A stack slot is a number, its address; a pointer to a call frame is the number of the array it
  lies in and its index. Both become invalid when realloc replaces the block, which is then given a
  new number: the standard leaves pointers into the old block undefined.\<close>

type_synonym slot = nat
type_synonym fptr = "nat \<times> nat"

record call_frame =
  cf_closure :: addr
  cf_name :: addr
  cf_ip :: int
  cf_start :: int
  cf_slots :: slot
  cf_scope :: addr
  cf_instance :: addr
  cf_klass :: addr
  cf_isCCall :: bool
  cf_isEval :: bool
  cf_nativeFunc :: addr
  cf_callLine :: int
  cf_file :: addr
  cf_jmpBufSet :: bool
  cf_prev :: "fptr option"
  cf_stackAdjustOnPop :: int
  cf_callInfo :: "nat option"

record vm_context =
  xc_stack :: slot
  xc_capa :: nat
  xc_stackTop :: slot
  xc_framesId :: nat
  xc_framesCapa :: nat
  xc_frames :: "call_frame list"
  xc_roGlobals :: table
  xc_filename :: addr
  xc_lastValue :: "slot option"
  xc_evalContext :: bool
  xc_loadContext :: bool
  xc_stackAllocated :: bool

text \<open>What happens after a longjmp: an error tag, the buffer for C calls, the buffer of a frame (its
  context counted from the oldest, and its index there) or the root of the interpreter; JExit is the
  end of the thread, JFuel a recursion that went deeper than it was given fuel.\<close>

datatype jump = JErrTag nat | JCCall | JFrame nat nat | JRoot | JExit | JFuel

record err_tag =
  et_id :: nat
  et_errClass :: addr
  et_frame :: fptr
  et_raised :: bool
  et_bentry :: "nat option"
  et_caughtError :: lxvalue

record block_stack_entry =
  bs_id :: nat
  bs_callable :: addr
  bs_frame :: "fptr option"

text \<open>A CallInfo that the compiler made, with the fields that the interpreter writes.\<close>

record call_site =
  cs_info :: call_info
  cs_blockInstance :: addr
  cs_isYield :: bool

text \<open>The running thread and the global state. The cells of stacks are None when they are not
  allocated and Some None when nothing was stored in them. Stacks of pointers have their top first,
  the contexts the current one.\<close>

record vmst =
  v_mem :: mem
  v_strings :: table
  v_fnInfo :: "addr \<Rightarrow> fn_info option"
  v_sites :: "call_site list"
  v_cells :: "slot \<Rightarrow> lxvalue option option"
  v_fresh :: nat
  v_ecs :: "vm_context list"
  v_openUpvalues :: addr
  v_threadInst :: addr
  v_thisObj :: addr
  v_thisStack :: "addr list"
  v_crefStack :: "addr list"
  v_blockStack :: "block_stack_entry list"
  v_lastValue :: "slot option"
  v_hadError :: bool
  v_errInfo :: "err_tag list"
  v_lastErrorThrown :: lxvalue
  v_inCCall :: int
  v_cCallThrew :: bool
  v_returnedFromNativeErr :: bool
  v_cCallJumpBufSet :: bool
  v_rootBufSet :: bool
  v_vmRunLvl :: int
  v_lastSplatNumArgs :: int
  v_opsRemaining :: int
  v_interrupted :: bool
  v_exited :: bool
  v_curLine :: int
  v_globals :: table
  v_constants :: table
  v_autoloadTbl :: table
  v_regexLiterals :: table
  v_output :: "bytes list"

type_synonym 'a vact = "(vmst, jump + 'a) act"

subsection \<open>Actions\<close>

definition vret :: "'a \<Rightarrow> 'a vact" where "vret a = yields (Inr a)"

definition jump :: "jump \<Rightarrow> 'a vact" where "jump j = yields (Inl j)"

definition vbnd :: "'a vact \<Rightarrow> ('a \<Rightarrow> 'b vact) \<Rightarrow> 'b vact" where
  "vbnd m f s = (case m s of None \<Rightarrow> None | Some (Inl j, s1) \<Rightarrow> Some (Inl j, s1) | Some (Inr a, s1) \<Rightarrow> f a s1)"

definition vthn :: "'a vact \<Rightarrow> 'b vact \<Rightarrow> 'b vact" where "vthn m n = vbnd m (\<lambda>_. n)"

definition vskip :: "unit vact" where "vskip = vret ()"

definition vget :: "(vmst \<Rightarrow> 'a) \<Rightarrow> 'a vact" where "vget f s = Some (Inr (f s), s)"

definition vmod :: "(vmst \<Rightarrow> vmst) \<Rightarrow> unit vact" where "vmod f s = Some (Inr (), f s)"

definition vthe :: "'a option \<Rightarrow> 'a vact" where
  "vthe x = (case x of None \<Rightarrow> fails | Some a \<Rightarrow> vret a)"

definition vassert :: "bool \<Rightarrow> unit vact" where "vassert b = (if b then vskip else fails)"

definition vwhen :: "bool \<Rightarrow> unit vact \<Rightarrow> unit vact" where "vwhen b m = (if b then m else vskip)"

definition vdrop :: "'a vact \<Rightarrow> unit vact" where "vdrop m = vthn m vskip"

fun vseqs :: "unit vact list \<Rightarrow> unit vact" where
  "vseqs [] = vskip"
| "vseqs (m # ms) = vthn m (vseqs ms)"

fun vmap :: "('a \<Rightarrow> 'b vact) \<Rightarrow> 'a list \<Rightarrow> 'b list vact" where
  "vmap f [] = vret []"
| "vmap f (x # xs) = vbnd (f x) (\<lambda>y. vbnd (vmap f xs) (\<lambda>ys. vret (y # ys)))"

text \<open>An operation of the object heap that may fail.\<close>

definition vmem :: "(mem \<Rightarrow> ('a \<times> mem) option) \<Rightarrow> 'a vact" where
  "vmem f s = (case f (v_mem s) of None \<Rightarrow> None | Some (a, m) \<Rightarrow> Some (Inr a, s\<lparr>v_mem := m\<rparr>))"

definition vmem_upd :: "(mem \<Rightarrow> mem) \<Rightarrow> unit vact" where
  "vmem_upd f = vmod (\<lambda>s. s\<lparr>v_mem := f (v_mem s)\<rparr>)"

definition vmem_opt :: "(mem \<Rightarrow> mem option) \<Rightarrow> unit vact" where
  "vmem_opt f = vmem (\<lambda>m. map_option (Pair ()) (f m))"

definition vheap :: "heap vact" where "vheap = vget (\<lambda>s. objs_of (v_mem s))"

subsection \<open>Contexts and stack slots\<close>

definition STACK_INITIAL :: nat where "STACK_INITIAL = 256"
definition STACK_MAX :: nat where "STACK_MAX = 1024"
definition FRAMES_INITIAL :: nat where "FRAMES_INITIAL = 64"
definition FRAMES_MAX :: nat where "FRAMES_MAX = 1024"
definition THREAD_OPS_UNTIL_SWITCH :: int where "THREAD_OPS_UNTIL_SWITCH = 10000"

definition EC :: "vm_context vact" where
  "EC s = (case v_ecs s of [] \<Rightarrow> None | c # _ \<Rightarrow> Some (Inr c, s))"

definition upd_ctx :: "(vm_context \<Rightarrow> vm_context) \<Rightarrow> vmst \<Rightarrow> vmst" where
  "upd_ctx f s = s\<lparr>v_ecs := (case v_ecs s of [] \<Rightarrow> [] | c # cs \<Rightarrow> f c # cs)\<rparr>"

definition on_ctx :: "(vm_context \<Rightarrow> vm_context) \<Rightarrow> unit vact" where
  "on_ctx f = vthn EC (vmod (upd_ctx f))"

text \<open>Reading a slot that is not allocated or was never written is undefined.\<close>

definition cell_read :: "slot \<Rightarrow> lxvalue vact" where
  "cell_read a s = (case v_cells s a of Some (Some v) \<Rightarrow> Some (Inr v, s) | _ \<Rightarrow> None)"

definition cell_write :: "slot \<Rightarrow> lxvalue \<Rightarrow> unit vact" where
  "cell_write a v s = (case v_cells s a of None \<Rightarrow> None
     | Some _ \<Rightarrow> Some (Inr (), s\<lparr>v_cells := (v_cells s)(a := Some (Some v))\<rparr>))"

text \<open>A block of slots; no block begins at the end of another one.\<close>

definition cells_alloc :: "nat \<Rightarrow> slot vact" where
  "cells_alloc n s = Some (Inr (v_fresh s),
     s\<lparr>v_cells := (\<lambda>a. if v_fresh s \<le> a \<and> a < v_fresh s + n then Some None else v_cells s a),
       v_fresh := v_fresh s + n + 1\<rparr>)"

definition cells_free :: "slot \<Rightarrow> nat \<Rightarrow> unit vact" where
  "cells_free base n = vmod (\<lambda>s. s\<lparr>v_cells := (\<lambda>a. if base \<le> a \<and> a < base + n then None else v_cells s a)\<rparr>)"

text \<open>GROW_ARRAY on a stack: the values move to a new block.\<close>

definition cells_realloc :: "slot \<Rightarrow> nat \<Rightarrow> nat \<Rightarrow> slot vact" where
  "cells_realloc old n m s =
     (let new = v_fresh s
      in Some (Inr new,
           s\<lparr>v_cells := (\<lambda>a. if new \<le> a \<and> a < new + m
                            then (if a - new < n then v_cells s (old + (a - new)) else Some None)
                            else if old \<le> a \<and> a < old + n then None else v_cells s a),
             v_fresh := new + m + 1\<rparr>))"

definition fresh_id :: "nat vact" where
  "fresh_id s = Some (Inr (v_fresh s), s\<lparr>v_fresh := v_fresh s + 1\<rparr>)"

definition push_EC :: "bool \<Rightarrow> unit vact" where
  "push_EC allocateStack =
     vbnd (if allocateStack then cells_alloc STACK_INITIAL else vret 0) (\<lambda>base.
     vbnd fresh_id (\<lambda>fid. vmod (\<lambda>s. s\<lparr>v_ecs := \<lparr>
       xc_stack = base, xc_capa = (if allocateStack then STACK_INITIAL else 0), xc_stackTop = base,
       xc_framesId = fid, xc_framesCapa = FRAMES_INITIAL, xc_frames = [], xc_roGlobals = initTable,
       xc_filename = NULL, xc_lastValue = None, xc_evalContext = False, xc_loadContext = False,
       xc_stackAllocated = allocateStack\<rparr> # v_ecs s\<rparr>)))"

definition pop_EC :: "unit vact" where
  "pop_EC = vbnd EC (\<lambda>ctx.
     vthn (vwhen (xc_stackAllocated ctx) (cells_free (xc_stack ctx) (xc_capa ctx)))
          (vmod (\<lambda>s. s\<lparr>v_ecs := tl (v_ecs s)\<rparr>)))"

definition isInEval :: "bool vact" where "isInEval = vbnd EC (\<lambda>c. vret (xc_evalContext c))"
definition isInLoadedScript :: "bool vact" where "isInLoadedScript = vbnd EC (\<lambda>c. vret (xc_loadContext c))"

definition resetStack :: "unit vact" where
  "resetStack = on_ctx (\<lambda>c. c\<lparr>xc_stackTop := xc_stack c, xc_frames := []\<rparr>)"

subsection \<open>The operand stack\<close>

text \<open>The value on the way to the stack is flagged for the collector.\<close>

definition mark_pushed :: "lxvalue \<Rightarrow> unit vact" where
  "mark_pushed v = vwhen (IS_OBJ v) (vmem_upd (obj_set_flag (AS_OBJ v) OBJ_FLAG_PUSHED_VM_STACK))"

text \<open>errorPrintScriptBacktrace, apart from what it prints, and the end of the thread.\<close>

definition errorPrintScriptBacktrace :: "unit vact" where
  "errorPrintScriptBacktrace = vthn (vmod (\<lambda>s. s\<lparr>v_hadError := True\<rparr>)) resetStack"

definition stack_overflow :: "'a vact" where
  "stack_overflow = vthn errorPrintScriptBacktrace (jump JExit)"

definition store_top :: "lxvalue \<Rightarrow> unit vact" where
  "store_top v = vthn (mark_pushed v) (vbnd EC (\<lambda>c.
     vthn (cell_write (xc_stackTop c) v) (on_ctx (\<lambda>c. c\<lparr>xc_stackTop := xc_stackTop c + 1\<rparr>))))"

definition vm_push :: "lxvalue \<Rightarrow> unit vact" where
  "vm_push v = vbnd EC (\<lambda>c.
     if xc_stackTop c \<ge> xc_stack c + STACK_MAX then stack_overflow else store_top v)"

text \<open>push also grows the stack, and leaves stackTop as it is.\<close>

definition push :: "lxvalue \<Rightarrow> unit vact" where
  "push v = vbnd EC (\<lambda>c.
     if xc_stackTop c \<ge> xc_stack c + STACK_MAX then stack_overflow
     else vthn (vwhen (xc_stackTop c \<ge> xc_stack c + xc_capa c)
       (vbnd (cells_realloc (xc_stack c) (xc_capa c) (xc_capa c * 2)) (\<lambda>base.
          on_ctx (\<lambda>c. c\<lparr>xc_stack := base, xc_capa := xc_capa c * 2\<rparr>)))) (store_top v))"

definition vm_pushSwap :: "lxvalue \<Rightarrow> unit vact" where
  "vm_pushSwap v = vthn (mark_pushed v) (vbnd EC (\<lambda>c. cell_write (xc_stackTop c - 1) v))"

text \<open>Taking values off remembers the slot of the last one. pop and vm_pop are the same code, the
  latter with the context at hand; the value of vm_popN is never used.\<close>

definition vm_popN :: "nat \<Rightarrow> unit vact" where
  "vm_popN n = vbnd EC (\<lambda>c. vseqs [
     vassert (xc_stackTop c \<ge> xc_stack c + n),
     on_ctx (\<lambda>c. c\<lparr>xc_stackTop := xc_stackTop c - n, xc_lastValue := Some (xc_stackTop c - n)\<rparr>),
     vmod (\<lambda>s. s\<lparr>v_lastValue := Some (xc_stackTop c - n)\<rparr>)])"

definition pop :: "lxvalue vact" where
  "pop = vthn (vm_popN 1) (vbnd EC (\<lambda>c. cell_read (xc_stackTop c)))"
definition vm_pop :: "lxvalue vact" where "vm_pop = pop"

definition peek_at :: "nat \<Rightarrow> lxvalue vact" where
  "peek_at n = vbnd EC (\<lambda>c. vthn (vassert (xc_stackTop c > xc_stack c + n)) (cell_read (xc_stackTop c - 1 - n)))"

definition vm_peek :: "nat \<Rightarrow> lxvalue vact" where "vm_peek = peek_at"

definition isOpStackEmpty :: "bool vact" where
  "isOpStackEmpty = vbnd EC (\<lambda>c. vret (xc_stackTop c = xc_stack c))"

definition getLastValue :: "slot option vact" where
  "getLastValue = vbnd isOpStackEmpty (\<lambda>e. vbnd EC (\<lambda>c.
     vret (if e then xc_lastValue c else Some (xc_stackTop c - 1))))"

definition VMNumStackFrames :: "vmst \<Rightarrow> nat" where
  "VMNumStackFrames s = sum_list (map (\<lambda>c. xc_stackTop c - xc_stack c) (v_ecs s))"

definition VMNumCallFrames :: "vmst \<Rightarrow> nat" where
  "VMNumCallFrames s = sum_list (map (\<lambda>c. length (xc_frames c)) (v_ecs s))"

subsection \<open>Call frames, receivers and open classes\<close>

definition getFrame :: "fptr vact" where
  "getFrame = vbnd EC (\<lambda>c. vthn (vassert (xc_frames c \<noteq> []))
     (vret (xc_framesId c, length (xc_frames c) - 1)))"

definition getFrameOrNull :: "fptr option vact" where
  "getFrameOrNull = vbnd EC (\<lambda>c.
     vret (if xc_frames c = [] then None else Some (xc_framesId c, length (xc_frames c) - 1)))"

text \<open>The frame behind a pointer, if the pointer is still valid.\<close>

definition frame_at :: "vmst \<Rightarrow> fptr \<Rightarrow> call_frame option" where
  "frame_at s p = (case List.find (\<lambda>c. xc_framesId c = fst p) (v_ecs s) of
     Some c \<Rightarrow> if snd p < length (xc_frames c) then Some (xc_frames c ! snd p) else None
   | None \<Rightarrow> None)"

definition frame :: "fptr \<Rightarrow> call_frame vact" where
  "frame p = vbnd (vget (\<lambda>s. frame_at s p)) vthe"

definition upd_frame :: "fptr \<Rightarrow> (call_frame \<Rightarrow> call_frame) \<Rightarrow> unit vact" where
  "upd_frame p f = vthn (frame p) (vmod (\<lambda>s. s\<lparr>v_ecs := map (\<lambda>c. if xc_framesId c = fst p
     then c\<lparr>xc_frames := (xc_frames c)[snd p := f (xc_frames c ! snd p)]\<rparr> else c) (v_ecs s)\<rparr>))"

definition top_frame :: "call_frame vact" where "top_frame = vbnd getFrame frame"

definition closure_at :: "addr \<Rightarrow> obj_closure vact" where
  "closure_at p = vbnd vheap (\<lambda>h. vthe (case map_option o_body (h p) of
     Some (BClosure c) \<Rightarrow> Some c | _ \<Rightarrow> None))"

text \<open>currentChunk is given by the function that has the chunk.\<close>

definition frame_function :: "call_frame \<Rightarrow> addr vact" where
  "frame_function f = vbnd (closure_at (cf_closure f)) (\<lambda>c. vret (cl_function c))"

definition currentChunk :: "addr vact" where "currentChunk = vbnd top_frame frame_function"

definition chunk_of :: "addr \<Rightarrow> chunk vact" where
  "chunk_of func = vbnd (vget (\<lambda>s. v_fnInfo s func)) (\<lambda>i. vbnd (vthe i) (\<lambda>i. vret (fi_chunk i)))"

definition setThis :: "nat \<Rightarrow> unit vact" where
  "setThis n = vbnd (peek_at n) (\<lambda>v. vbnd getFrame (\<lambda>p. vseqs [
     vmod (\<lambda>s. s\<lparr>v_thisObj := AS_OBJ v, v_thisStack := AS_OBJ v # v_thisStack s\<rparr>),
     upd_frame p (\<lambda>f. f\<lparr>cf_instance := AS_OBJ v\<rparr>)]))"

definition pushThis :: "addr \<Rightarrow> unit vact" where
  "pushThis this = vbnd getFrame (\<lambda>p. vseqs [
     upd_frame p (\<lambda>f. f\<lparr>cf_instance := this\<rparr>),
     vmod (\<lambda>s. s\<lparr>v_thisObj := this, v_thisStack := this # v_thisStack s\<rparr>)])"

definition popThis :: "unit vact" where
  "popThis = vbnd (vget v_thisStack) (\<lambda>ts.
     vthn (vassert (ts \<noteq> []))
     (let this = (case tl ts of [] \<Rightarrow> NULL | t # _ \<Rightarrow> t)
      in vbnd getFrame (\<lambda>p. vseqs [
           vmod (\<lambda>s. s\<lparr>v_thisStack := tl ts, v_thisObj := this\<rparr>),
           upd_frame p (\<lambda>f. f\<lparr>cf_instance := this\<rparr>)])))"

definition pushCref :: "addr \<Rightarrow> unit vact" where
  "pushCref klass = vmod (\<lambda>s. s\<lparr>v_crefStack := klass # v_crefStack s\<rparr>)"

definition popCref :: "unit vact" where
  "popCref = vbnd (vget v_crefStack) (\<lambda>cs. vthn (vassert (cs \<noteq> []))
     (vmod (\<lambda>s. s\<lparr>v_crefStack := tl cs\<rparr>)))"

subsection \<open>Blocks and error tags\<close>

definition addBlockEntry :: "addr \<Rightarrow> nat vact" where
  "addBlockEntry callable = vbnd fresh_id (\<lambda>i. vthn (vmod (\<lambda>s. s\<lparr>v_blockStack :=
     \<lparr>bs_id = i, bs_callable = callable, bs_frame = None\<rparr> # v_blockStack s\<rparr>)) (vret i))"

text \<open>popBlockEntry takes the entry off only when it is on top, popBlockEntryUntil with all above
  it.\<close>

fun pop_entry :: "nat \<Rightarrow> block_stack_entry list \<Rightarrow> block_stack_entry list" where
  "pop_entry i [] = []"
| "pop_entry i (b # bs) = (if bs_id b = i then bs else b # bs)"

fun pop_until :: "nat \<Rightarrow> block_stack_entry list \<Rightarrow> block_stack_entry list" where
  "pop_until i [] = []"
| "pop_until i (b # bs) = (if bs_id b = i then bs else pop_until i bs)"

definition popBlockEntry :: "nat \<Rightarrow> unit vact" where
  "popBlockEntry i = vmod (\<lambda>s. s\<lparr>v_blockStack := pop_entry i (v_blockStack s)\<rparr>)"

definition popBlockEntryUntil :: "nat \<Rightarrow> unit vact" where
  "popBlockEntryUntil i = vmod (\<lambda>s. s\<lparr>v_blockStack := pop_until i (v_blockStack s)\<rparr>)"

text \<open>The frame that is pushed next belongs to the block on top, if that has none yet.\<close>

fun claim_block :: "fptr \<Rightarrow> block_stack_entry list \<Rightarrow> block_stack_entry list" where
  "claim_block p [] = []"
| "claim_block p (b # bs) = (if bs_frame b = None then b\<lparr>bs_frame := Some p\<rparr> else b) # bs"

definition addErrInfo :: "addr \<Rightarrow> nat vact" where
  "addErrInfo errClass = vbnd getFrame (\<lambda>p. vbnd fresh_id (\<lambda>i. vthn (vmod (\<lambda>s. s\<lparr>v_errInfo :=
     \<lparr>et_id = i, et_errClass = errClass, et_frame = p, et_raised = False, et_bentry = None,
      et_caughtError = NIL_VAL\<rparr> # v_errInfo s\<rparr>)) (vret i)))"

definition popErrInfo :: "unit vact" where
  "popErrInfo = vbnd (vget v_errInfo) (\<lambda>es. vthn (vassert (es \<noteq> []))
     (vmod (\<lambda>s. s\<lparr>v_errInfo := tl es\<rparr>)))"

definition unsetErrInfo :: "unit vact" where
  "unsetErrInfo = vthn (vmod (\<lambda>s. s\<lparr>v_lastErrorThrown := NIL_VAL\<rparr>)) popErrInfo"

fun unwind_tags :: "fptr \<Rightarrow> err_tag list \<Rightarrow> block_stack_entry list \<Rightarrow> err_tag list \<times> block_stack_entry list" where
  "unwind_tags p [] bs = ([], bs)"
| "unwind_tags p (e # es) bs =
     (if et_frame e = p
      then unwind_tags p es (case et_bentry e of Some i \<Rightarrow> pop_entry i bs | None \<Rightarrow> bs)
      else (e # es, bs))"

definition unwindErrInfo :: "fptr \<Rightarrow> unit vact" where
  "unwindErrInfo p = vmod (\<lambda>s. case unwind_tags p (v_errInfo s) (v_blockStack s) of
     (es, bs) \<Rightarrow> s\<lparr>v_errInfo := es, v_blockStack := bs\<rparr>)"

text \<open>The innermost tag for a class of errors; a tag without class is for all.\<close>

fun find_tag :: "heap \<Rightarrow> addr \<Rightarrow> err_tag list \<Rightarrow> err_tag option option" where
  "find_tag h klass [] = Some None"
| "find_tag h klass (e # es) =
     (case (if et_errClass e = NULL then Some True else isSubclass h klass (et_errClass e)) of
        None \<Rightarrow> None
      | Some True \<Rightarrow> Some (Some e)
      | Some False \<Rightarrow> find_tag h klass es)"

definition findErrTag :: "addr \<Rightarrow> err_tag option vact" where
  "findErrTag klass = vthn (vassert (klass \<noteq> NULL))
     (vbnd vheap (\<lambda>h. vbnd (vget v_errInfo) (\<lambda>es. vthe (find_tag h klass es))))"

subsection \<open>Upvalues\<close>

definition upvalue_at :: "heap \<Rightarrow> addr \<Rightarrow> obj_upvalue option" where
  "upvalue_at h p = (case map_option o_body (h p) of Some (BUpvalue u) \<Rightarrow> Some u | _ \<Rightarrow> None)"

definition upd_upvalue :: "addr \<Rightarrow> (obj_upvalue \<Rightarrow> obj_upvalue) \<Rightarrow> unit vact" where
  "upd_upvalue p f = vmem_upd (set_body p (\<lambda>b. case b of BUpvalue u \<Rightarrow> BUpvalue (f u) | _ \<Rightarrow> b))"

text \<open>The walk down the list of open upvalues to a slot: the last upvalue above it and the next. The
  list ends at an upvalue that is closed only if the list is broken.\<close>

partial_function (option) find_open :: "heap \<Rightarrow> slot \<Rightarrow> addr \<Rightarrow> addr \<Rightarrow> (addr \<times> addr) option" where
  "find_open h local prev p =
     (if p = NULL then Some (prev, NULL)
      else case upvalue_at h p of
        None \<Rightarrow> None
      | Some u \<Rightarrow>
          (case up_value u of
             UpClosed \<Rightarrow> None
           | UpSlot a \<Rightarrow> if a > local then find_open h local p (up_next u) else Some (prev, p)))"

declare find_open.simps [code]

definition at_slot :: "heap \<Rightarrow> addr \<Rightarrow> slot \<Rightarrow> bool" where
  "at_slot h p a \<longleftrightarrow> (case upvalue_at h p of Some u \<Rightarrow> up_value u = UpSlot a | None \<Rightarrow> False)"

text \<open>The new upvalue is written to the object of the thread.\<close>

definition own_upvalue :: "addr \<Rightarrow> unit vact" where
  "own_upvalue p = vbnd (vget v_threadInst) (\<lambda>t. vmem_upd (OBJ_WRITE t p))"

definition captureUpvalue :: "obj_env \<Rightarrow> slot \<Rightarrow> addr vact" where
  "captureUpvalue env local =
     vbnd (vget v_openUpvalues) (\<lambda>first. vbnd (vget v_threadInst) (\<lambda>t. vthn (vassert (t \<noteq> NULL))
     (if first = NULL
      then vbnd (vmem (newUpvalue env local NEWOBJ_FLAG_NONE)) (\<lambda>u. vthn (vseqs [
             vmod (\<lambda>s. s\<lparr>v_openUpvalues := u\<rparr>), own_upvalue u]) (vret u))
      else vbnd vheap (\<lambda>h. vbnd (vthe (find_open h local NULL first)) (\<lambda>(prev, p).
        if p \<noteq> NULL \<and> at_slot h p local then vret p
        else vbnd (vmem (newUpvalue env local NEWOBJ_FLAG_NONE)) (\<lambda>u. vthn (vseqs [
               own_upvalue u,
               upd_upvalue u (\<lambda>x. x\<lparr>up_next := p\<rparr>),
               (if prev = NULL then vmod (\<lambda>s. s\<lparr>v_openUpvalues := u\<rparr>)
                else upd_upvalue prev (\<lambda>x. x\<lparr>up_next := u\<rparr>))]) (vret u)))))))"

text \<open>closeUpvalues copies the value of each slot from last on into its upvalue.\<close>

definition close_first :: "addr \<Rightarrow> obj_upvalue \<Rightarrow> lxvalue \<Rightarrow> vmst \<Rightarrow> vmst" where
  "close_first p u v s = s\<lparr>v_mem := set_body p (\<lambda>_. BUpvalue (u\<lparr>up_closed := v, up_value := UpClosed\<rparr>)) (v_mem s),
     v_openUpvalues := up_next u\<rparr>"

partial_function (option) close_from :: "slot \<Rightarrow> vmst \<Rightarrow> vmst option" where
  "close_from last_slot s =
     (if v_openUpvalues s = NULL then Some s
      else case upvalue_at (objs_of (v_mem s)) (v_openUpvalues s) of
        None \<Rightarrow> None
      | Some u \<Rightarrow>
          (case up_value u of
             UpClosed \<Rightarrow> None
           | UpSlot a \<Rightarrow>
               if a < last_slot then Some s
               else (case v_cells s a of
                       Some (Some v) \<Rightarrow> close_from last_slot (close_first (v_openUpvalues s) u v s)
                     | _ \<Rightarrow> None)))"

declare close_from.simps [code]

definition closeUpvalues :: "slot \<Rightarrow> unit vact" where
  "closeUpvalues last_slot s = map_option (\<lambda>s1. (Inr (), s1)) (close_from last_slot s)"

text \<open>The variable of an upvalue, read and written.\<close>

definition upvalue_get :: "addr \<Rightarrow> lxvalue vact" where
  "upvalue_get p = vbnd vheap (\<lambda>h. vbnd (vthe (upvalue_at h p)) (\<lambda>u.
     case up_value u of UpSlot a \<Rightarrow> cell_read a | UpClosed \<Rightarrow> vret (up_closed u)))"

definition upvalue_set :: "addr \<Rightarrow> lxvalue \<Rightarrow> unit vact" where
  "upvalue_set p v = vbnd vheap (\<lambda>h. vbnd (vthe (upvalue_at h p)) (\<lambda>u.
     case up_value u of UpSlot a \<Rightarrow> cell_write a v | UpClosed \<Rightarrow> upd_upvalue p (\<lambda>x. x\<lparr>up_closed := v\<rparr>)))"

end
