(* ===== verification/Clox_Throw.thy ===== *)
theory Clox_Throw
  imports Clox_VM
begin

unbundle bit_operations_syntax

text \<open>Errors of the program (vm.c, object.c, runtime.c): the lookup of constants, popping of
  frames, creation of errors with their backtrace, and the search for the place that catches an
  error. Functions that may run code of the program get the interpreter's own call of a callable as
  a field of the environment, ve_call.\<close>

subsection \<open>Environment\<close>

record vm_classes =
  lxErrClass :: addr
  lxTypeErrClass :: addr
  lxNameErrClass :: addr
  lxArgErrClass :: addr
  lxSyntaxErrClass :: addr
  lxBlockIterErrClass :: addr
  lxBreakBlockErrClass :: addr
  lxContinueBlockErrClass :: addr
  lxReturnBlockErrClass :: addr
  lxBlockClass :: addr
  lxIteratorClass :: addr
  nativeArrayInit :: addr
  nativeMapInit :: addr
  nativeRegexInit :: addr
  nativeBlockInit :: addr
  nativeIteratorInit :: addr

record vm_names =
  vn_initString :: addr
  vn_fileString :: addr
  vn_dirString :: addr
  vn_funcString :: addr
  vn_mainString :: addr
  vn_anonString :: addr
  vn_opAddString :: addr
  vn_opDiffString :: addr
  vn_opMulString :: addr
  vn_opDivString :: addr
  vn_opShovelLString :: addr
  vn_opShovelRString :: addr
  vn_opIndexGetString :: addr
  vn_opIndexSetString :: addr
  vn_opEqualsString :: addr
  vn_opCmpString :: addr

datatype param_kind = P_REGULAR | P_DEFAULT_ARG | P_KWARG | P_SPLAT | P_BLOCK

text \<open>A parameter of a function: kind, name and the offset of the code for its default.\<close>

record vm_param =
  pm_kind :: param_kind
  pm_name :: bytes
  pm_offset :: nat

type_synonym vm_call = "lxvalue \<Rightarrow> nat \<Rightarrow> bool \<Rightarrow> nat option \<Rightarrow> bool vact"

text \<open>Outside of the interpreter are the native functions (each gets the interpreter's call, the
  number of arguments and the slot of the first), the text that print shows for a value, the step of
  an iterator, the comparison of doubles, what happens while the global lock is released and what
  pending interrupts do.\<close>

record vm_env =
  ve_obj :: obj_env
  ve_lx :: lx_env
  ve_fpu :: fpu
  ve_less :: "u64 \<Rightarrow> u64 \<Rightarrow> bool"
  ve_deq :: "u64 \<Rightarrow> u64 \<Rightarrow> bool"
  ve_cls :: vm_classes
  ve_names :: vm_names
  ve_call :: vm_call
  ve_native :: "vm_call \<Rightarrow> addr \<Rightarrow> nat \<Rightarrow> slot \<Rightarrow> lxvalue vact"
  ve_params :: "addr \<Rightarrow> vm_param list"
  ve_show :: "lxvalue \<Rightarrow> bytes vact"
  ve_iteratorNext :: "lxvalue \<Rightarrow> lxvalue vact"
  ve_switch :: "unit vact"
  ve_ints :: "unit vact"
  ve_onlyThread :: bool
  ve_classHierarchyCreated :: bool
  ve_mainThread :: bool

definition tx :: "string \<Rightarrow> bytes" where "tx s = map of_char s"

subsection \<open>The heap from the interpreter\<close>

text \<open>Objects made during a native call are kept on the stack of new objects.\<close>

definition valloc :: "vm_env \<Rightarrow> (obj_env \<Rightarrow> mem \<Rightarrow> ('a \<times> mem) option) \<Rightarrow> 'a vact" where
  "valloc env f = vbnd (vget (\<lambda>s. v_inCCall s > 0)) (\<lambda>b. vmem (f ((ve_obj env)\<lparr>oe_inCCall := b\<rparr>)))"

definition vintern :: "vm_env \<Rightarrow> bytes \<Rightarrow> addr vact" where
  "vintern env text s =
     (case internedString ((ve_obj env)\<lparr>oe_inCCall := v_inCCall s > 0\<rparr>) (ve_lx env) text NEWOBJ_FLAG_NONE
             (v_mem s) (v_strings s) of
        None \<Rightarrow> None
      | Some (p, m, t) \<Rightarrow> Some (Inr p, s\<lparr>v_mem := m, v_strings := t\<rparr>))"

definition vtget :: "vm_env \<Rightarrow> table \<Rightarrow> lxvalue \<Rightarrow> lxvalue option vact" where
  "vtget env t k = vbnd (vget (\<lambda>s. mem_get (ve_lx env) (v_mem s) t k)) vthe"

definition vtset :: "vm_env \<Rightarrow> table \<Rightarrow> lxvalue \<Rightarrow> lxvalue \<Rightarrow> table vact" where
  "vtset env t k v = vbnd (vget (\<lambda>s. mem_put (ve_lx env) (v_mem s) t k v)) (\<lambda>r.
     vbnd (vthe r) (\<lambda>(_, t1). vret t1))"

definition v_is_a :: "lxvalue \<Rightarrow> addr \<Rightarrow> bool vact" where
  "v_is_a v klass = vbnd vheap (\<lambda>h. vthe (is_value_a_p h v klass))"

definition v_subclass :: "addr \<Rightarrow> addr \<Rightarrow> bool vact" where
  "v_subclass k k' = (if k = k' then vret True else vbnd vheap (\<lambda>h. vthe (isSubclass h k k')))"

definition vhdr :: "addr \<Rightarrow> inst_hdr vact" where
  "vhdr p = vbnd vheap (\<lambda>h. vthe (hdr_at h p))"

definition vinfo :: "addr \<Rightarrow> class_info vact" where
  "vinfo p = vbnd vheap (\<lambda>h. vthe (class_info_at h p))"

definition vfn :: "addr \<Rightarrow> obj_function vact" where
  "vfn p = vbnd (vget v_mem) (\<lambda>m. vthe (fn_at m p))"

definition string_text :: "addr \<Rightarrow> bytes vact" where
  "string_text p = vbnd vheap (\<lambda>h. vbnd (vthe (get_string h (OBJ_VAL p))) (\<lambda>b. vret (c_string (str_bytes b))))"

definition type_text :: "lxvalue \<Rightarrow> bytes vact" where
  "type_text v = vbnd vheap (\<lambda>h. vbnd (vthe (typeOfVal (\<lambda>p. case h p of
     Some ob \<Rightarrow> (case typeOfObj (obj_type_of ob) of Some t \<Rightarrow> t | None \<Rightarrow> []) | None \<Rightarrow> []) v)) (\<lambda>t. vret (tx t)))"

definition truthy :: "lxvalue \<Rightarrow> bool vact" where "truthy v = vthe (isTruthy v)"

definition new_text :: "vm_env \<Rightarrow> bytes \<Rightarrow> addr vact" where
  "new_text env text = valloc env (\<lambda>oe. allocateString oe (copyString text) (lxStringClass (oe_classes oe)) NEWOBJ_FLAG_NONE)"

definition class_text :: "addr \<Rightarrow> bytes vact" where
  "class_text k = vbnd (vinfo k) (\<lambda>ci. if ci_name ci = NULL then vret (tx ''(anon)'') else string_text (ci_name ci))"

definition vgetProp :: "vm_env \<Rightarrow> lxvalue \<Rightarrow> addr \<Rightarrow> lxvalue vact" where
  "vgetProp env self name = vbnd (vget (\<lambda>s.
     getProp (mem_get (ve_lx env) (v_mem s)) (objs_of (v_mem s)) self (OBJ_VAL name))) vthe"

definition vsetProp :: "vm_env \<Rightarrow> lxvalue \<Rightarrow> addr \<Rightarrow> lxvalue \<Rightarrow> unit vact" where
  "vsetProp env self name v = vmem_opt (\<lambda>m. setProp (mem_put (ve_lx env) m) self (OBJ_VAL name) v m)"

text \<open>instanceFindMethod and its relatives on the interpreter's heap; no method is the null pointer.\<close>

definition v_find_method :: "vm_env \<Rightarrow> addr \<Rightarrow> addr \<Rightarrow> addr vact" where
  "v_find_method env p name = vmem (\<lambda>m. map_option (\<lambda>(r, h). (r, on_gc (\<lambda>g. g\<lparr>gc_heap := h\<rparr>) m))
     (instanceFindMethod (mem_get (ve_lx env) m) (oe_classes (ve_obj env)) (objs_of m) p (OBJ_VAL name)))"

definition v_find_getter :: "vm_env \<Rightarrow> addr \<Rightarrow> addr \<Rightarrow> addr vact" where
  "v_find_getter env p name = vbnd (vget v_mem) (\<lambda>m.
     vthe (instanceFindGetter (mem_get (ve_lx env) m) (objs_of m) p (OBJ_VAL name)))"

definition v_find_setter :: "vm_env \<Rightarrow> addr \<Rightarrow> addr \<Rightarrow> addr vact" where
  "v_find_setter env p name = vbnd (vget v_mem) (\<lambda>m.
     vthe (instanceFindSetter (mem_get (ve_lx env) m) (objs_of m) p (OBJ_VAL name)))"

definition v_find_static :: "vm_env \<Rightarrow> addr \<Rightarrow> addr \<Rightarrow> addr vact" where
  "v_find_static env p name = vbnd (vget v_mem) (\<lambda>m.
     vthe (classFindStaticMethod (mem_get (ve_lx env) m) (objs_of m) p (OBJ_VAL name)))"

subsection \<open>Constants\<close>

text \<open>The parts of a qualified name, between double colons; the last one is missing when it is
  empty.\<close>

fun const_parts :: "bytes \<Rightarrow> bytes \<Rightarrow> bytes list" where
  "const_parts part [] = [part]"
| "const_parts part [c] = [part @ [c]]"
| "const_parts part (c # d # cs) =
     (if c = of_char CHR '':'' \<and> d = of_char CHR '':'' then part # const_parts [] cs
      else const_parts (part @ [c]) (d # cs))"

definition constantQualifiedParts :: "bytes \<Rightarrow> nat" where
  "constantQualifiedParts name = length (const_parts [] name)"

definition constantQualifiedPart :: "bytes \<Rightarrow> nat \<Rightarrow> bytes option" where
  "constantQualifiedPart name npart =
     (let ps = const_parts [] name
      in if npart = 0 \<or> npart > length ps \<or> length ps = 1 \<or> (npart = length ps \<and> last ps = []) then None
         else Some (ps ! (npart - 1)))"

text \<open>The successor of a class in the walk for constants. A module is no class, so the macro takes it
  for an included one and reads its finalizer as the superclass, which lies at the same offset.\<close>

definition const_super :: "heap \<Rightarrow> addr \<Rightarrow> addr option" where
  "const_super h k = (case map_option o_body (h k) of
     Some (BModule i _) \<Rightarrow> Some (i_finalizerFunc i) | _ \<Rightarrow> CLASS_SUPER h k)"

partial_function (option) const_up ::
    "tget \<Rightarrow> heap \<Rightarrow> (addr \<Rightarrow> addr option) \<Rightarrow> lxvalue \<Rightarrow> addr \<Rightarrow> lxvalue option option" where
  "const_up get h succ_of name klass =
     (if klass = NULL then Some None
      else case class_info_at h klass of
        None \<Rightarrow> None
      | Some ci \<Rightarrow>
          (case get (ci_constants ci) name of
             None \<Rightarrow> None
           | Some (Some v) \<Rightarrow> Some (Some v)
           | Some None \<Rightarrow>
               (case succ_of klass of None \<Rightarrow> None | Some k \<Rightarrow> const_up get h succ_of name k)))"

declare const_up.simps [code]

definition info_super :: "heap \<Rightarrow> addr \<Rightarrow> addr option" where
  "info_super h k = map_option ci_superclass (class_info_at h k)"

text \<open>The classes around the class, each with its superclasses.\<close>

partial_function (option) const_around :: "tget \<Rightarrow> heap \<Rightarrow> lxvalue \<Rightarrow> addr \<Rightarrow> lxvalue option option" where
  "const_around get h name klass =
     (if klass = NULL then Some None
      else case class_info_at h klass of
        None \<Rightarrow> None
      | Some ci \<Rightarrow>
          if ci_under ci = NULL then Some None
          else (case const_up get h (info_super h) name (ci_under ci) of
             None \<Rightarrow> None
           | Some (Some v) \<Rightarrow> Some (Some v)
           | Some None \<Rightarrow> const_around get h name (ci_under ci)))"

declare const_around.simps [code]

definition find_base :: "vm_env \<Rightarrow> addr \<Rightarrow> addr \<Rightarrow> lxvalue option vact" where
  "find_base env klass name = vbnd (vget v_mem) (\<lambda>m.
     let h = objs_of m; get = mem_get (ve_lx env) m; key = OBJ_VAL name
     in vbnd (vthe (const_up get h (const_super h) key klass)) (\<lambda>r.
        case r of
          Some v \<Rightarrow> vret (Some v)
        | None \<Rightarrow>
            vbnd (vthe (const_around get h key klass)) (\<lambda>r.
            case r of
              Some v \<Rightarrow> vret (Some v)
            | None \<Rightarrow> vbnd (vget v_constants) (\<lambda>t. vtget env t key))))"

fun find_parts :: "vm_env \<Rightarrow> bytes \<Rightarrow> nat \<Rightarrow> nat \<Rightarrow> lxvalue \<Rightarrow> lxvalue option vact" where
  "find_parts env name npart 0 base = vret (Some base)"
| "find_parts env name npart (Suc left) base =
     vbnd (vthe (constantQualifiedPart name npart)) (\<lambda>part.
     vbnd (new_text env part) (\<lambda>key.
     vbnd (vinfo (AS_OBJ base)) (\<lambda>ci.
     vbnd (vtget env (ci_constants ci) (OBJ_VAL key)) (\<lambda>r.
       case r of None \<Rightarrow> vret None | Some v \<Rightarrow> find_parts env name (npart + 1) left v))))"

definition findConstantUnder :: "vm_env \<Rightarrow> addr \<Rightarrow> addr \<Rightarrow> lxvalue option vact" where
  "findConstantUnder env klass name =
     vbnd (string_text name) (\<lambda>text.
     let parts = constantQualifiedParts text
     in vbnd (if parts > 1 then vbnd (vthe (constantQualifiedPart text 1)) (new_text env) else vret name) (\<lambda>key.
        vbnd (find_base env klass key) (\<lambda>r.
        case r of
          None \<Rightarrow> vret None
        | Some v \<Rightarrow>
            if parts = 1 then vret (Some v)
            else if AS_OBJ v = NULL then vret None
            else find_parts env text 2 (parts - 1) v)))"

definition addConstantUnder :: "vm_env \<Rightarrow> bytes \<Rightarrow> lxvalue \<Rightarrow> addr \<Rightarrow> unit vact" where
  "addConstantUnder env name v owner =
     vbnd (vinfo owner) (\<lambda>_.
     vthn (vmem_upd (on_gc (objWrite (OBJ_VAL owner) v)))
     (vbnd (vintern env name) (\<lambda>key.
      vbnd (vinfo owner) (\<lambda>ci.
      vbnd (vtset env (ci_constants ci) (OBJ_VAL key) v) (\<lambda>t.
      vthn (vmem_upd (set_body owner (on_info (\<lambda>c. c\<lparr>ci_constants := t\<rparr>))))
      (vbnd vheap (\<lambda>h. vwhen (isObjType h v OBJ_T_CLASS)
        (vmem_upd (set_body (AS_OBJ v) (on_info (\<lambda>c. c\<lparr>ci_under := owner\<rparr>)))))))))))"

subsection \<open>Popping a frame\<close>

definition set_roGlobal :: "vm_env \<Rightarrow> addr \<Rightarrow> lxvalue \<Rightarrow> unit vact" where
  "set_roGlobal env name v = vbnd EC (\<lambda>c.
     vbnd (vtset env (xc_roGlobals c) (OBJ_VAL name) v) (\<lambda>t. on_ctx (\<lambda>c. c\<lparr>xc_roGlobals := t\<rparr>)))"

definition clear_stackObjects :: "unit vact" where
  "clear_stackObjects = vmem_upd (\<lambda>m. m\<lparr>m_stackObjects := []\<rparr>)"

definition leave_ccall :: "unit vact" where
  "leave_ccall = vthn (vmod (\<lambda>s. s\<lparr>v_inCCall := v_inCCall s - 1\<rparr>))
     (vbnd (vget v_inCCall) (\<lambda>n. vwhen (n = 0) clear_stackObjects))"

text \<open>What the frame below gets back: the name of its function and its arguments.\<close>

definition resume_frame :: "vm_env \<Rightarrow> int \<Rightarrow> unit vact" where
  "resume_frame env stackAdjust = vbnd EC (\<lambda>c.
     case xc_frames c of
       [] \<Rightarrow> vskip
     | fs \<Rightarrow> vthn
         (set_roGlobal env (vn_funcString (ve_names env)) (OBJ_VAL (
            if cf_name (last fs) \<noteq> NULL then cf_name (last fs)
            else if length fs = 1 then vn_mainString (ve_names env) else vn_anonString (ve_names env))))
         (vwhen (stackAdjust > 0 \<and> int (xc_stackTop c) - stackAdjust > int (xc_stack c))
            (on_ctx (\<lambda>c. c\<lparr>xc_stackTop := xc_stackTop c - nat stackAdjust\<rparr>))))"

definition popFrame :: "vm_env \<Rightarrow> unit vact" where
  "popFrame env =
     vbnd getFrame (\<lambda>p. vbnd (frame p) (\<lambda>f. vseqs [
       unwindErrInfo p,
       (if cf_isCCall f then leave_ccall else closeUpvalues (cf_slots f)),
       vwhen (cf_klass f \<noteq> NULL) popCref,
       vwhen (cf_instance f \<noteq> NULL) popThis,
       on_ctx (\<lambda>c. c\<lparr>xc_frames := butlast (xc_frames c)\<rparr>),
       resume_frame env (cf_stackAdjustOnPop f)]))"

text \<open>Frames of native functions on top are popped; there are at most as many as frames.\<close>

fun pop_native :: "vm_env \<Rightarrow> nat \<Rightarrow> unit vact" where
  "pop_native env 0 = jump JFuel"
| "pop_native env (Suc n) = vbnd top_frame (\<lambda>f.
     if cf_isCCall f then vthn (popFrame env) (pop_native env n) else vskip)"

definition pop_native_frames :: "vm_env \<Rightarrow> unit vact" where
  "pop_native_frames env = vbnd EC (\<lambda>c. pop_native env (length (xc_frames c) + 1))"

subsection \<open>Errors and their backtrace\<close>

definition callVMMethod :: "vm_env \<Rightarrow> addr \<Rightarrow> lxvalue \<Rightarrow> lxvalue list \<Rightarrow> nat option \<Rightarrow> lxvalue vact" where
  "callVMMethod env inst callable args cinfo =
     vthn (push (OBJ_VAL inst)) (vthn (vseqs (map push args))
     (vthn (ve_call env callable (length args) True cinfo) (peek_at 0)))"

definition newError :: "vm_env \<Rightarrow> addr \<Rightarrow> lxvalue \<Rightarrow> lxvalue vact" where
  "newError env errClass msg =
     vthn (vseqs [push (OBJ_VAL errClass), push msg])
     (vthn (ve_call env (OBJ_VAL errClass) 1 False None) pop)"

definition newArray :: "vm_env \<Rightarrow> lxvalue vact" where
  "newArray env = vbnd (valloc env (\<lambda>oe. allocateArray oe (lxAryClass (oe_classes oe)) NEWOBJ_FLAG_NONE)) (\<lambda>ary.
     vthn (callVMMethod env ary (OBJ_VAL (nativeArrayInit (ve_cls env))) [] None) pop)"

definition newMap :: "vm_env \<Rightarrow> lxvalue vact" where
  "newMap env = vbnd (valloc env (\<lambda>oe. newInstance oe (lxMapClass (oe_classes oe)) NEWOBJ_FLAG_NONE)) (\<lambda>p.
     vthn (callVMMethod env p (OBJ_VAL (nativeMapInit (ve_cls env))) [] None) pop)"

text \<open>arrayPush on an array that is not frozen; a shared buffer is copied first.\<close>

definition array_append :: "lxvalue \<Rightarrow> lxvalue \<Rightarrow> unit vact" where
  "array_append self el = vmem_upd (\<lambda>m. on_gc (objWrite self el)
     (set_body (AS_OBJ self) (\<lambda>b. case b of BArray i a \<Rightarrow> BArray i (writeValueArrayEnd a el) | _ \<Rightarrow> b)
       (on_gc (on_obj (AS_OBJ self) (\<lambda>ob. ob\<lparr>o_flags := unset_flag (o_flags ob) OBJ_FLAG_USER1\<rparr>)) m)))"

text \<open>The line of the backtrace for a frame.\<close>

definition frame_line :: "call_frame \<Rightarrow> bytes vact" where
  "frame_line f = vthn (vassert (cf_file f \<noteq> NULL)) (vbnd (string_text (cf_file f)) (\<lambda>file.
     let at_line = file @ tx '':'' @ decimal_int (cf_callLine f) @ tx '' in ''
     in if cf_isCCall f
        then (if cf_nativeFunc f = NULL then vret (at_line @ tx ''<?unknown? (native)>'' @ [10])
              else vbnd vheap (\<lambda>h. case map_option o_body (h (cf_nativeFunc f)) of
                Some (BNative n) \<Rightarrow> vbnd (string_text (nt_name n)) (\<lambda>t. vret (at_line @ tx ''<'' @ t @ tx '' (native)>'' @ [10]))
              | _ \<Rightarrow> fails))
        else if cf_closure f = NULL then vret (at_line @ tx ''<script>'' @ [10])
        else vbnd (frame_function f) (\<lambda>func. vbnd (vfn func) (\<lambda>g.
          if fn_name g = NULL then vret (at_line @ tx ''<script>'' @ [10])
          else vbnd (string_text (fn_name g)) (\<lambda>t. vret (at_line @ tx ''<'' @ t @ tx ''>'' @ [10]))))))"

definition push_line :: "vm_env \<Rightarrow> lxvalue \<Rightarrow> call_frame \<Rightarrow> unit vact" where
  "push_line env ary f = vbnd (frame_line f) (\<lambda>text.
     case pushCString False (copyString []) text of
       Inl _ \<Rightarrow> fails
     | Inr buf \<Rightarrow> vbnd (valloc env (\<lambda>oe. hiddenString oe buf NEWOBJ_FLAG_NONE)) (\<lambda>p.
         vthn (array_append ary (OBJ_VAL p)) (vmem_upd (on_gc (unhideFromGC p)))))"

definition setBacktrace :: "vm_env \<Rightarrow> lxvalue \<Rightarrow> unit vact" where
  "setBacktrace env err = vbnd (v_is_a err (lxBlockIterErrClass (ve_cls env))) (\<lambda>flow.
     if flow then vskip
     else vbnd (newArray env) (\<lambda>ary. vbnd (vintern env (tx ''backtrace'')) (\<lambda>key.
       vthn (vsetProp env err key ary)
       (vbnd (vget v_ecs) (\<lambda>ecs. vseqs (map (push_line env ary) (concat (map (rev \<circ> xc_frames) ecs))))))))"

subsection \<open>The search for a handler\<close>

datatype rows_result = Caught nat | Nothing "nat option"

text \<open>The rows of a catch table from index i on: the first row for a superclass of the error whose
  range has the offset (any offset once a context was left), or the last row of an ensure.\<close>

fun scan_rows :: "vm_env \<Rightarrow> addr \<Rightarrow> int \<Rightarrow> bool \<Rightarrow> nat \<Rightarrow> nat option \<Rightarrow> catch_row list \<Rightarrow> rows_result vact" where
  "scan_rows env klass off anywhere i ens [] = vret (Nothing ens)"
| "scan_rows env klass off anywhere i ens (r # rs) =
     (if ct_isEnsure r then scan_rows env klass off anywhere (i + 1) (Some i) rs
      else vbnd (vget v_crefStack) (\<lambda>cs.
        vbnd (findConstantUnder env (case cs of [] \<Rightarrow> NULL | c # _ \<Rightarrow> c) (AS_OBJ (ct_catchVal r))) (\<lambda>found.
        case found of
          None \<Rightarrow> scan_rows env klass off anywhere (i + 1) ens rs
        | Some v \<Rightarrow> vbnd (v_subclass klass (AS_OBJ v)) (\<lambda>sub.
            if sub \<and> (anywhere \<or> ct_ifrom r < off \<and> off \<le> ct_ito r) then vret (Caught i)
            else scan_rows env klass off anywhere (i + 1) ens rs))))"

definition upd_row :: "addr \<Rightarrow> nat \<Rightarrow> (catch_row \<Rightarrow> catch_row) \<Rightarrow> unit vact" where
  "upd_row func i f = vmod (\<lambda>s. s\<lparr>v_fnInfo := (v_fnInfo s)(func := map_option (\<lambda>x. x\<lparr>fi_chunk :=
     (fi_chunk x)\<lparr>ck_catchTbl := (ck_catchTbl (fi_chunk x))[i := f (ck_catchTbl (fi_chunk x) ! i)]\<rparr>\<rparr>)
     (v_fnInfo s func))\<rparr>)"

text \<open>Leaving the frame on top, or its context when it is the only one there. The result is the offset
  to look for in the frame below; None when nothing is left.\<close>

definition leave_frame :: "vm_env \<Rightarrow> int \<Rightarrow> (int \<times> bool) option vact" where
  "leave_frame env off = vbnd (vget v_ecs) (\<lambda>ecs. vbnd EC (\<lambda>c.
     if length ecs = 1 \<and> length (xc_frames c) = 1 then vret None
     else if length (xc_frames c) = 1
     then vthn pop_EC (vbnd EC (\<lambda>c1. vbnd top_frame (\<lambda>f.
            vthn (vassert (xc_stackTop c1 > cf_slots f)) (vret (Some (off, True))))))
     else vbnd top_frame (\<lambda>f. vthn (vseqs [
            vassert (xc_stackTop c \<ge> cf_slots f),
            on_ctx (\<lambda>c. c\<lparr>xc_stackTop := cf_slots f\<rparr>),
            popFrame env]) (vret (Some (cf_start f, False))))))"

fun throw_search :: "vm_env \<Rightarrow> addr \<Rightarrow> nat \<Rightarrow> int \<Rightarrow> bool \<Rightarrow> (addr \<times> nat \<times> int) option vact" where
  "throw_search env klass 0 off anywhere = jump JFuel"
| "throw_search env klass (Suc n) off anywhere =
     vbnd currentChunk (\<lambda>func. vbnd (chunk_of func) (\<lambda>ck.
     vbnd (scan_rows env klass off anywhere 0 None (ck_catchTbl ck)) (\<lambda>r.
     let leave = vbnd (leave_frame env off) (\<lambda>l. case l of
           None \<Rightarrow> vret None | Some (off1, popped) \<Rightarrow> throw_search env klass n off1 (anywhere \<or> popped))
     in case r of
       Caught i \<Rightarrow> vthn (pop_native_frames env) (vret (Some (func, i, ct_itarget (ck_catchTbl ck ! i))))
     | Nothing None \<Rightarrow> leave
     | Nothing (Some i) \<Rightarrow>
         if ct_isEnsureRunning (ck_catchTbl ck ! i)
         then vthn (upd_row func i (\<lambda>row. row\<lparr>ct_isEnsureRunning := False\<rparr>)) leave
         else vthn (vseqs [pop_native_frames env, upd_row func i (\<lambda>row. row\<lparr>ct_isEnsureRunning := True\<rparr>)])
                (vret (Some (func, i, ct_itarget (ck_catchTbl ck ! i)))))))"

definition findThrowJumpLoc :: "vm_env \<Rightarrow> addr \<Rightarrow> (addr \<times> nat \<times> int) option vact" where
  "findThrowJumpLoc env klass = vbnd top_frame (\<lambda>f. vbnd (vget VMNumCallFrames) (\<lambda>n.
     throw_search env klass (n + 1) (cf_ip f) False))"

definition frame_target :: "jump vact" where
  "frame_target = vbnd (vget v_ecs) (\<lambda>ecs. vbnd EC (\<lambda>c.
     vret (JFrame (length ecs - 1) (length (xc_frames c) - 1))))"

definition throwError :: "vm_env \<Rightarrow> lxvalue \<Rightarrow> 'a vact" where
  "throwError env self =
     vbnd vheap (\<lambda>h. vthn (vassert (IS_INSTANCE h self))
     (vthn (vmod (\<lambda>s. s\<lparr>v_lastErrorThrown := self\<rparr>))
     (vbnd (vintern env (tx ''backtrace'')) (\<lambda>key. vbnd (vgetProp env self key) (\<lambda>bt.
      vthn (vwhen (IS_NIL bt) (setBacktrace env self))
     (vbnd (vhdr (AS_OBJ self)) (\<lambda>i. vbnd (findErrTag (i_klass i)) (\<lambda>tag.
      case tag of
        Some e \<Rightarrow> jump (JErrTag (et_id e))
      | None \<Rightarrow> vbnd (vget (\<lambda>s. v_inCCall s > 0 \<and> v_cCallJumpBufSet s)) (\<lambda>inC. vbnd top_frame (\<lambda>f.
          if inC \<and> cf_isCCall f
          then vbnd (vget v_cCallThrew) (\<lambda>t. vthn (vassert (\<not> t))
                 (vthn (vmod (\<lambda>s. s\<lparr>v_cCallThrew := True\<rparr>)) (jump JCCall)))
          else vbnd (findThrowJumpLoc env (i_klass i)) (\<lambda>loc.
            case loc of
              Some (func, row, ip) \<Rightarrow>
                vbnd getFrame (\<lambda>p. vthn (vseqs [
                  upd_row func row (\<lambda>r. r\<lparr>ct_lastThrownValue := self\<rparr>),
                  upd_frame p (\<lambda>f. f\<lparr>cf_ip := ip\<rparr>)]) (vbnd frame_target jump))
            | None \<Rightarrow> vbnd (vget v_rootBufSet) (\<lambda>b. vthn (vassert b) (jump JRoot)))))))))))))"

text \<open>throwErrorFmt, on the formatted text, of which the buffer holds 249 characters.\<close>

definition throwErrorFmt :: "vm_env \<Rightarrow> addr \<Rightarrow> bytes \<Rightarrow> 'a vact" where
  "throwErrorFmt env klass text =
     vbnd (new_text env (take 249 text)) (\<lambda>buf. vthn (vmem_upd (on_gc (hideFromGC buf)))
     (vbnd (newError env klass (OBJ_VAL buf)) (\<lambda>err. vthn (vseqs [
        vmod (\<lambda>s. s\<lparr>v_lastErrorThrown := err\<rparr>), vmem_upd (on_gc (unhideFromGC buf))])
      (throwError env err))))"

definition rethrowErrInfo :: "vm_env \<Rightarrow> 'a vact" where
  "rethrowErrInfo env = vbnd (vget v_errInfo) (\<lambda>es. case es of
     [] \<Rightarrow> fails | e # _ \<Rightarrow> vthn popErrInfo (throwError env (et_caughtError e)))"

definition vfrozen :: "addr \<Rightarrow> bool vact" where
  "vfrozen p = vbnd vheap (\<lambda>h. vbnd (vthe (h p)) (\<lambda>ob. vret (isFrozen ob)))"

definition arrayPush :: "vm_env \<Rightarrow> lxvalue \<Rightarrow> lxvalue \<Rightarrow> unit vact" where
  "arrayPush env self el = vbnd (vfrozen (AS_OBJ self)) (\<lambda>fz.
     if fz then throwErrorFmt env (lxErrClass (ve_cls env)) (tx ''Array is frozen, cannot modify'')
     else array_append self el)"

subsection \<open>Pushing a frame\<close>

definition new_frame :: "int \<Rightarrow> addr \<Rightarrow> fptr option \<Rightarrow> call_frame" where
  "new_frame line file prev = \<lparr>cf_closure = NULL, cf_name = NULL, cf_ip = 0, cf_start = 0, cf_slots = 0,
     cf_scope = NULL, cf_instance = NULL, cf_klass = NULL, cf_isCCall = False, cf_isEval = False,
     cf_nativeFunc = NULL, cf_callLine = line, cf_file = file, cf_jmpBufSet = False, cf_prev = prev,
     cf_stackAdjustOnPop = 0, cf_callInfo = None\<rparr>"

definition claim_top_block :: "fptr \<Rightarrow> unit vact" where
  "claim_top_block p = vmod (\<lambda>s. s\<lparr>v_blockStack := claim_block p (v_blockStack s)\<rparr>)"

definition pushFrame :: "vm_env \<Rightarrow> addr \<Rightarrow> fptr vact" where
  "pushFrame env userFunc = vbnd EC (\<lambda>ec.
     if length (xc_frames ec) \<ge> FRAMES_MAX
     then throwErrorFmt env (lxErrClass (ve_cls env)) (tx ''Stackoverflow, max number of call frames (1024)'')
     else vthn (vwhen (length (xc_frames ec) \<ge> xc_framesCapa ec)
            (vbnd fresh_id (\<lambda>i. on_ctx (\<lambda>c. c\<lparr>xc_framesId := i, xc_framesCapa := xc_framesCapa c * 2\<rparr>))))
       (vbnd getFrameOrNull (\<lambda>prev. vbnd (vget v_curLine) (\<lambda>line.
        vthn (on_ctx (\<lambda>c. c\<lparr>xc_frames := xc_frames c @ [new_frame line (xc_filename c) prev]\<rparr>))
       (vbnd getFrame (\<lambda>p. vthn (claim_top_block p)
         (if userFunc = NULL then vret p
          else vbnd (vfn userFunc) (\<lambda>g. vbnd (valloc env (\<lambda>oe. newScope oe userFunc g)) (\<lambda>sc.
                 vthn (upd_frame p (\<lambda>f. f\<lparr>cf_scope := sc\<rparr>)) (vret p))))))))))"

definition native_at :: "addr \<Rightarrow> obj_native vact" where
  "native_at p = vbnd vheap (\<lambda>h. vthe (case map_option o_body (h p) of Some (BNative n) \<Rightarrow> Some n | _ \<Rightarrow> None))"

definition pushNativeFrame :: "vm_env \<Rightarrow> addr \<Rightarrow> unit vact" where
  "pushNativeFrame env native = vbnd EC (\<lambda>c.
     if length (xc_frames c) = FRAMES_MAX then errorPrintScriptBacktrace
     else vbnd getFrame (\<lambda>prevFrame. vbnd (pushFrame env NULL) (\<lambda>newFrame.
       vbnd (frame prevFrame) (\<lambda>pf. vbnd (native_at native) (\<lambda>nt. vseqs [
         upd_frame newFrame (\<lambda>f. f\<lparr>cf_closure := cf_closure pf, cf_ip := cf_ip pf, cf_start := 0,
           cf_slots := cf_slots pf, cf_isCCall := True, cf_nativeFunc := native, cf_name := nt_name nt,
           cf_file := xc_filename c\<rparr>),
         claim_top_block newFrame,
         vmod (\<lambda>s. s\<lparr>v_inCCall := v_inCCall s + 1\<rparr>)])))))"

text \<open>The table of locals of a scope has size entries in use of those allocated, which start as nil.\<close>

definition upd_scope :: "addr \<Rightarrow> (nat \<Rightarrow> lxvalue list \<Rightarrow> nat \<times> lxvalue list) \<Rightarrow> unit vact" where
  "upd_scope p f = vmem_upd (set_body p (\<lambda>b. case b of
     BScope fn n tbl \<Rightarrow> (case f n tbl of (n1, tbl1) \<Rightarrow> BScope fn n1 tbl1) | _ \<Rightarrow> b))"

definition scope_at :: "addr \<Rightarrow> (nat \<times> lxvalue list) vact" where
  "scope_at p = vbnd vheap (\<lambda>h. vthe (case map_option o_body (h p) of
     Some (BScope _ n tbl) \<Rightarrow> Some (n, tbl) | _ \<Rightarrow> None))"

definition grow_table :: "nat \<Rightarrow> lxvalue list \<Rightarrow> lxvalue list" where
  "grow_table sz tbl = (if length tbl \<ge> sz then tbl else tbl @ replicate (sz * 2 - length tbl) NIL_VAL)"

definition growLocalsTable :: "addr \<Rightarrow> nat \<Rightarrow> unit vact" where
  "growLocalsTable scope sz = upd_scope scope (\<lambda>n tbl. (sz, grow_table sz tbl))"

definition write_cells :: "lxvalue list \<Rightarrow> lxvalue list \<Rightarrow> lxvalue list" where
  "write_cells vs tbl = vs @ drop (length vs) tbl"

definition setupLocalsTable :: "fptr \<Rightarrow> unit vact" where
  "setupLocalsTable p = vbnd (frame p) (\<lambda>f. vbnd EC (\<lambda>c. vbnd (scope_at (cf_scope f)) (\<lambda>(n, _).
     let localsSize = xc_stackTop c - cf_slots f
     in vthn (vwhen (n < localsSize) (growLocalsTable (cf_scope f) localsSize))
        (vbnd (vmap cell_read [cf_slots f ..< cf_slots f + localsSize]) (\<lambda>vs.
           upd_scope (cf_scope f) (\<lambda>n tbl. (n, write_cells vs tbl)))))))"

subsection \<open>Protected calls\<close>

text \<open>After a longjmp to an error tag, the frames above that of the tag are popped along their links,
  and the tags above it.\<close>

fun pop_to :: "vm_env \<Rightarrow> nat \<Rightarrow> fptr \<Rightarrow> fptr \<Rightarrow> unit vact" where
  "pop_to env 0 target p = fails"
| "pop_to env (Suc n) target p =
     (if p = target then vskip
      else vbnd (frame p) (\<lambda>f. vthn (popFrame env)
             (case cf_prev f of None \<Rightarrow> fails | Some q \<Rightarrow> pop_to env n target q)))"

definition unwindJumpRecover :: "vm_env \<Rightarrow> nat \<Rightarrow> unit vact" where
  "unwindJumpRecover env tag = vbnd (vget v_errInfo) (\<lambda>es.
     case List.find (\<lambda>e. et_id e = tag) es of
       None \<Rightarrow> fails
     | Some info \<Rightarrow>
         vbnd getFrame (\<lambda>p. vbnd (vget VMNumCallFrames) (\<lambda>n.
         vthn (pop_to env (n + 1) (et_frame info) p)
              (vmod (\<lambda>s. s\<lparr>v_errInfo := dropWhile (\<lambda>e. et_id e \<noteq> tag) (v_errInfo s)\<rparr>)))))"

definition raise_tag :: "unit vact" where
  "raise_tag = vmod (\<lambda>s. s\<lparr>v_errInfo := (case v_errInfo s of [] \<Rightarrow> []
     | e # es \<Rightarrow> e\<lparr>et_raised := True, et_caughtError := v_lastErrorThrown s\<rparr> # es)\<rparr>)"

text \<open>vm_protect: the result of the function, or None when it raised an error.\<close>

definition vm_protect :: "vm_env \<Rightarrow> 'a vact \<Rightarrow> addr \<Rightarrow> 'a option vact" where
  "vm_protect env func errClass =
     vbnd getFrame (\<lambda>p. vbnd (vget v_errInfo) (\<lambda>prev. vbnd (addErrInfo errClass) (\<lambda>tag.
       bnd func (\<lambda>r.
         case r of
           Inr a \<Rightarrow> vbnd getFrameOrNull (\<lambda>q. vthn
               (vwhen (q = Some p) (vmod (\<lambda>s. s\<lparr>v_errInfo := prev\<rparr>))) (vret (Some a)))
         | Inl (JErrTag t) \<Rightarrow>
             if t = tag
             then vbnd (vget v_errInfo) (\<lambda>es. vthn (vseqs [
                    vassert (es \<noteq> [] \<and> et_id (hd es) = tag), unwindJumpRecover env tag, raise_tag]) (vret None))
             else jump (JErrTag t)
         | Inl j \<Rightarrow> jump j))))"

end
