(* ===== verification/Clox_Call.thy ===== *)
theory Clox_Call
  imports Clox_Throw
begin

unbundle bit_operations_syntax

text \<open>Calls (vm.c): properties, definition of methods, calls of methods by name, and doCallCallable,
  which makes a frame for a closure, calls a native function or makes an instance. The run of the
  new frame is an argument, as is the call that a bound method makes of its method.\<close>

subsection \<open>Call sites\<close>

definition site_at :: "nat \<Rightarrow> call_site vact" where
  "site_at i = vbnd (vget v_sites) (\<lambda>ss. vthe (if i < length ss then Some (ss ! i) else None))"

definition site_block :: "nat option \<Rightarrow> addr vact" where
  "site_block ci = (case ci of None \<Rightarrow> vret NULL | Some i \<Rightarrow> vbnd (site_at i) (\<lambda>s. vret (cs_blockInstance s)))"

definition set_site_block :: "nat \<Rightarrow> addr \<Rightarrow> unit vact" where
  "set_site_block i p = vmod (\<lambda>s. s\<lparr>v_sites := (v_sites s)[i := (v_sites s ! i)\<lparr>cs_blockInstance := p\<rparr>]\<rparr>)"

definition is_block :: "vm_env \<Rightarrow> lxvalue \<Rightarrow> bool vact" where
  "is_block env v = vbnd vheap (\<lambda>h.
     if IS_INSTANCE h v then v_is_a v (lxBlockClass (ve_cls env)) else vret False)"

text \<open>EC->stackTop[-k].\<close>

definition below_top :: "nat \<Rightarrow> slot vact" where
  "below_top k = vbnd EC (\<lambda>c. vthn (vassert (k \<le> xc_stackTop c)) (vret (xc_stackTop c - k)))"

definition hide :: "addr \<Rightarrow> unit vact" where "hide p = vmem_upd (on_gc (hideFromGC p))"
definition unhide :: "addr \<Rightarrow> unit vact" where "unhide p = vmem_upd (on_gc (unhideFromGC p))"

subsection \<open>Native functions\<close>

definition captureNativeError :: "vm_env \<Rightarrow> addr \<Rightarrow> nat \<Rightarrow> slot \<Rightarrow> nat option \<Rightarrow> lxvalue vact" where
  "captureNativeError env native argCount args cinfo =
     vbnd (site_block cinfo) (\<lambda>blk. vbnd (native_at native) (\<lambda>nt.
     let n = (if blk \<noteq> NULL then argCount - 1 else argCount);
         run = ve_native env (ve_call env) (nt_function nt) n args
     in vbnd (vget v_inCCall) (\<lambda>inC.
        if inC = 0
        then vthn (vmod (\<lambda>s. s\<lparr>v_cCallJumpBufSet := True\<rparr>)) (bnd run (\<lambda>r.
               case r of
                 Inl JCCall \<Rightarrow> vbnd (vget (\<lambda>s. v_inCCall s > 0 \<and> v_cCallThrew s)) (\<lambda>b. vthn (vseqs [
                     vassert b,
                     vmod (\<lambda>s. s\<lparr>v_cCallThrew := False, v_returnedFromNativeErr := True,
                       v_cCallJumpBufSet := False\<rparr>)]) (vret UNDEF_VAL))
               | x \<Rightarrow> yields x))
        else run)))"

text \<open>The frames from the native function's own one up; the comparison of pointers is for frames of one
  array.\<close>

fun pop_from :: "vm_env \<Rightarrow> nat \<Rightarrow> fptr \<Rightarrow> unit vact" where
  "pop_from env 0 newFrame = fails"
| "pop_from env (Suc n) newFrame = vbnd getFrame (\<lambda>p. vthn (vassert (fst p = fst newFrame))
     (if snd p \<ge> snd newFrame then vthn (popFrame env) (pop_from env n newFrame) else vskip))"

definition returned_from_error :: "vm_env \<Rightarrow> fptr \<Rightarrow> unit vact \<Rightarrow> 'a vact" where
  "returned_from_error env newFrame adjust = vbnd (vget VMNumCallFrames) (\<lambda>n. vthn (vseqs [
     vmod (\<lambda>s. s\<lparr>v_returnedFromNativeErr := False\<rparr>), pop_from env (n + 1) newFrame, adjust])
     (vbnd (vget v_lastErrorThrown) (throwError env)))"

text \<open>What the frame of a native function gets besides pushNativeFrame.\<close>

definition enter_native :: "fptr \<Rightarrow> addr \<Rightarrow> addr \<Rightarrow> nat option \<Rightarrow> unit vact" where
  "enter_native p inst klass cinfo = vseqs [
     upd_frame p (\<lambda>f. f\<lparr>cf_instance := inst, cf_klass := klass, cf_callInfo := cinfo\<rparr>),
     vwhen (klass \<noteq> NULL) (pushCref klass)]"

definition call_native :: "vm_env \<Rightarrow> addr \<Rightarrow> nat \<Rightarrow> bool \<Rightarrow> addr \<Rightarrow> addr \<Rightarrow> nat option \<Rightarrow> bool vact" where
  "call_native env native argCount isMethod inst klass cinfo =
     vthn (pushNativeFrame env native) (vbnd getFrame (\<lambda>newFrame.
     vthn (vwhen (inst \<noteq> NULL) (vmod (\<lambda>s. s\<lparr>v_thisObj := inst, v_thisStack := inst # v_thisStack s\<rparr>)))
     (vthn (enter_native newFrame inst klass cinfo)
     (let argc = (if isMethod then argCount + 1 else argCount)
      in vbnd (below_top argc) (\<lambda>args.
      vbnd (captureNativeError env native argc args cinfo) (\<lambda>v.
      vbnd (below_top (argCount + 1)) (\<lambda>slots.
      vthn (upd_frame newFrame (\<lambda>f. f\<lparr>cf_slots := slots\<rparr>))
      (vbnd (vget v_returnedFromNativeErr) (\<lambda>err.
       if err then returned_from_error env newFrame (vmod (\<lambda>s. s\<lparr>v_inCCall := 0\<rparr>))
       else vthn (vseqs [
          on_ctx (\<lambda>c. c\<lparr>xc_stackTop := slots\<rparr>),
          vwhen (IS_OBJ v) (hide (AS_OBJ v)),
          popFrame env,
          vassert (\<not> IS_UNDEF v),
          push v,
          vwhen (IS_OBJ v) (unhide (AS_OBJ v))]) (vret True))))))))))"

definition call_native_init :: "vm_env \<Rightarrow> addr \<Rightarrow> nat \<Rightarrow> addr \<Rightarrow> addr \<Rightarrow> nat option \<Rightarrow> bool vact" where
  "call_native_init env native argCount inst klass cinfo =
     vthn (pushNativeFrame env native) (vbnd getFrame (\<lambda>newFrame.
     vthn (vmod (\<lambda>s. s\<lparr>v_thisStack := inst # v_thisStack s\<rparr>))
     (vthn (enter_native newFrame inst klass cinfo)
     (vbnd (below_top (argCount + 1)) (\<lambda>args.
      vbnd (captureNativeError env native (argCount + 1) args cinfo) (\<lambda>v.
      vbnd (below_top (argCount + 1)) (\<lambda>slots.
      vthn (upd_frame newFrame (\<lambda>f. f\<lparr>cf_slots := slots\<rparr>))
      (vbnd (vget v_returnedFromNativeErr) (\<lambda>err.
       if err then vthn clear_stackObjects
         (returned_from_error env newFrame (vbnd (vget v_inCCall) (\<lambda>n. vassert (n = 0))))
       else vbnd vheap (\<lambda>h. vthn (vseqs [
          on_ctx (\<lambda>c. c\<lparr>xc_stackTop := slots\<rparr>),
          hide (AS_OBJ v),
          popFrame env,
          vassert (IS_INSTANCE_LIKE h v),
          push v,
          unhide (AS_OBJ v)]) (vret True)))))))))))"

subsection \<open>Closures\<close>

definition checkFunctionArity :: "vm_env \<Rightarrow> obj_function \<Rightarrow> nat \<Rightarrow> unit vact" where
  "checkFunctionArity env func argCount =
     vbnd (if fn_name func = NULL then vret (tx ''(anon)'') else string_text (fn_name func)) (\<lambda>name.
     let arityMin = unat (fn_arity func);
         arityMax = (if fn_hasRestArg func then 20
            else arityMin + unat (fn_numDefaultArgs func) + unat (fn_numKwargs func) +
                 (if fn_hasBlockArg func then 1 else 0))
     in if argCount < arityMin \<or> argCount > arityMax
        then throwErrorFmt env (lxArgErrClass (ve_cls env))
               (if arityMin = arityMax
                then name @ tx '': Expected '' @ decimal arityMin @ tx '' arguments but got '' @ decimal argCount @ tx ''.''
                else name @ tx '': Expected '' @ decimal arityMin @ tx ''-'' @ decimal arityMax @
                     tx '' arguments but got '' @ decimal argCount @ tx ''.'')
        else vskip)"

text \<open>Taking a block instance off the top of the stack, to be pushed again behind the other
  arguments.\<close>

definition take_block :: "vm_env \<Rightarrow> bool \<Rightarrow> lxvalue option \<Rightarrow> nat \<Rightarrow> (nat \<times> lxvalue option) vact" where
  "take_block env wanted blk argCount =
     (if wanted \<and> blk \<noteq> None
      then vbnd (peek_at 0) (\<lambda>v. vbnd (is_block env v) (\<lambda>b.
             if b then vbnd pop (\<lambda>w. vthn (hide (AS_OBJ w)) (vret (argCount - 1, Some w)))
             else vret (argCount, None)))
      else vret (argCount, None))"

text \<open>The keyword arguments of a call, popped into a map. A keyword of the call that the function does
  not know stays on the stack.\<close>

fun pop_kwarg :: "vm_env \<Rightarrow> lxvalue \<Rightarrow> bytes \<Rightarrow> vm_param list \<Rightarrow> unit vact" where
  "pop_kwarg env kwmap given [] = vskip"
| "pop_kwarg env kwmap given (p # ps) =
     vthn (vwhen (pm_kind p = P_KWARG) (vbnd (vintern env (pm_name p)) (\<lambda>key.
       vwhen (c_string (pm_name p) = c_string given)
         (vbnd pop (\<lambda>v. vmem_opt (mapSet (ve_lx env) (AS_OBJ kwmap) (OBJ_VAL key) v))))))
     (pop_kwarg env kwmap given ps)"

definition map_table :: "lxvalue \<Rightarrow> table vact" where
  "map_table v = vbnd vheap (\<lambda>h. vthe (case map_option o_body (h (AS_OBJ v)) of
     Some (BMap _ t) \<Rightarrow> Some t | _ \<Rightarrow> None))"

text \<open>Pushing the values of all keyword parameters, an undefined value where none is given. The result
  is the number of those.\<close>

fun push_kwargs :: "vm_env \<Rightarrow> lxvalue \<Rightarrow> vm_param list \<Rightarrow> nat vact" where
  "push_kwargs env kwmap [] = vret 0"
| "push_kwargs env kwmap (p # ps) =
     (if pm_kind p = P_KWARG
      then vbnd (vintern env (pm_name p)) (\<lambda>key. vbnd (map_table kwmap) (\<lambda>t. vbnd (vtget env t (OBJ_VAL key)) (\<lambda>r.
        case r of
          Some v \<Rightarrow> vthn (push v) (push_kwargs env kwmap ps)
        | None \<Rightarrow> vthn (push UNDEF_VAL) (vbnd (push_kwargs env kwmap ps) (\<lambda>n. vret (n + 1))))))
      else push_kwargs env kwmap ps)"

text \<open>The rest arguments become an array. The result is the number of arguments with it.\<close>

fun push_rest :: "vm_env \<Rightarrow> lxvalue \<Rightarrow> nat \<Rightarrow> unit vact" where
  "push_rest env ary 0 = vskip"
| "push_rest env ary (Suc i) = vbnd (peek_at i) (\<lambda>v. vthn (arrayPush env ary v) (push_rest env ary i))"

definition rest_args :: "vm_env \<Rightarrow> obj_function \<Rightarrow> nat \<Rightarrow> nat vact" where
  "rest_args env func argCount =
     (let fixed = unat (fn_arity func) + unat (fn_numDefaultArgs func)
      in if fn_hasRestArg func \<and> argCount > fixed
         then vbnd (newArray env) (\<lambda>ary. vthn (vseqs [
                push_rest env ary (argCount - fixed),
                vseqs (replicate (argCount - fixed) (vdrop pop)),
                push ary]) (vret (fixed + 1)))
         else if fn_hasRestArg func
         then vbnd (newArray env) (\<lambda>ary. vthn (push ary) (vret (argCount + 1)))
         else vret argCount)"

text \<open>Where the code of the function starts when defaults of the last unused parameters are skipped.
  A keyword parameter behind them is not expected there.\<close>

fun skip_defaults :: "nat \<Rightarrow> vm_param list \<Rightarrow> nat option" where
  "skip_defaults unused [] = Some 0"
| "skip_defaults unused (p # ps) =
     (case pm_kind p of
        P_SPLAT \<Rightarrow> skip_defaults unused ps
      | P_BLOCK \<Rightarrow> skip_defaults unused ps
      | P_DEFAULT_ARG \<Rightarrow> if unused = 1 then Some (pm_offset p)
          else map_option (\<lambda>n. pm_offset p + n) (skip_defaults (unused - 1) ps)
      | _ \<Rightarrow> None)"

definition newBlock :: "vm_env \<Rightarrow> addr \<Rightarrow> lxvalue vact" where
  "newBlock env callable =
     vbnd (valloc env (\<lambda>oe. newInstance oe (lxBlockClass (ve_cls env)) NEWOBJ_FLAG_NONE)) (\<lambda>p.
     vthn (callVMMethod env p (OBJ_VAL (nativeBlockInit (ve_cls env))) [OBJ_VAL callable] None) pop)"

definition new_closure :: "vm_env \<Rightarrow> addr \<Rightarrow> u16 \<Rightarrow> addr vact" where
  "new_closure env func flags = vbnd (vfn func) (\<lambda>g. valloc env (\<lambda>oe. newClosure oe func g flags))"

text \<open>The block argument when no block instance was passed.\<close>

definition block_arg :: "vm_env \<Rightarrow> obj_function \<Rightarrow> nat option \<Rightarrow> bool \<Rightarrow> nat \<Rightarrow> nat vact" where
  "block_arg env func cinfo no_instance argc =
     (if \<not> fn_hasBlockArg func then vret argc
      else case cinfo of
        None \<Rightarrow> fails
      | Some i \<Rightarrow> vbnd (site_at i) (\<lambda>site.
          case (ca_blockFunction (cs_info site), no_instance) of
            (Some bf, True) \<Rightarrow> vbnd (new_closure env bf NEWOBJ_FLAG_NONE) (\<lambda>c. vthn (hide c)
               (vbnd (newBlock env c) (\<lambda>b. vthn (vseqs [push b, unhide c]) (vret (argc + 1)))))
          | (None, True) \<Rightarrow> vthn (push NIL_VAL) (vret (argc + 1))
          | _ \<Rightarrow> vret argc))"

text \<open>The offset of the call in the caller's code, for catch tables.\<close>

definition parent_start :: "int vact" where
  "parent_start = vbnd top_frame (\<lambda>f. vthn (vassert (cf_ip f - 2 \<ge> 0)) (vret (cf_ip f - 2)))"

text \<open>Everything between the arguments and the new frame: the number of arguments with the array of
  the rest and the block, the number of defaults used, of keywords not given and the offset of the
  code.\<close>

definition arrange_args ::
    "vm_env \<Rightarrow> addr \<Rightarrow> obj_function \<Rightarrow> nat \<Rightarrow> lxvalue option \<Rightarrow> nat option \<Rightarrow> (nat \<times> nat \<times> nat \<times> int \<times> nat) vact" where
  "arrange_args env fp func argCount0 blk cinfo =
     (let params = ve_params env fp;
          kw = fn_numKwargs func \<noteq> 0 \<and> cinfo \<noteq> None
      in vbnd (take_block env kw blk argCount0) (\<lambda>(argCount1, popped1).
         vbnd (if kw then vbnd (newMap env) (\<lambda>m. vthn (hide (AS_OBJ m)) (vbnd (site_at (the cinfo)) (\<lambda>site.
                  vthn (vseqs (map (\<lambda>t. pop_kwarg env m t params)
                    (rev (map (\<lambda>t. case tk_lexeme t of Some b \<Rightarrow> b | None \<Rightarrow> []) (ca_kwargNames (cs_info site))))))
                  (vret m))))
               else vret NIL_VAL) (\<lambda>kwargsMap.
         vbnd (take_block env (fn_numDefaultArgs func \<noteq> 0 \<and> popped1 = None) blk argCount1) (\<lambda>(argCount, popped2).
         let popped = (if popped1 = None then popped2 else popped1);
             used = unat (fn_arity func) + unat (fn_numDefaultArgs func) - argCount;
             unused = unat (fn_numDefaultArgs func) - used
         in vthn (vseqs (replicate used (push NIL_VAL)))
         (vbnd (rest_args env func argCount) (\<lambda>argc1.
          vbnd (if kw then push_kwargs env kwargsMap params else vret 0) (\<lambda>notGiven.
          vbnd parent_start (\<lambda>start.
          vbnd (vthe (if unused > 0 then skip_defaults unused (rev params) else Some 0)) (\<lambda>offset.
          vbnd (block_arg env func cinfo (blk = None) argc1) (\<lambda>argc2.
          vthn (case popped of None \<Rightarrow> vskip | Some w \<Rightarrow> vseqs [push (the blk), unhide (AS_OBJ w)])
         (vthn (vwhen (fn_numKwargs func \<noteq> 0)
             (vseqs [push kwargsMap, vassert (IS_OBJ kwargsMap), unhide (AS_OBJ kwargsMap)]))
           (vret ((if popped = None then argc2 else argc2 + 1), used, notGiven, start, offset)))))))))))))"

definition set_func_global :: "vm_env \<Rightarrow> addr \<Rightarrow> unit vact" where
  "set_func_global env name = set_roGlobal env (vn_funcString (ve_names env))
     (OBJ_VAL (if name \<noteq> NULL then name else vn_anonString (ve_names env)))"

text \<open>The class that is opened for a call: that of the receiver, or the receiver itself when it is a
  class or a module.\<close>

definition frame_class :: "addr \<Rightarrow> addr \<Rightarrow> addr vact" where
  "frame_class inst klass =
     (if inst = NULL then vret klass
      else vbnd vheap (\<lambda>h.
        if isObjType h (OBJ_VAL inst) OBJ_T_CLASS \<or> isObjType h (OBJ_VAL inst) OBJ_T_MODULE then vret inst
        else if klass = NULL then vbnd (vhdr inst) (\<lambda>i. vret (i_klass i)) else vret klass))"

definition call_closure ::
    "vm_env \<Rightarrow> unit vact \<Rightarrow> addr \<Rightarrow> nat \<Rightarrow> addr \<Rightarrow> addr \<Rightarrow> lxvalue option \<Rightarrow> nat option \<Rightarrow> bool vact" where
  "call_closure env run clos argCount inst klass blk cinfo = vbnd EC (\<lambda>c.
     if length (xc_frames c) \<ge> FRAMES_MAX then vthn errorPrintScriptBacktrace (vret False)
     else vbnd (closure_at clos) (\<lambda>cl. vbnd (vfn (cl_function cl)) (\<lambda>func. vbnd (site_block cinfo) (\<lambda>sb.
       vthn (vwhen (\<not> (cl_isBlock cl \<or> sb \<noteq> NULL)) (checkFunctionArity env func argCount))
      (vbnd (arrange_args env (cl_function cl) func argCount blk cinfo) (\<lambda>(argc, used, notGiven, start, offset).
       vbnd (pushFrame env (cl_function cl)) (\<lambda>p.
       vthn (vwhen (inst \<noteq> NULL) (vmod (\<lambda>s. s\<lparr>v_thisObj := inst, v_thisStack := inst # v_thisStack s\<rparr>)))
      (vbnd (frame_class inst klass) (\<lambda>k.
       vthn (vwhen (k \<noteq> NULL) (pushCref k))
      (vbnd (case cinfo of None \<Rightarrow> vret None | Some i \<Rightarrow> vbnd (site_at i) (\<lambda>x. vret (Some x))) (\<lambda>site.
       vbnd (below_top (argc + used + 1 + (if fn_numKwargs func \<noteq> 0 then notGiven + 1 else 0))) (\<lambda>slots.
       vthn (vseqs [
         upd_frame p (\<lambda>f. f\<lparr>cf_instance := inst, cf_callInfo := cinfo, cf_klass := k, cf_closure := clos,
           cf_name := fn_name func, cf_ip := int offset, cf_start := start, cf_isCCall := False,
           cf_nativeFunc := NULL, cf_slots := slots,
           cf_stackAdjustOnPop := (case site of Some x \<Rightarrow> if cs_isYield x then ca_argc (cs_info x) + 1 else 0 | None \<Rightarrow> 0)\<rparr>),
         setupLocalsTable p,
         set_func_global env (fn_name func),
         run]) (vret True)))))))))))))"

subsection \<open>Calling a callable\<close>

text \<open>The block instance that comes with a call, on the stack or with the call site.\<close>

definition pass_block :: "vm_env \<Rightarrow> nat \<Rightarrow> nat option \<Rightarrow> (nat \<times> lxvalue option) vact" where
  "pass_block env argCount cinfo =
     (case cinfo of
        None \<Rightarrow> vret (argCount, None)
      | Some i \<Rightarrow> vbnd (peek_at 0) (\<lambda>v. vbnd (is_block env v) (\<lambda>b.
          if argCount > 0 \<and> b then vthn (set_site_block i (AS_OBJ v)) (vret (argCount, Some v))
          else vbnd (site_at i) (\<lambda>site.
            if cs_blockInstance site \<noteq> NULL \<and> \<not> b
            then vthn (push (OBJ_VAL (cs_blockInstance site))) (vbnd (peek_at 0) (\<lambda>w. vret (argCount + 1, Some w)))
            else vret (argCount, None)))))"

definition callable_name :: "lxvalue \<Rightarrow> bytes vact" where
  "callable_name v = vbnd vheap (\<lambda>h.
     case map_option o_body (h (AS_OBJ v)) of
       Some (BClass _ _) \<Rightarrow> vret (tx ''init'')
     | Some (BNative n) \<Rightarrow> string_text (nt_name n)
     | Some (BClosure c) \<Rightarrow> vbnd (vfn (cl_function c)) (\<lambda>g. string_text (fn_name g))
     | _ \<Rightarrow> fails)"

definition method_receiver :: "vm_env \<Rightarrow> lxvalue \<Rightarrow> nat \<Rightarrow> (addr \<times> addr) vact" where
  "method_receiver env callable argCount =
     vbnd (below_top (argCount + 1)) (\<lambda>a. vbnd (cell_read a) (\<lambda>v. vbnd vheap (\<lambda>h.
     vbnd (vthe (h (AS_OBJ v))) (\<lambda>ob.
     if isInstanceLikeObj (obj_type_of ob)
     then vbnd (vhdr (AS_OBJ v)) (\<lambda>i. vret (AS_OBJ v, i_klass i))
     else vbnd (callable_name callable) (\<lambda>n. vbnd (type_text (OBJ_VAL (AS_OBJ v))) (\<lambda>t.
       throwErrorFmt env (lxTypeErrClass (ve_cls env))
         (tx ''Tried to invoke method '' @ [39] @ n @ [39] @ tx '' on non-instance (type='' @ t @ tx '')'')))))))"

definition construct ::
    "vm_env \<Rightarrow> unit vact \<Rightarrow> addr \<Rightarrow> nat \<Rightarrow> lxvalue option \<Rightarrow> nat option \<Rightarrow> bool vact" where
  "construct env run klass argCount blk cinfo =
     vbnd (valloc env (\<lambda>oe. newInstance oe klass NEWOBJ_FLAG_NONE)) (\<lambda>inst.
     vthn (vmod (\<lambda>s. s\<lparr>v_thisObj := inst\<rparr>))
     (vbnd (below_top (argCount + 1)) (\<lambda>a.
      vthn (cell_write a (OBJ_VAL inst))
     (vbnd (v_find_method env inst (vn_initString (ve_names env))) (\<lambda>init.
      if init = NULL then throwErrorFmt env (lxArgErrClass (ve_cls env)) (tx ''init() method not found?'')
      else vbnd vheap (\<lambda>h.
        if isObjType h (OBJ_VAL init) OBJ_T_NATIVE_FUNCTION
        then call_native_init env init argCount inst klass cinfo
        else vthn (vassert (isObjType h (OBJ_VAL init) OBJ_T_CLOSURE))
               (call_closure env run init argCount inst klass blk cinfo)))))))"

definition doCallCallable :: "vm_env \<Rightarrow> vm_call \<Rightarrow> unit vact \<Rightarrow> vm_call" where
  "doCallCallable env again run callable argCount0 isMethod cinfo =
     vbnd (pass_block env argCount0 cinfo) (\<lambda>(argCount, blk).
     vbnd (if isMethod then method_receiver env callable argCount
           else vbnd (below_top (argCount + 1)) (\<lambda>a. vbnd (cell_read a) (\<lambda>v. vbnd vheap (\<lambda>h.
                  vthn (vassert (isCallable h v)) (vret (NULL, NULL)))))) (\<lambda>(inst, klass).
     vbnd vheap (\<lambda>h. vbnd (below_top (argCount + 1)) (\<lambda>a.
     if isObjType h callable OBJ_T_CLOSURE
     then vthn (vwhen (\<not> isMethod) (cell_write a callable))
            (call_closure env run (AS_OBJ callable) argCount inst klass blk cinfo)
     else if isObjType h callable OBJ_T_CLASS
     then construct env run (AS_OBJ callable) argCount blk cinfo
     else if isObjType h callable OBJ_T_NATIVE_FUNCTION
     then call_native env (AS_OBJ callable) argCount isMethod inst klass cinfo
     else (case map_option o_body (h (AS_OBJ callable)) of
        Some (BBoundMethod receiver m) \<Rightarrow> vthn (cell_write a receiver) (again (OBJ_VAL m) argCount True cinfo)
      | _ \<Rightarrow> fails)))))"

definition callCallable :: "vm_call \<Rightarrow> vm_call" where
  "callCallable docall callable argCount isMethod cinfo =
     vbnd (vget (\<lambda>s. length (m_stackObjects (v_mem s)))) (\<lambda>lenBefore.
     vbnd (docall callable argCount isMethod cinfo) (\<lambda>r.
     vthn (vmem_upd (\<lambda>m. m\<lparr>m_stackObjects := take lenBefore (m_stackObjects m)\<rparr>)) (vret r)))"

end
