(* ===== verification/Clox_Invoke.thy ===== *)
theory Clox_Invoke
  imports Clox_Call
begin

unbundle bit_operations_syntax

text \<open>Properties, methods and values at run time (vm.c, object.c): reading and setting properties,
  definition of methods, calls by name, super, comparison, iterators and the copies that literals
  are evaluated to.\<close>

subsection \<open>Lookups and small helpers\<close>

definition is_type :: "obj_type \<Rightarrow> lxvalue \<Rightarrow> bool vact" where
  "is_type ty v = vbnd vheap (\<lambda>h. vret (isObjType h v ty))"

definition instance_like_value :: "lxvalue \<Rightarrow> bool vact" where
  "instance_like_value v = vbnd vheap (\<lambda>h. vret (IS_INSTANCE_LIKE h v))"

definition is_array :: "vm_env \<Rightarrow> lxvalue \<Rightarrow> bool vact" where
  "is_array env v = v_is_a v (lxAryClass (oe_classes (ve_obj env)))"

definition is_map :: "vm_env \<Rightarrow> lxvalue \<Rightarrow> bool vact" where
  "is_map env v = v_is_a v (lxMapClass (oe_classes (ve_obj env)))"

definition array_values :: "lxvalue \<Rightarrow> value_array vact" where
  "array_values v = vbnd vheap (\<lambda>h. vthe (case map_option o_body (h (AS_OBJ v)) of
     Some (BArray _ a) \<Rightarrow> Some a | _ \<Rightarrow> None))"

text \<open>An element that is not there is read beyond the array.\<close>

definition arrayGet :: "lxvalue \<Rightarrow> nat \<Rightarrow> lxvalue vact" where
  "arrayGet v i = vbnd (array_values v) (\<lambda>a.
     vthe (if i < length (va_values a) then va_values a ! i else None))"

definition arraySize :: "lxvalue \<Rightarrow> int vact" where
  "arraySize v = vbnd (array_values v) (\<lambda>a. vret (va_count a))"

definition v_find_or_raise :: "vm_env \<Rightarrow> addr \<Rightarrow> addr \<Rightarrow> addr vact" where
  "v_find_or_raise env p name = vbnd (v_find_method env p name) (\<lambda>m.
     if m \<noteq> NULL then vret m
     else vbnd (string_text name) (\<lambda>n. vbnd vheap (\<lambda>h. vbnd (vthe (instanceClassName h p)) (\<lambda>c.
       throwErrorFmt env (lxNameErrClass (ve_cls env))
         (tx ''Undefined instance method '' @ [39] @ n @ [39] @ tx '' for class '' @ c_string c)))))"

text \<open>lookupMethod; the class that is given may be left out.\<close>

partial_function (option) lookup_from ::
    "tget \<Rightarrow> (class_info \<Rightarrow> table) \<Rightarrow> heap \<Rightarrow> addr \<Rightarrow> lxvalue \<Rightarrow> addr \<Rightarrow> lxvalue option option" where
  "lookup_from get sel h left_out name klass =
     (if klass = NULL then Some None
      else if klass = left_out
      then (case CLASS_SUPER h klass of None \<Rightarrow> None | Some k \<Rightarrow> lookup_from get sel h left_out name k)
      else case CLASS_TBL sel h klass of
        None \<Rightarrow> None
      | Some mtable \<Rightarrow>
          (case get mtable name of
             None \<Rightarrow> None
           | Some (Some method) \<Rightarrow> Some (Some method)
           | Some None \<Rightarrow>
               (case CLASS_SUPER h klass of
                  None \<Rightarrow> None
                | Some k \<Rightarrow> lookup_from get sel h left_out name k)))"

declare lookup_from.simps [code]

definition lookupMethod ::
    "vm_env \<Rightarrow> addr \<Rightarrow> addr \<Rightarrow> addr \<Rightarrow> (class_info \<Rightarrow> table) \<Rightarrow> bool \<Rightarrow> lxvalue option vact" where
  "lookupMethod env p klass name sel lookInGivenClass =
     vbnd (vhdr p) (\<lambda>i. vbnd (vget v_mem) (\<lambda>m.
       vthe (lookup_from (mem_get (ve_lx env) m) sel (objs_of m)
               (if lookInGivenClass then NULL else klass) (OBJ_VAL name)
               (if klass = i_klass i \<and> i_singletonKlass i \<noteq> NULL then i_singletonKlass i else klass))))"

definition findMethod :: "vm_env \<Rightarrow> addr \<Rightarrow> addr \<Rightarrow> addr vact" where
  "findMethod env klass name = vbnd (vget v_mem) (\<lambda>m.
     vthe (find_up (mem_get (ve_lx env) m) ci_methods (objs_of m) (CLASS_SUPER (objs_of m)) (OBJ_VAL name) klass))"

subsection \<open>Properties\<close>

definition propertyGet :: "vm_env \<Rightarrow> addr \<Rightarrow> addr \<Rightarrow> lxvalue vact" where
  "propertyGet env p name =
     vbnd (vhdr p) (\<lambda>i. vbnd (vtget env (i_fields i) (OBJ_VAL name)) (\<lambda>field.
     case field of
       Some v \<Rightarrow> vret v
     | None \<Rightarrow> vbnd (v_find_getter env p name) (\<lambda>getter.
         if getter \<noteq> NULL
         then vthn (vdrop (callVMMethod env p (OBJ_VAL getter) [] None))
                (vbnd (vget v_hadError) (\<lambda>e. if e then vret NIL_VAL else pop))
         else vbnd (v_find_method env p name) (\<lambda>method.
           if method \<noteq> NULL
           then vbnd (valloc env (\<lambda>oe. newBoundMethod oe p method NEWOBJ_FLAG_NONE)) (\<lambda>b. vret (OBJ_VAL b))
           else vret NIL_VAL))))"

definition propertySet :: "vm_env \<Rightarrow> addr \<Rightarrow> addr \<Rightarrow> lxvalue \<Rightarrow> unit vact" where
  "propertySet env p name rval =
     vbnd (vfrozen p) (\<lambda>fz.
     if fz then throwErrorFmt env (lxErrClass (ve_cls env)) (tx ''Tried to set property on frozen object'')
     else vbnd (v_find_setter env p name) (\<lambda>setter.
       if setter \<noteq> NULL
       then vthn (vdrop (callVMMethod env p (OBJ_VAL setter) [rval] None)) (vdrop pop)
       else vbnd (vhdr p) (\<lambda>i. vbnd (vtset env (i_fields i) (OBJ_VAL name) rval) (\<lambda>t. vseqs [
         vmem_upd (set_body p (on_hdr (\<lambda>i. i\<lparr>i_fields := t\<rparr>))),
         vwhen (IS_OBJ rval) (vmem_upd (on_gc (objWrite (OBJ_VAL p) rval)))]))))"

subsection \<open>Calls by name\<close>

text \<open>Calling what was found with arguments; the value is taken off the stack.\<close>

definition call_and_pop :: "vm_env \<Rightarrow> addr \<Rightarrow> addr \<Rightarrow> lxvalue list \<Rightarrow> nat option \<Rightarrow> lxvalue vact" where
  "call_and_pop env p callable args cinfo = vthn (vdrop (callVMMethod env p (OBJ_VAL callable) args cinfo)) pop"

definition quoted :: "bytes \<Rightarrow> bytes" where "quoted b = [39] @ b @ [39]"

text \<open>The name of the class in an error message, which is there when the class has one.\<close>

definition method_not_found :: "vm_env \<Rightarrow> bytes \<Rightarrow> bytes vact \<Rightarrow> bytes \<Rightarrow> addr \<Rightarrow> 'a vact" where
  "method_not_found env kind owner sep name =
     vbnd owner (\<lambda>c. vbnd (string_text name) (\<lambda>n.
       throwErrorFmt env (lxErrClass (ve_cls env))
         (kind @ tx '' method '' @ quoted (c @ sep @ n) @ tx '' not found'')))"

text \<open>For an instance whose class has no name the null pointer is followed.\<close>

definition class_name_of :: "addr \<Rightarrow> bytes vact" where
  "class_name_of p = vbnd (vhdr p) (\<lambda>i. vbnd (vinfo (i_klass i)) (\<lambda>ci. string_text (ci_name ci)))"

definition find_class_method :: "vm_env \<Rightarrow> addr \<Rightarrow> addr \<Rightarrow> bool \<Rightarrow> addr vact" where
  "find_class_method env p name getters = vbnd (v_find_static env p name) (\<lambda>c.
     if c = NULL \<and> getters then v_find_getter env p name else vret c)"

definition find_instance_method :: "vm_env \<Rightarrow> addr \<Rightarrow> addr \<Rightarrow> bool \<Rightarrow> addr vact" where
  "find_instance_method env p name getters = vbnd (v_find_method env p name) (\<lambda>c.
     if c = NULL \<and> getters then v_find_getter env p name else vret c)"

definition callMethod :: "vm_env \<Rightarrow> addr \<Rightarrow> addr \<Rightarrow> lxvalue list \<Rightarrow> nat option \<Rightarrow> lxvalue vact" where
  "callMethod env p name args cinfo =
     vbnd vheap (\<lambda>h. vbnd (vthe (map_option obj_type_of (h p))) (\<lambda>ty.
     if ty \<in> {OBJ_T_INSTANCE, OBJ_T_ARRAY, OBJ_T_STRING, OBJ_T_MAP, OBJ_T_REGEX}
     then vbnd (find_instance_method env p name (args = [])) (\<lambda>c.
       if c = NULL then method_not_found env (tx ''instance'') (class_name_of p) (tx ''#'') name
       else call_and_pop env p c args cinfo)
     else if ty = OBJ_T_CLASS
     then vbnd (find_class_method env p name (args = [])) (\<lambda>c.
       if c = NULL then method_not_found env (tx ''class'') (class_text p) (tx ''.'') name
       else call_and_pop env p c args cinfo)
     else if ty = OBJ_T_MODULE
     then vbnd (v_find_static env p name) (\<lambda>c.
       if c = NULL then method_not_found env (tx ''module'') (class_text p) (tx ''.'') name
       else call_and_pop env p c args cinfo)
     else vbnd (string_text name) (\<lambda>n. vbnd (type_text (OBJ_VAL p)) (\<lambda>t.
       throwErrorFmt env (lxTypeErrClass (ve_cls env))
         (tx ''Tried to invoke method '' @ quoted n @ tx '' on non-instance (type='' @ t @ tx '')'')))))"

definition callFunctionValue :: "vm_env \<Rightarrow> lxvalue \<Rightarrow> lxvalue list \<Rightarrow> lxvalue vact" where
  "callFunctionValue env callable args =
     vbnd vheap (\<lambda>h. vthn (vassert (isCallable h callable))
     (vthn (vseqs (map push (callable # args)))
     (vthn (vdrop (ve_call env callable (length args) False None)) pop)))"

text \<open>super from a native method.\<close>

definition callSuper :: "vm_env \<Rightarrow> lxvalue list \<Rightarrow> nat option \<Rightarrow> lxvalue vact" where
  "callSuper env args cinfo =
     vbnd top_frame (\<lambda>f.
     let err = (\<lambda>t. throwErrorFmt env (lxErrClass (ve_cls env)) (tx t)); obj = lxObjClass (oe_classes (ve_obj env))
     in if \<not> ve_classHierarchyCreated env then vret NIL_VAL
     else if \<not> cf_isCCall f then err ''callSuper must be called from native C function!''
     else vbnd (native_at (cf_nativeFunc f)) (\<lambda>nt.
       if nt_klass nt = NULL then err ''No class found for callSuper, current frame must be a method!''
       else vbnd vheap (\<lambda>h.
         if \<not> (isObjType h (OBJ_VAL (nt_klass nt)) OBJ_T_CLASS \<or> isObjType h (OBJ_VAL (nt_klass nt)) OBJ_T_MODULE) then fails
         else if nt_klass nt = obj then vret NIL_VAL
         else vbnd (vthe (CLASS_SUPER h (nt_klass nt))) (\<lambda>super.
           if super = NULL then err ''No superclass found for callSuper''
           else vbnd (findMethod env super (nt_name nt)) (\<lambda>method.
             if method = NULL then err ''No super method found for callSuper''
             else call_and_pop env (cf_instance f) method args cinfo)))))"

subsection \<open>Defining methods\<close>

partial_function (option) funcFromCallable ::
    "vm_env \<Rightarrow> lxvalue \<Rightarrow> vmst \<Rightarrow> ((jump + addr) \<times> vmst) option" where
  "funcFromCallable env v s =
     (case map_option o_body (objs_of (v_mem s) (AS_OBJ v)) of
        Some (BFunction _) \<Rightarrow> Some (Inr (AS_OBJ v), s)
      | Some (BClass _ _) \<Rightarrow>
          (case vbnd (vintern env (tx ''init'')) (v_find_method env (AS_OBJ v)) s of
             None \<Rightarrow> None
           | Some r \<Rightarrow>
               (case fst r of
                  Inl j \<Rightarrow> Some (Inl j, snd r)
                | Inr p \<Rightarrow> if p = NULL then Some (Inr NULL, snd r) else funcFromCallable env (OBJ_VAL p) (snd r)))
      | Some (BClosure c) \<Rightarrow> Some (Inr (cl_function c), s)
      | Some (BNative _) \<Rightarrow> Some (Inr NULL, s)
      | Some (BBoundMethod _ callable) \<Rightarrow> funcFromCallable env (OBJ_VAL callable) s
      | _ \<Rightarrow> None)"

declare funcFromCallable.simps [code]

text \<open>A method goes into one of the tables of a class; table and update say which.\<close>

definition store_method ::
    "vm_env \<Rightarrow> (class_info \<Rightarrow> table) \<Rightarrow> ((table \<Rightarrow> table) \<Rightarrow> class_info \<Rightarrow> class_info) \<Rightarrow>
     addr \<Rightarrow> addr \<Rightarrow> lxvalue \<Rightarrow> unit vact" where
  "store_method env sel upd klass name method =
     vbnd (vinfo klass) (\<lambda>ci. vbnd (vtset env (sel ci) (OBJ_VAL name) method) (\<lambda>t. vseqs [
       vmem_upd (set_body klass (on_info (upd (\<lambda>_. t)))),
       vmem_upd (on_gc (objWrite (OBJ_VAL klass) method)),
       vmem_upd (GC_OLD (AS_OBJ method))]))"

definition set_fn_klass :: "addr \<Rightarrow> addr \<Rightarrow> unit vact" where
  "set_fn_klass func klass = vwhen (func \<noteq> NULL) (vmem_upd (upd_fn func (\<lambda>g. g\<lparr>fn_klass := klass\<rparr>)))"

definition defineMethod :: "vm_env \<Rightarrow> lxvalue \<Rightarrow> addr \<Rightarrow> lxvalue \<Rightarrow> unit vact" where
  "defineMethod env classOrMod name method =
     vbnd vheap (\<lambda>h. vthn (vassert (isCallable h method))
     (vbnd (funcFromCallable env method) (\<lambda>func.
      vthn (set_fn_klass func (AS_OBJ classOrMod))
     (if isObjType h classOrMod OBJ_T_CLASS
      then vthn (store_method env ci_methods ci_methods_update (AS_OBJ classOrMod) name method)
        (vbnd (vintern env (tx ''methodAdded'')) (\<lambda>added.
           vdrop (callMethod env (AS_OBJ classOrMod) added [OBJ_VAL name] None)))
      else if isObjType h classOrMod OBJ_T_MODULE
      then store_method env ci_methods ci_methods_update (AS_OBJ classOrMod) name method
      else fails))))"

text \<open>The class and the closure on top of the stack.\<close>

definition class_and_closure :: "(lxvalue \<times> lxvalue \<times> obj_closure) vact" where
  "class_and_closure = vbnd (peek_at 0) (\<lambda>method. vbnd (peek_at 1) (\<lambda>k. vbnd vheap (\<lambda>h.
     vthn (vassert (isObjType h method OBJ_T_CLOSURE \<and>
             (isObjType h k OBJ_T_CLASS \<or> isObjType h k OBJ_T_MODULE)))
     (vbnd (closure_at (AS_OBJ method)) (\<lambda>c. vret (k, method, c))))))"

text \<open>valueToString gives the name for the singleton class of an instance that has none yet.\<close>

definition v_singleton :: "vm_env \<Rightarrow> (obj_env \<Rightarrow> (addr \<Rightarrow> mem \<Rightarrow> (bytes \<times> mem) option) \<Rightarrow> addr \<Rightarrow> mem \<Rightarrow>
    (addr \<times> mem) option) \<Rightarrow> addr \<Rightarrow> addr vact" where
  "v_singleton env mk p = vbnd (vhdr p) (\<lambda>i. vbnd vheap (\<lambda>h.
     vbnd (if i_singletonKlass i = NULL \<and> isObjType h (OBJ_VAL p) OBJ_T_INSTANCE
           then ve_show env (OBJ_VAL p) else vret []) (\<lambda>text.
       valloc env (\<lambda>oe. mk oe (\<lambda>_ m. Some (text, m)) p))))"

definition defineStaticMethod :: "vm_env \<Rightarrow> addr \<Rightarrow> unit vact" where
  "defineStaticMethod env name = vbnd class_and_closure (\<lambda>(k, method, c). vthn
     (vmem_upd (upd_fn (cl_function c) (\<lambda>g. g\<lparr>fn_klass := AS_OBJ k, fn_isSingletonMethod := True\<rparr>)))
     (vbnd (v_singleton env singletonClass (AS_OBJ k)) (\<lambda>meta. vseqs [
       store_method env ci_methods ci_methods_update meta name method, vdrop pop])))"

definition defineGetter :: "vm_env \<Rightarrow> addr \<Rightarrow> unit vact" where
  "defineGetter env name = vbnd class_and_closure (\<lambda>(k, method, c). vseqs [
     set_fn_klass (cl_function c) (AS_OBJ k),
     store_method env ci_getters ci_getters_update (AS_OBJ k) name method, vdrop pop])"

definition defineSetter :: "vm_env \<Rightarrow> addr \<Rightarrow> unit vact" where
  "defineSetter env name = vbnd class_and_closure (\<lambda>(k, method, c). vseqs [
     set_fn_klass (cl_function c) (AS_OBJ k),
     store_method env ci_setters ci_setters_update (AS_OBJ k) name method, vdrop pop])"

subsection \<open>Comparison\<close>

definition canCmpValues :: "lxvalue \<Rightarrow> lxvalue \<Rightarrow> bool vact" where
  "canCmpValues lhs rhs = vbnd vheap (\<lambda>h. vret (
     IS_NUMBER lhs \<and> IS_NUMBER rhs \<or>
     isObjType h lhs OBJ_T_STRING \<and> isObjType h rhs OBJ_T_STRING \<or> IS_INSTANCE_LIKE h lhs))"

text \<open>strcmp, of which the sign counts.\<close>

fun c_strcmp :: "bytes \<Rightarrow> bytes \<Rightarrow> int" where
  "c_strcmp [] [] = 0"
| "c_strcmp [] (b # bs) = -1"
| "c_strcmp (a # as) [] = 1"
| "c_strcmp (a # as) (b # bs) = (if a = b then c_strcmp as bs else if a < b then -1 else 1)"

definition cmpValues :: "vm_env \<Rightarrow> lxvalue \<Rightarrow> lxvalue \<Rightarrow> int vact" where
  "cmpValues env lhs rhs = vbnd vheap (\<lambda>h.
     if IS_NUMBER lhs \<and> IS_NUMBER rhs
     then vret (if ve_deq env (valueToNumber lhs) (valueToNumber rhs) then 0
                else if ve_less env (valueToNumber lhs) (valueToNumber rhs) then -1 else 1)
     else if isObjType h lhs OBJ_T_STRING \<and> isObjType h rhs OBJ_T_STRING
     then vbnd (string_text (AS_OBJ lhs)) (\<lambda>a. vbnd (string_text (AS_OBJ rhs)) (\<lambda>b. vret (c_strcmp a b)))
     else vbnd (callMethod env (AS_OBJ lhs) (vn_opCmpString (ve_names env)) [rhs] None) (\<lambda>r.
       if IS_NUMBER r then vret (sint (fp_to_int (ve_fpu env) (valueToNumber r)))
       else throwErrorFmt env (lxTypeErrClass (ve_cls env)) (tx ''Expected number returned from opCmp'')))"

text \<open>Values that are no objects are equal when their words are.\<close>

definition isValueOpEqual :: "vm_env \<Rightarrow> lxvalue \<Rightarrow> lxvalue \<Rightarrow> bool vact" where
  "isValueOpEqual env lhs rhs =
     (if \<not> IS_OBJ lhs then vret (lhs = rhs)
      else let same = vret (AS_OBJ lhs = AS_OBJ rhs)
      in vbnd (instance_like_value lhs) (\<lambda>il.
         if \<not> il then same
         else vbnd (v_find_method env (AS_OBJ lhs) (vn_opEqualsString (ve_names env))) (\<lambda>eq.
           if eq \<noteq> NULL then vbnd (callVMMethod env (AS_OBJ lhs) (OBJ_VAL eq) [rhs] None) (\<lambda>r. vthn (vdrop pop) (truthy r))
           else vbnd (v_find_method env (AS_OBJ lhs) (vn_opCmpString (ve_names env))) (\<lambda>cmp.
             if cmp \<noteq> NULL
             then vbnd (callVMMethod env (AS_OBJ lhs) (OBJ_VAL cmp) [rhs] None) (\<lambda>r. vthn (vdrop pop)
                    (vret (IS_NUMBER r \<and> fp_to_int (ve_fpu env) (valueToNumber r) = 0)))
             else same))))"

subsection \<open>Iterators, unpacking and copies of literals\<close>

definition isIterableType :: "vm_env \<Rightarrow> lxvalue \<Rightarrow> bool vact" where
  "isIterableType env v = vbnd (is_array env v) (\<lambda>a. vbnd (is_map env v) (\<lambda>m.
     vbnd (is_type OBJ_T_INSTANCE v) (\<lambda>i. vret (a \<or> m \<or> i))))"

definition isIterator :: "vm_env \<Rightarrow> lxvalue \<Rightarrow> bool vact" where
  "isIterator env v = v_is_a v (lxIteratorClass (ve_cls env))"

definition new_iterator :: "vm_env \<Rightarrow> lxvalue \<Rightarrow> lxvalue vact" where
  "new_iterator env v =
     vbnd (valloc env (\<lambda>oe. newInstance oe (lxIteratorClass (ve_cls env)) NEWOBJ_FLAG_NONE)) (\<lambda>p.
       call_and_pop env p (nativeIteratorInit (ve_cls env)) [v] None)"

definition array_or_map :: "vm_env \<Rightarrow> lxvalue \<Rightarrow> bool vact" where
  "array_or_map env v = vbnd (is_array env v) (\<lambda>a. vbnd (is_map env v) (\<lambda>m. vret (a \<or> m)))"

definition createIterator :: "vm_env \<Rightarrow> lxvalue \<Rightarrow> lxvalue vact" where
  "createIterator env v =
     vbnd (isIterableType env v) (\<lambda>ok. vthn (vassert ok) (vbnd (array_or_map env v) (\<lambda>am.
     if am then new_iterator env v
     else vbnd (vintern env (tx ''iter'')) (\<lambda>iterId. vbnd (v_find_method env (AS_OBJ v) iterId) (\<lambda>iter.
       if iter = NULL
       then vbnd (vintern env (tx ''iterNext'')) (\<lambda>nextId.
              vthn (vdrop (v_find_or_raise env (AS_OBJ v) nextId)) (new_iterator env v))
       else vbnd (call_and_pop env (AS_OBJ v) iter [] None) (\<lambda>r. vbnd (array_or_map env r) (\<lambda>am.
         if am then new_iterator env r
         else vbnd (isIterator env r) (\<lambda>it.
           if it then vret r
           else throwErrorFmt env (lxTypeErrClass (ve_cls env))
             (tx ''Return value from iter() must be an Iterator or iterable value (Array/Map)'')))))))))"

definition unpackValue :: "vm_env \<Rightarrow> lxvalue \<Rightarrow> nat \<Rightarrow> lxvalue vact" where
  "unpackValue env v idx = vbnd (is_array env v) (\<lambda>a.
     if a then vbnd (arraySize v) (\<lambda>n. if int idx < n then arrayGet v idx else vret NIL_VAL) else fails)"

definition set_array :: "lxvalue \<Rightarrow> (value_array \<Rightarrow> value_array) \<Rightarrow> unit vact" where
  "set_array v f = vmem_upd (set_body (AS_OBJ v) (\<lambda>b. case b of BArray i a \<Rightarrow> BArray i (f a) | _ \<Rightarrow> b))"

text \<open>A copy of a static array shares its buffer until it is changed.\<close>

definition arrayDup :: "vm_env \<Rightarrow> lxvalue \<Rightarrow> lxvalue vact" where
  "arrayDup env v =
     vbnd (array_values v) (\<lambda>a. vbnd vheap (\<lambda>h. vbnd (vthe (h (AS_OBJ v))) (\<lambda>ob.
     vbnd (newArray env) (\<lambda>r. vthn
       (if has_flag (o_flags ob) OBJ_FLAG_USER2
        then vthn (set_array r (\<lambda>_. a)) (vmem_upd (obj_set_flag (AS_OBJ r) OBJ_FLAG_USER1))
        else vbnd (vmap (\<lambda>i. arrayGet v i) [0 ..< nat (va_count a)]) (\<lambda>vs. set_array r (\<lambda>b. fold (\<lambda>x b. writeValueArrayEnd b x) vs b)))
       (vret r)))))"

definition map_put :: "vm_env \<Rightarrow> lxvalue \<Rightarrow> lxvalue \<Rightarrow> lxvalue \<Rightarrow> unit vact" where
  "map_put env mp k v = vseqs [
     vmem_opt (mapSet (ve_lx env) (AS_OBJ mp) k v),
     vmem_upd (on_gc (objWrite mp k)), vmem_upd (on_gc (objWrite mp v))]"

fun visited_entries :: "entry list \<Rightarrow> entry list" where
  "visited_entries [] = []"
| "visited_entries (x # xs) = (if e_key x = QNAN then [] else if IS_UNDEF (e_key x) then visited_entries xs
     else x # visited_entries xs)"

text \<open>The entries that TABLE_FOREACH visits.\<close>

definition table_live :: "table \<Rightarrow> entry list" where
  "table_live t = (if tb_count t > 0 then visited_entries (tb_entries t) else [])"

definition mapDup :: "vm_env \<Rightarrow> lxvalue \<Rightarrow> lxvalue vact" where
  "mapDup env v = vbnd (newMap env) (\<lambda>r. vbnd (map_table v) (\<lambda>t. vthn
     (vseqs (map (\<lambda>e. map_put env r (e_key e) (e_value e)) (table_live t))) (vret r)))"

definition compileRegex :: "vm_env \<Rightarrow> addr \<Rightarrow> lxvalue vact" where
  "compileRegex env str =
     vbnd (valloc env (\<lambda>oe. newInstance oe (lxRegexClass (oe_classes oe)) NEWOBJ_FLAG_NONE)) (\<lambda>p.
       call_and_pop env p (nativeRegexInit (ve_cls env)) [OBJ_VAL str] None)"

definition isUnredefinableGlobal :: "bytes \<Rightarrow> bool" where
  "isUnredefinableGlobal name \<longleftrightarrow> name \<in> set (map tx [''clock'', ''typeof'', ''classof'', ''debugger'',
     ''loadScript'', ''requireScript'', ''eval'', ''yield'', ''blockGiven'', ''sleep''])"

definition methodNameForBinop :: "vm_env \<Rightarrow> opcode \<Rightarrow> addr" where
  "methodNameForBinop env code = (let n = ve_names env in case code of
     OP_ADD \<Rightarrow> vn_opAddString n | OP_SUBTRACT \<Rightarrow> vn_opDiffString n | OP_MULTIPLY \<Rightarrow> vn_opMulString n
   | OP_DIVIDE \<Rightarrow> vn_opDivString n | OP_SHOVEL_L \<Rightarrow> vn_opShovelLString n
   | OP_SHOVEL_R \<Rightarrow> vn_opShovelRString n | _ \<Rightarrow> NULL)"

text \<open>The row of the catch table of the running function.\<close>

definition getCatchTableRow :: "nat \<Rightarrow> catch_row vact" where
  "getCatchTableRow idx = vbnd currentChunk (\<lambda>func. vbnd (chunk_of func) (\<lambda>ck.
     vthe (if idx < length (ck_catchTbl ck) then Some (ck_catchTbl ck ! idx) else None)))"

end
