(* ===== verification/Clox_Step.thy ===== *)
theory Clox_Step
  imports Clox_Invoke
begin

unbundle bit_operations_syntax

text \<open>The instructions of the interpreter (vm_run in vm.c), one function for each group of cases.
  An activation is what one run of vm_run keeps in local variables: the frame, the function whose
  chunk it executes and the scope; besides, the place of the frame whose jump buffer the run has
  set.\<close>

record activation =
  ac_frame :: fptr
  ac_func :: addr
  ac_scope :: addr
  ac_home :: "(nat \<times> nat) option"

subsection \<open>Reading the code\<close>

definition READ_WORD :: "activation \<Rightarrow> u32 vact" where
  "READ_WORD a = vbnd (frame (ac_frame a)) (\<lambda>f. vbnd (chunk_of (ac_func a)) (\<lambda>ck.
     vthn (vassert (0 \<le> cf_ip f \<and> cf_ip f < int (length (ck_code ck))))
     (vthn (upd_frame (ac_frame a) (\<lambda>f. f\<lparr>cf_ip := cf_ip f + 1\<rparr>)) (vthe (ck_code ck ! nat (cf_ip f))))))"

definition READ_CONSTANT :: "activation \<Rightarrow> lxvalue vact" where
  "READ_CONSTANT a = vbnd (READ_WORD a) (\<lambda>w. vbnd (chunk_of (ac_func a)) (\<lambda>ck. vthe (getConstant ck (unat w))))"

definition READ_NAT :: "activation \<Rightarrow> nat vact" where
  "READ_NAT a = vbnd (READ_WORD a) (\<lambda>w. vret (unat w))"

text \<open>READ_NAME is a constant that is a string.\<close>

definition READ_NAME :: "activation \<Rightarrow> (addr \<times> bytes) vact" where
  "READ_NAME a = vbnd (READ_CONSTANT a) (\<lambda>v. vbnd (string_text (AS_OBJ v)) (\<lambda>t. vret (AS_OBJ v, t)))"

definition skip_by :: "activation \<Rightarrow> int \<Rightarrow> unit vact" where
  "skip_by a n = upd_frame (ac_frame a) (\<lambda>f. f\<lparr>cf_ip := cf_ip f + n\<rparr>)"

definition check_ints :: "vm_env \<Rightarrow> unit vact" where
  "check_ints env = vbnd (vget v_interrupted) (\<lambda>b. vwhen b (ve_ints env))"

subsection \<open>Arithmetic and comparison\<close>

text \<open>The two numbers of an operator; the remainder of a division by zero as integers is a trap of
  the machine.\<close>

definition number_op :: "fpu \<Rightarrow> opcode \<Rightarrow> u64 \<Rightarrow> u64 \<Rightarrow> u64 option" where
  "number_op fp code a b =
     (let ints = (\<lambda>f. fp_of_int fp (f (fp_to_int fp a) (fp_to_int fp b)))
      in case code of
        OP_ADD \<Rightarrow> Some (fp_add fp a b)
      | OP_SUBTRACT \<Rightarrow> Some (fp_sub fp a b)
      | OP_MULTIPLY \<Rightarrow> Some (fp_mul fp a b)
      | OP_DIVIDE \<Rightarrow> Some (fp_div fp a b)
      | OP_MODULO \<Rightarrow> map_option (fp_of_int fp) (c_rem (fp_to_int fp a) (fp_to_int fp b))
      | OP_BITOR \<Rightarrow> Some (ints (OR))
      | OP_BITAND \<Rightarrow> Some (ints (AND))
      | OP_BITXOR \<Rightarrow> Some (ints (XOR))
      | OP_SHOVEL_L \<Rightarrow> Some (ints (c_shl fp))
      | OP_SHOVEL_R \<Rightarrow> Some (ints (c_shr fp))
      | _ \<Rightarrow> None)"

definition op_text :: "opcode \<Rightarrow> bytes" where
  "op_text code = tx (case code of OP_ADD \<Rightarrow> ''+'' | OP_SUBTRACT \<Rightarrow> ''-'' | OP_MULTIPLY \<Rightarrow> ''*''
     | OP_DIVIDE \<Rightarrow> ''/'' | OP_MODULO \<Rightarrow> ''%'' | OP_BITOR \<Rightarrow> ''|'' | OP_BITAND \<Rightarrow> ''&''
     | OP_BITXOR \<Rightarrow> ''^'' | OP_SHOVEL_L \<Rightarrow> ''<<'' | OP_SHOVEL_R \<Rightarrow> ''>>'' | _ \<Rightarrow> '''')"

definition set_top :: "lxvalue \<Rightarrow> unit vact" where "set_top v = vm_pushSwap v"

text \<open>An operator whose method has no name follows the null pointer for its error message.\<close>

definition BINARY_OP :: "vm_env \<Rightarrow> opcode \<Rightarrow> unit vact" where
  "BINARY_OP env code =
     vbnd (vm_peek 0) (\<lambda>b. vbnd (vm_peek 1) (\<lambda>a. vbnd vheap (\<lambda>h.
     if IS_NUMBER a \<and> IS_NUMBER b
     then if code \<in> {OP_DIVIDE, OP_MODULO} \<and> is_zero (valueToNumber b)
          then throwErrorFmt env (lxErrClass (ve_cls env)) (tx ''Can'' @ [39] @ tx ''t divide by 0'')
          else vthn (vdrop vm_pop) (vbnd (vthe (number_op (ve_fpu env) code (valueToNumber a) (valueToNumber b)))
                 (\<lambda>w. set_top (numberToValue w)))
     else if IS_INSTANCE_LIKE h a
     then let name = methodNameForBinop env code
       in vbnd (if name = NULL then vret NULL else v_find_method env (AS_OBJ a) name) (\<lambda>callable.
            if callable = NULL
            then vbnd (vhdr (AS_OBJ a)) (\<lambda>i. vbnd (class_text (i_klass i)) (\<lambda>c. vbnd (string_text name) (\<lambda>n.
              throwErrorFmt env (lxNameErrClass (ve_cls env))
                (tx ''Method '' @ c @ tx ''#'' @ n @ tx '' not found for operation '' @ quoted (op_text code)))))
            else vdrop (ve_call env (OBJ_VAL callable) 1 True None))
     else vbnd (type_text a) (\<lambda>ta. vbnd (type_text b) (\<lambda>tb.
       throwErrorFmt env (lxTypeErrClass (ve_cls env))
         (tx ''Binary operation type error, op='' @ op_text code @ tx '', lhs='' @ ta @ tx '', rhs='' @ tb))))))"

definition op_negate :: "vm_env \<Rightarrow> unit vact" where
  "op_negate env = vbnd (vm_peek 0) (\<lambda>v.
     if IS_NUMBER v then set_top (numberToValue (valueToNumber v XOR SIGN_BIT))
     else vthn (vdrop vm_pop) (vbnd (type_text v) (\<lambda>t.
       throwErrorFmt env (lxTypeErrClass (ve_cls env)) (tx ''Can only negate numbers, type='' @ t))))"

definition op_compare :: "vm_env \<Rightarrow> bytes \<Rightarrow> (int \<Rightarrow> bool) \<Rightarrow> unit vact" where
  "op_compare env text test = vbnd vm_pop (\<lambda>rhs. vbnd (vm_peek 0) (\<lambda>lhs.
     vbnd (canCmpValues lhs rhs) (\<lambda>ok.
     if ok then vbnd (cmpValues env lhs rhs) (\<lambda>c. set_top (BOOL_VAL (test c)))
     else vthn (vdrop vm_pop) (vbnd (type_text lhs) (\<lambda>tl. vbnd (type_text rhs) (\<lambda>tr.
       throwErrorFmt env (lxTypeErrClass (ve_cls env))
         (tx ''Can only compare numbers and objects with '' @ quoted text @ tx '', lhs='' @ tl @ tx '', rhs='' @ tr)))))))"

definition op_equal :: "vm_env \<Rightarrow> bool \<Rightarrow> unit vact" where
  "op_equal env wanted = vbnd vm_pop (\<lambda>rhs. vbnd (vm_peek 0) (\<lambda>lhs.
     vbnd (isValueOpEqual env lhs rhs) (\<lambda>eq. set_top (BOOL_VAL (eq = wanted)))))"

definition op_not :: "unit vact" where
  "op_not = vbnd (vm_peek 0) (\<lambda>v. vbnd (truthy v) (\<lambda>t. set_top (BOOL_VAL (\<not> t))))"

text \<open>The left operand of && is true here, that of || was false unless it is skipped.\<close>

definition op_and :: "unit vact" where
  "op_and = vbnd vm_pop (\<lambda>rhs. vthn (vdrop (vm_peek 0)) (vbnd (truthy rhs) (\<lambda>t. set_top (if t then rhs else FALSE_VAL))))"

definition op_or :: "unit vact" where
  "op_or = vbnd vm_pop (\<lambda>rhs. vbnd (vm_peek 0) (\<lambda>lhs. vbnd (truthy lhs) (\<lambda>tl.
     vbnd (if tl then vret True else truthy rhs) (\<lambda>t. set_top (if t then rhs else lhs)))))"

subsection \<open>Variables\<close>

definition op_print :: "vm_env \<Rightarrow> unit vact" where
  "op_print env = vbnd vm_pop (\<lambda>v. vbnd (ve_show env v) (\<lambda>t.
     vmod (\<lambda>s. s\<lparr>v_output := v_output s @ [t]\<rparr>)))"

definition set_global :: "vm_env \<Rightarrow> addr \<Rightarrow> lxvalue \<Rightarrow> unit vact" where
  "set_global env name v = vbnd (vget v_globals) (\<lambda>t. vbnd (vtset env t (OBJ_VAL name) v) (\<lambda>t1.
     vmod (\<lambda>s. s\<lparr>v_globals := t1\<rparr>)))"

definition no_redefine :: "vm_env \<Rightarrow> bytes \<Rightarrow> 'a vact" where
  "no_redefine env text = throwErrorFmt env (lxNameErrClass (ve_cls env))
     (tx ''Can'' @ [39] @ tx ''t redefine global variable '' @ quoted text)"

definition op_define_global :: "vm_env \<Rightarrow> activation \<Rightarrow> unit vact" where
  "op_define_global env a = vbnd (READ_NAME a) (\<lambda>(name, text).
     if isUnredefinableGlobal text then vthn (vdrop vm_pop) (no_redefine env text)
     else vbnd (vm_peek 0) (\<lambda>v. vthn (set_global env name v) (vdrop vm_pop)))"

definition op_set_global :: "vm_env \<Rightarrow> activation \<Rightarrow> unit vact" where
  "op_set_global env a = vbnd (vm_peek 0) (\<lambda>v. vbnd (READ_NAME a) (\<lambda>(name, text).
     if isUnredefinableGlobal text then no_redefine env text else set_global env name v))"

definition op_get_global :: "vm_env \<Rightarrow> activation \<Rightarrow> unit vact" where
  "op_get_global env a = vbnd (READ_CONSTANT a) (\<lambda>name.
     vbnd EC (\<lambda>c. vbnd (vtget env (xc_roGlobals c) name) (\<lambda>ro.
     case ro of
       Some v \<Rightarrow> vbnd vheap (\<lambda>h. if isObjType h v OBJ_T_STRING
         then vbnd (vthe (get_string h v)) (\<lambda>b. vbnd (new_text env (str_bytes b)) (\<lambda>p. vm_push (OBJ_VAL p)))
         else vm_push v)
     | None \<Rightarrow> vbnd (vget v_globals) (\<lambda>g. vbnd (vtget env g name) (\<lambda>r.
       case r of
         Some v \<Rightarrow> vm_push v
       | None \<Rightarrow> vbnd (vget v_constants) (\<lambda>k. vbnd (vtget env k name) (\<lambda>r.
         case r of
           Some v \<Rightarrow> vm_push v
         | None \<Rightarrow> vbnd (string_text (AS_OBJ name)) (\<lambda>t.
             throwErrorFmt env (lxNameErrClass (ve_cls env))
               (tx ''Undefined global variable '' @ quoted t @ tx ''.'')))))))))"

definition op_unpack_define_global :: "vm_env \<Rightarrow> activation \<Rightarrow> unit vact" where
  "op_unpack_define_global env a = vbnd (READ_CONSTANT a) (\<lambda>name. vbnd (READ_NAT a) (\<lambda>idx.
     vbnd (peek_at 0) (\<lambda>v. vbnd (unpackValue env v idx) (\<lambda>x. set_global env (AS_OBJ name) x))))"

definition write_local :: "addr \<Rightarrow> nat \<Rightarrow> lxvalue \<Rightarrow> unit vact" where
  "write_local scope slot v = vbnd (scope_at scope) (\<lambda>(_, tbl). vthn (vassert (slot < length tbl))
     (upd_scope scope (\<lambda>n tbl. (n, tbl[slot := v]))))"

definition local_slot :: "activation \<Rightarrow> nat \<Rightarrow> slot vact" where
  "local_slot a n = vbnd (frame (ac_frame a)) (\<lambda>f. vret (cf_slots f + n))"

definition op_set_local :: "activation \<Rightarrow> unit vact" where
  "op_set_local a = vbnd (READ_NAT a) (\<lambda>n. vthn (vdrop (READ_WORD a))
     (vbnd (scope_at (ac_scope a)) (\<lambda>(size, _). vbnd (vm_peek 0) (\<lambda>v. vbnd (local_slot a n) (\<lambda>sl. vseqs [
       vwhen (n + 1 > size) (growLocalsTable (ac_scope a) (n + 1)),
       write_local (ac_scope a) n v,
       cell_write sl v])))))"

text \<open>Unpacking into a local variable whose slot is not reached yet fills the stack up to it.\<close>

definition op_unpack_set_local :: "vm_env \<Rightarrow> activation \<Rightarrow> unit vact" where
  "op_unpack_set_local env a = vbnd (READ_NAT a) (\<lambda>n. vbnd (READ_NAT a) (\<lambda>idx. vthn (vdrop (READ_WORD a))
     (vbnd (frame (ac_frame a)) (\<lambda>f. vbnd EC (\<lambda>c.
      let fill = cf_slots f + n + 1 - xc_stackTop c
      in vthn (vseqs (replicate fill (vm_push NIL_VAL)))
        (vbnd (peek_at (fill + idx)) (\<lambda>v. vbnd (unpackValue env v idx) (\<lambda>x. vseqs [
          cell_write (cf_slots f + n) x, write_local (cf_scope f) n x]))))))))"

definition op_get_local :: "activation \<Rightarrow> unit vact" where
  "op_get_local a = vbnd (READ_NAT a) (\<lambda>n. vthn (vdrop (READ_WORD a))
     (vbnd (scope_at (ac_scope a)) (\<lambda>(size, tbl).
      if size > n then vbnd (vthe (if n < length tbl then Some (tbl ! n) else None)) vm_push
      else vbnd (local_slot a n) (\<lambda>sl. vbnd (cell_read sl) vm_push))))"

definition frame_upvalue :: "activation \<Rightarrow> nat \<Rightarrow> addr vact" where
  "frame_upvalue a n = vbnd (frame (ac_frame a)) (\<lambda>f. vbnd (closure_at (cf_closure f)) (\<lambda>c.
     vthe (if n < length (cl_upvalues c) then Some (cl_upvalues c ! n) else None)))"

definition op_get_upvalue :: "activation \<Rightarrow> unit vact" where
  "op_get_upvalue a = vbnd (READ_NAT a) (\<lambda>n. vthn (vdrop (READ_WORD a))
     (vbnd (frame_upvalue a n) (\<lambda>p. vbnd (upvalue_get p) vm_push)))"

definition op_set_upvalue :: "activation \<Rightarrow> unit vact" where
  "op_set_upvalue a = vbnd (READ_NAT a) (\<lambda>n. vthn (vdrop (READ_WORD a))
     (vbnd (peek_at 0) (\<lambda>v. vbnd (frame_upvalue a n) (\<lambda>p. upvalue_set p v))))"

definition op_close_upvalue :: "unit vact" where
  "op_close_upvalue = vbnd (below_top 1) (\<lambda>sl. vthn (closeUpvalues sl) (vdrop vm_pop))"

text \<open>The class that is open, or the null pointer.\<close>

definition cref :: "addr vact" where
  "cref = vbnd (vget v_crefStack) (\<lambda>cs. vret (case cs of [] \<Rightarrow> NULL | c # _ \<Rightarrow> c))"

definition undefined_constant :: "vm_env \<Rightarrow> addr \<Rightarrow> lxvalue \<Rightarrow> 'a vact" where
  "undefined_constant env klass name = vbnd (string_text (AS_OBJ name)) (\<lambda>n.
     vbnd (if klass = NULL then vret [] else vbnd (class_text klass) (\<lambda>c. vret (c @ tx ''::''))) (\<lambda>owner.
     throwErrorFmt env (lxNameErrClass (ve_cls env)) (tx ''Undefined constant '' @ quoted (owner @ n) @ tx ''.'')))"

definition op_get_const :: "vm_env \<Rightarrow> activation \<Rightarrow> unit vact" where
  "op_get_const env a = vbnd (READ_CONSTANT a) (\<lambda>name. vbnd cref (\<lambda>k.
     vbnd (findConstantUnder env k (AS_OBJ name)) (\<lambda>r.
     case r of
       Some v \<Rightarrow> vm_push v
     | None \<Rightarrow> vbnd (vget v_autoloadTbl) (\<lambda>t. vbnd (vtget env t name) (\<lambda>path.
       case path of
         None \<Rightarrow> undefined_constant env k name
       | Some p \<Rightarrow> vbnd (vintern env (tx ''requireScript'')) (\<lambda>key. vbnd (vget v_globals) (\<lambda>g.
           vbnd (vtget env g (OBJ_VAL key)) (\<lambda>fn.
           vthn (vdrop (callFunctionValue env (case fn of Some f \<Rightarrow> f | None \<Rightarrow> NIL_VAL) [p]))
           (vbnd (findConstantUnder env k (AS_OBJ name)) (\<lambda>r.
            case r of Some v \<Rightarrow> vm_push v | None \<Rightarrow> undefined_constant env k name))))))))))"

definition op_get_const_under :: "vm_env \<Rightarrow> activation \<Rightarrow> unit vact" where
  "op_get_const_under env a = vbnd vm_pop (\<lambda>k. vbnd (READ_CONSTANT a) (\<lambda>name. vbnd vheap (\<lambda>h.
     if IS_NIL k
     then vbnd (vget v_constants) (\<lambda>t. vbnd (vtget env t name) (\<lambda>r.
       case r of Some v \<Rightarrow> vm_push v | None \<Rightarrow> undefined_constant env NULL name))
     else if \<not> (isObjType h k OBJ_T_CLASS \<or> isObjType h k OBJ_T_MODULE)
     then throwErrorFmt env (lxTypeErrClass (ve_cls env)) (tx ''Constants must be defined under classes/modules'')
     else vbnd (vinfo (AS_OBJ k)) (\<lambda>ci. vbnd (vtget env (ci_constants ci) name) (\<lambda>r.
       case r of Some v \<Rightarrow> vm_push v | None \<Rightarrow> undefined_constant env (AS_OBJ k) name)))))"

definition set_constant :: "vm_env \<Rightarrow> lxvalue \<Rightarrow> lxvalue \<Rightarrow> unit vact" where
  "set_constant env name v = vbnd (vget v_constants) (\<lambda>t. vbnd (vtset env t name v) (\<lambda>t1.
     vmod (\<lambda>s. s\<lparr>v_constants := t1\<rparr>)))"

definition op_set_const :: "vm_env \<Rightarrow> activation \<Rightarrow> unit vact" where
  "op_set_const env a = vbnd (READ_CONSTANT a) (\<lambda>name. vbnd (vm_peek 0) (\<lambda>v. vbnd (vget v_crefStack) (\<lambda>cs.
     case cs of
       [] \<Rightarrow> set_constant env name v
     | k # _ \<Rightarrow> vbnd (string_text (AS_OBJ name)) (\<lambda>t. addConstantUnder env t v k))))"

subsection \<open>Closures and jumps\<close>

definition set_closure_upvalue :: "addr \<Rightarrow> nat \<Rightarrow> addr \<Rightarrow> unit vact" where
  "set_closure_upvalue p i u = vmem_upd (set_body p (\<lambda>b. case b of
     BClosure c \<Rightarrow> BClosure (c\<lparr>cl_upvalues := (cl_upvalues c)[i := u]\<rparr>) | _ \<Rightarrow> b))"

definition op_capture :: "vm_env \<Rightarrow> activation \<Rightarrow> addr \<Rightarrow> nat \<Rightarrow> unit vact" where
  "op_capture env a p i = vbnd (READ_WORD a) (\<lambda>isLocal. vbnd (READ_NAT a) (\<lambda>index. vbnd top_frame (\<lambda>f.
     vbnd (if isLocal \<noteq> 0
           then vbnd (vget (\<lambda>s. v_inCCall s > 0)) (\<lambda>b.
             captureUpvalue ((ve_obj env)\<lparr>oe_inCCall := b\<rparr>) (cf_slots f + index))
           else vbnd (closure_at (cf_closure f)) (\<lambda>c.
             vthe (if index < length (cl_upvalues c) then Some (cl_upvalues c ! index) else None)))
       (set_closure_upvalue p i))))"

definition op_closure :: "vm_env \<Rightarrow> activation \<Rightarrow> unit vact" where
  "op_closure env a = vbnd (READ_CONSTANT a) (\<lambda>func. vbnd (is_type OBJ_T_FUNCTION func) (\<lambda>ok.
     vthn (vassert ok) (vbnd (new_closure env (AS_OBJ func) NEWOBJ_FLAG_NONE) (\<lambda>p.
     vthn (vm_push (OBJ_VAL p)) (vbnd (closure_at p) (\<lambda>c.
     vseqs (map (op_capture env a p) [0 ..< nat (cl_upvalueCount c)])))))))"

definition op_jump_if :: "vm_env \<Rightarrow> activation \<Rightarrow> bool \<Rightarrow> lxvalue vact \<Rightarrow> unit vact" where
  "op_jump_if env a wanted cond = vbnd cond (\<lambda>v. vbnd (READ_NAT a) (\<lambda>off. vbnd (truthy v) (\<lambda>t. vseqs [
     vwhen (t = wanted) (skip_by a (int off - 1)), check_ints env])))"

definition op_jump :: "vm_env \<Rightarrow> activation \<Rightarrow> unit vact" where
  "op_jump env a = vbnd (READ_NAT a) (\<lambda>off. vseqs [
     vassert (off > 0), skip_by a (int off - 1), check_ints env])"

definition op_loop :: "vm_env \<Rightarrow> activation \<Rightarrow> unit vact" where
  "op_loop env a = vbnd (READ_NAT a) (\<lambda>off. vseqs [
     vassert (off > 0), skip_by a (- int off - 2), check_ints env])"

definition op_break :: "vm_env \<Rightarrow> activation \<Rightarrow> unit vact" where
  "op_break env a = vbnd (READ_NAT a) (\<lambda>off. vthn (vassert (off > 0)) (vbnd (READ_NAT a) (\<lambda>numPops. vseqs [
     vseqs (replicate numPops (vdrop vm_pop)), skip_by a (int off - 3), check_ints env])))"

end
