(* ===== verification/Clox_Exec.thy ===== *)
theory Clox_Exec
  imports Clox_Step
begin

unbundle bit_operations_syntax

text \<open>The other instructions (vm_run in vm.c): calls, blocks, classes and methods, literals, errors,
  return, and the dispatch on the opcode.\<close>

datatype interpret_result = INTERPRET_OK | INTERPRET_UNINITIALIZED | INTERPRET_RUNTIME_ERROR

text \<open>An instruction goes on to the next or ends the run.\<close>

datatype step_result = Continue | Return interpret_result

subsection \<open>Blocks\<close>

text \<open>Errors for the control flow of blocks, with the value that the block returns.\<close>

definition block_error :: "vm_env \<Rightarrow> addr \<Rightarrow> lxvalue option \<Rightarrow> unit vact \<Rightarrow> 'a vact" where
  "block_error env klass val after = vbnd (newError env klass NIL_VAL) (\<lambda>err.
     vthn (case val of None \<Rightarrow> vskip
             | Some v \<Rightarrow> vbnd (vintern env (tx ''ret'')) (\<lambda>key. vsetProp env err key v))
     (vthn after (throwError env err)))"

definition last_value :: "lxvalue vact" where
  "last_value = vbnd (vget v_lastValue) (\<lambda>p. case p of None \<Rightarrow> vret NIL_VAL | Some a \<Rightarrow> cell_read a)"

definition op_block_break :: "vm_env \<Rightarrow> unit vact" where
  "op_block_break env = block_error env (lxBreakBlockErrClass (ve_cls env)) None vskip"

definition op_block_continue :: "vm_env \<Rightarrow> unit vact" where
  "op_block_continue env = vthn (vdrop (vintern env (tx ''ret''))) (vbnd last_value (\<lambda>v.
     block_error env (lxContinueBlockErrClass (ve_cls env)) (Some v) vskip))"

definition op_block_return :: "vm_env \<Rightarrow> unit vact" where
  "op_block_return env = vthn (vdrop (vintern env (tx ''ret''))) (vbnd (vm_peek 0) (\<lambda>v.
     block_error env (lxReturnBlockErrClass (ve_cls env)) (Some v) (vdrop vm_pop)))"

definition op_to_block :: "vm_env \<Rightarrow> unit vact" where
  "op_to_block env = vbnd (vm_peek 0) (\<lambda>func. vbnd vheap (\<lambda>h.
     if IS_NIL func then vskip
     else if isCallable h func then vbnd (newBlock env (AS_OBJ func)) vm_pushSwap
     else vthn (vdrop vm_pop)
       (throwErrorFmt env (lxTypeErrClass (ve_cls env)) (tx ''Cannot use '' @ quoted (tx ''&'') @ tx '' operator on a non-function''))))"

subsection \<open>Calls\<close>

text \<open>The number of arguments with those of a splat.\<close>

definition with_splat :: "u32 \<Rightarrow> nat vact" where
  "with_splat w = vbnd (vget v_lastSplatNumArgs) (\<lambda>n.
     if n \<ge> 0 then vthn (vmod (\<lambda>s. s\<lparr>v_lastSplatNumArgs := -1\<rparr>)) (vret (unat (w + word_of_int n - 1)))
     else vret (unat w))"

text \<open>The call site is the data of an internal object.\<close>

definition internal_site :: "lxvalue \<Rightarrow> nat vact" where
  "internal_site v = vbnd vheap (\<lambda>h. vthe (case map_option o_body (h (AS_OBJ v)) of
     Some (BInternal i) \<Rightarrow> Some (unat (in_data i)) | _ \<Rightarrow> None))"

definition op_call :: "vm_env \<Rightarrow> activation \<Rightarrow> unit vact" where
  "op_call env a = vbnd (READ_WORD a) (\<lambda>w. vbnd (with_splat w) (\<lambda>n. vbnd (vm_peek n) (\<lambda>callable.
     vbnd vheap (\<lambda>h.
     if \<not> isCallable h callable
     then vthn (vseqs (replicate n (vdrop vm_pop))) (vbnd (type_text callable) (\<lambda>t.
       throwErrorFmt env (lxTypeErrClass (ve_cls env)) (tx ''Tried to call uncallable object (type='' @ t @ tx '')'')))
     else vbnd (READ_CONSTANT a) (\<lambda>v. vbnd (internal_site v) (\<lambda>ci.
       vdrop (ve_call env callable n False (Some ci))))))))"

text \<open>methodMissing gets the name before the arguments.\<close>

definition insert_below :: "nat \<Rightarrow> lxvalue \<Rightarrow> unit vact" where
  "insert_below n v = vbnd (vmap (\<lambda>_. pop) [0 ..< n]) (\<lambda>vs. vseqs (map push (v # rev vs)))"

text \<open>The method, what it is called with and whether it is methodMissing; a getter is looked up when
  there are no arguments.\<close>

definition find_or_missing ::
    "vm_env \<Rightarrow> (addr \<Rightarrow> bool \<Rightarrow> addr vact) \<Rightarrow> addr \<Rightarrow> nat \<Rightarrow> (addr \<times> addr \<times> nat) vact" where
  "find_or_missing env look name n = vbnd (look name (n = 0)) (\<lambda>c.
     if c \<noteq> NULL then vret (c, name, n)
     else vthn (insert_below n (OBJ_VAL name)) (vbnd (vintern env (tx ''methodMissing'')) (\<lambda>missing.
       vbnd (look missing False) (\<lambda>c. vret (c, missing, n + 1)))))"

definition op_invoke :: "vm_env \<Rightarrow> activation \<Rightarrow> unit vact" where
  "op_invoke env a = vbnd (READ_CONSTANT a) (\<lambda>name. vbnd (READ_WORD a) (\<lambda>w.
     vbnd (READ_CONSTANT a) (\<lambda>v. vbnd (internal_site v) (\<lambda>ci. vbnd (with_splat w) (\<lambda>n.
     vbnd (vm_peek n) (\<lambda>inst. vbnd vheap (\<lambda>h.
     let p = AS_OBJ inst; isClass = isObjType h inst OBJ_T_CLASS
     in if isClass \<or> isObjType h inst OBJ_T_MODULE
     then vbnd (find_or_missing env (find_class_method env p) (AS_OBJ name) n) (\<lambda>(c, mname, n1).
       if c = NULL then method_not_found env (tx (if isClass then ''class'' else ''module'')) (class_text p) (tx ''.'') mname
       else vdrop (ve_call env (OBJ_VAL c) n1 True (Some ci)))
     else if IS_INSTANCE_LIKE h inst
     then vbnd (find_or_missing env (find_instance_method env p) (AS_OBJ name) n) (\<lambda>(c, mname, n1).
       if c = NULL then method_not_found env (tx ''instance'') (class_name_of p) (tx ''#'') mname
       else vdrop (ve_call env (OBJ_VAL c) n1 True (Some ci)))
     else vbnd (string_text (AS_OBJ name)) (\<lambda>t. vbnd (type_text inst) (\<lambda>ty.
       throwErrorFmt env (lxTypeErrClass (ve_cls env))
         (tx ''Tried to invoke method '' @ quoted t @ tx '' on non-instance (type='' @ ty @ tx '')''))))))))))"

definition op_check_keyword :: "activation \<Rightarrow> unit vact" where
  "op_check_keyword a = vbnd (vm_peek 0) (\<lambda>m. vbnd (is_type OBJ_T_MAP m) (\<lambda>ok. vthn (vassert ok)
     (vbnd (READ_NAT a) (\<lambda>slot. vthn (vdrop (READ_WORD a)) (vbnd top_frame (\<lambda>f.
      vbnd (cell_read (cf_slots f + slot)) (\<lambda>v. vm_push (BOOL_VAL (\<not> IS_UNDEF v)))))))))"

definition op_get_this :: "unit vact" where
  "op_get_this = vbnd (vget v_thisObj) (\<lambda>t. vm_push (if t = NULL then NIL_VAL else OBJ_VAL t))"

definition op_splat_array :: "vm_env \<Rightarrow> unit vact" where
  "op_splat_array env = vbnd vm_pop (\<lambda>v. vbnd (is_array env v) (\<lambda>ok.
     if \<not> ok then vbnd (type_text v) (\<lambda>t. throwErrorFmt env (lxTypeErrClass (ve_cls env))
       (tx ''Splatted expression must evaluate to an Array (type='' @ t @ tx '')''))
     else vbnd (arraySize v) (\<lambda>n. vthn (vmod (\<lambda>s. s\<lparr>v_lastSplatNumArgs := n\<rparr>))
       (vseqs (map (\<lambda>i. vbnd (arrayGet v i) vm_push) [0 ..< nat n])))))"

text \<open>super in a method of a module: the walk goes on from an included class to its module, and from
  there to the superclass of the module, which it has not.\<close>

definition iclass_step :: "heap \<Rightarrow> addr \<Rightarrow> addr \<Rightarrow> (addr \<times> addr) option" where
  "iclass_step h found k = Option.bind (class_info_at h k) (\<lambda>ci. let up = ci_superclass ci in
     map_option (\<lambda>ob. case o_body ob of BIClass ic \<Rightarrow> (up, ic_mod ic) | _ \<Rightarrow> (found, up)) (h up))"

partial_function (option) find_iclass :: "heap \<Rightarrow> addr \<Rightarrow> addr \<Rightarrow> addr \<Rightarrow> addr option" where
  "find_iclass h md found k =
     (if k = md then Some found
      else case iclass_step h found k of None \<Rightarrow> None | Some r \<Rightarrow> find_iclass h md (fst r) (snd r))"

declare find_iclass.simps [code]

definition op_get_super :: "vm_env \<Rightarrow> activation \<Rightarrow> unit vact" where
  "op_get_super env a = vbnd (READ_NAME a) (\<lambda>(name, text). vbnd (vget v_thisObj) (\<lambda>this. vbnd vheap (\<lambda>h.
     vthn (vassert (this \<noteq> NULL \<and> IS_INSTANCE_LIKE h (OBJ_VAL this)))
     (vbnd (frame (ac_frame a)) (\<lambda>f. vbnd (frame_function f) (\<lambda>func. vbnd (vfn func) (\<lambda>g.
      vthn (vassert (fn_klass g \<noteq> NULL))
     (vbnd (if isObjType h (OBJ_VAL (fn_klass g)) OBJ_T_MODULE
            then vbnd (vhdr this) (\<lambda>i. vthe (find_iclass h (fn_klass g) NULL (i_klass i)))
            else vret (fn_klass g)) (\<lambda>klass.
      vbnd (lookupMethod env this klass name (if fn_ftype g = FUN_TYPE_GETTER then ci_getters else ci_methods) False) (\<lambda>r.
      case r of
        None \<Rightarrow> throwErrorFmt env (lxErrClass (ve_cls env)) (tx ''Could not find method '' @ quoted text @ tx '' for '' @ quoted (tx ''super''))
      | Some m \<Rightarrow> vbnd (valloc env (\<lambda>oe. newBoundMethod oe this (AS_OBJ m) NEWOBJ_FLAG_NONE)) (\<lambda>b.
          vm_push (OBJ_VAL b))))))))))))"

text \<open>Return: with a block on the block stack it is an error that the caller of the block catches.\<close>

definition op_return :: "vm_env \<Rightarrow> step_result vact" where
  "op_return env = vbnd top_frame (\<lambda>f. vbnd (vget v_blockStack) (\<lambda>bs.
     if \<not> cf_isEval f \<and> bs \<noteq> []
     then vthn (vdrop (vintern env (tx ''ret''))) (vthn (vdrop vm_pop) (vbnd last_value (\<lambda>v.
       block_error env (lxContinueBlockErrClass (ve_cls env)) (Some v) vskip)))
     else vbnd vm_pop (\<lambda>result. vthn (vassert (\<not> cf_isCCall f))
       (let newTop = (if cf_isEval f then cf_slots f + 1 else cf_slots f)
        in vthn (vseqs [
             popFrame env,
             on_ctx (\<lambda>c. c\<lparr>xc_stackTop := newTop\<rparr>),
             vm_push result,
             vmod (\<lambda>s. s\<lparr>v_vmRunLvl := v_vmRunLvl s - 1\<rparr>)]) (vret (Return INTERPRET_OK))))))"

definition op_leave :: "vm_env \<Rightarrow> step_result vact" where
  "op_leave env = vbnd isInEval (\<lambda>ev. vbnd isInLoadedScript (\<lambda>ld. vthn (vseqs [
     vwhen (ve_mainThread env \<and> \<not> ev \<and> \<not> ld) (vmod (\<lambda>s. s\<lparr>v_exited := True\<rparr>)),
     vmod (\<lambda>s. s\<lparr>v_vmRunLvl := v_vmRunLvl s - 1\<rparr>)]) (vret (Return INTERPRET_OK))))"

subsection \<open>Iterators\<close>

definition op_iter :: "vm_env \<Rightarrow> unit vact" where
  "op_iter env = vbnd (vm_peek 0) (\<lambda>v. vbnd (isIterableType env v) (\<lambda>ok.
     if ok then vbnd (createIterator env v) vm_pushSwap
     else vbnd (type_text v) (\<lambda>t. throwErrorFmt env (lxTypeErrClass (ve_cls env))
       (tx ''Non-iterable value given to '' @ quoted (tx ''foreach'') @ tx '' statement. Type found: '' @ t))))"

definition op_iter_next :: "vm_env \<Rightarrow> unit vact" where
  "op_iter_next env = vbnd (vm_peek 0) (\<lambda>v. vbnd (isIterator env v) (\<lambda>ok. vthn (vassert ok)
     (vbnd (ve_iteratorNext env v) (\<lambda>x. vthn (vassert (\<not> IS_UNDEF x)) (vm_push x)))))"

subsection \<open>Classes and modules\<close>

text \<open>The class or module around, and its constants or the global ones.\<close>

definition owner_constant :: "vm_env \<Rightarrow> lxvalue \<Rightarrow> (addr \<times> lxvalue option) vact" where
  "owner_constant env name = vbnd cref (\<lambda>k.
     vbnd (if k = NULL then vget v_constants else vbnd (vinfo k) (\<lambda>ci. vret (ci_constants ci))) (\<lambda>t.
     vbnd (vtget env t name) (\<lambda>r. vret (k, r))))"

definition bind_constant :: "vm_env \<Rightarrow> addr \<Rightarrow> lxvalue \<Rightarrow> bytes vact \<Rightarrow> addr \<Rightarrow> unit vact" where
  "bind_constant env owner name text klass =
     (if owner = NULL then set_constant env name (OBJ_VAL klass)
      else vbnd text (\<lambda>t. vthn (addConstantUnder env t (OBJ_VAL klass) owner)
        (vmem_upd (set_body klass (on_info (\<lambda>c. c\<lparr>ci_under := owner\<rparr>))))))"

definition open_class :: "addr \<Rightarrow> unit vact" where
  "open_class p = vseqs [vm_push (OBJ_VAL p), setThis 0, pushCref p]"

definition existing_is :: "obj_type \<Rightarrow> lxvalue option \<Rightarrow> bool vact" where
  "existing_is ty r = (case r of None \<Rightarrow> vret False | Some v \<Rightarrow> is_type ty v)"

definition op_class :: "vm_env \<Rightarrow> activation \<Rightarrow> unit vact" where
  "op_class env a = vbnd (READ_NAME a) (\<lambda>(name, text). vbnd (owner_constant env (OBJ_VAL name)) (\<lambda>(owner, r).
     vbnd (existing_is OBJ_T_CLASS r) (\<lambda>isC. vbnd (existing_is OBJ_T_MODULE r) (\<lambda>isM.
     if isC then open_class (AS_OBJ (the r))
     else if isM then throwErrorFmt env (lxTypeErrClass (ve_cls env))
       (tx ''Tried to define class '' @ text @ tx '', but it'' @ [39] @ tx ''s a module'')
     else vbnd (valloc env (\<lambda>oe. newClass oe name (lxObjClass (oe_classes oe)) NEWOBJ_FLAG_OLD)) (\<lambda>k. vseqs [
       vm_push (OBJ_VAL k), setThis 0,
       bind_constant env owner (OBJ_VAL name) (class_text k) k,
       pushCref k])))))"

definition op_module :: "vm_env \<Rightarrow> activation \<Rightarrow> unit vact" where
  "op_module env a = vbnd (READ_NAME a) (\<lambda>(name, text). vbnd (owner_constant env (OBJ_VAL name)) (\<lambda>(owner, r).
     vbnd (existing_is OBJ_T_MODULE r) (\<lambda>isM. vbnd (existing_is OBJ_T_CLASS r) (\<lambda>isC.
     if isM then open_class (AS_OBJ (the r))
     else if isC then throwErrorFmt env (lxTypeErrClass (ve_cls env))
       (tx ''Tried to define module '' @ text @ tx '', but it'' @ [39] @ tx ''s a class'')
     else vbnd (valloc env (\<lambda>oe. newModule oe name NEWOBJ_FLAG_OLD)) (\<lambda>k. vseqs [
       vm_push (OBJ_VAL k), setThis 0,
       bind_constant env owner (OBJ_VAL name) (class_text k) k,
       pushCref k])))))"

definition op_subclass :: "vm_env \<Rightarrow> activation \<Rightarrow> unit vact" where
  "op_subclass env a = vbnd (READ_NAME a) (\<lambda>(name, text). vbnd vm_pop (\<lambda>super. vbnd (is_type OBJ_T_CLASS super) (\<lambda>ok.
     if \<not> ok then throwErrorFmt env (lxTypeErrClass (ve_cls env)) (tx ''Class '' @ text @ tx '' tried to inherit from non-class'')
     else vbnd (owner_constant env (OBJ_VAL name)) (\<lambda>(owner, r).
     vbnd (existing_is OBJ_T_CLASS r) (\<lambda>isC. vbnd (existing_is OBJ_T_MODULE r) (\<lambda>isM.
     if isC then throwErrorFmt env (lxNameErrClass (ve_cls env))
       (tx ''Class '' @ text @ tx '' already exists (if re-opening class, no superclass should be given)'')
     else if isM then throwErrorFmt env (lxTypeErrClass (ve_cls env))
       (tx ''Tried to define class '' @ text @ tx '', but it'' @ [39] @ tx ''s a module'')
     else vbnd (valloc env (\<lambda>oe. newClass oe name (AS_OBJ super) NEWOBJ_FLAG_OLD)) (\<lambda>k. vseqs [
       bind_constant env owner (OBJ_VAL name) (string_text name) k,
       open_class k])))))))"

definition op_in :: "vm_env \<Rightarrow> unit vact" where
  "op_in env = vbnd vm_pop (\<lambda>v. vbnd vheap (\<lambda>h. vthn
     (if isObjType h v OBJ_T_CLASS \<or> isObjType h v OBJ_T_MODULE then vm_push v
      else if \<not> isObjType h v OBJ_T_INSTANCE
      then vbnd (type_text v) (\<lambda>t. throwErrorFmt env (lxTypeErrClass (ve_cls env))
        (tx ''Expression given to '' @ quoted (tx ''in'') @ tx '' statement must evaluate to a class/module/instance (type='' @ t @ tx '')''))
      else vbnd (v_singleton env instanceSingletonClass (AS_OBJ v)) (\<lambda>k. vm_push (OBJ_VAL k)))
     (setThis 0)))"

definition op_pop_cref :: "unit vact" where
  "op_pop_cref = vseqs [popCref, vdrop vm_pop, popThis]"

definition op_method :: "vm_env \<Rightarrow> activation \<Rightarrow> unit vact" where
  "op_method env a = vbnd (READ_CONSTANT a) (\<lambda>name. vbnd class_and_closure (\<lambda>(k, method, c). vseqs [
     defineMethod env k (AS_OBJ name) method, vdrop pop]))"

definition op_with_name :: "activation \<Rightarrow> (addr \<Rightarrow> unit vact) \<Rightarrow> unit vact" where
  "op_with_name a f = vbnd (READ_CONSTANT a) (\<lambda>name. f (AS_OBJ name))"

subsection \<open>Properties and indexes\<close>

definition op_prop_get :: "vm_env \<Rightarrow> activation \<Rightarrow> unit vact" where
  "op_prop_get env a = vbnd (READ_NAME a) (\<lambda>(name, text). vbnd (vm_peek 0) (\<lambda>v. vbnd (instance_like_value v) (\<lambda>il.
     if il then vbnd (propertyGet env (AS_OBJ v) name) vm_pushSwap
     else vthn (vdrop vm_pop) (vbnd (type_text v) (\<lambda>t. throwErrorFmt env (lxTypeErrClass (ve_cls env))
       (tx ''Tried to access property '' @ quoted text @ tx '' of non-instance (type: '' @ t @ tx '')''))))))"

definition op_prop_set :: "vm_env \<Rightarrow> activation \<Rightarrow> unit vact" where
  "op_prop_set env a = vbnd (READ_NAME a) (\<lambda>(name, text). vbnd (vm_peek 0) (\<lambda>rval. vbnd (vm_peek 1) (\<lambda>v.
     vbnd (instance_like_value v) (\<lambda>il.
     if il then vseqs [propertySet env (AS_OBJ v) name rval, vdrop vm_pop, vm_pushSwap rval]
     else vthn (vm_popN 2) (throwErrorFmt env (lxTypeErrClass (ve_cls env))
       (tx ''Tried to set property '' @ quoted text @ tx '' of non-instance''))))))"

definition op_index :: "vm_env \<Rightarrow> nat \<Rightarrow> addr \<Rightarrow> bytes \<Rightarrow> unit vact" where
  "op_index env n name text = vbnd (vm_peek n) (\<lambda>v. vbnd (instance_like_value v) (\<lambda>il.
     if il then vbnd (v_find_or_raise env (AS_OBJ v) name) (\<lambda>m. vdrop (ve_call env (OBJ_VAL m) n True None))
     else vbnd (type_text v) (\<lambda>t. throwErrorFmt env (lxTypeErrClass (ve_cls env))
       (tx ''Cannot call '' @ text @ tx '' on a non-instance, found a: '' @ t))))"

subsection \<open>Errors\<close>

definition op_throw :: "vm_env \<Rightarrow> unit vact" where
  "op_throw env = vbnd vm_pop (\<lambda>v. vbnd (is_type OBJ_T_STRING v) (\<lambda>str.
     vbnd (if str then newError env (lxErrClass (ve_cls env)) v else vret v) (\<lambda>e.
     vbnd (v_is_a e (lxErrClass (ve_cls env))) (\<lambda>ok.
     if ok then throwError env e
     else vbnd (type_text e) (\<lambda>t. throwErrorFmt env (lxTypeErrClass (ve_cls env))
       (tx ''Tried to throw unthrowable value, must be a subclass of Error. Type found: '' @ t))))))"

definition row_index :: "vm_env \<Rightarrow> activation \<Rightarrow> nat vact" where
  "row_index env a = vbnd (READ_CONSTANT a) (\<lambda>v. vthn (vassert (IS_NUMBER v))
     (vret (nat (sint (fp_to_int (ve_fpu env) (valueToNumber v))))))"

definition op_get_thrown :: "vm_env \<Rightarrow> activation \<Rightarrow> unit vact" where
  "op_get_thrown env a = vbnd (row_index env a) (\<lambda>i. vbnd (getCatchTableRow i) (\<lambda>r.
     vbnd (v_is_a (ct_lastThrownValue r) (lxErrClass (ve_cls env))) (\<lambda>ok.
     vthn (vassert ok) (vm_push (ct_lastThrownValue r)))))"

definition op_rethrow_if_err :: "vm_env \<Rightarrow> activation \<Rightarrow> unit vact" where
  "op_rethrow_if_err env a = vbnd (row_index env a) (\<lambda>i. vbnd (getCatchTableRow i) (\<lambda>r.
     vbnd (vget v_lastErrorThrown) (\<lambda>e.
     if ct_isEnsureRunning r \<and> \<not> IS_NIL e then throwError env e else vskip)))"

subsection \<open>Literals\<close>

definition freeze_top :: "unit vact" where
  "freeze_top = vbnd (peek_at 0) (\<lambda>v. vseqs [
     vmem_upd (on_gc (on_obj (AS_OBJ v) objFreeze)), vmem_upd (obj_set_flag (AS_OBJ v) OBJ_FLAG_USER1)])"

definition op_string :: "vm_env \<Rightarrow> activation \<Rightarrow> unit vact" where
  "op_string env a = vbnd (READ_CONSTANT a) (\<lambda>lit. vbnd (READ_WORD a) (\<lambda>isStatic. vseqs [
     vm_push (OBJ_VAL (lxStringClass (oe_classes (ve_obj env)))),
     vwhen (isStatic \<noteq> 0) (vmem_upd (obj_set_flag (AS_OBJ lit) OBJ_FLAG_USER1)),
     vm_push lit,
     vbnd (peek_at 1) (\<lambda>k. vdrop (ve_call env k 1 False None)),
     vwhen (isStatic = 1) freeze_top]))"

definition array_take :: "lxvalue \<Rightarrow> unit vact" where
  "array_take ary = vbnd vm_pop (\<lambda>el. vseqs [
     set_array ary (\<lambda>b. writeValueArrayEnd b el), vmem_upd (on_gc (objWrite ary el))])"

definition op_array :: "vm_env \<Rightarrow> activation \<Rightarrow> unit vact" where
  "op_array env a = vbnd (READ_NAT a) (\<lambda>n. vbnd (newArray env) (\<lambda>ary. vseqs [
     hide (AS_OBJ ary), vseqs (replicate n (array_take ary)), vm_push ary, unhide (AS_OBJ ary)]))"

definition op_duparray :: "vm_env \<Rightarrow> activation \<Rightarrow> unit vact" where
  "op_duparray env a = vbnd (READ_CONSTANT a) (\<lambda>ary. vthn
     (vmem_upd (set_body (AS_OBJ ary) (on_hdr (\<lambda>i. i\<lparr>i_klass := lxAryClass (oe_classes (ve_obj env))\<rparr>))))
     (vbnd (arrayDup env ary) vm_push))"

definition map_take :: "vm_env \<Rightarrow> lxvalue \<Rightarrow> unit vact" where
  "map_take env mp = vbnd vm_pop (\<lambda>k. vbnd vm_pop (\<lambda>v. map_put env mp k v))"

definition op_map :: "vm_env \<Rightarrow> activation \<Rightarrow> unit vact" where
  "op_map env a = vbnd (READ_NAT a) (\<lambda>n. vbnd (newMap env) (\<lambda>mp. vseqs [
     hide (AS_OBJ mp), vseqs (replicate ((n + 1) div 2) (map_take env mp)), vm_push mp, unhide (AS_OBJ mp)]))"

definition op_regex :: "vm_env \<Rightarrow> activation \<Rightarrow> unit vact" where
  "op_regex env a = vbnd (READ_CONSTANT a) (\<lambda>str. vbnd (vget v_regexLiterals) (\<lambda>t. vbnd (vtget env t str) (\<lambda>r.
     case r of
       Some re \<Rightarrow> vm_push re
     | None \<Rightarrow> vbnd (compileRegex env (AS_OBJ str)) (\<lambda>re. vthn (vseqs [
         vmem_upd (GC_OLD (AS_OBJ re)), vmem_upd (on_gc (on_obj (AS_OBJ re) objFreeze))])
         (vbnd (vget v_regexLiterals) (\<lambda>t. vbnd (vtset env t str re) (\<lambda>t1. vseqs [
           vmod (\<lambda>s. s\<lparr>v_regexLiterals := t1\<rparr>), vm_push re])))))))"

subsection \<open>Dispatch\<close>

text \<open>All instructions but return and leave. A word that is no opcode jumps out of the table.\<close>

definition exec_plain :: "vm_env \<Rightarrow> activation \<Rightarrow> opcode \<Rightarrow> unit vact" where
  "exec_plain env a code = (case code of
     OP_CONSTANT \<Rightarrow> vbnd (READ_CONSTANT a) vm_push
   | OP_NEGATE \<Rightarrow> op_negate env
   | OP_LESS \<Rightarrow> op_compare env (tx ''<'') (\<lambda>c. c < 0)
   | OP_GREATER \<Rightarrow> op_compare env (tx ''>'') (\<lambda>c. c > 0)
   | OP_GREATER_EQUAL \<Rightarrow> op_compare env (tx ''>='') (\<lambda>c. c \<ge> 0)
   | OP_LESS_EQUAL \<Rightarrow> op_compare env (tx ''<='') (\<lambda>c. c \<le> 0)
   | OP_EQUAL \<Rightarrow> op_equal env True
   | OP_NOT_EQUAL \<Rightarrow> op_equal env False
   | OP_NOT \<Rightarrow> op_not
   | OP_PRINT \<Rightarrow> op_print env
   | OP_DEFINE_GLOBAL \<Rightarrow> op_define_global env a
   | OP_GET_GLOBAL \<Rightarrow> op_get_global env a
   | OP_UNPACK_DEFINE_GLOBAL \<Rightarrow> op_unpack_define_global env a
   | OP_SET_GLOBAL \<Rightarrow> op_set_global env a
   | OP_NIL \<Rightarrow> vm_push NIL_VAL
   | OP_TRUE \<Rightarrow> vm_push TRUE_VAL
   | OP_FALSE \<Rightarrow> vm_push FALSE_VAL
   | OP_AND \<Rightarrow> op_and
   | OP_OR \<Rightarrow> op_or
   | OP_POP \<Rightarrow> vdrop vm_pop
   | OP_POP_DEBUG \<Rightarrow> vthn (vdrop (READ_CONSTANT a)) (vdrop vm_pop)
   | OP_POP_CREF \<Rightarrow> op_pop_cref
   | OP_POP_N \<Rightarrow> vbnd (READ_NAT a) vm_popN
   | OP_SET_LOCAL \<Rightarrow> op_set_local a
   | OP_UNPACK_SET_LOCAL \<Rightarrow> op_unpack_set_local env a
   | OP_GET_LOCAL \<Rightarrow> op_get_local a
   | OP_GET_UPVALUE \<Rightarrow> op_get_upvalue a
   | OP_SET_UPVALUE \<Rightarrow> op_set_upvalue a
   | OP_CLOSE_UPVALUE \<Rightarrow> op_close_upvalue
   | OP_GET_CONST \<Rightarrow> op_get_const env a
   | OP_GET_CONST_UNDER \<Rightarrow> op_get_const_under env a
   | OP_SET_CONST \<Rightarrow> op_set_const env a
   | OP_CLOSURE \<Rightarrow> op_closure env a
   | OP_JUMP_IF_FALSE \<Rightarrow> op_jump_if env a False vm_pop
   | OP_JUMP_IF_TRUE \<Rightarrow> op_jump_if env a True vm_pop
   | OP_JUMP_IF_FALSE_PEEK \<Rightarrow> op_jump_if env a False (vm_peek 0)
   | OP_JUMP_IF_TRUE_PEEK \<Rightarrow> op_jump_if env a True (vm_peek 0)
   | OP_JUMP \<Rightarrow> op_jump env a
   | OP_LOOP \<Rightarrow> op_loop env a
   | OP_BREAK \<Rightarrow> op_break env a
   | OP_BLOCK_BREAK \<Rightarrow> op_block_break env
   | OP_BLOCK_CONTINUE \<Rightarrow> op_block_continue env
   | OP_BLOCK_RETURN \<Rightarrow> op_block_return env
   | OP_TO_BLOCK \<Rightarrow> op_to_block env
   | OP_CALL \<Rightarrow> op_call env a
   | OP_CHECK_KEYWORD \<Rightarrow> op_check_keyword a
   | OP_INVOKE \<Rightarrow> op_invoke env a
   | OP_GET_THIS \<Rightarrow> op_get_this
   | OP_SPLAT_ARRAY \<Rightarrow> op_splat_array env
   | OP_GET_SUPER \<Rightarrow> op_get_super env a
   | OP_ITER \<Rightarrow> op_iter env
   | OP_ITER_NEXT \<Rightarrow> op_iter_next env
   | OP_CLASS \<Rightarrow> op_class env a
   | OP_MODULE \<Rightarrow> op_module env a
   | OP_SUBCLASS \<Rightarrow> op_subclass env a
   | OP_IN \<Rightarrow> op_in env
   | OP_METHOD \<Rightarrow> op_method env a
   | OP_CLASS_METHOD \<Rightarrow> op_with_name a (defineStaticMethod env)
   | OP_GETTER \<Rightarrow> op_with_name a (defineGetter env)
   | OP_SETTER \<Rightarrow> op_with_name a (defineSetter env)
   | OP_PROP_GET \<Rightarrow> op_prop_get env a
   | OP_PROP_SET \<Rightarrow> op_prop_set env a
   | OP_INDEX_GET \<Rightarrow> op_index env 1 (vn_opIndexGetString (ve_names env)) (tx ''opIndexGet ('' @ quoted (tx ''[]'') @ tx '')'')
   | OP_INDEX_SET \<Rightarrow> op_index env 2 (vn_opIndexSetString (ve_names env)) (tx ''opIndexSet ('' @ quoted (tx ''[]='') @ tx '')'')
   | OP_THROW \<Rightarrow> op_throw env
   | OP_GET_THROWN \<Rightarrow> op_get_thrown env a
   | OP_RETHROW_IF_ERR \<Rightarrow> op_rethrow_if_err env a
   | OP_STRING \<Rightarrow> op_string env a
   | OP_ARRAY \<Rightarrow> op_array env a
   | OP_DUPARRAY \<Rightarrow> op_duparray env a
   | OP_MAP \<Rightarrow> op_map env a
   | OP_DUPMAP \<Rightarrow> vbnd (READ_CONSTANT a) (\<lambda>mp. vbnd (mapDup env mp) vm_push)
   | OP_REGEX \<Rightarrow> op_regex env a
   | OP_WORD w \<Rightarrow> fails
   | OP_RETURN \<Rightarrow> fails
   | OP_LEAVE \<Rightarrow> fails
   | _ \<Rightarrow> BINARY_OP env code)"

definition exec :: "vm_env \<Rightarrow> activation \<Rightarrow> opcode \<Rightarrow> step_result vact" where
  "exec env a code = (case code of
     OP_RETURN \<Rightarrow> op_return env
   | OP_LEAVE \<Rightarrow> op_leave env
   | _ \<Rightarrow> vthn (exec_plain env a code) (vret Continue))"

end
