(* ===== verification/Clox_Run.thy ===== *)
theory Clox_Run
  imports Clox_Exec
begin

text \<open>The interpreter loop (vm.c): one step, vm_run with the recursion between the loop and calls,
  interpret and the loading of scripts. Calls and steps take fuel; JFuel says that it ran out.\<close>

subsection \<open>One step\<close>

text \<open>The head of the loop: switching threads, the end of the program and the line number. The
  debugger is not entered.\<close>

definition tick :: "vm_env \<Rightarrow> unit vact" where
  "tick env = vbnd (vget v_opsRemaining) (\<lambda>n.
     if n - 1 \<le> 0
     then vthn (vmod (\<lambda>s. s\<lparr>v_opsRemaining := THREAD_OPS_UNTIL_SWITCH\<rparr>)) (vwhen (\<not> ve_onlyThread env) (ve_switch env))
     else vmod (\<lambda>s. s\<lparr>v_opsRemaining := n - 1\<rparr>))"

definition leave_run :: "interpret_result \<Rightarrow> step_result vact" where
  "leave_run r = vthn (vmod (\<lambda>s. s\<lparr>v_vmRunLvl := v_vmRunLvl s - 1\<rparr>)) (vret (Return r))"

definition note_line :: "activation \<Rightarrow> unit vact" where
  "note_line a = vbnd EC (\<lambda>c. vthn (vassert (xc_stackTop c \<ge> xc_stack c))
     (vbnd (frame (ac_frame a)) (\<lambda>f. vbnd (chunk_of (ac_func a)) (\<lambda>ck.
      vthn (vassert (0 \<le> cf_ip f \<and> cf_ip f < int (length (ck_lines ck))))
     (vbnd (vthe (ck_lines ck ! nat (cf_ip f))) (\<lambda>l. vmod (\<lambda>s. s\<lparr>v_curLine := l\<rparr>)))))))"

definition step :: "vm_env \<Rightarrow> activation \<Rightarrow> step_result vact" where
  "step env a = vthn (tick env) (vbnd (vget v_hadError) (\<lambda>err. vbnd (vget v_exited) (\<lambda>ex.
     if err then leave_run INTERPRET_RUNTIME_ERROR
     else if ex then leave_run INTERPRET_OK
     else vthn (note_line a) (vbnd (READ_WORD a) (\<lambda>w. exec env a (opcode_of w))))))"

subsection \<open>vm_run\<close>

text \<open>With a catch table the jump buffer of the frame is set.\<close>

definition enter_run :: "activation vact" where
  "enter_run = vbnd currentChunk (\<lambda>func. vbnd getFrame (\<lambda>p. vbnd (frame p) (\<lambda>f. vbnd (chunk_of func) (\<lambda>ck.
     vbnd (vget v_ecs) (\<lambda>ecs. vbnd EC (\<lambda>c.
     let catches = ck_catchTbl ck \<noteq> []
     in vthn (vseqs [
          vmod (\<lambda>s. s\<lparr>v_vmRunLvl := v_vmRunLvl s + 1\<rparr>),
          vwhen catches (upd_frame p (\<lambda>f. f\<lparr>cf_jmpBufSet := True\<rparr>))])
        (vret \<lparr>ac_frame = p, ac_func = func, ac_scope = cf_scope f,
           ac_home = (if catches then Some (length ecs - 1, length (xc_frames c) - 1) else None)\<rparr>)))))))"

definition caught_by :: "activation \<Rightarrow> jump \<Rightarrow> bool" where
  "caught_by a j \<longleftrightarrow> (case j of JFrame e i \<Rightarrow> ac_home a = Some (e, i) | _ \<Rightarrow> False)"

text \<open>After the longjmp the chunk and the frame are read again, the scope is not.\<close>

definition resume_run :: "activation \<Rightarrow> activation vact" where
  "resume_run a = vthn (vmod (\<lambda>s. s\<lparr>v_hadError := False\<rparr>))
     (vbnd currentChunk (\<lambda>func. vbnd getFrame (\<lambda>p. vret (a\<lparr>ac_frame := p, ac_func := func\<rparr>))))"

fun vm_steps :: "nat \<Rightarrow> vm_env \<Rightarrow> activation \<Rightarrow> interpret_result vact"
  and do_call :: "nat \<Rightarrow> vm_env \<Rightarrow> vm_call" where
  "vm_steps 0 env a = jump JFuel"
| "vm_steps (Suc n) env a = bnd (step (env\<lparr>ve_call := callCallable (do_call n env)\<rparr>) a) (\<lambda>r.
     case r of
       Inr Continue \<Rightarrow> vm_steps n env a
     | Inr (Return x) \<Rightarrow> vret x
     | Inl j \<Rightarrow> if caught_by a j then vbnd (resume_run a) (vm_steps n env) else jump j)"
| "do_call 0 env = (\<lambda>callable argCount isMethod cinfo. jump JFuel)"
| "do_call (Suc n) env = doCallCallable (env\<lparr>ve_call := callCallable (do_call n env)\<rparr>) (do_call n env)
     (vdrop (vbnd enter_run (vm_steps n env)))"

definition vm_run :: "nat \<Rightarrow> vm_env \<Rightarrow> interpret_result vact" where
  "vm_run n env = vbnd enter_run (vm_steps n env)"

definition calling :: "nat \<Rightarrow> vm_env \<Rightarrow> vm_env" where
  "calling n env = env\<lparr>ve_call := callCallable (do_call n env)\<rparr>"

subsection \<open>interpret and loadScript\<close>

text \<open>showUncaughtError, apart from what it prints.\<close>

definition showUncaughtError :: "vm_env \<Rightarrow> lxvalue \<Rightarrow> unit vact" where
  "showUncaughtError env err =
     vbnd (vintern env (tx ''message'')) (\<lambda>mk. vthn (vdrop (vgetProp env err mk))
     (vbnd (vintern env (tx ''backtrace'')) (\<lambda>key. vbnd (vgetProp env err key) (\<lambda>bt. vseqs [
       vassert (\<not> IS_NIL bt), vmod (\<lambda>s. s\<lparr>v_hadError := True\<rparr>), resetStack]))))"

definition vm_run0 :: "nat \<Rightarrow> vm_env \<Rightarrow> interpret_result vact" where
  "vm_run0 n env = vbnd (vget v_rootBufSet) (\<lambda>root. vbnd (vget v_vmRunLvl) (\<lambda>lvl.
     if root then vm_run n env
     else vthn (vassert (lvl = 0)) (vthn (vmod (\<lambda>s. s\<lparr>v_rootBufSet := True\<rparr>)) (bnd (vm_run n env) (\<lambda>r.
       case r of
         Inl JRoot \<Rightarrow> vbnd (vget v_lastErrorThrown) (\<lambda>e.
           vthn (showUncaughtError (calling n env) e) (vret INTERPRET_RUNTIME_ERROR))
       | x \<Rightarrow> yields x)))))"

definition old_text :: "vm_env \<Rightarrow> bytes \<Rightarrow> addr vact" where
  "old_text env text = valloc env (\<lambda>oe. allocateString oe (copyString text) (lxStringClass (oe_classes oe)) NEWOBJ_FLAG_OLD)"

definition path_sep :: u8 where "path_sep = of_char CHR ''/''"

text \<open>The text before the last separator.\<close>

definition directory_of :: "bytes \<Rightarrow> bytes" where
  "directory_of path = rev (drop 1 (dropWhile (\<lambda>c. c \<noteq> path_sep) (rev path)))"

definition set_hidden_global :: "vm_env \<Rightarrow> addr \<Rightarrow> bytes \<Rightarrow> unit vact" where
  "set_hidden_global env name text = vbnd (old_text env text) (\<lambda>p. vseqs [
     hide p, set_roGlobal env name (OBJ_VAL p), unhide p])"

definition setupPerScriptROGlobals :: "vm_env \<Rightarrow> bytes \<Rightarrow> unit vact" where
  "setupPerScriptROGlobals env filename = (let names = ve_names env in vseqs [
     set_hidden_global env (vn_fileString names) filename,
     set_roGlobal env (vn_funcString names) (OBJ_VAL (vn_mainString names)),
     (if filename \<noteq> [] \<and> hd filename = path_sep
      then set_hidden_global env (vn_dirString names) (directory_of filename)
      else set_roGlobal env (vn_dirString names) NIL_VAL)])"

text \<open>The first frame of a script.\<close>

definition script_frame :: "vm_env \<Rightarrow> addr \<Rightarrow> bytes \<Rightarrow> unit vact" where
  "script_frame env func filename =
     vbnd (old_text env filename) (\<lambda>file. vthn (on_ctx (\<lambda>c. c\<lparr>xc_filename := file, xc_frames := []\<rparr>))
     (vbnd (pushFrame env func) (\<lambda>p. vbnd EC (\<lambda>c. vbnd (new_closure env func NEWOBJ_FLAG_OLD) (\<lambda>clos. vseqs [
       upd_frame p (\<lambda>f. f\<lparr>cf_start := 0, cf_ip := 0, cf_slots := xc_stack c, cf_closure := clos,
         cf_isCCall := False, cf_nativeFunc := NULL\<rparr>),
       unhide func,
       setupPerScriptROGlobals env filename])))))"

definition vm_interpret :: "nat \<Rightarrow> vm_env \<Rightarrow> addr \<Rightarrow> bytes \<Rightarrow> interpret_result vact" where
  "vm_interpret n env func filename =
     vthn (vassert (func \<noteq> NULL)) (vbnd (vget v_ecs) (\<lambda>ecs.
     if ecs = [] then vret INTERPRET_UNINITIALIZED
     else vthn (script_frame (calling n env) func filename) (vm_run0 n env)))"

text \<open>A script has a context of its own, which is left when it ends. The context is the same one when
  it is as many contexts deep.\<close>

definition loadScript :: "nat \<Rightarrow> vm_env \<Rightarrow> addr \<Rightarrow> bytes \<Rightarrow> interpret_result vact" where
  "loadScript n env func filename =
     vthn (vassert (func \<noteq> NULL)) (vbnd getFrame (\<lambda>oldFrame.
     vthn (vseqs [push_EC True, resetStack, on_ctx (\<lambda>c. c\<lparr>xc_loadContext := True\<rparr>)])
     (vbnd (vget (\<lambda>s. length (v_ecs s))) (\<lambda>depth.
      vthn (script_frame (calling n env) func filename)
     (vbnd (vm_protect (calling n env) (vm_run n env) NULL) (\<lambda>r.
      vbnd (vget (\<lambda>s. length (v_ecs s))) (\<lambda>depth1. vthn (vwhen (depth1 = depth) pop_EC)
     (vbnd getFrame (\<lambda>p. vthn (vassert (p = oldFrame))
      (if r = None then rethrowErrInfo (calling n env) else vret INTERPRET_OK))))))))))"

end
