(* ===== verification/Clox_Upvalue_Laws.thy ===== *)
theory Clox_Upvalue_Laws
  imports Clox_VM
begin

text \<open>Upvalues (captureUpvalue and closeUpvalues in vm.c). The open upvalues of a thread are a linked
  list of objects in descending order of the stack slots they stand for. The specification is the
  list of pairs of an upvalue and its slot: capturing inserts at most one pair, closing takes off the
  pairs from a slot on and gives the upvalues their values.\<close>

subsection \<open>The list of open upvalues\<close>

fun upv_list :: "heap \<Rightarrow> addr \<Rightarrow> (addr \<times> slot) list \<Rightarrow> bool" where
  "upv_list h p [] \<longleftrightarrow> p = NULL"
| "upv_list h p (x # xs) \<longleftrightarrow> p \<noteq> NULL \<and> p = fst x \<and>
     (case upvalue_at h p of
        Some u \<Rightarrow> up_value u = UpSlot (snd x) \<and> upv_list h (up_next u) xs
      | None \<Rightarrow> False)"

definition descending :: "(addr \<times> slot) list \<Rightarrow> bool" where
  "descending xs \<longleftrightarrow> sorted_wrt (\<lambda>x y. snd x > snd y) xs"

definition open_list :: "vmst \<Rightarrow> (addr \<times> slot) list \<Rightarrow> bool" where
  "open_list s xs \<longleftrightarrow> upv_list (objs_of (v_mem s)) (v_openUpvalues s) xs \<and> descending xs"

lemma descending_simps [simp]:
  "descending []"
  "descending (x # xs) \<longleftrightarrow> (\<forall>y\<in>set xs. snd y < snd x) \<and> descending xs"
  by (auto simp: descending_def)

lemma descending_append:
  "descending (xs @ ys) \<longleftrightarrow> descending xs \<and> descending ys \<and> (\<forall>x\<in>set xs. \<forall>y\<in>set ys. snd y < snd x)"
  by (auto simp: descending_def sorted_wrt_append)

lemma upv_list_member:
  assumes "upv_list h p xs" "x \<in> set xs"
  shows "fst x \<noteq> NULL \<and> (\<exists>u. upvalue_at h (fst x) = Some u \<and> up_value u = UpSlot (snd x))"
  using assms
proof (induction xs arbitrary: p)
  case (Cons y ys)
  then obtain u where u: "p \<noteq> NULL" "p = fst y" "upvalue_at h p = Some u" "up_value u = UpSlot (snd y)"
    "upv_list h (up_next u) ys" by (auto split: option.splits)
  show ?case
  proof (cases "x = y")
    case True
    then show ?thesis using u by simp
  next
    case False
    then show ?thesis using Cons.IH [OF u(5)] Cons.prems(2) by simp
  qed
qed simp

lemma upv_list_cong:
  assumes "\<And>x. x \<in> set xs \<Longrightarrow> upvalue_at h' (fst x) = upvalue_at h (fst x)"
  shows "upv_list h' p xs = upv_list h p xs"
  using assms
proof (induction xs arbitrary: p)
  case (Cons x xs)
  have e: "upvalue_at h' (fst x) = upvalue_at h (fst x)" by (rule Cons.prems) simp
  have IH: "upv_list h' q xs = upv_list h q xs" for q using Cons.prems by (intro Cons.IH) simp
  show ?case
  proof (cases "p = fst x")
    case True
    then show ?thesis unfolding True by (simp only: upv_list.simps e IH)
  next
    case False
    then show ?thesis by (simp only: upv_list.simps simp_thms)
  qed
qed simp

text \<open>An address has one slot, so descending slots are distinct upvalues.\<close>

lemma upv_list_distinct:
  assumes "upv_list h p xs" "descending xs"
  shows "distinct (map fst xs)"
  using assms
proof (induction xs arbitrary: p)
  case (Cons x xs)
  have "fst x \<notin> fst ` set xs"
  proof
    assume "fst x \<in> fst ` set xs"
    then obtain y where y: "y \<in> set xs" "fst y = fst x" by auto
    then have "snd y = snd x"
      using upv_list_member [OF Cons.prems(1), of x] upv_list_member [OF Cons.prems(1), of y] by auto
    then show False using Cons.prems(2) y(1) by auto
  qed
  then show ?case using Cons by (auto split: option.splits)
qed simp

lemma upv_list_first: "upv_list h p xs \<Longrightarrow> p = (if xs = [] then NULL else fst (hd xs))"
  by (cases xs) auto

lemma find_open_spec:
  assumes "upv_list h p xs"
  shows "find_open h local prev p =
    Some (let big = takeWhile (\<lambda>x. snd x > local) xs; rest = dropWhile (\<lambda>x. snd x > local) xs
          in (if big = [] then prev else fst (last big), if rest = [] then NULL else fst (hd rest)))"
  using assms
proof (induction xs arbitrary: p prev)
  case (Cons x xs)
  then obtain u where u: "p \<noteq> NULL" "p = fst x" "upvalue_at h p = Some u" "up_value u = UpSlot (snd x)"
    "upv_list h (up_next u) xs" by (auto split: option.splits)
  show ?case
    using u Cons.IH [OF u(5)] by (simp add: find_open.simps [of h local prev "fst x"] Let_def)
qed (simp add: find_open.simps)

text \<open>Linking in a new upvalue behind a prefix of the list.\<close>

lemma upv_list_link:
  assumes "upv_list h p (xs @ ys)" "xs \<noteq> []" "distinct (map fst (xs @ ys))"
    "upvalue_at h (fst (last xs)) = Some w" "upvalue_at h' (fst (last xs)) = Some (w\<lparr>up_next := q\<rparr>)"
    "\<And>x. x \<in> set (xs @ ys) \<Longrightarrow> fst x \<noteq> fst (last xs) \<Longrightarrow> upvalue_at h' (fst x) = upvalue_at h (fst x)"
    "upv_list h' q (z # ys)"
  shows "upv_list h' p (xs @ z # ys)"
  using assms
proof (induction xs arbitrary: p)
  case (Cons x xs)
  obtain u where u: "upvalue_at h p = Some u" "p = fst x" "p \<noteq> NULL" "up_value u = UpSlot (snd x)"
    "upv_list h (up_next u) (xs @ ys)" using Cons.prems(1) by (auto split: option.splits)
  show ?case
  proof (cases "xs = []")
    case True
    then have "upvalue_at h' p = Some (u\<lparr>up_next := q\<rparr>)" using u Cons.prems(4,5) by simp
    moreover have q: "q = fst z" using Cons.prems(7) by simp
    ultimately show ?thesis using u(2-4) Cons.prems(7) True unfolding q by simp
  next
    case False
    then have n: "fst x \<noteq> fst (last xs)" using Cons.prems(3) by simp (metis UnI1 image_eqI last_in_set)
    have "upv_list h' (up_next u) (xs @ z # ys)"
    proof (rule Cons.IH [OF u(5) False])
      show "upv_list h' q (z # ys)" by (rule Cons.prems)
    qed (use Cons.prems(3-6) False in simp_all)
    moreover have "upvalue_at h' p = Some u" using Cons.prems(6) [of x] n False u by simp
    ultimately show ?thesis using u by simp
  qed
qed simp

lemma upv_list_suffix:
  "upv_list h p (xs @ ys) \<Longrightarrow> \<exists>q. upv_list h q ys"
  by (induction xs arbitrary: p) (auto split: option.splits)

subsection \<open>Heaps\<close>

lemma objs_of_OBJ_WRITE [simp]: "objs_of (OBJ_WRITE a b m) = objs_of m"
  by (simp add: OBJ_WRITE_def on_gc_def objs_of_def objWrite_def pushRememberSet_def)

lemma upvalue_at_upd:
  "upvalue_at (objs_of (set_body p (\<lambda>b. case b of BUpvalue u \<Rightarrow> BUpvalue (f u) | _ \<Rightarrow> b) m)) q =
     (if q = p then map_option f (upvalue_at (objs_of m) q) else upvalue_at (objs_of m) q)"
  by (auto simp: set_body_def on_gc_def on_obj_def put_obj_def objs_of_def upvalue_at_def
      split: option.splits obj_body.splits)

lemma upvalue_at_set:
  assumes "upvalue_at (objs_of m) p \<noteq> None"
  shows "upvalue_at (objs_of (set_body p (\<lambda>_. BUpvalue u) m)) q =
     (if q = p then Some u else upvalue_at (objs_of m) q)"
  using assms
  by (auto simp: set_body_def on_gc_def on_obj_def put_obj_def objs_of_def upvalue_at_def
      split: option.splits obj_body.splits)

lemma newUpvalue_heap:
  assumes "oe_new env False (m_gc m) = Some (p, g)" "gc_heap g p \<noteq> None"
  shows "\<exists>m1. newUpvalue env a NEWOBJ_FLAG_NONE m = Some (p, m1) \<and>
    (\<forall>q. upvalue_at (objs_of m1) q =
      (if q = p then Some \<lparr>up_value = UpSlot a, up_closed = NIL_VAL, up_next = NULL\<rparr> else upvalue_at (gc_heap g) q))"
  using assms
  by (auto simp: newUpvalue_def allocateObject_def NEWOBJ_FLAG_NONE_def Let_def on_obj_def put_obj_def objs_of_def
      upvalue_at_def split: option.splits)

subsection \<open>Capturing\<close>

lemma vact_simps:
  "vbnd m f s = (case m s of None \<Rightarrow> None | Some (Inl j, s1) \<Rightarrow> Some (Inl j, s1) | Some (Inr a, s1) \<Rightarrow> f a s1)"
  "vthn m n s = (case m s of None \<Rightarrow> None | Some (Inl j, s1) \<Rightarrow> Some (Inl j, s1) | Some (Inr a, s1) \<Rightarrow> n s1)"
  "vret a s = Some (Inr a, s)" "vskip s = Some (Inr (), s)" "vget g s = Some (Inr (g s), s)"
  "vmod k s = Some (Inr (), k s)"
  by (simp_all add: vbnd_def vthn_def vret_def vskip_def vget_def vmod_def yields_def)

lemma vact_more:
  "vthe (Some a) s = Some (Inr a, s)" "vassert True s = Some (Inr (), s)" "vassert False s = None"
  "vwhen True m s = m s" "vwhen False m s = Some (Inr (), s)" "vheap s = Some (Inr (objs_of (v_mem s)), s)"
  "vmem g s = (case g (v_mem s) of None \<Rightarrow> None | Some (a, m1) \<Rightarrow> Some (Inr a, s\<lparr>v_mem := m1\<rparr>))"
  "vmem_upd k s = Some (Inr (), s\<lparr>v_mem := k (v_mem s)\<rparr>)"
  by (simp_all add: vthe_def vassert_def vwhen_def vheap_def vmem_def vmem_upd_def vact_simps fails_def)

lemma own_upvalue_run [simp]:
  "own_upvalue p s = Some (Inr (), s\<lparr>v_mem := OBJ_WRITE (v_threadInst s) p (v_mem s)\<rparr>)"
  by (simp add: own_upvalue_def vact_simps vact_more)

lemma upd_upvalue_run [simp]:
  "\<exists>m1. upd_upvalue p f s = Some (Inr (), s\<lparr>v_mem := m1\<rparr>) \<and>
     (\<forall>q. upvalue_at (objs_of m1) q =
       (if q = p then map_option f (upvalue_at (objs_of (v_mem s)) q) else upvalue_at (objs_of (v_mem s)) q))"
  by (intro exI [of _ "set_body p (\<lambda>b. case b of BUpvalue u \<Rightarrow> BUpvalue (f u) | _ \<Rightarrow> b) (v_mem s)"])
    (simp add: upd_upvalue_def vact_more upvalue_at_upd)

text \<open>What capturing does when the slot has no upvalue yet: prev is the upvalue in front of the new
  one, rest the one behind it.\<close>

definition add_upvalue_at :: "obj_env \<Rightarrow> slot \<Rightarrow> addr \<Rightarrow> addr \<Rightarrow> addr vact" where
  "add_upvalue_at env local prev rest =
     vbnd (vmem (newUpvalue env local NEWOBJ_FLAG_NONE)) (\<lambda>u. vthn (vseqs [
       own_upvalue u,
       upd_upvalue u (\<lambda>x. x\<lparr>up_next := rest\<rparr>),
       (if prev = NULL then vmod (\<lambda>s. s\<lparr>v_openUpvalues := u\<rparr>)
        else upd_upvalue prev (\<lambda>x. x\<lparr>up_next := u\<rparr>))]) (vret u))"

lemma add_upvalue_run:
  assumes "oe_new env False (m_gc (v_mem s)) = Some (p, g)" "gc_heap g p \<noteq> None" "p \<noteq> prev"
  shows "\<exists>m1. add_upvalue_at env local prev rest s = Some (Inr p, s\<lparr>v_mem := m1,
       v_openUpvalues := (if prev = NULL then p else v_openUpvalues s)\<rparr>) \<and>
     (\<forall>q. upvalue_at (objs_of m1) q =
       (if q = p then Some \<lparr>up_value = UpSlot local, up_closed = NIL_VAL, up_next = rest\<rparr>
        else if q = prev \<and> prev \<noteq> NULL then map_option (\<lambda>x. x\<lparr>up_next := p\<rparr>) (upvalue_at (gc_heap g) q)
        else upvalue_at (gc_heap g) q))"
proof -
  obtain m0 where m0: "newUpvalue env local NEWOBJ_FLAG_NONE (v_mem s) = Some (p, m0)"
    "upvalue_at (objs_of m0) q = (if q = p then Some \<lparr>up_value = UpSlot local, up_closed = NIL_VAL, up_next = NULL\<rparr>
       else upvalue_at (gc_heap g) q)" for q
    using newUpvalue_heap [OF assms(1,2), of local] by blast
  let ?s = "s\<lparr>v_mem := OBJ_WRITE (v_threadInst s) p m0\<rparr>"
  obtain m1 where m1: "upd_upvalue p (\<lambda>x. x\<lparr>up_next := rest\<rparr>) ?s = Some (Inr (), ?s\<lparr>v_mem := m1\<rparr>)"
    "upvalue_at (objs_of m1) q = (if q = p then Some \<lparr>up_value = UpSlot local, up_closed = NIL_VAL, up_next = rest\<rparr>
       else upvalue_at (gc_heap g) q)" for q
    using upd_upvalue_run [of p "\<lambda>x. x\<lparr>up_next := rest\<rparr>" ?s] m0(2) by auto
  obtain m2 where m2: "upd_upvalue prev (\<lambda>x. x\<lparr>up_next := p\<rparr>) (?s\<lparr>v_mem := m1\<rparr>) = Some (Inr (), ?s\<lparr>v_mem := m2\<rparr>)"
    "upvalue_at (objs_of m2) q = (if q = p then Some \<lparr>up_value = UpSlot local, up_closed = NIL_VAL, up_next = rest\<rparr>
       else if q = prev then map_option (\<lambda>x. x\<lparr>up_next := p\<rparr>) (upvalue_at (gc_heap g) q)
       else upvalue_at (gc_heap g) q)" for q
    using upd_upvalue_run [of prev "\<lambda>x. x\<lparr>up_next := p\<rparr>" "?s\<lparr>v_mem := m1\<rparr>"] m1(2) assms(3) by auto
  show ?thesis
    using m0(1) m1 m2 by (cases "prev = NULL") (auto simp: add_upvalue_at_def vact_simps vact_more intro!: exI)
qed

definition slots_above :: "slot \<Rightarrow> (addr \<times> slot) list \<Rightarrow> (addr \<times> slot) list" where
  "slots_above local xs = takeWhile (\<lambda>x. snd x > local) xs"

definition from_slot :: "slot \<Rightarrow> (addr \<times> slot) list \<Rightarrow> (addr \<times> slot) list" where
  "from_slot local xs = dropWhile (\<lambda>x. snd x > local) xs"

lemma slots_above_from_slot: "slots_above local xs @ from_slot local xs = xs"
  by (simp add: slots_above_def from_slot_def)

lemma find_open_parts:
  assumes "upv_list h p xs"
  shows "find_open h local prev p =
    Some (if slots_above local xs = [] then prev else fst (last (slots_above local xs)),
          if from_slot local xs = [] then NULL else fst (hd (from_slot local xs)))"
  using find_open_spec [OF assms, of local prev] unfolding slots_above_def from_slot_def Let_def .

lemma slots_above_greater: "x \<in> set (slots_above local xs) \<Longrightarrow> local < snd x"
  by (auto simp: slots_above_def dest: set_takeWhileD)

lemma from_slot_le:
  assumes "descending xs" "x \<in> set (from_slot local xs)"
  shows "snd x \<le> local"
proof -
  have d: "descending (from_slot local xs)"
    using assms(1) slots_above_from_slot [of local xs] by (metis descending_append)
  have n: "from_slot local xs \<noteq> []" using assms(2) by auto
  then obtain y ys where y: "from_slot local xs = y # ys" by (cases "from_slot local xs") auto
  have "\<not> snd y > local" using hd_dropWhile [of "\<lambda>x. snd x > local" xs] n y unfolding from_slot_def by simp
  then show ?thesis using assms(2) d unfolding y by force
qed

lemma from_slot_hd:
  assumes "descending xs" "(p, local) \<in> set xs"
  shows "\<exists>ys. from_slot local xs = (p, local) # ys"
proof -
  have "(p, local) \<in> set (slots_above local xs) \<union> set (from_slot local xs)"
    using assms(2) slots_above_from_slot [of local xs] by (metis set_append)
  then have i: "(p, local) \<in> set (from_slot local xs)" using slots_above_greater [of "(p, local)"] by auto
  have d: "descending (from_slot local xs)"
    using assms(1) slots_above_from_slot [of local xs] by (metis descending_append)
  obtain y ys where y: "from_slot local xs = y # ys" using i by (cases "from_slot local xs") auto
  have "snd y \<le> local" using from_slot_le [OF assms(1)] y by auto
  then show ?thesis using i d unfolding y by force
qed

text \<open>A new upvalue for the slot: the allocator returns another object than the open upvalues and
  leaves these as they are.\<close>

definition fresh_upvalue :: "obj_env \<Rightarrow> vmst \<Rightarrow> (addr \<times> slot) list \<Rightarrow> addr \<Rightarrow> gc_state \<Rightarrow> bool" where
  "fresh_upvalue env s xs p g \<longleftrightarrow> oe_new env False (m_gc (v_mem s)) = Some (p, g) \<and> p \<noteq> NULL \<and>
     gc_heap g p \<noteq> None \<and> (\<forall>x\<in>set xs. fst x \<noteq> p \<and>
       upvalue_at (gc_heap g) (fst x) = upvalue_at (objs_of (v_mem s)) (fst x))"

lemma capture_found:
  assumes "open_list s xs" "(p, local) \<in> set xs" "v_threadInst s \<noteq> NULL"
  shows "captureUpvalue env local s = Some (Inr p, s)"
proof -
  have l: "upv_list (objs_of (v_mem s)) (v_openUpvalues s) xs" "descending xs"
    using assms(1) by (auto simp: open_list_def)
  obtain ys where r: "from_slot local xs = (p, local) # ys" using from_slot_hd [OF l(2) assms(2)] by auto
  have f: "find_open (objs_of (v_mem s)) local NULL (v_openUpvalues s) =
      Some (if slots_above local xs = [] then NULL else fst (last (slots_above local xs)), p)"
    using find_open_parts [OF l(1), of local NULL] r by simp
  have "p \<noteq> NULL" "at_slot (objs_of (v_mem s)) p local"
    using upv_list_member [OF l(1) assms(2)] by (auto simp: at_slot_def)
  moreover have "v_openUpvalues s \<noteq> NULL" using upv_list_first [OF l(1)] upv_list_member [OF l(1)] assms(2)
    by (metis empty_iff empty_set hd_in_set)
  ultimately show ?thesis using assms(3) f by (simp add: captureUpvalue_def vact_simps vact_more)
qed

text \<open>The list with the new upvalue in its place.\<close>

definition with_upvalue :: "addr \<Rightarrow> slot \<Rightarrow> (addr \<times> slot) list \<Rightarrow> (addr \<times> slot) list" where
  "with_upvalue p local xs = slots_above local xs @ (p, local) # from_slot local xs"

lemma set_with_upvalue: "set (with_upvalue p local xs) = insert (p, local) (set xs)"
proof -
  have "set xs = set (slots_above local xs) \<union> set (from_slot local xs)"
    using slots_above_from_slot [of local xs] by (metis set_append)
  then show ?thesis by (auto simp: with_upvalue_def)
qed

lemma descending_with_upvalue:
  assumes "descending xs" "local \<notin> snd ` set xs"
  shows "descending (with_upvalue p local xs)"
proof -
  have d: "descending (slots_above local xs)" "descending (from_slot local xs)"
    using assms(1) slots_above_from_slot [of local xs] by (metis descending_append)+
  have "snd y < local" if "y \<in> set (from_slot local xs)" for y
  proof -
    have "y \<in> set xs" using that slots_above_from_slot [of local xs] by (metis UnCI set_append)
    then show ?thesis using from_slot_le [OF assms(1) that] assms(2) by (metis image_eqI le_neq_implies_less)
  qed
  then show ?thesis using d slots_above_greater [of _ local xs]
    by (auto simp: with_upvalue_def descending_append) (metis less_trans snd_conv)
qed

lemma upv_list_with:
  assumes "upv_list h first xs" "descending xs" "p \<noteq> NULL"
    "\<And>x. x \<in> set xs \<Longrightarrow> fst x \<noteq> p \<and> upvalue_at h0 (fst x) = upvalue_at h (fst x)"
    "\<And>q. upvalue_at h1 q =
       (if q = p then Some \<lparr>up_value = UpSlot local, up_closed = NIL_VAL,
            up_next = (if from_slot local xs = [] then NULL else fst (hd (from_slot local xs)))\<rparr>
        else if slots_above local xs \<noteq> [] \<and> q = fst (last (slots_above local xs)) then map_option (\<lambda>x. x\<lparr>up_next := p\<rparr>) (upvalue_at h0 q)
        else upvalue_at h0 q)"
  shows "upv_list h1 (if slots_above local xs = [] then p else first) (with_upvalue p local xs)"
proof -
  let ?bs = "slots_above local xs" and ?rs = "from_slot local xs"
  note xs = slots_above_from_slot [of local xs]
  have dist: "distinct (map fst (?bs @ ?rs))" using upv_list_distinct [OF assms(1,2)] xs by simp
  have l: "upv_list h first (?bs @ ?rs)" using assms(1) xs by simp
  have m: "x \<in> set xs" if "x \<in> set ?bs \<or> x \<in> set ?rs" for x using that xs by (metis UnCI set_append)
  have same: "upvalue_at h1 (fst x) = upvalue_at h (fst x)"
    if "x \<in> set xs" "?bs = [] \<or> fst x \<noteq> fst (last ?bs)" for x using that assms(4,5) by auto
  have nl: "?bs = [] \<or> fst x \<noteq> fst (last ?bs)" if "x \<in> set ?rs" for x
    using that dist by (metis (no_types, lifting) disjoint_iff distinct_append image_eqI last_in_set list.set_map map_append)
  obtain q where q: "upv_list h q ?rs" using upv_list_suffix [OF l] by auto
  then have "upv_list h1 q ?rs" using upv_list_cong [of ?rs h1 h q] same nl m by blast
  then have z: "upv_list h1 p ((p, local) # ?rs)" using assms(3,5) upv_list_first [OF q] by simp
  show ?thesis
  proof (cases "?bs = []")
    case True
    then show ?thesis using z by (simp add: with_upvalue_def)
  next
    case False
    have lx: "last ?bs \<in> set xs" using False m by simp
    then obtain w where w: "upvalue_at h (fst (last ?bs)) = Some w" using upv_list_member [OF assms(1)] by blast
    have "upvalue_at h1 (fst (last ?bs)) = Some (w\<lparr>up_next := p\<rparr>)" using False assms(4) [OF lx] assms(5) w by simp
    then show ?thesis using upv_list_link [OF l False dist w, of h1 p "(p, local)"] z same xs False
      by (simp add: with_upvalue_def)
  qed
qed

lemma capture_add:
  assumes "v_threadInst s \<noteq> NULL" "v_openUpvalues s \<noteq> NULL"
    "find_open (objs_of (v_mem s)) local NULL (v_openUpvalues s) = Some (prev, rest)"
    "\<not> (rest \<noteq> NULL \<and> at_slot (objs_of (v_mem s)) rest local)"
  shows "captureUpvalue env local s = add_upvalue_at env local prev rest s"
  using assms by (simp add: captureUpvalue_def vact_simps vact_more add_upvalue_at_def if_not_P)

lemma capture_new:
  assumes "open_list s xs" "local \<notin> snd ` set xs" "v_threadInst s \<noteq> NULL" "fresh_upvalue env s xs p g"
  shows "\<exists>s1. captureUpvalue env local s = Some (Inr p, s1) \<and> open_list s1 (with_upvalue p local xs) \<and>
    v_cells s1 = v_cells s"
proof -
  let ?h = "objs_of (v_mem s)" and ?bs = "slots_above local xs" and ?rs = "from_slot local xs"
  let ?prev = "if ?bs = [] then NULL else fst (last ?bs)" and ?rest = "if ?rs = [] then NULL else fst (hd ?rs)"
  have l: "upv_list ?h (v_openUpvalues s) xs" "descending xs" using assms(1) by (auto simp: open_list_def)
  have f: "oe_new env False (m_gc (v_mem s)) = Some (p, g)" "gc_heap g p \<noteq> None" "p \<noteq> NULL"
    and g: "\<And>x. x \<in> set xs \<Longrightarrow> fst x \<noteq> p \<and> upvalue_at (gc_heap g) (fst x) = upvalue_at ?h (fst x)"
    using assms(4) by (auto simp: fresh_upvalue_def)
  note xs = slots_above_from_slot [of local xs]
  have m: "x \<in> set xs" if "x \<in> set ?bs \<or> x \<in> set ?rs" for x using that xs by (metis UnCI set_append)
  have fo: "find_open ?h local NULL (v_openUpvalues s) = Some (?prev, ?rest)"
    using find_open_parts [OF l(1), of local NULL] by simp
  have lb: "fst (last ?bs) \<noteq> NULL \<and> fst (last ?bs) \<noteq> p" if "?bs \<noteq> []"
    using that upv_list_member [OF l(1), of "last ?bs"] g [of "last ?bs"] m by simp
  have ns: "\<not> at_slot ?h ?rest local" if n: "?rest \<noteq> NULL"
  proof -
    have h: "hd ?rs \<in> set xs" "?rs \<noteq> []" using n m [of "hd ?rs"] by (auto split: if_splits)
    then have "snd (hd ?rs) \<noteq> local" using assms(2) by (metis image_eqI)
    then show ?thesis using upv_list_member [OF l(1) h(1)] h(2) by (auto simp: at_slot_def)
  qed
  show ?thesis
  proof (cases "xs = []")
    case True
    obtain m1 where "newUpvalue env local NEWOBJ_FLAG_NONE (v_mem s) = Some (p, m1)"
      "\<And>q. upvalue_at (objs_of m1) q = (if q = p then Some \<lparr>up_value = UpSlot local, up_closed = NIL_VAL, up_next = NULL\<rparr>
         else upvalue_at (gc_heap g) q)" using newUpvalue_heap [OF f(1,2), of local] by blast
    then show ?thesis using assms(3) True l(1) f(3)
      by (simp add: captureUpvalue_def vact_simps vact_more open_list_def with_upvalue_def slots_above_def from_slot_def)
  next
    case False
    have pp: "p \<noteq> ?prev" using lb f(3) by auto
    obtain m1 where m1: "add_upvalue_at env local ?prev ?rest s = Some (Inr p, s\<lparr>v_mem := m1,
         v_openUpvalues := (if ?prev = NULL then p else v_openUpvalues s)\<rparr>)"
      "\<And>q. upvalue_at (objs_of m1) q =
       (if q = p then Some \<lparr>up_value = UpSlot local, up_closed = NIL_VAL, up_next = ?rest\<rparr>
        else if q = ?prev \<and> ?prev \<noteq> NULL then map_option (\<lambda>x. x\<lparr>up_next := p\<rparr>) (upvalue_at (gc_heap g) q)
        else upvalue_at (gc_heap g) q)"
      using add_upvalue_run [OF f(1,2) pp, of local ?rest] by blast
    have n: "v_openUpvalues s \<noteq> NULL" using False upv_list_first [OF l(1)] upv_list_member [OF l(1), of "hd xs"] by simp
    have "captureUpvalue env local s = add_upvalue_at env local ?prev ?rest s"
      using capture_add [OF assms(3) n fo] ns by blast
    moreover have "upv_list (objs_of m1) (if ?bs = [] then p else v_openUpvalues s) (with_upvalue p local xs)"
      using lb by (intro upv_list_with [OF l f(3) g]) (auto simp: m1(2))
    moreover have "(?prev = NULL) = (?bs = [])" using lb by auto
    ultimately show ?thesis using m1(1) descending_with_upvalue [OF l(2) assms(2), of p]
      by (auto simp: open_list_def)
  qed
qed

subsection \<open>Closing\<close>

lemma close_first_upvalue:
  assumes "upvalue_at (objs_of (v_mem s)) p = Some u"
  shows "upvalue_at (objs_of (v_mem (close_first p u v s))) q =
     (if q = p then Some (u\<lparr>up_closed := v, up_value := UpClosed\<rparr>) else upvalue_at (objs_of (v_mem s)) q)"
    "v_openUpvalues (close_first p u v s) = up_next u" "v_cells (close_first p u v s) = v_cells s"
  using assms by (simp_all add: close_first_def upvalue_at_set)

text \<open>The value of a slot that was written.\<close>

definition slot_value :: "vmst \<Rightarrow> slot \<Rightarrow> lxvalue" where
  "slot_value s a = (case v_cells s a of Some (Some v) \<Rightarrow> v | _ \<Rightarrow> UNDEF_VAL)"

lemma close_from_spec:
  assumes "upv_list (objs_of (v_mem s)) (v_openUpvalues s) xs" "descending xs"
    "\<And>x. x \<in> set xs \<Longrightarrow> last_slot \<le> snd x \<Longrightarrow> v_cells s (snd x) = Some (Some (slot_value s (snd x)))"
  shows "\<exists>s1. close_from last_slot s = Some s1 \<and>
    upv_list (objs_of (v_mem s1)) (v_openUpvalues s1) (filter (\<lambda>x. snd x < last_slot) xs) \<and>
    v_cells s1 = v_cells s \<and>
    (\<forall>x\<in>set xs. last_slot \<le> snd x \<longrightarrow> (\<exists>u. upvalue_at (objs_of (v_mem s1)) (fst x) = Some u \<and>
       up_value u = UpClosed \<and> up_closed u = slot_value s (snd x))) \<and>
    (\<forall>q. q \<notin> fst ` set (filter (\<lambda>x. last_slot \<le> snd x) xs) \<longrightarrow>
       upvalue_at (objs_of (v_mem s1)) q = upvalue_at (objs_of (v_mem s)) q)"
  using assms
proof (induction xs arbitrary: s)
  case Nil
  then show ?case by (simp add: close_from.simps)
next
  case (Cons x xs)
  let ?p = "v_openUpvalues s"
  obtain u where u: "?p \<noteq> NULL" "?p = fst x" "upvalue_at (objs_of (v_mem s)) ?p = Some u"
    "up_value u = UpSlot (snd x)" "upv_list (objs_of (v_mem s)) (up_next u) xs"
    using Cons.prems(1) by (auto split: option.splits)
  show ?case
  proof (cases "snd x < last_slot")
    case True
    then have "filter (\<lambda>x. snd x < last_slot) (x # xs) = x # xs" "filter (\<lambda>x. last_slot \<le> snd x) (x # xs) = []"
      using Cons.prems(2) by (auto simp: filter_id_conv filter_empty_conv)
    moreover have "close_from last_slot s = Some s" using u True by (simp add: close_from.simps)
    ultimately show ?thesis using Cons.prems(1,2) True by auto
  next
    case False
    let ?v = "slot_value s (snd x)"
    let ?s1 = "close_first ?p u ?v s"
    note c1 = close_first_upvalue [OF u(3), of ?v]
    have v: "v_cells s (snd x) = Some (Some ?v)" using Cons.prems(3) [of x] False by simp
    have run: "close_from last_slot s = close_from last_slot ?s1"
      using u False v by (simp add: close_from.simps [of last_slot s])
    have nm: "?p \<notin> fst ` set xs" using upv_list_distinct [OF Cons.prems(1,2)] u(2) by simp
    have "upv_list (objs_of (v_mem ?s1)) (v_openUpvalues ?s1) xs"
    proof (subst upv_list_cong [where h = "objs_of (v_mem s)"])
      fix y assume "y \<in> set xs"
      then have "fst y \<noteq> ?p" using nm by force
      then show "upvalue_at (objs_of (v_mem ?s1)) (fst y) = upvalue_at (objs_of (v_mem s)) (fst y)" by (simp add: c1)
    qed (simp add: c1 u(5))
    moreover have "slot_value ?s1 a = slot_value s a" for a
      by (simp only: slot_value_def [of ?s1 a] slot_value_def [of s a] c1(3))
    ultimately obtain s2 where s2: "close_from last_slot ?s1 = Some s2"
      "upv_list (objs_of (v_mem s2)) (v_openUpvalues s2) (filter (\<lambda>x. snd x < last_slot) xs)"
      "v_cells s2 = v_cells s"
      "\<forall>y\<in>set xs. last_slot \<le> snd y \<longrightarrow> (\<exists>u. upvalue_at (objs_of (v_mem s2)) (fst y) = Some u \<and>
         up_value u = UpClosed \<and> up_closed u = slot_value s (snd y))"
      "\<forall>q. q \<notin> fst ` set (filter (\<lambda>x. last_slot \<le> snd x) xs) \<longrightarrow>
         upvalue_at (objs_of (v_mem s2)) q = upvalue_at (objs_of (v_mem ?s1)) q"
      using Cons.IH [of ?s1] Cons.prems(2,3) by (auto simp: c1)
    have "?p \<notin> fst ` set (filter (\<lambda>x. last_slot \<le> snd x) xs)" using nm by auto
    then have px: "upvalue_at (objs_of (v_mem s2)) (fst x) = Some (u\<lparr>up_closed := ?v, up_value := UpClosed\<rparr>)"
      using s2(5) unfolding u(2) [symmetric] by (simp add: c1)
    have "upvalue_at (objs_of (v_mem s2)) q = upvalue_at (objs_of (v_mem s)) q"
      if "q \<notin> fst ` set (filter (\<lambda>x. last_slot \<le> snd x) (x # xs))" for q
    proof -
      have "q \<noteq> ?p" "q \<notin> fst ` set (filter (\<lambda>x. last_slot \<le> snd x) xs)" using that False u(2) by auto
      then show ?thesis using s2(5) by (simp add: c1)
    qed
    then show ?thesis using s2(1-4) px False by (intro exI [of _ s2]) (simp add: run)
  qed
qed

text \<open>What is read through an upvalue.\<close>

definition upvalue_reads :: "vmst \<Rightarrow> addr \<Rightarrow> lxvalue option" where
  "upvalue_reads s p = (case upvalue_get p s of Some (Inr v, _) \<Rightarrow> Some v | _ \<Rightarrow> None)"

lemma upvalue_reads_open:
  "upvalue_at (objs_of (v_mem s)) p = Some u \<Longrightarrow> up_value u = UpSlot a \<Longrightarrow>
    upvalue_reads s p = (case v_cells s a of Some (Some v) \<Rightarrow> Some v | _ \<Rightarrow> None)"
  by (simp add: upvalue_reads_def upvalue_get_def vact_simps vact_more cell_read_def split: option.splits)

lemma upvalue_reads_closed:
  "upvalue_at (objs_of (v_mem s)) p = Some u \<Longrightarrow> up_value u = UpClosed \<Longrightarrow> upvalue_reads s p = Some (up_closed u)"
  by (simp add: upvalue_reads_def upvalue_get_def vact_simps vact_more)

lemma descending_filter: "descending xs \<Longrightarrow> descending (filter P xs)"
  by (induction xs) auto

subsection \<open>Examples\<close>

text \<open>A thread at the start, with the heap of the memory given.\<close>

definition thread_start :: "mem \<Rightarrow> vmst" where
  "thread_start m = \<lparr>v_mem = m, v_strings = initTable, v_fnInfo = (\<lambda>_. None), v_sites = [],
     v_cells = (\<lambda>_. None), v_fresh = 0, v_ecs = [], v_openUpvalues = NULL, v_threadInst = 8,
     v_thisObj = NULL, v_thisStack = [], v_crefStack = [], v_blockStack = [], v_lastValue = None,
     v_hadError = False, v_errInfo = [], v_lastErrorThrown = NIL_VAL, v_inCCall = 0, v_cCallThrew = False,
     v_returnedFromNativeErr = False, v_cCallJumpBufSet = False, v_rootBufSet = False, v_vmRunLvl = 0,
     v_lastSplatNumArgs = -1, v_opsRemaining = THREAD_OPS_UNTIL_SWITCH, v_interrupted = False,
     v_exited = False, v_curLine = 1, v_globals = initTable, v_constants = initTable,
     v_autoloadTbl = initTable, v_regexLiterals = initTable, v_output = []\<rparr>"

definition vm_obj :: "obj_body \<Rightarrow> obj" where
  "vm_obj b = \<lparr>o_flags = 0, o_nextFree = NULL, o_objectId = 0, o_GCGen = 0, o_body = b\<rparr>"

definition vm_mem :: "heap \<Rightarrow> mem" where
  "vm_mem h = \<lparr>m_gc = \<lparr>gc_heap = h, gc_grayStack = [], gc_grayCapacity = 0, gc_inYoungGC = False,
     gc_inGC = False, gc_GCOn = True, gc_generations = replicate 5 0, gc_freeList = NULL,
     gc_heapList = [], gc_youngStack = [], gc_rememberSet = [], gc_hiddenObjs = [],
     gc_activeFinalizers = 0\<rparr>, m_stackObjects = []\<rparr>"

text \<open>Two open upvalues, for the slots 7 and 3.\<close>

definition two_upvalues :: vmst where
  "two_upvalues = (thread_start (vm_mem [
       16 \<mapsto> vm_obj (BUpvalue \<lparr>up_value = UpSlot 7, up_closed = NIL_VAL, up_next = 24\<rparr>),
       24 \<mapsto> vm_obj (BUpvalue \<lparr>up_value = UpSlot 3, up_closed = NIL_VAL, up_next = NULL\<rparr>)]))
     \<lparr>v_openUpvalues := 16, v_cells := [3 \<mapsto> Some TRUE_VAL, 5 \<mapsto> Some NIL_VAL, 7 \<mapsto> Some FALSE_VAL]\<rparr>"

definition next_obj :: "bool \<Rightarrow> gc_state \<Rightarrow> (addr \<times> gc_state) option" where
  "next_obj b g = Some (32, put_obj 32 (vm_obj BNone) g)"

definition upv_env :: obj_env where
  "upv_env = \<lparr>oe_new = next_obj, oe_inCCall = False, oe_classes = \<lparr>lxObjClass = 0, lxClassClass = 0,
     lxModuleClass = 0, lxStringClass = 0, lxAryClass = 0, lxMapClass = 0, lxRegexClass = 0\<rparr>,
     oe_vmInited = True, oe_nativeInit = (\<lambda>_ m. m)\<rparr>"

lemma two_upvalues_simps:
  "objs_of (v_mem two_upvalues) = [
       16 \<mapsto> vm_obj (BUpvalue \<lparr>up_value = UpSlot 7, up_closed = NIL_VAL, up_next = 24\<rparr>),
       24 \<mapsto> vm_obj (BUpvalue \<lparr>up_value = UpSlot 3, up_closed = NIL_VAL, up_next = NULL\<rparr>)]"
  "v_openUpvalues two_upvalues = 16" "v_threadInst two_upvalues = 8"
  "v_cells two_upvalues = [3 \<mapsto> Some TRUE_VAL, 5 \<mapsto> Some NIL_VAL, 7 \<mapsto> Some FALSE_VAL]"
  by (simp_all add: two_upvalues_def thread_start_def vm_mem_def objs_of_def)

lemma two_upvalues_open: "open_list two_upvalues [(16, 7), (24, 3)]"
  by (simp add: open_list_def two_upvalues_simps upvalue_at_def vm_obj_def)

lemma two_upvalues_fresh:
  "fresh_upvalue upv_env two_upvalues [(16, 7), (24, 3)] 32 (put_obj 32 (vm_obj BNone) (m_gc (v_mem two_upvalues)))"
  by (simp add: fresh_upvalue_def upv_env_def next_obj_def put_obj_def upvalue_at_def objs_of_def)

subsection \<open>The properties\<close>

text \<open>C9: captureUpvalue keeps the open upvalues of a thread in strictly descending order of their
  slots, one upvalue for a slot, and returns the upvalue of the slot: that in the list when there is
  one, and then nothing changes; otherwise a new one, which is the only pair added. No slot is
  written.\<close>

theorem captureUpvalue_inserts:
  assumes "open_list s xs" "v_threadInst s \<noteq> NULL"
    "local \<notin> snd ` set xs \<Longrightarrow> fresh_upvalue env s xs p g"
  shows "\<exists>u s1 ys. captureUpvalue env local s = Some (Inr u, s1) \<and> open_list s1 ys \<and>
    set ys = insert (u, local) (set xs) \<and> v_cells s1 = v_cells s \<and> (local \<in> snd ` set xs \<longrightarrow> s1 = s)"
proof (cases "local \<in> snd ` set xs")
  case True
  then obtain q where q: "(q, local) \<in> set xs" by auto
  then have "set xs = insert (q, local) (set xs)" by auto
  then show ?thesis using capture_found [OF assms(1) q assms(2)] assms(1) by blast
next
  case False
  obtain s1 where "captureUpvalue env local s = Some (Inr p, s1)" "open_list s1 (with_upvalue p local xs)"
    "v_cells s1 = v_cells s" using capture_new [OF assms(1) False assms(2) assms(3) [OF False]] by blast
  then show ?thesis using False set_with_upvalue [of p local xs] by blast
qed

theorem captureUpvalue_inserts_witness:
  "\<exists>u s1 ys. captureUpvalue upv_env 5 two_upvalues = Some (Inr u, s1) \<and> open_list s1 ys \<and>
    set ys = {(u, 5), (16, 7), (24, 3)}"
  using captureUpvalue_inserts [OF two_upvalues_open, of 5 upv_env 32] two_upvalues_fresh
  by (simp add: two_upvalues_simps) blast

text \<open>C10: closeUpvalues always ends. It takes the upvalues of the slots from the given one on off the
  list, and leaves the others on it; each closed upvalue holds the value of its slot, no slot is
  written, and through every upvalue of the list the same value is read as before.\<close>

theorem closeUpvalues_closes:
  assumes "open_list s xs" "\<forall>x\<in>set xs. \<exists>v. v_cells s (snd x) = Some (Some v)"
  shows "\<exists>s1. closeUpvalues last_slot s = Some (Inr (), s1) \<and>
    open_list s1 (filter (\<lambda>x. snd x < last_slot) xs) \<and> v_cells s1 = v_cells s \<and>
    (\<forall>x\<in>set xs. last_slot \<le> snd x \<longrightarrow> (\<exists>u. upvalue_at (objs_of (v_mem s1)) (fst x) = Some u \<and>
       up_value u = UpClosed \<and> v_cells s (snd x) = Some (Some (up_closed u)))) \<and>
    (\<forall>x\<in>set xs. upvalue_reads s1 (fst x) = upvalue_reads s (fst x))"
proof -
  have l: "upv_list (objs_of (v_mem s)) (v_openUpvalues s) xs" "descending xs"
    using assms(1) by (auto simp: open_list_def)
  have v: "v_cells s (snd x) = Some (Some (slot_value s (snd x)))" if "x \<in> set xs" for x
    using assms(2) that by (auto simp: slot_value_def)
  obtain s1 where s1: "close_from last_slot s = Some s1"
    "upv_list (objs_of (v_mem s1)) (v_openUpvalues s1) (filter (\<lambda>x. snd x < last_slot) xs)"
    "v_cells s1 = v_cells s"
    "\<forall>x\<in>set xs. last_slot \<le> snd x \<longrightarrow> (\<exists>u. upvalue_at (objs_of (v_mem s1)) (fst x) = Some u \<and>
       up_value u = UpClosed \<and> up_closed u = slot_value s (snd x))"
    using close_from_spec [OF l v, of last_slot] by blast
  have "upvalue_reads s1 (fst x) = upvalue_reads s (fst x)" if x: "x \<in> set xs" for x
  proof -
    have r: "upvalue_reads s (fst x) = Some (slot_value s (snd x))"
      using upv_list_member [OF l(1) x] v [OF x] by (auto simp: upvalue_reads_open)
    show ?thesis
    proof (cases "last_slot \<le> snd x")
      case True
      then show ?thesis using s1(4) x r by (auto simp: upvalue_reads_closed)
    next
      case False
      then show ?thesis using upv_list_member [OF s1(2), of x] x r v [OF x] s1(3) by (auto simp: upvalue_reads_open)
    qed
  qed
  moreover have "closeUpvalues last_slot s = Some (Inr (), s1)" by (simp add: closeUpvalues_def s1(1))
  ultimately show ?thesis using s1(2-4) v descending_filter [OF l(2)] by (fastforce simp: open_list_def)
qed

theorem closeUpvalues_closes_witness:
  "\<exists>s1. closeUpvalues 5 two_upvalues = Some (Inr (), s1) \<and> open_list s1 [(24, 3)] \<and>
    upvalue_reads s1 16 = upvalue_reads two_upvalues 16"
  using closeUpvalues_closes [OF two_upvalues_open, of 5] by (auto simp: two_upvalues_simps)

end
