(* ===== verification/Clox_Throw_Laws.thy ===== *)
theory Clox_Throw_Laws
  imports Clox_Throw Clox_Upvalue_Laws
begin

text \<open>The search for the handler of an error (findThrowJumpLoc in vm.c) ends: it leaves a frame or a
  context in each round. What an action does to the contexts is described by the number of frames in
  each of them.\<close>

subsection \<open>The shape of the contexts\<close>

definition shape :: "vmst \<Rightarrow> nat list" where "shape s = map (\<lambda>c. length (xc_frames c)) (v_ecs s)"

definition shapes :: "(nat list \<Rightarrow> nat list) \<Rightarrow> 'a vact \<Rightarrow> bool" where
  "shapes f m \<longleftrightarrow> (\<forall>s r s1. m s = Some (r, s1) \<longrightarrow> \<not> isl r \<and> shape s1 = f (shape s))"

abbreviation steady :: "'a vact \<Rightarrow> bool" where "steady \<equiv> shapes id"

named_theorems steady_rules

lemma VMNumCallFrames_shape: "VMNumCallFrames s = sum_list (shape s)"
  by (simp add: VMNumCallFrames_def shape_def)

lemma shapesD: "shapes f m \<Longrightarrow> m s = Some (Inr a, s1) \<Longrightarrow> shape s1 = f (shape s)"
  by (auto simp: shapes_def)

lemma shapes_no_jump: "shapes f m \<Longrightarrow> m s \<noteq> Some (Inl j, s1)"
  unfolding shapes_def by (metis sum.disc(1))

lemma shapes_vbnd:
  assumes "shapes f m" "\<And>a. shapes g (n a)"
  shows "shapes (g \<circ> f) (vbnd m n)"
  using assms unfolding shapes_def vact_simps by (fastforce split: option.splits sum.splits)

lemma steady_vbnd [steady_rules]: "steady m \<Longrightarrow> (\<And>a. steady (n a)) \<Longrightarrow> steady (vbnd m n)"
  using shapes_vbnd [of id m id n] by simp

lemma steady_then: "steady m \<Longrightarrow> (\<And>a. shapes f (n a)) \<Longrightarrow> shapes f (vbnd m n)"
  using shapes_vbnd [of id m f n] by simp

lemma shapes_vthn: "shapes f m \<Longrightarrow> steady n \<Longrightarrow> shapes f (vthn m n)"
  using shapes_vbnd [of f m id "\<lambda>_. n"] by (simp add: vthn_def)

lemma steady_vthn_then: "steady m \<Longrightarrow> shapes f n \<Longrightarrow> shapes f (vthn m n)"
  by (simp add: vthn_def steady_then)

lemma steady_basic [steady_rules]:
  "steady (vret a)" "steady vskip" "steady fails" "steady (vget g)" "steady (vthe x)" "steady (vassert b)" "steady vheap"
  "steady (vmem k)" "steady (vmem_upd h)" "steady (vmem_opt l)" "steady EC"
  by (auto simp: shapes_def vact_simps fails_def vthe_def vassert_def vheap_def vmem_def vmem_upd_def vmem_opt_def
      shape_def EC_def split: option.splits list.splits if_splits)

lemma steady_vthn [steady_rules]: "steady m \<Longrightarrow> steady n \<Longrightarrow> steady (vthn m n)"
  by (rule shapes_vthn)

lemma steady_vwhen [steady_rules]: "steady m \<Longrightarrow> steady (vwhen b m)"
  by (simp add: vwhen_def steady_rules)

lemma steady_vmod [steady_rules]: "(\<And>s. shape (k s) = shape s) \<Longrightarrow> steady (vmod k)"
  by (simp add: shapes_def vact_simps)

lemma steady_on_ctx [steady_rules]: "(\<And>c. length (xc_frames (f c)) = length (xc_frames c)) \<Longrightarrow> steady (on_ctx f)"
  unfolding on_ctx_def upd_ctx_def by (intro steady_rules) (auto simp: shape_def split: list.splits)

lemma steady_if [steady_rules]: "steady m \<Longrightarrow> steady n \<Longrightarrow> steady (if b then m else n)"
  by simp

lemma steady_option [steady_rules]: "steady m \<Longrightarrow> (\<And>a. steady (n a)) \<Longrightarrow> steady (case x of None \<Rightarrow> m | Some a \<Rightarrow> n a)"
  by (cases x) auto

lemma steady_list [steady_rules]:
  "steady m \<Longrightarrow> (\<And>a as. steady (n a as)) \<Longrightarrow> steady (case x of [] \<Rightarrow> m | a # as \<Rightarrow> n a as)"
  by (cases x) auto

lemma steady_frames [steady_rules]: "steady getFrame" "steady (frame p)" "steady top_frame"
  unfolding getFrame_def frame_def top_frame_def by (intro steady_rules)+

lemma steady_upd_frame [steady_rules]: "steady (upd_frame p f)"
  unfolding upd_frame_def by (intro steady_rules) (simp add: shape_def comp_def if_distrib cong: if_cong)

lemma steady_close_from:
  assumes "close_from l s = Some s1"
  shows "v_ecs s1 = v_ecs s"
proof (rule close_from.raw_induct [where P = "\<lambda>l s s1. v_ecs s1 = v_ecs s", OF _ assms])
  fix f :: "slot \<Rightarrow> vmst \<Rightarrow> vmst option" and l s s1
  assume "\<And>l s s1. f l s = Some s1 \<Longrightarrow> v_ecs s1 = v_ecs s"
  then have "\<And>p u v. f l (close_first p u v s) = Some s1 \<Longrightarrow> v_ecs s1 = v_ecs s" by (fastforce simp: close_first_def)
  moreover assume "(if v_openUpvalues s = NULL then Some s
      else case upvalue_at (objs_of (v_mem s)) (v_openUpvalues s) of
        None \<Rightarrow> None
      | Some u \<Rightarrow>
          (case up_value u of
             UpSlot a \<Rightarrow>
               if a < l then Some s
               else (case v_cells s a of
                       Some (Some v) \<Rightarrow> f l (close_first (v_openUpvalues s) u v s)
                     | _ \<Rightarrow> None)
           | UpClosed \<Rightarrow> None)) = Some s1"
  ultimately show "v_ecs s1 = v_ecs s" by (auto split: if_splits option.splits upvalue_ref.splits)
qed

lemma steady_closeUpvalues [steady_rules]: "steady (closeUpvalues l)"
  by (auto simp: shapes_def closeUpvalues_def shape_def dest: steady_close_from)

subsection \<open>Popping a frame\<close>

fun one_less :: "nat list \<Rightarrow> nat list" where
  "one_less [] = []"
| "one_less (n # ns) = (n - 1) # ns"

lemma steady_set_roGlobal [steady_rules]: "steady (set_roGlobal env name v)"
  unfolding set_roGlobal_def vtset_def by (intro steady_rules) (auto intro!: steady_rules split: prod.split)

lemma steady_resume_frame [steady_rules]: "steady (resume_frame env n)"
  unfolding resume_frame_def by (intro steady_rules) simp

lemma steady_leave_ccall [steady_rules]: "steady leave_ccall"
  unfolding leave_ccall_def clear_stackObjects_def by (intro steady_rules) (simp add: shape_def)

lemma steady_unwind [steady_rules]: "steady (unwindErrInfo p)"
  unfolding unwindErrInfo_def by (intro steady_rules) (simp add: shape_def split: prod.split)

lemma steady_popCref [steady_rules]: "steady popCref"
  unfolding popCref_def by (intro steady_rules) (simp add: shape_def)

lemma steady_popThis [steady_rules]: "steady popThis"
  unfolding popThis_def Let_def vseqs.simps by (intro steady_rules) (simp_all add: shape_def)

lemma shapes_butlast: "shapes one_less (on_ctx (\<lambda>c. c\<lparr>xc_frames := butlast (xc_frames c)\<rparr>))"
  by (auto simp: shapes_def on_ctx_def vact_simps EC_def upd_ctx_def shape_def split: list.splits)

lemma shapes_popFrame: "shapes one_less (popFrame env)"
  unfolding popFrame_def vseqs.simps
  by (intro steady_then steady_vthn_then steady_rules shapes_vthn [OF shapes_butlast])

lemma shapes_pop_EC: "shapes tl pop_EC"
  by (auto simp: shapes_def pop_EC_def cells_free_def vwhen_def vact_simps EC_def shape_def map_tl split: list.splits)

subsection \<open>The rows of a catch table\<close>

lemma steady_string_text [steady_rules]: "steady (string_text p)" "steady (vinfo p)" "steady (vtget env t k)" "steady (v_subclass k k')"
  "steady (new_text env x)"
  unfolding string_text_def vinfo_def vtget_def v_subclass_def new_text_def valloc_def by (intro steady_rules)+

lemma steady_find_base [steady_rules]: "steady (find_base env klass name)"
  unfolding find_base_def Let_def by (intro steady_rules)

lemma steady_find_parts [steady_rules]: "steady (find_parts env name npart left base)"
proof (induction left arbitrary: npart base)
  case (Suc left)
  show ?case unfolding find_parts.simps by (intro steady_rules Suc.IH)
qed (simp add: steady_rules)

lemma steady_findConstantUnder [steady_rules]: "steady (findConstantUnder env klass name)"
  unfolding findConstantUnder_def Let_def by (intro steady_rules)

lemma steady_scan_rows [steady_rules]: "steady (scan_rows env klass off anywhere i ens rows)"
proof (induction rows arbitrary: i ens)
  case (Cons r rs)
  show ?case unfolding scan_rows.simps by (intro steady_rules Cons.IH)
qed (simp add: steady_rules)

lemma steady_upd_row [steady_rules]: "steady (upd_row func i f)"
  unfolding upd_row_def by (intro steady_rules) (simp add: shape_def)

lemma steady_chunk [steady_rules]: "steady currentChunk" "steady (chunk_of func)"
  unfolding currentChunk_def frame_function_def closure_at_def chunk_of_def by (intro steady_rules)+

subsection \<open>The search\<close>

lemma vbnd_result:
  assumes "vbnd m f s = Some (Inr b, s2)"
  obtains a s1 where "m s = Some (Inr a, s1)" "f a s1 = Some (Inr b, s2)"
  using assms by (auto simp: vact_simps split: option.splits sum.splits)

lemma vbnd_vget: "vbnd (vget g) f s = f (g s) s"
  by (simp add: vact_simps)

lemma vbnd_EC: "v_ecs s = c # cs \<Longrightarrow> vbnd EC f s = f c s"
  by (simp add: vact_simps EC_def)

text \<open>Leaving takes one frame off.\<close>

lemma leave_frame_less:
  assumes "leave_frame env off s = Some (Inr (Some l), s1)"
  shows "VMNumCallFrames s1 < VMNumCallFrames s"
proof -
  obtain c cs where c: "v_ecs s = c # cs"
    using assms by (auto simp: leave_frame_def vact_simps EC_def split: list.splits)
  have run: "(if length (c # cs) = 1 \<and> length (xc_frames c) = 1 then vret None
     else if length (xc_frames c) = 1
     then vthn pop_EC (vbnd EC (\<lambda>c1. vbnd top_frame (\<lambda>f.
            vthn (vassert (xc_stackTop c1 > cf_slots f)) (vret (Some (off, True))))))
     else vbnd top_frame (\<lambda>f. vthn (vseqs [
            vassert (xc_stackTop c \<ge> cf_slots f),
            on_ctx (\<lambda>c. c\<lparr>xc_stackTop := cf_slots f\<rparr>),
            popFrame env]) (vret (Some (cf_start f, False))))) s = Some (Inr (Some l), s1)"
    using assms unfolding leave_frame_def vbnd_vget vbnd_EC [OF c] c .
  show ?thesis
  proof (cases "length (xc_frames c) = 1")
    case True
    have "shapes tl (vthn pop_EC (vbnd EC (\<lambda>c1. vbnd top_frame (\<lambda>f.
        vthn (vassert (xc_stackTop c1 > cf_slots f)) (vret (Some (off, True)))))))"
      by (intro shapes_vthn shapes_pop_EC steady_rules)
    from shapesD [OF this] have "shape s1 = tl (shape s)" using run True by (auto simp: vact_simps split: if_splits)
    then show ?thesis using True c by (simp add: VMNumCallFrames_shape) (simp add: shape_def)
  next
    case False
    have "shapes one_less (vbnd top_frame (\<lambda>f. vthn (vseqs [
        vassert (xc_stackTop c \<ge> cf_slots f), on_ctx (\<lambda>c. c\<lparr>xc_stackTop := cf_slots f\<rparr>), popFrame env])
        (vret (Some (cf_start f, False)))))"
      unfolding vseqs.simps by (intro steady_then steady_rules shapes_vthn steady_vthn_then shapes_popFrame) simp
    from shapesD [OF this] have "shape s1 = one_less (shape s)" using run False by simp
    moreover have "xc_frames c \<noteq> []"
      using run False by (auto simp: vact_simps top_frame_def getFrame_def EC_def c vassert_def fails_def)
    ultimately show ?thesis using c by (simp add: VMNumCallFrames_shape) (simp add: shape_def)
  qed
qed

lemma steady_calls:
  assumes "steady m" "m s = Some (Inr a, s1)"
  shows "VMNumCallFrames s1 = VMNumCallFrames s"
  using shapesD [OF assms] by (simp add: VMNumCallFrames_shape)

text \<open>What follows in a round after the rows were scanned, with the rest of the search as a parameter.\<close>

definition search_rest :: "vm_env \<Rightarrow> int \<Rightarrow> bool \<Rightarrow> addr \<Rightarrow> chunk \<Rightarrow>
    (int \<Rightarrow> bool \<Rightarrow> (addr \<times> nat \<times> int) option vact) \<Rightarrow> rows_result \<Rightarrow> (addr \<times> nat \<times> int) option vact" where
  "search_rest env off anywhere func ck go r =
    (let leave = vbnd (leave_frame env off) (\<lambda>l. case l of
           None \<Rightarrow> vret None | Some (off1, popped) \<Rightarrow> go off1 (anywhere \<or> popped))
     in case r of
       Caught i \<Rightarrow> vthn (pop_native_frames env) (vret (Some (func, i, ct_itarget (ck_catchTbl ck ! i))))
     | Nothing None \<Rightarrow> leave
     | Nothing (Some i) \<Rightarrow>
         if ct_isEnsureRunning (ck_catchTbl ck ! i)
         then vthn (upd_row func i (\<lambda>row. row\<lparr>ct_isEnsureRunning := False\<rparr>)) leave
         else vthn (vseqs [pop_native_frames env, upd_row func i (\<lambda>row. row\<lparr>ct_isEnsureRunning := True\<rparr>)])
                (vret (Some (func, i, ct_itarget (ck_catchTbl ck ! i)))))"

lemma vbnd_cong:
  assumes "\<And>a s1. m s = Some (Inr a, s1) \<Longrightarrow> f a s1 = g a s1"
  shows "vbnd m f s = vbnd m g s"
  using assms by (auto simp: vact_simps split: option.splits sum.splits)

lemma leave_cong:
  assumes "\<And>s1 off1 b. VMNumCallFrames s1 < VMNumCallFrames s \<Longrightarrow> go off1 b s1 = go' off1 b s1"
  shows "vbnd (leave_frame env off) (\<lambda>l. case l of
        None \<Rightarrow> vret None | Some (off1, popped) \<Rightarrow> go off1 (anywhere \<or> popped)) s =
     vbnd (leave_frame env off) (\<lambda>l. case l of
        None \<Rightarrow> vret None | Some (off1, popped) \<Rightarrow> go' off1 (anywhere \<or> popped)) s"
proof (rule vbnd_cong)
  fix l s1
  assume "leave_frame env off s = Some (Inr l, s1)"
  then show "(case l of None \<Rightarrow> vret None | Some (off1, popped) \<Rightarrow> go off1 (anywhere \<or> popped)) s1 =
      (case l of None \<Rightarrow> vret None | Some (off1, popped) \<Rightarrow> go' off1 (anywhere \<or> popped)) s1"
    by (cases l) (auto intro: assms dest: leave_frame_less)
qed

lemma search_rest_cong:
  assumes "\<And>s1 off1 b. VMNumCallFrames s1 < VMNumCallFrames s \<Longrightarrow> go off1 b s1 = go' off1 b s1"
  shows "search_rest env off anywhere func ck go r s = search_rest env off anywhere func ck go' r s"
proof -
  have l: "vbnd (leave_frame env off) (\<lambda>l. case l of
        None \<Rightarrow> vret None | Some (off1, popped) \<Rightarrow> go off1 (anywhere \<or> popped)) s1 =
     vbnd (leave_frame env off) (\<lambda>l. case l of
        None \<Rightarrow> vret None | Some (off1, popped) \<Rightarrow> go' off1 (anywhere \<or> popped)) s1"
    if "VMNumCallFrames s1 = VMNumCallFrames s" for s1
    using assms that by (intro leave_cong) simp
  have u: "vthn (upd_row func i h) (vbnd (leave_frame env off) (\<lambda>l. case l of
        None \<Rightarrow> vret None | Some (off1, popped) \<Rightarrow> go off1 (anywhere \<or> popped))) s =
     vthn (upd_row func i h) (vbnd (leave_frame env off) (\<lambda>l. case l of
        None \<Rightarrow> vret None | Some (off1, popped) \<Rightarrow> go' off1 (anywhere \<or> popped))) s" for i h
    unfolding vthn_def by (intro vbnd_cong l steady_calls [OF steady_upd_row])
  show ?thesis unfolding search_rest_def Let_def
    by (simp only: l u split: rows_result.split option.split if_split) simp
qed

lemma throw_search_Suc:
  "throw_search env klass (Suc n) off anywhere = vbnd currentChunk (\<lambda>func. vbnd (chunk_of func) (\<lambda>ck.
     vbnd (scan_rows env klass off anywhere 0 None (ck_catchTbl ck))
       (search_rest env off anywhere func ck (throw_search env klass n))))"
  by (simp add: search_rest_def [abs_def])

subsection \<open>No jumps\<close>

definition no_jump :: "'a vact \<Rightarrow> vmst \<Rightarrow> bool" where
  "no_jump m s \<longleftrightarrow> (\<forall>j s1. m s \<noteq> Some (Inl j, s1))"

lemma no_jump_shapes: "shapes f m \<Longrightarrow> no_jump m s"
  by (auto simp: no_jump_def dest: shapes_no_jump)

lemma no_jump_vbnd:
  assumes "no_jump m s" "\<And>a s1. m s = Some (Inr a, s1) \<Longrightarrow> no_jump (f a) s1"
  shows "no_jump (vbnd m f) s"
  using assms unfolding no_jump_def vact_simps by (auto split: option.splits sum.splits)

lemma no_jump_vthn:
  assumes "no_jump m s" "\<And>a s1. m s = Some (Inr a, s1) \<Longrightarrow> no_jump n s1"
  shows "no_jump (vthn m n) s"
  unfolding vthn_def using assms by (rule no_jump_vbnd)

definition top_calls :: "vmst \<Rightarrow> nat" where "top_calls s = (case shape s of [] \<Rightarrow> 0 | n # _ \<Rightarrow> n)"

lemma pop_native_no_jump: "top_calls s < n \<Longrightarrow> no_jump (pop_native env n) s"
proof (induction n arbitrary: s)
  case (Suc n)
  have "no_jump (vthn (popFrame env) (pop_native env n)) s1" if t: "top_frame s = Some (Inr f, s1)" for f s1
  proof (rule no_jump_vthn [OF no_jump_shapes [OF shapes_popFrame]])
    fix a s2
    assume p: "popFrame env s1 = Some (Inr a, s2)"
    have "shape s2 = one_less (shape s)"
      using shapesD [OF shapes_popFrame p] shapesD [OF steady_frames(3) t] by simp
    moreover have "0 < top_calls s"
      using t by (auto simp: top_frame_def getFrame_def EC_def vact_simps vassert_def fails_def top_calls_def shape_def
          split: list.splits if_splits)
    ultimately have "top_calls s2 < n" using Suc.prems by (auto simp: top_calls_def split: list.splits)
    then show "no_jump (pop_native env n) s2" by (rule Suc.IH)
  qed
  moreover have "no_jump vskip s1" for s1 by (rule no_jump_shapes [OF steady_basic(2)])
  ultimately show ?case unfolding pop_native.simps
    by (intro no_jump_vbnd [OF no_jump_shapes [OF steady_frames(3)]]) simp
qed simp

lemma pop_native_frames_no_jump: "no_jump (pop_native_frames env) s"
  unfolding pop_native_frames_def
proof (rule no_jump_vbnd [OF no_jump_shapes [OF steady_basic(11)]])
  fix c s1
  assume "EC s = Some (Inr c, s1)"
  then have "top_calls s1 < length (xc_frames c) + 1"
    by (auto simp: EC_def top_calls_def shape_def split: list.splits)
  then show "no_jump (pop_native env (length (xc_frames c) + 1)) s1" by (rule pop_native_no_jump)
qed

lemma leave_frame_no_jump: "no_jump (leave_frame env off) s"
proof (cases "v_ecs s")
  case Nil
  then show ?thesis by (simp add: no_jump_def leave_frame_def vbnd_vget) (simp add: vact_simps EC_def)
next
  case (Cons c cs)
  have 1: "shapes tl (vthn pop_EC (vbnd EC (\<lambda>c1. vbnd top_frame (\<lambda>f.
      vthn (vassert (xc_stackTop c1 > cf_slots f)) (vret (Some (off, True)))))))"
    by (intro shapes_vthn shapes_pop_EC steady_rules)
  have 2: "shapes one_less (vbnd top_frame (\<lambda>f. vthn (vseqs [
      vassert (xc_stackTop c \<ge> cf_slots f), on_ctx (\<lambda>c. c\<lparr>xc_stackTop := cf_slots f\<rparr>), popFrame env])
      (vret (Some (cf_start f, False)))))"
    unfolding vseqs.simps by (intro steady_then steady_rules shapes_vthn steady_vthn_then shapes_popFrame) simp
  show ?thesis
    unfolding no_jump_def leave_frame_def vbnd_vget vbnd_EC [OF Cons]
    using shapes_no_jump [OF 1] shapes_no_jump [OF 2] by (auto simp: vact_simps split: if_splits)
qed

lemma search_rest_no_jump:
  assumes "\<And>s1 off1 b. VMNumCallFrames s1 < VMNumCallFrames s \<Longrightarrow> no_jump (go off1 b) s1"
  shows "no_jump (search_rest env off anywhere func ck go r) s"
proof -
  have v: "no_jump (vret x) s1" for x s1 by (rule no_jump_shapes [OF steady_basic(1)])
  have l: "no_jump (vbnd (leave_frame env off) (\<lambda>l. case l of
        None \<Rightarrow> vret None | Some (off1, popped) \<Rightarrow> go off1 (anywhere \<or> popped))) s1"
    if "VMNumCallFrames s1 = VMNumCallFrames s" for s1
  proof (rule no_jump_vbnd [OF leave_frame_no_jump])
    fix l s2
    assume "leave_frame env off s1 = Some (Inr l, s2)"
    then show "no_jump (case l of None \<Rightarrow> vret None | Some (off1, popped) \<Rightarrow> go off1 (anywhere \<or> popped)) s2"
      using that by (cases l) (auto intro!: assms simp: v dest: leave_frame_less)
  qed
  have u: "no_jump (upd_row func i h) s1" for i h s1 by (rule no_jump_shapes [OF steady_upd_row])
  have e: "no_jump (vseqs [pop_native_frames env, upd_row func i h]) s" for i h
    unfolding vseqs.simps
    by (intro no_jump_vthn pop_native_frames_no_jump u no_jump_shapes [OF steady_basic(2)])
  have ul: "no_jump (vthn (upd_row func i h) (vbnd (leave_frame env off) (\<lambda>l. case l of
        None \<Rightarrow> vret None | Some (off1, popped) \<Rightarrow> go off1 (anywhere \<or> popped)))) s" for i h
    by (intro no_jump_vthn u l steady_calls [OF steady_upd_row])
  show ?thesis unfolding search_rest_def Let_def
    by (auto simp del: vseqs.simps split: rows_result.split option.split
        intro: l ul no_jump_vthn [OF pop_native_frames_no_jump v] no_jump_vthn [OF e v])
qed

lemma no_jump_rows:
  assumes "\<And>func ck r s1. VMNumCallFrames s1 = VMNumCallFrames s \<Longrightarrow> no_jump (k func ck r) s1"
  shows "no_jump (vbnd currentChunk (\<lambda>func. vbnd (chunk_of func) (\<lambda>ck.
     vbnd (scan_rows env klass off anywhere 0 None (ck_catchTbl ck)) (k func ck)))) s"
proof (intro no_jump_vbnd no_jump_shapes [OF steady_chunk(1)] no_jump_shapes [OF steady_chunk(2)]
    no_jump_shapes [OF steady_scan_rows] assms)
  fix func s1 ck s2 r s3
  assume "currentChunk s = Some (Inr func, s1)" "chunk_of func s1 = Some (Inr ck, s2)"
    "scan_rows env klass off anywhere 0 None (ck_catchTbl ck) s2 = Some (Inr r, s3)"
  then show "VMNumCallFrames s3 = VMNumCallFrames s"
    using steady_calls [OF steady_chunk(1)] steady_calls [OF steady_chunk(2)] steady_calls [OF steady_scan_rows] by metis
qed

lemma throw_search_no_jump: "VMNumCallFrames s < n \<Longrightarrow> no_jump (throw_search env klass n off anywhere) s"
proof (induction n arbitrary: s off anywhere)
  case (Suc n)
  show ?case unfolding throw_search_Suc
    using Suc.prems by (intro no_jump_rows search_rest_no_jump Suc.IH) simp
qed simp

lemma throw_search_fuel:
  "VMNumCallFrames s < n \<Longrightarrow> VMNumCallFrames s < m \<Longrightarrow>
    throw_search env klass n off anywhere s = throw_search env klass m off anywhere s"
proof (induction n arbitrary: s m off anywhere)
  case (Suc n)
  obtain k where m: "m = Suc k" using Suc.prems(2) by (cases m) auto
  show ?case unfolding m throw_search_Suc
  proof (intro vbnd_cong search_rest_cong Suc.IH)
    fix func s1 ck s2 r s3 s4
    assume a: "currentChunk s = Some (Inr func, s1)" "chunk_of func s1 = Some (Inr ck, s2)"
      "scan_rows env klass off anywhere 0 None (ck_catchTbl ck) s2 = Some (Inr r, s3)"
      "VMNumCallFrames s4 < VMNumCallFrames s3"
    have "VMNumCallFrames s3 = VMNumCallFrames s"
      using a steady_calls [OF steady_chunk(1)] steady_calls [OF steady_chunk(2)] steady_calls [OF steady_scan_rows] by metis
    then show "VMNumCallFrames s4 < n" "VMNumCallFrames s4 < k" using a(4) Suc.prems m by simp_all
  qed
qed simp

text \<open>C13: the search for the handler of an error ends in every state, also when each row is looked at,
  no row fits and every ensure row has run before. A round that goes on leaves a frame, so with fuel for
  one round more than there are frames in all contexts, which is what findThrowJumpLoc gives, the
  search never runs out of fuel, and more fuel changes nothing.\<close>

theorem findThrowJumpLoc_ends:
  assumes "top_frame s = Some (Inr f, s)" "VMNumCallFrames s < n"
  shows "findThrowJumpLoc env klass s = throw_search env klass n (cf_ip f) False s \<and>
    (\<forall>s1. throw_search env klass n (cf_ip f) False s \<noteq> Some (Inl JFuel, s1))"
proof -
  have "findThrowJumpLoc env klass s = throw_search env klass (VMNumCallFrames s + 1) (cf_ip f) False s"
    using assms(1) by (simp add: findThrowJumpLoc_def vact_simps del: throw_search.simps)
  then show ?thesis
    using throw_search_fuel [of s "VMNumCallFrames s + 1" n] throw_search_no_jump [OF assms(2)] assms(2)
    by (auto simp: no_jump_def simp del: throw_search.simps)
qed

text \<open>A thread with one context and one frame, of a function without catch table.\<close>

definition example_frame :: call_frame where
  "example_frame = \<lparr>cf_closure = NULL, cf_name = NULL, cf_ip = 0, cf_start = 0, cf_slots = 0, cf_scope = NULL,
     cf_instance = NULL, cf_klass = NULL, cf_isCCall = False, cf_isEval = False, cf_nativeFunc = NULL,
     cf_callLine = 1, cf_file = NULL, cf_jmpBufSet = False, cf_prev = None, cf_stackAdjustOnPop = 0, cf_callInfo = None\<rparr>"

definition example_context :: vm_context where
  "example_context = \<lparr>xc_stack = 0, xc_capa = 4, xc_stackTop = 0, xc_framesId = 1, xc_framesCapa = 4,
     xc_frames = [example_frame], xc_roGlobals = initTable, xc_filename = NULL, xc_lastValue = None,
     xc_evalContext = False, xc_loadContext = False, xc_stackAllocated = True\<rparr>"

definition search_state :: vmst where
  "search_state = (thread_start (vm_mem [16 \<mapsto> vm_obj (BClosure \<lparr>cl_function = 48, cl_upvalues = [],
       cl_upvalueCount = 0, cl_isBlock = False\<rparr>)]))\<lparr>
     v_ecs := [example_context\<lparr>xc_frames := [example_frame\<lparr>cf_closure := 16\<rparr>]\<rparr>],
     v_fnInfo := [48 \<mapsto> \<lparr>fi_chunk = initChunk, fi_scopes = [], fi_variables = [], fi_upvaluesInfo = [], fi_defaults = []\<rparr>]\<rparr>"

theorem findThrowJumpLoc_ends_witness:
  "\<exists>f. top_frame search_state = Some (Inr f, search_state) \<and>
    (\<forall>env s1. findThrowJumpLoc env 8 search_state = throw_search env 8 7 (cf_ip f) False search_state \<and>
       throw_search env 8 7 (cf_ip f) False search_state \<noteq> Some (Inl JFuel, s1))"
proof (intro exI conjI allI)
  let ?f = "example_frame\<lparr>cf_closure := 16\<rparr>"
  show t: "top_frame search_state = Some (Inr ?f, search_state)"
    by (simp add: top_frame_def getFrame_def frame_def frame_at_def EC_def vact_simps vact_more search_state_def
        example_context_def)
  have n: "VMNumCallFrames search_state < 7"
    by (simp add: VMNumCallFrames_def search_state_def example_context_def)
  show "findThrowJumpLoc env 8 search_state = throw_search env 8 7 (cf_ip ?f) False search_state"
    "throw_search env 8 7 (cf_ip ?f) False search_state \<noteq> Some (Inl JFuel, s1)" for env s1
    using findThrowJumpLoc_ends [OF t n] by blast+
qed

end
