(* ===== verification/Clox_Run_Laws.thy ===== *)
theory Clox_Run_Laws
  imports Clox_Run Clox_Throw_Laws
begin

text \<open>Equations for the operations of the stack, for reading code and for one step of the loop, and
  the properties of arithmetic: an operator computes what constant folding does, and the code of an
  arithmetic expression runs to its value.\<close>

subsection \<open>The stack\<close>

definition marked :: "lxvalue \<Rightarrow> mem \<Rightarrow> mem" where
  "marked v m = (if IS_OBJ v then obj_set_flag (AS_OBJ v) OBJ_FLAG_PUSHED_VM_STACK m else m)"

definition after_push :: "lxvalue \<Rightarrow> vm_context \<Rightarrow> vm_context list \<Rightarrow> vmst \<Rightarrow> vmst" where
  "after_push v c cs s = s\<lparr>v_mem := marked v (v_mem s), v_cells := (v_cells s)(xc_stackTop c \<mapsto> Some v),
     v_ecs := c\<lparr>xc_stackTop := xc_stackTop c + 1\<rparr> # cs\<rparr>"

definition after_pop :: "nat \<Rightarrow> vm_context \<Rightarrow> vm_context list \<Rightarrow> vmst \<Rightarrow> vmst" where
  "after_pop n c cs s = s\<lparr>v_ecs := c\<lparr>xc_stackTop := xc_stackTop c - n, xc_lastValue := Some (xc_stackTop c - n)\<rparr> # cs,
     v_lastValue := Some (xc_stackTop c - n)\<rparr>"

definition after_swap :: "lxvalue \<Rightarrow> vm_context \<Rightarrow> vmst \<Rightarrow> vmst" where
  "after_swap v c s = s\<lparr>v_mem := marked v (v_mem s), v_cells := (v_cells s)(xc_stackTop c - 1 \<mapsto> Some v)\<rparr>"

lemma EC_run: "v_ecs s = c # cs \<Longrightarrow> EC s = Some (Inr c, s)"
  by (simp add: EC_def)

lemma on_ctx_run: "v_ecs s = c # cs \<Longrightarrow> on_ctx f s = Some (Inr (), s\<lparr>v_ecs := f c # cs\<rparr>)"
  by (simp add: on_ctx_def EC_run upd_ctx_def vact_simps)

lemma mark_pushed_run: "mark_pushed v s = Some (Inr (), s\<lparr>v_mem := marked v (v_mem s)\<rparr>)"
  by (simp add: mark_pushed_def marked_def vwhen_def vact_simps vact_more)

lemma cell_write_run:
  "v_cells s a \<noteq> None \<Longrightarrow> cell_write a v s = Some (Inr (), s\<lparr>v_cells := (v_cells s)(a \<mapsto> Some v)\<rparr>)"
  by (auto simp: cell_write_def)

lemma cell_read_run: "v_cells s a = Some (Some v) \<Longrightarrow> cell_read a s = Some (Inr v, s)"
  by (simp add: cell_read_def)

lemma vm_push_run:
  assumes "v_ecs s = c # cs" "xc_stackTop c < xc_stack c + STACK_MAX" "v_cells s (xc_stackTop c) \<noteq> None"
  shows "vm_push v s = Some (Inr (), after_push v c cs s)"
  using assms by (simp add: vm_push_def store_top_def after_push_def EC_run mark_pushed_run on_ctx_run
      cell_write_run vact_simps)

lemma vm_pop_run:
  assumes "v_ecs s = c # cs" "xc_stack c < xc_stackTop c" "v_cells s (xc_stackTop c - 1) = Some (Some v)"
  shows "vm_pop s = Some (Inr v, after_pop 1 c cs s)"
  using assms by (simp add: vm_pop_def pop_def vm_popN_def after_pop_def EC_run on_ctx_run cell_read_run
      vact_simps vact_more)

lemma vm_peek_run:
  assumes "v_ecs s = c # cs" "xc_stack c + n < xc_stackTop c" "v_cells s (xc_stackTop c - 1 - n) = Some (Some v)"
  shows "vm_peek n s = Some (Inr v, s)"
  using assms by (simp add: vm_peek_def peek_at_def EC_run cell_read_run vact_simps vact_more)

lemma vm_pushSwap_run:
  assumes "v_ecs s = c # cs" "v_cells s (xc_stackTop c - 1) \<noteq> None"
  shows "vm_pushSwap v s = Some (Inr (), after_swap v c s)"
  using assms by (simp add: vm_pushSwap_def after_swap_def EC_run mark_pushed_run cell_write_run vact_simps)

lemma vdrop_run: "m s = Some (Inr x, s1) \<Longrightarrow> vdrop m s = Some (Inr (), s1)"
  by (simp add: vdrop_def vact_simps)

subsection \<open>Operators\<close>

definition binary_ops :: "opcode set" where
  "binary_ops = {OP_ADD, OP_SUBTRACT, OP_MULTIPLY, OP_DIVIDE, OP_MODULO, OP_BITOR, OP_BITAND, OP_BITXOR,
     OP_SHOVEL_L, OP_SHOVEL_R}"

lemma fold_numbers_op:
  assumes "code \<in> binary_ops"
  shows "fold_numbers fp code a b =
    (if code \<in> {OP_DIVIDE, OP_MODULO} \<and> is_zero b then Some None else map_option Some (number_op fp code a b))"
  using assms by (auto simp: binary_ops_def fold_numbers_def number_op_def Let_def option.map_comp o_def)

text \<open>The state after an operator has replaced two values by one.\<close>

definition after_binary :: "u64 \<Rightarrow> vm_context \<Rightarrow> vm_context list \<Rightarrow> vmst \<Rightarrow> vmst" where
  "after_binary w c cs s = after_swap w (c\<lparr>xc_stackTop := xc_stackTop c - 1\<rparr>) (after_pop 1 c cs s)"

lemma BINARY_OP_run:
  assumes "v_ecs s = c # cs" "xc_stack c + 1 < xc_stackTop c" "v_cells s (xc_stackTop c - 1) = Some (Some b)"
    "v_cells s (xc_stackTop c - 2) = Some (Some a)" "IS_NUMBER a" "IS_NUMBER b"
  shows "BINARY_OP env code s =
    (if code \<in> {OP_DIVIDE, OP_MODULO} \<and> is_zero b
     then throwErrorFmt env (lxErrClass (ve_cls env)) (tx ''Can'' @ [39] @ tx ''t divide by 0'') s
     else case number_op (ve_fpu env) code a b of
       None \<Rightarrow> None
     | Some w \<Rightarrow> Some (Inr (), after_binary w c cs s))"
proof -
  have p: "vm_peek 0 s = Some (Inr b, s)" "vm_peek 1 s = Some (Inr a, s)"
    using assms by (auto intro!: vm_peek_run simp: numeral_2_eq_2)
  have q: "vm_pop s = Some (Inr b, after_pop 1 c cs s)" using assms by (intro vm_pop_run) auto
  have r: "vm_pushSwap w (after_pop 1 c cs s) = Some (Inr (), after_binary w c cs s)" for w
    using assms(4) unfolding after_binary_def
    by (subst vm_pushSwap_run [of _ "c\<lparr>xc_stackTop := xc_stackTop c - 1, xc_lastValue := Some (xc_stackTop c - 1)\<rparr>" cs])
      (simp_all add: after_pop_def after_swap_def numeral_2_eq_2)
  show ?thesis
    using assms(5,6) vdrop_run [of vm_pop, OF q]
    by (simp add: BINARY_OP_def p r vact_simps vact_more numberToValue_def valueToNumber_def set_top_def vthe_def fails_def
        del: One_nat_def split: option.splits)
qed

subsection \<open>Fetching\<close>

text \<open>A word of the code with its line.\<close>

definition word_at_ip :: "chunk \<Rightarrow> nat \<Rightarrow> u32 \<Rightarrow> bool" where
  "word_at_ip ck i w \<longleftrightarrow> i < length (ck_code ck) \<and> ck_code ck ! i = Some w \<and>
     i < length (ck_lines ck) \<and> ck_lines ck ! i \<noteq> None"

definition words_from :: "chunk \<Rightarrow> nat \<Rightarrow> u32 list \<Rightarrow> bool" where
  "words_from ck i ws \<longleftrightarrow> (\<forall>k<length ws. word_at_ip ck (i + k) (ws ! k))"

lemma words_from_append: "words_from ck i (xs @ ys) \<longleftrightarrow> words_from ck i xs \<and> words_from ck (i + length xs) ys"
proof
  assume r: "words_from ck i (xs @ ys)"
  have "word_at_ip ck (i + length xs + k) (ys ! k)" if "k < length ys" for k
    using r [unfolded words_from_def, rule_format, of "length xs + k"] that by (simp add: add.assoc)
  moreover have "word_at_ip ck (i + k) (xs ! k)" if "k < length xs" for k
    using r [unfolded words_from_def, rule_format, of k] that by (simp add: nth_append)
  ultimately show "words_from ck i xs \<and> words_from ck (i + length xs) ys" by (simp add: words_from_def)
next
  assume l: "words_from ck i xs \<and> words_from ck (i + length xs) ys"
  have "word_at_ip ck (i + k) ((xs @ ys) ! k)" if "k < length (xs @ ys)" for k
  proof (cases "k < length xs")
    case False
    then obtain j where j: "k = length xs + j" by (metis le_iff_add not_less)
    then have "word_at_ip ck (i + length xs + j) (ys ! j)"
      using l that unfolding words_from_def by auto
    then show ?thesis using j by (simp add: nth_append add.assoc)
  qed (use l in \<open>auto simp: words_from_def nth_append\<close>)
  then show "words_from ck i (xs @ ys)" by (simp add: words_from_def)
qed

lemma words_from_Cons: "words_from ck i (w # ws) \<longleftrightarrow> word_at_ip ck i w \<and> words_from ck (i + 1) ws"
  using words_from_append [of ck i "[w]" ws] by (simp add: words_from_def)

text \<open>The frame of an activation is in the current context, and its chunk is known.\<close>

definition ready :: "activation \<Rightarrow> chunk \<Rightarrow> vmst \<Rightarrow> bool" where
  "ready a ck s \<longleftrightarrow> (\<exists>c cs. v_ecs s = c # cs \<and> xc_framesId c = fst (ac_frame a) \<and>
     snd (ac_frame a) < length (xc_frames c) \<and> (\<forall>k\<in>set cs. xc_framesId k \<noteq> fst (ac_frame a)) \<and>
     xc_stack c \<le> xc_stackTop c) \<and>
     (\<exists>fi. v_fnInfo s (ac_func a) = Some fi \<and> fi_chunk fi = ck) \<and> \<not> v_hadError s \<and> \<not> v_exited s"

definition top_ctx :: "vmst \<Rightarrow> vm_context" where "top_ctx s = hd (v_ecs s)"

definition ip_of :: "activation \<Rightarrow> vmst \<Rightarrow> int" where
  "ip_of a s = cf_ip (xc_frames (top_ctx s) ! snd (ac_frame a))"

definition move_ip :: "activation \<Rightarrow> vmst \<Rightarrow> vmst" where
  "move_ip a s = s\<lparr>v_ecs := (top_ctx s)\<lparr>xc_frames := (xc_frames (top_ctx s))[snd (ac_frame a) :=
     (xc_frames (top_ctx s) ! snd (ac_frame a))\<lparr>cf_ip := ip_of a s + 1\<rparr>]\<rparr> # tl (v_ecs s)\<rparr>"

lemma readyD:
  assumes "ready a ck s"
  obtains cs where "v_ecs s = top_ctx s # cs" "xc_framesId (top_ctx s) = fst (ac_frame a)"
    "snd (ac_frame a) < length (xc_frames (top_ctx s))" "\<forall>k\<in>set cs. xc_framesId k \<noteq> fst (ac_frame a)"
    "xc_stack (top_ctx s) \<le> xc_stackTop (top_ctx s)"
  using assms by (auto simp: ready_def top_ctx_def)

lemma frame_run:
  assumes "ready a ck s"
  shows "frame (ac_frame a) s = Some (Inr (xc_frames (top_ctx s) ! snd (ac_frame a)), s)"
proof -
  obtain cs where "v_ecs s = top_ctx s # cs" "xc_framesId (top_ctx s) = fst (ac_frame a)"
    "snd (ac_frame a) < length (xc_frames (top_ctx s))" using readyD [OF assms] by metis
  then show ?thesis by (simp add: frame_def frame_at_def vact_simps vact_more)
qed

lemma chunk_run: "ready a ck s \<Longrightarrow> chunk_of (ac_func a) s = Some (Inr ck, s)"
  by (auto simp: ready_def chunk_of_def vact_simps vact_more)

lemma READ_WORD_run:
  assumes "ready a ck s" "ip_of a s = int i" "word_at_ip ck i w"
  shows "READ_WORD a s = Some (Inr w, move_ip a s)"
proof -
  obtain cs where c: "v_ecs s = top_ctx s # cs" "xc_framesId (top_ctx s) = fst (ac_frame a)"
    "\<forall>k\<in>set cs. xc_framesId k \<noteq> fst (ac_frame a)" using readyD [OF assms(1)] by metis
  have m: "map (\<lambda>c. if xc_framesId c = fst (ac_frame a) then g c else c) cs = cs" for g
    using c(3) by (auto intro: map_idI)
  show ?thesis
    using assms(2,3) c(2) m unfolding READ_WORD_def upd_frame_def
    by (simp add: frame_run [OF assms(1)] chunk_run [OF assms(1)] vact_simps vact_more word_at_ip_def
        move_ip_def ip_of_def c(1) [symmetric]) (simp add: c(1))
qed

lemma move_ip_simps [simp]:
  "v_cells (move_ip a s) = v_cells s" "v_mem (move_ip a s) = v_mem s" "v_fnInfo (move_ip a s) = v_fnInfo s"
  "v_hadError (move_ip a s) = v_hadError s" "v_exited (move_ip a s) = v_exited s"
  "xc_stackTop (top_ctx (move_ip a s)) = xc_stackTop (top_ctx s)"
  "xc_stack (top_ctx (move_ip a s)) = xc_stack (top_ctx s)"
  "xc_evalContext (top_ctx (move_ip a s)) = xc_evalContext (top_ctx s)"
  "xc_loadContext (top_ctx (move_ip a s)) = xc_loadContext (top_ctx s)"
  by (simp_all add: move_ip_def top_ctx_def)

lemma ready_move_ip:
  assumes "ready a ck s"
  shows "ready a ck (move_ip a s)" "ip_of a (move_ip a s) = ip_of a s + 1"
  using assms by (auto simp: ready_def move_ip_def ip_of_def top_ctx_def)

text \<open>The head of the loop and the fetch of the opcode.\<close>

definition ticked :: "activation \<Rightarrow> int \<Rightarrow> vmst \<Rightarrow> vmst" where
  "ticked a l s = s\<lparr>v_opsRemaining := (if v_opsRemaining s - 1 \<le> 0 then THREAD_OPS_UNTIL_SWITCH else v_opsRemaining s - 1),
     v_curLine := l\<rparr>"

lemma note_line_run:
  assumes "ready a ck s" "ip_of a s = int i" "i < length (ck_lines ck)" "ck_lines ck ! i = Some l"
  shows "note_line a s = Some (Inr (), s\<lparr>v_curLine := l\<rparr>)"
proof -
  obtain cs where cs: "v_ecs s = top_ctx s # cs" "xc_stack (top_ctx s) \<le> xc_stackTop (top_ctx s)"
    using readyD [OF assms(1)] by metis
  show ?thesis
    using assms(2-4) cs(2) by (simp add: note_line_def EC_run [OF cs(1)] frame_run [OF assms(1)]
        chunk_run [OF assms(1)] vact_simps vact_more ip_of_def)
qed

lemma step_run:
  assumes "ready a ck s" "ip_of a s = int i" "word_at_ip ck i w" "ve_onlyThread env"
  shows "step env a s = exec env a (opcode_of w) (move_ip a (ticked a (the (ck_lines ck ! i)) s))"
proof -
  define s1 where "s1 = s\<lparr>v_opsRemaining :=
    (if v_opsRemaining s - 1 \<le> 0 then THREAD_OPS_UNTIL_SWITCH else v_opsRemaining s - 1)\<rparr>"
  obtain l where l: "ck_lines ck ! i = Some l" "i < length (ck_lines ck)" using assms(3) by (auto simp: word_at_ip_def)
  have t: "tick env s = Some (Inr (), s1)" using assms(4) by (simp add: tick_def s1_def vact_simps vact_more)
  have r1: "ready a ck s1" "ip_of a s1 = int i"
    using assms(1,2) by (simp_all add: s1_def ready_def ip_of_def top_ctx_def)
  have e: "s1\<lparr>v_curLine := l\<rparr> = ticked a l s" by (simp add: s1_def ticked_def)
  have r2: "ready a ck (ticked a l s)" "ip_of a (ticked a l s) = int i"
    using assms(1,2) by (simp_all add: ready_def ip_of_def top_ctx_def ticked_def)
  have "\<not> v_hadError s1" "\<not> v_exited s1" using r1(1) by (auto simp: ready_def)
  then show ?thesis
    by (simp add: l(1) step_def t vact_simps note_line_run [OF r1 l(2,1)] e READ_WORD_run [OF r2 assms(3)])
qed

lemma ticked_simps [simp]:
  "v_cells (ticked a l s) = v_cells s" "v_mem (ticked a l s) = v_mem s" "v_fnInfo (ticked a l s) = v_fnInfo s"
  "top_ctx (ticked a l s) = top_ctx s" "ip_of a' (ticked a l s) = ip_of a' s"
  "ready a' ck (ticked a l s) = ready a' ck s" "v_ecs (ticked a l s) = v_ecs s"
  by (simp_all add: ticked_def top_ctx_def ip_of_def ready_def)

end
