(* ===== verification/Clox_Run_Props.thy ===== *)
theory Clox_Run_Props
  imports Clox_Run_Laws
begin

text \<open>Properties of the running of arithmetic: an operator computes what constant folding does, and
  the code of an arithmetic expression runs to its value.\<close>

unbundle bit_operations_syntax

subsection \<open>One instruction\<close>

text \<open>From a state to one in which the code has been run up to offset i and one more value is on the
  stack.\<close>

definition one_more :: "activation \<Rightarrow> chunk \<Rightarrow> nat \<Rightarrow> lxvalue \<Rightarrow> vmst \<Rightarrow> vmst \<Rightarrow> bool" where
  "one_more a ck i v s s1 \<longleftrightarrow> ready a ck s1 \<and> ip_of a s1 = int i \<and>
     xc_stack (top_ctx s) \<le> xc_stackTop (top_ctx s) \<and> xc_stack (top_ctx s1) = xc_stack (top_ctx s) \<and>
     xc_stackTop (top_ctx s1) = xc_stackTop (top_ctx s) + 1 \<and>
     xc_evalContext (top_ctx s1) = xc_evalContext (top_ctx s) \<and>
     xc_loadContext (top_ctx s1) = xc_loadContext (top_ctx s) \<and>
     v_cells s1 (xc_stackTop (top_ctx s)) = Some (Some v) \<and>
     (\<forall>k<xc_stackTop (top_ctx s). v_cells s1 k = v_cells s k) \<and>
     (\<forall>k. v_cells s1 k = None \<longleftrightarrow> v_cells s k = None)"

text \<open>The cells for n more values.\<close>

definition room :: "nat \<Rightarrow> vmst \<Rightarrow> bool" where
  "room n s \<longleftrightarrow> xc_stackTop (top_ctx s) + n \<le> xc_stack (top_ctx s) + STACK_MAX \<and>
     (\<forall>k<n. v_cells s (xc_stackTop (top_ctx s) + k) \<noteq> None)"

lemma room_pushed:
  assumes "one_more a ck i v s s1" "room (Suc n) s"
  shows "room n s1"
proof -
  have "v_cells s1 (xc_stackTop (top_ctx s1) + k) \<noteq> None" if "k < n" for k
  proof -
    have "v_cells s (xc_stackTop (top_ctx s) + Suc k) \<noteq> None"
      using assms(2) that unfolding room_def by (metis Suc_mono)
    then show ?thesis using assms(1) unfolding one_more_def by (metis add.assoc plus_1_eq_Suc)
  qed
  moreover have "xc_stackTop (top_ctx s1) + n \<le> xc_stack (top_ctx s1) + STACK_MAX"
    using assms by (simp add: room_def one_more_def)
  ultimately show ?thesis unfolding room_def by blast
qed

lemma room_mono: "room n s \<Longrightarrow> m \<le> n \<Longrightarrow> room m s"
  by (auto simp: room_def)

lemma opcode_of_op_word: "\<forall>w. c \<noteq> OP_WORD w \<Longrightarrow> opcode_of (op_word c) = c"
  using all_opcodes_complete [of c] by (auto simp: opcode_of_def)

lemma opcode_of_binary: "c \<in> binary_ops \<Longrightarrow> opcode_of (op_word c) = c"
  by (rule opcode_of_op_word) (auto simp: binary_ops_def)

lemma exec_one: "c \<noteq> OP_RETURN \<Longrightarrow> c \<noteq> OP_LEAVE \<Longrightarrow> exec e a c = vthn (exec_plain e a c) (vret Continue)"
  by (cases c) (simp_all add: exec_def)

lemma exec_plain_run:
  "exec_plain e a OP_CONSTANT = vbnd (READ_CONSTANT a) vm_push" "exec_plain e a OP_NEGATE = op_negate e"
  "c \<in> binary_ops \<Longrightarrow> exec_plain e a c = BINARY_OP e c"
proof -
  show "exec_plain e a OP_CONSTANT = vbnd (READ_CONSTANT a) vm_push" "exec_plain e a OP_NEGATE = op_negate e"
    by (simp_all add: exec_plain_def)
  show "exec_plain e a c = BINARY_OP e c" if "c \<in> binary_ops"
    using that unfolding binary_ops_def by (elim insertE emptyE) (simp_all add: exec_plain_def)
qed

lemma exec_binary:
  assumes "c \<in> binary_ops"
  shows "exec e a c = vthn (BINARY_OP e c) (vret Continue)"
proof -
  have "c \<noteq> OP_RETURN" "c \<noteq> OP_LEAVE" using assms by (auto simp: binary_ops_def)
  then show ?thesis by (simp only: exec_one not_False_eq_True exec_plain_run(3) [OF assms])
qed

lemma negated_number: "IS_NUMBER v \<Longrightarrow> IS_NUMBER (v XOR SIGN_BIT)"
  by (simp add: IS_NUMBER_def SIGN_BIT_def QNAN_def bit.conj_xor_distrib2)

lemma ready_context:
  assumes "ready a ck s" "v_ecs s = top_ctx s # cs" "v_ecs s1 = c # cs" "v_fnInfo s1 = v_fnInfo s"
    "v_hadError s1 = v_hadError s" "v_exited s1 = v_exited s" "xc_frames c = xc_frames (top_ctx s)"
    "xc_framesId c = xc_framesId (top_ctx s)" "xc_stack c \<le> xc_stackTop c"
  shows "ready a ck s1"
  using assms(1,3-) unfolding ready_def assms(2) by simp

lemma after_push_simps:
  assumes "ready a ck s" "v_ecs s = top_ctx s # cs" "xc_stack (top_ctx s) \<le> xc_stackTop (top_ctx s)"
  shows "ready a ck (after_push v (top_ctx s) cs s)" "ip_of a (after_push v (top_ctx s) cs s) = ip_of a s"
    "top_ctx (after_push v (top_ctx s) cs s) = (top_ctx s)\<lparr>xc_stackTop := xc_stackTop (top_ctx s) + 1\<rparr>"
proof -
  show "ready a ck (after_push v (top_ctx s) cs s)"
    by (rule ready_context [OF assms(1,2), where c = "(top_ctx s)\<lparr>xc_stackTop := xc_stackTop (top_ctx s) + 1\<rparr>"])
      (use assms(3) in \<open>simp_all add: after_push_def\<close>)
qed (simp_all add: after_push_def ip_of_def top_ctx_def)

lemma constant_run:
  assumes "ready a ck s" "ip_of a s = int i" "words_from ck i [op_word OP_CONSTANT, k]"
    "getConstant ck (unat k) = Some v" "room 1 s"
  shows "\<exists>s1. (\<forall>e. ve_onlyThread e \<longrightarrow> step e a s = Some (Inr Continue, s1)) \<and> one_more a ck (i + 2) v s s1"
proof -
  let ?s = "move_ip a (ticked a (the (ck_lines ck ! i)) s)" let ?t = "move_ip a ?s"
  have w: "word_at_ip ck i (op_word OP_CONSTANT)" "word_at_ip ck (Suc i) k"
    using assms(3) by (simp_all add: words_from_Cons)
  have r: "ready a ck ?s" "ip_of a ?s = int (Suc i)" using assms(1,2) by (simp_all add: ready_move_ip)
  have r2: "ready a ck ?t" "ip_of a ?t = int (i + 2)" using r by (simp_all add: ready_move_ip)
  obtain cs where c: "v_ecs ?t = top_ctx ?t # cs" "xc_stack (top_ctx ?t) \<le> xc_stackTop (top_ctx ?t)"
    using readyD [OF r2(1)] by metis
  have p: "vm_push v ?t = Some (Inr (), after_push v (top_ctx ?t) cs ?t)"
    using assms(5) by (intro vm_push_run [OF c(1)]) (auto simp: room_def)
  have "step e a s = Some (Inr Continue, after_push v (top_ctx ?t) cs ?t)" if "ve_onlyThread e" for e
    using that w(2) assms(4) by (simp add: step_run [OF assms(1,2) w(1)] opcode_of_op_word exec_one exec_plain_run
        READ_CONSTANT_def READ_WORD_run [OF r(1,2) w(2)] chunk_run [OF r2(1)] vact_simps vact_more p)
  moreover have "one_more a ck (i + 2) v s (after_push v (top_ctx ?t) cs ?t)"
    using r2 assms(5) c(2) by (simp add: one_more_def room_def after_push_simps [OF r2(1) c]) (simp add: after_push_def)
  ultimately show ?thesis by blast
qed

lemma after_swap_simps [simp]:
  "ready a ck (after_swap w c s) = ready a ck s" "ip_of a (after_swap w c s) = ip_of a s"
  "top_ctx (after_swap w c s) = top_ctx s"
  by (simp_all add: after_swap_def ready_def ip_of_def top_ctx_def)

lemma top_after_binary:
  "top_ctx (after_binary w c cs s) = c\<lparr>xc_stackTop := xc_stackTop c - 1, xc_lastValue := Some (xc_stackTop c - 1)\<rparr>"
  unfolding after_binary_def after_swap_simps by (simp add: after_pop_def top_ctx_def)

lemma ready_after_binary:
  assumes "ready a ck s" "v_ecs s = top_ctx s # cs" "xc_stack (top_ctx s) + 1 \<le> xc_stackTop (top_ctx s)"
  shows "ready a ck (after_binary w (top_ctx s) cs s)" "ip_of a (after_binary w (top_ctx s) cs s) = ip_of a s"
proof -
  have "ready a ck (after_pop 1 (top_ctx s) cs s)"
    by (rule ready_context [OF assms(1,2), where c = "(top_ctx s)\<lparr>xc_stackTop := xc_stackTop (top_ctx s) - 1,
          xc_lastValue := Some (xc_stackTop (top_ctx s) - 1)\<rparr>"])
      (use assms(3) in \<open>simp_all add: after_pop_def\<close>)
  then show "ready a ck (after_binary w (top_ctx s) cs s)" unfolding after_binary_def after_swap_simps .
  have "ip_of a (after_pop 1 (top_ctx s) cs s) = ip_of a s" by (simp add: after_pop_def ip_of_def top_ctx_def)
  then show "ip_of a (after_binary w (top_ctx s) cs s) = ip_of a s" unfolding after_binary_def after_swap_simps .
qed

text \<open>An instruction that replaces the values on top by one.\<close>

lemma negate_run:
  assumes "one_more a ck i v s s1" "word_at_ip ck i (op_word OP_NEGATE)" "IS_NUMBER v"
  shows "\<exists>s2. (\<forall>e. ve_onlyThread e \<longrightarrow> step e a s1 = Some (Inr Continue, s2)) \<and>
    one_more a ck (i + 1) (v XOR SIGN_BIT) s s2"
proof -
  let ?t = "move_ip a (ticked a (the (ck_lines ck ! i)) s1)"
  have r: "ready a ck s1" "ip_of a s1 = int i" using assms(1) by (simp_all add: one_more_def)
  have r2: "ready a ck ?t" "ip_of a ?t = int (i + 1)" using r by (simp_all add: ready_move_ip)
  obtain cs where c: "v_ecs ?t = top_ctx ?t # cs" using readyD [OF r2(1)] by metis
  have t: "xc_stack (top_ctx s1) \<le> xc_stackTop (top_ctx s)" "xc_stackTop (top_ctx s1) = Suc (xc_stackTop (top_ctx s))"
    "v_cells s1 (xc_stackTop (top_ctx s)) = Some (Some v)"
    using assms(1) by (simp_all add: one_more_def)
  moreover have n: "v_cells s (xc_stackTop (top_ctx s)) \<noteq> None" using assms(1) unfolding one_more_def by force
  ultimately have p: "vm_peek 0 ?t = Some (Inr v, ?t)" by (intro vm_peek_run [OF c]) auto
  let ?u = "after_swap (v XOR SIGN_BIT) (top_ctx ?t) ?t"
  have q: "vm_pushSwap (v XOR SIGN_BIT) ?t = Some (Inr (), ?u)" using t by (intro vm_pushSwap_run [OF c]) simp
  have "step e a s1 = Some (Inr Continue, ?u)" if "ve_onlyThread e" for e
    using that assms(3) by (simp add: step_run [OF r assms(2)] opcode_of_op_word exec_one exec_plain_run
        op_negate_def p set_top_def valueToNumber_def numberToValue_def q vact_simps)
  moreover have "one_more a ck (i + 1) (v XOR SIGN_BIT) s ?u"
    using r2 assms(1) t n by (simp add: one_more_def) (simp add: after_swap_def)
  ultimately show ?thesis by blast
qed

lemma binary_run:
  assumes "one_more a ck i x s s1" "one_more a ck j y s1 s2" "word_at_ip ck j (op_word c)" "c \<in> binary_ops"
    "IS_NUMBER x" "IS_NUMBER y" "\<not> (c \<in> {OP_DIVIDE, OP_MODULO} \<and> is_zero y)" "number_op fp c x y = Some w"
  shows "\<exists>s3. (\<forall>e. ve_onlyThread e \<longrightarrow> ve_fpu e = fp \<longrightarrow> step e a s2 = Some (Inr Continue, s3)) \<and>
    one_more a ck (j + 1) w s s3"
proof -
  let ?t = "move_ip a (ticked a (the (ck_lines ck ! j)) s2)"
  have r: "ready a ck s2" "ip_of a s2 = int j" using assms(2) by (simp_all add: one_more_def)
  have r2: "ready a ck ?t" "ip_of a ?t = int (j + 1)" using r by (simp_all add: ready_move_ip)
  obtain cs where c: "v_ecs ?t = top_ctx ?t # cs" using readyD [OF r2(1)] by metis
  have t: "xc_stack (top_ctx s2) \<le> xc_stackTop (top_ctx s)" "xc_stackTop (top_ctx s2) = xc_stackTop (top_ctx s) + 2"
    "v_cells s2 (xc_stackTop (top_ctx s)) = Some (Some x)" "v_cells s2 (xc_stackTop (top_ctx s) + 1) = Some (Some y)"
    using assms(1,2) by (simp_all add: one_more_def)
  have n: "v_cells s (xc_stackTop (top_ctx s)) \<noteq> None" using assms(1) unfolding one_more_def by force
  let ?u = "after_binary w (top_ctx ?t) cs ?t"
  have "BINARY_OP e c ?t = Some (Inr (), ?u)" if "ve_fpu e = fp" for e
    using t assms(5-8) that by (subst BINARY_OP_run [OF c, of y x]) auto
  then have "step e a s2 = Some (Inr Continue, ?u)" if "ve_onlyThread e" "ve_fpu e = fp" for e
    using that by (simp add: step_run [OF r assms(3)] opcode_of_binary [OF assms(4)] exec_binary [OF assms(4)] vact_simps)
  moreover have "one_more a ck (j + 1) w s ?u"
    using r2 assms(1,2) t n by (simp add: one_more_def ready_after_binary [OF r2(1) c] top_after_binary)
      (simp add: after_binary_def after_swap_def after_pop_def)
  ultimately show ?thesis by blast
qed

subsection \<open>Arithmetic expressions\<close>

text \<open>An expression over the constants of a chunk, its code in postfix order, its value on doubles and
  the cells it takes. An expression has no value when an operand is no number, or a number is divided
  by zero.\<close>

datatype arith = Const u32 | Negate arith | Binary opcode arith arith

fun arith_code :: "arith \<Rightarrow> u32 list" where
  "arith_code (Const k) = [op_word OP_CONSTANT, k]"
| "arith_code (Negate e) = arith_code e @ [op_word OP_NEGATE]"
| "arith_code (Binary c x y) = arith_code x @ arith_code y @ [op_word c]"

definition num_word :: "u64 \<Rightarrow> u64 option" where
  "num_word v = (if IS_NUMBER v then Some v else None)"

fun arith_val :: "fpu \<Rightarrow> chunk \<Rightarrow> arith \<Rightarrow> u64 option" where
  "arith_val fp ck (Const k) = Option.bind (getConstant ck (unat k)) num_word"
| "arith_val fp ck (Negate e) = map_option (\<lambda>v. v XOR SIGN_BIT) (arith_val fp ck e)"
| "arith_val fp ck (Binary c x y) =
     Option.bind (arith_val fp ck x) (\<lambda>v. Option.bind (arith_val fp ck y) (\<lambda>w.
       if c \<notin> binary_ops \<or> c \<in> {OP_DIVIDE, OP_MODULO} \<and> is_zero w then None
       else Option.bind (number_op fp c v w) num_word))"

fun arith_depth :: "arith \<Rightarrow> nat" where
  "arith_depth (Const k) = 1"
| "arith_depth (Negate e) = arith_depth e"
| "arith_depth (Binary c x y) = max (arith_depth x) (Suc (arith_depth y))"

fun arith_insns :: "arith \<Rightarrow> nat" where
  "arith_insns (Const k) = 1"
| "arith_insns (Negate e) = Suc (arith_insns e)"
| "arith_insns (Binary c x y) = Suc (arith_insns x + arith_insns y)"

lemma num_word_Some [simp]: "num_word v = Some w \<longleftrightarrow> w = v \<and> IS_NUMBER v"
  by (auto simp: num_word_def)

lemma arith_val_number: "arith_val fp ck e = Some v \<Longrightarrow> IS_NUMBER v"
  by (induction e arbitrary: v) (auto simp: bind_eq_Some_conv negated_number split: if_splits)

lemma arith_depth_pos: "0 < arith_depth e"
  by (induction e) auto

lemma vm_steps_Continue:
  assumes "\<forall>e. ve_onlyThread e \<longrightarrow> ve_fpu e = fp \<longrightarrow> step e a s = Some (Inr Continue, s1)"
    "ve_onlyThread env" "ve_fpu env = fp"
  shows "vm_steps (Suc n) env a s = vm_steps n env a s1"
  using assms by (simp add: bnd_def)

definition runs_to :: "fpu \<Rightarrow> activation \<Rightarrow> nat \<Rightarrow> vmst \<Rightarrow> vmst \<Rightarrow> bool" where
  "runs_to fp a k s s1 \<longleftrightarrow> (\<forall>env n. ve_onlyThread env \<longrightarrow> ve_fpu env = fp \<longrightarrow>
     vm_steps (k + n) env a s = vm_steps n env a s1)"

lemma runs_to_trans: "runs_to fp a k s s1 \<Longrightarrow> runs_to fp a m s1 s2 \<Longrightarrow> runs_to fp a (k + m) s s2"
  by (simp add: runs_to_def add.assoc)

lemma runs_to_step:
  assumes "\<forall>e. ve_onlyThread e \<longrightarrow> ve_fpu e = fp \<longrightarrow> step e a s = Some (Inr Continue, s1)"
  shows "runs_to fp a 1 s s1"
  using vm_steps_Continue [OF assms] by (simp add: runs_to_def del: vm_steps.simps)

lemma one_more_ready: "one_more a ck i v s s1 \<Longrightarrow> ready a ck s1 \<and> ip_of a s1 = int i"
  by (simp add: one_more_def)

lemma arith_runs:
  assumes "ready a ck s" "ip_of a s = int i" "words_from ck i (arith_code e)" "arith_val fp ck e = Some v"
    "room (arith_depth e) s"
  shows "\<exists>s1. one_more a ck (i + length (arith_code e)) v s s1 \<and> runs_to fp a (arith_insns e) s s1"
  using assms
proof (induction e arbitrary: i s v)
  case (Const k)
  then obtain s1 where "\<forall>e. ve_onlyThread e \<longrightarrow> step e a s = Some (Inr Continue, s1)" "one_more a ck (i + 2) v s s1"
    using constant_run [of a ck s i k v] by (auto simp: bind_eq_Some_conv)
  then show ?case using runs_to_step [of fp a s s1] by auto
next
  case (Negate e)
  obtain w where w: "arith_val fp ck e = Some w" "v = w XOR SIGN_BIT" using Negate.prems(4) by auto
  let ?j = "i + length (arith_code e)"
  have c: "words_from ck i (arith_code e)" "word_at_ip ck ?j (op_word OP_NEGATE)"
    using Negate.prems(3) by (simp_all add: words_from_append words_from_Cons)
  obtain s1 where 1: "one_more a ck ?j w s s1" "runs_to fp a (arith_insns e) s s1"
    using Negate.IH [OF Negate.prems(1,2) c(1) w(1)] Negate.prems(5) by auto
  obtain s2 where 2: "\<forall>e. ve_onlyThread e \<longrightarrow> step e a s1 = Some (Inr Continue, s2)" "one_more a ck (?j + 1) v s s2"
    using negate_run [OF 1(1) c(2) arith_val_number [OF w(1)]] w(2) by auto
  have "runs_to fp a 1 s1 s2" using 2(1) by (intro runs_to_step) simp
  from runs_to_trans [OF 1(2) this] show ?case using 2(2) by auto
next
  case (Binary c x y)
  obtain vx vy where v: "arith_val fp ck x = Some vx" "arith_val fp ck y = Some vy" "c \<in> binary_ops"
    "\<not> (c \<in> {OP_DIVIDE, OP_MODULO} \<and> is_zero vy)" "number_op fp c vx vy = Some v"
    using Binary.prems(4) by (auto simp: bind_eq_Some_conv split: if_splits)
  let ?j = "i + length (arith_code x)" let ?k = "?j + length (arith_code y)"
  have w: "words_from ck i (arith_code x)" "words_from ck ?j (arith_code y)" "word_at_ip ck ?k (op_word c)"
    using Binary.prems(3) by (simp_all add: words_from_append words_from_Cons add.assoc)
  have r: "room (arith_depth x) s" "room (Suc (arith_depth y)) s"
    using room_mono [OF Binary.prems(5)] by simp_all
  obtain s1 where 1: "one_more a ck ?j vx s s1" "runs_to fp a (arith_insns x) s s1"
    using Binary.IH(1) [OF Binary.prems(1,2) w(1) v(1) r(1)] by auto
  obtain s2 where 2: "one_more a ck ?k vy s1 s2" "runs_to fp a (arith_insns y) s1 s2"
    using Binary.IH(2) [OF _ _ w(2) v(2) room_pushed [OF 1(1) r(2)]] one_more_ready [OF 1(1)] by auto
  obtain s3 where 3: "\<forall>e. ve_onlyThread e \<longrightarrow> ve_fpu e = fp \<longrightarrow> step e a s2 = Some (Inr Continue, s3)"
    "one_more a ck (?k + 1) v s s3"
    using binary_run [OF 1(1) 2(1) w(3) v(3) arith_val_number [OF v(1)] arith_val_number [OF v(2)] v(4,5)] by auto
  show ?case
    using runs_to_trans [OF runs_to_trans [OF 1(2) 2(2)] runs_to_step [OF 3(1)]] 3(2) by (auto simp: add.assoc)
qed

text \<open>The end of the program.\<close>

definition leaves :: "bool \<Rightarrow> vm_context \<Rightarrow> vmst \<Rightarrow> vmst" where
  "leaves main c s = s\<lparr>v_exited := v_exited s \<or> (main \<and> \<not> xc_evalContext c \<and> \<not> xc_loadContext c),
     v_vmRunLvl := v_vmRunLvl s - 1\<rparr>"

lemma leave_run_step:
  assumes "ready a ck s" "ip_of a s = int i" "word_at_ip ck i (op_word OP_LEAVE)"
  shows "\<exists>s1. (\<forall>e. ve_onlyThread e \<longrightarrow>
      step e a s = Some (Inr (Return INTERPRET_OK), leaves (ve_mainThread e) (top_ctx s) s1)) \<and>
    v_cells s1 = v_cells s \<and> \<not> v_exited s1 \<and> top_ctx (leaves m c s1) = top_ctx s1 \<and>
    xc_stackTop (top_ctx s1) = xc_stackTop (top_ctx s)"
proof -
  let ?t = "move_ip a (ticked a (the (ck_lines ck ! i)) s)"
  have r: "ready a ck ?t" using assms(1) by (simp add: ready_move_ip)
  obtain cs where c: "v_ecs ?t = top_ctx ?t # cs" using readyD [OF r] by metis
  have "exec e a OP_LEAVE ?t = Some (Inr (Return INTERPRET_OK), leaves (ve_mainThread e) (top_ctx s) ?t)" for e
    by (cases "ve_mainThread e"; cases "xc_evalContext (top_ctx s)"; cases "xc_loadContext (top_ctx s)")
      (simp_all add: exec_def op_leave_def isInEval_def isInLoadedScript_def EC_run [OF c] vact_simps vact_more
        leaves_def)
  then have "\<forall>e. ve_onlyThread e \<longrightarrow>
      step e a s = Some (Inr (Return INTERPRET_OK), leaves (ve_mainThread e) (top_ctx s) ?t)"
    by (simp add: step_run [OF assms] opcode_of_op_word)
  moreover have "\<not> v_exited ?t" using r unfolding ready_def by blast
  moreover have "top_ctx (leaves m c ?t) = top_ctx ?t" by (simp add: leaves_def top_ctx_def)
  ultimately show ?thesis by (intro exI [of _ ?t]) simp
qed

subsection \<open>An example\<close>

text \<open>A thread with one context and one frame that is about to execute -(1 + 2); of the doubles only
  this sum is needed.\<close>

definition one_double :: u64 where "one_double = 0x3ff0000000000000"
definition two_double :: u64 where "two_double = 0x4000000000000000"
definition three_double :: u64 where "three_double = 0x4008000000000000"

definition example_fpu :: fpu where
  "example_fpu = \<lparr>fp_add = (\<lambda>a b. if a = one_double \<and> b = two_double then three_double else 0),
     fp_sub = (\<lambda>a b. 0), fp_mul = (\<lambda>a b. 0), fp_div = (\<lambda>a b. 0), fp_to_int = (\<lambda>_. 0), fp_of_int = (\<lambda>_. 0),
     fp_shift = (\<lambda>_ a b. a)\<rparr>"

definition no_classes :: vm_classes where
  "no_classes = \<lparr>lxErrClass = 0, lxTypeErrClass = 0, lxNameErrClass = 0, lxArgErrClass = 0,
     lxSyntaxErrClass = 0, lxBlockIterErrClass = 0, lxBreakBlockErrClass = 0, lxContinueBlockErrClass = 0,
     lxReturnBlockErrClass = 0, lxBlockClass = 0, lxIteratorClass = 0, nativeArrayInit = 0, nativeMapInit = 0,
     nativeRegexInit = 0, nativeBlockInit = 0, nativeIteratorInit = 0\<rparr>"

definition no_names :: vm_names where
  "no_names = \<lparr>vn_initString = 0, vn_fileString = 0, vn_dirString = 0, vn_funcString = 0, vn_mainString = 0,
     vn_anonString = 0, vn_opAddString = 0, vn_opDiffString = 0, vn_opMulString = 0, vn_opDivString = 0,
     vn_opShovelLString = 0, vn_opShovelRString = 0, vn_opIndexGetString = 0, vn_opIndexSetString = 0,
     vn_opEqualsString = 0, vn_opCmpString = 0\<rparr>"

definition example_env :: vm_env where
  "example_env = \<lparr>ve_obj = upv_env, ve_lx = plain_env, ve_fpu = example_fpu, ve_less = (\<lambda>_ _. False),
     ve_deq = (=), ve_cls = no_classes, ve_names = no_names, ve_call = (\<lambda>_ _ _ _. fails),
     ve_native = (\<lambda>_ _ _ _. fails), ve_params = (\<lambda>_. []), ve_show = (\<lambda>_. vret []),
     ve_iteratorNext = vret, ve_switch = vskip, ve_ints = vskip, ve_onlyThread = True,
     ve_classHierarchyCreated = True, ve_mainThread = True\<rparr>"

definition example_arith :: arith where
  "example_arith = Negate (Binary OP_ADD (Const 0) (Const 1))"

definition example_chunk :: chunk where
  "example_chunk = (let ws = arith_code example_arith @ [op_word OP_LEAVE] in
     initChunk\<lparr>ck_count := 7, ck_capacity := 7, ck_code := map Some ws, ck_lines := map (\<lambda>_. Some 1) ws,
       ck_constants := \<lparr>va_capacity = 2, va_count = 2, va_values = [Some one_double, Some two_double]\<rparr>\<rparr>)"

definition example_state :: vmst where
  "example_state = (thread_start (vm_mem (\<lambda>_. None)))\<lparr>v_ecs := [example_context],
     v_fresh := 5, v_cells := [0 \<mapsto> None, 1 \<mapsto> None, 2 \<mapsto> None, 3 \<mapsto> None],
     v_fnInfo := [48 \<mapsto> \<lparr>fi_chunk = example_chunk, fi_scopes = [], fi_variables = [], fi_upvaluesInfo = [], fi_defaults = []\<rparr>]\<rparr>"

definition example_run :: activation where
  "example_run = \<lparr>ac_frame = (1, 0), ac_func = 48, ac_scope = NULL, ac_home = None\<rparr>"

lemma example_ready: "ready example_run example_chunk example_state" "ip_of example_run example_state = int 0"
  by (simp_all add: ready_def ip_of_def top_ctx_def example_run_def example_state_def example_context_def
      example_frame_def thread_start_def)

lemma example_code: "words_from example_chunk 0 (arith_code example_arith @ [op_word OP_LEAVE])"
  by (simp add: words_from_def word_at_ip_def example_chunk_def Let_def nth_append del: arith_code.simps)

lemma example_val: "arith_val example_fpu example_chunk example_arith = Some (three_double XOR SIGN_BIT)"
  by (simp add: example_arith_def example_chunk_def Let_def getConstant_def num_word_def number_op_def
      binary_ops_def example_fpu_def one_double_def two_double_def three_double_def IS_NUMBER_def QNAN_def)

lemma example_room: "room (arith_depth example_arith) example_state"
  by (simp add: example_arith_def room_def top_ctx_def example_state_def example_context_def STACK_MAX_def
      less_Suc_eq numeral_2_eq_2)

subsection \<open>The properties\<close>

text \<open>C12: constant folding agrees with the interpreter. When two constants that are numbers are on the
  stack, the operator of the third instruction leaves there what foldConstant replaces the three
  instructions by; the operator throws when foldConstant gives the undefined value, which keeps the
  instructions; and where folding stops the compiler (a division that traps) the operator stops the
  interpreter. The arithmetic on doubles is assumed never to give the word of the undefined value.\<close>

theorem folding_agrees_with_run:
  assumes "iseqGetConstant sq (in_operands ain ! 0) = Some x" "iseqGetConstant sq (in_operands bin ! 0) = Some y"
    "IS_NUMBER x" "IS_NUMBER y" "in_code cur \<in> binary_ops"
    "number_op (ve_fpu env) (in_code cur) x y \<noteq> Some UNDEF_VAL"
    "v_ecs s = c # cs" "xc_stack c + 1 < xc_stackTop c"
    "v_cells s (xc_stackTop c - 1) = Some (Some y)" "v_cells s (xc_stackTop c - 2) = Some (Some x)"
  shows "case foldConstant (ve_fpu env) sq cur bin ain of
      None \<Rightarrow> BINARY_OP env (in_code cur) s = None
    | Some v \<Rightarrow>
        if IS_UNDEF v
        then BINARY_OP env (in_code cur) s =
          throwErrorFmt env (lxErrClass (ve_cls env)) (tx ''Can'' @ [39] @ tx ''t divide by 0'') s
        else \<exists>s1. BINARY_OP env (in_code cur) s = Some (Inr (), s1) \<and>
          map xc_stackTop (v_ecs s1) = (xc_stackTop c - 1) # map xc_stackTop cs \<and>
          v_cells s1 = (v_cells s)(xc_stackTop c - 2 \<mapsto> Some v)"
proof -
  let ?zero = "in_code cur \<in> {OP_DIVIDE, OP_MODULO} \<and> is_zero y"
  have f: "foldConstant (ve_fpu env) sq cur bin ain =
      (if ?zero then Some UNDEF_VAL else number_op (ve_fpu env) (in_code cur) x y)"
    using assms(1,2) by (simp add: foldConstant_def fold_numbers_op [OF assms(5)] valueToNumber_def numberToValue_def
        option.map_comp o_def option.map_ident)
  note run = BINARY_OP_run [OF assms(7-10) assms(3,4), of env "in_code cur"]
  have a: "map xc_stackTop (v_ecs (after_binary w c cs s)) = (xc_stackTop c - 1) # map xc_stackTop cs \<and>
      v_cells (after_binary w c cs s) = (v_cells s)(xc_stackTop c - 2 \<mapsto> Some w)" for w
    by (simp add: after_binary_def after_swap_def after_pop_def numeral_2_eq_2)
  show ?thesis
  proof (cases ?zero)
    case True
    then show ?thesis unfolding f run by (simp add: IS_UNDEF_def)
  next
    case False
    then have r: "BINARY_OP env (in_code cur) s = (case number_op (ve_fpu env) (in_code cur) x y of
        None \<Rightarrow> None | Some w \<Rightarrow> Some (Inr (), after_binary w c cs s))" unfolding run by (rule if_not_P)
    show ?thesis
    proof (cases "number_op (ve_fpu env) (in_code cur) x y")
      case None
      then show ?thesis unfolding f if_not_P [OF False] r by simp
    next
      case (Some w)
      then have "\<not> IS_UNDEF w" using assms(6) by (auto simp: IS_UNDEF_def)
      then show ?thesis unfolding f if_not_P [OF False] r Some using a [of w] by simp
    qed
  qed
qed

definition example_iseq :: iseq where
  "example_iseq = initIseq\<lparr>is_constants := \<lparr>va_capacity = 2, va_count = 2, va_values = [Some one_double, Some two_double]\<rparr>\<rparr>"

definition example_two :: vmst where
  "example_two = example_state\<lparr>v_ecs := [example_context\<lparr>xc_stackTop := 2\<rparr>],
     v_cells := [0 \<mapsto> Some one_double, 1 \<mapsto> Some two_double]\<rparr>"

theorem folding_agrees_with_run_witness:
  "let cur = zero_insn\<lparr>in_code := OP_ADD\<rparr>; bin = zero_insn\<lparr>in_operands := [1, 0, 0]\<rparr>; ain = zero_insn
   in case foldConstant (ve_fpu example_env) example_iseq cur bin ain of
      None \<Rightarrow> False
    | Some v \<Rightarrow> v = three_double \<and> (\<exists>s1. BINARY_OP example_env OP_ADD example_two = Some (Inr (), s1) \<and>
        v_cells s1 = [0 \<mapsto> Some three_double, 1 \<mapsto> Some two_double])"
proof -
  let ?cur = "zero_insn\<lparr>in_code := OP_ADD\<rparr>" and ?bin = "zero_insn\<lparr>in_operands := [1, 0, 0]\<rparr>"
  have g: "iseqGetConstant example_iseq (in_operands zero_insn ! 0) = Some one_double"
    "iseqGetConstant example_iseq (in_operands ?bin ! 0) = Some two_double"
    by (simp_all add: iseqGetConstant_def example_iseq_def zero_insn_def)
  have n: "IS_NUMBER one_double" "IS_NUMBER two_double" "in_code ?cur \<in> binary_ops"
    by (simp_all add: IS_NUMBER_def one_double_def two_double_def QNAN_def binary_ops_def)
  have o: "number_op (ve_fpu example_env) (in_code ?cur) one_double two_double = Some three_double"
    by (simp add: number_op_def example_env_def example_fpu_def)
  have u: "number_op (ve_fpu example_env) (in_code ?cur) one_double two_double \<noteq> Some UNDEF_VAL" "\<not> IS_UNDEF three_double"
    unfolding o by (simp_all add: three_double_def IS_UNDEF_def UNDEF_VAL_def QNAN_def TAG_UNDEFINED_def)
  have s: "v_ecs example_two = [example_context\<lparr>xc_stackTop := 2\<rparr>]"
    "v_cells example_two = [0 \<mapsto> Some one_double, 1 \<mapsto> Some two_double]" by (simp_all add: example_two_def)
  have f: "foldConstant (ve_fpu example_env) example_iseq ?cur ?bin zero_insn = Some three_double"
    using g n(3) o by (simp add: foldConstant_def fold_numbers_op valueToNumber_def numberToValue_def)
  show ?thesis
    using folding_agrees_with_run [OF g n u(1) s(1)] u(2) s(2) unfolding f
    by (simp add: f example_context_def fun_upd_twist) blast
qed

text \<open>C5: the code of an arithmetic expression that has a value, followed by OP_LEAVE, runs to its end:
  with one unit of fuel for each instruction, and with any more, the run returns INTERPRET_OK. The
  state it ends in does not depend on the fuel: the stack is one higher, the value is on top, the
  values below are as before; the thread has exited when it is the main one and runs no eval and no
  loaded script.\<close>

theorem arithmetic_runs_to_value:
  assumes "ready a ck s" "ip_of a s = int i" "words_from ck i (arith_code e @ [op_word OP_LEAVE])"
    "arith_val (ve_fpu env) ck e = Some v" "room (arith_depth e) s" "ve_onlyThread env"
  shows "\<exists>s1. (\<forall>n. vm_steps (arith_insns e + 1 + n) env a s = Some (Inr INTERPRET_OK, s1)) \<and>
    xc_stackTop (top_ctx s1) = xc_stackTop (top_ctx s) + 1 \<and>
    v_cells s1 (xc_stackTop (top_ctx s)) = Some (Some v) \<and>
    (\<forall>k<xc_stackTop (top_ctx s). v_cells s1 k = v_cells s k) \<and>
    v_exited s1 = (ve_mainThread env \<and> \<not> xc_evalContext (top_ctx s) \<and> \<not> xc_loadContext (top_ctx s))"
proof -
  let ?j = "i + length (arith_code e)"
  have w: "words_from ck i (arith_code e)" "word_at_ip ck ?j (op_word OP_LEAVE)"
    using assms(3) by (simp_all add: words_from_append words_from_Cons)
  obtain s1 where 1: "one_more a ck ?j v s s1" "runs_to (ve_fpu env) a (arith_insns e) s s1"
    using arith_runs [OF assms(1,2) w(1) assms(4,5)] by auto
  let ?main = "ve_mainThread env" and ?c = "top_ctx s1"
  obtain s2 where 2: "\<forall>e. ve_onlyThread e \<longrightarrow>
      step e a s1 = Some (Inr (Return INTERPRET_OK), leaves (ve_mainThread e) ?c s2)"
    "v_cells s2 = v_cells s1" "\<not> v_exited s2" "top_ctx (leaves ?main ?c s2) = top_ctx s2"
    "xc_stackTop (top_ctx s2) = xc_stackTop ?c"
    using leave_run_step [OF _ _ w(2), of a s1 ?main ?c] one_more_ready [OF 1(1)] by blast
  have "vm_steps (1 + n) env a s1 = Some (Inr INTERPRET_OK, leaves ?main ?c s2)" for n
    using 2(1) assms(6) by (simp add: bnd_def vact_simps)
  then have "vm_steps (arith_insns e + 1 + n) env a s = Some (Inr INTERPRET_OK, leaves ?main ?c s2)" for n
    using 1(2) [unfolded runs_to_def, rule_format, OF assms(6) refl, of "1 + n"] by (simp only: add.assoc)
  then show ?thesis
    using 1(1) 2(2-5) by (intro exI [of _ "leaves ?main ?c s2"]) (simp add: one_more_def, simp add: leaves_def)
qed

theorem arithmetic_runs_to_value_witness:
  "\<exists>s1. vm_steps 5 example_env example_run example_state = Some (Inr INTERPRET_OK, s1) \<and>
    v_cells s1 0 = Some (Some 0xC008000000000000) \<and> v_exited s1"
proof -
  have e: "ve_fpu example_env = example_fpu" "ve_onlyThread example_env" "ve_mainThread example_env"
    by (simp_all add: example_env_def)
  have c: "top_ctx example_state = example_context" by (simp add: top_ctx_def example_state_def)
  obtain s1 where "\<And>n. vm_steps (arith_insns example_arith + 1 + n) example_env example_run example_state =
      Some (Inr INTERPRET_OK, s1)"
    "v_cells s1 (xc_stackTop (top_ctx example_state)) = Some (Some (three_double XOR SIGN_BIT))"
    "v_exited s1 = (ve_mainThread example_env \<and> \<not> xc_evalContext (top_ctx example_state) \<and>
       \<not> xc_loadContext (top_ctx example_state))"
    using arithmetic_runs_to_value [OF example_ready example_code, of example_env] example_val example_room
    unfolding e(1) using e(2) by blast
  moreover have "arith_insns example_arith + 1 + 0 = 5" by (simp add: example_arith_def)
  moreover have "three_double XOR SIGN_BIT = 0xC008000000000000" by (simp add: three_double_def SIGN_BIT_def)
  ultimately show ?thesis using e(3) unfolding c example_context_def by (metis (no_types, lifting) vm_context.simps)
qed

text \<open>A context whose stack block has the slots below e.\<close>

definition block_to :: "slot \<Rightarrow> vm_context \<Rightarrow> vm_context list \<Rightarrow> vmst \<Rightarrow> bool" where
  "block_to e c cs s \<longleftrightarrow> v_ecs s = c # cs \<and> xc_stackTop c \<le> e \<and> e < xc_stack c + STACK_MAX \<and>
     (\<forall>k. xc_stackTop c \<le> k \<and> k < e \<longrightarrow> v_cells s k \<noteq> None) \<and> v_cells s e = None"

lemma vm_push_in_block:
  assumes "block_to e c cs s" "xc_stackTop c < e"
  shows "vm_push v s = Some (Inr (), after_push v c cs s) \<and>
    block_to e (c\<lparr>xc_stackTop := xc_stackTop c + 1\<rparr>) cs (after_push v c cs s)"
proof
  show "vm_push v s = Some (Inr (), after_push v c cs s)" using assms by (intro vm_push_run) (auto simp: block_to_def)
qed (use assms in \<open>auto simp: block_to_def after_push_def\<close>)

lemma vm_push_past_block:
  assumes "block_to e c cs s" "xc_stackTop c = e"
  shows "vm_push v s = None"
  using assms by (simp add: block_to_def vm_push_def EC_run store_top_def mark_pushed_run cell_write_def vact_simps)

lemma pushes_in_block:
  "block_to e c cs s \<Longrightarrow> vseqs (map vm_push vs) s = None \<longleftrightarrow> e < xc_stackTop c + length vs"
proof (induction vs arbitrary: c s)
  case Nil
  then show ?case by (simp add: vact_simps block_to_def)
next
  case (Cons v vs)
  show ?case
  proof (cases "xc_stackTop c < e")
    case True
    then show ?thesis using vm_push_in_block [OF Cons.prems, of v] Cons.IH by (auto simp: vact_simps)
  next
    case False
    then have "xc_stackTop c = e" using Cons.prems by (simp add: block_to_def)
    then show ?thesis using vm_push_past_block [OF Cons.prems, of v] by (simp add: vact_simps)
  qed
qed

text \<open>C39: how much the stack of a new context holds. STACK_INITIAL values can be one_more by the
  interpreter loop, with defined behaviour; with any value more, vm_push writes past the end of the
  block, although the limit it checks, STACK_MAX, is four times as far.\<close>

theorem vm_push_capacity:
  assumes "\<forall>k\<ge>v_fresh s. v_cells s k = None" "push_EC True s = Some (Inr (), s1)"
  shows "vseqs (map vm_push vs) s1 = None \<longleftrightarrow> STACK_INITIAL < length vs"
proof -
  let ?b = "v_fresh s"
  have s1: "s1 = s\<lparr>v_cells := (\<lambda>a. if ?b \<le> a \<and> a < ?b + STACK_INITIAL then Some None else v_cells s a),
      v_fresh := ?b + STACK_INITIAL + 2, v_ecs := hd (v_ecs s1) # v_ecs s\<rparr>"
    and c: "xc_stack (hd (v_ecs s1)) = ?b" "xc_stackTop (hd (v_ecs s1)) = ?b"
    using assms(2) by (auto simp: push_EC_def cells_alloc_def fresh_id_def vact_simps)
  have "block_to (?b + STACK_INITIAL) (hd (v_ecs s1)) (v_ecs s) s1"
    using assms(1) c by (subst s1) (simp add: block_to_def STACK_INITIAL_def STACK_MAX_def)
  from pushes_in_block [OF this] show ?thesis by (simp add: c)
qed

theorem vm_push_capacity_witness:
  "\<exists>s1. push_EC True example_state = Some (Inr (), s1) \<and>
    vseqs (map vm_push (replicate 257 NIL_VAL)) s1 = None \<and> vseqs (map vm_push (replicate 256 NIL_VAL)) s1 \<noteq> None"
proof -
  obtain s1 where s1: "push_EC True example_state = Some (Inr (), s1)"
    by (simp add: push_EC_def cells_alloc_def fresh_id_def vact_simps)
  have f: "\<forall>k\<ge>v_fresh example_state. v_cells example_state k = None" by (simp add: example_state_def)
  show ?thesis
    using s1 vm_push_capacity [OF f s1, of "replicate 257 NIL_VAL"] vm_push_capacity [OF f s1, of "replicate 256 NIL_VAL"]
    by (simp add: STACK_INITIAL_def del: vseqs.simps)
qed

end
