(* ===== verification/Clox_Parser.thy ===== *)
theory Clox_Parser
  imports Clox_Compile
begin

text \<open>The recursive descent parser (parser.c). It reads tokens from the scanner through a buffer for
  looking ahead and makes the tree that the compiler works on. Each function takes the actions for the
  functions it calls recursively; the fuel of the knot at the end also bounds the loops.\<close>

subsection \<open>State\<close>

datatype parse_function_type = FUNCTION_TYPE_NAMED | FUNCTION_TYPE_ANON | FUNCTION_TYPE_METHOD | FUNCTION_TYPE_GETTER
  | FUNCTION_TYPE_SETTER | FUNCTION_TYPE_CLASS_METHOD | FUNCTION_TYPE_BLOCK

record parser =
  pa_current :: token
  pa_previous :: token
  pa_peekBuf :: "token list"
  pa_inCallExpr :: bool
  pa_errMessages :: "bytes list"
  pa_hadError :: bool
  pa_panicMode :: bool
  pa_aborted :: bool

text \<open>The current parser and scanner, whether that scanner has a function to get more source, and
  whether the static getMoreSourceFn of the parser is set.\<close>

record pstate =
  ps_parser :: parser
  ps_scanner :: scanner
  ps_scanMore :: bool
  ps_moreSet :: bool

text \<open>Outside of the parser: what a read of more source makes of the source, the bytes in a fresh
  line buffer of the scanner, the function given to parseMaybePartialStatement, and the fields that
  syntheticToken leaves as they were in memory.\<close>

record parse_env =
  pe_fetch :: "bytes \<Rightarrow> bytes"
  pe_garbage :: bytes
  pe_more :: "pstate \<Rightarrow> pstate"
  pe_junk :: token

text \<open>PError is the longjmp of errorAt, PFuel a recursion that went deeper than it was given fuel.\<close>

datatype parse_jump = PError | PFuel

type_synonym 'a pact = "(pstate, parse_jump + 'a) act"

definition pret :: "'a \<Rightarrow> 'a pact" where "pret a = yields (Inr a)"

definition pjump :: "parse_jump \<Rightarrow> 'a pact" where "pjump j = yields (Inl j)"

definition pbnd :: "'a pact \<Rightarrow> ('a \<Rightarrow> 'b pact) \<Rightarrow> 'b pact" where
  "pbnd m f s = (case m s of None \<Rightarrow> None | Some (Inl j, s1) \<Rightarrow> Some (Inl j, s1) | Some (Inr a, s1) \<Rightarrow> f a s1)"

definition pthn :: "'a pact \<Rightarrow> 'b pact \<Rightarrow> 'b pact" where "pthn m n = pbnd m (\<lambda>_. n)"

definition pskip :: "unit pact" where "pskip = pret ()"

definition pget :: "(parser \<Rightarrow> 'a) \<Rightarrow> 'a pact" where "pget f s = Some (Inr (f (ps_parser s)), s)"

definition pset :: "(parser \<Rightarrow> parser) \<Rightarrow> unit pact" where
  "pset f s = Some (Inr (), s\<lparr>ps_parser := f (ps_parser s)\<rparr>)"

definition pwhen :: "bool \<Rightarrow> unit pact \<Rightarrow> unit pact" where "pwhen b m = (if b then m else pskip)"

fun pseqs :: "unit pact list \<Rightarrow> unit pact" where
  "pseqs [] = pskip"
| "pseqs (m # ms) = pthn m (pseqs ms)"

text \<open>The condition of C: the second is evaluated when the first fails.\<close>

definition por :: "bool pact \<Rightarrow> bool pact \<Rightarrow> bool pact" where
  "por m n = pbnd m (\<lambda>b. if b then pret True else n)"

definition pand :: "bool pact \<Rightarrow> bool pact \<Rightarrow> bool pact" where
  "pand m n = pbnd m (\<lambda>b. if b then n else pret False)"

definition pnot :: "bool pact \<Rightarrow> bool pact" where "pnot m = pbnd m (\<lambda>b. pret (\<not> b))"

definition previous :: "token pact" where "previous = pget pa_previous"

subsection \<open>Errors\<close>

definition initParser :: parser where
  "initParser = \<lparr>pa_current = emptyTok, pa_previous = emptyTok, pa_peekBuf = [], pa_inCallExpr = False,
     pa_errMessages = [], pa_hadError = False, pa_panicMode = False, pa_aborted = False\<rparr>"

definition bytes_of :: "string \<Rightarrow> bytes" where "bytes_of = map of_char"

text \<open>The lexeme of a token of the parser is kept in the token, see nextToken.\<close>

definition lexeme :: "token \<Rightarrow> bytes" where "lexeme t = (case tk_lexeme t of None \<Rightarrow> [] | Some l \<Rightarrow> l)"

definition error_text :: "token \<Rightarrow> bytes \<Rightarrow> bytes" where
  "error_text tok message = bytes_of ''[Parse Error], (line '' @ decimal_int (tk_line tok) @ bytes_of '') Error'' @
     (if tk_type tok = TOKEN_EOF then bytes_of '' at end''
      else if tk_type tok = TOKEN_ERROR then []
      else bytes_of '' at '' @ [39] @ take (nat (tk_length tok)) (c_string (lexeme tok)) @ [39]) @
     bytes_of '': '' @ message @ [10]"

text \<open>In panic mode nothing happens, and the caller goes on.\<close>

definition errorAt :: "token \<Rightarrow> bytes \<Rightarrow> unit pact" where
  "errorAt tok message = pbnd (pget pa_panicMode) (\<lambda>panic.
     if panic then pskip
     else pthn (pset (\<lambda>p. p\<lparr>pa_panicMode := True, pa_errMessages := pa_errMessages p @ [error_text tok message],
              pa_hadError := True\<rparr>)) (pjump PError))"

definition errorAtPrevious :: "string \<Rightarrow> unit pact" where
  "errorAtPrevious message = pbnd previous (\<lambda>t. errorAt t (bytes_of message))"

definition errorAtCurrent :: "string \<Rightarrow> unit pact" where
  "errorAtCurrent message = pbnd (pget pa_current) (\<lambda>t. errorAt t (bytes_of message))"

definition isCapital :: "bytes \<Rightarrow> bool" where
  "isCapital l \<longleftrightarrow> (case l of [] \<Rightarrow> False | c # _ \<Rightarrow> of_char CHR ''A'' \<le> c \<and> c \<le> of_char CHR ''Z'')"

subsection \<open>Tokens\<close>

text \<open>scanToken of the current scanner. A token remembers its scanner for its lexeme; here the lexeme is
  read at once.\<close>

definition scan_tok :: "parse_env \<Rightarrow> token pact" where
  "scan_tok env s = (case scanToken (if ps_scanMore s then pe_fetch env else (\<lambda>x. x)) (pe_garbage env) (ps_scanner s) of
     Some (Inr (tok, sc)) \<Rightarrow> Some (Inr (snd (tokStr (sc_source sc) tok)), s\<lparr>ps_scanner := sc\<rparr>)
   | _ \<Rightarrow> None)"

definition nextToken :: "parse_env \<Rightarrow> token pact" where
  "nextToken env = pbnd (pget pa_peekBuf) (\<lambda>buf. case buf of
     [] \<Rightarrow> scan_tok env
   | t # ts \<Rightarrow> pthn (pset (\<lambda>p. p\<lparr>pa_peekBuf := ts\<rparr>)) (pret t))"

text \<open>One round of the loop that skips error tokens.\<close>

definition advance_once :: "parse_env \<Rightarrow> bool pact" where
  "advance_once env = pbnd (nextToken env) (\<lambda>t.
     pthn (pset (\<lambda>p. p\<lparr>pa_current := t\<rparr>))
     (if tk_type t \<noteq> TOKEN_ERROR then pret True
      else pthn (errorAt t (lexeme t)) (pret False)))"

partial_function (option) advance_loop :: "parse_env \<Rightarrow> pstate \<Rightarrow> ((parse_jump + unit) \<times> pstate) option" where
  "advance_loop env s = (case advance_once env s of
     None \<Rightarrow> None
   | Some (Inl j, s1) \<Rightarrow> Some (Inl j, s1)
   | Some (Inr fin, s1) \<Rightarrow> if fin then Some (Inr (), s1) else advance_loop env s1)"

declare advance_loop.simps [code]

definition p_advance :: "parse_env \<Rightarrow> unit pact" where
  "p_advance env = pthn (pset (\<lambda>p. p\<lparr>pa_previous := pa_current p\<rparr>)) (advance_loop env)"

definition check :: "token_type \<Rightarrow> bool pact" where
  "check ttype = pget (\<lambda>p. tk_type (pa_current p) = ttype)"

definition consume :: "parse_env \<Rightarrow> token_type \<Rightarrow> string \<Rightarrow> unit pact" where
  "consume env ttype message = pbnd (check ttype) (\<lambda>b. if b then p_advance env else errorAtCurrent message)"

fun fill_peek :: "parse_env \<Rightarrow> nat \<Rightarrow> unit pact" where
  "fill_peek env 0 = pskip"
| "fill_peek env (Suc k) = pbnd (scan_tok env) (\<lambda>t.
     pthn (pset (\<lambda>p. p\<lparr>pa_peekBuf := pa_peekBuf p @ [t]\<rparr>))
     (if tk_type t = TOKEN_EOF then pskip else fill_peek env k))"

definition peekTokN :: "parse_env \<Rightarrow> nat \<Rightarrow> token pact" where
  "peekTokN env n = pbnd (pget pa_peekBuf) (\<lambda>buf.
     if length buf < n then pthn (fill_peek env (n - length buf)) (pget (\<lambda>p. last (pa_peekBuf p)))
     else pret (buf ! (n - 1)))"

definition peek_is :: "parse_env \<Rightarrow> nat \<Rightarrow> token_type \<Rightarrow> bool pact" where
  "peek_is env n ttype = pbnd (peekTokN env n) (\<lambda>t. pret (tk_type t = ttype))"

definition get_more :: "parse_env \<Rightarrow> unit pact" where
  "get_more env s = Some (Inr (), pe_more env s)"

definition at_eof_with_more :: "bool pact" where
  "at_eof_with_more s = Some (Inr (tk_type (pa_current (ps_parser s)) = TOKEN_EOF \<and> ps_moreSet s), s)"

text \<open>match: after more source was read the token is tested but not passed.\<close>

definition p_match :: "parse_env \<Rightarrow> token_type \<Rightarrow> bool pact" where
  "p_match env ttype = pbnd (pget pa_aborted) (\<lambda>aborted.
     if aborted then pret False
     else pbnd at_eof_with_more (\<lambda>more.
       if more
       then pthn (get_more env) (pbnd (pget pa_aborted) (\<lambda>aborted.
         if aborted then pret False
         else pthn (p_advance env) (pbnd (check TOKEN_EOF) (\<lambda>eof.
           if eof then pthn (pset (\<lambda>p. p\<lparr>pa_aborted := True\<rparr>)) (pret False) else check ttype))))
       else pbnd (check ttype) (\<lambda>b. if b then pthn (p_advance env) (pret True) else pret False)))"

definition p_isAtEnd :: "parse_env \<Rightarrow> bool pact" where
  "p_isAtEnd env = pbnd (pget pa_aborted) (\<lambda>aborted.
     if aborted then pret True
     else pbnd (pget (\<lambda>p. tk_type (pa_previous p) = TOKEN_EOF \<or> tk_type (pa_current p) = TOKEN_EOF)) (\<lambda>isEnd.
       if \<not> isEnd then pret False
       else (\<lambda>s. if \<not> ps_moreSet s then Some (Inr True, s)
         else pthn (get_more env) (pbnd (pget pa_aborted) (\<lambda>aborted.
           if aborted then pret True else pthn (p_advance env) (check TOKEN_EOF))) s)))"

subsection \<open>Recursion\<close>

text \<open>The functions that are called recursively, and the fuel of the loops.\<close>

record parse_calls =
  pc_fuel :: nat
  pc_expression :: "ast pact"
  pc_assignment :: "ast pact"
  pc_unary :: "ast pact"
  pc_statement :: "ast pact"
  pc_declaration :: "ast pact"

definition mk :: "node_kind \<Rightarrow> token \<Rightarrow> ast list \<Rightarrow> ast" where
  "mk k tok kids = Node k LIT_TYPE_NONE tok kids [] None"

definition literal :: "lit_kind \<Rightarrow> token \<Rightarrow> ast" where "literal k tok = Node LITERAL_EXPR k tok [] [] None"

text \<open>A loop: the body gives the next state of the loop or its result.\<close>

fun ploop :: "nat \<Rightarrow> ('a \<Rightarrow> ('a + 'b) pact) \<Rightarrow> 'a \<Rightarrow> 'b pact" where
  "ploop 0 body a = pjump PFuel"
| "ploop (Suc n) body a = pbnd (body a) (\<lambda>r. case r of Inl a1 \<Rightarrow> ploop n body a1 | Inr b \<Rightarrow> pret b)"

definition again :: "'a \<Rightarrow> ('a + 'b) pact" where "again a = pret (Inl a)"
definition stop :: "'b \<Rightarrow> ('a + 'b) pact" where "stop b = pret (Inr b)"

subsection \<open>Binary operators\<close>

text \<open>A level of binary operators that associate to the left.\<close>

definition left_assoc :: "parse_calls \<Rightarrow> bool pact \<Rightarrow> node_kind \<Rightarrow> ast pact \<Rightarrow> ast pact" where
  "left_assoc C op kind operand = pbnd operand (ploop (pc_fuel C) (\<lambda>left.
     pbnd op (\<lambda>b. if \<not> b then stop left
       else pbnd previous (\<lambda>tok. pbnd operand (\<lambda>right. again (mk kind tok [left, right]))))))"

fun match_any :: "parse_env \<Rightarrow> token_type list \<Rightarrow> bool pact" where
  "match_any env [] = pret False"
| "match_any env (t # ts) = por (p_match env t) (match_any env ts)"

fun check_any :: "token_type list \<Rightarrow> bool pact" where
  "check_any [] = pret False"
| "check_any (t # ts) = por (check t) (check_any ts)"

text \<open>An operator that is not the first half of an assignment operator.\<close>

definition plain_op :: "parse_env \<Rightarrow> token_type list \<Rightarrow> bool pact" where
  "plain_op env ts = pbnd (pand (check_any ts) (pnot (peek_is env 1 TOKEN_EQUAL))) (\<lambda>b.
     if b then pthn (p_advance env) (pret True) else pret False)"

definition multiplication :: "parse_env \<Rightarrow> parse_calls \<Rightarrow> ast pact" where
  "multiplication env C =
     left_assoc C (plain_op env [TOKEN_STAR, TOKEN_SLASH, TOKEN_PERCENT]) BINARY_EXPR (pc_unary C)"

definition bitManip :: "parse_env \<Rightarrow> parse_calls \<Rightarrow> ast pact" where
  "bitManip env C =
     left_assoc C (plain_op env [TOKEN_PIPE, TOKEN_AMP, TOKEN_CARET, TOKEN_SHOVEL_L, TOKEN_SHOVEL_R]) BINARY_EXPR
       (multiplication env C)"

definition addition :: "parse_env \<Rightarrow> parse_calls \<Rightarrow> ast pact" where
  "addition env C = left_assoc C (plain_op env [TOKEN_PLUS, TOKEN_MINUS]) BINARY_EXPR (bitManip env C)"

definition comparison :: "parse_env \<Rightarrow> parse_calls \<Rightarrow> ast pact" where
  "comparison env C =
     left_assoc C (match_any env [TOKEN_LESS, TOKEN_LESS_EQUAL, TOKEN_GREATER, TOKEN_GREATER_EQUAL]) BINARY_EXPR
       (addition env C)"

definition equality :: "parse_env \<Rightarrow> parse_calls \<Rightarrow> ast pact" where
  "equality env C =
     left_assoc C (match_any env [TOKEN_EQUAL_EQUAL, TOKEN_BANG_EQUAL]) BINARY_EXPR (comparison env C)"

definition logicAnd :: "parse_env \<Rightarrow> parse_calls \<Rightarrow> ast pact" where
  "logicAnd env C = left_assoc C (p_match env TOKEN_AND) LOGICAL_EXPR (equality env C)"

definition logicOr :: "parse_env \<Rightarrow> parse_calls \<Rightarrow> ast pact" where
  "logicOr env C = left_assoc C (p_match env TOKEN_OR) LOGICAL_EXPR (logicAnd env C)"

subsection \<open>Assignments\<close>

definition checkAssignOp :: "parse_env \<Rightarrow> bool pact" where
  "checkAssignOp env = pand (peek_is env 1 TOKEN_EQUAL)
     (check_any [TOKEN_PLUS, TOKEN_MINUS, TOKEN_SLASH, TOKEN_STAR, TOKEN_PERCENT, TOKEN_SHOVEL_L, TOKEN_SHOVEL_R,
        TOKEN_PIPE, TOKEN_CARET, TOKEN_AMP])"

text \<open>The assignment to what was parsed before the equals sign. A null node is dereferenced; super on
  the left fails an assertion.\<close>

definition assign_to :: "ast \<Rightarrow> token \<Rightarrow> ast \<Rightarrow> ast pact" where
  "assign_to lval eqTok rval = (case lval of
     NullNode \<Rightarrow> fails
   | Node kind lit tok kids params data \<Rightarrow>
       if kind = VARIABLE_EXPR \<or> kind = CONSTANT_EXPR then pret (mk ASSIGN_EXPR eqTok [lval, rval])
       else if kind = PROP_ACCESS_EXPR then
         (case kids of obj # _ \<Rightarrow> pret (mk PROP_SET_EXPR tok [obj, rval]) | [] \<Rightarrow> fails)
       else if kind = INDEX_GET_EXPR then
         (case kids of obj # idx # _ \<Rightarrow> pret (mk INDEX_SET_EXPR tok [obj, idx, rval]) | _ \<Rightarrow> fails)
       else if kind = SUPER_EXPR then fails
       else pthn (errorAtCurrent ''invalid assignment lvalue'') (pret NullNode))"

definition assign_op :: "parse_env \<Rightarrow> parse_calls \<Rightarrow> ast \<Rightarrow> ast pact" where
  "assign_op env C lval = (case nodeKind lval of
     None \<Rightarrow> fails
   | Some kind \<Rightarrow> pthn (pwhen (kind \<noteq> PROP_ACCESS_EXPR \<and> kind \<noteq> VARIABLE_EXPR) (errorAtCurrent ''invalid assignment lvalue''))
       (pthn (p_advance env) (pbnd previous (\<lambda>opTok. pthn (p_advance env) (pbnd (pc_assignment C) (\<lambda>rval.
          pret (mk (if kind = PROP_ACCESS_EXPR then PROP_SET_BINOP_EXPR else BINARY_ASSIGN_EXPR) opTok [lval, rval])))))))"

definition assignment_with :: "parse_env \<Rightarrow> parse_calls \<Rightarrow> ast pact" where
  "assignment_with env C = pbnd (logicOr env C) (\<lambda>lval.
     pbnd (p_match env TOKEN_EQUAL) (\<lambda>eq.
     if eq then pbnd previous (\<lambda>eqTok. pbnd (pc_assignment C) (assign_to lval eqTok))
     else pbnd (checkAssignOp env) (\<lambda>b. if b then assign_op env C lval else pret lval)))"

text \<open>expression: a star is a splat only in the arguments of a call.\<close>

definition expression_with :: "parse_env \<Rightarrow> parse_calls \<Rightarrow> ast pact" where
  "expression_with env C =
     pbnd (pand (pget pa_inCallExpr) (p_match env TOKEN_STAR)) (\<lambda>splat. pbnd previous (\<lambda>splatTok.
     pbnd (p_match env TOKEN_AMP) (\<lambda>block. pbnd previous (\<lambda>blockTok.
     pbnd (pc_assignment C) (\<lambda>expr.
       pret (if splat then mk SPLAT_EXPR splatTok [expr]
             else if block then mk TO_BLOCK_EXPR blockTok [expr] else expr))))))"

subsection \<open>Functions\<close>

text \<open>The statements up to a closing brace.\<close>

definition stmts_until_brace :: "parse_env \<Rightarrow> parse_calls \<Rightarrow> ast pact \<Rightarrow> ast list pact" where
  "stmts_until_brace env C stmt = ploop (pc_fuel C) (\<lambda>kids.
     pbnd (por (p_isAtEnd env) (check TOKEN_RIGHT_BRACE)) (\<lambda>fin.
       if fin then stop kids else pbnd stmt (\<lambda>n. again (kids @ [n])))) []"

definition block_list :: "parse_env \<Rightarrow> parse_calls \<Rightarrow> string \<Rightarrow> ast pact" where
  "block_list env C message = pbnd previous (\<lambda>tok. pbnd (stmts_until_brace env C (pc_declaration C)) (\<lambda>kids.
     pthn (consume env TOKEN_RIGHT_BRACE message) (pret (mk STMTLIST_STMT tok kids))))"

definition blockStmts :: "parse_env \<Rightarrow> parse_calls \<Rightarrow> ast pact" where
  "blockStmts env C = block_list env C ''Expect '}' to end function block''"

definition blockStatements :: "parse_env \<Rightarrow> parse_calls \<Rightarrow> ast pact" where
  "blockStatements env C = block_list env C ''Expected '}' to end block statement''"

text \<open>The parameters read so far, and whether keyword parameters have begun.\<close>

type_synonym params_so_far = "ast list \<times> bool"

definition no_more_kwargs :: "bool \<Rightarrow> unit pact" where
  "no_more_kwargs inKwargs = pwhen inKwargs (errorAtCurrent ''keyword parameters need to be final parameters'')"

text \<open>A name was read: a regular parameter, one with a default argument or a keyword parameter.\<close>

definition named_param :: "parse_env \<Rightarrow> parse_calls \<Rightarrow> bool \<Rightarrow> (ast \<times> bool) pact" where
  "named_param env C inKwargs = pbnd previous (\<lambda>tok. pbnd (p_match env TOKEN_EQUAL) (\<lambda>eq.
     if eq
     then pthn (no_more_kwargs inKwargs) (pbnd (pc_expression C) (\<lambda>e. pret (mk PARAM_NODE_DEFAULT_ARG tok [e], inKwargs)))
     else pbnd (p_match env TOKEN_COLON) (\<lambda>colon.
       if colon
       then pbnd (check_any [TOKEN_RIGHT_PAREN, TOKEN_COMMA]) (\<lambda>required.
         if required then pret (mk PARAM_NODE_KWARG tok [], True)
         else pbnd (pc_expression C) (\<lambda>e. pret (mk PARAM_NODE_KWARG tok [e], True)))
       else pthn (no_more_kwargs inKwargs) (pret (mk PARAM_NODE_REGULAR tok [], inKwargs)))))"

definition after_param :: "parse_env \<Rightarrow> ast list \<Rightarrow> bool \<Rightarrow> (params_so_far + ast list) pact" where
  "after_param env params inKwargs = pbnd (p_match env TOKEN_COMMA) (\<lambda>comma.
     if comma then again (params, inKwargs) else stop params)"

text \<open>After a block parameter the loop goes on without a comma.\<close>

definition one_param :: "parse_env \<Rightarrow> parse_calls \<Rightarrow> params_so_far \<Rightarrow> (params_so_far + ast list) pact" where
  "one_param env C st = (case st of (params, inKwargs) \<Rightarrow>
     pbnd (p_match env TOKEN_IDENTIFIER) (\<lambda>name.
     if name
     then pbnd (named_param env C inKwargs) (\<lambda>(n, inKwargs1). after_param env (params @ [n]) inKwargs1)
     else pbnd (p_match env TOKEN_STAR) (\<lambda>star.
       if star
       then pthn (pseqs [no_more_kwargs inKwargs,
              consume env TOKEN_IDENTIFIER ''Expect splat parameter to have a name''])
              (pbnd previous (\<lambda>tok. after_param env (params @ [mk PARAM_NODE_SPLAT tok []]) inKwargs))
       else pbnd (p_match env TOKEN_AMP) (\<lambda>amp.
         if amp
         then pthn (consume env TOKEN_IDENTIFIER ''Expect block parameter to have a name'')
                (pbnd previous (\<lambda>tok. pbnd (check TOKEN_RIGHT_PAREN) (\<lambda>paren.
                  pthn (pwhen (\<not> paren) (errorAtPrevious ''Expected block parameter to be last parameter''))
                    (again (params @ [mk PARAM_NODE_BLOCK tok []], inKwargs)))))
         else stop params))))"

definition parameters :: "parse_env \<Rightarrow> parse_calls \<Rightarrow> parse_function_type \<Rightarrow> ast list pact" where
  "parameters env C fnType = pbnd (check TOKEN_LEFT_BRACE) (\<lambda>brace.
     pthn (pwhen (\<not> (fnType = FUNCTION_TYPE_BLOCK \<and> brace))
       (consume env TOKEN_LEFT_PAREN ''Expect '(' after function name (identifier)''))
     (pbnd (ploop (pc_fuel C) (one_param env C) ([], False)) (\<lambda>params.
      pthn (pwhen (fnType = FUNCTION_TYPE_SETTER \<and>
          (length params \<noteq> 1 \<or> nodeKind (last params) \<noteq> Some PARAM_NODE_REGULAR))
        (errorAtPrevious ''Expect a single regular parameter for setter function''))
     (pbnd (check TOKEN_LEFT_BRACE) (\<lambda>brace.
      pthn (pwhen (\<not> (fnType = FUNCTION_TYPE_BLOCK \<and> params = [] \<and> brace))
        (consume env TOKEN_RIGHT_PAREN ''Expect ')' after function parameters''))
      (pret params))))))"

definition function_kind :: "parse_function_type \<Rightarrow> node_kind" where
  "function_kind fnType = (case fnType of
     FUNCTION_TYPE_NAMED \<Rightarrow> FUNCTION_STMT
   | FUNCTION_TYPE_METHOD \<Rightarrow> METHOD_STMT
   | FUNCTION_TYPE_CLASS_METHOD \<Rightarrow> CLASS_METHOD_STMT
   | FUNCTION_TYPE_GETTER \<Rightarrow> GETTER_STMT
   | FUNCTION_TYPE_SETTER \<Rightarrow> SETTER_STMT
   | _ \<Rightarrow> ANON_FN_EXPR)"

definition funDeclaration :: "parse_env \<Rightarrow> parse_calls \<Rightarrow> parse_function_type \<Rightarrow> ast pact" where
  "funDeclaration env C fnType =
     pthn (pwhen (fnType \<noteq> FUNCTION_TYPE_ANON \<and> fnType \<noteq> FUNCTION_TYPE_BLOCK)
       (consume env TOKEN_IDENTIFIER ''Expect function name (identifier) after 'fun' keyword''))
     (pbnd previous (\<lambda>nameTok.
      pthn (pwhen (fnType = FUNCTION_TYPE_SETTER) (consume env TOKEN_EQUAL ''Expect '=' after setter method name''))
     (pbnd (if fnType = FUNCTION_TYPE_GETTER then pret [] else parameters env C fnType) (\<lambda>params.
      pthn (consume env TOKEN_LEFT_BRACE ''Expect '{' after function parameter list'')
     (pbnd previous (\<lambda>lbrace. pbnd (blockStmts env C) (\<lambda>body.
      pret (Node (function_kind fnType) LIT_TYPE_NONE nameTok [mk BLOCK_STMT lbrace [body]] params None))))))))"

subsection \<open>Calls\<close>

text \<open>An argument of a call, and whether keyword arguments have begun.\<close>

definition call_arg :: "parse_env \<Rightarrow> parse_calls \<Rightarrow> bool \<Rightarrow> (ast \<times> bool) pact" where
  "call_arg env C inKwargs =
     pbnd (pand (check TOKEN_IDENTIFIER) (peek_is env 1 TOKEN_COLON)) (\<lambda>kwarg.
     if kwarg
     then pthn (consume env TOKEN_IDENTIFIER ''Expected ident'') (pbnd previous (\<lambda>tok.
       pthn (consume env TOKEN_COLON ''Expected colon'') (pbnd (pc_expression C) (\<lambda>v.
         pret (mk KWARG_IN_CALL_STMT tok [v], True)))))
     else pbnd (check TOKEN_AMP) (\<lambda>amp.
       pthn (pwhen (inKwargs \<and> \<not> amp) (errorAtCurrent ''Cannot have a regular argument after a keyword argument''))
         (pbnd (pc_expression C) (\<lambda>e. pret (e, inKwargs)))))"

definition call_args :: "parse_env \<Rightarrow> parse_calls \<Rightarrow> ast list pact" where
  "call_args env C = pbnd (p_match env TOKEN_RIGHT_PAREN) (\<lambda>none.
     if none then pret []
     else pbnd (ploop (pc_fuel C) (\<lambda>(args, inKwargs).
            pbnd (call_arg env C inKwargs) (\<lambda>(e, inKwargs1).
            pbnd (p_match env TOKEN_COMMA) (\<lambda>comma.
              if comma then again (args @ [e], inKwargs1) else stop (args @ [e])))) ([], False)) (\<lambda>args.
          pthn (consume env TOKEN_RIGHT_PAREN ''Expected ')' to end call expression'') (pret args)))"

text \<open>What follows a primary expression: arguments, perhaps with a block, a property or an index.\<close>

definition call_suffix :: "parse_env \<Rightarrow> parse_calls \<Rightarrow> token \<Rightarrow> ast \<Rightarrow> (ast + ast) pact" where
  "call_suffix env C lhsTok expr = pbnd (p_match env TOKEN_LEFT_PAREN) (\<lambda>paren.
     if paren
     then pthn (pset (\<lambda>p. p\<lparr>pa_inCallExpr := True\<rparr>)) (pbnd (call_args env C) (\<lambda>args.
       let callNode = mk CALL_EXPR lhsTok (expr # args)
       in pbnd (p_match env TOKEN_ARROW) (\<lambda>arrow.
          if arrow
          then pbnd (funDeclaration env C FUNCTION_TYPE_BLOCK) (\<lambda>fn. pbnd previous (\<lambda>tok.
            again (mk CALL_BLOCK_EXPR tok [callNode, fn])))
          else again callNode)))
     else pbnd (p_match env TOKEN_DOT) (\<lambda>dot.
       if dot
       then pthn (consume env TOKEN_IDENTIFIER ''Expected identifier (property name) after '.' in property access'')
         (pbnd previous (\<lambda>tok. again (mk PROP_ACCESS_EXPR tok [expr])))
       else pbnd (p_match env TOKEN_LEFT_BRACKET) (\<lambda>bracket.
         if bracket
         then pbnd previous (\<lambda>tok. pbnd (pc_expression C) (\<lambda>idx.
           pthn (consume env TOKEN_RIGHT_BRACKET ''Expected ']' to end index expression'')
             (again (mk INDEX_GET_EXPR tok [expr, idx]))))
         else stop expr)))"

definition call_with :: "parse_env \<Rightarrow> parse_calls \<Rightarrow> ast pact \<Rightarrow> ast pact" where
  "call_with env C primary = pbnd primary (\<lambda>expr. pbnd (pget pa_inCallExpr) (\<lambda>old. pbnd previous (\<lambda>lhsTok.
     pbnd (ploop (pc_fuel C) (call_suffix env C lhsTok) expr) (\<lambda>e.
       pthn (pset (\<lambda>p. p\<lparr>pa_inCallExpr := old\<rparr>)) (pret e)))))"

text \<open>Operators from the right.\<close>

definition unary_with :: "parse_env \<Rightarrow> parse_calls \<Rightarrow> ast pact \<Rightarrow> ast pact" where
  "unary_with env C primary = pbnd (match_any env [TOKEN_BANG, TOKEN_MINUS]) (\<lambda>b.
     if b then pbnd previous (\<lambda>tok. pbnd (pc_unary C) (\<lambda>e. pret (mk UNARY_EXPR tok [e])))
     else call_with env C primary)"

subsection \<open>Interpolation\<close>

definition index_of :: "u8 \<Rightarrow> bytes \<Rightarrow> nat option" where
  "index_of c bs = (let n = length (takeWhile (\<lambda>x. x \<noteq> c) bs) in if n < length bs then Some n else None)"

text \<open>The text before each ${ and the text up to the next closing brace, and what is left. A ${ without
  a closing brace ends the search; the flag tells that this happened.\<close>

function interpolations :: "bytes \<Rightarrow> (bytes \<times> bytes) list \<times> bytes \<times> bool" where
  "interpolations str = (case strstr str (bytes_of ''${'') of
     None \<Rightarrow> ([], str, False)
   | Some i \<Rightarrow>
       (case index_of (of_char CHR ''}'') (drop i str) of
          None \<Rightarrow> ([], str, True)
        | Some j \<Rightarrow>
            let (ps, rest, unclosed) = interpolations (drop (i + j + 1) str)
            in ((take i str, take (j - 2) (drop (i + 2) str)) # ps, rest, unclosed)))"
  by pat_completeness auto
termination
  by (relation "measure length") (auto simp: index_of_def Let_def split: if_splits)

declare interpolations.simps [simp del]

definition text_literal :: "token \<Rightarrow> bytes \<Rightarrow> ast" where
  "text_literal strTok text = literal STRING_TYPE \<lparr>tk_type = TOKEN_STRING_DQUOTE, tk_startIdx = 0,
     tk_length = int (length text), tk_lexeme = Some text, tk_line = tk_line strTok, tk_alloced = True\<rparr>"

definition syntheticToken :: "parse_env \<Rightarrow> bytes \<Rightarrow> token" where
  "syntheticToken env text = (pe_junk env)\<lparr>tk_startIdx := 0, tk_length := int (length text), tk_lexeme := Some text,
     tk_alloced := False\<rparr>"

text \<open>stringTogetherNodesBinop: the sum of the nodes, from the right.\<close>

fun stringTogetherNodesBinop :: "token \<Rightarrow> ast list \<Rightarrow> ast" where
  "stringTogetherNodesBinop tok [] = NullNode"
| "stringTogetherNodesBinop tok [n] = n"
| "stringTogetherNodesBinop tok (n # ns) = mk BINARY_EXPR tok [n, stringTogetherNodesBinop tok ns]"

text \<open>A new scanner and a new parser for the text between the braces; its expression need not be all of
  the text. After an error the old parser is current again, but not the old scanner.\<close>

definition parse_inner :: "parse_env \<Rightarrow> parse_calls \<Rightarrow> bytes \<Rightarrow> ast pact" where
  "parse_inner env C contents s =
     (case pthn (p_advance env) (pc_expression C)
         (s\<lparr>ps_scanner := initScanner contents, ps_scanMore := False, ps_parser := initParser\<rparr>) of
        None \<Rightarrow> None
      | Some (Inl PError, s1) \<Rightarrow>
          pthn (errorAtPrevious ''Error in interpolation'') fails (s1\<lparr>ps_parser := ps_parser s\<rparr>)
      | Some (Inl PFuel, s1) \<Rightarrow> Some (Inl PFuel, s1)
      | Some (Inr e, s1) \<Rightarrow>
          if e = NullNode \<or> pa_hadError (ps_parser s1) then None
          else Some (Inr e, s1\<lparr>ps_parser := ps_parser s\<rparr>))"

definition interpolated :: "parse_env \<Rightarrow> parse_calls \<Rightarrow> token \<Rightarrow> bytes \<times> bytes \<Rightarrow> ast list pact" where
  "interpolated env C strTok part = pbnd (parse_inner env C (snd part)) (\<lambda>inner.
     let str = syntheticToken env (bytes_of ''String'')
     in pret [text_literal strTok (fst part), mk CALL_EXPR str [mk CONSTANT_EXPR str [], inner]])"

fun interpolated_all :: "parse_env \<Rightarrow> parse_calls \<Rightarrow> token \<Rightarrow> (bytes \<times> bytes) list \<Rightarrow> ast list pact" where
  "interpolated_all env C strTok [] = pret []"
| "interpolated_all env C strTok (part # parts) = pbnd (interpolated env C strTok part) (\<lambda>ns.
     pbnd (interpolated_all env C strTok parts) (\<lambda>ms. pret (ns @ ms)))"

definition restore_scanner :: "pstate \<Rightarrow> unit pact" where
  "restore_scanner old s = Some (Inr (), s\<lparr>ps_scanner := ps_scanner old, ps_scanMore := ps_scanMore old\<rparr>)"

text \<open>Afterwards the old scanner is current again. With an expression in the string, an unclosed ${
  behind it makes the text that is left start behind a null pointer.\<close>

definition string_expr :: "parse_env \<Rightarrow> parse_calls \<Rightarrow> token \<Rightarrow> ast pact" where
  "string_expr env C strTok s =
     (let (parts, rest, unclosed) = interpolations (c_string (lexeme strTok));
        plus = \<lparr>tk_type = TOKEN_PLUS, tk_startIdx = 0, tk_length = 1, tk_lexeme = Some (bytes_of ''+''),
          tk_line = sc_line (ps_scanner s), tk_alloced = False\<rparr>
      in if parts = [] then pret (literal STRING_TYPE strTok) s
         else pbnd (interpolated_all env C strTok parts) (\<lambda>ns.
           if unclosed then fails
           else pthn (restore_scanner s) (pret (stringTogetherNodesBinop plus (ns @ [text_literal strTok rest])))) s)"

subsection \<open>Primary expressions\<close>

definition constant_lookup :: "parse_env \<Rightarrow> ast list \<Rightarrow> ast pact" where
  "constant_lookup env kids = pthn (consume env TOKEN_IDENTIFIER (''Expected identifier after '::'' @ [CHR 0x27]))
     (pbnd previous (\<lambda>tok. pret (mk CONSTANT_LOOKUP_EXPR tok kids)))"

definition constant_lookups :: "parse_env \<Rightarrow> parse_calls \<Rightarrow> ast \<Rightarrow> ast pact" where
  "constant_lookups env C = ploop (pc_fuel C) (\<lambda>n. pbnd (p_match env TOKEN_DICE) (\<lambda>dice.
     if dice then pbnd (constant_lookup env [n]) again else stop n))"

definition name_expr :: "parse_env \<Rightarrow> parse_calls \<Rightarrow> token \<Rightarrow> ast pact" where
  "name_expr env C tok = constant_lookups env C
     (mk (if isCapital (lexeme tok) then CONSTANT_EXPR else VARIABLE_EXPR) tok [])"

text \<open>Commas between the elements of an array may be missing or repeated.\<close>

definition array_expr :: "parse_env \<Rightarrow> parse_calls \<Rightarrow> token \<Rightarrow> ast pact" where
  "array_expr env C tok = pbnd (ploop (pc_fuel C) (\<lambda>els. pbnd (p_match env TOKEN_RIGHT_BRACKET) (\<lambda>fin.
     if fin then stop els
     else pbnd (p_match env TOKEN_COMMA) (\<lambda>comma.
       if comma then again els else pbnd (pc_expression C) (\<lambda>e. again (els @ [e]))))) [])
     (\<lambda>els. pret (mk ARRAY_EXPR tok els))"

definition map_expr :: "parse_env \<Rightarrow> parse_calls \<Rightarrow> ast pact" where
  "map_expr env C = pthn (pseqs [p_advance env, p_advance env]) (pbnd previous (\<lambda>tok.
     pbnd (ploop (pc_fuel C) (\<lambda>els. pbnd (check TOKEN_RIGHT_BRACE) (\<lambda>fin.
       if fin then stop els
       else pbnd (pc_expression C) (\<lambda>key. pthn (consume env TOKEN_COLON ''Expected colon after key in map literal'')
         (pbnd (pc_expression C) (\<lambda>val. pbnd (p_match env TOKEN_COMMA) (\<lambda>comma.
            if comma then again (els @ [key, val]) else stop (els @ [key, val]))))))) [])
     (\<lambda>els. pthn (consume env TOKEN_RIGHT_BRACE ''Expected '}' to end map literal'') (pret (mk MAP_EXPR tok els)))))"

definition regex_expr :: "parse_env \<Rightarrow> ast pact" where
  "regex_expr env = pthn (pseqs [p_advance env, p_advance env]) (pbnd previous (\<lambda>t. pret (literal REGEX_TYPE t)))"

definition group_expr :: "parse_env \<Rightarrow> parse_calls \<Rightarrow> token \<Rightarrow> ast pact" where
  "group_expr env C tok = pbnd (pc_expression C) (\<lambda>e.
     pthn (consume env TOKEN_RIGHT_PAREN ''Expected ')' to end group expression'') (pret (mk GROUPING_EXPR tok [e])))"

definition super_expr :: "parse_env \<Rightarrow> token \<Rightarrow> ast pact" where
  "super_expr env tok = pthn (pseqs [consume env TOKEN_DOT (''Expected '.' after keyword 'super'' @ [CHR 0x27]),
     consume env TOKEN_IDENTIFIER (''Expected identifier after 'super.'' @ [CHR 0x27])])
     (pbnd previous (\<lambda>ident. pret (mk SUPER_EXPR tok [mk TOKEN_NODE ident []])))"

definition this_expr :: "parse_env \<Rightarrow> token \<Rightarrow> ast pact" where
  "this_expr env tok = pbnd (p_match env TOKEN_DICE) (\<lambda>dice.
     if dice then constant_lookup env [mk THIS_EXPR tok []] else pret (mk THIS_EXPR tok []))"

text \<open>One case of a chain of ifs: a test that passes the token, what is made of it, and the rest.\<close>

definition on_match :: "bool pact \<Rightarrow> (token \<Rightarrow> ast pact) \<Rightarrow> ast pact \<Rightarrow> ast pact" where
  "on_match test f rest = pbnd test (\<lambda>b. if b then pbnd previous f else rest)"

fun peek_any :: "parse_env \<Rightarrow> token_type list \<Rightarrow> bool pact" where
  "peek_any env [] = pret False"
| "peek_any env (t # ts) = por (peek_is env 1 t) (peek_any env ts)"

definition percent_before :: "parse_env \<Rightarrow> token_type list \<Rightarrow> bool pact" where
  "percent_before env ts = pand (check TOKEN_PERCENT) (peek_any env ts)"

definition primary_with :: "parse_env \<Rightarrow> parse_calls \<Rightarrow> ast pact" where
  "primary_with env C =
     on_match (match_any env [TOKEN_STRING_DQUOTE, TOKEN_STRING_SQUOTE]) (string_expr env C)
    (on_match (p_match env TOKEN_STRING_STATIC) (\<lambda>t. pret (literal STATIC_STRING_TYPE t))
    (on_match (p_match env TOKEN_NUMBER) (\<lambda>t. pret (literal NUMBER_TYPE t))
    (on_match (p_match env TOKEN_NIL) (\<lambda>t. pret (literal NIL_TYPE t))
    (on_match (match_any env [TOKEN_TRUE, TOKEN_FALSE]) (\<lambda>t. pret (literal BOOL_TYPE t))
    (on_match (p_match env TOKEN_IDENTIFIER) (name_expr env C)
    (on_match (p_match env TOKEN_DICE) (\<lambda>_. pbnd (constant_lookup env []) (constant_lookups env C))
    (on_match (p_match env TOKEN_LEFT_BRACKET) (array_expr env C)
    (on_match (percent_before env [TOKEN_LEFT_BRACE]) (\<lambda>_. map_expr env C)
    (on_match (percent_before env [TOKEN_STRING_DQUOTE, TOKEN_STRING_SQUOTE]) (\<lambda>_. regex_expr env)
    (on_match (p_match env TOKEN_LEFT_PAREN) (group_expr env C)
    (on_match (p_match env TOKEN_SUPER) (super_expr env)
    (on_match (p_match env TOKEN_THIS) (this_expr env)
    (on_match (p_match env TOKEN_FUN) (\<lambda>_. funDeclaration env C FUNCTION_TYPE_ANON)
    (pthn (errorAtCurrent ''Unexpected token'') (pret NullNode)))))))))))))))"

subsection \<open>Statements\<close>

text \<open>A block in braces, with the token of its opening brace.\<close>

definition wrapStmtsInBlock :: "ast \<Rightarrow> token \<Rightarrow> ast" where
  "wrapStmtsInBlock stmtList lbraceTok = mk BLOCK_STMT lbraceTok [stmtList]"

definition braced :: "parse_env \<Rightarrow> parse_calls \<Rightarrow> string \<Rightarrow> ast pact" where
  "braced env C message = pthn (consume env TOKEN_LEFT_BRACE message) (pbnd previous (\<lambda>lbrace.
     pbnd (blockStatements env C) (\<lambda>stmts. pret (wrapStmtsInBlock stmts lbrace))))"

definition printStatement :: "parse_env \<Rightarrow> parse_calls \<Rightarrow> token \<Rightarrow> ast pact" where
  "printStatement env C tok = pbnd (pc_expression C) (\<lambda>e.
     pthn (consume env TOKEN_SEMICOLON ''Expected ';' after 'print' statement'') (pret (mk PRINT_STMT tok [e])))"

definition expressionStatement :: "parse_env \<Rightarrow> parse_calls \<Rightarrow> bool \<Rightarrow> ast pact" where
  "expressionStatement env C expectSemi = pbnd (pget pa_current) (\<lambda>tok. pbnd (pc_expression C) (\<lambda>e.
     pthn (pwhen expectSemi (consume env TOKEN_SEMICOLON ''Expected ';' after expression'')) (pret (mk EXPR_STMT tok [e]))))"

definition foreach_vars :: "parse_env \<Rightarrow> parse_calls \<Rightarrow> ast list pact" where
  "foreach_vars env C = ploop (pc_fuel C) (\<lambda>vars. pbnd (p_match env TOKEN_IDENTIFIER) (\<lambda>b.
     if \<not> b then stop vars
     else pbnd previous (\<lambda>tok. pthn (pwhen (isCapital (lexeme tok)) (errorAtPrevious ''Can't set constants in a foreach loop''))
       (let vars1 = vars @ [mk TOKEN_NODE tok []]
        in pbnd (p_match env TOKEN_IN) (\<lambda>b. if b then stop vars1
           else pbnd (p_match env TOKEN_COMMA) (\<lambda>b. pthn
             (pwhen (\<not> b) (errorAtCurrent ''Unexpected token in foreach statement'')) (again vars1))))))) []"

definition foreachStatement :: "parse_env \<Rightarrow> parse_calls \<Rightarrow> token \<Rightarrow> ast pact" where
  "foreachStatement env C tok = pthn (consume env TOKEN_LEFT_PAREN (''Expect '(' after keyword 'foreach'' @ [CHR 0x27]))
     (pbnd (foreach_vars env C) (\<lambda>vars. pbnd (pc_expression C) (\<lambda>e.
      pthn (consume env TOKEN_RIGHT_PAREN ''Expect ')' after 'foreach' statement variables'')
     (pbnd (braced env C ''Expect '{' after 'foreach' statement variables'') (\<lambda>block.
      pret (mk FOREACH_STMT tok (vars @ [e, block])))))))"

text \<open>The block behind else has the token of the else.\<close>

definition ifStatement :: "parse_env \<Rightarrow> parse_calls \<Rightarrow> token \<Rightarrow> ast pact" where
  "ifStatement env C tok = pthn (consume env TOKEN_LEFT_PAREN (''Expected '(' after keyword 'if'' @ [CHR 0x27]))
     (pbnd (pc_expression C) (\<lambda>cond.
      pthn (consume env TOKEN_RIGHT_PAREN ''Expected ')' to end 'if' condition'')
     (pbnd (braced env C ''Expected '{' after 'if' condition'') (\<lambda>block.
      pbnd (p_match env TOKEN_ELSE) (\<lambda>b.
      if \<not> b then pret (mk IF_STMT tok [cond, block])
      else pbnd previous (\<lambda>elseTok. pbnd (check TOKEN_IF) (\<lambda>elseIf.
        if elseIf then pbnd (pc_statement C) (\<lambda>e. pret (mk IF_STMT tok [cond, block, e]))
        else pthn (consume env TOKEN_LEFT_BRACE (''Expected '{' after 'else'' @ [CHR 0x27]))
          (pbnd (blockStatements env C) (\<lambda>stmts. pret (mk IF_STMT tok [cond, block, wrapStmtsInBlock stmts elseTok]))))))))))"

definition whileStatement :: "parse_env \<Rightarrow> parse_calls \<Rightarrow> token \<Rightarrow> ast pact" where
  "whileStatement env C tok = pthn (consume env TOKEN_LEFT_PAREN (''Expected '(' after keyword 'while'' @ [CHR 0x27]))
     (pbnd (pc_expression C) (\<lambda>cond.
      pthn (consume env TOKEN_RIGHT_PAREN ''Expected ')' after 'while' condition'')
     (pbnd (braced env C ''Expected '{' after while'') (\<lambda>block. pret (mk WHILE_STMT tok [cond, block])))))"

text \<open>The parts of the head of a for may be missing.\<close>

definition for_init :: "parse_env \<Rightarrow> parse_calls \<Rightarrow> ast pact" where
  "for_init env C = pbnd (p_match env TOKEN_SEMICOLON) (\<lambda>none.
     if none then pret NullNode
     else pbnd (check TOKEN_VAR) (\<lambda>var. if var then pc_declaration C else expressionStatement env C True))"

definition for_test :: "parse_env \<Rightarrow> parse_calls \<Rightarrow> ast pact" where
  "for_test env C = pbnd (p_match env TOKEN_SEMICOLON) (\<lambda>none.
     if none then pret NullNode
     else pbnd (pc_expression C) (\<lambda>e.
       pthn (consume env TOKEN_SEMICOLON (''Expected ';' after test expression in 'for'' @ [CHR 0x27])) (pret e)))"

definition for_step :: "parse_env \<Rightarrow> parse_calls \<Rightarrow> ast pact" where
  "for_step env C = pbnd (check TOKEN_RIGHT_PAREN) (\<lambda>none.
     if none then pret NullNode else expressionStatement env C False)"

definition forStatement :: "parse_env \<Rightarrow> parse_calls \<Rightarrow> token \<Rightarrow> ast pact" where
  "forStatement env C tok = pthn (consume env TOKEN_LEFT_PAREN (''Expected '(' after keyword 'for'' @ [CHR 0x27]))
     (pbnd (for_init env C) (\<lambda>init. pbnd (for_test env C) (\<lambda>test. pbnd (for_step env C) (\<lambda>incr.
      pthn (consume env TOKEN_RIGHT_PAREN ''Expected ')' after 'for' increment/decrement expression'')
     (pbnd (braced env C (''Expected '{' after 'for'' @ [CHR 0x27])) (\<lambda>block.
      pret (mk FOR_STMT tok [init, test, incr, block])))))))"

text \<open>The variable of a catch is optional.\<close>

definition catch_var :: "parse_env \<Rightarrow> ast list pact" where
  "catch_var env = pbnd (p_match env TOKEN_IDENTIFIER) (\<lambda>b.
     if b then pbnd previous (\<lambda>tok. pret [mk VARIABLE_EXPR tok []]) else pret [])"

definition catch_clause :: "parse_env \<Rightarrow> parse_calls \<Rightarrow> token \<Rightarrow> ast pact" where
  "catch_clause env C tok = pthn (consume env TOKEN_LEFT_PAREN (''Expected '(' after keyword 'catch'' @ [CHR 0x27]))
     (pbnd (pc_expression C) (\<lambda>e. pbnd (catch_var env) (\<lambda>var.
      pthn (consume env TOKEN_RIGHT_PAREN ''Expected ')' to end 'catch' expression'')
     (pbnd (braced env C ''Expected '{' after 'catch' expression'') (\<lambda>block.
      pret (mk CATCH_STMT tok (e # var @ [block])))))))"

definition catch_clauses :: "parse_env \<Rightarrow> parse_calls \<Rightarrow> ast list pact" where
  "catch_clauses env C = ploop (pc_fuel C) (\<lambda>cs. pbnd (p_match env TOKEN_CATCH) (\<lambda>b.
     if b then pbnd previous (\<lambda>tok. pbnd (catch_clause env C tok) (\<lambda>c. again (cs @ [c]))) else stop cs)) []"

definition try_else :: "parse_env \<Rightarrow> parse_calls \<Rightarrow> nat \<Rightarrow> ast list pact" where
  "try_else env C numCatches = pbnd (p_match env TOKEN_ELSE) (\<lambda>b.
     if \<not> b then pret []
     else pthn (pwhen (numCatches = 0) (errorAtCurrent ''Try needs at least one catch statement with else''))
       (pbnd previous (\<lambda>tok. pbnd (braced env C (''Expected '{' after keyword 'else'' @ [CHR 0x27])) (\<lambda>block.
         pret [mk TRY_ELSE_STMT tok [block]]))))"

definition try_ensure :: "parse_env \<Rightarrow> parse_calls \<Rightarrow> ast list pact" where
  "try_ensure env C = pbnd (p_match env TOKEN_ENSURE) (\<lambda>b.
     if \<not> b then pret []
     else pbnd previous (\<lambda>tok. pbnd (braced env C (''Expected '{' after keyword 'ensure'' @ [CHR 0x27])) (\<lambda>block.
       pret [mk ENSURE_STMT tok [block]])))"

definition tryStatement :: "parse_env \<Rightarrow> parse_calls \<Rightarrow> token \<Rightarrow> ast pact" where
  "tryStatement env C tok = pbnd (braced env C (''Expected '{' after keyword 'try'' @ [CHR 0x27])) (\<lambda>block.
     pbnd (catch_clauses env C) (\<lambda>catches. pbnd (try_else env C (length catches)) (\<lambda>els.
     pbnd (try_ensure env C) (\<lambda>ens. pret (mk TRY_STMT tok (block # catches @ els @ ens))))))"

definition throwStatement :: "parse_env \<Rightarrow> parse_calls \<Rightarrow> token \<Rightarrow> ast pact" where
  "throwStatement env C tok = pbnd (pc_expression C) (\<lambda>e.
     pthn (consume env TOKEN_SEMICOLON ''Expected ';' to end 'throw' statement'') (pret (mk THROW_STMT tok [e])))"

definition jumpStatement :: "parse_env \<Rightarrow> node_kind \<Rightarrow> string \<Rightarrow> token \<Rightarrow> ast pact" where
  "jumpStatement env kind message tok = pthn (consume env TOKEN_SEMICOLON message) (pret (mk kind tok []))"

definition returnStatement :: "parse_env \<Rightarrow> parse_calls \<Rightarrow> token \<Rightarrow> ast pact" where
  "returnStatement env C tok = pbnd (p_match env TOKEN_SEMICOLON) (\<lambda>none.
     if none then pret (mk RETURN_STMT tok [])
     else pbnd (pc_expression C) (\<lambda>e.
       pthn (consume env TOKEN_SEMICOLON ''Expected ';' to end 'return' statement'') (pret (mk RETURN_STMT tok [e]))))"

text \<open>The members of a class or module. Those that look like methods are told from other declarations by
  the tokens that follow.\<close>

definition on_test :: "bool pact \<Rightarrow> 'a pact \<Rightarrow> 'a pact \<Rightarrow> 'a pact" where
  "on_test test m rest = pbnd test (\<lambda>b. if b then m else rest)"

definition class_member :: "parse_env \<Rightarrow> parse_calls \<Rightarrow> ast pact" where
  "class_member env C =
     on_test (pand (check TOKEN_IDENTIFIER) (peek_is env 1 TOKEN_LEFT_PAREN))
       (funDeclaration env C FUNCTION_TYPE_METHOD)
    (on_test (pand (pand (check TOKEN_IDENTIFIER) (peek_is env 1 TOKEN_EQUAL)) (peek_is env 2 TOKEN_LEFT_PAREN))
       (funDeclaration env C FUNCTION_TYPE_SETTER)
    (on_test (pand (check TOKEN_IDENTIFIER) (peek_is env 1 TOKEN_LEFT_BRACE))
       (funDeclaration env C FUNCTION_TYPE_GETTER)
    (on_test (pand (pand (check TOKEN_CLASS) (peek_is env 1 TOKEN_IDENTIFIER)) (peek_is env 2 TOKEN_LEFT_PAREN))
       (pthn (p_advance env) (funDeclaration env C FUNCTION_TYPE_CLASS_METHOD))
    (pc_declaration C))))"

definition classOrModuleBody :: "parse_env \<Rightarrow> parse_calls \<Rightarrow> ast pact" where
  "classOrModuleBody env C = pbnd previous (\<lambda>lbrace. pbnd (stmts_until_brace env C (class_member env C)) (\<lambda>kids.
     pret (mk BLOCK_STMT lbrace [mk STMTLIST_STMT lbrace kids])))"

definition inStatement :: "parse_env \<Rightarrow> parse_calls \<Rightarrow> token \<Rightarrow> ast pact" where
  "inStatement env C tok = pthn (consume env TOKEN_LEFT_PAREN (''Expected '(' after keyword 'in'' @ [CHR 0x27]))
     (pbnd (pc_expression C) (\<lambda>e. pthn (pseqs [
        consume env TOKEN_RIGHT_PAREN ''Expected ')' after 'in' expression'',
        consume env TOKEN_LEFT_BRACE ''Expected '{' after 'in' expression''])
     (pbnd (classOrModuleBody env C) (\<lambda>body.
      pthn (consume env TOKEN_RIGHT_BRACE ''Expected '}' to end in body'') (pret (mk IN_STMT tok [e, body]))))))"

definition statement_with :: "parse_env \<Rightarrow> parse_calls \<Rightarrow> ast pact" where
  "statement_with env C =
     on_match (p_match env TOKEN_PRINT) (printStatement env C)
    (on_match (p_match env TOKEN_FOREACH) (foreachStatement env C)
    (on_match (p_match env TOKEN_IF) (ifStatement env C)
    (on_match (p_match env TOKEN_WHILE) (whileStatement env C)
    (on_match (p_match env TOKEN_FOR) (forStatement env C)
    (on_match (p_match env TOKEN_TRY) (tryStatement env C)
    (on_match (p_match env TOKEN_THROW) (throwStatement env C)
    (on_match (p_match env TOKEN_CONTINUE) (jumpStatement env CONTINUE_STMT (''Expected ';' after keyword 'continue'' @ [CHR 0x27]))
    (on_match (p_match env TOKEN_BREAK) (jumpStatement env BREAK_STMT (''Expected ';' after keyword 'break'' @ [CHR 0x27]))
    (on_match (p_match env TOKEN_RETURN) (returnStatement env C)
    (on_match (p_match env TOKEN_IN) (inStatement env C)
    (expressionStatement env C True)))))))))))"

subsection \<open>Declarations\<close>

definition varDeclaration :: "parse_env \<Rightarrow> parse_calls \<Rightarrow> ast pact" where
  "varDeclaration env C = pthn (consume env TOKEN_IDENTIFIER (''Expected identifier after keyword 'var'' @ [CHR 0x27]))
     (pbnd previous (\<lambda>tok.
      pthn (pwhen (isCapital (lexeme tok))
        (errorAtPrevious ''Variable names cannot start with a capital letter. That's for constants.''))
     (pbnd (ploop (pc_fuel C) (\<lambda>vars. pbnd (p_match env TOKEN_COMMA) (\<lambda>b.
        if \<not> b then stop vars
        else pthn (consume env TOKEN_IDENTIFIER ''Expected identifier (variable name) after ',' in var declaration'')
          (pbnd previous (\<lambda>tok. again (vars @ [mk VAR_STMT tok []]))))) []) (\<lambda>vars.
      pbnd (p_match env TOKEN_EQUAL) (\<lambda>eq.
      pbnd (if eq then pbnd (pc_expression C) (\<lambda>e. pret [e]) else pret []) (\<lambda>init.
      pthn (consume env TOKEN_SEMICOLON ''Expected ';' after variable declaration'')
        (pret (mk VAR_STMT tok (vars @ init)))))))))"

text \<open>The name and the body of a class or module.\<close>

definition constant_name :: "parse_env \<Rightarrow> string \<Rightarrow> string \<Rightarrow> token pact" where
  "constant_name env message capital = pthn (consume env TOKEN_IDENTIFIER message) (pbnd previous (\<lambda>tok.
     pthn (pwhen (\<not> isCapital (lexeme tok)) (errorAtPrevious capital)) (pret tok)))"

definition superclass_name :: "parse_env \<Rightarrow> token option pact" where
  "superclass_name env = pbnd (p_match env TOKEN_LESS) (\<lambda>b.
     if b
     then pthn (consume env TOKEN_IDENTIFIER ''Expected class name after '<' in class declaration'')
       (pbnd previous (\<lambda>tok. pret (Some (copyToken tok))))
     else pret None)"

definition body_in_braces :: "parse_env \<Rightarrow> parse_calls \<Rightarrow> string \<Rightarrow> string \<Rightarrow> ast pact" where
  "body_in_braces env C open_message close_message = pthn (consume env TOKEN_LEFT_BRACE open_message)
     (pbnd (classOrModuleBody env C) (\<lambda>body. pthn (consume env TOKEN_RIGHT_BRACE close_message) (pret body)))"

definition classDeclaration :: "parse_env \<Rightarrow> parse_calls \<Rightarrow> ast pact" where
  "classDeclaration env C =
     pbnd (constant_name env (''Expected class name (identifier) after keyword 'class'' @ [CHR 0x27])
       ''Class name must be a constant (start with a capital letter)'') (\<lambda>name.
     pbnd (superclass_name env) (\<lambda>super.
     pbnd (body_in_braces env C ''Expected '{' after class name'' ''Expected '}' to end class body'') (\<lambda>body.
       pret (Node CLASS_STMT LIT_TYPE_NONE name [body] [] super))))"

definition moduleDeclaration :: "parse_env \<Rightarrow> parse_calls \<Rightarrow> ast pact" where
  "moduleDeclaration env C =
     pbnd (constant_name env (''Expected module name (identifier) after keyword 'module'' @ [CHR 0x27])
       ''Module name must be a constant (start with a capital letter)'') (\<lambda>name.
     pbnd (body_in_braces env C ''Expected '{' after module name'' ''Expected '}' to end module body'') (\<lambda>body.
       pret (mk MODULE_STMT name [body])))"

definition declaration_with :: "parse_env \<Rightarrow> parse_calls \<Rightarrow> ast pact" where
  "declaration_with env C =
     on_test (p_match env TOKEN_VAR) (varDeclaration env C)
    (on_test (pand (check TOKEN_FUN) (peek_is env 1 TOKEN_IDENTIFIER))
       (pthn (p_advance env) (funDeclaration env C FUNCTION_TYPE_NAMED))
    (on_test (p_match env TOKEN_CLASS) (classDeclaration env C)
    (on_test (p_match env TOKEN_MODULE) (moduleDeclaration env C)
    (pc_statement C))))"

subsection \<open>The parser\<close>

fun parse_with :: "parse_env \<Rightarrow> nat \<Rightarrow> parse_calls" where
  "parse_with env 0 = \<lparr>pc_fuel = 0, pc_expression = pjump PFuel, pc_assignment = pjump PFuel,
     pc_unary = pjump PFuel, pc_statement = pjump PFuel, pc_declaration = pjump PFuel\<rparr>"
| "parse_with env (Suc n) = (let C = parse_with env n in \<lparr>pc_fuel = Suc n,
     pc_expression = expression_with env C, pc_assignment = assignment_with env C,
     pc_unary = unary_with env C (primary_with env C), pc_statement = statement_with env C,
     pc_declaration = declaration_with env C\<rparr>)"

definition current_is :: "parser \<Rightarrow> pstate \<Rightarrow> pstate" where
  "current_is p s = s\<lparr>ps_parser := p\<rparr>"

text \<open>parse: the program, or no program after an error; the messages are in the parser.\<close>

definition parse_program :: "parse_env \<Rightarrow> nat \<Rightarrow> ast pact" where
  "parse_program env n = (let C = parse_with env n in
     pthn (p_advance env) (pbnd (ploop n (\<lambda>kids. pbnd (p_isAtEnd env) (\<lambda>fin.
       if fin then stop kids else pbnd (pc_declaration C) (\<lambda>stmt.
         if stmt = NullNode then fails else again (kids @ [stmt])))) []) (\<lambda>kids.
       pret (mk STMTLIST_STMT emptyTok kids))))"

definition parse_result :: "(parse_jump + ast) \<times> pstate \<Rightarrow> (ast option \<times> pstate) option" where
  "parse_result r = (case r of (Inr n, s) \<Rightarrow> Some (Some n, s)
     | (Inl PError, s) \<Rightarrow> if pa_panicMode (ps_parser s) then Some (None, s) else None
     | (Inl PFuel, s) \<Rightarrow> None)"

definition parse :: "parse_env \<Rightarrow> nat \<Rightarrow> pstate \<Rightarrow> (ast option \<times> pstate) option" where
  "parse env n s = Option.bind (parse_program env n (current_is initParser s)) parse_result"

definition parseExpression :: "parse_env \<Rightarrow> nat \<Rightarrow> parser \<Rightarrow> ast pact" where
  "parseExpression env n p s = pthn (p_advance env) (pc_expression (parse_with env n)) (current_is p s)"

definition parseClass :: "parse_env \<Rightarrow> nat \<Rightarrow> parser \<Rightarrow> ast pact" where
  "parseClass env n p s = pthn (p_advance env) (classOrModuleBody env (parse_with env n)) (current_is p s)"

text \<open>The function for more source stays set after an error. The first token is read before the jump
  buffer is set.\<close>

definition parseMaybePartialStatement :: "parse_env \<Rightarrow> nat \<Rightarrow> parser \<Rightarrow> pstate \<Rightarrow> (ast option \<times> pstate) option" where
  "parseMaybePartialStatement env n p s =
     (case p_advance env (current_is p (s\<lparr>ps_moreSet := True\<rparr>)) of
        Some (Inr _, s1) \<Rightarrow> Option.bind (pc_declaration (parse_with env n) s1) (\<lambda>r. map_option
          (\<lambda>(n, s2). (n, if n = None then s2 else s2\<lparr>ps_moreSet := False\<rparr>)) (parse_result r))
      | _ \<Rightarrow> None)"

end
