(* ===== verification/Clox_Parser_Props.thy ===== *)
theory Clox_Parser_Props
  imports Clox_Parser
begin

text \<open>Properties of the parser: it makes of the tokens of an expression the tree that the precedence of
  the operators asks for, and what it does at the end of the input.\<close>

subsection \<open>Tokens at hand\<close>

text \<open>The parser is about to read the given tokens, which are all in its buffer, and it can neither have
  more source nor has it given up.\<close>

definition about_to_read :: "token list \<Rightarrow> pstate \<Rightarrow> bool" where
  "about_to_read ts s \<longleftrightarrow> ts = pa_current (ps_parser s) # pa_peekBuf (ps_parser s) \<and>
     \<not> pa_aborted (ps_parser s) \<and> \<not> ps_moreSet s \<and> (\<forall>t\<in>set ts. tk_type t \<noteq> TOKEN_ERROR)"

definition passed :: "pstate \<Rightarrow> pstate" where
  "passed s = (let p = ps_parser s in s\<lparr>ps_parser := p\<lparr>pa_previous := pa_current p,
     pa_current := hd (pa_peekBuf p), pa_peekBuf := tl (pa_peekBuf p)\<rparr>\<rparr>)"

lemma pact_simps:
  "pbnd m f s = (case m s of None \<Rightarrow> None | Some (Inl j, s1) \<Rightarrow> Some (Inl j, s1) | Some (Inr a, s1) \<Rightarrow> f a s1)"
  "pthn m n s = (case m s of None \<Rightarrow> None | Some (Inl j, s1) \<Rightarrow> Some (Inl j, s1) | Some (Inr a, s1) \<Rightarrow> n s1)"
  "pret a s = Some (Inr a, s)" "pskip s = Some (Inr (), s)" "pget g s = Some (Inr (g (ps_parser s)), s)"
  "pset h s = Some (Inr (), s\<lparr>ps_parser := h (ps_parser s)\<rparr>)" "pjump j s = Some (Inl j, s)"
  by (simp_all add: pbnd_def pthn_def pret_def pskip_def pget_def pset_def pjump_def yields_def)

lemma about_to_read_passed:
  assumes "about_to_read (t # u # ts) s"
  shows "about_to_read (u # ts) (passed s)" "pa_previous (ps_parser (passed s)) = t"
    "pa_inCallExpr (ps_parser (passed s)) = pa_inCallExpr (ps_parser s)"
proof -
  have "pa_peekBuf (ps_parser s) = u # ts" using assms by (simp add: about_to_read_def)
  then show "about_to_read (u # ts) (passed s)" "pa_previous (ps_parser (passed s)) = t"
    "pa_inCallExpr (ps_parser (passed s)) = pa_inCallExpr (ps_parser s)"
    using assms by (auto simp: about_to_read_def passed_def Let_def)
qed

lemma advance_run:
  assumes "about_to_read (t # u # ts) s"
  shows "p_advance env s = Some (Inr (), passed s)"
proof -
  let ?s = "s\<lparr>ps_parser := (ps_parser s)\<lparr>pa_previous := t\<rparr>\<rparr>"
  have b: "pa_current (ps_parser s) = t" "pa_peekBuf (ps_parser s) = u # ts" "tk_type u \<noteq> TOKEN_ERROR"
    using assms by (auto simp: about_to_read_def)
  have "advance_once env ?s = Some (Inr True, passed s)"
    using b by (simp add: advance_once_def nextToken_def pact_simps passed_def Let_def)
  then have "advance_loop env ?s = Some (Inr (), passed s)" by (subst advance_loop.simps) simp
  then show ?thesis using b by (simp add: p_advance_def pact_simps)
qed

lemma check_run: "about_to_read (t # ts) s \<Longrightarrow> check ttype s = Some (Inr (tk_type t = ttype), s)"
  by (auto simp: check_def pact_simps about_to_read_def)

lemma match_run:
  assumes "about_to_read (t # u # ts) s"
  shows "p_match env ttype s = (if tk_type t = ttype then Some (Inr True, passed s) else Some (Inr False, s))"
proof -
  have "\<not> pa_aborted (ps_parser s)" "at_eof_with_more s = Some (Inr False, s)"
    using assms by (simp_all add: about_to_read_def at_eof_with_more_def)
  then show ?thesis by (simp add: p_match_def pact_simps check_run [OF assms] advance_run [OF assms])
qed

lemma peek_run:
  assumes "about_to_read (t # u # ts) s"
  shows "peek_is env 1 ttype s = Some (Inr (tk_type u = ttype), s)"
proof -
  have "pa_peekBuf (ps_parser s) = u # ts" using assms by (simp add: about_to_read_def)
  then show ?thesis by (simp add: peek_is_def peekTokN_def pact_simps)
qed

lemma consume_run:
  assumes "about_to_read (t # u # ts) s" "tk_type t = ttype"
  shows "consume env ttype message s = Some (Inr (), passed s)"
  using assms(2) by (simp add: consume_def pact_simps check_run [OF assms(1)] advance_run [OF assms(1)])

lemma check_any_run:
  assumes "about_to_read (t # ts) s"
  shows "check_any types s = Some (Inr (tk_type t \<in> set types), s)"
  by (induction types) (auto simp: pact_simps por_def check_run [OF assms])

lemma match_any_run:
  assumes "about_to_read (t # u # ts) s"
  shows "match_any env types s = (if tk_type t \<in> set types then Some (Inr True, passed s) else Some (Inr False, s))"
  by (induction types) (auto simp: pact_simps por_def match_run [OF assms])

lemma plain_op_run:
  assumes "about_to_read (t # u # ts) s" "tk_type u \<noteq> TOKEN_EQUAL"
  shows "plain_op env types s = (if tk_type t \<in> set types then Some (Inr True, passed s) else Some (Inr False, s))"
  using assms(2) by (auto simp: plain_op_def pand_def pnot_def pact_simps check_any_run [OF assms(1)]
      peek_run [OF assms(1)] advance_run [OF assms(1)] simp del: One_nat_def)

lemma previous_run: "previous s = Some (Inr (pa_previous (ps_parser s)), s)"
  by (simp add: previous_def pact_simps)

subsection \<open>Expressions and their tokens\<close>

text \<open>The levels of the binary operators, from the loosest.\<close>

definition op_level :: "token_type \<Rightarrow> nat option" where
  "op_level t = (
     if t = TOKEN_OR then Some 0
     else if t = TOKEN_AND then Some 1
     else if t = TOKEN_EQUAL_EQUAL \<or> t = TOKEN_BANG_EQUAL then Some 2
     else if t = TOKEN_LESS \<or> t = TOKEN_LESS_EQUAL \<or> t = TOKEN_GREATER \<or> t = TOKEN_GREATER_EQUAL then Some 3
     else if t = TOKEN_PLUS \<or> t = TOKEN_MINUS then Some 4
     else if t = TOKEN_PIPE \<or> t = TOKEN_AMP \<or> t = TOKEN_CARET \<or> t = TOKEN_SHOVEL_L \<or> t = TOKEN_SHOVEL_R then Some 5
     else if t = TOKEN_STAR \<or> t = TOKEN_SLASH \<or> t = TOKEN_PERCENT then Some 6
     else None)"

definition op_kind :: "nat \<Rightarrow> node_kind" where
  "op_kind l = (if l \<le> 1 then LOGICAL_EXPR else BINARY_EXPR)"

text \<open>A tree of a level and its tokens: 7 is the level of the unary operators, 8 that of literals, names
  and parentheses. The right operand of a binary operator is of the next level.\<close>

inductive renders :: "nat \<Rightarrow> ast \<Rightarrow> token list \<Rightarrow> bool" where
  number: "tk_type t = TOKEN_NUMBER \<Longrightarrow> renders 8 (literal NUMBER_TYPE t) [t]"
| nil: "tk_type t = TOKEN_NIL \<Longrightarrow> renders 8 (literal NIL_TYPE t) [t]"
| bool: "tk_type t = TOKEN_TRUE \<or> tk_type t = TOKEN_FALSE \<Longrightarrow> renders 8 (literal BOOL_TYPE t) [t]"
| name: "tk_type t = TOKEN_IDENTIFIER \<Longrightarrow>
    renders 8 (mk (if isCapital (lexeme t) then CONSTANT_EXPR else VARIABLE_EXPR) t []) [t]"
| group: "renders 0 e ts \<Longrightarrow> tk_type l = TOKEN_LEFT_PAREN \<Longrightarrow> tk_type r = TOKEN_RIGHT_PAREN \<Longrightarrow>
    renders 8 (mk GROUPING_EXPR l [e]) (l # ts @ [r])"
| unary: "renders 7 e ts \<Longrightarrow> tk_type t = TOKEN_BANG \<or> tk_type t = TOKEN_MINUS \<Longrightarrow>
    renders 7 (mk UNARY_EXPR t [e]) (t # ts)"
| binary: "renders l x xs \<Longrightarrow> renders (Suc l) y ys \<Longrightarrow> op_level (tk_type t) = Some l \<Longrightarrow>
    renders l (mk (op_kind l) t [x, y]) (xs @ t # ys)"
| looser: "renders (Suc l) e ts \<Longrightarrow> renders l e ts"

text \<open>The tokens that may follow an expression of a level.\<close>

definition ends_expr :: "token_type \<Rightarrow> bool" where
  "ends_expr t \<longleftrightarrow> t \<in> {TOKEN_SEMICOLON, TOKEN_RIGHT_PAREN, TOKEN_RIGHT_BRACKET, TOKEN_RIGHT_BRACE, TOKEN_COMMA,
     TOKEN_COLON, TOKEN_LEFT_BRACE}"

definition may_follow :: "nat \<Rightarrow> token_type \<Rightarrow> bool" where
  "may_follow l t \<longleftrightarrow> ends_expr t \<or> (\<exists>k<l. op_level t = Some k)"

definition level_op :: "parse_env \<Rightarrow> nat \<Rightarrow> bool pact" where
  "level_op env l = (
     if l = 0 then p_match env TOKEN_OR
     else if l = 1 then p_match env TOKEN_AND
     else if l = 2 then match_any env [TOKEN_EQUAL_EQUAL, TOKEN_BANG_EQUAL]
     else if l = 3 then match_any env [TOKEN_LESS, TOKEN_LESS_EQUAL, TOKEN_GREATER, TOKEN_GREATER_EQUAL]
     else if l = 4 then plain_op env [TOKEN_PLUS, TOKEN_MINUS]
     else if l = 5 then plain_op env [TOKEN_PIPE, TOKEN_AMP, TOKEN_CARET, TOKEN_SHOVEL_L, TOKEN_SHOVEL_R]
     else plain_op env [TOKEN_STAR, TOKEN_SLASH, TOKEN_PERCENT])"

text \<open>The function of a level; the unary operators take one unit of fuel.\<close>

definition parse_level :: "parse_env \<Rightarrow> nat \<Rightarrow> nat \<Rightarrow> ast pact" where
  "parse_level env n l = (let C = parse_with env n; D = parse_with env (n - 1) in
     if l = 0 then logicOr env C
     else if l = 1 then logicAnd env C
     else if l = 2 then equality env C
     else if l = 3 then comparison env C
     else if l = 4 then addition env C
     else if l = 5 then bitManip env C
     else if l = 6 then multiplication env C
     else if l = 7 then pc_unary C
     else call_with env D (primary_with env D))"

lemma pc_fuel_with [simp]: "pc_fuel (parse_with env n) = n"
  by (cases n) (simp_all add: Let_def)

definition round_of :: "parse_env \<Rightarrow> nat \<Rightarrow> nat \<Rightarrow> ast \<Rightarrow> (ast + ast) pact" where
  "round_of env n l left = pbnd (level_op env l) (\<lambda>b. if \<not> b then stop left
     else pbnd previous (\<lambda>tok. pbnd (parse_level env n (Suc l)) (\<lambda>right. again (mk (op_kind l) tok [left, right]))))"

lemma level_loop:
  assumes "l \<le> 6"
  shows "parse_level env n l = pbnd (parse_level env n (Suc l)) (ploop n (round_of env n l))"
proof -
  note defs = round_of_def [abs_def] parse_level_def Let_def left_assoc_def level_op_def op_kind_def
  consider "l = 0" | "l = 1" | "l = 2" | "l = 3" | "l = 4" | "l = 5" | "l = 6" using assms by linarith
  then show ?thesis
  proof cases
    case 1 then show ?thesis by (simp add: defs logicOr_def del: parse_with.simps cong: if_cong)
  next
    case 2 then show ?thesis by (simp add: defs logicAnd_def del: parse_with.simps cong: if_cong)
  next
    case 3 then show ?thesis by (simp add: defs equality_def del: parse_with.simps cong: if_cong)
  next
    case 4 then show ?thesis by (simp add: defs comparison_def del: parse_with.simps cong: if_cong)
  next
    case 5 then show ?thesis by (simp add: defs addition_def del: parse_with.simps cong: if_cong)
  next
    case 6 then show ?thesis by (simp add: defs bitManip_def del: parse_with.simps cong: if_cong)
  next
    case 7 then show ?thesis by (simp add: defs multiplication_def del: parse_with.simps cong: if_cong)
  qed
qed

lemma level_op_run:
  assumes "about_to_read (t # u # ts) s" "l \<le> 6" "tk_type u \<noteq> TOKEN_EQUAL"
  shows "level_op env l s = (if op_level (tk_type t) = Some l then Some (Inr True, passed s) else Some (Inr False, s))"
proof -
  note runs = match_run [OF assms(1)] match_any_run [OF assms(1)] plain_op_run [OF assms(1,3)]
  consider "l = 0" | "l = 1" | "l = 2" | "l = 3" | "l = 4" | "l = 5" | "l = 6" using assms(2) by linarith
  then show ?thesis by cases (simp_all add: level_op_def runs op_level_def del: match_any.simps check_any.simps)
qed

text \<open>The token after the next one need not be looked at when the next one is no operator of the level.\<close>

lemma level_op_stops:
  assumes "about_to_read (t # u # ts) s" "l \<le> 6" "may_follow l (tk_type t)"
  shows "level_op env l s = Some (Inr False, s)"
proof -
  have n: "op_level (tk_type t) \<noteq> Some l"
    using assms(3) by (auto simp: may_follow_def ends_expr_def op_level_def)
  note runs = match_run [OF assms(1)] match_any_run [OF assms(1)] plain_op_def pand_def check_any_run [OF assms(1)] pact_simps
  consider "l = 0" | "l = 1" | "l = 2" | "l = 3" | "l = 4" | "l = 5" | "l = 6" using assms(2) by linarith
  then show ?thesis using n by cases (auto simp: level_op_def runs op_level_def simp del: match_any.simps check_any.simps split: if_splits)
qed

definition starts_expr :: "token_type \<Rightarrow> bool" where
  "starts_expr t \<longleftrightarrow> t \<in> {TOKEN_NUMBER, TOKEN_NIL, TOKEN_TRUE, TOKEN_FALSE, TOKEN_IDENTIFIER, TOKEN_LEFT_PAREN,
     TOKEN_BANG, TOKEN_MINUS}"

lemma renders_tokens: "renders l t ts \<Longrightarrow> \<exists>u us. ts = u # us \<and> starts_expr (tk_type u)"
  by (induction rule: renders.induct) (auto simp: starts_expr_def)

lemma renders_level: "renders l t ts \<Longrightarrow> l \<le> 8"
  by (induction rule: renders.induct) (auto simp: op_level_def split: if_splits)

lemma renders_primary:
  "renders l t ts \<Longrightarrow> l = 8 \<Longrightarrow> tk_type (hd ts) \<noteq> TOKEN_BANG \<and> tk_type (hd ts) \<noteq> TOKEN_MINUS"
  by (induction rule: renders.induct) (auto simp: op_level_def dest: renders_level split: if_splits)

subsection \<open>Parsing what was rendered\<close>

definition parses :: "parse_env \<Rightarrow> nat \<Rightarrow> ast \<Rightarrow> token list \<Rightarrow> bool" where
  "parses env l t ts \<longleftrightarrow> (\<forall>n s rest. 3 * length ts \<le> n \<longrightarrow> about_to_read (ts @ rest) s \<longrightarrow> 2 \<le> length rest \<longrightarrow>
     may_follow l (tk_type (hd rest)) \<longrightarrow> (\<exists>s1. parse_level env n l s = Some (Inr t, s1) \<and> about_to_read rest s1))"

text \<open>The level has read the tokens and is in its loop.\<close>

definition enters_loop :: "parse_env \<Rightarrow> nat \<Rightarrow> ast \<Rightarrow> token list \<Rightarrow> bool" where
  "enters_loop env l t ts \<longleftrightarrow> (\<forall>n s rest. 3 * length ts \<le> n \<longrightarrow> about_to_read (ts @ rest) s \<longrightarrow> 2 \<le> length rest \<longrightarrow>
     may_follow (Suc l) (tk_type (hd rest)) \<longrightarrow>
     (\<exists>s1 k. n < k + length ts \<and> parse_level env n l s = ploop k (round_of env n l) t s1 \<and> about_to_read rest s1))"

lemma two_tokens: "2 \<le> length rest \<Longrightarrow> \<exists>t u us. rest = t # u # us"
  by (cases rest; cases "tl rest") auto

lemma may_follow_Suc: "may_follow l t \<Longrightarrow> may_follow (Suc l) t"
  by (auto simp: may_follow_def)

lemma parses_by_loop:
  assumes "enters_loop env l t ts" "l \<le> 6" "ts \<noteq> []"
  shows "parses env l t ts"
  unfolding parses_def
proof (intro allI impI)
  fix n s rest
  assume a: "3 * length ts \<le> n" "about_to_read (ts @ rest) s" "2 \<le> length rest" "may_follow l (tk_type (hd rest))"
  obtain s1 k where k: "n < k + length ts" "parse_level env n l s = ploop k (round_of env n l) t s1" "about_to_read rest s1"
    using assms(1) a may_follow_Suc unfolding enters_loop_def by blast
  obtain u v us where r: "rest = u # v # us" using two_tokens [OF a(3)] by blast
  obtain k1 where k1: "k = Suc k1" using k(1) a(1) assms(3) by (cases k) auto
  have "level_op env l s1 = Some (Inr False, s1)"
    using level_op_stops [of u v us s1 l env] k(3) a(4) assms(2) r by simp
  then have "parse_level env n l s = Some (Inr t, s1)"
    unfolding k(2) k1 by (simp add: round_of_def pact_simps stop_def)
  then show "\<exists>s1. parse_level env n l s = Some (Inr t, s1) \<and> about_to_read rest s1" using k(3) by blast
qed

lemma loop_from_operand:
  assumes "parses env (Suc l) t ts" "l \<le> 6" "ts \<noteq> []"
  shows "enters_loop env l t ts"
  unfolding enters_loop_def
proof (intro allI impI)
  fix n s rest
  assume a: "3 * length ts \<le> n" "about_to_read (ts @ rest) s" "2 \<le> length rest" "may_follow (Suc l) (tk_type (hd rest))"
  obtain s1 where "parse_level env n (Suc l) s = Some (Inr t, s1)" "about_to_read rest s1"
    using assms(1) a unfolding parses_def by blast
  then have "parse_level env n l s = ploop n (round_of env n l) t s1 \<and> about_to_read rest s1"
    by (simp add: level_loop [OF assms(2)] pact_simps)
  then show "\<exists>s1 k. n < k + length ts \<and> parse_level env n l s = ploop k (round_of env n l) t s1 \<and> about_to_read rest s1"
    using assms(3) by (intro exI [of _ s1] exI [of _ n]) simp
qed

lemma loop_goes_on:
  assumes "enters_loop env l x xs" "parses env (Suc l) y ys" "op_level (tk_type t) = Some l"
    "ys = u # us" "starts_expr (tk_type u)"
  shows "enters_loop env l (mk (op_kind l) t [x, y]) (xs @ t # ys)"
  unfolding enters_loop_def
proof (intro allI impI)
  fix n s rest
  assume a: "3 * length (xs @ t # ys) \<le> n" "about_to_read ((xs @ t # ys) @ rest) s" "2 \<le> length rest"
    "may_follow (Suc l) (tk_type (hd rest))"
  have l: "l \<le> 6" using assms(3) by (auto simp: op_level_def split: if_splits)
  have "may_follow (Suc l) (tk_type t)" using assms(3) by (auto simp: may_follow_def)
  then obtain s1 k where k: "n < k + length xs" "parse_level env n l s = ploop k (round_of env n l) x s1"
    "about_to_read (t # ys @ rest) s1"
    using assms(1) [unfolded enters_loop_def, rule_format, of n "t # ys @ rest" s] a by auto
  obtain k1 where k1: "k = Suc k1" using k(1) a(1) by (cases k) auto
  have r: "about_to_read (t # u # us @ rest) s1" using k(3) assms(4) by simp
  have op: "level_op env l s1 = Some (Inr True, passed s1)"
    using level_op_run [OF r l] assms(3,5) by (auto simp: starts_expr_def)
  have p: "about_to_read (ys @ rest) (passed s1)" "pa_previous (ps_parser (passed s1)) = t"
    using about_to_read_passed [OF r] assms(4) by simp_all
  obtain s2 where s2: "parse_level env n (Suc l) (passed s1) = Some (Inr y, s2)" "about_to_read rest s2"
    using assms(2) [unfolded parses_def, rule_format, of n rest "passed s1"] a p(1) by auto
  have "parse_level env n l s = ploop k1 (round_of env n l) (mk (op_kind l) t [x, y]) s2"
    unfolding k(2) k1 by (simp add: round_of_def pact_simps op previous_run p(2) s2(1) again_def)
  then show "\<exists>s1 k. n < k + length (xs @ t # ys) \<and>
      parse_level env n l s = ploop k (round_of env n l) (mk (op_kind l) t [x, y]) s1 \<and> about_to_read rest s1"
    using s2(2) k(1) k1 by (intro exI [of _ s2] exI [of _ k1]) simp
qed

lemma unfold_fuel: "0 < n \<Longrightarrow> parse_with env n = (let C = parse_with env (n - 1) in \<lparr>pc_fuel = n,
     pc_expression = expression_with env C, pc_assignment = assignment_with env C,
     pc_unary = unary_with env C (primary_with env C), pc_statement = statement_with env C,
     pc_declaration = declaration_with env C\<rparr>)"
  by (cases n) simp_all

text \<open>From the loosest operators to a whole expression.\<close>

lemma expression_run:
  assumes "parses env 0 t ts" "ts = u # us" "starts_expr (tk_type u)" "3 * length ts + 2 \<le> n"
    "about_to_read (ts @ rest) s" "2 \<le> length rest" "ends_expr (tk_type (hd rest))"
  shows "\<exists>s1. pc_expression (parse_with env n) s = Some (Inr t, s1) \<and> about_to_read rest s1"
proof -
  obtain v w ws where r: "rest = v # w # ws" using two_tokens [OF assms(6)] by blast
  obtain k where k: "n = Suc (Suc k)" "3 * length ts \<le> k" using assms(4) by (metis add_le_cancel_right add_2_eq_Suc' le_Suc_ex add.commute add_Suc_right nat_arith.rule0 Suc_le_D Suc_le_mono)
  have "may_follow 0 (tk_type (hd rest))" using assms(7) by (simp add: may_follow_def)
  then obtain s1 where s1: "parse_level env k 0 s = Some (Inr t, s1)" "about_to_read rest s1"
    using assms(1,5,6) k(2) unfolding parses_def by blast
  have a: "about_to_read (v # w # ws) s1" using s1(2) r by simp
  have v: "ends_expr (tk_type v)" using assms(7) r by simp
  have "checkAssignOp env s1 = Some (Inr False, s1)"
    using v by (auto simp: checkAssignOp_def pand_def pact_simps peek_run [OF a] check_any_run [OF a] ends_expr_def
        simp del: check_any.simps One_nat_def)
  moreover have "p_match env TOKEN_EQUAL s1 = Some (Inr False, s1)"
    using v by (auto simp: match_run [OF a] ends_expr_def)
  moreover have "logicOr env (parse_with env k) s = Some (Inr t, s1)" using s1(1) by (simp add: parse_level_def Let_def)
  ultimately have "pc_assignment (parse_with env (Suc k)) s = Some (Inr t, s1)"
    by (simp add: Let_def assignment_with_def pact_simps)
  moreover obtain u' us' where "ts @ rest = u # u' # us'" using assms(2) r by (cases us) auto
  ultimately have "pc_expression (parse_with env n) s = Some (Inr t, s1)"
    using assms(3,5) unfolding k(1)
    by (auto simp: Let_def expression_with_def pact_simps pand_def match_run previous_run starts_expr_def)
  then show ?thesis using s1(2) by blast
qed

lemma unary_level_run:
  assumes "parses env 7 e ts" "tk_type t = TOKEN_BANG \<or> tk_type t = TOKEN_MINUS" "ts = u # us"
  shows "parses env 7 (mk UNARY_EXPR t [e]) (t # ts)"
  unfolding parses_def
proof (intro allI impI)
  fix n s rest
  assume a: "3 * length (t # ts) \<le> n" "about_to_read ((t # ts) @ rest) s" "2 \<le> length rest"
    "may_follow 7 (tk_type (hd rest))"
  obtain k where k: "n = Suc k" "3 * length ts \<le> k" using a(1) by (cases n) auto
  have r: "about_to_read (t # u # us @ rest) s" using a(2) assms(3) by simp
  obtain s1 where s1: "parse_level env k 7 (passed s) = Some (Inr e, s1)" "about_to_read rest s1"
    using assms(1) [unfolded parses_def, rule_format, of k rest "passed s"] k(2) a about_to_read_passed(1) [OF r] assms(3)
    by auto
  have "parse_level env n 7 s = Some (Inr (mk UNARY_EXPR t [e]), s1)"
    using assms(2) s1(1) unfolding k(1)
    by (auto simp: parse_level_def Let_def unary_with_def pact_simps match_any_run [OF r] previous_run about_to_read_passed [OF r]
        simp del: match_any.simps)
  then show "\<exists>s1. parse_level env n 7 s = Some (Inr (mk UNARY_EXPR t [e]), s1) \<and> about_to_read rest s1" using s1(2) by blast
qed

text \<open>Nothing follows a primary expression that would be a part of it.\<close>

lemma no_suffix:
  assumes "about_to_read rest s" "2 \<le> length rest" "may_follow 8 (tk_type (hd rest))" "0 < n"
  shows "ploop n (call_suffix env C lhs) e s = Some (Inr e, s)"
    "ploop n (\<lambda>x. pbnd (p_match env TOKEN_DICE) (\<lambda>dice. if dice then pbnd (constant_lookup env [x]) again else stop x)) e s =
      Some (Inr e, s)"
proof -
  obtain t u us where r: "rest = t # u # us" using two_tokens [OF assms(2)] by blast
  obtain k where k: "n = Suc k" using assms(4) by (cases n) auto
  have t: "tk_type t \<notin> {TOKEN_LEFT_PAREN, TOKEN_DOT, TOKEN_LEFT_BRACKET, TOKEN_DICE}"
    using assms(3) r by (auto simp: may_follow_def ends_expr_def op_level_def)
  note m = match_run [OF assms(1) [unfolded r]]
  show "ploop n (call_suffix env C lhs) e s = Some (Inr e, s)"
    using t unfolding k by (simp add: call_suffix_def pact_simps m stop_def)
  show "ploop n (\<lambda>x. pbnd (p_match env TOKEN_DICE) (\<lambda>dice. if dice then pbnd (constant_lookup env [x]) again else stop x)) e s =
      Some (Inr e, s)"
    using t unfolding k by (simp add: pact_simps m stop_def)
qed

lemma primary_level_run:
  assumes "\<And>n s rest. 3 * length ts \<le> Suc n \<Longrightarrow> about_to_read (ts @ rest) s \<Longrightarrow> 2 \<le> length rest \<Longrightarrow>
      may_follow 8 (tk_type (hd rest)) \<Longrightarrow>
      \<exists>s1. primary_with env (parse_with env n) s = Some (Inr e, s1) \<and> about_to_read rest s1"
    "ts \<noteq> []"
  shows "parses env 8 e ts"
  unfolding parses_def
proof (intro allI impI)
  fix n s rest
  assume a: "3 * length ts \<le> n" "about_to_read (ts @ rest) s" "2 \<le> length rest" "may_follow 8 (tk_type (hd rest))"
  obtain k where n: "n = Suc k" "0 < k" using a(1) assms(2) by (cases n; cases ts) auto
  obtain s1 where s1: "primary_with env (parse_with env k) s = Some (Inr e, s1)" "about_to_read rest s1"
    using assms(1) [of k rest s] a n by auto
  have "parse_level env n 8 s = Some (Inr e, s1)"
    using n no_suffix(1) [OF s1(2) a(3,4)]
    by (simp add: parse_level_def Let_def call_with_def pact_simps s1(1) previous_run del: parse_with.simps)
  then show "\<exists>s1. parse_level env n 8 s = Some (Inr e, s1) \<and> about_to_read rest s1" using s1(2) by blast
qed

lemma primary_number:
  assumes "about_to_read (t # u # us) s" "tk_type t = TOKEN_NUMBER"
  shows "primary_with env C s = Some (Inr (literal NUMBER_TYPE t), passed s)"
  using assms(2) by (simp add: primary_with_def on_match_def pact_simps match_any_run [OF assms(1)] match_run [OF assms(1)]
      previous_run about_to_read_passed [OF assms(1)] del: match_any.simps)

lemma primary_nil:
  assumes "about_to_read (t # u # us) s" "tk_type t = TOKEN_NIL"
  shows "primary_with env C s = Some (Inr (literal NIL_TYPE t), passed s)"
  using assms(2) by (simp add: primary_with_def on_match_def pact_simps match_any_run [OF assms(1)] match_run [OF assms(1)]
      previous_run about_to_read_passed [OF assms(1)] del: match_any.simps)

lemma primary_bool:
  assumes "about_to_read (t # u # us) s" "tk_type t = TOKEN_TRUE \<or> tk_type t = TOKEN_FALSE"
  shows "primary_with env C s = Some (Inr (literal BOOL_TYPE t), passed s)"
  using assms(2) by (auto simp: primary_with_def on_match_def pact_simps match_any_run [OF assms(1)] match_run [OF assms(1)]
      previous_run about_to_read_passed [OF assms(1)] simp del: match_any.simps)

lemma primary_name:
  assumes "about_to_read (t # u # us) s" "tk_type t = TOKEN_IDENTIFIER"
  shows "primary_with env C s = name_expr env C t (passed s)"
  using assms(2) by (simp add: primary_with_def on_match_def pact_simps match_any_run [OF assms(1)] match_run [OF assms(1)]
      previous_run about_to_read_passed [OF assms(1)] del: match_any.simps)

lemma primary_group:
  assumes "about_to_read (t # u # us) s" "tk_type t = TOKEN_LEFT_PAREN"
  shows "primary_with env C s = group_expr env C t (passed s)"
proof -
  have "percent_before env ts s = Some (Inr False, s)" for ts
    using assms(2) by (simp add: percent_before_def pand_def pact_simps check_run [OF assms(1)])
  then show ?thesis
    using assms(2) by (simp add: primary_with_def on_match_def pact_simps match_any_run [OF assms(1)] match_run [OF assms(1)]
        previous_run about_to_read_passed [OF assms(1)] del: match_any.simps)
qed

lemma primary_leaf:
  assumes "\<And>s u us env C. about_to_read (t # u # us) s \<Longrightarrow> primary_with env C s = Some (Inr e, passed s)"
  shows "parses env 8 e [t]"
proof (rule primary_level_run)
  fix n s rest
  assume a: "about_to_read ([t] @ rest) s" "2 \<le> length rest"
  obtain u v us where "rest = u # v # us" using two_tokens [OF a(2)] by blast
  then show "\<exists>s1. primary_with env (parse_with env n) s = Some (Inr e, s1) \<and> about_to_read rest s1"
    using assms [of u "v # us" s] about_to_read_passed(1) [of t u "v # us" s] a(1) by simp
qed simp

lemma primary_name_leaf:
  assumes "tk_type t = TOKEN_IDENTIFIER"
  shows "parses env 8 (mk (if isCapital (lexeme t) then CONSTANT_EXPR else VARIABLE_EXPR) t []) [t]"
proof (rule primary_level_run)
  fix n s rest
  assume a: "3 * length [t] \<le> Suc n" "about_to_read ([t] @ rest) s" "2 \<le> length rest" "may_follow 8 (tk_type (hd rest))"
  obtain u v us where r: "rest = u # v # us" using two_tokens [OF a(3)] by blast
  have p: "about_to_read rest (passed s)" using about_to_read_passed(1) [of t u "v # us" s] a(2) r by simp
  show "\<exists>s1. primary_with env (parse_with env n) s =
      Some (Inr (mk (if isCapital (lexeme t) then CONSTANT_EXPR else VARIABLE_EXPR) t []), s1) \<and> about_to_read rest s1"
    using primary_name [of t u "v # us" s env "parse_with env n"] no_suffix(2) [OF p a(3,4), of n] a(1,2) assms p r
    by (simp add: name_expr_def constant_lookups_def)
qed simp

lemma primary_group_run:
  assumes "parses env 0 e ts" "ts = u # us" "starts_expr (tk_type u)" "tk_type l = TOKEN_LEFT_PAREN"
    "tk_type r = TOKEN_RIGHT_PAREN"
  shows "parses env 8 (mk GROUPING_EXPR l [e]) (l # ts @ [r])"
proof (rule primary_level_run)
  fix n s rest
  assume a: "3 * length (l # ts @ [r]) \<le> Suc n" "about_to_read ((l # ts @ [r]) @ rest) s" "2 \<le> length rest"
  obtain v w ws where rest: "rest = v # w # ws" using two_tokens [OF a(3)] by blast
  have l: "about_to_read (l # u # us @ r # rest) s" using a(2) assms(2) by simp
  have "ends_expr (tk_type (hd (r # rest)))" using assms(5) by (simp add: ends_expr_def)
  then obtain s1 where s1: "pc_expression (parse_with env n) (passed s) = Some (Inr e, s1)" "about_to_read (r # rest) s1"
    using expression_run [OF assms(1-3), of n "r # rest" "passed s"] about_to_read_passed(1) [OF l] a(1,3) assms(2)
    by auto
  have r: "about_to_read (r # v # w # ws) s1" using s1(2) rest by simp
  have "primary_with env (parse_with env n) s = Some (Inr (mk GROUPING_EXPR l [e]), passed s1)"
    by (simp add: primary_group [OF l assms(4)] group_expr_def pact_simps s1(1) consume_run [OF r assms(5)])
  then show "\<exists>s1. primary_with env (parse_with env n) s = Some (Inr (mk GROUPING_EXPR l [e]), s1) \<and> about_to_read rest s1"
    using about_to_read_passed(1) [OF r] rest by blast
qed simp

lemma primary_to_unary:
  assumes "parses env 8 t ts" "ts = u # us" "tk_type u \<noteq> TOKEN_BANG" "tk_type u \<noteq> TOKEN_MINUS"
  shows "parses env 7 t ts"
  unfolding parses_def
proof (intro allI impI)
  fix n s rest
  assume a: "3 * length ts \<le> n" "about_to_read (ts @ rest) s" "2 \<le> length rest" "may_follow 7 (tk_type (hd rest))"
  obtain v w ws where rest: "rest = v # w # ws" using two_tokens [OF a(3)] by blast
  obtain u' us' where u': "ts @ rest = u # u' # us'" using assms(2) rest by (cases us) auto
  have "0 < n" using a(1) assms(2) by simp
  then have "parse_level env n 7 s = parse_level env n 8 s"
    using assms(3,4) match_any_run [OF a(2) [unfolded u'], of env "[TOKEN_BANG, TOKEN_MINUS]"]
    by (simp add: parse_level_def Let_def unfold_fuel unary_with_def pact_simps del: match_any.simps)
  moreover have "may_follow 8 (tk_type (hd rest))" using a(4) by (auto simp: may_follow_def)
  ultimately show "\<exists>s1. parse_level env n 7 s = Some (Inr t, s1) \<and> about_to_read rest s1"
    using assms(1) a(1-3) unfolding parses_def by metis
qed

lemma renders_parses: "renders l t ts \<Longrightarrow> parses env l t ts \<and> (l \<le> 6 \<longrightarrow> enters_loop env l t ts)"
proof (induction rule: renders.induct)
  case (group e ts l r)
  then show ?case using primary_group_run renders_tokens by fastforce
next
  case (unary e ts t)
  then show ?case using unary_level_run renders_tokens by fastforce
next
  case (binary l x xs y ys t)
  have l: "l \<le> 6" using binary.hyps(3) by (auto simp: op_level_def split: if_splits)
  obtain u us where "ys = u # us" "starts_expr (tk_type u)" using renders_tokens [OF binary.hyps(2)] by blast
  then have "enters_loop env l (mk (op_kind l) t [x, y]) (xs @ t # ys)"
    using loop_goes_on binary.IH binary.hyps(3) l by blast
  then show ?case using parses_by_loop l by blast
next
  case (looser l e ts)
  obtain u us where ts: "ts = u # us" using renders_tokens [OF looser.hyps] by blast
  consider "l \<le> 6" | "l = 7" using renders_level [OF looser.hyps] by linarith
  then show ?case
  proof cases
    case 1
    then show ?thesis using loop_from_operand looser.IH parses_by_loop ts by blast
  next
    case 2
    then show ?thesis using primary_to_unary looser.IH renders_primary [OF looser.hyps] ts by simp
  qed
qed (simp_all add: primary_leaf primary_number primary_nil primary_bool primary_name_leaf)

subsection \<open>The properties\<close>


definition tok_like :: "token_type \<Rightarrow> token" where "tok_like t = emptyTok\<lparr>tk_type := t\<rparr>"

definition example_tokens :: "token list" where
  "example_tokens = map tok_like [TOKEN_NUMBER, TOKEN_MINUS, TOKEN_NIL, TOKEN_STAR, TOKEN_BANG, TOKEN_TRUE, TOKEN_MINUS,
     TOKEN_FALSE]"

definition example_rest :: "token list" where
  "example_rest = map tok_like [TOKEN_SEMICOLON, TOKEN_EOF]"

definition example_tree :: ast where
  "example_tree = mk BINARY_EXPR (tok_like TOKEN_MINUS) [
     mk BINARY_EXPR (tok_like TOKEN_MINUS) [literal NUMBER_TYPE (tok_like TOKEN_NUMBER),
       mk BINARY_EXPR (tok_like TOKEN_STAR) [literal NIL_TYPE (tok_like TOKEN_NIL),
         mk UNARY_EXPR (tok_like TOKEN_BANG) [literal BOOL_TYPE (tok_like TOKEN_TRUE)]]],
     literal BOOL_TYPE (tok_like TOKEN_FALSE)]"

definition example_parse_env :: parse_env where
  "example_parse_env = \<lparr>pe_fetch = (\<lambda>x. x), pe_garbage = [], pe_more = (\<lambda>s. s), pe_junk = emptyTok\<rparr>"

definition reading :: "token list \<Rightarrow> pstate" where
  "reading ts = \<lparr>ps_parser = initParser\<lparr>pa_current := hd ts, pa_peekBuf := tl ts\<rparr>, ps_scanner = initScanner [],
     ps_scanMore = False, ps_moreSet = False\<rparr>"

lemma renders_at: "renders k t ts \<Longrightarrow> l \<le> k \<Longrightarrow> renders l t ts"
proof (induction "k - l" arbitrary: l)
  case (Suc d)
  then have "renders (Suc l) t ts" by simp
  then show ?case by (rule renders.looser)
qed simp

lemma renders_binary:
  assumes "renders a x xs" "renders b y ys" "op_level (tk_type t) = Some l" "l \<le> a" "Suc l \<le> b"
  shows "renders l (mk (op_kind l) t [x, y]) (xs @ t # ys)"
  using assms by (auto intro: renders.binary renders_at)

lemma example_renders: "renders 0 example_tree example_tokens"
proof -
  note at = tok_like_def op_level_def
  have n: "renders 8 (literal NUMBER_TYPE (tok_like TOKEN_NUMBER)) [tok_like TOKEN_NUMBER]"
    and f: "renders 8 (literal BOOL_TYPE (tok_like TOKEN_FALSE)) [tok_like TOKEN_FALSE]"
    and o: "renders 8 (literal NIL_TYPE (tok_like TOKEN_NIL)) [tok_like TOKEN_NIL]"
    and "renders 8 (literal BOOL_TYPE (tok_like TOKEN_TRUE)) [tok_like TOKEN_TRUE]"
    by (auto intro: renders.intros simp: tok_like_def)
  then have "renders 7 (literal BOOL_TYPE (tok_like TOKEN_TRUE)) [tok_like TOKEN_TRUE]" by (auto intro: renders_at)
  from renders.unary [OF this, of "tok_like TOKEN_BANG"]
  have u: "renders 7 (mk UNARY_EXPR (tok_like TOKEN_BANG) [literal BOOL_TYPE (tok_like TOKEN_TRUE)])
      [tok_like TOKEN_BANG, tok_like TOKEN_TRUE]" by (simp add: tok_like_def)
  note m = renders_binary [OF o u, of "tok_like TOKEN_STAR" 6]
  note x = renders_binary [OF n m, of "tok_like TOKEN_MINUS" 4]
  note y = renders_binary [OF x f, of "tok_like TOKEN_MINUS" 4]
  from y have "renders 4 example_tree example_tokens"
    by (simp add: at op_kind_def example_tree_def example_tokens_def)
  then show ?thesis by (rule renders_at) simp
qed



definition one_number :: parse_calls where
  "one_number = \<lparr>pc_fuel = 1, pc_expression = pret (literal NUMBER_TYPE emptyTok), pc_assignment = pjump PFuel,
     pc_unary = pjump PFuel, pc_statement = pjump PFuel, pc_declaration = pjump PFuel\<rparr>"

definition unclosed_string :: token where
  "unclosed_string = emptyTok\<lparr>tk_type := TOKEN_STRING_DQUOTE, tk_lexeme := Some (bytes_of ''${1}${'')\<rparr>"


end
