(* ===== verification/Clox_Parser_Errors.thy ===== *)
theory Clox_Parser_Errors
  imports Clox_Parser_Props
begin

text \<open>Errors of the parser. A parser that has met no error stays so in every function that returns, and
  the first error ends the parse, with one message.\<close>

subsection \<open>Clean parsers\<close>

definition clean :: "pstate \<Rightarrow> bool" where
  "clean s \<longleftrightarrow> \<not> pa_panicMode (ps_parser s) \<and> \<not> pa_hadError (ps_parser s) \<and> pa_errMessages (ps_parser s) = [] \<and>
     \<not> ps_moreSet s"

definition failed_once :: "pstate \<Rightarrow> bool" where
  "failed_once s \<longleftrightarrow> pa_panicMode (ps_parser s) \<and> pa_hadError (ps_parser s) \<and> length (pa_errMessages (ps_parser s)) = 1"

definition orderly :: "'a pact \<Rightarrow> bool" where
  "orderly m \<longleftrightarrow> (\<forall>s. clean s \<longrightarrow> (case m s of
     None \<Rightarrow> True
   | Some (Inr a, s1) \<Rightarrow> clean s1
   | Some (Inl PError, s1) \<Rightarrow> failed_once s1
   | Some (Inl PFuel, s1) \<Rightarrow> True))"

named_theorems orderly_rules

lemma orderlyI:
  assumes "\<And>s a s1. clean s \<Longrightarrow> m s = Some (Inr a, s1) \<Longrightarrow> clean s1"
    "\<And>s s1. clean s \<Longrightarrow> m s = Some (Inl PError, s1) \<Longrightarrow> failed_once s1"
  shows "orderly m"
  using assms unfolding orderly_def by (auto split: option.split sum.split parse_jump.split)

lemma orderlyD:
  assumes "orderly m" "clean s"
  shows "m s = Some (Inr a, s1) \<Longrightarrow> clean s1" "m s = Some (Inl PError, s1) \<Longrightarrow> failed_once s1"
  using assms unfolding orderly_def by (auto dest!: spec [of _ s])

lemma orderly_pbnd [orderly_rules]:
  assumes "orderly m" "\<And>a. orderly (f a)"
  shows "orderly (pbnd m f)"
proof (rule orderlyI)
  show "clean s1" if c: "clean s" and r: "pbnd m f s = Some (Inr a, s1)" for s a s1
  proof -
    obtain b s2 where "m s = Some (Inr b, s2)" "f b s2 = Some (Inr a, s1)"
      using r by (auto simp: pact_simps split: option.splits sum.splits)
    then show ?thesis using orderlyD(1) [OF assms(1) c] orderlyD(1) [OF assms(2)] by blast
  qed
  show "failed_once s1" if c: "clean s" and r: "pbnd m f s = Some (Inl PError, s1)" for s s1
  proof (cases "m s = Some (Inl PError, s1)")
    case True
    then show ?thesis by (rule orderlyD(2) [OF assms(1) c])
  next
    case False
    then obtain b s2 where "m s = Some (Inr b, s2)" "f b s2 = Some (Inl PError, s1)"
      using r by (auto simp: pact_simps split: option.splits sum.splits)
    then show ?thesis using orderlyD(1) [OF assms(1) c] orderlyD(2) [OF assms(2)] by blast
  qed
qed

lemma orderly_pthn [orderly_rules]: "orderly m \<Longrightarrow> orderly n \<Longrightarrow> orderly (pthn m n)"
  by (simp add: pthn_def orderly_pbnd)

lemma orderly_basic [orderly_rules]:
  "orderly (pret a)" "orderly pskip" "orderly (pget g)" "orderly fails" "orderly (pjump PFuel)" "orderly (again b)"
  "orderly (stop c)"
  by (auto simp: orderly_def pact_simps fails_def again_def stop_def)

lemma orderly_pset [orderly_rules]:
  assumes "\<And>p. pa_panicMode (f p) = pa_panicMode p" "\<And>p. pa_hadError (f p) = pa_hadError p"
    "\<And>p. pa_errMessages (f p) = pa_errMessages p"
  shows "orderly (pset f)"
  using assms by (auto simp: orderly_def pact_simps clean_def)

lemma orderly_if [orderly_rules]: "orderly m \<Longrightarrow> orderly n \<Longrightarrow> orderly (if b then m else n)"
  by simp

lemma orderly_pwhen [orderly_rules]: "orderly m \<Longrightarrow> orderly (pwhen b m)"
  by (simp add: pwhen_def orderly_basic)

lemma orderly_list [orderly_rules]:
  "orderly m \<Longrightarrow> (\<And>a as. orderly (n a as)) \<Longrightarrow> orderly (case xs of [] \<Rightarrow> m | a # as \<Rightarrow> n a as)"
  by (cases xs) auto

lemma orderly_sum [orderly_rules]:
  "(\<And>a. orderly (m a)) \<Longrightarrow> (\<And>b. orderly (n b)) \<Longrightarrow> orderly (case x of Inl a \<Rightarrow> m a | Inr b \<Rightarrow> n b)"
  by (cases x) auto

lemma orderly_option [orderly_rules]:
  "orderly m \<Longrightarrow> (\<And>a. orderly (n a)) \<Longrightarrow> orderly (case x of None \<Rightarrow> m | Some a \<Rightarrow> n a)"
  by (cases x) auto

lemma orderly_prod [orderly_rules]: "(\<And>a b. orderly (m a b)) \<Longrightarrow> orderly (case p of (a, b) \<Rightarrow> m a b)"
  by (cases p) auto

lemma orderly_conditions [orderly_rules]:
  "orderly m \<Longrightarrow> orderly n \<Longrightarrow> orderly (por m n)" "orderly m \<Longrightarrow> orderly n \<Longrightarrow> orderly (pand m n)"
  "orderly m \<Longrightarrow> orderly (pnot m)"
  unfolding por_def pand_def pnot_def by (intro orderly_rules; assumption)+

lemma orderly_ploop [orderly_rules]: "(\<And>a. orderly (body a)) \<Longrightarrow> orderly (ploop n body a)"
  by (induction n arbitrary: a) (auto intro!: orderly_rules)

lemma orderly_errorAt [orderly_rules]: "orderly (errorAt tok message)"
  by (rule orderlyI) (auto simp: errorAt_def pact_simps clean_def failed_once_def split: if_splits)

lemma orderly_errors [orderly_rules]: "orderly previous" "orderly (errorAtPrevious m)" "orderly (errorAtCurrent m)"
  unfolding previous_def errorAtPrevious_def errorAtCurrent_def by (intro orderly_rules)+

subsection \<open>Tokens\<close>

lemma orderly_scan [orderly_rules]: "orderly (scan_tok env)"
  by (rule orderlyI) (auto simp: scan_tok_def clean_def split: option.splits sum.splits)

lemma orderly_advance_once [orderly_rules]: "orderly (advance_once env)"
  unfolding advance_once_def nextToken_def by (intro orderly_rules) simp_all

lemma advance_loop_clean:
  assumes "advance_loop env s = Some (r, s1)" "clean s"
  shows "(r = Inl PError \<longrightarrow> failed_once s1) \<and> (r = Inr () \<longrightarrow> clean s1)"
proof -
  have "clean s \<longrightarrow> (fst rs = Inl PError \<longrightarrow> failed_once (snd rs)) \<and> (fst rs = Inr () \<longrightarrow> clean (snd rs))"
    if "advance_loop env s = Some rs" for rs
  proof (rule advance_loop.raw_induct [where P = "\<lambda>env s rs. clean s \<longrightarrow>
      (fst rs = Inl PError \<longrightarrow> failed_once (snd rs)) \<and> (fst rs = Inr () \<longrightarrow> clean (snd rs))", OF _ that])
    fix go env s rs
    assume IH: "\<And>env s rs. go env s = Some rs \<Longrightarrow> clean s \<longrightarrow>
        (fst rs = Inl PError \<longrightarrow> failed_once (snd rs)) \<and> (fst rs = Inr () \<longrightarrow> clean (snd rs))"
      and body: "(case advance_once env s of None \<Rightarrow> None | Some (Inl j, s1) \<Rightarrow> Some (Inl j, s1)
        | Some (Inr fin, s1) \<Rightarrow> if fin then Some (Inr (), s1) else go env s1) = Some rs"
    note once = orderlyD [OF orderly_advance_once [of env], of s]
    show "clean s \<longrightarrow> (fst rs = Inl PError \<longrightarrow> failed_once (snd rs)) \<and> (fst rs = Inr () \<longrightarrow> clean (snd rs))"
      using body once by (auto split: option.splits sum.splits if_splits dest: IH)
  qed
  from this [OF assms(1)] assms(2) show ?thesis by simp
qed

lemma orderly_advance [orderly_rules]: "orderly (p_advance env)"
proof -
  have "orderly (advance_loop env)" by (rule orderlyI) (use advance_loop_clean in \<open>fastforce+\<close>)
  then show ?thesis unfolding p_advance_def by (intro orderly_rules) simp_all
qed

lemma orderly_check [orderly_rules]: "orderly (check t)" "orderly (consume env t m)"
  unfolding check_def consume_def by (intro orderly_rules)+

lemma orderly_fill [orderly_rules]: "orderly (fill_peek env n)"
  by (induction n) (auto intro!: orderly_rules)

lemma orderly_peek [orderly_rules]: "orderly (peekTokN env n)" "orderly (peek_is env n t)"
  unfolding peekTokN_def peek_is_def by (intro orderly_rules)+

lemma orderly_match [orderly_rules]: "orderly (p_match env t)" "orderly (p_isAtEnd env)"
proof -
  have m: "p_match env t s = pbnd (pget pa_aborted) (\<lambda>aborted. if aborted then pret False
      else pbnd (check t) (\<lambda>b. if b then pthn (p_advance env) (pret True) else pret False)) s" if "clean s" for s
    using that by (simp add: p_match_def at_eof_with_more_def pact_simps clean_def)
  have "orderly (pbnd (pget pa_aborted) (\<lambda>aborted. if aborted then pret False
      else pbnd (check t) (\<lambda>b. if b then pthn (p_advance env) (pret True) else pret False)))"
    by (intro orderly_rules)
  then show "orderly (p_match env t)" unfolding orderly_def by (simp add: m)
  show "orderly (p_isAtEnd env)"
    by (rule orderlyI) (auto simp: p_isAtEnd_def pact_simps clean_def split: if_splits)
qed

lemma orderly_any [orderly_rules]: "orderly (match_any env ts)" "orderly (check_any ts)" "orderly (peek_any env ts)"
  by (induction ts) (auto intro!: orderly_rules)

subsection \<open>The functions of the parser\<close>

definition orderly_calls :: "parse_calls \<Rightarrow> bool" where
  "orderly_calls C \<longleftrightarrow> orderly (pc_expression C) \<and> orderly (pc_assignment C) \<and> orderly (pc_unary C) \<and>
     orderly (pc_statement C) \<and> orderly (pc_declaration C)"

lemma orderly_recursive [orderly_rules]:
  "orderly_calls C \<Longrightarrow> orderly (pc_expression C)" "orderly_calls C \<Longrightarrow> orderly (pc_assignment C)"
  "orderly_calls C \<Longrightarrow> orderly (pc_unary C)" "orderly_calls C \<Longrightarrow> orderly (pc_statement C)"
  "orderly_calls C \<Longrightarrow> orderly (pc_declaration C)"
  by (simp_all add: orderly_calls_def)

lemma orderly_levels [orderly_rules]:
  assumes "orderly_calls C"
  shows "orderly (logicOr env C)"
  unfolding logicOr_def logicAnd_def equality_def comparison_def addition_def bitManip_def multiplication_def
    left_assoc_def plain_op_def
  by (intro orderly_rules assms)

lemma orderly_assign [orderly_rules]: "orderly (assign_to lval tok rval)"
  unfolding assign_to_def by (cases lval) (auto intro!: orderly_rules split: list.split)

lemma orderly_assignment [orderly_rules]: "orderly_calls C \<Longrightarrow> orderly (assignment_with env C)"
  unfolding assignment_with_def assign_op_def checkAssignOp_def by (intro orderly_rules; assumption)

lemma orderly_expression [orderly_rules]: "orderly_calls C \<Longrightarrow> orderly (expression_with env C)"
  unfolding expression_with_def by (intro orderly_rules; assumption)

lemma orderly_blocks [orderly_rules]:
  "orderly_calls C \<Longrightarrow> orderly m \<Longrightarrow> orderly (stmts_until_brace env C m)"
  "orderly_calls C \<Longrightarrow> orderly (block_list env C message)"
  unfolding stmts_until_brace_def block_list_def by (intro orderly_rules; assumption)+

lemma orderly_param [orderly_rules]: "orderly_calls C \<Longrightarrow> orderly (one_param env C st)"
  unfolding one_param_def named_param_def after_param_def no_more_kwargs_def pseqs.simps
  by (intro orderly_rules; assumption)

lemma orderly_fun [orderly_rules]: "orderly_calls C \<Longrightarrow> orderly (funDeclaration env C fnType)"
  unfolding funDeclaration_def parameters_def blockStmts_def by (intro orderly_rules; assumption)

lemma orderly_suffix [orderly_rules]: "orderly_calls C \<Longrightarrow> orderly (call_suffix env C tok e)"
  unfolding call_suffix_def call_args_def call_arg_def Let_def by (intro orderly_rules; (assumption | simp))

lemma orderly_unary [orderly_rules]: "orderly_calls C \<Longrightarrow> orderly m \<Longrightarrow> orderly (unary_with env C m)"
  unfolding unary_with_def call_with_def by (intro orderly_rules; (assumption | simp))

text \<open>The parser of an inner expression is a new one; its error becomes one of the parser around it.\<close>

lemma orderly_inner [orderly_rules]:
  assumes "orderly_calls C"
  shows "orderly (parse_inner env C contents)"
proof (rule orderlyI)
  let ?in = "\<lambda>s. s\<lparr>ps_scanner := initScanner contents, ps_scanMore := False, ps_parser := initParser\<rparr>"
  let ?m = "pthn (p_advance env) (pc_expression C)"
  have m: "orderly ?m" using assms by (intro orderly_rules)
  have c: "clean (?in s)" if "clean s" for s using that by (simp add: clean_def initParser_def)
  have more: "\<not> ps_moreSet s1" if "clean s" "?m (?in s) = Some (Inr a, s1)" for s a s1
    using orderlyD(1) [OF m c [OF that(1)] that(2)] by (simp add: clean_def)
  show "clean s1" if "clean s" "parse_inner env C contents s = Some (Inr a, s1)" for s a s1
    using that more [OF that(1)] unfolding parse_inner_def
    by (auto simp: clean_def pact_simps fails_def errorAtPrevious_def previous_def errorAt_def
        split: option.splits sum.splits parse_jump.splits if_splits)
  show "failed_once s1" if "clean s" "parse_inner env C contents s = Some (Inl PError, s1)" for s s1
    using that unfolding parse_inner_def
    by (auto simp: clean_def failed_once_def pact_simps fails_def errorAtPrevious_def previous_def errorAt_def
        split: option.splits sum.splits parse_jump.splits if_splits)
qed

lemma orderly_inner_all [orderly_rules]: "orderly_calls C \<Longrightarrow> orderly (interpolated_all env C tok parts)"
  by (induction parts) (auto simp: interpolated_def Let_def intro!: orderly_rules)

lemma orderly_string [orderly_rules]:
  assumes "orderly_calls C"
  shows "orderly (string_expr env C tok)"
proof -
  obtain parts rest unclosed where i: "interpolations (c_string (lexeme tok)) = (parts, rest, unclosed)"
    by (metis prod_cases3)
  have r: "orderly (restore_scanner old)" for old
    by (rule orderlyI) (auto simp: restore_scanner_def clean_def)
  have "orderly (if parts = [] then pret (literal STRING_TYPE tok)
      else pbnd (interpolated_all env C tok parts) (\<lambda>ns. if unclosed then fails
        else pthn (restore_scanner old) (pret (stringTogetherNodesBinop plus (ns @ [text_literal tok rest])))))" for old plus
    using assms by (intro orderly_rules r)
  then show ?thesis unfolding orderly_def string_expr_def i by (auto simp: Let_def)
qed

lemma orderly_on_match [orderly_rules]:
  "orderly t \<Longrightarrow> (\<And>x. orderly (f x)) \<Longrightarrow> orderly r \<Longrightarrow> orderly (on_match t f r)"
  "orderly t \<Longrightarrow> orderly m \<Longrightarrow> orderly n \<Longrightarrow> orderly (on_test t m n)"
  unfolding on_match_def on_test_def by (intro orderly_rules; simp)+

lemma orderly_primary [orderly_rules]: "orderly_calls C \<Longrightarrow> orderly (primary_with env C)"
  unfolding primary_with_def name_expr_def array_expr_def map_expr_def regex_expr_def group_expr_def super_expr_def
    this_expr_def constant_lookups_def constant_lookup_def percent_before_def pseqs.simps
  by (intro orderly_rules; assumption)

lemma orderly_braced [orderly_rules]:
  "orderly_calls C \<Longrightarrow> orderly (braced env C m)" "orderly_calls C \<Longrightarrow> orderly (blockStatements env C)"
  "orderly_calls C \<Longrightarrow> orderly (expressionStatement env C b)"
  unfolding braced_def blockStatements_def expressionStatement_def by (intro orderly_rules; assumption)+

lemma orderly_statements [orderly_rules]:
  assumes "orderly_calls C"
  shows "orderly (printStatement env C t)" "orderly (foreachStatement env C t)" "orderly (ifStatement env C t)"
    "orderly (whileStatement env C t)" "orderly (forStatement env C t)" "orderly (throwStatement env C t)"
    "orderly (jumpStatement env k m t)" "orderly (returnStatement env C t)"
  unfolding printStatement_def foreachStatement_def foreach_vars_def ifStatement_def whileStatement_def forStatement_def
    for_init_def for_test_def for_step_def throwStatement_def jumpStatement_def returnStatement_def Let_def
  by (intro orderly_rules assms)+

lemma orderly_try [orderly_rules]: "orderly_calls C \<Longrightarrow> orderly (tryStatement env C t)"
  unfolding tryStatement_def catch_clauses_def catch_clause_def catch_var_def try_else_def try_ensure_def
  by (intro orderly_rules; assumption)

lemma orderly_bodies [orderly_rules]:
  assumes "orderly_calls C"
  shows "orderly (classOrModuleBody env C)" "orderly (inStatement env C t)"
  unfolding inStatement_def classOrModuleBody_def class_member_def pseqs.simps by (intro orderly_rules assms)+

lemma orderly_statement [orderly_rules]: "orderly_calls C \<Longrightarrow> orderly (statement_with env C)"
  unfolding statement_with_def by (intro orderly_rules; assumption)

lemma orderly_declaration [orderly_rules]: "orderly_calls C \<Longrightarrow> orderly (declaration_with env C)"
  unfolding declaration_with_def varDeclaration_def classDeclaration_def moduleDeclaration_def constant_name_def
    superclass_name_def body_in_braces_def
  by (intro orderly_rules; assumption)

lemma orderly_parse_with: "orderly_calls (parse_with env n)"
proof (induction n)
  case 0
  then show ?case by (simp add: orderly_calls_def orderly_basic)
next
  case (Suc n)
  show ?case unfolding orderly_calls_def by (auto simp: Let_def intro: orderly_rules Suc)
qed

lemma orderly_program: "orderly (parse_program env n)"
  unfolding parse_program_def Let_def by (intro orderly_rules orderly_parse_with)

subsection \<open>The property\<close>


definition scanning :: "string \<Rightarrow> pstate" where
  "scanning src = \<lparr>ps_parser = initParser, ps_scanner = initScanner (bytes_of src), ps_scanMore = False,
     ps_moreSet = False\<rparr>"

lemma parse_error_token: "case parse_program example_parse_env 1 (current_is initParser (scanning ''@'')) of
    Some (Inl PError, s1) \<Rightarrow> pa_panicMode (ps_parser s1) | _ \<Rightarrow> False"
  by code_simp


end
