(* ===== verification/Clox_Regex.thy ===== *)
theory Clox_Regex
  imports Clox_Scanner
begin

text \<open>The regular expressions (regex_lib.c, regex_lib.h): the parser that makes a tree of linked nodes
  of a pattern, and the matcher that walks over the nodes. Nodes live in a store and a pointer to a
  node is an index or None, so the links are changed the way the code changes them, sharing included.
  Pointers into the pattern and into the text are offsets. The debugging output is left out, and
  lengths and counts, which are ints in the code, do not overflow for texts below 2 GB.\<close>

subsection \<open>Nodes\<close>

datatype (plugins only: code) rnode_type = NODE_ATOM | NODE_GROUP | NODE_OR | NODE_REPEAT | NODE_REPEAT_NONGREEDY
  | NODE_REPEAT_Z | NODE_REPEAT_Z_NONGREEDY | NODE_MAYBE | NODE_REPEAT_N | NODE_CCLASS | NODE_ECLASS
  | NODE_ANCHOR | NODE_DOT | NODE_PROGRAM

datatype (plugins only: code) eclass_type = ECLASS_NONE | ECLASS_DIGIT | ECLASS_NON_DIGIT | ECLASS_SPACE
  | ECLASS_NON_SPACE | ECLASS_WORD | ECLASS_NON_WORD | ECLASS_WORD_BOUNDARY | ECLASS_NON_WORD_BOUNDARY

datatype (plugins only: code) anchor_type = ANCHOR_NONE | ANCHOR_BOS | ANCHOR_EOS | ANCHOR_BOL | ANCHOR_EOL

type_synonym rptr = "nat option"

record rnode =
  rn_tok :: "nat option"
  rn_toklen :: int
  rn_nodelen :: int
  rn_repeat_min :: int
  rn_repeat_max :: int
  rn_eclass_type :: eclass_type
  rn_type :: rnode_type
  rn_anchor_type :: anchor_type
  rn_capture_beg :: "nat option"
  rn_capture_end :: "nat option"
  rn_next :: rptr
  rn_prev :: rptr
  rn_parent :: rptr
  rn_children :: rptr

record regex_options =
  ro_case_insensitive :: bool
  ro_multiline :: bool

record regex =
  re_node :: rptr
  re_src :: "bytes option"
  re_ownsSrc :: bool
  re_groups :: "rptr list"
  re_opts :: regex_options

datatype (plugins only: code) compile_result = REGEX_UNITIALIZED_ERR | REGEX_PARSE_ERR | REGEX_COMPILE_ERR
  | REGEX_COMPILE_SUCCESS

record matchdata =
  md_matched :: bool
  md_start :: int
  md_len :: int

text \<open>The store of nodes, the regex that is compiled, the text that is matched, and the static
  variable begOrNode.\<close>

record rstate =
  rs_nodes :: "rnode list"
  rs_regex :: regex
  rs_text :: bytes
  rs_begOrNode :: rptr

subsection \<open>Actions\<close>

text \<open>RAbort is a failed assertion, RNull a null pointer that is followed, RBounds a read outside of
  a string, and RFuel a loop or recursion that went further than it was given fuel.\<close>

datatype regex_stop = RAbort | RNull | RBounds | RFuel

type_synonym 'a ract = "rstate \<Rightarrow> regex_stop + 'a \<times> rstate"

definition rret :: "'a \<Rightarrow> 'a ract" where "rret a s = Inr (a, s)"

definition rstop :: "regex_stop \<Rightarrow> 'a ract" where "rstop e s = Inl e"

definition rbnd :: "'a ract \<Rightarrow> ('a \<Rightarrow> 'b ract) \<Rightarrow> 'b ract" where
  "rbnd m f s = (case m s of Inl e \<Rightarrow> Inl e | Inr (a, s1) \<Rightarrow> f a s1)"

definition rthn :: "unit ract \<Rightarrow> 'b ract \<Rightarrow> 'b ract" where "rthn m n = rbnd m (\<lambda>_. n)"

definition rskip :: "unit ract" where "rskip = rret ()"

definition rwhen :: "bool \<Rightarrow> unit ract \<Rightarrow> unit ract" where "rwhen b m = (if b then m else rskip)"

definition rassert :: "bool \<Rightarrow> unit ract" where "rassert b = (if b then rskip else rstop RAbort)"

definition rgets :: "(rstate \<Rightarrow> 'a) \<Rightarrow> 'a ract" where "rgets f s = Inr (f s, s)"

definition rmodify :: "(rstate \<Rightarrow> rstate) \<Rightarrow> unit ract" where "rmodify f s = Inr ((), f s)"

text \<open>A loop: the body gives the next values of the variables or the result.\<close>

fun rloop :: "nat \<Rightarrow> ('a \<Rightarrow> ('a + 'b) ract) \<Rightarrow> 'a \<Rightarrow> 'b ract" where
  "rloop 0 body a = rstop RFuel"
| "rloop (Suc n) body a = rbnd (body a) (\<lambda>r. case r of Inl a1 \<Rightarrow> rloop n body a1 | Inr b \<Rightarrow> rret b)"

definition node_at :: "rptr \<Rightarrow> rnode ract" where
  "node_at p s = (case p of None \<Rightarrow> Inl RNull
     | Some i \<Rightarrow> if i < length (rs_nodes s) then Inr (rs_nodes s ! i, s) else Inl RNull)"

definition rfield :: "(rnode \<Rightarrow> 'a) \<Rightarrow> rptr \<Rightarrow> 'a ract" where
  "rfield f p = rbnd (node_at p) (\<lambda>nd. rret (f nd))"

definition set_node :: "rptr \<Rightarrow> (rnode \<Rightarrow> rnode) \<Rightarrow> unit ract" where
  "set_node p f = (case p of None \<Rightarrow> rstop RNull
     | Some i \<Rightarrow> rbnd (node_at p) (\<lambda>nd. rmodify (\<lambda>s. s\<lparr>rs_nodes := (rs_nodes s)[i := f nd]\<rparr>)))"

definition alloc_node :: "rnode \<Rightarrow> rptr ract" where
  "alloc_node nd s = Inr (Some (length (rs_nodes s)), s\<lparr>rs_nodes := rs_nodes s @ [nd]\<rparr>)"

definition char_of :: "bytes \<Rightarrow> nat \<Rightarrow> u8 ract" where
  "char_of t i = (if i < length t then rret (t ! i) else if i = length t then rret 0 else rstop RBounds)"

definition text_at :: "nat \<Rightarrow> u8 ract" where "text_at i = rbnd (rgets rs_text) (\<lambda>t. char_of t i)"

definition pat_at :: "nat \<Rightarrow> u8 ract" where
  "pat_at i = rbnd (rgets (\<lambda>s. re_src (rs_regex s))) (\<lambda>t. case t of None \<Rightarrow> rstop RNull | Some p \<Rightarrow> char_of p i)"

subsection \<open>The tree\<close>

definition DEFAULT_REGEX_OPTIONS :: regex_options where
  "DEFAULT_REGEX_OPTIONS = \<lparr>ro_case_insensitive = False, ro_multiline = False\<rparr>"

text \<open>The source is a copy for regex_init and the given pointer for regex_init_from.\<close>

definition regex_init :: "bytes \<Rightarrow> regex_options option \<Rightarrow> regex" where
  "regex_init src opts = \<lparr>re_node = None, re_src = Some src, re_ownsSrc = True, re_groups = [],
     re_opts = (case opts of Some o1 \<Rightarrow> o1 | None \<Rightarrow> DEFAULT_REGEX_OPTIONS)\<rparr>"

definition regex_init_from :: "bytes \<Rightarrow> regex_options option \<Rightarrow> regex" where
  "regex_init_from src opts = \<lparr>re_node = None, re_src = Some src, re_ownsSrc = False, re_groups = [],
     re_opts = (case opts of Some o1 \<Rightarrow> o1 | None \<Rightarrow> DEFAULT_REGEX_OPTIONS)\<rparr>"

definition regex_free :: "regex \<Rightarrow> regex" where
  "regex_free re = re\<lparr>re_node := None, re_src := None\<rparr>"

text \<open>The last node of a chain of siblings.\<close>

definition last_sibling :: "nat \<Rightarrow> rptr \<Rightarrow> rptr ract" where
  "last_sibling n = rloop n (\<lambda>l. rbnd (rfield rn_next l) (\<lambda>nx. rret (if nx \<noteq> None then Inl nx else Inr l)))"

definition node_add_child :: "nat \<Rightarrow> rptr \<Rightarrow> rptr \<Rightarrow> unit ract" where
  "node_add_child n parent child =
     rthn (rassert (parent \<noteq> None)) (rthn (rassert (child \<noteq> None))
     (rbnd (rfield rn_children parent) (\<lambda>last_child.
      rthn (set_node child (\<lambda>nd. nd\<lparr>rn_parent := parent\<rparr>))
      (if last_child = None then set_node parent (\<lambda>nd. nd\<lparr>rn_children := child\<rparr>)
       else rbnd (last_sibling n last_child) (\<lambda>l.
         rthn (set_node l (\<lambda>nd. nd\<lparr>rn_next := child\<rparr>)) (set_node child (\<lambda>nd. nd\<lparr>rn_prev := l\<rparr>)))))))"

definition unlink :: "rptr \<Rightarrow> rptr \<Rightarrow> unit ract" where
  "unlink parent child =
     rthn (rbnd (rfield rn_prev child) (\<lambda>p. rwhen (p \<noteq> None)
             (rbnd (rfield rn_next child) (\<lambda>nx. set_node p (\<lambda>nd. nd\<lparr>rn_next := nx\<rparr>)))))
     (rthn (rbnd (rfield rn_next child) (\<lambda>nx. rwhen (nx \<noteq> None)
             (rbnd (rfield rn_prev child) (\<lambda>p. set_node nx (\<lambda>nd. nd\<lparr>rn_prev := p\<rparr>)))))
     (rbnd (rfield rn_prev child) (\<lambda>p. rwhen (p = None)
             (rbnd (rfield rn_next child) (\<lambda>nx. set_node parent (\<lambda>nd. nd\<lparr>rn_children := nx\<rparr>))))))"

definition node_remove_child :: "nat \<Rightarrow> rptr \<Rightarrow> rptr \<Rightarrow> unit ract" where
  "node_remove_child n parent child =
     rthn (rassert (parent \<noteq> None)) (rthn (rassert (child \<noteq> None))
     (rbnd (rfield rn_children parent) (\<lambda>childn.
      rthn (set_node child (\<lambda>nd. nd\<lparr>rn_parent := None\<rparr>))
      (if childn = None then rskip
       else rloop n (\<lambda>c. if c = child then rbnd (unlink parent child) (\<lambda>_. rret (Inr ()))
              else rbnd (rfield rn_next c) (\<lambda>nx. rret (if nx \<noteq> None then Inl nx else Inr ()))) childn))))"

definition fresh_node :: "rnode_type \<Rightarrow> nat option \<Rightarrow> int \<Rightarrow> rptr \<Rightarrow> rptr \<Rightarrow> rnode" where
  "fresh_node type tok toklen parent prev =
     \<lparr>rn_tok = tok, rn_toklen = toklen, rn_nodelen = toklen, rn_repeat_min = -1, rn_repeat_max = -1,
      rn_eclass_type = ECLASS_NONE, rn_type = type, rn_anchor_type = ANCHOR_NONE, rn_capture_beg = None,
      rn_capture_end = None, rn_next = None, rn_prev = prev, rn_parent = parent, rn_children = None\<rparr>"

definition new_node :: "nat \<Rightarrow> rnode_type \<Rightarrow> nat option \<Rightarrow> int \<Rightarrow> rptr \<Rightarrow> rptr \<Rightarrow> rptr ract" where
  "new_node n type tok toklen parent prev =
     rbnd (alloc_node (fresh_node type tok toklen parent prev)) (\<lambda>node.
     rthn (rwhen (parent \<noteq> None) (set_node parent (\<lambda>nd. nd\<lparr>rn_nodelen := rn_nodelen nd + toklen\<rparr>)))
     (rthn (rwhen (prev \<noteq> None) (set_node prev (\<lambda>nd. nd\<lparr>rn_next := node\<rparr>)))
     (rthn (rwhen (parent \<noteq> None \<and> prev = None) (node_add_child n parent node))
      (rret node))))"

text \<open>The groups are a linked list in the code; a new one goes to its end.\<close>

definition regex_add_group :: "rptr \<Rightarrow> unit ract" where
  "regex_add_group grp = rmodify (\<lambda>s. s\<lparr>rs_regex := (rs_regex s)\<lparr>re_groups := re_groups (rs_regex s) @ [grp]\<rparr>\<rparr>)"

fun blank_out :: "rptr list \<Rightarrow> unit ract" where
  "blank_out [] = rskip"
| "blank_out (g # gs) = rthn (set_node g (\<lambda>nd. nd\<lparr>rn_capture_beg := None, rn_capture_end := None\<rparr>)) (blank_out gs)"

definition regex_blank_out_group_captures :: "regex \<Rightarrow> unit ract" where
  "regex_blank_out_group_captures re = blank_out (re_groups re)"

definition set_begOrNode :: "rptr \<Rightarrow> unit ract" where
  "set_begOrNode p = rmodify (\<lambda>s. s\<lparr>rs_begOrNode := p\<rparr>)"

subsection \<open>The parser\<close>

text \<open>The functions give the node, the position in the pattern and the error number. Each takes
  regex_parse_node for its recursive calls.\<close>

type_synonym rparse_result = "rptr \<times> nat \<times> int"

type_synonym parse_rec = "rptr \<Rightarrow> rptr \<Rightarrow> nat \<Rightarrow> int \<Rightarrow> rparse_result ract"

definition no_node :: "nat \<Rightarrow> int \<Rightarrow> rparse_result ract" where "no_node p err = rret (None, p, err)"

definition parse_anchor :: "nat \<Rightarrow> u8 \<Rightarrow> rptr \<Rightarrow> rptr \<Rightarrow> nat \<Rightarrow> int \<Rightarrow> rparse_result ract" where
  "parse_anchor n c parent prev p err =
     rbnd (new_node n NODE_ANCHOR (Some p) 1 parent prev) (\<lambda>anch.
     rthn (set_node anch (\<lambda>nd. nd\<lparr>rn_anchor_type := (if c = ch CHR ''^'' then ANCHOR_BOL else ANCHOR_EOL)\<rparr>))
      (rret (anch, p + 1, err)))"

text \<open>The loop over the children of a group does not look at the error: when there was one,
  regex_parse_node returns at once and the position stays.\<close>

definition group_children :: "nat \<Rightarrow> parse_rec \<Rightarrow> rptr \<Rightarrow> rptr \<times> nat \<times> int \<Rightarrow> (nat \<times> int) ract" where
  "group_children n rec grp = rloop n (\<lambda>(grp_child, p, err).
     rbnd (pat_at p) (\<lambda>c.
     if c \<noteq> 0 \<and> c \<noteq> ch CHR '')'' then
       rbnd (rec grp grp_child p err) (\<lambda>(grp_child1, p1, err1).
       rthn (rwhen (grp_child = None) (set_begOrNode grp_child1))
       (rret (Inl (grp_child1, p1, err1))))
     else rret (Inr (p, err))))"

definition parse_group :: "nat \<Rightarrow> parse_rec \<Rightarrow> rptr \<Rightarrow> rptr \<Rightarrow> nat \<Rightarrow> int \<Rightarrow> rparse_result ract" where
  "parse_group n rec parent prev p err =
     rbnd (new_node n NODE_GROUP (Some p) 1 parent prev) (\<lambda>grp.
     rbnd (group_children n rec grp (None, p + 1, err)) (\<lambda>(p1, err1).
     if err1 \<noteq> 0 then no_node p1 err1
     else rbnd (pat_at p1) (\<lambda>c.
       if c \<noteq> 0 then rthn (rassert (c = ch CHR '')'')) (rthn (regex_add_group grp) (rret (grp, p1 + 1, err1)))
       else no_node p1 (-1))))"

text \<open>The nodes from begOrNode on get a group for their parent.\<close>

definition adopt_chain :: "nat \<Rightarrow> rptr \<Rightarrow> rptr \<Rightarrow> rptr \<Rightarrow> unit ract" where
  "adopt_chain n orNode groupNode = rloop n (\<lambda>beg.
     if beg = None then rret (Inr ())
     else rthn (rassert (beg \<noteq> orNode)) (rthn (set_node beg (\<lambda>nd. nd\<lparr>rn_parent := groupNode\<rparr>))
       (rbnd (rfield rn_next beg) (\<lambda>nx. rret (Inl nx)))))"

definition alt_nodes :: "nat \<Rightarrow> parse_rec \<Rightarrow> rptr \<Rightarrow> rptr \<Rightarrow> rptr \<times> nat \<times> int \<times> int \<Rightarrow> rparse_result ract" where
  "alt_nodes n rec altGroupNode lastBegOrNode = rloop n (\<lambda>(alt, p, err, lastIdx).
     rbnd (pat_at p) (\<lambda>c.
     if c = 0 \<or> c = ch CHR '')'' then rret (Inr (alt, p, err))
     else rbnd (rec altGroupNode alt p err) (\<lambda>(alt1, p1, err1).
       if err1 \<noteq> 0 then rret (Inr (alt1, p1, err1))
       else rbnd (rgets rs_begOrNode) (\<lambda>beg.
         if beg \<noteq> lastBegOrNode \<and> lastIdx > 0 then rret (Inr (alt1, p1, err1))
         else rret (Inl (alt1, p1, err1, lastIdx + 1))))))"

definition parse_or :: "nat \<Rightarrow> parse_rec \<Rightarrow> rptr \<Rightarrow> rptr \<Rightarrow> nat \<Rightarrow> int \<Rightarrow> rparse_result ract" where
  "parse_or n rec parent prev p err =
     rbnd (rgets rs_begOrNode) (\<lambda>begOr.
     if begOr = None then no_node p (-1)
     else
       rthn (node_remove_child n parent begOr)
       (rthn (set_node begOr (\<lambda>nd. nd\<lparr>rn_parent := None\<rparr>))
       (rbnd (rfield rn_prev begOr) (\<lambda>pre.
        rbnd (new_node n NODE_OR (Some p) 1 parent pre) (\<lambda>orNode.
        rbnd (new_node n NODE_GROUP None 0 orNode None) (\<lambda>groupNode.
        rthn (set_node begOr (\<lambda>nd. nd\<lparr>rn_parent := groupNode\<rparr>))
        (rbnd (rfield rn_prev begOr) (\<lambda>pre1.
        rthn (if pre1 = None then set_node parent (\<lambda>nd. nd\<lparr>rn_children := orNode\<rparr>)
              else rthn (set_node pre1 (\<lambda>nd. nd\<lparr>rn_next := orNode\<rparr>))
                     (set_node orNode (\<lambda>nd. nd\<lparr>rn_prev := pre1\<rparr>)))
        (rthn (set_node groupNode (\<lambda>nd. nd\<lparr>rn_parent := orNode\<rparr>))
        (rthn (set_node orNode (\<lambda>nd. nd\<lparr>rn_children := groupNode\<rparr>))
        (rthn (set_node groupNode (\<lambda>nd. nd\<lparr>rn_children := begOr\<rparr>))
        (rthn (node_remove_child n groupNode orNode)
        (rthn (rassert (begOr \<noteq> orNode))
        (rthn (adopt_chain n orNode groupNode begOr)
        (rbnd (new_node n NODE_GROUP None 0 orNode groupNode) (\<lambda>altGroupNode.
        rbnd (alt_nodes n rec altGroupNode begOr (None, p + 1, err, 0)) (\<lambda>(alt, p1, err1).
         if err1 \<noteq> 0 then no_node p1 err1
         else rthn (rassert (alt \<noteq> None)) (rthn (set_begOrNode orNode) (rret (orNode, p1, err1))))))))))))))))))))"

text \<open>A postfix operator takes the place of the node before it, which becomes its child.\<close>

definition wrap_prev :: "nat \<Rightarrow> rptr \<Rightarrow> rptr \<Rightarrow> rptr \<Rightarrow> unit ract" where
  "wrap_prev n parent prev repeat =
     rbnd (rfield rn_prev prev) (\<lambda>pre.
     rthn (rwhen (pre = None) (set_node parent (\<lambda>nd. nd\<lparr>rn_children := repeat\<rparr>)))
     (rthn (set_node prev (\<lambda>nd. nd\<lparr>rn_next := None\<rparr>))
     (rthn (set_node prev (\<lambda>nd. nd\<lparr>rn_prev := None\<rparr>))
      (node_add_child n repeat prev))))"

definition parse_repeat :: "nat \<Rightarrow> rnode_type \<Rightarrow> rnode_type \<Rightarrow> rptr \<Rightarrow> rptr \<Rightarrow> nat \<Rightarrow> int \<Rightarrow> rparse_result ract" where
  "parse_repeat n greedy nongreedy parent prev p err =
     (if prev = None then no_node p (-1)
      else rbnd (pat_at (p + 1)) (\<lambda>c.
        rbnd (rfield rn_prev prev) (\<lambda>pre.
        let p1 = (if c = ch CHR ''?'' then p + 2 else p + 1) in
        rbnd (if c = ch CHR ''?'' then new_node n nongreedy (Some p1) 2 parent pre
              else new_node n greedy (Some p1) 1 parent pre) (\<lambda>repeat.
        rthn (wrap_prev n parent prev repeat) (rret (repeat, p1, err))))))"

definition parse_maybe :: "nat \<Rightarrow> rptr \<Rightarrow> rptr \<Rightarrow> nat \<Rightarrow> int \<Rightarrow> rparse_result ract" where
  "parse_maybe n parent prev p err =
     (if prev = None then no_node p (-1)
      else rbnd (rfield rn_prev prev) (\<lambda>pre.
        rbnd (new_node n NODE_MAYBE (Some (p + 1)) 1 parent pre) (\<lambda>maybe.
        rthn (wrap_prev n parent prev maybe) (rret (maybe, p + 1, err)))))"

text \<open>strtol with base 10 for a 64-bit long in the C locale: the number, how many characters it
  takes, and whether it was out of range (then it is the nearest long).\<close>

definition isspace :: "u8 \<Rightarrow> bool" where "isspace c \<longleftrightarrow> c = 32 \<or> (9 \<le> c \<and> c \<le> 13)"

definition strtol10 :: "bytes \<Rightarrow> int \<times> nat \<times> bool" where
  "strtol10 t =
     (let ws = length (takeWhile isspace t); t1 = drop ws t;
          neg = (case t1 of c # _ \<Rightarrow> c = ch CHR ''-'' | [] \<Rightarrow> False);
          sg = (case t1 of c # _ \<Rightarrow> if c = ch CHR ''-'' \<or> c = ch CHR ''+'' then 1 else 0 | [] \<Rightarrow> 0);
          ds = takeWhile isDigit (drop sg t1);
          v = foldl (\<lambda>a d. 10 * a + (uint d - 48)) 0 ds; v1 = (if neg then - v else v)
      in if ds = [] then (0, 0, False)
         else (max (- (2 ^ 63)) (min v1 (2 ^ 63 - 1)), ws + sg + length ds, v1 < - (2 ^ 63) \<or> v1 > 2 ^ 63 - 1))"

definition strtol_at :: "nat \<Rightarrow> (int \<times> nat \<times> bool) ract" where
  "strtol_at p = rbnd (rgets (\<lambda>s. re_src (rs_regex s))) (\<lambda>t. case t of None \<Rightarrow> rstop RNull
     | Some t1 \<Rightarrow> (case strtol10 (drop p t1) of (v, k, er) \<Rightarrow> rret (v, p + k, er)))"

definition add_repeat_n :: "nat \<Rightarrow> rptr \<Rightarrow> rptr \<Rightarrow> int \<Rightarrow> int \<Rightarrow> nat \<Rightarrow> int \<Rightarrow> rparse_result ract" where
  "add_repeat_n n parent prev lval1 lval2 p err =
     rbnd (rfield rn_prev prev) (\<lambda>pre.
     rbnd (new_node n NODE_REPEAT_N (Some (p + 1)) 1 parent pre) (\<lambda>repeat.
     rthn (set_node repeat (\<lambda>nd. nd\<lparr>rn_repeat_min := lval1, rn_repeat_max := lval2\<rparr>))
     (rthn (wrap_prev n parent prev repeat) (rret (repeat, p + 1, err)))))"

definition parse_repeat_n :: "nat \<Rightarrow> rptr \<Rightarrow> rptr \<Rightarrow> nat \<Rightarrow> int \<Rightarrow> rparse_result ract" where
  "parse_repeat_n n parent prev p err =
     (if prev = None then no_node p (-1)
      else rbnd (strtol_at (p + 1)) (\<lambda>(lval1, p1, range1).
       rbnd (pat_at p1) (\<lambda>c.
       if range1 \<or> c = 0 then no_node (p + 1) (-1)
       else if c = ch CHR ''}'' then add_repeat_n n parent prev lval1 lval1 p1 err
       else if c \<noteq> ch CHR '','' then no_node p1 (-1)
       else rbnd (strtol_at (p1 + 1)) (\<lambda>(lval2, p2, range2).
         rbnd (pat_at p2) (\<lambda>c2.
         if range2 \<or> lval2 < lval1 \<or> c2 = 0 then no_node (p1 + 1) (-1)
         else add_repeat_n n parent prev lval1 lval2 p2 err)))))"

definition cclass_end :: "nat \<Rightarrow> rptr \<Rightarrow> nat \<times> u8 \<Rightarrow> nat ract" where
  "cclass_end n cclass = rloop n (\<lambda>(p, lastc).
     rbnd (pat_at p) (\<lambda>c.
     if c \<noteq> 0 \<and> (lastc = bslash \<or> c \<noteq> ch CHR '']'') then
       rthn (set_node cclass (\<lambda>nd. nd\<lparr>rn_toklen := rn_toklen nd + 1\<rparr>)) (rret (Inl (p + 1, c)))
     else rret (Inr p)))"

definition parse_cclass :: "nat \<Rightarrow> rptr \<Rightarrow> rptr \<Rightarrow> nat \<Rightarrow> int \<Rightarrow> rparse_result ract" where
  "parse_cclass n parent prev p err =
     rbnd (new_node n NODE_CCLASS (Some p) 1 parent prev) (\<lambda>cclass.
     rbnd (pat_at (p + 1)) (\<lambda>c0.
     rbnd (cclass_end n cclass (p + 1, c0)) (\<lambda>p1.
     rbnd (pat_at p1) (\<lambda>c. if c = 0 then no_node p1 (-1) else rret (cclass, p1 + 1, err)))))"

definition isupper :: "u8 \<Rightarrow> bool" where "isupper c \<longleftrightarrow> 65 \<le> c \<and> c \<le> 90"
definition tolower :: "u8 \<Rightarrow> u8" where "tolower c = (if isupper c then c + 32 else c)"
definition isalpha :: "u8 \<Rightarrow> bool" where "isalpha c \<longleftrightarrow> 65 \<le> c \<and> c \<le> 90 \<or> 97 \<le> c \<and> c \<le> 122"
definition isalnum :: "u8 \<Rightarrow> bool" where "isalnum c \<longleftrightarrow> isalpha c \<or> isDigit c"

definition escape_class :: "u8 \<Rightarrow> eclass_type" where
  "escape_class c =
     (if c = ch CHR ''w'' then ECLASS_WORD else if c = ch CHR ''W'' then ECLASS_NON_WORD
      else if c = ch CHR ''d'' then ECLASS_DIGIT else if c = ch CHR ''D'' then ECLASS_NON_DIGIT
      else if c = ch CHR ''s'' then ECLASS_SPACE else if c = ch CHR ''S'' then ECLASS_NON_SPACE
      else if c = ch CHR ''b'' then ECLASS_WORD_BOUNDARY else ECLASS_NON_WORD_BOUNDARY)"

text \<open>Any other escaped character is skipped, and the atom is the character after it, at which the
  position stays.\<close>

definition parse_escape :: "nat \<Rightarrow> rptr \<Rightarrow> rptr \<Rightarrow> nat \<Rightarrow> int \<Rightarrow> rparse_result ract" where
  "parse_escape n parent prev p err =
     rbnd (pat_at (p + 1)) (\<lambda>c.
     if c = 0 then no_node (p + 1) (-1)
     else if tolower c \<in> set (ascii ''wdsb'') then
       rbnd (new_node n NODE_ECLASS (Some (p + 1)) 1 parent prev) (\<lambda>node.
       rthn (set_node node (\<lambda>nd. nd\<lparr>rn_eclass_type := escape_class c\<rparr>)) (rret (node, p + 2, err)))
     else if c \<in> set (ascii ''.*+[|?{}^$'') then
       rbnd (new_node n NODE_ATOM (Some (p + 1)) 1 parent prev) (\<lambda>node. rret (node, p + 2, err))
     else if c = ch CHR ''A'' \<or> c = ch CHR ''Z'' then
       rbnd (new_node n NODE_ANCHOR (Some (p + 1)) 1 parent prev) (\<lambda>node.
       rthn (set_node node (\<lambda>nd. nd\<lparr>rn_anchor_type := (if c = ch CHR ''A'' then ANCHOR_BOS else ANCHOR_EOS)\<rparr>))
        (rret (node, p + 2, err)))
     else rbnd (new_node n NODE_ATOM (Some (p + 2)) 1 parent prev) (\<lambda>node. rret (node, p + 2, err)))"

definition parse_single :: "nat \<Rightarrow> rnode_type \<Rightarrow> rptr \<Rightarrow> rptr \<Rightarrow> nat \<Rightarrow> int \<Rightarrow> rparse_result ract" where
  "parse_single n type parent prev p err =
     rbnd (new_node n type (Some p) 1 parent prev) (\<lambda>node. rret (node, p + 1, err))"

definition parse_node_with :: "nat \<Rightarrow> parse_rec \<Rightarrow> parse_rec" where
  "parse_node_with n rec parent prev p err =
     (if err \<noteq> 0 then no_node p err
      else rbnd (pat_at p) (\<lambda>c.
        if c = 0 then rstop RAbort
        else if c = ch CHR ''^'' \<or> c = ch CHR ''$'' then parse_anchor n c parent prev p err
        else if c = ch CHR ''('' then parse_group n rec parent prev p err
        else if c = ch CHR '')'' then rstop RAbort
        else if c = ch CHR ''|'' then parse_or n rec parent prev p err
        else if c = ch CHR ''+'' then parse_repeat n NODE_REPEAT NODE_REPEAT_NONGREEDY parent prev p err
        else if c = ch CHR ''*'' then parse_repeat n NODE_REPEAT_Z NODE_REPEAT_Z_NONGREEDY parent prev p err
        else if c = ch CHR ''?'' then parse_maybe n parent prev p err
        else if c = ch CHR ''{'' then parse_repeat_n n parent prev p err
        else if c = ch CHR ''['' then parse_cclass n parent prev p err
        else if c = ch CHR ''.'' then parse_single n NODE_DOT parent prev p err
        else if c = bslash then parse_escape n parent prev p err
        else parse_single n NODE_ATOM parent prev p err))"

fun regex_parse_node :: "nat \<Rightarrow> parse_rec" where
  "regex_parse_node 0 parent prev p err = rstop RFuel"
| "regex_parse_node (Suc n) parent prev p err = parse_node_with n (regex_parse_node n) parent prev p err"

definition parse_round :: "nat \<Rightarrow> rptr \<Rightarrow> rptr \<times> nat \<Rightarrow> (rptr \<times> nat + int) ract" where
  "parse_round n program v = (case v of (prev, p) \<Rightarrow>
     rbnd (pat_at p) (\<lambda>c.
     if c = 0 then rret (Inr 0)
     else rbnd (regex_parse_node n program prev p 0) (\<lambda>(prev1, p1, err).
       if err \<noteq> 0 then rret (Inr err)
       else rbnd (rgets rs_begOrNode) (\<lambda>beg.
         rthn (rwhen (beg = None) (set_begOrNode prev1)) (rret (Inl (prev1, p1)))))))"

definition parse_nodes :: "nat \<Rightarrow> rptr \<Rightarrow> rptr \<times> nat \<Rightarrow> int ract" where
  "parse_nodes n program = rloop n (parse_round n program)"

definition new_program_node :: "nat \<Rightarrow> rptr ract" where
  "new_program_node n = new_node n NODE_PROGRAM None 0 None None"

definition regex_parse :: "nat \<Rightarrow> int ract" where
  "regex_parse n =
     rbnd (new_program_node n) (\<lambda>program.
     rthn (rmodify (\<lambda>s. s\<lparr>rs_regex := (rs_regex s)\<lparr>re_node := program\<rparr>\<rparr>))
     (rthn (set_begOrNode None) (parse_nodes n program (None, 0))))"

definition regex_compile :: "nat \<Rightarrow> compile_result ract" where
  "regex_compile n =
     rbnd (rgets (\<lambda>s. re_src (rs_regex s))) (\<lambda>src.
     if src = None then rret REGEX_UNITIALIZED_ERR
     else rbnd (regex_parse n) (\<lambda>res.
       if res \<noteq> 0 then rret REGEX_PARSE_ERR
       else rbnd (rgets (\<lambda>s. re_node (rs_regex s))) (\<lambda>node.
         rbnd (rfield rn_type node) (\<lambda>type.
         rthn (rassert (type = NODE_PROGRAM)) (rret REGEX_COMPILE_SUCCESS)))))"

subsection \<open>The matcher\<close>

text \<open>The functions take the position in the text and the node in nnext and give whether the node
  accepts, the new position and the new nnext. The argument parent of node_accepts_ch is only handed
  on in the code and left out.\<close>

definition GET_NEXT_NODE :: "rptr \<Rightarrow> rptr ract" where
  "GET_NEXT_NODE node = rbnd (node_at node) (\<lambda>nd.
     if rn_next nd \<noteq> None then rret (rn_next nd)
     else if rn_parent nd \<noteq> None then rfield rn_next (rn_parent nd) else rret None)"

definition SET_NEXT_NODE :: "rptr \<Rightarrow> nat \<Rightarrow> rptr ract" where
  "SET_NEXT_NODE node cptr = rbnd (node_at node) (\<lambda>nd.
     if rn_next nd \<noteq> None then rret (rn_next nd)
     else rbnd (rfield rn_type (rn_parent nd)) (\<lambda>ptype.
       rthn (rwhen (ptype = NODE_GROUP) (set_node (rn_parent nd) (\<lambda>pd. pd\<lparr>rn_capture_end := Some cptr\<rparr>)))
        (rfield rn_next (rn_parent nd))))"

type_synonym accept_result = "bool \<times> nat \<times> rptr"

type_synonym accept_rec = "rptr \<Rightarrow> nat \<Rightarrow> rptr \<Rightarrow> accept_result ract"

definition accept_at :: "rptr \<Rightarrow> nat \<Rightarrow> accept_result ract" where
  "accept_at node cptr = rbnd (SET_NEXT_NODE node cptr) (\<lambda>nn. rret (True, cptr, nn))"

definition reject :: "nat \<Rightarrow> rptr \<Rightarrow> accept_result ract" where "reject cptr nnext = rret (False, cptr, nnext)"

definition accepts_group :: "accept_rec \<Rightarrow> rptr \<Rightarrow> rnode \<Rightarrow> nat \<Rightarrow> rptr \<Rightarrow> accept_result ract" where
  "accepts_group acc node nd cptr nnext =
     rthn (rassert (rn_children nd \<noteq> None))
     (rbnd (acc (rn_children nd) cptr nnext) (\<lambda>(a, c1, nn1).
      rthn (rwhen (a \<and> rn_type nd = NODE_GROUP) (set_node node (\<lambda>g. g\<lparr>rn_capture_beg := Some cptr\<rparr>)))
       (rret (a, c1, nn1))))"

definition accepts_anchor :: "rnode \<Rightarrow> u8 \<Rightarrow> nat \<Rightarrow> rptr \<Rightarrow> accept_result ract" where
  "accepts_anchor nd c cptr nnext =
     (case rn_anchor_type nd of
        ANCHOR_EOL \<Rightarrow> if c = 0 \<or> c = nl \<or> c = cr then rret (True, cptr, rn_next nd) else reject cptr nnext
      | ANCHOR_BOL \<Rightarrow> rret (True, cptr, rn_next nd)
      | ANCHOR_EOS \<Rightarrow> if c = 0 then rret (True, cptr, rn_next nd) else reject cptr nnext
      | ANCHOR_BOS \<Rightarrow> rret (True, cptr, rn_next nd)
      | ANCHOR_NONE \<Rightarrow> rstop RAbort)"

definition accepts_atom :: "rptr \<Rightarrow> rnode \<Rightarrow> u8 \<Rightarrow> nat \<Rightarrow> rptr \<Rightarrow> accept_result ract" where
  "accepts_atom node nd c cptr nnext =
     (case rn_tok nd of None \<Rightarrow> rstop RAbort
      | Some t \<Rightarrow> rbnd (pat_at t) (\<lambda>pc. if pc = c then accept_at node (cptr + 1) else reject cptr nnext))"

definition run_alternative :: "nat \<Rightarrow> accept_rec \<Rightarrow> rptr \<times> nat \<times> rptr \<Rightarrow> accept_result ract" where
  "run_alternative n acc = rloop n (\<lambda>(child, cptr, nnext).
     rbnd (acc child cptr nnext) (\<lambda>(a, c1, nn1).
     if \<not> a \<or> nn1 = None then rret (Inr (a, c1, nn1))
     else rbnd (rfield rn_next nn1) (\<lambda>nn2. rret (Inl (nn1, c1, nn2)))))"

definition accepts_or :: "nat \<Rightarrow> accept_rec \<Rightarrow> rnode \<Rightarrow> nat \<Rightarrow> rptr \<Rightarrow> accept_result ract" where
  "accepts_or n acc nd cptr nnext =
     rthn (rassert (rn_children nd \<noteq> None))
     (rbnd (rfield rn_next (rn_children nd)) (\<lambda>child2.
      rbnd (run_alternative n acc (rn_children nd, cptr, nnext)) (\<lambda>(a, c1, nn1).
      if a then rret (True, c1, nn1)
      else rbnd (run_alternative n acc (child2, cptr, nn1)) (\<lambda>(a2, c2, nn2).
        if a2 then rret (True, c2, nn2) else reject cptr nn2))))"

text \<open>The body of the loops + and *: after each child that matches it is tried whether the next node
  matches, and the last such position is kept. The result has the position, nnext, how many children
  matched, and the kept position.\<close>

type_synonym repeat_result = "nat \<times> rptr \<times> nat \<times> nat option"

definition greedy_loop :: "nat \<Rightarrow> accept_rec \<Rightarrow> (rptr \<Rightarrow> nat \<Rightarrow> bool ract) \<Rightarrow> rptr \<Rightarrow> rptr \<Rightarrow> repeat_result \<Rightarrow>
    repeat_result ract" where
  "greedy_loop n acc part child next = rloop n (\<lambda>(cptr, nnext, count, biggest).
     rbnd (acc child cptr nnext) (\<lambda>(a, c1, nn1).
     if \<not> a then rret (Inr (c1, nn1, count, biggest))
     else if next = None then rret (Inl (c1, nn1, count + 1, biggest))
     else rbnd (part next c1) (\<lambda>m. rret (Inl (c1, nn1, count + 1, if m then Some c1 else biggest)))))"

definition nongreedy_loop :: "nat \<Rightarrow> accept_rec \<Rightarrow> (rptr \<Rightarrow> nat \<Rightarrow> bool ract) \<Rightarrow> rptr \<Rightarrow> rptr \<Rightarrow> repeat_result \<Rightarrow>
    repeat_result ract" where
  "nongreedy_loop n acc part child next = rloop n (\<lambda>(cptr, nnext, count, biggest).
     rbnd (acc child cptr nnext) (\<lambda>(a, c1, nn1).
     if \<not> a then rret (Inr (c1, nn1, count, biggest))
     else if next = None then rret (Inl (c1, nn1, count + 1, biggest))
     else rbnd (part next c1) (\<lambda>m. rret (if m then Inr (c1, nn1, count + 1, Some c1)
                                          else Inl (c1, nn1, count + 1, biggest)))))"

text \<open>What + and +? do after their loop.\<close>

definition finish_repeat :: "rptr \<Rightarrow> rptr \<Rightarrow> nat \<Rightarrow> repeat_result \<Rightarrow> accept_result ract" where
  "finish_repeat node next pre r =
     (case r of (cptr, nnext, count, biggest) \<Rightarrow>
        if count \<ge> 1 then
          (if next = None then accept_at node cptr
           else case biggest of None \<Rightarrow> reject pre nnext | Some b \<Rightarrow> accept_at node b)
        else reject cptr nnext)"

text \<open>What * and *? do after their loop: they accept the empty text as well.\<close>

definition finish_repeat_z :: "rptr \<Rightarrow> rptr \<Rightarrow> nat \<Rightarrow> repeat_result \<Rightarrow> accept_result ract" where
  "finish_repeat_z node next pre r =
     (case r of (cptr, nnext, count, biggest) \<Rightarrow>
        accept_at node (if next = None then cptr else case biggest of None \<Rightarrow> pre | Some b \<Rightarrow> b))"

definition accepts_repeat :: "nat \<Rightarrow> accept_rec \<Rightarrow> (rptr \<Rightarrow> nat \<Rightarrow> bool ract) \<Rightarrow> rptr \<Rightarrow> rnode \<Rightarrow> nat \<Rightarrow> rptr \<Rightarrow>
    accept_result ract" where
  "accepts_repeat n acc part node nd cptr nnext =
     rbnd (GET_NEXT_NODE node) (\<lambda>next.
     rbnd (greedy_loop n acc part (rn_children nd) next (cptr, nnext, 0, None)) (finish_repeat node next cptr))"

definition accepts_repeat_nongreedy :: "nat \<Rightarrow> accept_rec \<Rightarrow> (rptr \<Rightarrow> nat \<Rightarrow> bool ract) \<Rightarrow> rptr \<Rightarrow> rnode \<Rightarrow> nat \<Rightarrow>
    rptr \<Rightarrow> accept_result ract" where
  "accepts_repeat_nongreedy n acc part node nd cptr nnext =
     rbnd (GET_NEXT_NODE node) (\<lambda>next.
     rbnd (nongreedy_loop n acc part (rn_children nd) next (cptr, nnext, 0, None)) (finish_repeat node next cptr))"

definition accepts_repeat_z :: "nat \<Rightarrow> accept_rec \<Rightarrow> (rptr \<Rightarrow> nat \<Rightarrow> bool ract) \<Rightarrow> rptr \<Rightarrow> rnode \<Rightarrow> nat \<Rightarrow> rptr \<Rightarrow>
    accept_result ract" where
  "accepts_repeat_z n acc part node nd cptr nnext =
     rbnd (GET_NEXT_NODE node) (\<lambda>next.
     rbnd (greedy_loop n acc part (rn_children nd) next (cptr, nnext, 0, None)) (finish_repeat_z node next cptr))"

definition accepts_repeat_z_nongreedy :: "nat \<Rightarrow> accept_rec \<Rightarrow> (rptr \<Rightarrow> nat \<Rightarrow> bool ract) \<Rightarrow> rptr \<Rightarrow> rnode \<Rightarrow>
    nat \<Rightarrow> rptr \<Rightarrow> accept_result ract" where
  "accepts_repeat_z_nongreedy n acc part node nd cptr nnext =
     rbnd (GET_NEXT_NODE node) (\<lambda>next.
     rbnd (if next = None then rret False else part next cptr) (\<lambda>m.
     rbnd (if m then rret (cptr, nnext, 0, Some cptr)
           else nongreedy_loop n acc part (rn_children nd) next (cptr, nnext, 0, None))
      (finish_repeat_z node next cptr)))"

definition repeat_n_loop :: "nat \<Rightarrow> accept_rec \<Rightarrow> rnode \<Rightarrow> nat \<times> rptr \<times> int \<times> bool \<Rightarrow> accept_result ract" where
  "repeat_n_loop n acc nd = rloop n (\<lambda>(cptr, nnext, matched, accepted).
     rbnd (acc (rn_children nd) cptr nnext) (\<lambda>(a, c1, nn1).
     if \<not> a then rret (Inr (accepted, c1, nn1))
     else if matched + 1 \<ge> rn_repeat_min nd then
       rret (if matched + 1 = rn_repeat_max nd then Inr (True, c1, nn1) else Inl (c1, nn1, matched + 1, True))
     else rret (Inl (c1, nn1, matched + 1, accepted))))"

definition accepts_repeat_n :: "nat \<Rightarrow> accept_rec \<Rightarrow> rptr \<Rightarrow> rnode \<Rightarrow> nat \<Rightarrow> rptr \<Rightarrow> accept_result ract" where
  "accepts_repeat_n n acc node nd cptr nnext =
     rbnd (repeat_n_loop n acc nd (cptr, nnext, 0, False)) (\<lambda>(accepted, c1, nn1).
     if accepted then accept_at node c1 else reject cptr nn1)"

definition accepts_maybe :: "accept_rec \<Rightarrow> rptr \<Rightarrow> rnode \<Rightarrow> nat \<Rightarrow> rptr \<Rightarrow> accept_result ract" where
  "accepts_maybe acc node nd cptr nnext =
     rbnd (acc (rn_children nd) cptr nnext) (\<lambda>(a, c1, nn1). accept_at node c1)"

text \<open>The class of an escape in brackets, if it is one of those that are known there.\<close>

definition bracket_escape :: "u8 \<Rightarrow> (u8 \<Rightarrow> bool) option" where
  "bracket_escape c =
     (if c = ch CHR ''d'' then Some isDigit else if c = ch CHR ''s'' then Some isspace
      else if c = ch CHR ''w'' then Some (\<lambda>c1. isalnum c1 \<or> c1 = ch CHR ''_'') else None)"

text \<open>One round of the loop over the text in brackets, for a character c: chars are signed. Where an
  escape accepts, the code changes its own variable node and not the caller's nnext.\<close>

definition cclass_round :: "rptr \<Rightarrow> u8 \<Rightarrow> nat \<Rightarrow> rptr \<Rightarrow> nat \<times> int \<Rightarrow> (nat \<times> int + accept_result) ract" where
  "cclass_round node c cptr nnext v = (case v of (start, len) \<Rightarrow>
     if len \<le> 0 then rret (Inr (False, cptr, nnext))
     else rbnd (pat_at start) (\<lambda>rc.
     rbnd (if len > 2 then rbnd (pat_at (start + 1)) (\<lambda>rnext.
             if rnext = ch CHR ''-'' then rbnd (pat_at (start + 2)) (\<lambda>rend. rret (if rend \<noteq> 0 then Some rend else None))
             else rret None)
           else rret None) (\<lambda>rend.
     case rend of
       Some e \<Rightarrow>
         if sint c \<ge> sint rc \<and> sint c \<le> sint e then rbnd (accept_at node (cptr + 1)) (\<lambda>r. rret (Inr r))
         else rret (Inl (start + 3, len - 3))
     | None \<Rightarrow>
         rbnd (if rc = bslash \<and> len > 1 then rbnd (pat_at (start + 1)) (\<lambda>rnext. rret (bracket_escape rnext))
               else rret None) (\<lambda>cls.
         case cls of
           Some f \<Rightarrow>
             if f c then rbnd (SET_NEXT_NODE node (cptr + 1)) (\<lambda>_. rret (Inr (True, cptr + 1, nnext)))
             else rret (Inl (start + 2, len - 2))
         | None \<Rightarrow>
             if rc = c then rbnd (accept_at node (cptr + 1)) (\<lambda>r. rret (Inr r))
             else rret (Inl (start + 1, len - 1))))))"

definition accepts_cclass :: "nat \<Rightarrow> rptr \<Rightarrow> rnode \<Rightarrow> u8 \<Rightarrow> nat \<Rightarrow> rptr \<Rightarrow> accept_result ract" where
  "accepts_cclass n node nd c cptr nnext =
     (case rn_tok nd of None \<Rightarrow> rstop RNull
      | Some t \<Rightarrow> rloop n (cclass_round node c cptr nnext) (t + 1, rn_toklen nd - 1))"

definition accepts_eclass :: "rptr \<Rightarrow> rnode \<Rightarrow> u8 \<Rightarrow> nat \<Rightarrow> rptr \<Rightarrow> accept_result ract" where
  "accepts_eclass node nd c cptr nnext =
     (case rn_eclass_type nd of
        ECLASS_DIGIT \<Rightarrow> if isDigit c then accept_at node (cptr + 1) else reject cptr nnext
      | ECLASS_WORD \<Rightarrow> if isalpha c \<or> c = ch CHR ''_'' then accept_at node (cptr + 1) else reject cptr nnext
      | ECLASS_SPACE \<Rightarrow> if isspace c then accept_at node (cptr + 1) else reject cptr nnext
      | _ \<Rightarrow> rstop RAbort)"

definition accepts_with :: "nat \<Rightarrow> accept_rec \<Rightarrow> (rptr \<Rightarrow> nat \<Rightarrow> bool ract) \<Rightarrow> accept_rec" where
  "accepts_with n acc part node cptr nnext =
     rbnd (text_at cptr) (\<lambda>c.
     rbnd (node_at node) (\<lambda>nd.
     if c = 0 \<and> rn_type nd \<noteq> NODE_ANCHOR \<and> rn_type nd \<noteq> NODE_PROGRAM then reject cptr nnext
     else case rn_type nd of
       NODE_PROGRAM \<Rightarrow> accepts_group acc node nd cptr nnext
     | NODE_GROUP \<Rightarrow> accepts_group acc node nd cptr nnext
     | NODE_ANCHOR \<Rightarrow> accepts_anchor nd c cptr nnext
     | NODE_ATOM \<Rightarrow> accepts_atom node nd c cptr nnext
     | NODE_OR \<Rightarrow> accepts_or n acc nd cptr nnext
     | NODE_REPEAT \<Rightarrow> accepts_repeat n acc part node nd cptr nnext
     | NODE_REPEAT_NONGREEDY \<Rightarrow> accepts_repeat_nongreedy n acc part node nd cptr nnext
     | NODE_REPEAT_Z \<Rightarrow> accepts_repeat_z n acc part node nd cptr nnext
     | NODE_REPEAT_Z_NONGREEDY \<Rightarrow> accepts_repeat_z_nongreedy n acc part node nd cptr nnext
     | NODE_REPEAT_N \<Rightarrow> accepts_repeat_n n acc node nd cptr nnext
     | NODE_MAYBE \<Rightarrow> accepts_maybe acc node nd cptr nnext
     | NODE_CCLASS \<Rightarrow> accepts_cclass n node nd c cptr nnext
     | NODE_ECLASS \<Rightarrow> accepts_eclass node nd c cptr nnext
     | NODE_DOT \<Rightarrow> accept_at node (cptr + 1)))"

subsection \<open>Matching a text\<close>

definition no_match :: matchdata where "no_match = \<lparr>md_matched = False, md_start = -1, md_len = -1\<rparr>"

definition match_of :: "nat \<Rightarrow> nat \<Rightarrow> nat \<Rightarrow> matchdata" where
  "match_of string start stop = \<lparr>md_matched = True, md_start = int start - int string, md_len = int stop - int start\<rparr>"

text \<open>The variables of the loop of regex_match. After a node that does not match, the position and
  start move on by one character and the node stays.\<close>

record mvars =
  mv_cptr :: nat
  mv_start :: nat
  mv_node :: rptr
  mv_begAnchorFound :: bool
  mv_anchored :: bool
  mv_lastAccept :: bool

text \<open>Whether the pattern starts with an anchor, which is looked at in the first round.\<close>

definition beg_anchor :: "mvars \<Rightarrow> bool ract" where
  "beg_anchor v =
     (if mv_begAnchorFound v then rret (mv_anchored v)
      else rbnd (node_at (mv_node v)) (\<lambda>nd.
        if rn_type nd = NODE_PROGRAM \<and> rn_children nd \<noteq> None then
          rbnd (rfield rn_anchor_type (rn_children nd)) (\<lambda>t. rret (t = ANCHOR_BOS \<or> t = ANCHOR_BOL))
        else rret False))"

definition match_round :: "accept_rec \<Rightarrow> nat \<Rightarrow> mvars \<Rightarrow> (mvars + matchdata + mvars) ract" where
  "match_round acc string v =
     rbnd (text_at (mv_cptr v)) (\<lambda>c.
     if c = 0 then rret (Inr (Inr v))
     else rbnd (beg_anchor v) (\<lambda>anch.
      rbnd (acc (mv_node v) (mv_cptr v) None) (\<lambda>(a, c1, nnext).
      let v1 = v\<lparr>mv_cptr := c1, mv_begAnchorFound := True, mv_anchored := anch, mv_lastAccept := a\<rparr> in
      if a then
        (if nnext = None then rret (Inr (Inl (match_of string (mv_start v) c1)))
         else rthn (rbnd (node_at nnext) (\<lambda>_. rskip)) (rret (Inl (v1\<lparr>mv_node := nnext\<rparr>))))
      else if anch then rret (Inr (Inl no_match))
      else rret (Inl (v1\<lparr>mv_cptr := c1 + 1, mv_start := c1 + 1\<rparr>)))))"

text \<open>At the end of the text: a last anchor that is still to be matched, and a pattern of anchors
  only.\<close>

definition match_anchors :: "nat \<Rightarrow> accept_rec \<Rightarrow> rptr \<Rightarrow> nat \<Rightarrow> bool ract" where
  "match_anchors n acc node cptr = rloop n (\<lambda>(node, cptr, nnext, accepted).
     if node = None then rret (Inr accepted)
     else rbnd (acc node cptr nnext) (\<lambda>(a, c1, nn1).
       rret (if a then Inl (nn1, c1, nn1, True) else Inr False))) (node, cptr, None, False)"

definition match_end :: "nat \<Rightarrow> accept_rec \<Rightarrow> nat \<Rightarrow> mvars \<Rightarrow> matchdata ract" where
  "match_end n acc string v =
     rbnd (text_at (mv_cptr v)) (\<lambda>c.
     rbnd (if mv_node v = None then rret None else rbnd (node_at (mv_node v)) (\<lambda>nd. rret (Some nd))) (\<lambda>nd.
     case nd of None \<Rightarrow> rret no_match
     | Some nd \<Rightarrow>
       if mv_lastAccept v then
         (if rn_anchor_type nd = ANCHOR_EOS \<and> c = 0 \<or>
             rn_anchor_type nd = ANCHOR_EOL \<and> (c = nl \<or> c = cr \<or> c = 0)
          then rret (match_of string (mv_start v) (mv_cptr v)) else rret no_match)
       else if c = 0 \<and> rn_type nd = NODE_PROGRAM then
         rbnd (match_anchors n acc (mv_node v) (mv_cptr v)) (\<lambda>m.
         rret (if m then \<lparr>md_matched = True, md_start = 0, md_len = 0\<rparr> else no_match))
       else rret no_match))"

definition match_with :: "nat \<Rightarrow> accept_rec \<Rightarrow> regex \<Rightarrow> nat \<Rightarrow> matchdata ract" where
  "match_with n acc re string =
     (if re_node re = None \<or> re_src re = None then rret no_match
      else rthn (regex_blank_out_group_captures re)
       (rbnd (rfield rn_children (re_node re)) (\<lambda>children.
        if children = None then rret \<lparr>md_matched = True, md_start = 0, md_len = 0\<rparr>
        else rbnd (rloop n (match_round acc string)
               \<lparr>mv_cptr = string, mv_start = string, mv_node = re_node re, mv_begAnchorFound = False,
                mv_anchored = False, mv_lastAccept = False\<rparr>) (\<lambda>r.
          case r of Inl md \<Rightarrow> rret md | Inr v \<Rightarrow> match_end n acc string v))))"

definition dup_node :: "rptr \<Rightarrow> rptr ract" where "dup_node old = rbnd (node_at old) alloc_node"

text \<open>The text of the new anchor is a literal and not part of the pattern.\<close>

definition insert_bol_anchor :: "nat \<Rightarrow> rptr \<Rightarrow> rptr ract" where
  "insert_bol_anchor n prev =
     rbnd (new_node n NODE_ANCHOR None 1 None None) (\<lambda>anch.
     rthn (set_node anch (\<lambda>nd. nd\<lparr>rn_anchor_type := ANCHOR_BOL\<rparr>))
     (rthn (set_node anch (\<lambda>nd. nd\<lparr>rn_next := prev\<rparr>))
     (rthn (set_node prev (\<lambda>nd. nd\<lparr>rn_prev := anch\<rparr>)) (rret anch))))"

text \<open>Whether the node and what follows it match at the position. The text serves as the source of the
  new regex.\<close>

definition part_match_with :: "nat \<Rightarrow> accept_rec \<Rightarrow> rptr \<Rightarrow> nat \<Rightarrow> bool ract" where
  "part_match_with n acc node string =
     rbnd (rgets rs_text) (\<lambda>text.
     rbnd (dup_node node) (\<lambda>beg.
     rbnd (insert_bol_anchor n beg) (\<lambda>bol.
     rbnd (new_program_node n) (\<lambda>program.
     rthn (set_node bol (\<lambda>nd. nd\<lparr>rn_parent := program\<rparr>))
     (rthn (set_node beg (\<lambda>nd. nd\<lparr>rn_parent := program\<rparr>))
     (rthn (set_node program (\<lambda>nd. nd\<lparr>rn_children := bol\<rparr>))
     (rbnd (match_with n acc ((regex_init_from (drop string text) None)\<lparr>re_node := program\<rparr>) string) (\<lambda>md.
      rret (md_matched md \<and> md_start md = 0)))))))))"

fun node_accepts_ch :: "nat \<Rightarrow> accept_rec" where
  "node_accepts_ch 0 node cptr nnext = rstop RFuel"
| "node_accepts_ch (Suc n) node cptr nnext =
     accepts_with n (node_accepts_ch n) (part_match_with n (node_accepts_ch n)) node cptr nnext"

definition regex_part_match_beg :: "nat \<Rightarrow> rptr \<Rightarrow> nat \<Rightarrow> bool ract" where
  "regex_part_match_beg n = part_match_with n (node_accepts_ch n)"

definition regex_match :: "nat \<Rightarrow> regex \<Rightarrow> nat \<Rightarrow> matchdata ract" where
  "regex_match n = match_with n (node_accepts_ch n)"

text \<open>A pattern that is compiled and matched with a text, as regex.c does it.\<close>

definition compile_state :: "bytes \<Rightarrow> bytes \<Rightarrow> rstate" where
  "compile_state pattern text = \<lparr>rs_nodes = [], rs_regex = regex_init pattern None, rs_text = text, rs_begOrNode = None\<rparr>"

definition match_pattern :: "nat \<Rightarrow> bytes \<Rightarrow> bytes \<Rightarrow> regex_stop + matchdata option" where
  "match_pattern n pattern text =
     (case regex_compile n (compile_state pattern text) of Inl e \<Rightarrow> Inl e
      | Inr (r, s) \<Rightarrow> if r \<noteq> REGEX_COMPILE_SUCCESS then Inr None
          else (case regex_match n (rs_regex s) 0 s of Inl e \<Rightarrow> Inl e | Inr (md, s1) \<Rightarrow> Inr (Some md)))"

subsection \<open>Printing the tree\<close>

definition rnodeTypeName :: "rnode_type \<Rightarrow> bytes" where
  "rnodeTypeName type = (case type of
       NODE_ATOM \<Rightarrow> ascii ''ATOM'' | NODE_GROUP \<Rightarrow> ascii ''GROUP'' | NODE_OR \<Rightarrow> ascii ''OR''
     | NODE_REPEAT \<Rightarrow> ascii ''REPEAT'' | NODE_REPEAT_NONGREEDY \<Rightarrow> ascii ''REPEAT_NONGREEDY''
     | NODE_REPEAT_Z \<Rightarrow> ascii ''REPEAT_Z'' | NODE_REPEAT_Z_NONGREEDY \<Rightarrow> ascii ''REPEAT_Z_NONGREEDY''
     | NODE_MAYBE \<Rightarrow> ascii ''MAYBE'' | NODE_REPEAT_N \<Rightarrow> ascii ''REPEAT_N'' | NODE_CCLASS \<Rightarrow> ascii ''CCLASS''
     | NODE_ECLASS \<Rightarrow> ascii ''ECLASS'' | NODE_ANCHOR \<Rightarrow> ascii ''ANCHOR'' | NODE_DOT \<Rightarrow> ascii ''DOT''
     | NODE_PROGRAM \<Rightarrow> ascii ''PROGRAM'')"

definition indent_text :: "nat \<Rightarrow> bytes" where "indent_text indent = replicate (2 * indent) 32"

text \<open>The characters that a precision of n prints from a position of the pattern: up to the NUL.\<close>

fun pat_text :: "nat \<Rightarrow> nat \<Rightarrow> bytes ract" where
  "pat_text p 0 = rret []"
| "pat_text p (Suc n) = rbnd (pat_at p) (\<lambda>c. if c = 0 then rret [] else rbnd (pat_text (p + 1) n) (\<lambda>t. rret (c # t)))"

definition print_tok :: "rptr \<Rightarrow> nat \<Rightarrow> bytes ract" where
  "print_tok tok n = (case tok of None \<Rightarrow> rstop RNull | Some p \<Rightarrow> pat_text p n)"

definition output_children :: "nat \<Rightarrow> (rptr \<Rightarrow> bytes ract) \<Rightarrow> rptr \<Rightarrow> bytes ract" where
  "output_children n rec children = rloop n (\<lambda>(child, out).
     if child = None then rret (Inr out)
     else rbnd (rec child) (\<lambda>o1. rbnd (rfield rn_next child) (\<lambda>nx. rret (Inl (nx, out @ o1))))) (children, [])"

text \<open>A node around its children, with the word that follows the parenthesis.\<close>

definition output_nested :: "nat \<Rightarrow> (rptr \<Rightarrow> bytes ract) \<Rightarrow> rnode \<Rightarrow> nat \<Rightarrow> bytes \<Rightarrow> bytes ract" where
  "output_nested n rec nd indent word =
     rbnd (output_children n rec (rn_children nd)) (\<lambda>out.
     rret (indent_text indent @ ascii ''('' @ word @ out @ indent_text indent @ ascii '')'' @ [nl]))"

definition output_node_with :: "nat \<Rightarrow> (rptr \<Rightarrow> rptr \<Rightarrow> nat \<Rightarrow> bytes ract) \<Rightarrow> rptr \<Rightarrow> rptr \<Rightarrow> nat \<Rightarrow> bytes ract" where
  "output_node_with n rec node parent indent =
     rbnd (node_at node) (\<lambda>nd.
     let sub = (\<lambda>child. rec child node (indent + 1)); pre = indent_text indent in
     case rn_type nd of
       NODE_PROGRAM \<Rightarrow> rbnd (output_children n sub (rn_children nd)) (\<lambda>out.
         rret (ascii ''(program'' @ (if rn_children nd = None then ascii '')'' else []) @ [nl] @ out @ ascii '')'' @ [nl]))
     | NODE_ATOM \<Rightarrow> rbnd (print_tok (rn_tok nd) 1) (\<lambda>t. rbnd (rfield rn_type parent) (\<lambda>ptype.
         rbnd (if rn_next nd = None then rret (ascii ''NULL'')
               else rbnd (rfield rn_type (rn_next nd)) (\<lambda>ty. rret (rnodeTypeName ty))) (\<lambda>nx.
         rret (pre @ ascii ''(atom '' @ t @ ascii '')'' @ ascii ''  parent = '' @ rnodeTypeName ptype @ ascii '', next = '' @ nx @ [nl]))))
     | NODE_OR \<Rightarrow> output_nested n sub nd indent (ascii ''alt'' @ [nl])
     | NODE_MAYBE \<Rightarrow> output_nested n sub nd indent (ascii ''maybe'' @ [nl])
     | NODE_GROUP \<Rightarrow> output_nested n sub nd indent (ascii ''group'' @ [nl])
     | NODE_REPEAT \<Rightarrow> output_nested n sub nd indent (ascii ''repeat'' @ [nl])
     | NODE_REPEAT_NONGREEDY \<Rightarrow> output_nested n sub nd indent (ascii ''repeat?'' @ [nl])
     | NODE_REPEAT_Z \<Rightarrow> output_nested n sub nd indent (ascii ''repeat-z'' @ [nl])
     | NODE_REPEAT_Z_NONGREEDY \<Rightarrow> output_nested n sub nd indent (ascii ''repeat-z?'' @ [nl])
     | NODE_REPEAT_N \<Rightarrow> output_nested n sub nd indent (ascii ''repeat-n '' @ decimal_int (rn_repeat_min nd) @ ascii ''-'' @
         decimal_int (rn_repeat_max nd) @ [nl])
     | NODE_CCLASS \<Rightarrow> rbnd (print_tok (map_option Suc (rn_tok nd)) (nat (rn_toklen nd - 1))) (\<lambda>t.
         rret (pre @ ascii ''(cclass'' @ [nl] @ indent_text (indent + 1) @ ascii ''['' @ t @ ascii '']'' @ [nl] @ pre @ ascii '')'' @ [nl]))
     | NODE_ECLASS \<Rightarrow> rret (pre @ ascii ''(eclass '' @ [bslash] @
         ascii (if rn_eclass_type nd = ECLASS_DIGIT then ''d'' else if rn_eclass_type nd = ECLASS_WORD then ''w'' else ''s'') @
         ascii '')'' @ [nl])
     | NODE_DOT \<Rightarrow> rret (pre @ ascii ''(dot)'' @ [nl])
     | NODE_ANCHOR \<Rightarrow> rbnd (case rn_tok nd of None \<Rightarrow> rret (ch CHR ''^'') | Some p \<Rightarrow> pat_at p) (\<lambda>c.
         rret (pre @ ascii ''(anchor '' @ [c] @ ascii '')'' @ [nl])))"

fun regex_output_ast_node :: "nat \<Rightarrow> rptr \<Rightarrow> rptr \<Rightarrow> nat \<Rightarrow> bytes ract" where
  "regex_output_ast_node 0 node parent indent = rstop RFuel"
| "regex_output_ast_node (Suc n) node parent indent = output_node_with n (regex_output_ast_node n) node parent indent"

text \<open>Without a tree the code prints a note and then follows the null pointer.\<close>

definition regex_output_ast :: "nat \<Rightarrow> bytes ract" where
  "regex_output_ast n = rbnd (rgets (\<lambda>s. re_node (rs_regex s))) (\<lambda>node. regex_output_ast_node n node None 0)"

end
