(* ===== verification/Clox_Regex_Laws.thy ===== *)
theory Clox_Regex_Laws
  imports Clox_Regex
begin

text \<open>What the regular expressions keep of their state: a logic for actions that never read outside of
  the pattern or the text, its rules for the functions that change the links of nodes, in a locale on
  the invariant, and those for the parser and the matcher.\<close>

subsection \<open>Actions that stay in bounds\<close>

lemma rbnd_assoc: "rbnd (rbnd m f) g = rbnd m (\<lambda>a. rbnd (f a) g)"
  by (rule ext) (simp add: rbnd_def split: sum.split prod.split)

named_theorems in_bounds_rules

definition runs :: "(rstate \<Rightarrow> bool) \<Rightarrow> 'a ract \<Rightarrow> ('a \<Rightarrow> rstate \<Rightarrow> bool) \<Rightarrow> bool" where
  "runs P m Q \<longleftrightarrow> (\<forall>s. P s \<longrightarrow> (case m s of Inl e \<Rightarrow> e \<noteq> RBounds | Inr (a, s1) \<Rightarrow> Q a s1))"

lemma runsI:
  "(\<And>s. P s \<Longrightarrow> m s \<noteq> Inl RBounds) \<Longrightarrow> (\<And>s a s1. P s \<Longrightarrow> m s = Inr (a, s1) \<Longrightarrow> Q a s1) \<Longrightarrow> runs P m Q"
  unfolding runs_def by (auto split: sum.splits prod.splits)

lemma runsD: "runs P m Q \<Longrightarrow> P s \<Longrightarrow> m s \<noteq> Inl RBounds"
  unfolding runs_def by fastforce

lemma runs_result: "runs P m Q \<Longrightarrow> P s \<Longrightarrow> m s = Inr (a, s1) \<Longrightarrow> Q a s1"
  unfolding runs_def by fastforce

lemma runs_bnd: "runs P m R \<Longrightarrow> (\<And>a. runs (R a) (f a) Q) \<Longrightarrow> runs P (rbnd m f) Q"
proof (intro runsI)
  fix s assume m: "runs P m R" and f: "\<And>a. runs (R a) (f a) Q" and s: "P s"
  show "rbnd m f s \<noteq> Inl RBounds"
    using runsD [OF m s] runs_result [OF m s] runsD [OF f] by (auto simp: rbnd_def split: sum.splits)
next
  fix s a s1 assume m: "runs P m R" and f: "\<And>a. runs (R a) (f a) Q" and s: "P s" and r: "rbnd m f s = Inr (a, s1)"
  show "Q a s1"
    using runs_result [OF m s] runs_result [OF f] r by (fastforce simp: rbnd_def split: sum.splits)
qed

lemma runs_weaken: "runs P m Q \<Longrightarrow> (\<And>s. P1 s \<Longrightarrow> P s) \<Longrightarrow> (\<And>a s. Q a s \<Longrightarrow> Q1 a s) \<Longrightarrow> runs P1 m Q1"
  unfolding runs_def by (fastforce split: sum.splits prod.splits)

lemma runs_pure: "(b \<Longrightarrow> runs P m Q) \<Longrightarrow> runs (\<lambda>s. P s \<and> b) m Q"
  unfolding runs_def by auto

lemma runs_ex: "(\<And>i. runs (P i) m Q) \<Longrightarrow> runs (\<lambda>s. \<exists>i. P i s) m Q"
  unfolding runs_def by auto

text \<open>An invariant J and a result that needs no state to be described.\<close>

definition in_bounds :: "(rstate \<Rightarrow> bool) \<Rightarrow> 'a ract \<Rightarrow> ('a \<Rightarrow> bool) \<Rightarrow> bool" where
  "in_bounds J m \<phi> \<longleftrightarrow> runs J m (\<lambda>a s. J s \<and> \<phi> a)"

lemma in_boundsI:
  "(\<And>s. J s \<Longrightarrow> m s \<noteq> Inl RBounds) \<Longrightarrow> (\<And>s a s1. J s \<Longrightarrow> m s = Inr (a, s1) \<Longrightarrow> J s1 \<and> \<phi> a) \<Longrightarrow> in_bounds J m \<phi>"
  unfolding in_bounds_def by (rule runsI)

lemma in_boundsD: "in_bounds J m \<phi> \<Longrightarrow> J s \<Longrightarrow> m s \<noteq> Inl RBounds"
  unfolding in_bounds_def by (rule runsD)

lemma in_bounds_result: "in_bounds J m \<phi> \<Longrightarrow> J s \<Longrightarrow> m s = Inr (a, s1) \<Longrightarrow> J s1 \<and> \<phi> a"
  unfolding in_bounds_def by (rule runs_result)

lemma in_bounds_weaken: "in_bounds J m \<phi> \<Longrightarrow> (\<And>a. \<phi> a \<Longrightarrow> \<psi> a) \<Longrightarrow> in_bounds J m \<psi>"
  unfolding in_bounds_def by (erule runs_weaken) auto

lemma in_bounds_bnd: "in_bounds J m \<phi> \<Longrightarrow> (\<And>a. \<phi> a \<Longrightarrow> in_bounds J (f a) \<psi>) \<Longrightarrow> in_bounds J (rbnd m f) \<psi>"
  unfolding in_bounds_def by (erule runs_bnd) (rule runs_pure)

lemma in_bounds_thn [in_bounds_rules]:
  "in_bounds J m (\<lambda>_. True) \<Longrightarrow> in_bounds J n \<psi> \<Longrightarrow> in_bounds J (rthn m n) \<psi>"
  unfolding rthn_def by (rule in_bounds_bnd)

lemma in_bounds_ret [in_bounds_rules]: "\<phi> a \<Longrightarrow> in_bounds J (rret a) \<phi>"
  by (simp add: in_bounds_def runs_def rret_def)

lemma in_bounds_stop [in_bounds_rules]: "e \<noteq> RBounds \<Longrightarrow> in_bounds J (rstop e) \<phi>"
  by (simp add: in_bounds_def runs_def rstop_def)

lemma in_bounds_skip [in_bounds_rules]: "\<phi> () \<Longrightarrow> in_bounds J rskip \<phi>"
  unfolding rskip_def by (rule in_bounds_ret)

lemma in_bounds_when [in_bounds_rules]:
  "(b \<Longrightarrow> in_bounds J m (\<lambda>_. True)) \<Longrightarrow> in_bounds J (rwhen b m) (\<lambda>_. True)"
  by (simp add: rwhen_def in_bounds_rules)

lemma in_bounds_assert [in_bounds_rules]: "in_bounds J (rassert b) (\<lambda>_. True)"
  by (simp add: rassert_def in_bounds_rules)

lemma in_bounds_gets: "(\<And>s. J s \<Longrightarrow> \<phi> (f s)) \<Longrightarrow> in_bounds J (rgets f) \<phi>"
  by (simp add: in_bounds_def runs_def rgets_def)

lemma in_bounds_if [in_bounds_rules]:
  "(b \<Longrightarrow> in_bounds J m \<phi>) \<Longrightarrow> (\<not> b \<Longrightarrow> in_bounds J n \<phi>) \<Longrightarrow> in_bounds J (if b then m else n) \<phi>"
  by simp

lemma in_bounds_loop:
  assumes "\<And>a. K a \<Longrightarrow> in_bounds J (body a) (\<lambda>r. case r of Inl a1 \<Rightarrow> K a1 | Inr b \<Rightarrow> \<phi> b)" "K a"
  shows "in_bounds J (rloop n body a) \<phi>"
  using assms(2)
proof (induction n arbitrary: a)
  case (Suc n)
  have "in_bounds J (case r of Inl a1 \<Rightarrow> rloop n body a1 | Inr b \<Rightarrow> rret b) \<phi>"
    if "case r of Inl a1 \<Rightarrow> K a1 | Inr b \<Rightarrow> \<phi> b" for r
    using that by (cases r) (auto intro: Suc.IH in_bounds_ret)
  then show ?case
    by (auto intro: in_bounds_bnd assms(1) Suc.prems)
qed (simp add: in_bounds_stop)

subsection \<open>Invariants that do not speak of links\<close>

definition node_key :: "rnode \<Rightarrow> nat option \<times> int \<times> rnode_type" where
  "node_key nd = (rn_tok nd, rn_toklen nd, rn_type nd)"

definition same_keys :: "rstate \<Rightarrow> rstate \<Rightarrow> bool" where
  "same_keys s s1 \<longleftrightarrow> rs_text s1 = rs_text s \<and> re_src (rs_regex s1) = re_src (rs_regex s) \<and>
     map node_key (rs_nodes s1) = map node_key (rs_nodes s)"

lemma same_keys_set_node:
  "i < length (rs_nodes s) \<Longrightarrow> node_key nd = node_key (rs_nodes s ! i) \<Longrightarrow>
     same_keys s (s\<lparr>rs_nodes := (rs_nodes s)[i := nd]\<rparr>)"
  by (auto simp: same_keys_def map_update intro!: list_update_same_conv[THEN iffD2])

locale link_invariant =
  fixes J :: "rstate \<Rightarrow> bool" and pat subj :: bytes
  assumes same: "J s \<Longrightarrow> same_keys s s1 \<Longrightarrow> J s1"
    and pattern: "J s \<Longrightarrow> re_src (rs_regex s) = Some pat"
    and string: "J s \<Longrightarrow> rs_text s = subj"
begin

lemma node_at_ok: "in_bounds J (node_at x) (\<lambda>_. True)"
  by (intro in_boundsI) (auto simp: node_at_def split: option.splits if_splits)

lemma rfield_ok: "in_bounds J (rfield f x) (\<lambda>_. True)"
  unfolding rfield_def by (intro in_bounds_bnd [OF node_at_ok] in_bounds_rules TrueI)

lemma set_node_ok: "(\<And>nd. node_key (f nd) = node_key nd) \<Longrightarrow> in_bounds J (set_node x f) (\<lambda>_. True)"
  by (intro in_boundsI)
    (auto simp: set_node_def node_at_def rbnd_def rmodify_def rstop_def
      intro: same same_keys_set_node split: option.splits if_splits)

lemma regs_ok:
  "in_bounds J (set_begOrNode b) (\<lambda>_. True)" "in_bounds J (regex_add_group g) (\<lambda>_. True)"
  "in_bounds J (rmodify (\<lambda>s. s\<lparr>rs_regex := (rs_regex s)\<lparr>re_node := b\<rparr>\<rparr>)) (\<lambda>_. True)"
  "in_bounds J (rgets h) (\<lambda>_. True)"
  by (intro in_boundsI; clarsimp simp: set_begOrNode_def regex_add_group_def rmodify_def rgets_def;
      erule same; simp add: same_keys_def)+

lemmas link_steps = in_bounds_rules TrueI in_bounds_bnd [OF rfield_ok] set_node_ok regs_ok in_bounds_bnd [OF regs_ok(4)]

lemma pat_at_ok: "i \<le> length pat \<Longrightarrow> in_bounds J (pat_at i) (\<lambda>c. c \<noteq> 0 \<longrightarrow> i < length pat)"
  by (intro in_boundsI; frule pattern)
    (auto simp: pat_at_def rbnd_def rgets_def char_of_def rret_def rstop_def split: if_splits)

lemma text_at_ok: "i \<le> length subj \<Longrightarrow> in_bounds J (text_at i) (\<lambda>c. c \<noteq> 0 \<longrightarrow> i < length subj)"
  by (intro in_boundsI; frule string)
    (auto simp: text_at_def rbnd_def rgets_def char_of_def rret_def rstop_def split: if_splits)

lemma last_sibling_ok: "in_bounds J (last_sibling n l) (\<lambda>_. True)"
  unfolding last_sibling_def by (rule in_bounds_loop [where K = "\<lambda>_. True"]) (auto intro!: link_steps)

lemma node_add_child_ok: "in_bounds J (node_add_child n a b) (\<lambda>_. True)"
  unfolding node_add_child_def
  by (intro link_steps in_bounds_bnd [OF last_sibling_ok]) (simp_all add: node_key_def)

lemma unlink_ok: "in_bounds J (unlink a b) (\<lambda>_. True)"
  unfolding unlink_def by (intro link_steps) (simp_all add: node_key_def)

lemma node_remove_child_ok: "in_bounds J (node_remove_child n a b) (\<lambda>_. True)"
  unfolding node_remove_child_def
  by (intro link_steps in_bounds_loop [where K = "\<lambda>_. True"] in_bounds_bnd [OF unlink_ok])
    (simp_all add: node_key_def split: sum.splits)

lemma adopt_chain_ok: "in_bounds J (adopt_chain n a b c) (\<lambda>_. True)"
  unfolding adopt_chain_def
  by (intro link_steps in_bounds_loop [where K = "\<lambda>_. True"]) (simp_all add: node_key_def split: sum.splits)

lemma wrap_prev_ok: "in_bounds J (wrap_prev n a b c) (\<lambda>_. True)"
  unfolding wrap_prev_def
  by (intro link_steps node_add_child_ok) (simp_all add: node_key_def)

lemma blank_out_ok: "in_bounds J (blank_out gs) (\<lambda>_. True)"
  by (induction gs) (auto intro!: link_steps simp: node_key_def)

end

subsection \<open>Nodes within the pattern\<close>

definition key_within :: "bytes \<Rightarrow> nat option \<times> int \<times> rnode_type \<Rightarrow> bool" where
  "key_within p k = (case k of (tok, len, type) \<Rightarrow>
     \<forall>t. tok = Some t \<longrightarrow> int t + (if type = NODE_CCLASS then len else 0) \<le> int (length p))"

definition within :: "bytes \<Rightarrow> bytes \<Rightarrow> rstate \<Rightarrow> bool" where
  "within pat subj s \<longleftrightarrow> re_src (rs_regex s) = Some pat \<and> rs_text s = subj \<and>
     (\<forall>k \<in> set (map node_key (rs_nodes s)). key_within pat k)"

definition class_at :: "nat \<Rightarrow> nat \<Rightarrow> nat \<Rightarrow> rstate \<Rightarrow> bool" where
  "class_at i p q s \<longleftrightarrow> i < length (rs_nodes s) \<and> p \<le> q \<and> node_key (rs_nodes s ! i) = (Some p, int q - int p, NODE_CCLASS)"

lemma class_at_same: "class_at i p q s \<Longrightarrow> same_keys s s1 \<Longrightarrow> class_at i p q s1"
  unfolding class_at_def same_keys_def by (metis length_map nth_map)

interpretation wi: link_invariant "within pat subj" pat subj
  by unfold_locales (auto simp: within_def same_keys_def simp del: set_map)

interpretation cl: link_invariant "\<lambda>s. within pat subj s \<and> class_at i p q s" pat subj
  by unfold_locales (auto intro: class_at_same wi.same dest: wi.pattern wi.string)

definition place_node :: "nat \<Rightarrow> int \<Rightarrow> rptr \<Rightarrow> rptr \<Rightarrow> rptr \<Rightarrow> rptr ract" where
  "place_node n toklen parent prev node =
     rthn (rwhen (parent \<noteq> None) (set_node parent (\<lambda>nd. nd\<lparr>rn_nodelen := rn_nodelen nd + toklen\<rparr>)))
     (rthn (rwhen (prev \<noteq> None) (set_node prev (\<lambda>nd. nd\<lparr>rn_next := node\<rparr>)))
     (rthn (rwhen (parent \<noteq> None \<and> prev = None) (node_add_child n parent node))
      (rret node)))"

lemma new_node_place:
  "new_node n type tok toklen parent prev =
     rbnd (alloc_node (fresh_node type tok toklen parent prev)) (place_node n toklen parent prev)"
  by (simp add: new_node_def place_node_def [abs_def])

context link_invariant begin

lemma place_node_ok: "in_bounds J (place_node n toklen parent prev node) (\<lambda>r. r = node)"
  unfolding place_node_def
  by (intro in_bounds_rules set_node_ok node_add_child_ok) (simp_all add: node_key_def)

end

lemma alloc_node_ok:
  "key_within pat (node_key nd) \<Longrightarrow> in_bounds (within pat subj) (alloc_node nd) (\<lambda>_. True)"
  by (intro in_boundsI) (auto simp: alloc_node_def within_def)

lemma new_node_ok:
  assumes "\<And>t. tok = Some t \<Longrightarrow> int t + (if type = NODE_CCLASS then toklen else 0) \<le> int (length pat)"
  shows "in_bounds (within pat subj) (new_node n type tok toklen parent prev) (\<lambda>_. True)"
  unfolding new_node_place using assms
  by (intro in_bounds_bnd [OF alloc_node_ok] in_bounds_weaken [OF wi.place_node_ok])
    (auto simp: node_key_def fresh_node_def key_within_def)

lemmas new_atom_ok = new_node_ok [where type = NODE_ATOM, simplified]

lemmas parser_steps = wi.link_steps in_bounds_bnd [OF new_node_ok] in_bounds_bnd [OF wi.pat_at_ok] wi.wrap_prev_ok

subsection \<open>The parser stays in the pattern\<close>

text \<open>What a parse function promises: the position it returns is in the pattern.\<close>

abbreviation position_in :: "bytes \<Rightarrow> rparse_result \<Rightarrow> bool" where
  "position_in pat r \<equiv> fst (snd r) \<le> length pat"

definition parse_rec_ok :: "bytes \<Rightarrow> bytes \<Rightarrow> parse_rec \<Rightarrow> bool" where
  "parse_rec_ok pat subj rec \<longleftrightarrow> (\<forall>parent prev p err. p \<le> length pat \<longrightarrow>
     in_bounds (within pat subj) (rec parent prev p err) (position_in pat))"

lemma no_node_ok: "p \<le> length pat \<Longrightarrow> in_bounds J (no_node p err) (position_in pat)"
  by (simp add: no_node_def in_bounds_ret)

lemma parse_anchor_ok:
  "p < length pat \<Longrightarrow> in_bounds (within pat subj) (parse_anchor n c parent prev p err) (position_in pat)"
  unfolding parse_anchor_def by (intro parser_steps) (auto simp: node_key_def)

lemma parse_single_ok:
  "p < length pat \<Longrightarrow> type \<noteq> NODE_CCLASS \<Longrightarrow> in_bounds (within pat subj) (parse_single n type parent prev p err) (position_in pat)"
  unfolding parse_single_def by (intro parser_steps) auto

lemma parse_repeat_ok:
  "p < length pat \<Longrightarrow> NODE_CCLASS \<notin> {a, b} \<Longrightarrow>
     in_bounds (within pat subj) (parse_repeat n a b parent prev p err) (position_in pat)"
  unfolding parse_repeat_def Let_def
  by (intro parser_steps no_node_ok in_bounds_bnd [where \<phi> = "\<lambda>_. True"] new_node_ok) auto

lemma parse_maybe_ok:
  "p < length pat \<Longrightarrow> in_bounds (within pat subj) (parse_maybe n parent prev p err) (position_in pat)"
  unfolding parse_maybe_def by (intro parser_steps no_node_ok) auto

lemma strtol10_length: "strtol10 t = (v, k, r) \<Longrightarrow> k \<le> length t"
proof -
  assume r: "strtol10 t = (v, k, r)"
  define ws where "ws = length (takeWhile isspace t)"
  define sg where "sg = (case drop ws t of c # _ \<Rightarrow> if c = ch CHR ''-'' \<or> c = ch CHR ''+'' then 1 else 0 | [] \<Rightarrow> (0::nat))"
  define ds where "ds = takeWhile isDigit (drop sg (drop ws t))"
  have "ws \<le> length t" by (simp add: ws_def length_takeWhile_le)
  moreover have "sg \<le> length (drop ws t)" unfolding sg_def by (cases "drop ws t") auto
  moreover have "length ds \<le> length (drop sg (drop ws t))" unfolding ds_def by (rule length_takeWhile_le)
  moreover have "k = (if ds = [] then 0 else ws + sg + length ds)"
    using r by (simp add: strtol10_def Let_def ws_def [symmetric] sg_def [symmetric] ds_def [symmetric] del: drop_drop split: if_splits)
  ultimately show ?thesis by auto
qed

lemma strtol_at_ok:
  "p \<le> length pat \<Longrightarrow> in_bounds (within pat subj) (strtol_at p) (\<lambda>r. fst (snd r) \<le> length pat)"
  by (intro in_boundsI; frule wi.pattern)
    (auto simp: strtol_at_def rbnd_def rgets_def rret_def split: prod.splits dest!: strtol10_length)

lemma add_repeat_n_ok:
  "p < length pat \<Longrightarrow> in_bounds (within pat subj) (add_repeat_n n parent prev a b p err) (position_in pat)"
  unfolding add_repeat_n_def by (intro parser_steps) (auto simp: node_key_def)

lemma parse_repeat_n_ok:
  assumes "p < length pat"
  shows "in_bounds (within pat subj) (parse_repeat_n n parent prev p err) (position_in pat)"
proof -
  have second: "in_bounds (within pat subj)
     (case r of (lval2, p2, range2) \<Rightarrow> rbnd (pat_at p2) (\<lambda>c2.
         if range2 \<or> lval2 < lval1 \<or> c2 = 0 then no_node (p1 + 1) (-1)
         else add_repeat_n n parent prev lval1 lval2 p2 err)) (position_in pat)"
    if "fst (snd r) \<le> length pat" "p1 < length pat" for r lval1 p1
    using that by (cases r) (auto intro!: parser_steps no_node_ok add_repeat_n_ok)
  have first: "in_bounds (within pat subj)
     (case r of (lval1, p1, range1) \<Rightarrow> rbnd (pat_at p1) (\<lambda>c.
       if range1 \<or> c = 0 then no_node (p + 1) (-1)
       else if c = ch CHR ''}'' then add_repeat_n n parent prev lval1 lval1 p1 err
       else if c \<noteq> ch CHR '','' then no_node p1 (-1)
       else rbnd (strtol_at (p1 + 1)) (\<lambda>(lval2, p2, range2).
         rbnd (pat_at p2) (\<lambda>c2.
         if range2 \<or> lval2 < lval1 \<or> c2 = 0 then no_node (p1 + 1) (-1)
         else add_repeat_n n parent prev lval1 lval2 p2 err)))) (position_in pat)"
    if "fst (snd r) \<le> length pat" for r
    using that assms
    by (cases r) (auto intro!: parser_steps no_node_ok add_repeat_n_ok in_bounds_bnd [OF strtol_at_ok] second)
  show ?thesis
    unfolding parse_repeat_n_def using assms
    by (intro in_bounds_if no_node_ok in_bounds_bnd [OF strtol_at_ok] first) auto
qed

subsection \<open>Text in brackets\<close>

lemma class_at_longer:
  "class_at i p q s \<Longrightarrow> q < length pat \<Longrightarrow> within pat subj s \<Longrightarrow>
     set_node (Some i) (\<lambda>nd. nd\<lparr>rn_toklen := rn_toklen nd + 1\<rparr>) s =
       Inr ((), s\<lparr>rs_nodes := (rs_nodes s)[i := (rs_nodes s ! i)\<lparr>rn_toklen := rn_toklen (rs_nodes s ! i) + 1\<rparr>]\<rparr>) \<and>
     class_at i p (q + 1) (s\<lparr>rs_nodes := (rs_nodes s)[i := (rs_nodes s ! i)\<lparr>rn_toklen := rn_toklen (rs_nodes s ! i) + 1\<rparr>]\<rparr>) \<and>
     within pat subj (s\<lparr>rs_nodes := (rs_nodes s)[i := (rs_nodes s ! i)\<lparr>rn_toklen := rn_toklen (rs_nodes s ! i) + 1\<rparr>]\<rparr>)"
  by (auto simp: class_at_def within_def node_key_def key_within_def set_node_def node_at_def rbnd_def rmodify_def
      dest!: set_update_subset_insert [THEN subsetD])

lemma cclass_end_ok:
  "q \<le> length pat \<Longrightarrow> runs (\<lambda>s. within pat subj s \<and> class_at i p q s) (cclass_end n (Some i) (q, c0))
     (\<lambda>q1 s. within pat subj s \<and> q1 \<le> length pat)"
proof (induction n arbitrary: q c0)
  case (Suc n)
  have longer: "runs (\<lambda>s. within pat subj s \<and> class_at i p q s) (set_node (Some i) (\<lambda>nd. nd\<lparr>rn_toklen := rn_toklen nd + 1\<rparr>))
     (\<lambda>_ s. within pat subj s \<and> class_at i p (q + 1) s)" if "q < length pat"
    using class_at_longer [OF _ that] unfolding runs_def by fastforce
  have tail: "runs (\<lambda>s. within pat subj s \<and> class_at i p q s)
     (rbnd (if c \<noteq> 0 \<and> (c0 = bslash \<or> c \<noteq> ch CHR '']'') then
         rthn (set_node (Some i) (\<lambda>nd. nd\<lparr>rn_toklen := rn_toklen nd + 1\<rparr>)) (rret (Inl (q + 1, c)))
       else rret (Inr q)) (\<lambda>r. case r of Inl a1 \<Rightarrow> cclass_end n (Some i) a1 | Inr b \<Rightarrow> rret b))
     (\<lambda>q1 s. within pat subj s \<and> q1 \<le> length pat)" (is "runs _ _ ?Q") if "c \<noteq> 0 \<longrightarrow> q < length pat" for c
  proof (cases "c \<noteq> 0 \<and> (c0 = bslash \<or> c \<noteq> ch CHR '']'')")
    case True
    have "runs (\<lambda>s. within pat subj s \<and> class_at i p (q + 1) s)
       (rbnd (rret (Inl (q + 1, c))) (\<lambda>r. case r of Inl a1 \<Rightarrow> cclass_end n (Some i) a1 | Inr b \<Rightarrow> rret b)) ?Q"
      using Suc.IH [of "q + 1" c] that True by (simp add: runs_def rbnd_def rret_def)
    then have "runs (\<lambda>s. within pat subj s \<and> class_at i p q s)
       (rbnd (set_node (Some i) (\<lambda>nd. nd\<lparr>rn_toklen := rn_toklen nd + 1\<rparr>))
        (\<lambda>_. rbnd (rret (Inl (q + 1, c))) (\<lambda>r. case r of Inl a1 \<Rightarrow> cclass_end n (Some i) a1 | Inr b \<Rightarrow> rret b))) ?Q"
      using that True by (intro runs_bnd [OF longer]) auto
    then show ?thesis
      using True by (simp add: rthn_def rbnd_def [abs_def] sum.case_distrib prod.case_distrib split_def rret_def cong: sum.case_cong)
  next
    case False
    then show ?thesis using Suc.prems by (auto simp: runs_def rbnd_def rret_def)
  qed
  show ?case
    unfolding cclass_end_def rloop.simps split_conv rbnd_assoc
    by (rule runs_bnd [OF cl.pat_at_ok [unfolded in_bounds_def]], rule Suc.prems, rule runs_pure,
        rule tail [unfolded cclass_end_def])
qed (simp add: cclass_end_def rstop_def runs_def)

lemma parse_cclass_ok:
  assumes "p < length pat"
  shows "in_bounds (within pat subj) (parse_cclass n parent prev p err) (position_in pat)"
proof -
  define rest where "rest cclass = rbnd (pat_at (p + 1)) (\<lambda>c0. rbnd (cclass_end n cclass (p + 1, c0)) (\<lambda>p1.
     rbnd (pat_at p1) (\<lambda>c. if c = 0 then no_node p1 (-1) else rret (cclass, p1 + 1, err))))" for cclass
  define K where "K = (\<lambda>i s. within pat subj s \<and> class_at i p (p + 1) s)"
  let ?Q = "\<lambda>a s. within pat subj s \<and> position_in pat a"
  have tail: "runs (\<lambda>s. within pat subj s \<and> p1 \<le> length pat)
     (rbnd (pat_at p1) (\<lambda>c. if c = 0 then no_node p1 (-1) else rret (cclass, p1 + 1, err))) ?Q" for p1 cclass
    by (intro runs_pure, unfold in_bounds_def [symmetric]) (auto intro!: parser_steps no_node_ok)
  have rest: "runs (K i) (rest (Some i)) ?Q" for i
    unfolding rest_def K_def using assms
    by (intro runs_bnd [OF cl.pat_at_ok [unfolded in_bounds_def]] runs_pure runs_bnd [OF cclass_end_ok] tail) auto
  have place: "runs (K i) (rbnd (place_node n 1 parent prev (Some i)) rest) ?Q" for i
    unfolding K_def
    by (intro runs_bnd [OF cl.place_node_ok [unfolded in_bounds_def]] runs_pure) (erule ssubst, rule rest [unfolded K_def])
  have alloc: "runs (within pat subj) (alloc_node (fresh_node NODE_CCLASS (Some p) 1 parent prev))
      (\<lambda>r s. \<exists>i. K i s \<and> r = Some i)"
    using assms
    by (auto simp: runs_def K_def alloc_node_def class_at_def nth_append node_key_def fresh_node_def within_def key_within_def)
  have "parse_cclass n parent prev p err = rbnd (alloc_node (fresh_node NODE_CCLASS (Some p) 1 parent prev))
      (\<lambda>node. rbnd (place_node n 1 parent prev node) rest)"
    by (simp add: parse_cclass_def new_node_place rest_def [abs_def] rbnd_assoc)
  then show ?thesis
    unfolding in_bounds_def
    by (simp only:) (rule runs_bnd [OF alloc], intro runs_ex runs_pure, simp add: place)
qed

lemma parse_escape_ok:
  "p < length pat \<Longrightarrow> in_bounds (within pat subj) (parse_escape n parent prev p err) (position_in pat)"
  unfolding parse_escape_def by (intro parser_steps no_node_ok) (auto simp: node_key_def)

subsection \<open>Groups and alternatives\<close>

lemma group_children_ok:
  assumes "parse_rec_ok pat subj rec" "fst (snd v) \<le> length pat"
  shows "in_bounds (within pat subj) (group_children n rec grp v) (\<lambda>r. fst r \<le> length pat)"
  unfolding group_children_def
proof (rule in_bounds_loop [where K = "\<lambda>v. fst (snd v) \<le> length pat"])
  fix v :: rparse_result
  assume v: "fst (snd v) \<le> length pat"
  obtain child p err where "v = (child, p, err)" by (cases v)
  then show "in_bounds (within pat subj) (case v of (grp_child, p, err) \<Rightarrow>
     rbnd (pat_at p) (\<lambda>c. if c \<noteq> 0 \<and> c \<noteq> ch CHR '')'' then
       rbnd (rec grp grp_child p err) (\<lambda>(grp_child1, p1, err1).
       rthn (rwhen (grp_child = None) (set_begOrNode grp_child1)) (rret (Inl (grp_child1, p1, err1))))
     else rret (Inr (p, err)))) (\<lambda>r. case r of Inl a1 \<Rightarrow> position_in pat a1 | Inr b \<Rightarrow> fst b \<le> length pat)"
    using v assms(1) [unfolded parse_rec_ok_def, rule_format, of p grp child err]
    by (auto intro!: parser_steps in_bounds_bnd [where \<phi> = "position_in pat"])
qed (fact assms)

lemma parse_group_ok:
  assumes rec: "parse_rec_ok pat subj rec" and p: "p < length pat"
  shows "in_bounds (within pat subj) (parse_group n rec parent prev p err) (position_in pat)"
proof -
  have after: "in_bounds (within pat subj) (case r of (p1, err1) \<Rightarrow> if err1 \<noteq> 0 then no_node p1 err1
     else rbnd (pat_at p1) (\<lambda>c. if c \<noteq> 0 then rthn (rassert (c = ch CHR '')'')) (rthn (regex_add_group grp) (rret (grp, p1 + 1, err1)))
       else no_node p1 (-1))) (position_in pat)" if "fst r \<le> length pat" for r grp
    using that by (cases r) (auto intro!: parser_steps no_node_ok)
  show ?thesis
    unfolding parse_group_def using p
    by (intro in_bounds_bnd [OF new_node_ok] in_bounds_bnd [OF group_children_ok [OF rec]] after) auto
qed

lemma alt_nodes_ok:
  assumes "parse_rec_ok pat subj rec" "fst (snd v) \<le> length pat"
  shows "in_bounds (within pat subj) (alt_nodes n rec alt_grp lb v) (position_in pat)"
  unfolding alt_nodes_def
proof (rule in_bounds_loop [where K = "\<lambda>v. fst (snd v) \<le> length pat"])
  fix v :: "rptr \<times> nat \<times> int \<times> int"
  assume v: "fst (snd v) \<le> length pat"
  obtain alt p err i where "v = (alt, p, err, i)" by (cases v)
  then show "in_bounds (within pat subj) (case v of (alt, p, err, lastIdx) \<Rightarrow>
     rbnd (pat_at p) (\<lambda>c. if c = 0 \<or> c = ch CHR '')'' then rret (Inr (alt, p, err))
     else rbnd (rec alt_grp alt p err) (\<lambda>(alt1, p1, err1).
       if err1 \<noteq> 0 then rret (Inr (alt1, p1, err1))
       else rbnd (rgets rs_begOrNode) (\<lambda>beg.
         if beg \<noteq> lb \<and> lastIdx > 0 then rret (Inr (alt1, p1, err1))
         else rret (Inl (alt1, p1, err1, lastIdx + 1))))))
      (\<lambda>r. case r of Inl a1 \<Rightarrow> fst (snd a1) \<le> length pat | Inr b \<Rightarrow> position_in pat b)"
    using v assms(1) [unfolded parse_rec_ok_def, rule_format, of p alt_grp alt err]
    by (auto intro!: parser_steps in_bounds_bnd [where \<phi> = "position_in pat"])
qed (fact assms)

lemma parse_or_ok:
  assumes rec: "parse_rec_ok pat subj rec" and p: "p < length pat"
  shows "in_bounds (within pat subj) (parse_or n rec parent prev p err) (position_in pat)"
proof -
  have after: "in_bounds (within pat subj) (case r of (alt, p1, err1) \<Rightarrow> if err1 \<noteq> 0 then no_node p1 err1
       else rthn (rassert (alt \<noteq> None)) (rthn (set_begOrNode orNode) (rret (orNode, p1, err1)))) (position_in pat)"
    if "position_in pat r" for r orNode
    using that by (cases r) (auto intro!: parser_steps no_node_ok)
  show ?thesis
    unfolding parse_or_def using p
    by (intro in_bounds_bnd [OF alt_nodes_ok [OF rec]] parser_steps no_node_ok wi.node_remove_child_ok wi.adopt_chain_ok after)
      (auto simp: node_key_def)
qed

subsection \<open>Parsing and compiling\<close>

lemma parse_node_with_ok:
  assumes rec: "parse_rec_ok pat subj rec"
  shows "parse_rec_ok pat subj (parse_node_with n rec)"
  unfolding parse_rec_ok_def parse_node_with_def
  by (intro allI impI in_bounds_if no_node_ok in_bounds_bnd [OF wi.pat_at_ok] in_bounds_stop parse_anchor_ok
      parse_group_ok [OF rec] parse_or_ok [OF rec] parse_repeat_ok parse_maybe_ok parse_repeat_n_ok parse_cclass_ok
      parse_single_ok parse_escape_ok) auto

lemma regex_parse_node_ok: "parse_rec_ok pat subj (regex_parse_node n)"
proof (induction n)
  case 0
  then show ?case by (simp add: parse_rec_ok_def in_bounds_stop)
next
  case (Suc n)
  then show ?case using parse_node_with_ok [of pat subj "regex_parse_node n" n] by (simp add: parse_rec_ok_def)
qed

lemma parse_round_ok:
  assumes "snd v \<le> length pat"
  shows "in_bounds (within pat subj) (parse_round n program v) (\<lambda>r. case r of Inl a1 \<Rightarrow> snd a1 \<le> length pat | Inr b \<Rightarrow> True)"
proof -
  obtain prev p where "v = (prev, p)" by (cases v)
  then show ?thesis
    unfolding parse_round_def
    using assms regex_parse_node_ok [unfolded parse_rec_ok_def, rule_format, of p pat subj n program prev 0]
    by (auto intro!: parser_steps in_bounds_bnd [where \<phi> = "position_in pat"])
qed

lemma parse_nodes_ok: "snd v \<le> length pat \<Longrightarrow> in_bounds (within pat subj) (parse_nodes n program v) (\<lambda>_. True)"
  unfolding parse_nodes_def by (rule in_bounds_loop [where K = "\<lambda>v. snd v \<le> length pat", OF parse_round_ok])

lemma regex_compile_ok: "in_bounds (within pat subj) (regex_compile n) (\<lambda>_. True)"
  unfolding regex_compile_def regex_parse_def new_program_node_def
  by (intro parser_steps in_bounds_bnd [where \<phi> = "\<lambda>_. True"] parse_nodes_ok new_node_ok) simp_all

end
