(* ===== verification/Clox_Regex_Props.thy ===== *)
theory Clox_Regex_Props
  imports Clox_Regex_Laws "HOL-Library.Sublist"
begin

text \<open>The properties of the regular expressions: the matcher never leaves the text, and what literal
  patterns match.\<close>

subsection \<open>The matcher stays in the text\<close>

text \<open>A node that accepts moves forward in the text, and one that does not gives back the position.\<close>

definition moves :: "bytes \<Rightarrow> nat \<Rightarrow> accept_result \<Rightarrow> bool" where
  "moves subj cptr r = (case r of (a, c1, nn) \<Rightarrow> if a then cptr \<le> c1 \<and> c1 \<le> length subj else c1 = cptr)"

definition acc_ok :: "bytes \<Rightarrow> bytes \<Rightarrow> accept_rec \<Rightarrow> bool" where
  "acc_ok pat subj acc \<longleftrightarrow> (\<forall>node cptr nn. cptr \<le> length subj \<longrightarrow>
     in_bounds (within pat subj) (acc node cptr nn) (moves subj cptr))"

definition part_ok :: "bytes \<Rightarrow> bytes \<Rightarrow> (rptr \<Rightarrow> nat \<Rightarrow> bool ract) \<Rightarrow> bool" where
  "part_ok pat subj part \<longleftrightarrow> (\<forall>node c. c \<le> length subj \<longrightarrow> in_bounds (within pat subj) (part node c) (\<lambda>_. True))"

lemma acc_bnd:
  assumes "acc_ok pat subj acc" "cptr \<le> length subj"
    and "\<And>a c1 nn1. moves subj cptr (a, c1, nn1) \<Longrightarrow> in_bounds (within pat subj) (f (a, c1, nn1)) \<phi>"
  shows "in_bounds (within pat subj) (rbnd (acc node cptr nn) f) \<phi>"
  using assms by (auto simp: acc_ok_def intro!: in_bounds_bnd [where \<phi> = "moves subj cptr"])

lemma part_bnd:
  assumes "part_ok pat subj part" "c \<le> length subj" "\<And>m. in_bounds (within pat subj) (f m) \<phi>"
  shows "in_bounds (within pat subj) (rbnd (part node c) f) \<phi>"
  using assms by (auto simp: part_ok_def intro!: in_bounds_bnd [where \<phi> = "\<lambda>_. True"])

lemma node_at_within: "in_bounds (within pat subj) (node_at x) (\<lambda>nd. key_within pat (node_key nd))"
  by (intro in_boundsI) (auto simp: node_at_def within_def split: option.splits if_splits)

lemma SET_NEXT_NODE_ok: "in_bounds (within pat subj) (SET_NEXT_NODE node c) (\<lambda>_. True)"
  unfolding SET_NEXT_NODE_def
  by (intro wi.link_steps in_bounds_bnd [OF wi.node_at_ok] wi.rfield_ok) (auto simp: node_key_def)

lemma GET_NEXT_NODE_ok: "in_bounds (within pat subj) (GET_NEXT_NODE node) (\<lambda>_. True)"
  unfolding GET_NEXT_NODE_def
  by (intro wi.link_steps in_bounds_bnd [OF wi.node_at_ok] wi.rfield_ok)

lemma accept_at_ok:
  "cptr \<le> c \<Longrightarrow> c \<le> length subj \<Longrightarrow> in_bounds (within pat subj) (accept_at node c) (moves subj cptr)"
  unfolding accept_at_def by (intro in_bounds_bnd [OF SET_NEXT_NODE_ok] in_bounds_ret) (simp add: moves_def)

lemma reject_ok: "in_bounds J (reject cptr nn) (moves subj cptr)"
  unfolding reject_def by (intro in_bounds_ret) (simp add: moves_def)

lemma accepts_group_ok:
  assumes "acc_ok pat subj acc" "cptr \<le> length subj"
  shows "in_bounds (within pat subj) (accepts_group acc node nd cptr nn) (moves subj cptr)"
  unfolding accepts_group_def
  by (intro wi.link_steps acc_bnd [OF assms]) (auto intro!: wi.link_steps simp: node_key_def)

lemma accepts_anchor_ok:
  "cptr \<le> length subj \<Longrightarrow> in_bounds (within pat subj) (accepts_anchor nd c cptr nn) (moves subj cptr)"
  unfolding accepts_anchor_def
  by (cases "rn_anchor_type nd") (auto intro!: wi.link_steps reject_ok simp: moves_def)

lemma accepts_atom_ok:
  assumes "cptr < length subj" "key_within pat (node_key nd)" "rn_type nd = NODE_ATOM"
  shows "in_bounds (within pat subj) (accepts_atom node nd c cptr nn) (moves subj cptr)"
proof (cases "rn_tok nd")
  case (Some t)
  then have "t \<le> length pat" using assms(2,3) by (auto simp: key_within_def node_key_def)
  then show ?thesis
    unfolding accepts_atom_def Some option.case using assms(1)
    by (intro in_bounds_bnd [OF wi.pat_at_ok] in_bounds_if accept_at_ok reject_ok) auto
qed (simp add: accepts_atom_def in_bounds_stop)

lemma run_alternative_ok:
  assumes acc: "acc_ok pat subj acc" and c: "c0 \<le> fst (snd v)" "fst (snd v) \<le> length subj"
  shows "in_bounds (within pat subj) (run_alternative n acc v)
     (\<lambda>(a, c1, nn). a \<longrightarrow> c0 \<le> c1 \<and> c1 \<le> length subj)"
  unfolding run_alternative_def
proof (rule in_bounds_loop [where K = "\<lambda>v. c0 \<le> fst (snd v) \<and> fst (snd v) \<le> length subj"])
  fix v :: "rptr \<times> nat \<times> rptr"
  assume v: "c0 \<le> fst (snd v) \<and> fst (snd v) \<le> length subj"
  obtain child cptr nn where "v = (child, cptr, nn)" by (cases v)
  then show "in_bounds (within pat subj) (case v of (child, cptr, nnext) \<Rightarrow>
     rbnd (acc child cptr nnext) (\<lambda>(a, c1, nn1).
     if \<not> a \<or> nn1 = None then rret (Inr (a, c1, nn1))
     else rbnd (rfield rn_next nn1) (\<lambda>nn2. rret (Inl (nn1, c1, nn2)))))
     (\<lambda>r. case r of Inl v \<Rightarrow> c0 \<le> fst (snd v) \<and> fst (snd v) \<le> length subj
        | Inr (a, c1, nn) \<Rightarrow> a \<longrightarrow> c0 \<le> c1 \<and> c1 \<le> length subj)"
    using v by (auto intro!: acc_bnd [OF acc] wi.link_steps simp: moves_def)
qed (use c in simp)

lemma accepts_or_ok:
  assumes acc: "acc_ok pat subj acc" and c: "cptr \<le> length subj"
  shows "in_bounds (within pat subj) (accepts_or n acc nd cptr nn) (moves subj cptr)"
proof -
  have "in_bounds (within pat subj) (case r of (a, c1, nn1) \<Rightarrow> if a then rret (True, c1, nn1)
      else rbnd (run_alternative n acc (child2, cptr, nn1)) (\<lambda>(a2, c2, nn2).
        if a2 then rret (True, c2, nn2) else reject cptr nn2)) (moves subj cptr)"
    if "case r of (a, c1, nn) \<Rightarrow> a \<longrightarrow> cptr \<le> c1 \<and> c1 \<le> length subj" for r child2
    using that c
    by (cases r) (auto intro!: in_bounds_bnd [OF run_alternative_ok [OF acc, where ?c0.0 = cptr]] in_bounds_if
        in_bounds_ret reject_ok simp: moves_def)
  then show ?thesis
    unfolding accepts_or_def using c
    by (intro wi.link_steps in_bounds_bnd [OF run_alternative_ok [OF acc, where ?c0.0 = cptr]]) auto
qed

text \<open>What the loops of the repetitions keep.\<close>

definition repeat_in :: "bytes \<Rightarrow> nat \<Rightarrow> repeat_result \<Rightarrow> bool" where
  "repeat_in subj c0 r = (case r of (cptr, nn, count, big) \<Rightarrow>
     c0 \<le> cptr \<and> cptr \<le> length subj \<and> (count = 0 \<longrightarrow> cptr = c0) \<and> (\<forall>b. big = Some b \<longrightarrow> c0 \<le> b \<and> b \<le> length subj))"

lemma greedy_loop_ok:
  assumes acc: "acc_ok pat subj acc" and part: "part_ok pat subj part" and v: "repeat_in subj c0 v"
  shows "in_bounds (within pat subj) (greedy_loop n acc part child next v) (repeat_in subj c0)"
  unfolding greedy_loop_def
proof (rule in_bounds_loop [where K = "repeat_in subj c0"])
  fix v assume v: "repeat_in subj c0 v"
  obtain cptr nn count big where "v = (cptr, nn, count, big)" by (cases v)
  then show "in_bounds (within pat subj) (case v of (cptr, nnext, count, biggest) \<Rightarrow>
     rbnd (acc child cptr nnext) (\<lambda>(a, c1, nn1).
     if \<not> a then rret (Inr (c1, nn1, count, biggest))
     else if next = None then rret (Inl (c1, nn1, count + 1, biggest))
     else rbnd (part next c1) (\<lambda>m. rret (Inl (c1, nn1, count + 1, if m then Some c1 else biggest)))))
     (\<lambda>r. case r of Inl v \<Rightarrow> repeat_in subj c0 v | Inr v \<Rightarrow> repeat_in subj c0 v)"
    using v by (auto intro!: acc_bnd [OF acc] part_bnd [OF part] wi.link_steps simp: moves_def repeat_in_def)
qed (fact v)

lemma nongreedy_loop_ok:
  assumes acc: "acc_ok pat subj acc" and part: "part_ok pat subj part" and v: "repeat_in subj c0 v"
  shows "in_bounds (within pat subj) (nongreedy_loop n acc part child next v) (repeat_in subj c0)"
  unfolding nongreedy_loop_def
proof (rule in_bounds_loop [where K = "repeat_in subj c0"])
  fix v assume v: "repeat_in subj c0 v"
  obtain cptr nn count big where "v = (cptr, nn, count, big)" by (cases v)
  then show "in_bounds (within pat subj) (case v of (cptr, nnext, count, biggest) \<Rightarrow>
     rbnd (acc child cptr nnext) (\<lambda>(a, c1, nn1).
     if \<not> a then rret (Inr (c1, nn1, count, biggest))
     else if next = None then rret (Inl (c1, nn1, count + 1, biggest))
     else rbnd (part next c1) (\<lambda>m. rret (if m then Inr (c1, nn1, count + 1, Some c1)
                                          else Inl (c1, nn1, count + 1, biggest)))))
     (\<lambda>r. case r of Inl v \<Rightarrow> repeat_in subj c0 v | Inr v \<Rightarrow> repeat_in subj c0 v)"
    using v by (auto intro!: acc_bnd [OF acc] part_bnd [OF part] wi.link_steps simp: moves_def repeat_in_def)
qed (fact v)

lemma finish_repeat_ok:
  "repeat_in subj cptr r \<Longrightarrow> cptr \<le> length subj \<Longrightarrow>
     in_bounds (within pat subj) (finish_repeat node next cptr r) (moves subj cptr)"
  by (cases r) (auto simp: finish_repeat_def repeat_in_def intro!: accept_at_ok reject_ok split: option.splits)

lemma finish_repeat_z_ok:
  "repeat_in subj cptr r \<Longrightarrow> cptr \<le> length subj \<Longrightarrow>
     in_bounds (within pat subj) (finish_repeat_z node next cptr r) (moves subj cptr)"
  by (cases r) (auto simp: finish_repeat_z_def repeat_in_def intro!: accept_at_ok split: option.splits)

lemma repetitions_ok:
  assumes acc: "acc_ok pat subj acc" and part: "part_ok pat subj part" and c: "cptr \<le> length subj"
  shows "in_bounds (within pat subj) (accepts_repeat n acc part node nd cptr nn) (moves subj cptr)"
    and "in_bounds (within pat subj) (accepts_repeat_nongreedy n acc part node nd cptr nn) (moves subj cptr)"
    and "in_bounds (within pat subj) (accepts_repeat_z n acc part node nd cptr nn) (moves subj cptr)"
    and "in_bounds (within pat subj) (accepts_repeat_z_nongreedy n acc part node nd cptr nn) (moves subj cptr)"
proof -
  have start: "repeat_in subj cptr (cptr, nn, 0, None)" "repeat_in subj cptr (cptr, nn, 0, Some cptr)"
    using c by (auto simp: repeat_in_def)
  show "in_bounds (within pat subj) (accepts_repeat n acc part node nd cptr nn) (moves subj cptr)"
    unfolding accepts_repeat_def
    by (intro in_bounds_bnd [OF GET_NEXT_NODE_ok] in_bounds_bnd [OF greedy_loop_ok [OF acc part start(1)]]
        finish_repeat_ok c)
  show "in_bounds (within pat subj) (accepts_repeat_nongreedy n acc part node nd cptr nn) (moves subj cptr)"
    unfolding accepts_repeat_nongreedy_def
    by (intro in_bounds_bnd [OF GET_NEXT_NODE_ok] in_bounds_bnd [OF nongreedy_loop_ok [OF acc part start(1)]]
        finish_repeat_ok c)
  show "in_bounds (within pat subj) (accepts_repeat_z n acc part node nd cptr nn) (moves subj cptr)"
    unfolding accepts_repeat_z_def
    by (intro in_bounds_bnd [OF GET_NEXT_NODE_ok] in_bounds_bnd [OF greedy_loop_ok [OF acc part start(1)]]
        finish_repeat_z_ok c)
  have first: "in_bounds (within pat subj) (if nx = None then rret False else part nx cptr) (\<lambda>_. True)" for nx
    using part c by (auto simp: part_ok_def intro: in_bounds_ret)
  have loop: "in_bounds (within pat subj) (if m then rret (cptr, nn, 0, Some cptr)
      else nongreedy_loop n acc part (rn_children nd) nx (cptr, nn, 0, None)) (repeat_in subj cptr)" for m nx
    using start by (auto intro!: in_bounds_ret nongreedy_loop_ok [OF acc part])
  show "in_bounds (within pat subj) (accepts_repeat_z_nongreedy n acc part node nd cptr nn) (moves subj cptr)"
    unfolding accepts_repeat_z_nongreedy_def
    by (intro in_bounds_bnd [OF GET_NEXT_NODE_ok] in_bounds_bnd [OF first] in_bounds_bnd [OF loop] finish_repeat_z_ok c)
qed

lemma accepts_repeat_n_ok:
  assumes acc: "acc_ok pat subj acc" and c: "cptr \<le> length subj"
  shows "in_bounds (within pat subj) (accepts_repeat_n n acc node nd cptr nn) (moves subj cptr)"
proof -
  define K where "K = (\<lambda>c1. cptr \<le> c1 \<and> c1 \<le> length subj)"
  have "in_bounds (within pat subj) (case v of (cptr, nnext, matched, accepted) \<Rightarrow>
     rbnd (acc (rn_children nd) cptr nnext) (\<lambda>(a, c1, nn1).
     if \<not> a then rret (Inr (accepted, c1, nn1))
     else if matched + 1 \<ge> rn_repeat_min nd then
       rret (if matched + 1 = rn_repeat_max nd then Inr (True, c1, nn1) else Inl (c1, nn1, matched + 1, True))
     else rret (Inl (c1, nn1, matched + 1, accepted))))
     (\<lambda>r. case r of Inl v \<Rightarrow> K (fst v) | Inr (a, c1, nn) \<Rightarrow> K c1)"
    if "K (fst v)" for v :: "nat \<times> rptr \<times> int \<times> bool"
    using that by (cases v) (auto intro!: acc_bnd [OF acc] wi.link_steps simp: moves_def K_def)
  then have "in_bounds (within pat subj) (repeat_n_loop n acc nd (cptr, nn, 0, False)) (\<lambda>(a, c1, nn). K c1)"
    unfolding repeat_n_loop_def
    by (rule in_bounds_loop [where K = "\<lambda>v. K (fst v)"]) (use c in \<open>auto simp: K_def\<close>)
  then show ?thesis
    unfolding accepts_repeat_n_def
    by (rule in_bounds_bnd) (auto intro!: accept_at_ok reject_ok simp: K_def)
qed

lemma accepts_maybe_ok:
  assumes "acc_ok pat subj acc" "cptr \<le> length subj"
  shows "in_bounds (within pat subj) (accepts_maybe acc node nd cptr nn) (moves subj cptr)"
  unfolding accepts_maybe_def using assms(2)
  by (intro acc_bnd [OF assms]) (auto intro!: accept_at_ok simp: moves_def split: if_splits)

subsection \<open>Characters and classes\<close>

definition in_class :: "bytes \<Rightarrow> nat \<times> int \<Rightarrow> bool" where
  "in_class pat v = (int (fst v) + snd v \<le> int (length pat))"

lemma pat_if_ok:
  assumes "b \<Longrightarrow> i \<le> length pat" "\<And>c. in_bounds (within pat subj) (f c) (\<lambda>_. True)"
  shows "in_bounds (within pat subj) (if b then rbnd (pat_at i) f else rret None) (\<lambda>_. True)"
  using assms by (auto intro!: in_bounds_bnd [OF wi.pat_at_ok] in_bounds_ret)

lemma cclass_round_ok:
  assumes v: "in_class pat v" and c: "cptr < length subj"
  shows "in_bounds (within pat subj) (cclass_round node c cptr nn v)
     (\<lambda>r. case r of Inl v1 \<Rightarrow> in_class pat v1 | Inr x \<Rightarrow> moves subj cptr x)" (is "in_bounds _ _ ?Q")
proof -
  obtain start len where v1: "v = (start, len)" by (cases v)
  have acc: "in_bounds (within pat subj) (rbnd (accept_at node (cptr + 1)) (\<lambda>r. rret (Inr r))) ?Q"
    using c by (intro in_bounds_bnd [OF accept_at_ok [where cptr = cptr]] in_bounds_ret) auto
  have nxt: "in_bounds (within pat subj) (rbnd (SET_NEXT_NODE node (cptr + 1)) (\<lambda>_. rret (Inr (True, cptr + 1, nn)))) ?Q"
    using c by (intro in_bounds_bnd [OF SET_NEXT_NODE_ok] in_bounds_ret) (simp add: moves_def)
  have rend: "in_bounds (within pat subj) (if len > 2 then rbnd (pat_at (start + 1)) (\<lambda>rnext.
             if rnext = ch CHR ''-'' then rbnd (pat_at (start + 2)) (\<lambda>rend. rret (if rend \<noteq> 0 then Some rend else None))
             else rret None) else rret None) (\<lambda>r. r \<noteq> None \<longrightarrow> len > 2)"
    using v by (auto simp: v1 in_class_def intro!: in_bounds_bnd [OF wi.pat_at_ok] wi.link_steps)
  have esc: "in_bounds (within pat subj) (if rc = bslash \<and> len > 1 then rbnd (pat_at (start + 1)) (\<lambda>rnext. rret (bracket_escape rnext))
               else rret None) (\<lambda>r. r \<noteq> None \<longrightarrow> len > 1)" for rc
    using v by (auto simp: v1 in_class_def intro!: in_bounds_bnd [OF wi.pat_at_ok] wi.link_steps)
  have single: "in_bounds (within pat subj) (case cls of
           Some f \<Rightarrow> if f c then rbnd (SET_NEXT_NODE node (cptr + 1)) (\<lambda>_. rret (Inr (True, cptr + 1, nn)))
             else rret (Inl (start + 2, len - 2))
         | None \<Rightarrow> if rc = c then rbnd (accept_at node (cptr + 1)) (\<lambda>r. rret (Inr r))
             else rret (Inl (start + 1, len - 1))) ?Q"
    if "cls \<noteq> None \<longrightarrow> len > 1" "len > 0" for cls rc
    using that v acc nxt by (auto simp: v1 in_class_def intro!: in_bounds_ret split: option.split)
  have branches: "in_bounds (within pat subj) (case rend of
       Some e \<Rightarrow> if sint c \<ge> sint rc \<and> sint c \<le> sint e then rbnd (accept_at node (cptr + 1)) (\<lambda>r. rret (Inr r))
         else rret (Inl (start + 3, len - 3))
     | None \<Rightarrow> rbnd (if rc = bslash \<and> len > 1 then rbnd (pat_at (start + 1)) (\<lambda>rnext. rret (bracket_escape rnext))
               else rret None) (\<lambda>cls.
         case cls of
           Some f \<Rightarrow> if f c then rbnd (SET_NEXT_NODE node (cptr + 1)) (\<lambda>_. rret (Inr (True, cptr + 1, nn)))
             else rret (Inl (start + 2, len - 2))
         | None \<Rightarrow> if rc = c then rbnd (accept_at node (cptr + 1)) (\<lambda>r. rret (Inr r))
             else rret (Inl (start + 1, len - 1)))) ?Q"
    if "rend \<noteq> None \<longrightarrow> len > 2" "len > 0" for rend rc
  proof (cases rend)
    case None
    show ?thesis unfolding None option.case
      by (rule in_bounds_bnd [OF esc]) (rule single [OF _ that(2)])
  next
    case (Some e)
    then show ?thesis using that v acc by (auto simp: v1 in_class_def intro!: in_bounds_ret)
  qed
  show ?thesis
    unfolding cclass_round_def v1 split_conv
  proof (rule in_bounds_if)
    assume "len \<le> 0"
    then show "in_bounds (within pat subj) (rret (Inr (False, cptr, nn))) ?Q"
      by (intro in_bounds_ret) (simp add: moves_def)
  next
    assume pos: "\<not> len \<le> 0"
    then have st: "start \<le> length pat" using v by (simp add: v1 in_class_def)
    show "in_bounds (within pat subj) (rbnd (pat_at start) (\<lambda>rc.
       rbnd (if len > 2 then rbnd (pat_at (start + 1)) (\<lambda>rnext.
             if rnext = ch CHR ''-'' then rbnd (pat_at (start + 2)) (\<lambda>rend. rret (if rend \<noteq> 0 then Some rend else None))
             else rret None)
           else rret None) (\<lambda>rend.
     case rend of
       Some e \<Rightarrow>
         if sint c \<ge> sint rc \<and> sint c \<le> sint e then rbnd (accept_at node (cptr + 1)) (\<lambda>r. rret (Inr r))
         else rret (Inl (start + 3, len - 3))
     | None \<Rightarrow>
         rbnd (if rc = bslash \<and> len > 1 then rbnd (pat_at (start + 1)) (\<lambda>rnext. rret (bracket_escape rnext))
               else rret None) (\<lambda>cls.
         case cls of
           Some f \<Rightarrow>
             if f c then rbnd (SET_NEXT_NODE node (cptr + 1)) (\<lambda>_. rret (Inr (True, cptr + 1, nn)))
             else rret (Inl (start + 2, len - 2))
         | None \<Rightarrow>
             if rc = c then rbnd (accept_at node (cptr + 1)) (\<lambda>r. rret (Inr r))
             else rret (Inl (start + 1, len - 1)))))) ?Q"
      by (rule in_bounds_bnd [OF wi.pat_at_ok [OF st]], rule in_bounds_bnd [OF rend], erule branches) (use pos in simp)
  qed
qed

lemma accepts_cclass_ok:
  assumes "cptr < length subj" "key_within pat (node_key nd)" "rn_type nd = NODE_CCLASS"
  shows "in_bounds (within pat subj) (accepts_cclass n node nd c cptr nn) (moves subj cptr)"
proof (cases "rn_tok nd")
  case (Some t)
  show ?thesis
    unfolding accepts_cclass_def Some option.case
    by (rule in_bounds_loop [where K = "in_class pat", OF cclass_round_ok])
      (use assms Some in \<open>auto simp: key_within_def node_key_def in_class_def\<close>)
qed (simp add: accepts_cclass_def in_bounds_stop)

lemma accepts_eclass_ok:
  "cptr < length subj \<Longrightarrow> in_bounds (within pat subj) (accepts_eclass node nd c cptr nn) (moves subj cptr)"
  unfolding accepts_eclass_def
  by (cases "rn_eclass_type nd") (auto intro!: accept_at_ok reject_ok in_bounds_stop)

subsection \<open>The matcher as a whole\<close>

lemma accepts_with_ok:
  assumes acc: "acc_ok pat subj acc" and part: "part_ok pat subj part"
  shows "acc_ok pat subj (accepts_with n acc part)"
  unfolding acc_ok_def
proof (intro allI impI)
  fix node cptr nn assume c: "cptr \<le> length subj"
  have "in_bounds (within pat subj) (if c = 0 \<and> rn_type nd \<noteq> NODE_ANCHOR \<and> rn_type nd \<noteq> NODE_PROGRAM then reject cptr nn
     else case rn_type nd of
       NODE_PROGRAM \<Rightarrow> accepts_group acc node nd cptr nn
     | NODE_GROUP \<Rightarrow> accepts_group acc node nd cptr nn
     | NODE_ANCHOR \<Rightarrow> accepts_anchor nd c cptr nn
     | NODE_ATOM \<Rightarrow> accepts_atom node nd c cptr nn
     | NODE_OR \<Rightarrow> accepts_or n acc nd cptr nn
     | NODE_REPEAT \<Rightarrow> accepts_repeat n acc part node nd cptr nn
     | NODE_REPEAT_NONGREEDY \<Rightarrow> accepts_repeat_nongreedy n acc part node nd cptr nn
     | NODE_REPEAT_Z \<Rightarrow> accepts_repeat_z n acc part node nd cptr nn
     | NODE_REPEAT_Z_NONGREEDY \<Rightarrow> accepts_repeat_z_nongreedy n acc part node nd cptr nn
     | NODE_REPEAT_N \<Rightarrow> accepts_repeat_n n acc node nd cptr nn
     | NODE_MAYBE \<Rightarrow> accepts_maybe acc node nd cptr nn
     | NODE_CCLASS \<Rightarrow> accepts_cclass n node nd c cptr nn
     | NODE_ECLASS \<Rightarrow> accepts_eclass node nd c cptr nn
     | NODE_DOT \<Rightarrow> accept_at node (cptr + 1)) (moves subj cptr)"
    if "key_within pat (node_key nd)" "c \<noteq> 0 \<longrightarrow> cptr < length subj" for c nd
    using that \<open>cptr \<le> length subj\<close>
    by (cases "rn_type nd")
      (auto intro!: reject_ok accepts_group_ok accepts_anchor_ok accepts_atom_ok accepts_or_ok repetitions_ok
        accepts_repeat_n_ok accepts_maybe_ok accepts_cclass_ok accepts_eclass_ok accept_at_ok acc part)
  then show "in_bounds (within pat subj) (accepts_with n acc part node cptr nn) (moves subj cptr)"
    unfolding accepts_with_def
    by (intro in_bounds_bnd [OF wi.text_at_ok [OF c]] in_bounds_bnd [OF node_at_within]) blast
qed

text \<open>A result that lies in the text.\<close>

definition match_in :: "bytes \<Rightarrow> nat \<Rightarrow> matchdata \<Rightarrow> bool" where
  "match_in subj string md \<longleftrightarrow>
     (md_matched md \<longrightarrow> md_start md \<ge> 0 \<and> md_len md \<ge> 0 \<and> int string + md_start md + md_len md \<le> int (length subj))"

definition vars_in :: "bytes \<Rightarrow> nat \<Rightarrow> mvars \<Rightarrow> bool" where
  "vars_in subj string v \<longleftrightarrow> string \<le> mv_start v \<and> mv_start v \<le> mv_cptr v \<and> mv_cptr v \<le> length subj"

lemma beg_anchor_ok: "in_bounds (within pat subj) (beg_anchor v) (\<lambda>_. True)"
  unfolding beg_anchor_def by (intro wi.link_steps in_bounds_bnd [OF wi.node_at_ok])

lemma match_round_ok:
  assumes acc: "acc_ok pat subj acc" and v: "vars_in subj string v"
  shows "in_bounds (within pat subj) (match_round acc string v)
     (\<lambda>r. case r of Inl v1 \<Rightarrow> vars_in subj string v1 | Inr (Inl md) \<Rightarrow> match_in subj string md
        | Inr (Inr v1) \<Rightarrow> vars_in subj string v1)"
proof -
  have c: "mv_cptr v \<le> length subj" using v by (simp add: vars_in_def)
  show ?thesis
    unfolding match_round_def Let_def
    by (intro in_bounds_bnd [OF wi.text_at_ok [OF c]] in_bounds_if in_bounds_bnd [OF beg_anchor_ok] acc_bnd [OF acc c])
      (use v in \<open>auto intro!: wi.link_steps in_bounds_bnd [OF wi.node_at_ok] split: if_splits
        simp: vars_in_def moves_def match_in_def match_of_def no_match_def\<close>)
qed

lemma match_anchors_ok:
  assumes acc: "acc_ok pat subj acc" and c: "cptr \<le> length subj"
  shows "in_bounds (within pat subj) (match_anchors n acc node cptr) (\<lambda>_. True)"
  unfolding match_anchors_def
proof (rule in_bounds_loop [where K = "\<lambda>v. fst (snd v) \<le> length subj"])
  fix v :: "rptr \<times> nat \<times> rptr \<times> bool"
  assume v: "fst (snd v) \<le> length subj"
  obtain node cptr nn l where "v = (node, cptr, nn, l)" by (cases v)
  then show "in_bounds (within pat subj) (case v of (node, cptr, nnext, accepted) \<Rightarrow>
     if node = None then rret (Inr accepted)
     else rbnd (acc node cptr nnext) (\<lambda>(a, c1, nn1). rret (if a then Inl (nn1, c1, nn1, True) else Inr False)))
     (\<lambda>r. case r of Inl v \<Rightarrow> fst (snd v) \<le> length subj | Inr b \<Rightarrow> True)"
    using v by (auto intro!: acc_bnd [OF acc] wi.link_steps simp: moves_def)
qed (use c in simp)

lemma match_end_ok:
  assumes acc: "acc_ok pat subj acc" and v: "vars_in subj string v"
  shows "in_bounds (within pat subj) (match_end n acc string v) (match_in subj string)"
proof -
  have c: "mv_cptr v \<le> length subj" using v by (simp add: vars_in_def)
  have nd: "in_bounds (within pat subj)
      (if x = None then rret None else rbnd (node_at x) (\<lambda>nd. rret (Some nd))) (\<lambda>_. True)" for x
    by (intro wi.link_steps in_bounds_bnd [OF wi.node_at_ok])
  show ?thesis
    unfolding match_end_def
    by (intro in_bounds_bnd [OF wi.text_at_ok [OF c]] in_bounds_bnd [OF nd])
      (use v in \<open>auto intro!: wi.link_steps in_bounds_bnd [OF match_anchors_ok [OF acc c]] split: option.split
        simp: vars_in_def match_in_def match_of_def no_match_def\<close>)
qed

lemma match_with_ok:
  assumes acc: "acc_ok pat subj acc" and c: "string \<le> length subj"
  shows "in_bounds (within pat subj) (match_with n acc re string) (match_in subj string)"
proof -
  define v0 where "v0 = \<lparr>mv_cptr = string, mv_start = string, mv_node = re_node re, mv_begAnchorFound = False,
                mv_anchored = False, mv_lastAccept = False\<rparr>"
  have v0: "vars_in subj string v0" using c by (simp add: vars_in_def v0_def)
  have "in_bounds (within pat subj) (rloop n (match_round acc string) v0)
     (\<lambda>r. case r of Inl md \<Rightarrow> match_in subj string md | Inr v \<Rightarrow> vars_in subj string v)"
    by (rule in_bounds_loop [where K = "vars_in subj string", OF in_bounds_weaken [OF match_round_ok [OF acc]] v0])
      (auto split: sum.splits)
  then have "in_bounds (within pat subj) (rbnd (rloop n (match_round acc string) v0)
      (\<lambda>r. case r of Inl md \<Rightarrow> rret md | Inr v \<Rightarrow> match_end n acc string v)) (match_in subj string)"
    by (rule in_bounds_bnd) (auto intro!: in_bounds_ret match_end_ok [OF acc] split: sum.splits)
  then show ?thesis
    unfolding match_with_def v0_def [symmetric] regex_blank_out_group_captures_def
    by (intro wi.link_steps wi.blank_out_ok) (use c in \<open>auto simp: match_in_def no_match_def\<close>)
qed

lemma part_match_with_ok:
  assumes acc: "acc_ok pat subj acc"
  shows "part_ok pat subj (part_match_with n acc)"
  unfolding part_ok_def
proof (intro allI impI)
  fix node c assume c: "c \<le> length subj"
  have dup: "in_bounds (within pat subj) (dup_node node) (\<lambda>_. True)"
    unfolding dup_node_def by (rule in_bounds_bnd [OF node_at_within alloc_node_ok])
  have anch: "in_bounds (within pat subj) (insert_bol_anchor n beg) (\<lambda>_. True)" for beg
    unfolding insert_bol_anchor_def by (intro parser_steps) (simp_all add: node_key_def)
  show "in_bounds (within pat subj) (part_match_with n acc node c) (\<lambda>_. True)"
    unfolding part_match_with_def new_program_node_def
    by (intro parser_steps in_bounds_bnd [OF dup] in_bounds_bnd [OF anch] in_bounds_bnd [OF match_with_ok [OF acc c]])
      (simp_all add: node_key_def)
qed

lemma node_accepts_ch_ok: "acc_ok pat subj (node_accepts_ch n)"
proof (induction n)
  case 0
  then show ?case by (simp add: acc_ok_def in_bounds_stop)
next
  case (Suc n)
  then show ?case
    using accepts_with_ok [OF Suc part_match_with_ok [OF Suc], of n n] by (simp add: acc_ok_def)
qed

lemma regex_match_ok: "string \<le> length subj \<Longrightarrow> in_bounds (within pat subj) (regex_match n re string) (match_in subj string)"
  unfolding regex_match_def by (rule match_with_ok [OF node_accepts_ch_ok])

lemma within_start: "within pat subj (compile_state pat subj)"
  by (simp add: within_def compile_state_def regex_init_def)

text \<open>C8: whatever the pattern and the text, compiling and matching never read outside of the two, and
  a match that is found lies in the text.\<close>

theorem regex_stays_in_bounds:
  "case match_pattern n pat subj of Inl e \<Rightarrow> e \<noteq> RBounds | Inr None \<Rightarrow> True | Inr (Some md) \<Rightarrow> match_in subj 0 md"
proof (cases "regex_compile n (compile_state pat subj)")
  case (Inl e)
  then show ?thesis
    using in_boundsD [OF regex_compile_ok within_start, of n pat subj] by (auto simp: match_pattern_def)
next
  case (Inr r)
  then obtain res s where r: "regex_compile n (compile_state pat subj) = Inr (res, s)" by (cases r) auto
  have "within pat subj s"
    using in_bounds_result [OF regex_compile_ok within_start r] by simp
  from in_boundsD [OF regex_match_ok this] in_bounds_result [OF regex_match_ok this]
  show ?thesis
    by (fastforce simp: match_pattern_def r split: sum.split)
qed

subsection \<open>A group with an error never ends\<close>

text \<open>Equations to run actions.\<close>

named_theorems run_simps

lemma run_equations [run_simps]:
  "rret a s = Inr (a, s)" "rskip s = Inr ((), s)" "rgets h s = Inr (h s, s)" "rmodify g s = Inr ((), g s)"
  "rstop e s = Inl e"
  "rbnd m f s = (case m s of Inl e \<Rightarrow> Inl e | Inr (a, s1) \<Rightarrow> f a s1)"
  "rthn u m s = (case u s of Inl e \<Rightarrow> Inl e | Inr (a, s1) \<Rightarrow> m s1)"
  "rwhen b u s = (if b then u s else Inr ((), s))" "rassert b s = (if b then Inr ((), s) else Inl RAbort)"
  "(if b then m else m1) s = (if b then m s else m1 s)"
  by (auto simp: rret_def rskip_def rgets_def rmodify_def rstop_def rbnd_def rthn_def rwhen_def rassert_def)

lemma pat_at_run [run_simps]:
  "re_src (rs_regex s) = Some pat \<Longrightarrow> i < length pat \<Longrightarrow> pat_at i s = Inr (pat ! i, s)"
  "re_src (rs_regex s) = Some pat \<Longrightarrow> pat_at (length pat) s = Inr (0, s)"
  by (auto simp: pat_at_def char_of_def run_simps)

lemma text_at_run [run_simps]:
  "i < length (rs_text s) \<Longrightarrow> text_at i s = Inr (rs_text s ! i, s)"
  "rs_text s = subj \<Longrightarrow> text_at (length subj) s = Inr (0, s)"
  by (auto simp: text_at_def char_of_def run_simps)

lemma node_at_run [run_simps]:
  "i < length (rs_nodes s) \<Longrightarrow> node_at (Some i) s = Inr (rs_nodes s ! i, s)"
  "i < length (rs_nodes s) \<Longrightarrow> rfield f (Some i) s = Inr (f (rs_nodes s ! i), s)"
  "i < length (rs_nodes s) \<Longrightarrow> set_node (Some i) g s = Inr ((), s\<lparr>rs_nodes := (rs_nodes s)[i := g (rs_nodes s ! i)]\<rparr>)"
  "alloc_node nd s = Inr (Some (length (rs_nodes s)), s\<lparr>rs_nodes := rs_nodes s @ [nd]\<rparr>)"
  by (auto simp: node_at_def rfield_def set_node_def alloc_node_def run_equations)

lemma group_children_stuck:
  "re_src (rs_regex s) = Some pat \<Longrightarrow> p < length pat \<Longrightarrow> pat ! p \<noteq> 0 \<Longrightarrow> pat ! p \<noteq> ch CHR '')'' \<Longrightarrow> err \<noteq> 0 \<Longrightarrow>
     group_children n (regex_parse_node m) grp (None, p, err) s = Inl RFuel"
proof (induction n arbitrary: s)
  case (Suc n)
  then show ?case
    by (cases m) (simp_all add: group_children_def run_simps parse_node_with_def no_node_def set_begOrNode_def)
qed (simp add: group_children_def run_simps)

lemma group_error_run:
  assumes "c \<in> set (ascii ''|+*?{'')" "re_src (rs_regex s) = Some (ch CHR ''('' # c # rest)" "rs_begOrNode s = None"
  shows "group_children n (regex_parse_node m) grp (None, 1, 0) s = Inl RFuel"
proof (cases n)
  case (Suc k)
  have c: "c \<noteq> 0" "c \<noteq> ch CHR '')''" using assms(1) by (auto simp: ascii_def)
  have "regex_parse_node (Suc j) grp None 1 0 s = Inr ((None, 1, -1), s)" for j
    using assms
    by (auto simp: ascii_def run_simps pat_at_run(1) [OF assms(2)] parse_node_with_def no_node_def parse_or_def
        parse_repeat_def parse_maybe_def parse_repeat_n_def bslash_def)
  then show ?thesis
    using group_children_stuck [of "s\<lparr>rs_begOrNode := None\<rparr>" "ch CHR ''('' # c # rest" 1 "-1" k m grp] c assms(2)
    by (cases m) (simp_all add: Suc group_children_def run_simps pat_at_run(1) [OF assms(2)] set_begOrNode_def)
qed (simp add: group_children_def run_simps)

text \<open>C15: a pattern that starts with a group whose first character is an operator without operand is
  never compiled: however much fuel there is, the loop over the group does not end.\<close>

theorem group_error_never_ends:
  "list_all (\<lambda>c. match_pattern n (ch CHR ''('' # c # rest) text = Inl RFuel) (ascii ''|+*?{'')"
proof -
  have "regex_compile n (compile_state (ch CHR ''('' # c # rest) text) = Inl RFuel"
    if "c \<in> set (ascii ''|+*?{'')" for c
  proof (cases n)
    case (Suc k)
    then show ?thesis
      using group_error_run [OF that] that
      by (cases k)
       (auto simp: ascii_def run_simps regex_compile_def regex_parse_def new_program_node_def new_node_def parse_nodes_def parse_round_def
          compile_state_def regex_init_def fresh_node_def set_begOrNode_def parse_node_with_def parse_group_def
          node_add_child_def pat_at_run(1))
  qed (simp add: run_simps regex_compile_def regex_parse_def new_program_node_def new_node_def parse_nodes_def parse_round_def
          compile_state_def regex_init_def fresh_node_def set_begOrNode_def)
  then show ?thesis
    by (simp add: list_all_iff match_pattern_def)
qed

subsection \<open>Patterns of plain characters\<close>

definition plain :: "u8 \<Rightarrow> bool" where
  "plain c \<longleftrightarrow> c \<noteq> 0 \<and> c \<noteq> bslash \<and> c \<notin> set (ascii ''^$()|+*?{[.'')"

text \<open>The nodes after k characters: the program and a chain of atoms.\<close>

definition lit_node :: "nat \<Rightarrow> nat \<Rightarrow> rnode" where
  "lit_node k i = (fresh_node NODE_ATOM (Some i) 1 (Some 0) (if i = 0 then None else Some i))
     \<lparr>rn_next := (if Suc i < k then Some (i + 2) else None)\<rparr>"

definition lit_nodes :: "nat \<Rightarrow> rnode list" where
  "lit_nodes k = (fresh_node NODE_PROGRAM None 0 None None)\<lparr>rn_nodelen := int k, rn_children := (if k = 0 then None else Some 1)\<rparr>
     # map (lit_node k) [0..<k]"

definition lit_state :: "bytes \<Rightarrow> bytes \<Rightarrow> nat \<Rightarrow> rptr \<Rightarrow> rstate" where
  "lit_state pat subj k beg = \<lparr>rs_nodes = lit_nodes k, rs_regex = (regex_init pat None)\<lparr>re_node := Some 0\<rparr>,
     rs_text = subj, rs_begOrNode = beg\<rparr>"

definition lit_ptr :: "nat \<Rightarrow> rptr" where "lit_ptr k = (if k = 0 then None else Some k)"

lemma lit_nodes_length [simp]: "length (lit_nodes k) = Suc k"
  by (simp add: lit_nodes_def)

lemma lit_nodes_nth [simp]:
  "lit_nodes k ! 0 = (fresh_node NODE_PROGRAM None 0 None None)\<lparr>rn_nodelen := int k, rn_children := (if k = 0 then None else Some 1)\<rparr>"
  "i < k \<Longrightarrow> lit_nodes k ! Suc i = lit_node k i"
  by (simp_all add: lit_nodes_def)

lemma lit_state_fields [simp]:
  "re_src (rs_regex (lit_state pat subj k beg)) = Some pat" "rs_text (lit_state pat subj k beg) = subj"
  "rs_nodes (lit_state pat subj k beg) = lit_nodes k" "rs_begOrNode (lit_state pat subj k beg) = beg"
  "re_node (rs_regex (lit_state pat subj k beg)) = Some 0" "re_groups (rs_regex (lit_state pat subj k beg)) = []"
  by (simp_all add: lit_state_def regex_init_def)

lemma lit_nodes_first:
  "(lit_nodes 0 @ [nd])[0 := p] = [p, nd]"
  by (simp add: lit_nodes_def)

lemma lit_nodes_Suc:
  assumes "0 < k"
  shows "(lit_nodes k @ [fresh_node NODE_ATOM (Some k) 1 (Some 0) (Some k)])
     [0 := (lit_nodes k ! 0)\<lparr>rn_nodelen := int k + 1\<rparr>, k := (lit_nodes k ! k)\<lparr>rn_next := Some (Suc k)\<rparr>] = lit_nodes (Suc k)"
    (is "?l = ?r")
proof (rule nth_equalityI)
  fix i assume "i < length ?l"
  obtain j where k: "k = Suc j" using assms by (cases k) auto
  show "?l ! i = ?r ! i"
  proof (cases i)
    case (Suc h)
    then show ?thesis
      using \<open>i < length ?l\<close> by (auto simp: k nth_list_update nth_append lit_node_def fresh_node_def less_Suc_eq)
  qed (simp add: k)
qed simp

lemma parse_plain:
  assumes "k < length pat"
  shows "parse_single n NODE_ATOM (Some 0) (lit_ptr k) k err (lit_state pat subj k beg) =
    Inr ((Some (Suc k), Suc k, err), lit_state pat subj (Suc k) beg)"
proof (cases k)
  case 0
  show ?thesis
    by (simp add: 0 parse_single_def new_node_def node_add_child_def run_simps lit_ptr_def lit_state_def lit_nodes_def
        lit_node_def fresh_node_def)
next
  case (Suc j)
  then show ?thesis
    using lit_nodes_Suc [of k]
    by (simp add: parse_single_def new_node_def run_simps lit_ptr_def lit_state_def nth_append fresh_node_def)
qed

lemma parse_plain_node:
  assumes "k < length pat" "plain (pat ! k)"
  shows "regex_parse_node (Suc n) (Some 0) (lit_ptr k) k 0 (lit_state pat subj k beg) =
    Inr ((Some (Suc k), Suc k, 0), lit_state pat subj (Suc k) beg)"
  using assms parse_plain [OF assms(1)]
  by (simp add: parse_node_with_def run_simps plain_def ascii_def)

lemma parse_round_plain:
  assumes "k < length pat" "plain (pat ! k)"
  shows "parse_round (Suc n) (Some 0) (lit_ptr k, k) (lit_state pat subj k (lit_ptr (min k 1))) =
    Inr (Inl (lit_ptr (Suc k), Suc k), lit_state pat subj (Suc k) (Some 1))"
proof -
  have "lit_state pat subj (Suc k) None\<lparr>rs_begOrNode := Some 1\<rparr> = lit_state pat subj (Suc k) (Some 1)"
    by (simp add: lit_state_def)
  then show ?thesis
    using assms parse_plain_node [OF assms, of n subj "lit_ptr (min k 1)"]
    by (cases k) (simp_all add: parse_round_def run_simps plain_def set_begOrNode_def lit_ptr_def del: regex_parse_node.simps)
qed

lemma parse_plain_nodes:
  assumes "list_all plain pat" "k \<le> length pat" "length pat - k < m"
  shows "rloop m (parse_round (Suc n) (Some 0)) (lit_ptr k, k) (lit_state pat subj k (lit_ptr (min k 1))) =
   Inr (0, lit_state pat subj (length pat) (lit_ptr (min (length pat) 1)))"
  using assms(2,3)
proof (induction m arbitrary: k)
  case (Suc m)
  show ?case
  proof (cases "k < length pat")
    case True
    then have "plain (pat ! k)" using assms(1) by (simp add: list_all_length)
    moreover have "Some 1 = lit_ptr (min (Suc k) 1)" by (simp add: lit_ptr_def)
    ultimately show ?thesis
      using Suc.IH [of "Suc k"] Suc.prems True by (simp add: run_simps parse_round_plain [unfolded One_nat_def])
  next
    case False
    then have "k = length pat" using Suc.prems by simp
    then show ?thesis by (simp add: run_simps parse_round_def)
  qed
qed simp

lemma compile_plain:
  assumes "list_all plain pat" "length pat < n"
  shows "regex_compile n (compile_state pat subj) =
    Inr (REGEX_COMPILE_SUCCESS, lit_state pat subj (length pat) (lit_ptr (min (length pat) 1)))"
proof -
  obtain m where n: "n = Suc m" using assms(2) by (cases n) auto
  have "parse_nodes n (Some 0) (None, 0) (lit_state pat subj 0 None) =
     Inr (0, lit_state pat subj (length pat) (lit_ptr (min (length pat) 1)))"
    using parse_plain_nodes [OF assms(1), of 0 n m subj] assms(2)
    by (simp add: parse_nodes_def n lit_ptr_def)
  moreover have "regex_parse n (compile_state pat subj) = parse_nodes n (Some 0) (None, 0) (lit_state pat subj 0 None)"
    by (simp add: regex_parse_def new_program_node_def new_node_def run_simps set_begOrNode_def
        compile_state_def regex_init_def fresh_node_def lit_state_def lit_nodes_def)
  moreover have "re_src (rs_regex (compile_state pat subj)) = Some pat"
    by (simp add: compile_state_def regex_init_def)
  ultimately show ?thesis
    by (simp add: regex_compile_def run_simps fresh_node_def)
qed

subsection \<open>What a literal pattern matches\<close>

lemma match_atom:
  assumes "i < length pat" "c < length subj" "subj ! c \<noteq> 0"
  shows "node_accepts_ch (Suc n) (Some (Suc i)) c nn (lit_state pat subj (length pat) b) =
    Inr (if pat ! i = subj ! c then (True, Suc c, if Suc i < length pat then Some (i + 2) else None) else (False, c, nn),
      lit_state pat subj (length pat) b)"
  using assms
  by (simp add: accepts_with_def run_simps lit_node_def fresh_node_def accepts_atom_def accept_at_def reject_def SET_NEXT_NODE_def)

lemma match_root:
  assumes "pat \<noteq> []" "c < length subj" "subj ! c \<noteq> 0"
  shows "node_accepts_ch (Suc (Suc n)) (Some 0) c nn (lit_state pat subj (length pat) b) =
    node_accepts_ch (Suc n) (Some 1) c nn (lit_state pat subj (length pat) b)"
  using assms match_atom [of 0 pat c subj n nn b]
  by (simp add: accepts_with_def [of "Suc n"] run_simps fresh_node_def accepts_group_def del: node_accepts_ch.simps(2) [of n])

text \<open>The node at which the matcher is after i characters of the pattern.\<close>

definition lit_at :: "nat \<Rightarrow> rptr" where "lit_at i = Some (if i = 0 then 0 else Suc i)"

lemma match_step:
  assumes "i < length pat" "c < length subj" "subj ! c \<noteq> 0"
  shows "node_accepts_ch (Suc (Suc n)) (lit_at i) c nn (lit_state pat subj (length pat) b) =
    Inr (if pat ! i = subj ! c then (True, Suc c, if Suc i < length pat then lit_at (Suc i) else None) else (False, c, nn),
      lit_state pat subj (length pat) b)"
  using assms match_atom [OF assms, of "Suc n" nn b] match_atom [of 0 pat c subj n nn b] match_root [of pat c subj n nn b]
  by (cases i) (auto simp: lit_at_def simp del: node_accepts_ch.simps)

definition lit_vars :: "nat \<Rightarrow> mvars \<Rightarrow> bool" where
  "lit_vars i v \<longleftrightarrow> mv_node v = lit_at i \<and> \<not> mv_anchored v \<and> (i = 0 \<longrightarrow> \<not> mv_lastAccept v)"

lemma beg_anchor_plain:
  "lit_vars i v \<Longrightarrow> i < length pat \<Longrightarrow>
     beg_anchor v (lit_state pat subj (length pat) b) = Inr (False, lit_state pat subj (length pat) b)"
  by (cases i) (auto simp: beg_anchor_def lit_vars_def lit_at_def run_simps lit_node_def fresh_node_def)

lemma match_round_plain:
  assumes v: "lit_vars i v" and i: "i < length pat" and c: "mv_cptr v < length subj" "subj ! mv_cptr v \<noteq> 0"
  shows "match_round (node_accepts_ch (Suc (Suc n))) 0 v (lit_state pat subj (length pat) b) =
    Inr (if pat ! i = subj ! mv_cptr v then
       (if Suc i < length pat
        then Inl (v\<lparr>mv_cptr := Suc (mv_cptr v), mv_node := lit_at (Suc i), mv_begAnchorFound := True,
                    mv_anchored := False, mv_lastAccept := True\<rparr>)
        else Inr (Inl (match_of 0 (mv_start v) (Suc (mv_cptr v)))))
     else Inl (v\<lparr>mv_cptr := Suc (mv_cptr v), mv_start := Suc (mv_cptr v), mv_begAnchorFound := True,
                 mv_anchored := False, mv_lastAccept := False\<rparr>), lit_state pat subj (length pat) b)"
proof -
  have node: "mv_node v = lit_at i" using v by (simp add: lit_vars_def)
  have "lit_at (Suc i) = Some (Suc (Suc i))" by (simp add: lit_at_def)
  then show ?thesis
    using i c match_step [OF i c, of n None b]
    by (simp add: match_round_def run_simps node beg_anchor_plain [OF v i] Let_def del: node_accepts_ch.simps)
qed

lemma match_end_plain:
  assumes v: "lit_vars i v" and i: "i < length pat" and c: "mv_cptr v = length subj"
  shows "match_end (Suc n) (node_accepts_ch (Suc (Suc m))) 0 v (lit_state pat subj (length pat) b) =
    Inr (no_match, lit_state pat subj (length pat) b)"
  using assms
  by (cases i) (auto simp: match_end_def lit_vars_def lit_at_def run_simps lit_node_def fresh_node_def match_anchors_def
      accepts_with_def accepts_group_def reject_def)

lemma match_loop_plain:
  assumes "lit_vars i v" "i < length pat" "mv_cptr v \<le> length subj" "length subj - mv_cptr v < m" "0 \<notin> set subj"
  shows "\<exists>r. rloop m (match_round (node_accepts_ch (Suc (Suc n))) 0) v (lit_state pat subj (length pat) b) =
      Inr (r, lit_state pat subj (length pat) b) \<and>
    (case r of Inl md \<Rightarrow> md_matched md \<and> subseq (drop i pat) (drop (mv_cptr v) subj)
     | Inr v1 \<Rightarrow> (\<exists>j. lit_vars j v1 \<and> j < length pat) \<and> mv_cptr v1 = length subj \<and>
         \<not> subseq (drop i pat) (drop (mv_cptr v) subj))"
  using assms(1-4)
proof (induction m arbitrary: i v)
  case (Suc m)
  let ?s = "lit_state pat subj (length pat) b"
  have pat: "drop i pat = pat ! i # drop (Suc i) pat" using Suc.prems(2) by (simp add: Cons_nth_drop_Suc)
  show ?case
  proof (cases "mv_cptr v < length subj")
    case True
    then have subj: "drop (mv_cptr v) subj = subj ! mv_cptr v # drop (Suc (mv_cptr v)) subj"
      by (simp add: Cons_nth_drop_Suc)
    have nz: "subj ! mv_cptr v \<noteq> 0" using True assms(5) by (metis nth_mem)
    note round = match_round_plain [OF Suc.prems(1,2) True nz, of n b]
    show ?thesis
    proof (cases "pat ! i = subj ! mv_cptr v \<and> \<not> Suc i < length pat")
      case True
      then have "drop (Suc i) pat = []" by simp
      then show ?thesis
        using True by (simp add: run_simps round pat subj match_of_def del: node_accepts_ch.simps)
    next
      case False
      define v1 where "v1 = (if pat ! i = subj ! mv_cptr v
        then v\<lparr>mv_cptr := Suc (mv_cptr v), mv_node := lit_at (Suc i), mv_begAnchorFound := True,
                    mv_anchored := False, mv_lastAccept := True\<rparr>
        else v\<lparr>mv_cptr := Suc (mv_cptr v), mv_start := Suc (mv_cptr v), mv_begAnchorFound := True,
                 mv_anchored := False, mv_lastAccept := False\<rparr>)"
      define i1 where "i1 = (if pat ! i = subj ! mv_cptr v then Suc i else i)"
      have "rloop (Suc m) (match_round (node_accepts_ch (Suc (Suc n))) 0) v ?s =
          rloop m (match_round (node_accepts_ch (Suc (Suc n))) 0) v1 ?s"
        using False by (auto simp: run_simps round v1_def simp del: node_accepts_ch.simps)
      moreover have v1: "lit_vars i1 v1" "i1 < length pat" and c1: "mv_cptr v1 = Suc (mv_cptr v)"
        using False Suc.prems(1,2)
        by (cases "pat ! i = subj ! mv_cptr v"; simp add: v1_def i1_def lit_vars_def)+
      moreover have sub: "subseq (drop i1 pat) (drop (Suc (mv_cptr v)) subj) = subseq (drop i pat) (drop (mv_cptr v) subj)"
        by (auto simp: i1_def pat subj)
      have "mv_cptr v1 \<le> length subj" "length subj - mv_cptr v1 < m"
        using Suc.prems(4) True c1 by auto
      note Suc.IH [OF v1 this, unfolded c1 sub]
      ultimately show ?thesis by (simp only:)
    qed
  next
    case False
    then have "mv_cptr v = length subj" using Suc.prems(3) by simp
    then show ?thesis
      using Suc.prems(1,2) by (auto simp: run_simps match_round_def pat)
  qed
qed simp

text \<open>C14: a pattern of plain characters matches a text exactly when its characters occur in the text in
  this order, with any others between them: the matcher never goes back to the start of the pattern.\<close>

theorem literal_matches_subsequence:
  assumes "pat \<noteq> []" "list_all plain pat" "0 \<notin> set subj" "length pat + length subj + 2 \<le> n"
  shows "\<exists>md. match_pattern n pat subj = Inr (Some md) \<and> (md_matched md \<longleftrightarrow> subseq pat subj)"
proof -
  obtain k where n: "n = Suc (Suc k)" using assms(4) by (cases n; cases "n - 1") auto
  let ?b = "lit_ptr (min (length pat) 1)"
  let ?s = "lit_state pat subj (length pat) ?b"
  define v where "v = \<lparr>mv_cptr = 0, mv_start = 0, mv_node = Some 0, mv_begAnchorFound = False,
                mv_anchored = False, mv_lastAccept = False\<rparr>"
  have v: "lit_vars 0 v" "mv_cptr v = 0" by (auto simp: lit_vars_def v_def lit_at_def)
  obtain r where r: "rloop n (match_round (node_accepts_ch n) 0) v ?s = Inr (r, ?s)"
    "case r of Inl md \<Rightarrow> md_matched md \<and> subseq pat subj
     | Inr v1 \<Rightarrow> (\<exists>j. lit_vars j v1 \<and> j < length pat) \<and> mv_cptr v1 = length subj \<and> \<not> subseq pat subj"
    using match_loop_plain [OF v(1), of pat subj n k ?b, unfolded v(2) drop_0 n [symmetric]] assms by auto
  have "regex_match n (rs_regex ?s) 0 ?s = (case r of Inl md \<Rightarrow> rret md | Inr v1 \<Rightarrow> match_end n (node_accepts_ch n) 0 v1) ?s"
    using r(1) assms(1)
    by (simp add: regex_match_def match_with_def run_simps regex_blank_out_group_captures_def v_def [symmetric] fresh_node_def)
  moreover have "\<exists>md. (case r of Inl md \<Rightarrow> rret md | Inr v1 \<Rightarrow> match_end n (node_accepts_ch n) 0 v1) ?s = Inr (md, ?s) \<and>
      (md_matched md \<longleftrightarrow> subseq pat subj)"
    using r(2) match_end_plain [of _ _ pat subj "Suc k" k ?b, unfolded n [symmetric]]
    by (auto simp: run_simps no_match_def split: sum.splits)
  ultimately show ?thesis
    using compile_plain [OF assms(2), of n subj] assms(4) by (auto simp: match_pattern_def)
qed

theorem literal_matches_subsequence_witness:
  "\<exists>md. match_pattern 9 (ascii ''abc'') (ascii ''abxc'') = Inr (Some md) \<and> md_matched md"
  using literal_matches_subsequence [of "ascii ''abc''" "ascii ''abxc''" 9] by (simp add: ascii_def plain_def bslash_def)

end
